(* ===== verification/Ratis_Prelude.thy ===== *)
theory Ratis_Prelude
  imports Main
begin

text \<open>
  Shared material of the development.

  The Python services run against one PostgreSQL session. An operation is modelled as a function
  from the database state to a result and the next state: \<open>Inl\<close> is a raised exception,
  \<open>Inr\<close> a returned value, and the state after an exception is the state the session had
  when it was raised (the enclosing \<open>db_transaction\<close> of \<open>db_utils.py\<close> rolls it back).
  The theory holds the combinators of that monad, the lemmas that take a sequence of
  operations apart, the notion of an invariant that every operation keeps, small facts on tables
  (lists of rows), and the locales that state the contracts several components share.
\<close>

section \<open>Operations on a session\<close>

type_synonym ('s, 'e, 'a) op = "'s \<Rightarrow> ('e + 'a) \<times> 's"

definition ret :: "'a \<Rightarrow> ('s, 'e, 'a) op" where
  "ret x = (\<lambda>s. (Inr x, s))"

definition throw :: "'e \<Rightarrow> ('s, 'e, 'a) op" where
  "throw e = (\<lambda>s. (Inl e, s))"

definition bnd :: "('s, 'e, 'a) op \<Rightarrow> ('a \<Rightarrow> ('s, 'e, 'b) op) \<Rightarrow> ('s, 'e, 'b) op" where
  "bnd m f = (\<lambda>s. case m s of (Inl e, s') \<Rightarrow> (Inl e, s') | (Inr x, s') \<Rightarrow> f x s')"

definition seq :: "('s, 'e, 'a) op \<Rightarrow> ('s, 'e, 'b) op \<Rightarrow> ('s, 'e, 'b) op" where
  "seq m n = bnd m (\<lambda>_. n)"

definition reads :: "('s \<Rightarrow> 'a) \<Rightarrow> ('s, 'e, 'a) op" where
  "reads f = (\<lambda>s. (Inr (f s), s))"

definition modify :: "('s \<Rightarrow> 's) \<Rightarrow> ('s, 'e, unit) op" where
  "modify f = (\<lambda>s. (Inr (), f s))"

definition guard :: "bool \<Rightarrow> 'e \<Rightarrow> ('s, 'e, unit) op" where
  "guard b e = (if b then ret () else throw e)"

text \<open>\<^verbatim>\<open>try: m except: h\<close>; the handler runs in the state the exception left behind.\<close>

definition catch :: "('s, 'e, 'a) op \<Rightarrow> ('e \<Rightarrow> ('s, 'e, 'a) op) \<Rightarrow> ('s, 'e, 'a) op" where
  "catch m h = (\<lambda>s. case m s of (Inl e, s') \<Rightarrow> h e s' | (Inr x, s') \<Rightarrow> (Inr x, s'))"

text \<open>\<^verbatim>\<open>for x in xs: f(x)\<close> with an accumulator.\<close>

primrec for_each :: "('x \<Rightarrow> 'a \<Rightarrow> ('s, 'e, 'a) op) \<Rightarrow> 'x list \<Rightarrow> 'a \<Rightarrow> ('s, 'e, 'a) op" where
  "for_each f [] acc = ret acc"
| "for_each f (x # xs) acc = bnd (f x acc) (for_each f xs)"

text \<open>The context manager \<open>db_transaction\<close>: commit on success, roll back and re-raise otherwise.\<close>

definition db_transaction :: "('s, 'e, 'a) op \<Rightarrow> ('s, 'e, 'a) op" where
  "db_transaction m = (\<lambda>s. case m s of (Inl e, _) \<Rightarrow> (Inl e, s) | (Inr x, s') \<Rightarrow> (Inr x, s'))"

named_theorems op_defs \<open>the combinators, unfolded\<close>
named_theorems run_iff \<open>when a composed operation returns, and with what\<close>
named_theorems keeps_intro \<open>invariants of composed operations\<close>
named_theorems preserves_intro \<open>invariants on return\<close>

lemmas op_core_defs [op_defs] =
  ret_def throw_def bnd_def seq_def reads_def modify_def guard_def catch_def db_transaction_def

lemma ret_run [simp]: "ret x s = (Inr x, s)"
  by (simp add: ret_def)

lemma throw_run [simp]: "throw e s = (Inl e, s)"
  by (simp add: throw_def)

lemma reads_run [simp]: "reads f s = (Inr (f s), s)"
  by (simp add: reads_def)

lemma modify_run [simp]: "modify f s = (Inr (), f s)"
  by (simp add: modify_def)

lemma guard_run [simp]: "guard b e s = (if b then Inr () else Inl e, s)"
  by (simp add: guard_def)

lemma bnd_ret [simp]: "bnd (ret x) f = f x"
  by (simp add: bnd_def fun_eq_iff)

lemma bnd_throw [simp]: "bnd (throw e) f = throw e"
  by (simp add: bnd_def fun_eq_iff)

lemma bnd_reads [simp]: "bnd (reads f) g s = g (f s) s"
  by (simp add: bnd_def)

lemma bnd_modify [simp]: "bnd (modify f) g s = g () (f s)"
  by (simp add: bnd_def)

lemma bnd_guard [simp]: "bnd (guard b e) f s = (if b then f () s else (Inl e, s))"
  by (simp add: bnd_def)

lemma seq_ret [simp]: "seq (ret x) n = n"
  by (simp add: seq_def)

lemma seq_throw [simp]: "seq (throw e) n = throw e"
  by (simp add: seq_def)

lemma seq_modify [simp]: "seq (modify f) n s = n (f s)"
  by (simp add: seq_def)

lemma seq_guard [simp]: "seq (guard b e) n s = (if b then n s else (Inl e, s))"
  by (simp add: seq_def)

lemma bnd_assoc [simp]: "bnd (bnd l f) g = bnd l (\<lambda>x. bnd (f x) g)"
  by (auto simp: bnd_def fun_eq_iff split: prod.splits sum.splits)

lemma bnd_seq [simp]: "bnd (seq l m) g = seq l (bnd m g)"
  by (simp add: seq_def)

lemma seq_bnd [simp]: "seq (bnd m f) n = bnd m (\<lambda>x. seq (f x) n)"
  by (simp add: seq_def)

lemma seq_seq [simp]: "seq (seq l m) n = seq l (seq m n)"
  by (simp add: seq_def)

lemma bnd_run_Inr: "m s = (Inr x, s') \<Longrightarrow> bnd m f s = f x s'"
  by (simp add: bnd_def)

lemma bnd_run_Inl: "m s = (Inl e, s') \<Longrightarrow> bnd m f s = (Inl e, s')"
  by (simp add: bnd_def)

lemma seq_run_Inr: "m s = (Inr x, s') \<Longrightarrow> seq m n s = n s'"
  by (simp add: seq_def bnd_def)

lemma seq_run_Inl: "m s = (Inl e, s') \<Longrightarrow> seq m n s = (Inl e, s')"
  by (simp add: seq_def bnd_def)

lemma bnd_Inr_iff [run_iff]:
  "bnd m f s = (Inr y, t) \<longleftrightarrow> (\<exists>x s'. m s = (Inr x, s') \<and> f x s' = (Inr y, t))"
  by (auto simp: bnd_def split: prod.splits sum.splits)

lemma seq_Inr_iff [run_iff]:
  "seq m n s = (Inr y, t) \<longleftrightarrow> (\<exists>x s'. m s = (Inr x, s') \<and> n s' = (Inr y, t))"
  by (simp add: seq_def bnd_Inr_iff)

lemma bnd_Inl_iff:
  "bnd m f s = (Inl e, t) \<longleftrightarrow>
     m s = (Inl e, t) \<or> (\<exists>x s'. m s = (Inr x, s') \<and> f x s' = (Inl e, t))"
  by (auto simp: bnd_def split: prod.splits sum.splits)

lemma seq_Inl_iff:
  "seq m n s = (Inl e, t) \<longleftrightarrow>
     m s = (Inl e, t) \<or> (\<exists>x s'. m s = (Inr x, s') \<and> n s' = (Inl e, t))"
  by (simp add: seq_def bnd_Inl_iff)

lemma db_transaction_Inr_iff [run_iff]:
  "db_transaction m s = (Inr x, t) \<longleftrightarrow> m s = (Inr x, t)"
  by (auto simp: db_transaction_def split: prod.splits sum.splits)

lemma db_transaction_Inl_iff:
  "db_transaction m s = (Inl e, t) \<longleftrightarrow> t = s \<and> (\<exists>s'. m s = (Inl e, s'))"
  by (auto simp: db_transaction_def split: prod.splits sum.splits)

lemma db_transaction_rollback:
  "fst (db_transaction m s) = Inl e \<Longrightarrow> snd (db_transaction m s) = s"
  by (auto simp: db_transaction_def split: prod.splits sum.splits)


lemma snd_db_transaction:
  "snd (db_transaction m s) = (case m s of (Inl e, _) \<Rightarrow> s | (Inr x, t) \<Rightarrow> t)"
  by (auto simp: db_transaction_def split: prod.splits sum.splits)


section \<open>Invariants of operations\<close>

text \<open>
  An operation keeps an invariant when every outcome does, also the state left behind by an
  exception; it establishes it on return when every returned state satisfies it.
\<close>

definition keeps :: "('s \<Rightarrow> bool) \<Rightarrow> ('s, 'e, 'a) op \<Rightarrow> bool" where
  "keeps I m \<longleftrightarrow> (\<forall>s. I s \<longrightarrow> I (snd (m s)))"

lemma keepsD: "keeps I m \<Longrightarrow> I s \<Longrightarrow> m s = (r, t) \<Longrightarrow> I t"
  by (force simp: keeps_def)

lemma keeps_snd: "keeps I m \<Longrightarrow> I s \<Longrightarrow> I (snd (m s))"
  by (simp add: keeps_def)

lemma keepsI: "(\<And>s r t. I s \<Longrightarrow> m s = (r, t) \<Longrightarrow> I t) \<Longrightarrow> keeps I m"
  by (auto simp: keeps_def) (metis prod.collapse)

text \<open>An invariant that depends only on what an operation leaves alone.\<close>

lemma keeps_frame:
  assumes "\<And>c. keeps (\<lambda>s. f s = c) m" and "\<And>s t. f t = f s \<Longrightarrow> I t = I s"
  shows "keeps I m"
proof (rule keepsI)
  fix s r t assume "I s" and run: "m s = (r, t)"
  have "f t = f s" using keepsD [OF assms(1) refl run] .
  from assms(2) [OF this] \<open>I s\<close> show "I t" by simp
qed

lemma keeps_ret [keeps_intro, simp]: "keeps I (ret x)"
  by (simp add: keeps_def)

lemma keeps_throw [keeps_intro, simp]: "keeps I (throw e)"
  by (simp add: keeps_def)

lemma keeps_reads [keeps_intro, simp]: "keeps I (reads f)"
  by (simp add: keeps_def)

lemma keeps_guard [keeps_intro, simp]: "keeps I (guard b e)"
  by (simp add: keeps_def)

lemma keeps_modify: "(\<And>s. I s \<Longrightarrow> I (f s)) \<Longrightarrow> keeps I (modify f)"
  by (simp add: keeps_def)

lemma keeps_bnd [keeps_intro]:
  assumes "keeps I m" and "\<And>x. keeps I (f x)"
  shows "keeps I (bnd m f)"
proof (rule keepsI)
  fix s r t assume "I s" and run: "bnd m f s = (r, t)"
  obtain r' s' where m: "m s = (r', s')" by force
  with assms(1) \<open>I s\<close> have "I s'" by (rule keepsD)
  with run m assms(2) show "I t"
    by (cases r') (auto simp: bnd_def dest: keepsD)
qed

lemma keeps_seq [keeps_intro]: "keeps I m \<Longrightarrow> keeps I n \<Longrightarrow> keeps I (seq m n)"
  by (simp add: seq_def keeps_bnd)

lemma keeps_catch [keeps_intro]:
  assumes "keeps I m" and "\<And>e. keeps I (h e)"
  shows "keeps I (catch m h)"
proof (rule keepsI)
  fix s r t assume "I s" and run: "catch m h s = (r, t)"
  obtain r' s' where m: "m s = (r', s')" by force
  with assms(1) \<open>I s\<close> have "I s'" by (rule keepsD)
  with run m assms(2) show "I t"
    by (cases r') (auto simp: catch_def dest: keepsD)
qed

lemma keeps_if [keeps_intro]:
  "(b \<Longrightarrow> keeps I m) \<Longrightarrow> (\<not> b \<Longrightarrow> keeps I n) \<Longrightarrow> keeps I (if b then m else n)"
  by simp

lemma keeps_case_option [keeps_intro]:
  "(x = None \<Longrightarrow> keeps I m) \<Longrightarrow> (\<And>y. x = Some y \<Longrightarrow> keeps I (f y)) \<Longrightarrow>
   keeps I (case x of None \<Rightarrow> m | Some y \<Rightarrow> f y)"
  by (cases x) simp_all

lemma keeps_for_each [keeps_intro]:
  "(\<And>x acc. keeps I (f x acc)) \<Longrightarrow> keeps I (for_each f xs acc)"
  by (induction xs arbitrary: acc) (simp_all add: keeps_bnd)

lemma keeps_transaction [keeps_intro]: "keeps I m \<Longrightarrow> keeps I (db_transaction m)"
  by (force simp: keeps_def db_transaction_def split: prod.splits sum.splits)

text \<open>
  Inside a transaction an exception may leave a half-written state behind, which the roll back
  undoes; what the transaction needs of its body is that every \<^emph>\<open>returned\<close> state is good.
\<close>

definition preserves :: "('s \<Rightarrow> bool) \<Rightarrow> ('s, 'e, 'a) op \<Rightarrow> bool" where
  "preserves I m \<longleftrightarrow> (\<forall>s x t. I s \<longrightarrow> m s = (Inr x, t) \<longrightarrow> I t)"

lemma preservesI: "(\<And>s x t. I s \<Longrightarrow> m s = (Inr x, t) \<Longrightarrow> I t) \<Longrightarrow> preserves I m"
  by (auto simp: preserves_def)

lemma preservesD: "preserves I m \<Longrightarrow> I s \<Longrightarrow> m s = (Inr x, t) \<Longrightarrow> I t"
  by (auto simp: preserves_def)

lemma keeps_preserves: "keeps I m \<Longrightarrow> preserves I m"
  by (auto intro!: preservesI dest: keepsD)

lemma preserves_transaction [keeps_intro]:
  "preserves I m \<Longrightarrow> keeps I (db_transaction m)"
  by (force simp: keeps_def preserves_def db_transaction_def split: prod.splits sum.splits)

lemma preserves_db_transaction [preserves_intro]:
  "preserves I m \<Longrightarrow> preserves I (db_transaction m)"
  by (rule keeps_preserves [OF preserves_transaction])

lemma preserves_ret [preserves_intro, simp]: "preserves I (ret x)"
  by (simp add: keeps_preserves)

lemma preserves_throw [preserves_intro, simp]: "preserves I (throw e)"
  by (simp add: keeps_preserves)

lemma preserves_reads [preserves_intro, simp]: "preserves I (reads f)"
  by (simp add: keeps_preserves)

lemma preserves_guard [preserves_intro, simp]: "preserves I (guard b e)"
  by (simp add: keeps_preserves)

lemma preserves_bnd [preserves_intro]:
  "preserves I m \<Longrightarrow> (\<And>x. preserves I (f x)) \<Longrightarrow> preserves I (bnd m f)"
  by (rule preservesI) (auto simp: bnd_Inr_iff dest: preservesD)

lemma preserves_seq [preserves_intro]:
  "preserves I m \<Longrightarrow> preserves I n \<Longrightarrow> preserves I (seq m n)"
  by (simp add: seq_def preserves_bnd)

lemma preserves_if [preserves_intro]:
  "(b \<Longrightarrow> preserves I m) \<Longrightarrow> (\<not> b \<Longrightarrow> preserves I n) \<Longrightarrow> preserves I (if b then m else n)"
  by simp

lemma preserves_case_option [preserves_intro]:
  "(x = None \<Longrightarrow> preserves I m) \<Longrightarrow> (\<And>y. x = Some y \<Longrightarrow> preserves I (f y)) \<Longrightarrow>
   preserves I (case x of None \<Rightarrow> m | Some y \<Rightarrow> f y)"
  by (cases x) simp_all

lemma preserves_for_each [preserves_intro]:
  "(\<And>x acc. preserves I (f x acc)) \<Longrightarrow> preserves I (for_each f xs acc)"
  by (induction xs arbitrary: acc) (simp_all add: preserves_bnd)

lemma catch_Inr_iff:
  "catch m h s = (Inr x, t) \<longleftrightarrow>
     m s = (Inr x, t) \<or> (\<exists>e s'. m s = (Inl e, s') \<and> h e s' = (Inr x, t))"
  by (auto simp: catch_def split: prod.splits sum.splits)

text \<open>A handler that only translates exceptions returns nothing of its own.\<close>

lemma preserves_catch_rethrow [preserves_intro]:
  assumes "preserves I m" and "\<And>e. \<exists>e'. h e = throw e'"
  shows "preserves I (catch m h)"
proof (rule preservesI)
  fix s x t assume "I s" and run: "catch m h s = (Inr x, t)"
  have "h e s' \<noteq> (Inr x, t)" for e s'
    using assms(2) [of e] by auto
  with run have "m s = (Inr x, t)" by (simp add: catch_Inr_iff)
  with assms(1) \<open>I s\<close> show "I t" by (rule preservesD)
qed

lemma preserves_catch:
  "keeps I m \<Longrightarrow> (\<And>e. preserves I (h e)) \<Longrightarrow> preserves I (catch m h)"
  unfolding preserves_def catch_def
  by (auto split: prod.splits sum.splits dest: keepsD)

text \<open>An operation whose result is not looked at.\<close>

definition void :: "('s, 'e, 'a) op \<Rightarrow> ('s, 'e, unit) op" where
  "void m = seq m (ret ())"

lemma keeps_void [keeps_intro]: "keeps I m \<Longrightarrow> keeps I (void m)"
  unfolding void_def by (intro keeps_intro)

lemma void_Inr: "void m s = (Inr x, t) \<longleftrightarrow> (\<exists>y. m s = (Inr y, t))"
  by (auto simp: void_def seq_Inr_iff)

lemma snd_void: "snd (void m s) = snd (m s)"
  by (auto simp: void_def seq_def bnd_def split: prod.split sum.split)

lemma keeps_catch_if2 [keeps_intro]:
  "keeps I m \<Longrightarrow> keeps I (catch m (\<lambda>e. if p e then throw (f e) else throw e))"
  "keeps I m \<Longrightarrow> keeps I (catch m (\<lambda>e. if p e then throw (f e) else if q e then throw (g e) else throw e))"
  by (intro keeps_intro; assumption?)+


section \<open>Text\<close>

text \<open>\<^verbatim>\<open>str.upper\<close> on ASCII text.\<close>

definition upper :: "string \<Rightarrow> string" where
  "upper = map (\<lambda>c. let n = of_char c :: nat in if 97 \<le> n \<and> n \<le> 122 then char_of (n - 32) else c)"

text \<open>\<^verbatim>\<open>str.lower\<close> on ASCII text.\<close>

definition lower :: "string \<Rightarrow> string" where
  "lower = map (\<lambda>c. let n = of_char c :: nat in if 65 \<le> n \<and> n \<le> 90 then char_of (n + 32) else c)"


section \<open>Tables\<close>

text \<open>
  A table is the list of its rows in scan order; \<open>SELECT ... LIMIT 1\<close> takes the first row that
  satisfies the \<open>WHERE\<close> clause. The order is arbitrary, so what is proved holds for every one.
\<close>

definition update_where :: "('r \<Rightarrow> bool) \<Rightarrow> ('r \<Rightarrow> 'r) \<Rightarrow> 'r list \<Rightarrow> 'r list" where
  "update_where p f = map (\<lambda>r. if p r then f r else r)"

definition count_where :: "('r \<Rightarrow> bool) \<Rightarrow> 'r list \<Rightarrow> nat" where
  "count_where p xs = length (filter p xs)"

definition sum_where :: "('r \<Rightarrow> bool) \<Rightarrow> ('r \<Rightarrow> int) \<Rightarrow> 'r list \<Rightarrow> int" where
  "sum_where p f xs = sum_list (map f (filter p xs))"

lemma update_where_Nil [simp]: "update_where p f [] = []"
  by (simp add: update_where_def)

lemma update_where_Cons [simp]:
  "update_where p f (x # xs) = (if p x then f x else x) # update_where p f xs"
  by (simp add: update_where_def)

lemma update_where_none: "(\<And>r. r \<in> set xs \<Longrightarrow> \<not> p r) \<Longrightarrow> update_where p f xs = xs"
  by (induction xs) auto

lemma length_update_where [simp]: "length (update_where p f xs) = length xs"
  by (simp add: update_where_def)

lemma set_update_where: "set (update_where p f xs) = (\<lambda>r. if p r then f r else r) ` set xs"
  by (simp add: update_where_def)

lemma map_update_where: "(\<And>r. p r \<Longrightarrow> g (f r) = g r) \<Longrightarrow> map g (update_where p f xs) = map g xs"
  by (induction xs) auto

lemma count_where_0_iff: "count_where p xs = 0 \<longleftrightarrow> (\<forall>r \<in> set xs. \<not> p r)"
  by (auto simp: count_where_def filter_empty_conv)

lemma sum_where_Nil [simp]: "sum_where p f [] = 0"
  by (simp add: sum_where_def)

lemma sum_where_Cons [simp]:
  "sum_where p f (x # xs) = (if p x then f x else 0) + sum_where p f xs"
  by (simp add: sum_where_def)

lemma sum_where_append [simp]: "sum_where p f (xs @ ys) = sum_where p f xs + sum_where p f ys"
  by (induction xs) simp_all

lemma sum_where_nonneg: "(\<And>r. r \<in> set xs \<Longrightarrow> p r \<Longrightarrow> 0 \<le> f r) \<Longrightarrow> 0 \<le> sum_where p f xs"
proof (induction xs)
  case Nil
  then show ?case by simp
next
  case (Cons x xs)
  then have "0 \<le> sum_where p f xs" by simp
  moreover have "p x \<Longrightarrow> 0 \<le> f x" using Cons.prems by simp
  ultimately show ?case by (simp add: add_nonneg_nonneg)
qed

lemma sum_where_pos:
  "x \<in> set xs \<Longrightarrow> p x \<Longrightarrow> 0 < f x \<Longrightarrow> (\<And>r. r \<in> set xs \<Longrightarrow> p r \<Longrightarrow> 0 \<le> f r) \<Longrightarrow> 0 < sum_where p f xs"
proof (induction xs)
  case (Cons a xs)
  have "0 \<le> sum_where p f xs" using Cons.prems(4) by (intro sum_where_nonneg) simp
  moreover have "p a \<Longrightarrow> 0 \<le> f a" using Cons.prems(4) by simp
  moreover have "x = a \<or> 0 < sum_where p f xs" using Cons by auto
  ultimately show ?case using Cons.prems(2,3) by (auto simp: add_pos_nonneg add_nonneg_pos)
qed simp

lemma sum_where_update_key:
  assumes "distinct (map k xs)" and "r \<in> set xs" and "\<And>x. k (f x) = k x"
  shows "sum_where p g (update_where (\<lambda>x. k x = k r) f xs) =
     sum_where p g xs - (if p r then g r else 0) + (if p (f r) then g (f r) else 0)"
  using assms
proof (induction xs)
  case Nil
  then show ?case by simp
next
  case (Cons x xs)
  show ?case
  proof (cases "x = r")
    case True
    then have "update_where (\<lambda>x. k x = k r) f xs = xs"
      using Cons.prems by (intro update_where_none) (metis distinct.simps(2) image_eqI list.map(2) list.set_map)
    with True show ?thesis by simp
  next
    case False
    with Cons.prems have "r \<in> set xs" by auto
    moreover from this Cons.prems(1) have "k x \<noteq> k r" by (metis distinct.simps(2) image_eqI list.map(2) list.set_map)
    ultimately show ?thesis using Cons by simp
  qed
qed

lemma sum_where_update_same:
  assumes "\<And>r. q r \<Longrightarrow> p (f r) = p r \<and> g (f r) = g r"
  shows "sum_where p g (update_where q f xs) = sum_where p g xs"
  by (induction xs) (auto simp: assms)

lemma find_Some_in: "List.find p xs = Some r \<Longrightarrow> r \<in> set xs \<and> p r"
  by (auto simp: find_Some_iff)

lemma find_distinct_key:
  assumes "distinct (map k xs)" and "r \<in> set xs"
  shows "List.find (\<lambda>x. k x = k r) xs = Some r"
  using assms by (induction xs) (auto simp: rev_image_eqI)

lemma find_update_where_key:
  assumes "\<And>r. k (f r) = k r"
  shows "List.find (\<lambda>x. k x = i) (update_where (\<lambda>x. k x = j) f xs) =
    (if i = j then map_option f (List.find (\<lambda>x. k x = i) xs) else List.find (\<lambda>x. k x = i) xs)"
  by (induction xs) (auto simp: assms)

lemma find_update_where_any:
  "(\<And>r. p (f r) = p r) \<Longrightarrow> List.find p (update_where q f xs) = map_option (\<lambda>r. if q r then f r else r) (List.find p xs)"
  by (induction xs) auto

lemma find_append: "List.find p (xs @ ys) =
    (case List.find p xs of None \<Rightarrow> List.find p ys | Some r \<Rightarrow> Some r)"
  by (induction xs) auto


section \<open>Sequences of requests\<close>

text \<open>
  Requests are served one transaction after another (row and advisory locks serialise the ones that
  touch the same rows); a run is a list of commands and the list of their results.
\<close>

primrec exec_all ::
  "('c \<Rightarrow> ('s, 'e, 'a) op) \<Rightarrow> 'c list \<Rightarrow> 's \<Rightarrow> ('e + 'a) list \<times> 's" where
  "exec_all step [] s = ([], s)"
| "exec_all step (c # cs) s =
     (case step c s of (r, s') \<Rightarrow> case exec_all step cs s' of (rs, t) \<Rightarrow> (r # rs, t))"

definition successes :: "('c \<Rightarrow> bool) \<Rightarrow> 'c list \<Rightarrow> ('e + 'a) list \<Rightarrow> nat" where
  "successes target cs rs = count_where (\<lambda>(c, r). target c \<and> \<not> isl r) (zip cs rs)"

lemma successes_Nil [simp]: "successes target [] rs = 0"
  by (simp add: successes_def count_where_def)

lemma successes_Cons [simp]:
  "successes target (c # cs) (r # rs) =
     (if target c \<and> \<not> isl r then 1 else 0) + successes target cs rs"
  by (simp add: successes_def count_where_def)


subsection \<open>A state predicate every request keeps\<close>

locale kept_invariant =
  fixes step :: "'c \<Rightarrow> ('s, 'e, 'a) op"
    and inv :: "'s \<Rightarrow> bool"
  assumes step_keeps: "inv s \<Longrightarrow> inv (snd (step c s))"
begin

lemma exec_all_keeps: "inv s \<Longrightarrow> exec_all step cs s = (rs, t) \<Longrightarrow> inv t"
proof (induction cs arbitrary: s rs t)
  case Nil
  then show ?case by simp
next
  case (Cons c cs)
  obtain r s' where c: "step c s = (r, s')" by force
  obtain rs' t' where cs: "exec_all step cs s' = (rs', t')" by force
  from c step_keeps [OF Cons.prems(1), of c] have "inv s'" by simp
  from Cons.IH [OF this cs] Cons.prems(2) c cs show ?case by simp
qed

end

subsection \<open>A request that can succeed only once\<close>

text \<open>
  The target request needs \<open>fired\<close> to be false and makes it true; no request makes it false
  again. A boost of a transaction, the resolution of a withdrawal and the claim of a milestone
  are of this kind.
\<close>

locale one_shot =
  fixes step :: "'c \<Rightarrow> ('s, 'e, 'a) op"
    and target :: "'c \<Rightarrow> bool"
    and fired :: "'s \<Rightarrow> bool"
  assumes fired_stays: "fired s \<Longrightarrow> fired (snd (step c s))"
    and target_fires: "target c \<Longrightarrow> step c s = (Inr x, t) \<Longrightarrow> \<not> fired s \<and> fired t"
begin

lemma fired_blocks: "fired s \<Longrightarrow> exec_all step cs s = (rs, t) \<Longrightarrow> successes target cs rs = 0"
proof (induction cs arbitrary: s rs t)
  case Nil
  then show ?case by simp
next
  case (Cons c cs)
  obtain r s' where c: "step c s = (r, s')" by force
  obtain rs' t' where cs: "exec_all step cs s' = (rs', t')" by force
  from c fired_stays [OF Cons.prems(1), of c] have "fired s'" by simp
  from Cons.IH [OF this cs] have "successes target cs rs' = 0" .
  moreover have "\<not> (target c \<and> \<not> isl r)"
    using Cons.prems(1) c target_fires [of c s "projr r" s'] by (cases r) auto
  ultimately show ?case using Cons.prems(2) c cs by auto
qed

lemma at_most_once: "exec_all step cs s = (rs, t) \<Longrightarrow> successes target cs rs \<le> 1"
proof (induction cs arbitrary: s rs t)
  case Nil
  then show ?case by simp
next
  case (Cons c cs)
  obtain r s' where c: "step c s = (r, s')" by force
  obtain rs' t' where cs: "exec_all step cs s' = (rs', t')" by force
  have rest: "successes target cs rs' \<le> 1" by (rule Cons.IH [OF cs])
  show ?case
  proof (cases "target c \<and> \<not> isl r")
    case True
    with c target_fires [of c s "projr r" s'] have "fired s'" by (cases r) auto
    from fired_blocks [OF this cs] Cons.prems c cs True show ?thesis by auto
  next
    case False
    with rest Cons.prems c cs show ?thesis by auto
  qed
qed

end

subsection \<open>An account that is credited and debited\<close>

locale account =
  fixes bal :: "'s \<Rightarrow> 'u \<Rightarrow> int option"
    and credit :: "'u \<Rightarrow> int \<Rightarrow> ('s, 'e, 'a) op"
    and debit :: "'u \<Rightarrow> int \<Rightarrow> ('s, 'e, 'b) op"
    and insufficient :: "'e"
  assumes credit_adds:
      "bal s u = Some b \<Longrightarrow> credit u n s = (Inr x, t) \<Longrightarrow> bal t = (bal s)(u \<mapsto> b + n)"
    and debit_subtracts:
      "debit u n s = (Inr y, t) \<Longrightarrow>
         \<exists>b. bal s u = Some b \<and> n \<le> b \<and> bal t = (bal s)(u \<mapsto> b - n)"
    and debit_refused:
      "bal s u = Some b \<Longrightarrow> b < n \<Longrightarrow> 0 < n \<Longrightarrow> debit u n s = (Inl insufficient, s)"
begin

lemma debit_then_credit:
  assumes "debit u n s = (Inr y, t)" and "credit u n t = (Inr x, w)"
  shows "bal w = bal s"
proof -
  from debit_subtracts [OF assms(1)] obtain b
    where b: "bal s u = Some b" and t: "bal t = (bal s)(u \<mapsto> b - n)" by blast
  from t have "bal t u = Some (b - n)" by simp
  from credit_adds [OF this assms(2)] t have "bal w = (bal s)(u \<mapsto> b)" by simp
  with b show ?thesis by auto
qed

lemma no_double_spend:
  assumes "bal s u = Some b" and "debit u n s = (Inr y, t)" and "debit u m t = (Inr z, w)"
  shows "n + m \<le> b \<and> bal w = (bal s)(u \<mapsto> b - n - m)"
proof -
  from debit_subtracts [OF assms(2)] assms(1) have
    t: "bal t = (bal s)(u \<mapsto> b - n)" and "n \<le> b" by auto
  from debit_subtracts [OF assms(3)] t have "m \<le> b - n" and "bal w = (bal t)(u \<mapsto> b - n - m)"
    by auto
  with t show ?thesis by auto
qed

end

end
