(* ===== verification/Ratis_Float.thy ===== *)
theory Ratis_Float
  imports Complex_Main
begin

text \<open>
  The numbers of the Python side: IEEE doubles (bonus multipliers) and \<open>decimal.Decimal\<close>
  (cashback rates).

  A double is kept as \<open>Dbl m k\<close>, the value \<open>m / 2 ^ k\<close>. Sums and products of such
  numbers are again of this form, so an arithmetic operation is the exact result followed by
  \<open>rnd\<close>, which rounds to a 53 bit significand, ties to even. Exponents are unbounded: the
  multipliers and amounts of this program are far from the overflow and underflow ranges.
  The lemmas bound a rounded result by integers, which is what the award code needs: a bonus
  never lowers an amount and a bonus of at most 100 per cent at most doubles it.
\<close>

section \<open>Doubles\<close>

datatype dbl = Dbl int nat

fun bitlen :: "nat \<Rightarrow> nat" where
  "bitlen n = (if n = 0 then 0 else Suc (bitlen (n div 2)))"

declare bitlen.simps [simp del]

definition rhe :: "int \<Rightarrow> int \<Rightarrow> int" where
  "rhe m d = (let q = m div d; r = m mod d in
     if 2 * r < d then q else if d < 2 * r then q + 1 else if even q then q else q + 1)"

fun rnd :: "dbl \<Rightarrow> dbl" where
  "rnd (Dbl m k) = (let b = bitlen (nat \<bar>m\<bar>) in
     if b \<le> 53 then Dbl m k else Dbl (rhe m (2 ^ (b - 53)) * 2 ^ (b - 53)) k)"

definition dbl_of_int :: "int \<Rightarrow> dbl" where
  "dbl_of_int n = rnd (Dbl n 0)"

fun dmul :: "dbl \<Rightarrow> dbl \<Rightarrow> dbl" where
  "dmul (Dbl m j) (Dbl n k) = rnd (Dbl (m * n) (j + k))"

fun dadd :: "dbl \<Rightarrow> dbl \<Rightarrow> dbl" where
  "dadd (Dbl m j) (Dbl n k) = rnd (Dbl (m * 2 ^ k + n * 2 ^ j) (j + k))"

fun dless :: "dbl \<Rightarrow> dbl \<Rightarrow> bool" where
  "dless (Dbl m j) (Dbl n k) \<longleftrightarrow> m * 2 ^ k < n * 2 ^ j"

definition dmin :: "dbl \<Rightarrow> dbl \<Rightarrow> dbl" where
  "dmin x y = (if dless y x then y else x)"

text \<open>\<^verbatim>\<open>int(x)\<close> truncates towards zero.\<close>

fun dtrunc :: "dbl \<Rightarrow> int" where
  "dtrunc (Dbl m k) = sgn m * (\<bar>m\<bar> div 2 ^ k)"

text \<open>\<^verbatim>\<open>round(x)\<close> of a double: to the nearest integer, ties to even.\<close>

fun dround :: "dbl \<Rightarrow> int" where
  "dround (Dbl m k) = rhe m (2 ^ k)"

text \<open>\<^verbatim>\<open>round(x, 4)\<close>, as a number of ten-thousandths.\<close>

fun dround4 :: "dbl \<Rightarrow> int" where
  "dround4 (Dbl m k) = rhe (m * 10000) (2 ^ k)"

text \<open>The double nearest to the fraction \<open>p / q\<close>: enough quotient bits and a sticky bit, rounded once.\<close>

definition dbl_of_frac :: "int \<Rightarrow> int \<Rightarrow> dbl" where
  "dbl_of_frac p q = (let k = 60 + bitlen (nat q); n = p * 2 ^ k div q in
     rnd (Dbl (2 * n + (if p * 2 ^ k mod q = 0 then 0 else 1)) (k + 1)))"

definition dval :: "dbl \<Rightarrow> rat" where
  "dval x = (case x of Dbl m k \<Rightarrow> of_int m / 2 ^ k)"


section \<open>Rounding against integer bounds\<close>

lemma bitlen_bounds: "0 < n \<Longrightarrow> 2 ^ (bitlen n - 1) \<le> n \<and> n < 2 ^ bitlen n"
proof (induction n rule: bitlen.induct)
  case (1 n)
  show ?case
  proof (cases "n div 2 = 0")
    case True
    with "1.prems" have "n = 1" by auto
    then show ?thesis by (simp add: bitlen.simps)
  next
    case False
    with "1.IH" "1.prems" have IH: "2 ^ (bitlen (n div 2) - 1) \<le> n div 2" "n div 2 < 2 ^ bitlen (n div 2)"
      by auto
    from False have pos: "bitlen (n div 2) = Suc (bitlen (n div 2) - 1)"
      by (subst (1 2) bitlen.simps) simp
    have "bitlen n = Suc (bitlen (n div 2))"
      using "1.prems" by (subst bitlen.simps) simp
    moreover define j where "j = bitlen (n div 2) - 1"
    moreover have "2 ^ bitlen (n div 2) = 2 * (2::nat) ^ j"
      unfolding j_def by (subst pos) simp
    ultimately show ?thesis using IH by (simp only: power_Suc diff_Suc_1) linarith
  qed
qed

lemma bitlen_abs_bounds:
  assumes "53 < bitlen (nat \<bar>m\<bar>)"
  shows "2 ^ (52 + (bitlen (nat \<bar>m\<bar>) - 53)) \<le> \<bar>m\<bar>"
proof -
  let ?n = "nat \<bar>m\<bar>"
  have "0 < ?n" using assms by (cases "?n = 0") (auto simp: bitlen.simps)
  from bitlen_bounds [OF this] have "2 ^ (bitlen ?n - 1) \<le> ?n" by simp
  moreover have "bitlen ?n - 1 = 52 + (bitlen ?n - 53)" using assms by simp
  ultimately have "2 ^ (52 + (bitlen ?n - 53)) \<le> ?n" by (simp only:)
  then have "int (2 ^ (52 + (bitlen ?n - 53))) \<le> int ?n" by (rule of_nat_mono)
  moreover have "int (2 ^ (52 + (bitlen ?n - 53))) = 2 ^ (52 + (bitlen ?n - 53))"
    by (simp only: of_nat_power of_nat_numeral)
  moreover have "int ?n = \<bar>m\<bar>" by simp
  ultimately show ?thesis by (simp only:)
qed

lemma rhe_le: assumes "0 < d" and "m \<le> c * d" shows "rhe m d \<le> c"
proof (cases "m mod d = 0")
  case True
  then have "m div d * d = m" using div_mult_mod_eq [of m d] by simp
  with assms have "m div d * d \<le> c * d" by simp
  with assms(1) have "m div d \<le> c" by simp
  with True assms show ?thesis by (simp add: rhe_def)
next
  case False
  have "m div d * d + m mod d = m" by simp
  moreover have "0 < m mod d" using False assms(1) pos_mod_sign [of d m] by linarith
  ultimately have "m div d * d < c * d" using assms(2) by linarith
  with assms(1) have "m div d < c" by simp
  then show ?thesis by (auto simp: rhe_def Let_def)
qed

lemma rhe_ge: assumes "0 < d" and "c * d \<le> m" shows "c \<le> rhe m d"
proof -
  have "c * d div d \<le> m div d" using assms by (intro zdiv_mono1)
  with assms(1) have "c \<le> m div d" by simp
  then show ?thesis by (auto simp: rhe_def Let_def)
qed

lemma scaled_multiple:
  assumes "s \<le> k" shows "(n::int) * 2 ^ k = (n * 2 ^ (k - s)) * 2 ^ s"
  using assms by (simp add: power_add [symmetric] mult.assoc)

lemma rnd_num_le:
  assumes m: "m \<le> n * 2 ^ k" and n: "\<bar>n\<bar> \<le> 2 ^ 53"
    and b: "53 < bitlen (nat \<bar>m\<bar>)" and s: "s = bitlen (nat \<bar>m\<bar>) - 53"
  shows "rhe m (2 ^ s) * 2 ^ s \<le> n * 2 ^ k"
proof (cases "s \<le> k")
  case True
  then have "m \<le> (n * 2 ^ (k - s)) * 2 ^ s" using m scaled_multiple [of s k n] by simp
  then have "rhe m (2 ^ s) \<le> n * 2 ^ (k - s)" by (rule rhe_le [rotated]) simp
  then have "rhe m (2 ^ s) * 2 ^ s \<le> (n * 2 ^ (k - s)) * 2 ^ s" by (intro mult_right_mono) auto
  with scaled_multiple [OF True, of n] show ?thesis by (simp only:)
next
  case False
  then obtain d where d: "s = Suc (k + d)" by (metis less_iff_Suc_add not_le_imp_less)
  have big: "2 ^ 52 * 2 ^ s \<le> \<bar>m\<bar>"
    using bitlen_abs_bounds [OF b] unfolding s power_add .
  have lim: "2 ^ 53 * 2 ^ k \<le> (2::int) ^ 52 * 2 ^ s"
  proof -
    have "(2::int) ^ k \<le> 2 ^ (k + d)" by simp
    then show ?thesis by (simp add: d)
  qed
  show ?thesis
  proof (cases "0 \<le> m")
    case True
    have "n * 2 ^ k \<le> 2 ^ 53 * 2 ^ k" using n by (intro mult_right_mono) auto
    with True big lim m have eq: "n * 2 ^ k = 2 ^ 52 * 2 ^ s" and "m \<le> 2 ^ 52 * 2 ^ s"
      by linarith+
    then have "rhe m (2 ^ s) \<le> 2 ^ 52" by (intro rhe_le) auto
    then have "rhe m (2 ^ s) * 2 ^ s \<le> 2 ^ 52 * 2 ^ s" by (intro mult_right_mono) auto
    with eq show ?thesis by simp
  next
    case neg: False
    with big have "m \<le> (- (2 ^ 52)) * 2 ^ s" by simp
    then have "rhe m (2 ^ s) \<le> - (2 ^ 52)" by (intro rhe_le) auto
    then have "rhe m (2 ^ s) * 2 ^ s \<le> (- (2 ^ 52)) * 2 ^ s" by (intro mult_right_mono) auto
    also have "\<dots> \<le> (- (2 ^ 53)) * 2 ^ k" using lim by simp
    also have "\<dots> \<le> n * 2 ^ k" using n by (intro mult_right_mono) auto
    finally show ?thesis .
  qed
qed

lemma rhe_minus: assumes "0 < d" shows "rhe (- m) d = - rhe m d"
proof (cases "m mod d = 0")
  case True
  with assms show ?thesis by (simp add: rhe_def zdiv_zminus1_eq_if zmod_zminus1_eq_if)
next
  case False
  with assms have "(- m) div d = - (m div d) - 1" and "(- m) mod d = d - m mod d"
    by (simp_all add: zdiv_zminus1_eq_if zmod_zminus1_eq_if)
  then show ?thesis by (auto simp: rhe_def Let_def)
qed

lemma rnd_num_ge:
  assumes "n * 2 ^ k \<le> m" and "\<bar>n\<bar> \<le> 2 ^ 53"
    and "53 < bitlen (nat \<bar>m\<bar>)" and "s = bitlen (nat \<bar>m\<bar>) - 53"
  shows "n * 2 ^ k \<le> rhe m (2 ^ s) * 2 ^ s"
proof -
  have "rhe (- m) (2 ^ s) * 2 ^ s \<le> (- n) * 2 ^ k"
    using assms by (intro rnd_num_le) auto
  then show ?thesis by (simp add: rhe_minus)
qed

lemma dval_Dbl [simp]: "dval (Dbl m k) = of_int m / 2 ^ k"
  by (simp add: dval_def)

lemma dval_le_int: "dval (Dbl m k) \<le> of_int n \<longleftrightarrow> m \<le> n * 2 ^ k"
proof -
  have "dval (Dbl m k) \<le> of_int n \<longleftrightarrow> (of_int m :: rat) \<le> of_int (n * 2 ^ k)"
    by (simp add: pos_divide_le_eq)
  then show ?thesis by (simp only: of_int_le_iff)
qed

lemma dval_ge_int: "of_int n \<le> dval (Dbl m k) \<longleftrightarrow> n * 2 ^ k \<le> m"
proof -
  have "of_int n \<le> dval (Dbl m k) \<longleftrightarrow> (of_int (n * 2 ^ k) :: rat) \<le> of_int m"
    by (simp add: pos_le_divide_eq)
  then show ?thesis by (simp only: of_int_le_iff)
qed

lemma rnd_le: "dval x \<le> of_int n \<Longrightarrow> \<bar>n\<bar> \<le> 2 ^ 53 \<Longrightarrow> dval (rnd x) \<le> of_int n"
proof (cases x)
  case (Dbl m k)
  assume "dval x \<le> of_int n" and n: "\<bar>n\<bar> \<le> 2 ^ 53"
  then have m: "m \<le> n * 2 ^ k" unfolding Dbl dval_le_int by simp
  show ?thesis
  proof (cases "bitlen (nat \<bar>m\<bar>) \<le> 53")
    case True
    then show ?thesis using m by (simp only: Dbl rnd.simps Let_def if_True dval_le_int)
  next
    case False
    then have big: "53 < bitlen (nat \<bar>m\<bar>)" by simp
    from rnd_num_le [OF m n big refl] False show ?thesis
      by (simp only: Dbl rnd.simps Let_def if_False dval_le_int)
  qed
qed

lemma rnd_ge: "of_int n \<le> dval x \<Longrightarrow> \<bar>n\<bar> \<le> 2 ^ 53 \<Longrightarrow> of_int n \<le> dval (rnd x)"
proof (cases x)
  case (Dbl m k)
  assume "of_int n \<le> dval x" and n: "\<bar>n\<bar> \<le> 2 ^ 53"
  then have m: "n * 2 ^ k \<le> m" unfolding Dbl dval_ge_int by simp
  show ?thesis
  proof (cases "bitlen (nat \<bar>m\<bar>) \<le> 53")
    case True
    then show ?thesis using m by (simp only: Dbl rnd.simps Let_def if_True dval_ge_int)
  next
    case False
    then have big: "53 < bitlen (nat \<bar>m\<bar>)" by simp
    from rnd_num_ge [OF m n big refl] False show ?thesis
      by (simp only: Dbl rnd.simps Let_def if_False dval_ge_int)
  qed
qed

lemma dval_dbl_of_int: "\<bar>n\<bar> \<le> 2 ^ 53 \<Longrightarrow> dval (dbl_of_int n) = of_int n"
  unfolding dbl_of_int_def
  by (intro antisym rnd_le rnd_ge) simp_all

lemma dmul_le:
  "dval x * dval y \<le> of_int n \<Longrightarrow> \<bar>n\<bar> \<le> 2 ^ 53 \<Longrightarrow> dval (dmul x y) \<le> of_int n"
  by (cases x; cases y) (auto intro!: rnd_le simp: power_add simp del: rnd.simps)

lemma dmul_ge:
  "of_int n \<le> dval x * dval y \<Longrightarrow> \<bar>n\<bar> \<le> 2 ^ 53 \<Longrightarrow> of_int n \<le> dval (dmul x y)"
  by (cases x; cases y) (auto intro!: rnd_ge simp: power_add simp del: rnd.simps)

lemma dadd_value: "of_int (m * 2 ^ k + n * 2 ^ j) / 2 ^ (j + k) = (of_int m / 2 ^ j + of_int n / 2 ^ k :: rat)"
  by (simp add: power_add add_divide_distrib)

lemma dadd_le:
  "dval x + dval y \<le> of_int n \<Longrightarrow> \<bar>n\<bar> \<le> 2 ^ 53 \<Longrightarrow> dval (dadd x y) \<le> of_int n"
  by (cases x; cases y) (simp only: dadd.simps, intro rnd_le, simp_all only: dval_Dbl dadd_value)

lemma dadd_ge:
  "of_int n \<le> dval x + dval y \<Longrightarrow> \<bar>n\<bar> \<le> 2 ^ 53 \<Longrightarrow> of_int n \<le> dval (dadd x y)"
  by (cases x; cases y) (simp only: dadd.simps, intro rnd_ge, simp_all only: dval_Dbl dadd_value)

lemma dless_dval: "dless x y \<longleftrightarrow> dval x < dval y"
proof (cases x; cases y)
  fix m j n k assume xy: "x = Dbl m j" "y = Dbl n k"
  have "dval x < dval y \<longleftrightarrow> (of_int (m * 2 ^ k) :: rat) < of_int (n * 2 ^ j)"
    by (simp add: xy divide_less_eq less_divide_eq mult.commute)
  then show ?thesis by (simp only: of_int_less_iff xy dless.simps)
qed

lemma dtrunc_ge: "of_int n \<le> dval x \<Longrightarrow> 0 \<le> n \<Longrightarrow> n \<le> dtrunc x"
proof (cases x)
  case (Dbl m k)
  assume "of_int n \<le> dval x" and "0 \<le> n"
  then have m: "n * 2 ^ k \<le> m" unfolding Dbl dval_ge_int by simp
  with \<open>0 \<le> n\<close> have "0 \<le> m" by (meson mult_nonneg_nonneg order_trans zero_le_numeral zero_le_power)
  have "n * 2 ^ k div 2 ^ k \<le> m div 2 ^ k" using m by (intro zdiv_mono1) simp_all
  with \<open>0 \<le> m\<close> show ?thesis by (cases "m = 0") (auto simp: Dbl sgn_if)
qed

lemma dtrunc_le: "dval x \<le> of_int n \<Longrightarrow> 0 \<le> dval x \<Longrightarrow> dtrunc x \<le> n"
proof (cases x)
  case (Dbl m k)
  assume "dval x \<le> of_int n" and "0 \<le> dval x"
  then have m: "m \<le> n * 2 ^ k" and "0 \<le> m"
    using dval_le_int [of m k n] dval_ge_int [of 0 m k] by (auto simp: Dbl)
  have "m div 2 ^ k \<le> n * 2 ^ k div 2 ^ k" using m by (intro zdiv_mono1) simp_all
  with \<open>0 \<le> m\<close> m show ?thesis
    by (cases "m = 0") (auto simp: Dbl sgn_if zero_le_mult_iff)
qed


section \<open>Scaling an amount by a bonus\<close>

text \<open>
  \<^verbatim>\<open>int(amount * (1 + total_mult))\<close>, the expression \<open>award_cab\<close> and \<open>award_xp\<close> share.
\<close>

definition scaled :: "int \<Rightarrow> dbl \<Rightarrow> int" where
  "scaled amount x = dtrunc (dmul (dbl_of_int amount) (dadd (dbl_of_int 1) x))"

lemma scaled_ge:
  assumes "0 \<le> dval x" and "0 < n" and "n \<le> 2 ^ 53"
  shows "n \<le> scaled n x"
proof -
  have "of_int 1 \<le> dval (dadd (dbl_of_int 1) x)"
    using assms(1) by (intro dadd_ge) (simp_all add: dval_dbl_of_int)
  then have "of_int n * 1 \<le> of_int n * dval (dadd (dbl_of_int 1) x)"
    using assms(2) by (intro mult_left_mono) simp_all
  then have "of_int n \<le> dval (dmul (dbl_of_int n) (dadd (dbl_of_int 1) x))"
    using assms by (intro dmul_ge) (simp_all add: dval_dbl_of_int)
  then show ?thesis unfolding scaled_def using assms(2) by (intro dtrunc_ge) simp_all
qed

lemma scaled_le:
  assumes "0 \<le> dval x" and "dval x \<le> of_int c" and "0 < n" and "n * (1 + c) \<le> 2 ^ 53" and "0 \<le> c"
  shows "scaled n x \<le> n * (1 + c)"
proof -
  have nc: "n \<le> n * (1 + c)" "1 + c \<le> n * (1 + c)"
    using assms(3,5) by (simp_all add: mult_le_cancel_right1)
  have one: "of_int 1 \<le> dval (dadd (dbl_of_int 1) x)"
    using assms(1) by (intro dadd_ge) (simp_all add: dval_dbl_of_int)
  have lim: "\<bar>1 + c\<bar> \<le> 2 ^ 53" "\<bar>n\<bar> \<le> 2 ^ 53" "\<bar>n * (1 + c)\<bar> \<le> 2 ^ 53"
    using nc assms(3-5) by linarith+
  have "dval (dadd (dbl_of_int 1) x) \<le> of_int (1 + c)"
    using assms(2) lim by (intro dadd_le) (simp_all add: dval_dbl_of_int)
  then have "of_int n * dval (dadd (dbl_of_int 1) x) \<le> of_int n * of_int (1 + c)"
    using assms(3) by (intro mult_left_mono) simp_all
  then have up: "dval (dmul (dbl_of_int n) (dadd (dbl_of_int 1) x)) \<le> of_int (n * (1 + c))"
    using lim by (intro dmul_le) (simp_all add: dval_dbl_of_int)
  have "of_int 0 \<le> dval (dmul (dbl_of_int n) (dadd (dbl_of_int 1) x))"
    using assms(3) lim one by (intro dmul_ge) (simp_all add: dval_dbl_of_int)
  with up show ?thesis unfolding scaled_def by (intro dtrunc_le) simp_all
qed


section \<open>Decimals\<close>

text \<open>
  A \<open>Decimal\<close> is a coefficient and a number of decimal places. Products of the program's
  decimals (a \<open>NUMERIC(5,4)\<close> rate or a configured rate, and an integer number of cents) have
  fewer than 28 digits, so the context precision never rounds them.
\<close>

datatype decimal = Decimal int nat

fun dec_mul_int :: "decimal \<Rightarrow> int \<Rightarrow> decimal" where
  "dec_mul_int (Decimal c p) n = Decimal (c * n) p"

text \<open>\<^verbatim>\<open>quantize(Decimal("1"), rounding=ROUND_HALF_UP)\<close>: ties go away from zero.\<close>

fun quantize_half_up :: "decimal \<Rightarrow> int" where
  "quantize_half_up (Decimal c p) = sgn c * ((2 * \<bar>c\<bar> + 10 ^ p) div (2 * 10 ^ p))"

fun decimal_to_dbl :: "decimal \<Rightarrow> dbl" where
  "decimal_to_dbl (Decimal c p) = dbl_of_frac c (10 ^ p)"

fun dec_val :: "decimal \<Rightarrow> rat" where
  "dec_val (Decimal c p) = of_int c / 10 ^ p"

lemma quantize_half_up_nonneg: "0 \<le> c \<Longrightarrow> 0 \<le> quantize_half_up (Decimal c p)"
  by (simp add: sgn_if pos_imp_zdiv_nonneg_iff)

lemma quantize_half_up_error:
  assumes "0 \<le> c"
  shows "2 * c - 10 ^ p < quantize_half_up (Decimal c p) * (2 * 10 ^ p) \<and>
         quantize_half_up (Decimal c p) * (2 * 10 ^ p) \<le> 2 * c + 10 ^ p"
proof -
  let ?d = "2 * 10 ^ p :: int" and ?a = "2 * c + 10 ^ p"
  have "?a div ?d * ?d + ?a mod ?d = ?a" by (rule div_mult_mod_eq)
  moreover have "0 \<le> ?a mod ?d" "?a mod ?d < ?d" by simp_all
  ultimately have "?a - ?d < ?a div ?d * ?d" "?a div ?d * ?d \<le> ?a" by linarith+
  moreover have "quantize_half_up (Decimal c p) = ?a div ?d"
    using assms by (cases "c = 0") (simp_all add: sgn_if)
  ultimately show ?thesis by simp
qed

end
