(* ===== verification/Ratis_Schema.thy ===== *)
theory Ratis_Schema
  imports Ratis_Prelude Ratis_Float
begin

text \<open>
  The PostgreSQL schema the rewards service works on (\<open>ratis_core/models\<close>), the exceptions its
  Python code raises, the clock, and the SQL statements several components share.

  A row type has the columns the modelled code reads or writes. Identifiers (\<open>uuid4\<close> values)
  are numbers drawn from the counter \<open>next_uuid\<close>, so that fresh ones never repeat; timestamps are
  microseconds and dates are days since 1970-01-01. A table that is only ever reached through its
  primary key is a map, the others are lists of rows in scan order. A violated \<open>CHECK\<close> or
  \<open>UNIQUE\<close> constraint raises \<open>IntegrityError\<close> with the name of the constraint, a value
  outside the range of an \<open>INTEGER\<close> column raises \<open>DataError\<close>. Foreign keys are not checked: the rows an operation refers
  to by identifier only are taken to exist.
\<close>

section \<open>Identifiers, time and exceptions\<close>

type_synonym uuid = nat
type_synonym stamp = int
type_synonym day = int

abbreviation "second_us \<equiv> 1000000 :: int"
abbreviation "hour_us \<equiv> 3600000000 :: int"
abbreviation "day_us \<equiv> 86400000000 :: int"

text \<open>
  One operation runs at one instant: \<open>datetime.now()\<close> and SQL \<open>now()\<close> agree. The time zone
  database of Python is \<open>tzdb\<close> (local time of an instant, \<open>None\<close> for a name it does not know), the
  one PostgreSQL uses for \<open>AT TIME ZONE 'Europe/Paris'\<close> is \<open>paris\<close>.
\<close>

record clock =
  now :: stamp
  tzdb :: "string \<Rightarrow> (stamp \<Rightarrow> stamp) option"
  paris :: "stamp \<Rightarrow> stamp"

definition utc_date :: "clock \<Rightarrow> day" where
  "utc_date ck = now ck div day_us"

datatype error =
    ValueError
  | TypeError
  | RuntimeError
  | ValueErrorText string
  | LookupError
  | AssertionError
  | InsufficientBalance
  | InsufficientCashbackBalance
  | StreakNeedsRepair
  | StreakNotInRepairState
  | ReserveLimitExceeded
  | MilestoneNotFound
  | MilestoneLocked
  | MilestoneAlreadyClaimed
  | ChallengeExpired
  | ActiveChallengeConflict
  | ChallengeNotFound
  | WithdrawalNotFound
  | SeasonNotFound
  | ActiveSeasonConflict
  | MilestoneNumberConflict
  | SeasonNumberConflict
  | AlreadyBoosted
  | BoostWindowExpired
  | BelowMinimum
  | MissionNotFound
  | MissionUniquenessConflict
  | NoEligibleProduct
  | ChallengeOverlap
  | ChallengeNotModifiable
  | BadRequest string
  | PaymentRequired string
  | Gone string
  | PayoutError
  | NotFound string
  | Conflict string
  | Forbidden string
  | UnprocessableEntity string
  | HTTPException int string
  | IntegrityError string
  | DataError

text \<open>JSONB values and the containment operator \<open><@\<close> on objects.\<close>

datatype json =
    JNull
  | JBool bool
  | JInt int
  | JStr string
  | JArr "json list"
  | JObj "(string \<times> json) list"

fun json_contained :: "json \<Rightarrow> json \<Rightarrow> bool" where
  "json_contained (JObj xs) (JObj ys) =
     list_all (\<lambda>(k, v). case map_of ys k of None \<Rightarrow> False | Some w \<Rightarrow> json_contained v w) xs"
| "json_contained (JArr xs) (JArr ys) = list_all (\<lambda>v. list_ex (json_contained v) ys) xs"
| "json_contained x y \<longleftrightarrow> x = y"


section \<open>Rows\<close>

record user_row =
  is_deleted :: bool
  is_shadow_banned :: bool
  gift_card_redeemed_ytd_cents :: int
  display_name :: "string option"
  email :: string

record cab_tx =
  ct_id :: uuid
  ct_user_id :: uuid
  ct_direction :: string
  ct_amount :: int
  ct_reason :: string
  ct_reference_id :: "uuid option"
  ct_reference_type :: "string option"
  ct_context :: "(string \<times> string) option"
  ct_created_at :: stamp

record streak_row =
  current_streak_days :: int
  last_fed_at :: "day option"
  food_reserves :: int
  timezone :: string

record xp_row =
  xp_balance :: int
  xp_level :: int

record xp_tx =
  xt_user_id :: uuid
  xt_amount :: int
  xt_reason :: string
  xt_reference_id :: "uuid option"
  xt_reference_type :: "string option"

record season_row =
  se_id :: uuid
  se_number :: int
  se_name :: string
  se_started_at :: stamp
  se_ends_at :: stamp
  se_is_active :: bool

record milestone_row =
  mi_id :: uuid
  mi_season_id :: uuid
  mi_number :: int
  mi_cab_required :: int
  mi_reward_type :: string
  mi_reward_value :: int
  mi_subscriber_only :: bool

record bp_claim =
  bc_user_id :: uuid
  bc_milestone_id :: uuid

record challenge_row =
  ch_id :: uuid
  ch_title :: string
  ch_description :: "string option"
  ch_action_type :: string
  ch_action_filter :: "json option"
  ch_objective :: int
  ch_starts_at :: stamp
  ch_ends_at :: stamp
  ch_grace_period_days :: int
  ch_is_active :: bool

text \<open>The keys of the \<open>reward_value\<close> object the code looks at; \<open>None\<close> for an absent key.\<close>

record reward_value =
  rv_amount :: "int option"
  rv_multiplier :: "decimal option"
  rv_duration_hours :: "int option"
  rv_applies_to :: "string option"

record challenge_milestone =
  cm_id :: uuid
  cm_challenge_id :: uuid
  cm_threshold :: int
  cm_reward_type :: string
  cm_reward_value :: reward_value
  cm_label :: "string option"
  cm_sort_order :: int

record challenge_claim =
  cc_challenge_id :: uuid
  cc_milestone_id :: uuid
  cc_user_id :: uuid

record multiplier_row =
  mu_challenge_id :: uuid
  mu_user_id :: uuid
  mu_multiplier :: decimal
  mu_applies_to :: string
  mu_active_from :: stamp
  mu_active_until :: stamp

record outbox_row =
  ob_id :: uuid
  ob_user_id :: uuid
  ob_type :: string
  ob_data :: json
  ob_created_at :: stamp
  ob_sent_at :: "stamp option"

record offer_row =
  of_id :: uuid
  of_provider :: string
  of_external_id :: string
  of_product_ean :: string
  of_brand_id :: uuid
  of_cashback_rate :: decimal
  of_valid_from :: stamp
  of_valid_until :: "stamp option"
  of_created_at :: stamp

record cashback_tx =
  cb_id :: uuid
  cb_user_id :: uuid
  cb_type :: string
  cb_amount :: int
  cb_status :: string
  cb_product_ean :: "string option"
  cb_offer_id :: "uuid option"
  cb_boost_applied :: bool
  cb_distributed_at :: "stamp option"
  cb_scan_id :: "uuid option"
  cb_parent_id :: "uuid option"
  cb_parent_type :: "string option"
  cb_created_at :: stamp

text \<open>
  A provider reference is the text \<open>sandbox-<id>\<close> or what the payment provider returned.
\<close>

datatype payout_ref = SandboxRef uuid | ProviderRef string

record withdrawal_row =
  wd_id :: uuid
  wd_user_id :: uuid
  wd_amount :: int
  wd_status :: string
  wd_transaction_id :: "uuid option"
  wd_provider_ref :: "payout_ref option"
  wd_provider_initiated_at :: "stamp option"
  wd_requested_at :: stamp
  wd_processed_at :: "stamp option"
  wd_failure_reason :: "string option"
  wd_last_reconciled_at :: "stamp option"

record subscription_row =
  su_user_id :: uuid
  su_status :: string
  su_plan :: "string option"
  su_started_at :: stamp
  su_expires_at :: stamp

record receipt_row =
  re_id :: uuid
  re_user_id :: uuid
  re_store_id :: "uuid option"
  re_store_status :: string

record scan_row =
  sc_id :: uuid
  sc_user_id :: uuid
  sc_store_id :: "uuid option"
  sc_product_ean :: "string option"
  sc_price :: int
  sc_receipt_id :: "uuid option"
  sc_status :: string
  sc_scanned_at :: stamp
  sc_scan_type :: string
  sc_status_updated_at :: stamp

record product_row =
  pr_ean :: string
  pr_name :: string
  pr_category_id :: "uuid option"
  pr_first_discovered_by :: "uuid option"

record brand_row =
  br_id :: uuid
  br_name :: string
  br_provider_brand_id :: string
  br_logo_url :: "string option"
  br_is_active :: bool

text \<open>
  \<open>source_ref_id\<close> is a text column; \<open>UuidText i\<close> is the text of an identifier, the form
  \<open>uuid.UUID(...)\<close> accepts. A redemption code is the sandbox code of an order or the provider's.
\<close>

datatype ref_text = UuidText uuid | OtherText string

datatype gift_code = SandboxCode uuid | ProviderCode string

record order_row =
  go_id :: uuid
  go_user_id :: uuid
  go_brand_id :: uuid
  go_denomination :: int
  go_status :: string
  go_source_type :: string
  go_source_ref_id :: ref_text
  go_provider_order_id :: "string option"
  go_code :: "gift_code option"
  go_eligible_at :: "stamp option"
  go_issued_at :: "stamp option"
  go_failed_at :: "stamp option"
  go_cap_reserved_cents :: int
  go_created_at :: stamp

text \<open>The keys of \<open>extra_params\<close> the achievement code looks at (an absent object has none).\<close>

record extra_params =
  ex_window_scans_only :: bool
  ex_window_since :: "stamp option"
  ex_event :: "string option"

record achievement_row =
  ac_id :: uuid
  ac_code :: string
  ac_rarity :: string
  ac_category :: string
  ac_trigger_type :: string
  ac_target_value :: decimal
  ac_window_days :: "int option"
  ac_extra_params :: extra_params
  ac_cab_reward :: int
  ac_available_from :: "stamp option"
  ac_available_until :: "stamp option"

record user_achievement =
  ua_user_id :: uuid
  ua_achievement_id :: uuid
  ua_unlocked_at :: stamp
  ua_cab_granted :: int

text \<open>
  Referrals: the code a user shares, and its use by another user. \<open>user_id\<close> and
  \<open>referred_user_id\<close> are unique where they are not null.
\<close>

record referral_code_row =
  rc_id :: uuid
  rc_user_id :: "uuid option"
  rc_code :: string
  rc_type :: string
  rc_created_at :: stamp

record referral_use_row =
  ru_id :: uuid
  ru_referral_id :: uuid
  ru_referred_user_id :: "uuid option"
  ru_plan :: "string option"
  ru_rewarded_at :: "stamp option"
  ru_created_at :: stamp

text \<open>
  Missions: the catalogue, the missions of a user in a period, and the burst records of the
  leaderboard. \<open>xp_reward\<close> and \<open>xp_earned\<close> are \<open>NUMERIC\<close> columns in which only whole numbers are
  stored; \<open>tracked_values\<close> is a JSONB array of texts.
\<close>

record mission_row =
  ms_id :: uuid
  ms_action_type :: string
  ms_qualifier :: "string option"
  ms_frequency :: string
  ms_difficulty :: string
  ms_target_count :: int
  ms_cab_reward :: int
  ms_is_active :: bool
  ms_is_boostable :: bool

record user_mission =
  um_id :: uuid
  um_user_id :: uuid
  um_mission_id :: uuid
  um_period_start :: day
  um_current_count :: int
  um_status :: string
  um_target_count :: int
  um_buffer_count :: int
  um_burst_count :: int
  um_period_extended_until :: "stamp option"
  um_burst_locked :: bool
  um_portions_claimed :: int
  um_cab_reward :: int
  um_xp_reward :: int
  um_frozen_until :: "stamp option"
  um_freeze_count :: int
  um_tracked_values :: "string list option"

record mission_xp_record =
  mx_id :: uuid
  mx_user_id :: uuid
  mx_mission_id :: uuid
  mx_user_mission_id :: uuid
  mx_xp_earned :: int
  mx_burst_count :: int
  mx_buffer_count :: int
  mx_recorded_at :: stamp

text \<open>
  The event ledger. An idempotency key is the text the caller sent, the digest the server makes of the
  event (\<open>SynthKey\<close>: user, action, the qualifier and scan reference joined by a bar, minute) or the one-shot
  digest of a duplicate's log row (\<open>DupKey\<close>); digests of different texts are taken to differ. The context of
  an event is a free JSON object, of which the code reads two keys.
\<close>

datatype event_key =
    CallerKey string
  | SynthKey uuid string string int
  | DupKey event_key uuid

record action_context =
  cx_scan_id :: "string option"
  cx_ean :: "string option"

record reward_event =
  ev_id :: uuid
  ev_user_id :: uuid
  ev_action_type :: string
  ev_qualifier :: "string option"
  ev_quantity :: int
  ev_idempotency_key :: event_key
  ev_status :: string
  ev_payload :: "action_context option"
  ev_processed_at :: "stamp option"
  ev_created_at :: stamp

text \<open>The mystery product: its challenge with the reward tiers, the clues, the finds, the exclusions.\<close>

record reward_tier =
  tier_min_rank :: int
  tier_max_rank :: "int option"
  tier_cab :: int

record mystery_row =
  mc_id :: uuid
  mc_product_ean :: string
  mc_starts_at :: stamp
  mc_ends_at :: stamp
  mc_status :: string
  mc_reward_tiers :: "reward_tier list"

record clue_row =
  ce_id :: uuid
  ce_challenge_id :: uuid
  ce_reveal_day :: int
  ce_text :: string
  ce_revealed_at :: "stamp option"

record find_row =
  fi_id :: uuid
  fi_challenge_id :: uuid
  fi_user_id :: uuid
  fi_scan_id :: uuid
  fi_rank :: int
  fi_cab_awarded :: int
  fi_found_at :: stamp
  fi_announced_at :: "stamp option"

record consensus_row =
  pc_product_ean :: string
  pc_last_seen_at :: stamp

text \<open>Two configuration tables the admin pages edit.\<close>

record streak_tier =
  st_id :: uuid
  st_days :: int
  st_multiplier :: decimal
  st_label :: string

record reward_config =
  rg_id :: uuid
  rg_action_type :: string
  rg_base_amount :: int

text \<open>The tables of the event engine, one part of the database.\<close>

record play_db =
  missions :: "mission_row list"
  user_missions :: "user_mission list"
  mission_xp_records :: "mission_xp_record list"
  reward_events :: "reward_event list"
  mystery_challenges :: "mystery_row list"
  mystery_challenge_clues :: "clue_row list"
  mystery_challenge_finds :: "find_row list"
  mystery_challenge_exclusions :: "(string \<times> stamp) list"
  price_consensus :: "consensus_row list"
  category_names :: "uuid \<rightharpoonup> string"
  streak_tiers :: "streak_tier list"
  reward_configs :: "reward_config list"

definition empty_play :: play_db where
  "empty_play = \<lparr> missions = [], user_missions = [], mission_xp_records = [], reward_events = [],
     mystery_challenges = [], mystery_challenge_clues = [], mystery_challenge_finds = [],
     mystery_challenge_exclusions = [], price_consensus = [], category_names = Map.empty,
     streak_tiers = [], reward_configs = [] \<rparr>"

lemma empty_play_simps [simp]:
  "missions empty_play = []"
  "user_missions empty_play = []"
  "mission_xp_records empty_play = []"
  "reward_events empty_play = []"
  "mystery_challenges empty_play = []"
  "mystery_challenge_clues empty_play = []"
  "mystery_challenge_finds empty_play = []"
  "mystery_challenge_exclusions empty_play = []"
  "price_consensus empty_play = []"
  "category_names empty_play = Map.empty"
  "streak_tiers empty_play = []"
  "reward_configs empty_play = []"
  by (simp_all add: empty_play_def)


section \<open>The database\<close>

record db =
  next_uuid :: uuid
  users :: "uuid \<rightharpoonup> user_row"
  user_cab_balance :: "uuid \<rightharpoonup> int"
  user_cashback_balance :: "uuid \<rightharpoonup> int"
  cabecoin_transactions :: "cab_tx list"
  user_streaks :: "uuid \<rightharpoonup> streak_row"
  user_xp_balance :: "uuid \<rightharpoonup> xp_row"
  xp_transactions :: "xp_tx list"
  battlepass_seasons :: "season_row list"
  battlepass_milestones :: "milestone_row list"
  user_battlepass_progress :: "uuid \<times> uuid \<rightharpoonup> int"
  user_battlepass_claims :: "bp_claim list"
  community_challenges :: "challenge_row list"
  community_challenge_milestones :: "challenge_milestone list"
  community_challenge_progress :: "uuid \<rightharpoonup> int"
  community_challenge_claims :: "challenge_claim list"
  community_multipliers :: "multiplier_row list"
  notification_outbox :: "outbox_row list"
  affiliate_offers :: "offer_row list"
  cashback_transactions :: "cashback_tx list"
  cashback_withdrawals :: "withdrawal_row list"
  subscriptions :: "subscription_row list"
  receipts :: "receipt_row list"
  scans :: "scan_row list"
  products :: "product_row list"
  gift_card_brands :: "brand_row list"
  gift_card_orders :: "order_row list"
  achievements :: "achievement_row list"
  user_achievements :: "user_achievement list"
  referral_codes :: "referral_code_row list"
  referral_uses :: "referral_use_row list"
  play :: play_db

definition empty_db :: db where
  "empty_db = \<lparr> next_uuid = 0, users = Map.empty, user_cab_balance = Map.empty,
     user_cashback_balance = Map.empty, cabecoin_transactions = [], user_streaks = Map.empty,
     user_xp_balance = Map.empty, xp_transactions = [], battlepass_seasons = [],
     battlepass_milestones = [], user_battlepass_progress = Map.empty, user_battlepass_claims = [],
     community_challenges = [], community_challenge_milestones = [],
     community_challenge_progress = Map.empty, community_challenge_claims = [],
     community_multipliers = [], notification_outbox = [], affiliate_offers = [],
     cashback_transactions = [], cashback_withdrawals = [], subscriptions = [], receipts = [],
     scans = [], products = [], gift_card_brands = [], gift_card_orders = [], achievements = [],
     user_achievements = [], referral_codes = [], referral_uses = [], play = empty_play \<rparr>"

lemma empty_db_simps [simp]:
  "next_uuid empty_db = 0"
  "users empty_db = Map.empty"
  "user_cab_balance empty_db = Map.empty"
  "user_cashback_balance empty_db = Map.empty"
  "cabecoin_transactions empty_db = []"
  "user_streaks empty_db = Map.empty"
  "user_xp_balance empty_db = Map.empty"
  "xp_transactions empty_db = []"
  "battlepass_seasons empty_db = []"
  "battlepass_milestones empty_db = []"
  "user_battlepass_progress empty_db = Map.empty"
  "user_battlepass_claims empty_db = []"
  "community_challenges empty_db = []"
  "community_challenge_milestones empty_db = []"
  "community_challenge_progress empty_db = Map.empty"
  "community_challenge_claims empty_db = []"
  "community_multipliers empty_db = []"
  "notification_outbox empty_db = []"
  "affiliate_offers empty_db = []"
  "cashback_transactions empty_db = []"
  "cashback_withdrawals empty_db = []"
  "subscriptions empty_db = []"
  "receipts empty_db = []"
  "scans empty_db = []"
  "products empty_db = []"
  "gift_card_brands empty_db = []"
  "gift_card_orders empty_db = []"
  "achievements empty_db = []"
  "user_achievements empty_db = []"
  "referral_codes empty_db = []"
  "referral_uses empty_db = []"
  "play empty_db = empty_play"
  by (simp_all add: empty_db_def)

type_synonym 'a db_op = "(db, error, 'a) op"


section \<open>Statements\<close>

text \<open>\<^verbatim>\<open>uuid.uuid4()\<close>\<close>

definition fresh_uuid :: "uuid db_op" where
  "fresh_uuid = (\<lambda>s. (Inr (next_uuid s), s\<lparr> next_uuid := Suc (next_uuid s) \<rparr>))"

abbreviation "int4_max \<equiv> 2147483647 :: int"

definition fits_int4 :: "int \<Rightarrow> bool" where
  "fits_int4 n \<longleftrightarrow> - 2147483648 \<le> n \<and> n \<le> int4_max"

definition int4 :: "int \<Rightarrow> unit db_op" where
  "int4 n = guard (fits_int4 n) DataError"

definition constr :: "bool \<Rightarrow> string \<Rightarrow> unit db_op" where
  "constr b name = guard b (IntegrityError name)"

definition is_integrity_error :: "error \<Rightarrow> bool" where
  "is_integrity_error e = (case e of IntegrityError _ \<Rightarrow> True | _ \<Rightarrow> False)"

lemma fresh_uuid_run [simp]:
  "fresh_uuid s = (Inr (next_uuid s), s\<lparr> next_uuid := Suc (next_uuid s) \<rparr>)"
  by (simp add: fresh_uuid_def)

lemma bnd_fresh_uuid [simp]:
  "bnd fresh_uuid f s = f (next_uuid s) (s\<lparr> next_uuid := Suc (next_uuid s) \<rparr>)"
  by (simp add: bnd_def)

lemma keeps_fresh_uuid:
  "(\<And>s. I s \<Longrightarrow> I (s\<lparr> next_uuid := Suc (next_uuid s) \<rparr>)) \<Longrightarrow> keeps I fresh_uuid"
  by (simp add: keeps_def)

lemma keeps_int4 [keeps_intro, simp]: "keeps I (int4 n)"
  by (simp add: int4_def)

lemma keeps_constr [keeps_intro, simp]: "keeps I (constr b n)"
  by (simp add: constr_def)

lemma preserves_int4 [preserves_intro, simp]: "preserves I (int4 n)"
  by (simp add: int4_def)

lemma preserves_constr [preserves_intro, simp]: "preserves I (constr b n)"
  by (simp add: constr_def)

lemma int4_run [simp]: "int4 n s = (if fits_int4 n then Inr () else Inl DataError, s)"
  by (simp add: int4_def)

lemma constr_run [simp]: "constr b n s = (if b then Inr () else Inl (IntegrityError n), s)"
  by (simp add: constr_def)

lemma bnd_int4 [simp]: "bnd (int4 n) f s = (if fits_int4 n then f () s else (Inl DataError, s))"
  by (simp add: int4_def)

lemma seq_int4 [simp]: "seq (int4 n) m s = (if fits_int4 n then m s else (Inl DataError, s))"
  by (simp add: seq_def)

lemma seq_constr [simp]:
  "seq (constr b n) m s = (if b then m s else (Inl (IntegrityError n), s))"
  by (simp add: constr_def)

lemma fits_int4_bounds: "fits_int4 n \<Longrightarrow> - 2147483648 \<le> n \<and> n \<le> int4_max"
  by (simp add: fits_int4_def)


subsection \<open>\<open>SELECT 1 FROM subscriptions ...\<close>\<close>

text \<open>\<open>is_subscriber\<close> and \<open>is_user_subscriber\<close> are the same query.\<close>

definition active_subscription :: "clock \<Rightarrow> uuid \<Rightarrow> db \<Rightarrow> bool" where
  "active_subscription ck u s \<longleftrightarrow>
     list_ex (\<lambda>r. su_user_id r = u \<and> su_status r = ''active'' \<and> now ck < su_expires_at r)
       (subscriptions s)"


subsection \<open>The notification outbox\<close>

definition enqueue_notification :: "clock \<Rightarrow> uuid \<Rightarrow> string \<Rightarrow> json \<Rightarrow> unit db_op" where
  "enqueue_notification ck u notif_type data =
     bnd fresh_uuid (\<lambda>i. modify (\<lambda>s. s\<lparr> notification_outbox := notification_outbox s @
       [\<lparr> ob_id = i, ob_user_id = u, ob_type = notif_type, ob_data = data,
          ob_created_at = now ck, ob_sent_at = None \<rparr>] \<rparr>))"

end
