(* ===== verification/Ratis_Ledger.thy ===== *)
theory Ratis_Ledger
  imports Ratis_Schema
begin

text \<open>
  The Cabecoin (CAB) tables: \<open>user_cab_balance\<close>, the append-only ledger
  \<open>cabecoin_transactions\<close> with the constraints of \<open>CabecoinsTransaction\<close>, and the three SQL
  statements every CAB credit or debit of the code base is made of. The invariant \<open>cab_ok\<close> says
  that a stored balance is the sum of the user's ledger and stays within its column; the lemmas at
  the end show that each balance update paired with its ledger row keeps it.
\<close>

section \<open>Constraints of the ledger\<close>

definition CAB_REASONS :: "string list" where
  "CAB_REASONS = [''receipt_scan'', ''label_scan'', ''barcode_scan'', ''product_identification'',
     ''fill_product_field'', ''scan_distinct'', ''promo_found'', ''mission_reward'',
     ''battlepass_milestone'', ''referral'', ''cashback_boost_debit'', ''cashback_boost_refund'',
     ''shop_purchase'', ''stonks_boost'', ''mission_freeze'', ''food_reserve_purchase'',
     ''streak_repair'', ''challenge_milestone'', ''mystery_product'', ''admin_adjustment'',
     ''retro_scan'', ''gift_card_purchase'', ''gift_card_refund'', ''achievement_unlock'']"

definition cab_reference_types :: "string list" where
  "cab_reference_types = [''scan'', ''mission'', ''battlepass_milestone'', ''referral'',
     ''user_mission'', ''community_challenge_milestone'', ''admin'', ''retro_scan'', ''achievement'']"

definition ref_type_allowed :: "string list \<Rightarrow> string option \<Rightarrow> bool" where
  "ref_type_allowed allowed t = (case t of None \<Rightarrow> True | Some x \<Rightarrow> x \<in> set allowed)"

text \<open>The partial unique indexes \<open>uq_cabtx_scan_credit\<close> and \<open>uq_cabtx_retro_scan_credit\<close>.\<close>

definition credit_ref_taken :: "string \<Rightarrow> uuid option \<Rightarrow> cab_tx list \<Rightarrow> bool" where
  "credit_ref_taken rt rid rows \<longleftrightarrow> rid \<noteq> None \<and>
     list_ex (\<lambda>r. ct_direction r = ''credit'' \<and> ct_reference_type r = Some rt
                  \<and> ct_reference_id r = rid) rows"


section \<open>Statements\<close>

text \<open>\<^verbatim>\<open>UPDATE user_cab_balance SET balance = balance + :amount WHERE user_id = :uid\<close>,
  returning the number of rows.\<close>

definition update_cab_plus :: "uuid \<Rightarrow> int \<Rightarrow> nat db_op" where
  "update_cab_plus u n = bnd (reads (\<lambda>s. user_cab_balance s u)) (\<lambda>row. case row of
       None \<Rightarrow> ret 0
     | Some b \<Rightarrow> seq (int4 (b + n)) (seq (constr (0 \<le> b + n) ''balance_nn'')
         (seq (modify (\<lambda>s. s\<lparr> user_cab_balance := (user_cab_balance s)(u \<mapsto> b + n) \<rparr>)) (ret 1))))"

text \<open>The same with \<^verbatim>\<open>balance - :amount ... AND balance >= :amount\<close>.\<close>

definition update_cab_minus :: "uuid \<Rightarrow> int \<Rightarrow> nat db_op" where
  "update_cab_minus u n = bnd (reads (\<lambda>s. user_cab_balance s u)) (\<lambda>row. case row of
       None \<Rightarrow> ret 0
     | Some b \<Rightarrow> if n \<le> b then seq (int4 (b - n)) (seq (constr (0 \<le> b - n) ''balance_nn'')
         (seq (modify (\<lambda>s. s\<lparr> user_cab_balance := (user_cab_balance s)(u \<mapsto> b - n) \<rparr>)) (ret 1)))
       else ret 0)"

definition insert_cab_tx :: "cab_tx \<Rightarrow> unit db_op" where
  "insert_cab_tx r = seq (int4 (ct_amount r))
    (seq (constr (0 < ct_amount r) ''cabecoin_transactions_amount_check'')
    (seq (constr (ct_direction r \<in> {''credit'', ''debit''}) ''cabecoin_transactions_direction_check'')
    (seq (constr (ct_reason r \<in> set CAB_REASONS) ''cabecoin_transactions_reason_check'')
    (seq (constr ((ct_reference_id r = None) = (ct_reference_type r = None))
            ''cabecoin_transactions_reference_consistency_check'')
    (seq (constr (ref_type_allowed cab_reference_types (ct_reference_type r))
            ''cabecoin_transactions_reference_type_check'')
    (bnd (reads cabecoin_transactions) (\<lambda>rows.
      seq (constr (ct_id r \<notin> ct_id ` set rows) ''cabecoin_transactions_pkey'')
      (seq (constr (\<not> (ct_direction r = ''credit'' \<and> ct_reference_type r = Some ''scan''
               \<and> credit_ref_taken ''scan'' (ct_reference_id r) rows)) ''uq_cabtx_scan_credit'')
      (seq (constr (\<not> (ct_direction r = ''credit'' \<and> ct_reference_type r = Some ''retro_scan''
               \<and> credit_ref_taken ''retro_scan'' (ct_reference_id r) rows)) ''uq_cabtx_retro_scan_credit'')
      (modify (\<lambda>s. s\<lparr> cabecoin_transactions := cabecoin_transactions s @ [r] \<rparr>)))))))))))"


section \<open>The ledger and the balance\<close>

definition signed_amount :: "cab_tx \<Rightarrow> int" where
  "signed_amount r = (if ct_direction r = ''credit'' then ct_amount r else - ct_amount r)"

definition cab_ledger :: "db \<Rightarrow> uuid \<Rightarrow> int" where
  "cab_ledger s u = sum_where (\<lambda>r. ct_user_id r = u) signed_amount (cabecoin_transactions s)"

definition cab_row_ok :: "cab_tx \<Rightarrow> bool" where
  "cab_row_ok r \<longleftrightarrow> 0 < ct_amount r \<and> ct_direction r \<in> {''credit'', ''debit''}
     \<and> ct_reason r \<in> set CAB_REASONS
     \<and> (ct_reference_id r = None) = (ct_reference_type r = None)
     \<and> ref_type_allowed cab_reference_types (ct_reference_type r)"

definition cab_ok :: "db \<Rightarrow> bool" where
  "cab_ok s \<longleftrightarrow>
     (\<forall>u b. user_cab_balance s u = Some b \<longrightarrow> b = cab_ledger s u \<and> 0 \<le> b \<and> b \<le> int4_max)
     \<and> distinct (map ct_id (cabecoin_transactions s))
     \<and> (\<forall>r \<in> set (cabecoin_transactions s). cab_row_ok r)"

text \<open>Identifiers in use are below the counter; a fresh one is therefore unused.\<close>

definition cab_ids_ok :: "db \<Rightarrow> bool" where
  "cab_ids_ok s \<longleftrightarrow> (\<forall>r \<in> set (cabecoin_transactions s). ct_id r < next_uuid s)"

lemma cab_okI:
  assumes "\<And>u b. user_cab_balance s u = Some b \<Longrightarrow> b = cab_ledger s u \<and> 0 \<le> b \<and> b \<le> int4_max"
    and "distinct (map ct_id (cabecoin_transactions s))"
    and "\<And>r. r \<in> set (cabecoin_transactions s) \<Longrightarrow> cab_row_ok r"
  shows "cab_ok s"
  using assms by (auto simp: cab_ok_def)

lemma cab_ok_balance:
  "cab_ok s \<Longrightarrow> user_cab_balance s u = Some b \<Longrightarrow> b = cab_ledger s u \<and> 0 \<le> b \<and> b \<le> int4_max"
  by (auto simp: cab_ok_def)

text \<open>The invariant only looks at the two CAB tables.\<close>

lemma cab_ok_cong:
  "user_cab_balance t = user_cab_balance s \<Longrightarrow> cabecoin_transactions t = cabecoin_transactions s \<Longrightarrow>
   cab_ok t = cab_ok s"
  by (simp add: cab_ok_def cab_ledger_def)

lemma cab_ledger_frame [simp]:
  "cab_ledger (s\<lparr> next_uuid := x0 \<rparr>) = cab_ledger s"
  "cab_ledger (s\<lparr> users := x1 \<rparr>) = cab_ledger s"
  "cab_ledger (s\<lparr> user_cab_balance := x2 \<rparr>) = cab_ledger s"
  "cab_ledger (s\<lparr> user_cashback_balance := x3 \<rparr>) = cab_ledger s"
  "cab_ledger (s\<lparr> user_streaks := x5 \<rparr>) = cab_ledger s"
  "cab_ledger (s\<lparr> user_xp_balance := x6 \<rparr>) = cab_ledger s"
  "cab_ledger (s\<lparr> xp_transactions := x7 \<rparr>) = cab_ledger s"
  "cab_ledger (s\<lparr> battlepass_seasons := x8 \<rparr>) = cab_ledger s"
  "cab_ledger (s\<lparr> battlepass_milestones := x9 \<rparr>) = cab_ledger s"
  "cab_ledger (s\<lparr> user_battlepass_progress := x10 \<rparr>) = cab_ledger s"
  "cab_ledger (s\<lparr> user_battlepass_claims := x11 \<rparr>) = cab_ledger s"
  "cab_ledger (s\<lparr> community_challenges := x12 \<rparr>) = cab_ledger s"
  "cab_ledger (s\<lparr> community_challenge_milestones := x13 \<rparr>) = cab_ledger s"
  "cab_ledger (s\<lparr> community_challenge_progress := x14 \<rparr>) = cab_ledger s"
  "cab_ledger (s\<lparr> community_challenge_claims := x15 \<rparr>) = cab_ledger s"
  "cab_ledger (s\<lparr> community_multipliers := x16 \<rparr>) = cab_ledger s"
  "cab_ledger (s\<lparr> notification_outbox := x17 \<rparr>) = cab_ledger s"
  "cab_ledger (s\<lparr> affiliate_offers := x18 \<rparr>) = cab_ledger s"
  "cab_ledger (s\<lparr> cashback_transactions := x19 \<rparr>) = cab_ledger s"
  "cab_ledger (s\<lparr> cashback_withdrawals := x20 \<rparr>) = cab_ledger s"
  "cab_ledger (s\<lparr> subscriptions := x21 \<rparr>) = cab_ledger s"
  "cab_ledger (s\<lparr> receipts := x22 \<rparr>) = cab_ledger s"
  "cab_ledger (s\<lparr> scans := x23 \<rparr>) = cab_ledger s"
  "cab_ledger (s\<lparr> products := x24 \<rparr>) = cab_ledger s"
  "cab_ledger (s\<lparr> gift_card_brands := x25 \<rparr>) = cab_ledger s"
  "cab_ledger (s\<lparr> gift_card_orders := x26 \<rparr>) = cab_ledger s"
  "cab_ledger (s\<lparr> achievements := x27 \<rparr>) = cab_ledger s"
  "cab_ledger (s\<lparr> user_achievements := x28 \<rparr>) = cab_ledger s"
  "cab_ledger (s\<lparr> referral_codes := x29 \<rparr>) = cab_ledger s"
  "cab_ledger (s\<lparr> referral_uses := x30 \<rparr>) = cab_ledger s"
  "cab_ledger (s\<lparr> play := x31 \<rparr>) = cab_ledger s"
  by (simp_all add: cab_ledger_def fun_eq_iff)

lemma cab_ok_frame [simp]:
  "cab_ok (s\<lparr> next_uuid := x0 \<rparr>) = cab_ok s"
  "cab_ok (s\<lparr> users := x1 \<rparr>) = cab_ok s"
  "cab_ok (s\<lparr> user_cashback_balance := x3 \<rparr>) = cab_ok s"
  "cab_ok (s\<lparr> user_streaks := x5 \<rparr>) = cab_ok s"
  "cab_ok (s\<lparr> user_xp_balance := x6 \<rparr>) = cab_ok s"
  "cab_ok (s\<lparr> xp_transactions := x7 \<rparr>) = cab_ok s"
  "cab_ok (s\<lparr> battlepass_seasons := x8 \<rparr>) = cab_ok s"
  "cab_ok (s\<lparr> battlepass_milestones := x9 \<rparr>) = cab_ok s"
  "cab_ok (s\<lparr> user_battlepass_progress := x10 \<rparr>) = cab_ok s"
  "cab_ok (s\<lparr> user_battlepass_claims := x11 \<rparr>) = cab_ok s"
  "cab_ok (s\<lparr> community_challenges := x12 \<rparr>) = cab_ok s"
  "cab_ok (s\<lparr> community_challenge_milestones := x13 \<rparr>) = cab_ok s"
  "cab_ok (s\<lparr> community_challenge_progress := x14 \<rparr>) = cab_ok s"
  "cab_ok (s\<lparr> community_challenge_claims := x15 \<rparr>) = cab_ok s"
  "cab_ok (s\<lparr> community_multipliers := x16 \<rparr>) = cab_ok s"
  "cab_ok (s\<lparr> notification_outbox := x17 \<rparr>) = cab_ok s"
  "cab_ok (s\<lparr> affiliate_offers := x18 \<rparr>) = cab_ok s"
  "cab_ok (s\<lparr> cashback_transactions := x19 \<rparr>) = cab_ok s"
  "cab_ok (s\<lparr> cashback_withdrawals := x20 \<rparr>) = cab_ok s"
  "cab_ok (s\<lparr> subscriptions := x21 \<rparr>) = cab_ok s"
  "cab_ok (s\<lparr> receipts := x22 \<rparr>) = cab_ok s"
  "cab_ok (s\<lparr> scans := x23 \<rparr>) = cab_ok s"
  "cab_ok (s\<lparr> products := x24 \<rparr>) = cab_ok s"
  "cab_ok (s\<lparr> gift_card_brands := x25 \<rparr>) = cab_ok s"
  "cab_ok (s\<lparr> gift_card_orders := x26 \<rparr>) = cab_ok s"
  "cab_ok (s\<lparr> achievements := x27 \<rparr>) = cab_ok s"
  "cab_ok (s\<lparr> user_achievements := x28 \<rparr>) = cab_ok s"
  "cab_ok (s\<lparr> referral_codes := x29 \<rparr>) = cab_ok s"
  "cab_ok (s\<lparr> referral_uses := x30 \<rparr>) = cab_ok s"
  "cab_ok (s\<lparr> play := x31 \<rparr>) = cab_ok s"
  by (simp_all add: cab_ok_def)

lemma cab_ids_ok_next [simp]: "cab_ids_ok s \<Longrightarrow> cab_ids_ok (s\<lparr> next_uuid := Suc (next_uuid s) \<rparr>)"
  by (auto simp: cab_ids_ok_def less_Suc_eq)

lemma cab_ids_ok_frame [simp]:
  "cab_ids_ok (s\<lparr> users := x1 \<rparr>) = cab_ids_ok s"
  "cab_ids_ok (s\<lparr> user_cab_balance := x2 \<rparr>) = cab_ids_ok s"
  "cab_ids_ok (s\<lparr> user_cashback_balance := x3 \<rparr>) = cab_ids_ok s"
  "cab_ids_ok (s\<lparr> user_streaks := x5 \<rparr>) = cab_ids_ok s"
  "cab_ids_ok (s\<lparr> user_xp_balance := x6 \<rparr>) = cab_ids_ok s"
  "cab_ids_ok (s\<lparr> xp_transactions := x7 \<rparr>) = cab_ids_ok s"
  "cab_ids_ok (s\<lparr> battlepass_seasons := x8 \<rparr>) = cab_ids_ok s"
  "cab_ids_ok (s\<lparr> battlepass_milestones := x9 \<rparr>) = cab_ids_ok s"
  "cab_ids_ok (s\<lparr> user_battlepass_progress := x10 \<rparr>) = cab_ids_ok s"
  "cab_ids_ok (s\<lparr> user_battlepass_claims := x11 \<rparr>) = cab_ids_ok s"
  "cab_ids_ok (s\<lparr> community_challenges := x12 \<rparr>) = cab_ids_ok s"
  "cab_ids_ok (s\<lparr> community_challenge_milestones := x13 \<rparr>) = cab_ids_ok s"
  "cab_ids_ok (s\<lparr> community_challenge_progress := x14 \<rparr>) = cab_ids_ok s"
  "cab_ids_ok (s\<lparr> community_challenge_claims := x15 \<rparr>) = cab_ids_ok s"
  "cab_ids_ok (s\<lparr> community_multipliers := x16 \<rparr>) = cab_ids_ok s"
  "cab_ids_ok (s\<lparr> notification_outbox := x17 \<rparr>) = cab_ids_ok s"
  "cab_ids_ok (s\<lparr> affiliate_offers := x18 \<rparr>) = cab_ids_ok s"
  "cab_ids_ok (s\<lparr> cashback_transactions := x19 \<rparr>) = cab_ids_ok s"
  "cab_ids_ok (s\<lparr> cashback_withdrawals := x20 \<rparr>) = cab_ids_ok s"
  "cab_ids_ok (s\<lparr> subscriptions := x21 \<rparr>) = cab_ids_ok s"
  "cab_ids_ok (s\<lparr> receipts := x22 \<rparr>) = cab_ids_ok s"
  "cab_ids_ok (s\<lparr> scans := x23 \<rparr>) = cab_ids_ok s"
  "cab_ids_ok (s\<lparr> products := x24 \<rparr>) = cab_ids_ok s"
  "cab_ids_ok (s\<lparr> gift_card_brands := x25 \<rparr>) = cab_ids_ok s"
  "cab_ids_ok (s\<lparr> gift_card_orders := x26 \<rparr>) = cab_ids_ok s"
  "cab_ids_ok (s\<lparr> achievements := x27 \<rparr>) = cab_ids_ok s"
  "cab_ids_ok (s\<lparr> user_achievements := x28 \<rparr>) = cab_ids_ok s"
  "cab_ids_ok (s\<lparr> referral_codes := x29 \<rparr>) = cab_ids_ok s"
  "cab_ids_ok (s\<lparr> referral_uses := x30 \<rparr>) = cab_ids_ok s"
  "cab_ids_ok (s\<lparr> play := x31 \<rparr>) = cab_ids_ok s"
  by (simp_all add: cab_ids_ok_def)

lemma keeps_cab_ok_frame:
  assumes "\<And>c. keeps (\<lambda>s. (user_cab_balance s, cabecoin_transactions s) = c) m"
  shows "keeps cab_ok m"
  by (rule keeps_frame [OF assms], rule cab_ok_cong) simp_all

lemma update_cab_plus_Inr:
  "update_cab_plus u n s = (Inr k, t) \<longleftrightarrow>
     (user_cab_balance s u = None \<and> k = 0 \<and> t = s) \<or>
     (\<exists>b. user_cab_balance s u = Some b \<and> fits_int4 (b + n) \<and> 0 \<le> b + n \<and> k = 1
        \<and> t = s\<lparr> user_cab_balance := (user_cab_balance s)(u \<mapsto> b + n) \<rparr>)"
  by (auto simp: update_cab_plus_def split: option.splits if_splits)

lemma update_cab_minus_Inr:
  "update_cab_minus u n s = (Inr k, t) \<longleftrightarrow>
     (k = 0 \<and> t = s \<and> (\<forall>b. user_cab_balance s u = Some b \<longrightarrow> b < n)) \<or>
     (\<exists>b. user_cab_balance s u = Some b \<and> n \<le> b \<and> fits_int4 (b - n) \<and> k = 1
        \<and> t = s\<lparr> user_cab_balance := (user_cab_balance s)(u \<mapsto> b - n) \<rparr>)"
  by (auto simp: update_cab_minus_def split: option.splits if_splits)

lemma update_cab_minus_short:
  "user_cab_balance s u = Some b \<Longrightarrow> b < n \<Longrightarrow> update_cab_minus u n s = (Inr 0, s)"
  by (simp add: update_cab_minus_def)

definition cab_insertable :: "cab_tx \<Rightarrow> db \<Rightarrow> bool" where
  "cab_insertable r s \<longleftrightarrow> fits_int4 (ct_amount r) \<and> cab_row_ok r
     \<and> ct_id r \<notin> ct_id ` set (cabecoin_transactions s)
     \<and> \<not> (ct_direction r = ''credit'' \<and> ct_reference_type r = Some ''scan''
          \<and> credit_ref_taken ''scan'' (ct_reference_id r) (cabecoin_transactions s))
     \<and> \<not> (ct_direction r = ''credit'' \<and> ct_reference_type r = Some ''retro_scan''
          \<and> credit_ref_taken ''retro_scan'' (ct_reference_id r) (cabecoin_transactions s))"

lemma insert_cab_tx_Inr:
  "insert_cab_tx r s = (Inr x, t) \<longleftrightarrow>
     cab_insertable r s \<and> t = s\<lparr> cabecoin_transactions := cabecoin_transactions s @ [r] \<rparr>"
  unfolding insert_cab_tx_def cab_insertable_def cab_row_ok_def
  by (auto split: if_splits)

lemma insert_cab_tx_run:
  "cab_insertable r s \<Longrightarrow>
   insert_cab_tx r s = (Inr (), s\<lparr> cabecoin_transactions := cabecoin_transactions s @ [r] \<rparr>)"
  by (simp add: insert_cab_tx_Inr)

lemma cab_ledger_insert:
  "cab_ledger (s\<lparr> cabecoin_transactions := cabecoin_transactions s @ [r] \<rparr>) u =
     cab_ledger s u + (if ct_user_id r = u then signed_amount r else 0)"
  by (simp add: cab_ledger_def)

lemma cab_ok_step:
  assumes ok: "cab_ok s" and ins: "cab_insertable r s"
    and other: "\<And>v. v \<noteq> ct_user_id r \<Longrightarrow> user_cab_balance t v = user_cab_balance s v"
    and own: "\<And>b. user_cab_balance t (ct_user_id r) = Some b \<Longrightarrow>
        \<exists>b0. user_cab_balance s (ct_user_id r) = Some b0 \<and> b = b0 + signed_amount r
             \<and> 0 \<le> b \<and> b \<le> int4_max"
    and led: "cabecoin_transactions t = cabecoin_transactions s @ [r]"
  shows "cab_ok t"
proof (rule cab_okI)
  fix u b assume b: "user_cab_balance t u = Some b"
  have sum: "cab_ledger t u = cab_ledger s u + (if ct_user_id r = u then signed_amount r else 0)"
    by (simp add: cab_ledger_def led)
  show "b = cab_ledger t u \<and> 0 \<le> b \<and> b \<le> int4_max"
  proof (cases "u = ct_user_id r")
    case True
    with own [of b] b obtain b0 where
      "user_cab_balance s u = Some b0" "b = b0 + signed_amount r" "0 \<le> b" "b \<le> int4_max" by auto
    with cab_ok_balance [OF ok, of u b0] sum True show ?thesis by simp
  next
    case False
    with other [of u] b cab_ok_balance [OF ok, of u b] sum show ?thesis by auto
  qed
next
  show "distinct (map ct_id (cabecoin_transactions t))"
    using ok ins by (auto simp: led cab_ok_def cab_insertable_def)
next
  fix x assume "x \<in> set (cabecoin_transactions t)"
  then show "cab_row_ok x" using ok ins by (auto simp: led cab_ok_def cab_insertable_def)
qed

text \<open>A balance update together with its ledger row keeps the invariant.\<close>

lemma cab_ok_credit:
  assumes "cab_ok s" and plus: "update_cab_plus u n s = (Inr k, s1)"
    and ins: "insert_cab_tx r (s1\<lparr> next_uuid := j \<rparr>) = (Inr y, t)"
    and r: "ct_user_id r = u" "ct_direction r = ''credit''" "ct_amount r = n"
  shows "cab_ok t"
proof (rule cab_ok_step [OF assms(1)])
  have tables: "cabecoin_transactions s1 = cabecoin_transactions s"
    using plus by (auto simp: update_cab_plus_Inr)
  show "cab_insertable r s"
    using ins tables by (auto simp: insert_cab_tx_Inr cab_insertable_def)
  show "cabecoin_transactions t = cabecoin_transactions s @ [r]"
    using ins tables by (auto simp: insert_cab_tx_Inr)
  show "user_cab_balance t v = user_cab_balance s v" if "v \<noteq> ct_user_id r" for v
    using plus ins r that by (auto simp: update_cab_plus_Inr insert_cab_tx_Inr)
  show "\<exists>b0. user_cab_balance s (ct_user_id r) = Some b0 \<and> b = b0 + signed_amount r
             \<and> 0 \<le> b \<and> b \<le> int4_max" if "user_cab_balance t (ct_user_id r) = Some b" for b
    using plus ins r that
    by (auto simp: update_cab_plus_Inr insert_cab_tx_Inr signed_amount_def fits_int4_def)
qed

lemma cab_ok_debit:
  assumes "cab_ok s" and minus: "update_cab_minus u n s = (Inr k, s1)" and k: "k \<noteq> 0"
    and ins: "insert_cab_tx r (s1\<lparr> next_uuid := j \<rparr>) = (Inr y, t)"
    and r: "ct_user_id r = u" "ct_direction r = ''debit''" "ct_amount r = n"
  shows "cab_ok t"
proof (rule cab_ok_step [OF assms(1)])
  have tables: "cabecoin_transactions s1 = cabecoin_transactions s"
    using minus by (auto simp: update_cab_minus_Inr)
  show "cab_insertable r s"
    using ins tables by (auto simp: insert_cab_tx_Inr cab_insertable_def)
  show "cabecoin_transactions t = cabecoin_transactions s @ [r]"
    using ins tables by (auto simp: insert_cab_tx_Inr)
  show "user_cab_balance t v = user_cab_balance s v" if "v \<noteq> ct_user_id r" for v
    using minus ins r that by (auto simp: update_cab_minus_Inr insert_cab_tx_Inr)
  show "\<exists>b0. user_cab_balance s (ct_user_id r) = Some b0 \<and> b = b0 + signed_amount r
             \<and> 0 \<le> b \<and> b \<le> int4_max" if "user_cab_balance t (ct_user_id r) = Some b" for b
    using minus k ins r that
    by (auto simp: update_cab_minus_Inr insert_cab_tx_Inr signed_amount_def fits_int4_def)
qed

text \<open>Appending a row with a fresh identifier.\<close>

lemma fresh_cab_id: "cab_ids_ok s \<Longrightarrow> next_uuid s \<notin> ct_id ` set (cabecoin_transactions s)"
  by (auto simp: cab_ids_ok_def)

lemma ref_type_allowed_simps [simp]:
  "ref_type_allowed a None"
  "ref_type_allowed a (Some x) \<longleftrightarrow> x \<in> set a"
  by (simp_all add: ref_type_allowed_def)

lemma credit_ref_taken_None [simp]: "\<not> credit_ref_taken rt None rows"
  by (simp add: credit_ref_taken_def)

end
