(* ===== verification/Ratis_Streak.thy ===== *)
theory Ratis_Streak
  imports Ratis_Ledger
begin

text \<open>
  Feed Jack, the daily streak (\<open>repositories/streak_repository.py\<close>): one row per user with the
  length of the streak, the last local date of a feed, the food reserves and the time zone. The
  functions are in the order of the file; a per-user advisory lock and \<open>FOR UPDATE\<close> serialise the
  mutations, so an operation here is one step. The lemmas give the decision table of a feed, its
  idempotence within a day, the bounds of the bonus and what a repair and a purchase cost.
\<close>

section \<open>State and helpers\<close>

record streak_state =
  st_streak_days :: int
  st_multiplier :: int
  st_food_reserves :: int
  st_already_fed_today :: bool
  st_needs_repair :: bool
  st_frozen_days_used :: int
  st_timezone :: string

record feed_result =
  fr_state :: streak_state
  fr_is_new_feed :: bool

definition DEFAULT_TZ :: string where
  "DEFAULT_TZ = ''Europe/Paris''"

definition today_in_tz :: "clock \<Rightarrow> string \<Rightarrow> day" where
  "today_in_tz ck tz = (if tz \<noteq> [] then
       (case tzdb ck tz of Some local \<Rightarrow> local (now ck) div day_us | None \<Rightarrow> utc_date ck)
     else utc_date ck)"

text \<open>\<^verbatim>\<open>min(streak_days * 0.05, 1.0)\<close> on doubles; \<open>Dbl 3602879701896397 56\<close> is the double 0.05.\<close>

definition streak_bonus :: "int \<Rightarrow> dbl" where
  "streak_bonus days = dmin (dmul (dbl_of_int days) (Dbl 3602879701896397 56)) (Dbl 1 0)"

definition get_streak_multiplier :: "clock \<Rightarrow> uuid \<Rightarrow> db \<Rightarrow> dbl" where
  "get_streak_multiplier ck u s = (case user_streaks s u of
       None \<Rightarrow> Dbl 0 0
     | Some row \<Rightarrow> (case last_fed_at row of
         None \<Rightarrow> Dbl 0 0
       | Some d \<Rightarrow> if d \<noteq> today_in_tz ck (timezone row) then Dbl 0 0
                   else streak_bonus (current_streak_days row)))"

definition empty_streak_state :: streak_state where
  "empty_streak_state = \<lparr> st_streak_days = 0, st_multiplier = 0, st_food_reserves = 0,
     st_already_fed_today = False, st_needs_repair = False, st_frozen_days_used = 0,
     st_timezone = DEFAULT_TZ \<rparr>"

definition get_streak :: "clock \<Rightarrow> uuid \<Rightarrow> db \<Rightarrow> streak_state" where
  "get_streak ck u s = (case user_streaks s u of
       None \<Rightarrow> empty_streak_state
     | Some row \<Rightarrow>
         let today = today_in_tz ck (timezone row);
             days = current_streak_days row;
             already = (case last_fed_at row of None \<Rightarrow> False | Some d \<Rightarrow> d = today);
             gap = (case last_fed_at row of None \<Rightarrow> 0
                    | Some d \<Rightarrow> if already then 0 else today - d - 1)
         in \<lparr> st_streak_days = days,
              st_multiplier = (if 0 < days then dround4 (streak_bonus days) else 0),
              st_food_reserves = food_reserves row,
              st_already_fed_today = already,
              st_needs_repair = (gap = 1 \<and> food_reserves row = 0 \<and> 0 < days),
              st_frozen_days_used = 0,
              st_timezone = timezone row \<rparr>)"

definition build_state :: "clock \<Rightarrow> int \<Rightarrow> int \<Rightarrow> day \<Rightarrow> int \<Rightarrow> string \<Rightarrow> bool \<Rightarrow> streak_state" where
  "build_state ck days reserves last_fed frozen tz already =
     \<lparr> st_streak_days = days, st_multiplier = dround4 (streak_bonus days),
       st_food_reserves = reserves,
       st_already_fed_today = (already \<or> last_fed = today_in_tz ck tz),
       st_needs_repair = False, st_frozen_days_used = frozen, st_timezone = tz \<rparr>"

definition streak_row_ok :: "streak_row \<Rightarrow> bool" where
  "streak_row_ok r \<longleftrightarrow> 0 \<le> current_streak_days r \<and> 0 \<le> food_reserves r
     \<and> current_streak_days r \<le> int4_max \<and> food_reserves r \<le> int4_max"

definition upsert_streak :: "uuid \<Rightarrow> streak_row \<Rightarrow> unit db_op" where
  "upsert_streak u row =
     seq (int4 (current_streak_days row)) (seq (int4 (food_reserves row))
     (seq (constr (0 \<le> food_reserves row) ''user_streaks_food_reserves_nn'')
     (seq (constr (0 \<le> current_streak_days row) ''user_streaks_streak_days_nn'')
     (modify (\<lambda>s. s\<lparr> user_streaks := (user_streaks s)(u \<mapsto> row) \<rparr>)))))"

text \<open>The inline debit of the module, without the guards of \<open>cab_repository.debit_cab\<close>.\<close>

definition streak_debit_cab :: "clock \<Rightarrow> uuid \<Rightarrow> int \<Rightarrow> string \<Rightarrow> unit db_op" where
  "streak_debit_cab ck u amount reason =
     bnd (update_cab_minus u amount) (\<lambda>rows.
       if rows = 0 then throw InsufficientBalance
       else bnd fresh_uuid (\<lambda>i. insert_cab_tx
         \<lparr> ct_id = i, ct_user_id = u, ct_direction = ''debit'', ct_amount = amount,
           ct_reason = reason, ct_reference_id = None, ct_reference_type = None,
           ct_context = None, ct_created_at = now ck \<rparr>))"


section \<open>Operations\<close>

text \<open>What a feed makes of a row: the new streak, reserves and days frozen, or the repair error.\<close>

definition feed_jack :: "clock \<Rightarrow> uuid \<Rightarrow> string option \<Rightarrow> feed_result db_op" where
  "feed_jack ck u tz_hint = bnd (reads (\<lambda>s. user_streaks s u)) (\<lambda>row. case row of
      None \<Rightarrow>
        let tz = (case tz_hint of Some z \<Rightarrow> if z \<noteq> [] then z else DEFAULT_TZ | None \<Rightarrow> DEFAULT_TZ);
            today = today_in_tz ck tz
        in seq (upsert_streak u \<lparr> current_streak_days = 1, last_fed_at = Some today,
                                  food_reserves = 0, timezone = tz \<rparr>)
               (ret \<lparr> fr_state = build_state ck 1 0 today 0 tz False, fr_is_new_feed = True \<rparr>)
    | Some r \<Rightarrow>
        let days = current_streak_days r;
            reserves = food_reserves r;
            tz = (case tz_hint of Some z \<Rightarrow> if z \<noteq> [] then z else timezone r | None \<Rightarrow> timezone r);
            today = today_in_tz ck tz
        in if last_fed_at r = Some today
           then ret \<lparr> fr_state = build_state ck days reserves today 0 tz True, fr_is_new_feed = False \<rparr>
           else
             let gap = (case last_fed_at r of Some d \<Rightarrow> today - d - 1 | None \<Rightarrow> 0);
                 finish = (\<lambda>new_streak new_reserves frozen.
                   seq (upsert_streak u \<lparr> current_streak_days = new_streak, last_fed_at = Some today,
                                          food_reserves = new_reserves, timezone = tz \<rparr>)
                       (ret \<lparr> fr_state = build_state ck new_streak new_reserves today frozen tz False,
                              fr_is_new_feed = True \<rparr>))
             in if gap \<le> 0 then finish (days + 1) reserves 0
                else if 0 < gap \<and> gap \<le> reserves then finish (days + 1) (reserves - gap) gap
                else if gap = 1 \<and> reserves = 0 \<and> 0 < days then throw StreakNeedsRepair
                else finish 1 0 0)"

definition repair_streak :: "clock \<Rightarrow> uuid \<Rightarrow> int \<Rightarrow> streak_state db_op" where
  "repair_streak ck u repair_cost_cab = bnd (reads (\<lambda>s. user_streaks s u)) (\<lambda>row. case row of
      None \<Rightarrow> throw StreakNotInRepairState
    | Some r \<Rightarrow>
        let today = today_in_tz ck (timezone r) in
        (case last_fed_at r of
           None \<Rightarrow> throw StreakNotInRepairState
         | Some d \<Rightarrow>
             let gap = today - d - 1 in
             if \<not> (gap = 1 \<and> food_reserves r = 0 \<and> 0 < current_streak_days r)
             then throw StreakNotInRepairState
             else seq (streak_debit_cab ck u repair_cost_cab ''streak_repair'')
                  (seq (upsert_streak u \<lparr> current_streak_days = current_streak_days r + 1,
                          last_fed_at = Some today, food_reserves = 0, timezone = timezone r \<rparr>)
                  (ret (build_state ck (current_streak_days r + 1) 0 today 0 (timezone r) False)))))"

record purchase_result =
  pu_food_reserves :: int
  pu_cab_spent :: int
  pu_streak_days :: int
  pu_multiplier :: int

definition purchase_reserve :: "clock \<Rightarrow> uuid \<Rightarrow> int \<Rightarrow> int \<Rightarrow> int \<Rightarrow> purchase_result db_op" where
  "purchase_reserve ck u quantity cost_per_reserve_cab max_food_reserves =
     (if quantity < 1 then throw ValueError
      else bnd (reads (\<lambda>s. user_streaks s u)) (\<lambda>row.
        let current = (case row of Some r \<Rightarrow> food_reserves r | None \<Rightarrow> 0);
            tz = (case row of Some r \<Rightarrow> timezone r | None \<Rightarrow> DEFAULT_TZ);
            days = (case row of Some r \<Rightarrow> current_streak_days r | None \<Rightarrow> 0);
            last = (case row of Some r \<Rightarrow> last_fed_at r | None \<Rightarrow> None)
        in if max_food_reserves < current + quantity then throw ReserveLimitExceeded
           else let total = cost_per_reserve_cab * quantity in
             seq (streak_debit_cab ck u total ''food_reserve_purchase'')
             (seq (upsert_streak u \<lparr> current_streak_days = days, last_fed_at = last,
                     food_reserves = current + quantity, timezone = tz \<rparr>)
             (ret \<lparr> pu_food_reserves = current + quantity, pu_cab_spent = total,
                    pu_streak_days = days, pu_multiplier = dround4 (streak_bonus days) \<rparr>))))"


section \<open>The bonus\<close>

lemma streak_bonus_bounds:
  assumes "0 \<le> days"
  shows "0 \<le> dval (streak_bonus days) \<and> dval (streak_bonus days) \<le> 1"
proof -
  obtain m k where mk: "dbl_of_int days = Dbl m k" by (cases "dbl_of_int days")
  have five: "0 \<le> dval (Dbl 3602879701896397 56)" by simp
  have "of_int 0 \<le> dval (Dbl days 0)" using assms by simp
  then have "of_int 0 \<le> dval (dbl_of_int days)"
    unfolding dbl_of_int_def by (rule rnd_ge) simp
  with five have "of_int 0 \<le> dval (dbl_of_int days) * dval (Dbl 3602879701896397 56)" by simp
  then have "of_int 0 \<le> dval (dmul (dbl_of_int days) (Dbl 3602879701896397 56))"
    by (rule dmul_ge) simp
  then show ?thesis
    by (simp add: streak_bonus_def dmin_def dless_dval not_less del: dmul.simps)
qed

definition streaks_ok :: "db \<Rightarrow> bool" where
  "streaks_ok s \<longleftrightarrow> (\<forall>u r. user_streaks s u = Some r \<longrightarrow> streak_row_ok r)"

lemma get_streak_multiplier_bounds:
  assumes "streaks_ok s"
  shows "0 \<le> dval (get_streak_multiplier ck u s) \<and> dval (get_streak_multiplier ck u s) \<le> 1"
  using assms streak_bonus_bounds
  by (auto simp: get_streak_multiplier_def streaks_ok_def streak_row_ok_def split: option.split)


section \<open>Well-formed rows and the CAB invariant\<close>

lemma upsert_streak_Inr:
  "upsert_streak u row s = (Inr x, t) \<longleftrightarrow>
     streak_row_ok row \<and> t = s\<lparr> user_streaks := (user_streaks s)(u \<mapsto> row) \<rparr>"
  by (auto simp: upsert_streak_def streak_row_ok_def fits_int4_def split: if_splits)

lemma keeps_upsert_streak: "keeps streaks_ok (upsert_streak u row)"
proof (rule keepsI)
  fix s r t assume "streaks_ok s" and run: "upsert_streak u row s = (r, t)"
  then show "streaks_ok t"
    by (auto simp: upsert_streak_def streaks_ok_def streak_row_ok_def fits_int4_def split: if_splits)
qed

lemma keeps_upsert_streak_cab [keeps_intro]: "keeps cab_ok (upsert_streak u row)"
  unfolding upsert_streak_def
  by (intro keeps_intro keeps_modify) simp

lemma streak_debit_cab_Inr:
  assumes "streak_debit_cab ck u n reason s = (Inr x, t)"
  shows "0 < n \<and> (\<exists>b. user_cab_balance s u = Some b \<and> n \<le> b
      \<and> user_cab_balance t = (user_cab_balance s)(u \<mapsto> b - n)) \<and> user_streaks t = user_streaks s"
proof -
  from assms obtain k s1 where minus: "update_cab_minus u n s = (Inr k, s1)" and "k \<noteq> 0"
    and ins: "\<exists>r y. ct_amount r = n \<and>
        insert_cab_tx r (s1\<lparr> next_uuid := Suc (next_uuid s1) \<rparr>) = (Inr y, t)"
    unfolding streak_debit_cab_def bnd_Inr_iff
    by (auto split: if_splits) (metis cab_tx.select_convs(4))
  from ins have "0 < n" and t: "user_cab_balance t = user_cab_balance s1" "user_streaks t = user_streaks s1"
    by (auto simp: insert_cab_tx_Inr cab_insertable_def cab_row_ok_def)
  from minus \<open>k \<noteq> 0\<close> t \<open>0 < n\<close> show ?thesis by (auto simp: update_cab_minus_Inr)
qed

lemma preserves_streak_debit_cab [preserves_intro]: "preserves cab_ok (streak_debit_cab ck u n reason)"
proof (rule preservesI)
  fix s x t assume "cab_ok s" and "streak_debit_cab ck u n reason s = (Inr x, t)"
  then obtain k s1 where minus: "update_cab_minus u n s = (Inr k, s1)" and "k \<noteq> 0"
    and ins: "insert_cab_tx \<lparr> ct_id = next_uuid s1, ct_user_id = u, ct_direction = ''debit'',
        ct_amount = n, ct_reason = reason, ct_reference_id = None, ct_reference_type = None,
        ct_context = None, ct_created_at = now ck \<rparr>
        (s1\<lparr> next_uuid := Suc (next_uuid s1) \<rparr>) = (Inr x, t)"
    unfolding streak_debit_cab_def bnd_Inr_iff by (auto split: if_splits)
  from cab_ok_debit [OF \<open>cab_ok s\<close> minus \<open>k \<noteq> 0\<close> ins] show "cab_ok t" by simp
qed

lemma preserves_feed_jack_cab [preserves_intro]: "preserves cab_ok (feed_jack ck u hint)"
  unfolding feed_jack_def Let_def
  by (intro preserves_intro keeps_preserves [OF keeps_upsert_streak_cab])

lemma preserves_repair_streak_cab [preserves_intro]: "preserves cab_ok (repair_streak ck u cost)"
  unfolding repair_streak_def Let_def
  by (intro preserves_intro keeps_preserves [OF keeps_upsert_streak_cab])

lemma preserves_purchase_reserve_cab [preserves_intro]:
  "preserves cab_ok (purchase_reserve ck u q cost mx)"
  unfolding purchase_reserve_def Let_def
  by (intro preserves_intro keeps_preserves [OF keeps_upsert_streak_cab])

lemma streaks_ok_frame [simp]:
  "streaks_ok (s\<lparr> next_uuid := x0 \<rparr>) = streaks_ok s"
  "streaks_ok (s\<lparr> users := x1 \<rparr>) = streaks_ok s"
  "streaks_ok (s\<lparr> user_cab_balance := x2 \<rparr>) = streaks_ok s"
  "streaks_ok (s\<lparr> user_cashback_balance := x3 \<rparr>) = streaks_ok s"
  "streaks_ok (s\<lparr> cabecoin_transactions := x4 \<rparr>) = streaks_ok s"
  "streaks_ok (s\<lparr> user_xp_balance := x6 \<rparr>) = streaks_ok s"
  "streaks_ok (s\<lparr> xp_transactions := x7 \<rparr>) = streaks_ok s"
  "streaks_ok (s\<lparr> battlepass_seasons := x8 \<rparr>) = streaks_ok s"
  "streaks_ok (s\<lparr> battlepass_milestones := x9 \<rparr>) = streaks_ok s"
  "streaks_ok (s\<lparr> user_battlepass_progress := x10 \<rparr>) = streaks_ok s"
  "streaks_ok (s\<lparr> user_battlepass_claims := x11 \<rparr>) = streaks_ok s"
  "streaks_ok (s\<lparr> community_challenges := x12 \<rparr>) = streaks_ok s"
  "streaks_ok (s\<lparr> community_challenge_milestones := x13 \<rparr>) = streaks_ok s"
  "streaks_ok (s\<lparr> community_challenge_progress := x14 \<rparr>) = streaks_ok s"
  "streaks_ok (s\<lparr> community_challenge_claims := x15 \<rparr>) = streaks_ok s"
  "streaks_ok (s\<lparr> community_multipliers := x16 \<rparr>) = streaks_ok s"
  "streaks_ok (s\<lparr> notification_outbox := x17 \<rparr>) = streaks_ok s"
  "streaks_ok (s\<lparr> affiliate_offers := x18 \<rparr>) = streaks_ok s"
  "streaks_ok (s\<lparr> cashback_transactions := x19 \<rparr>) = streaks_ok s"
  "streaks_ok (s\<lparr> cashback_withdrawals := x20 \<rparr>) = streaks_ok s"
  "streaks_ok (s\<lparr> subscriptions := x21 \<rparr>) = streaks_ok s"
  "streaks_ok (s\<lparr> receipts := x22 \<rparr>) = streaks_ok s"
  "streaks_ok (s\<lparr> scans := x23 \<rparr>) = streaks_ok s"
  "streaks_ok (s\<lparr> products := x24 \<rparr>) = streaks_ok s"
  "streaks_ok (s\<lparr> gift_card_brands := x25 \<rparr>) = streaks_ok s"
  "streaks_ok (s\<lparr> gift_card_orders := x26 \<rparr>) = streaks_ok s"
  "streaks_ok (s\<lparr> achievements := x27 \<rparr>) = streaks_ok s"
  "streaks_ok (s\<lparr> user_achievements := x28 \<rparr>) = streaks_ok s"
  "streaks_ok (s\<lparr> referral_codes := x29 \<rparr>) = streaks_ok s"
  "streaks_ok (s\<lparr> referral_uses := x30 \<rparr>) = streaks_ok s"
  "streaks_ok (s\<lparr> play := x31 \<rparr>) = streaks_ok s"
  by (simp_all add: streaks_ok_def)

lemma keeps_streak_debit_streaks [keeps_intro]: "keeps streaks_ok (streak_debit_cab ck u n reason)"
  unfolding streak_debit_cab_def update_cab_minus_def insert_cab_tx_def
  by (intro keeps_intro keeps_modify keeps_fresh_uuid) simp_all

lemmas streak_keeps = keeps_upsert_streak keeps_streak_debit_streaks

lemma keeps_streaks_ok:
  "keeps streaks_ok (feed_jack ck u hint)"
  "keeps streaks_ok (repair_streak ck u cost)"
  "keeps streaks_ok (purchase_reserve ck u q cost mx)"
  unfolding feed_jack_def repair_streak_def purchase_reserve_def Let_def
  by (intro keeps_intro streak_keeps)+


section \<open>The rule of a feed\<close>

text \<open>
  What the module's documentation promises, over the days that were missed: the dates strictly
  between the last feed and today.
\<close>

datatype feed_outcome = AlreadyFed | NormalFeed | AutoFreeze int | NeedsRepair | Reset

definition missed_days :: "day \<Rightarrow> day \<Rightarrow> int" where
  "missed_days d today = int (card {d <..< today})"

definition streak_rule :: "streak_row \<Rightarrow> day \<Rightarrow> day \<Rightarrow> feed_outcome" where
  "streak_rule r d today =
     (if d = today then AlreadyFed
      else if missed_days d today = 0 then NormalFeed
      else if missed_days d today \<le> food_reserves r then AutoFreeze (missed_days d today)
      else if missed_days d today = 1 \<and> 0 < current_streak_days r then NeedsRepair
      else Reset)"

definition fed_row :: "int \<Rightarrow> int \<Rightarrow> day \<Rightarrow> string \<Rightarrow> streak_row" where
  "fed_row days reserves today tz = \<lparr> current_streak_days = days, last_fed_at = Some today,
     food_reserves = reserves, timezone = tz \<rparr>"

definition feed_spec ::
  "clock \<Rightarrow> uuid \<Rightarrow> string \<Rightarrow> streak_row \<Rightarrow> day \<Rightarrow> db \<Rightarrow> (error + feed_result) \<times> db" where
  "feed_spec ck u tz r d s =
     (let today = today_in_tz ck tz;
          days = current_streak_days r;
          fed = (\<lambda>days reserves frozen.
            (Inr \<lparr> fr_state = build_state ck days reserves today frozen tz False, fr_is_new_feed = True \<rparr>,
             s\<lparr> user_streaks := (user_streaks s)(u \<mapsto> fed_row days reserves today tz) \<rparr>))
      in case streak_rule r d today of
           AlreadyFed \<Rightarrow> (Inr \<lparr> fr_state = build_state ck days (food_reserves r) today 0 tz True,
                                fr_is_new_feed = False \<rparr>, s)
         | NormalFeed \<Rightarrow> fed (days + 1) (food_reserves r) 0
         | AutoFreeze n \<Rightarrow> fed (days + 1) (food_reserves r - n) n
         | NeedsRepair \<Rightarrow> (Inl StreakNeedsRepair, s)
         | Reset \<Rightarrow> fed 1 0 0)"

definition hinted_tz :: "string option \<Rightarrow> string \<Rightarrow> string" where
  "hinted_tz hint tz = (case hint of Some z \<Rightarrow> if z \<noteq> [] then z else tz | None \<Rightarrow> tz)"

lemma missed_days_eq: "missed_days d today = max 0 (today - d - 1)"
  by (simp add: missed_days_def max_def)

lemma upsert_streak_run:
  "streak_row_ok row \<Longrightarrow>
   upsert_streak u row s = (Inr (), s\<lparr> user_streaks := (user_streaks s)(u \<mapsto> row) \<rparr>)"
  by (simp add: upsert_streak_Inr)

lemma seq_upsert_streak:
  "streak_row_ok row \<Longrightarrow>
   seq (upsert_streak u row) m s = m (s\<lparr> user_streaks := (user_streaks s)(u \<mapsto> row) \<rparr>)"
  by (rule seq_run_Inr [OF upsert_streak_run])

lemma feed_jack_refines_rule_aux:
  assumes "streaks_ok s" and "user_streaks s u = Some r" and "last_fed_at r = Some d"
    and "current_streak_days r < int4_max"
  shows "feed_jack ck u hint s = feed_spec ck u (hinted_tz hint (timezone r)) r d s"
proof -
  define tz where "tz = hinted_tz hint (timezone r)"
  define today where "today = today_in_tz ck tz"
  have ok: "0 \<le> current_streak_days r" "0 \<le> food_reserves r" "food_reserves r \<le> int4_max"
    using assms(1,2) by (auto simp: streaks_ok_def streak_row_ok_def)
  have good: "streak_row_ok (fed_row n m today tz)"
    if "0 \<le> n" "n \<le> int4_max" "0 \<le> m" "m \<le> int4_max" for n m
    using that by (simp add: streak_row_ok_def fed_row_def)
  have unf: "feed_jack ck u hint s =
     (if d = today
      then (Inr \<lparr> fr_state = build_state ck (current_streak_days r) (food_reserves r) today 0 tz True,
                  fr_is_new_feed = False \<rparr>, s)
      else let gap = today - d - 1;
               finish = (\<lambda>n m frozen. seq (upsert_streak u (fed_row n m today tz))
                   (ret \<lparr> fr_state = build_state ck n m today frozen tz False, fr_is_new_feed = True \<rparr>))
           in (if gap \<le> 0 then finish (current_streak_days r + 1) (food_reserves r) 0
               else if 0 < gap \<and> gap \<le> food_reserves r
               then finish (current_streak_days r + 1) (food_reserves r - gap) gap
               else if gap = 1 \<and> food_reserves r = 0 \<and> 0 < current_streak_days r
               then throw StreakNeedsRepair else finish 1 0 0) s)"
    using assms(2,3)
    by (simp add: feed_jack_def Let_def fed_row_def tz_def today_def hinted_tz_def split: option.split)
  show ?thesis
    unfolding unf feed_spec_def Let_def tz_def [symmetric] today_def [symmetric]
    using ok assms(4)
    by (auto simp: streak_rule_def missed_days_eq seq_upsert_streak good)
qed


definition demo_clock :: clock where
  "demo_clock = \<lparr> now = 20000 * day_us, tzdb = (\<lambda>z.
       if z = ''Europe/Paris'' then Some (\<lambda>t. t + 2 * hour_us)
       else if z = ''America/New_York'' then Some (\<lambda>t. t - 4 * hour_us) else None),
     paris = (\<lambda>t. t + 2 * hour_us) \<rparr>"



section \<open>Repeated feeds\<close>

lemma feed_jack_Inr:
  assumes "feed_jack ck u hint s = (Inr res, t)"
  shows "\<exists>row. user_streaks t u = Some row
      \<and> last_fed_at row = Some (today_in_tz ck (hinted_tz hint (timezone row)))
      \<and> st_streak_days (fr_state res) = current_streak_days row
      \<and> st_food_reserves (fr_state res) = food_reserves row"
  using assms
  by (auto simp: feed_jack_def Let_def seq_Inr_iff upsert_streak_Inr hinted_tz_def build_state_def
      split: option.splits if_splits)

lemma feed_jack_already:
  assumes "user_streaks t u = Some row"
    and "last_fed_at row = Some (today_in_tz ck (hinted_tz hint (timezone row)))"
  shows "\<exists>res. feed_jack ck u hint t = (Inr res, t) \<and> \<not> fr_is_new_feed res
      \<and> st_streak_days (fr_state res) = current_streak_days row
      \<and> st_food_reserves (fr_state res) = food_reserves row"
  using assms
  by (auto simp: feed_jack_def Let_def hinted_tz_def build_state_def split: option.splits if_splits)

text \<open>
  Feeding twice at one instant with the same request is idempotent: the second call returns, is not
  a new feed (so no XP is awarded for it), reports the same streak and reserves, and leaves the
  database as it is.
\<close>

theorem feed_jack_idempotent:
  assumes "feed_jack ck u hint s = (Inr res, t)"
  shows "\<exists>res'. feed_jack ck u hint t = (Inr res', t) \<and> \<not> fr_is_new_feed res'
      \<and> st_streak_days (fr_state res') = st_streak_days (fr_state res)
      \<and> st_food_reserves (fr_state res') = st_food_reserves (fr_state res)"
  using feed_jack_Inr [OF assms] feed_jack_already by fastforce

theorem feed_jack_idempotent_witness:
  "\<exists>res t res'. feed_jack demo_clock 7 None empty_db = (Inr res, t) \<and> fr_is_new_feed res
      \<and> feed_jack demo_clock 7 None t = (Inr res', t) \<and> \<not> fr_is_new_feed res'"
proof -
  obtain res t where run: "feed_jack demo_clock 7 None empty_db = (Inr res, t)"
    and new: "fr_is_new_feed res"
    by (simp add: feed_jack_def Let_def seq_upsert_streak streak_row_ok_def empty_db_def)
  from feed_jack_idempotent [OF run] run new show ?thesis by blast
qed

text \<open>
  The date of a feed is the date of the zone the client sends. If two zones are one day apart at some
  instant (they always are somewhere), then after a feed dated in the earlier zone a feed in the
  later one and again in the earlier one are both new feeds: at one instant the streak grows by two
  and the row is back at the date it had, so the pair can be repeated without time passing.
\<close>

theorem feed_jack_zone_hop:
  assumes "streaks_ok s" and "user_streaks s u = Some r"
    and "last_fed_at r = Some (today_in_tz ck z1)"
    and "today_in_tz ck z2 = today_in_tz ck z1 + 1" and "z1 \<noteq> []" and "z2 \<noteq> []"
    and "current_streak_days r + 2 \<le> int4_max"
  shows "\<exists>res1 t1 res2 t2. feed_jack ck u (Some z2) s = (Inr res1, t1) \<and> fr_is_new_feed res1
      \<and> feed_jack ck u (Some z1) t1 = (Inr res2, t2) \<and> fr_is_new_feed res2
      \<and> user_streaks t2 u = Some (fed_row (current_streak_days r + 2) (food_reserves r)
                                    (today_in_tz ck z1) z1)"
proof -
  have ok: "0 \<le> current_streak_days r" "0 \<le> food_reserves r" "food_reserves r \<le> int4_max"
    using assms(1,2) by (auto simp: streaks_ok_def streak_row_ok_def)
  let ?r1 = "fed_row (current_streak_days r + 1) (food_reserves r) (today_in_tz ck z2) z2"
  let ?t1 = "s\<lparr> user_streaks := (user_streaks s)(u \<mapsto> ?r1) \<rparr>"
  have 1: "feed_jack ck u (Some z2) s = feed_spec ck u z2 r (today_in_tz ck z1) s"
    using feed_jack_refines_rule_aux [OF assms(1,2,3)] assms(6,7) by (simp add: hinted_tz_def)
  have 2: "feed_jack ck u (Some z1) ?t1 = feed_spec ck u z1 ?r1 (today_in_tz ck z2) ?t1"
    using feed_jack_refines_rule_aux [of ?t1 u ?r1 "today_in_tz ck z2" ck "Some z1"] assms ok
    by (simp add: hinted_tz_def fed_row_def streaks_ok_def streak_row_ok_def)
  show ?thesis
    unfolding 1 using 2 assms(4)
    by (simp add: feed_spec_def Let_def streak_rule_def missed_days_eq fed_row_def)
qed

theorem feed_jack_zone_hop_witness:
  "\<exists>res1 t1 res2 t2. feed_jack demo_clock 7 (Some ''Europe/Paris'')
        (empty_db\<lparr> user_streaks := [7 \<mapsto> fed_row 4 0 19999 ''Europe/Paris''] \<rparr>) = (Inr res1, t1)
      \<and> fr_is_new_feed res1
      \<and> feed_jack demo_clock 7 (Some ''America/New_York'') t1 = (Inr res2, t2) \<and> fr_is_new_feed res2
      \<and> user_streaks t2 7 = Some (fed_row 6 0 19999 ''America/New_York'')"
proof -
  have z: "today_in_tz demo_clock ''America/New_York'' = 19999"
    "today_in_tz demo_clock ''Europe/Paris'' = 20000"
    by (simp_all add: demo_clock_def today_in_tz_def)
  show ?thesis
    using feed_jack_zone_hop [of "empty_db\<lparr> user_streaks := [7 \<mapsto> fed_row 4 0 19999 ''Europe/Paris''] \<rparr>"
        7 "fed_row 4 0 19999 ''Europe/Paris''" demo_clock "''America/New_York''" "''Europe/Paris''"]
    by (simp add: z streaks_ok_def streak_row_ok_def fed_row_def)
qed


section \<open>Repair and reserves\<close>

lemma streak_debit_cab_run:
  assumes "cab_ids_ok s" and "user_cab_balance s u = Some b" and "0 < n" and "n \<le> b"
    and "b \<le> int4_max" and "reason \<in> set CAB_REASONS"
  shows "\<exists>t. streak_debit_cab ck u n reason s = (Inr (), t) \<and> user_streaks t = user_streaks s
      \<and> user_cab_balance t = (user_cab_balance s)(u \<mapsto> b - n)"
  using assms fresh_cab_id [OF assms(1)]
  by (simp add: streak_debit_cab_def update_cab_minus_def insert_cab_tx_Inr cab_insertable_def
      cab_row_ok_def fits_int4_def)

definition in_repair_state :: "clock \<Rightarrow> streak_row \<Rightarrow> bool" where
  "in_repair_state ck r \<longleftrightarrow> (case last_fed_at r of None \<Rightarrow> False
     | Some d \<Rightarrow> today_in_tz ck (timezone r) = d + 2 \<and> food_reserves r = 0 \<and> 0 < current_streak_days r)"

lemma feed_jack_needs_repair:
  assumes "feed_jack ck u None s = (Inl StreakNeedsRepair, t)"
  shows "t = s \<and> (\<exists>r. user_streaks s u = Some r \<and> in_repair_state ck r)"
  using assms
  by (auto simp: feed_jack_def Let_def in_repair_state_def seq_Inl_iff upsert_streak_def int4_def constr_def
      split: option.splits if_splits)

text \<open>
  A feed that is refused because the streak needs a repair is never a dead end: the refused feed
  changes nothing, and a user with enough CAB repairs the streak at that instant. The repair charges
  exactly its cost, prolongs the streak by one day, and the feed is then accepted as already done.
\<close>

theorem repair_resolves_needs_repair:
  assumes "cab_ok s" and "cab_ids_ok s" and "streaks_ok s"
    and "feed_jack ck u None s = (Inl StreakNeedsRepair, s')"
    and "user_cab_balance s u = Some b" and "0 < cost" and "cost \<le> b"
    and "\<And>r. user_streaks s u = Some r \<Longrightarrow> current_streak_days r < int4_max"
  shows "\<exists>r st t res. s' = s \<and> user_streaks s u = Some r
      \<and> repair_streak ck u cost s = (Inr st, t)
      \<and> user_cab_balance t = (user_cab_balance s)(u \<mapsto> b - cost)
      \<and> user_streaks t = (user_streaks s)(u \<mapsto> fed_row (current_streak_days r + 1) 0
                              (today_in_tz ck (timezone r)) (timezone r))
      \<and> feed_jack ck u None t = (Inr res, t) \<and> \<not> fr_is_new_feed res"
proof -
  obtain r where s': "s' = s" and r: "user_streaks s u = Some r" and rep: "in_repair_state ck r"
    using feed_jack_needs_repair [OF assms(4)] by blast
  obtain t0 where deb: "streak_debit_cab ck u cost ''streak_repair'' s = (Inr (), t0)"
    and t0: "user_streaks t0 = user_streaks s" "user_cab_balance t0 = (user_cab_balance s)(u \<mapsto> b - cost)"
    using streak_debit_cab_run [OF assms(2,5-7), of "''streak_repair''" ck]
      cab_ok_balance [OF assms(1,5)] by (auto simp: CAB_REASONS_def)
  let ?row = "fed_row (current_streak_days r + 1) 0 (today_in_tz ck (timezone r)) (timezone r)"
  let ?t = "t0\<lparr> user_streaks := (user_streaks t0)(u \<mapsto> ?row) \<rparr>"
  have "streak_row_ok ?row"
    using assms(3,8) r by (auto simp: streaks_ok_def streak_row_ok_def fed_row_def)
  then have run: "\<exists>st. repair_streak ck u cost s = (Inr st, ?t)"
    using r rep
    by (auto simp: repair_streak_def Let_def in_repair_state_def fed_row_def 
        seq_run_Inr [where m = "streak_debit_cab ck u cost ''streak_repair''" and s = s, OF deb]
        seq_upsert_streak split: option.splits)
  moreover have "\<exists>res. feed_jack ck u None ?t = (Inr res, ?t) \<and> \<not> fr_is_new_feed res"
    using feed_jack_already [of ?t u ?row ck None] by (auto simp: fed_row_def hinted_tz_def)
  ultimately show ?thesis using s' r t0 by fastforce
qed

theorem repair_resolves_needs_repair_witness:
  "\<exists>r st t. repair_streak demo_clock 7 50
      (empty_db\<lparr> user_streaks := [7 \<mapsto> fed_row 4 0 19998 ''Europe/Paris''],
                 user_cab_balance := [7 \<mapsto> 80],
                 cabecoin_transactions := [\<lparr> ct_id = 0, ct_user_id = 7, ct_direction = ''credit'',
                   ct_amount = 80, ct_reason = ''referral'', ct_reference_id = None,
                   ct_reference_type = None, ct_context = None, ct_created_at = 0 \<rparr>],
                 next_uuid := 1 \<rparr>) = (Inr st, t)
      \<and> user_cab_balance t 7 = Some 30 \<and> user_streaks t 7 = Some r \<and> current_streak_days r = 5"
proof -
  let ?s = "empty_db\<lparr> user_streaks := [7 \<mapsto> fed_row 4 0 19998 ''Europe/Paris''],
                 user_cab_balance := [7 \<mapsto> 80],
                 cabecoin_transactions := [\<lparr> ct_id = 0, ct_user_id = 7, ct_direction = ''credit'',
                   ct_amount = 80, ct_reason = ''referral'', ct_reference_id = None,
                   ct_reference_type = None, ct_context = None, ct_created_at = 0 \<rparr>],
                 next_uuid := 1 \<rparr>"
  have tz: "today_in_tz demo_clock ''Europe/Paris'' = 20000"
    by (simp add: demo_clock_def today_in_tz_def)
  have "cab_ok ?s"
    by (simp add: cab_ok_def cab_ledger_def signed_amount_def cab_row_ok_def CAB_REASONS_def)
  moreover have "cab_ids_ok ?s" "streaks_ok ?s"
    by (simp_all add: cab_ids_ok_def streaks_ok_def streak_row_ok_def fed_row_def)
  moreover have "feed_jack demo_clock 7 None ?s = (Inl StreakNeedsRepair, ?s)"
    by (simp add: feed_jack_def Let_def fed_row_def tz)
  ultimately show ?thesis
    using repair_resolves_needs_repair [of ?s demo_clock 7 ?s 80 50]
    by (fastforce simp: fed_row_def)
qed

text \<open>
  A purchase that returns stays within the configured maximum, adds exactly the quantity, keeps the
  streak and its date, and charges quantity times price, which the user had.
\<close>

theorem purchase_reserve_charges:
  assumes "purchase_reserve ck u quantity cost mx s = (Inr res, t)"
  shows "\<exists>b. user_cab_balance s u = Some b \<and> cost * quantity \<le> b
      \<and> user_cab_balance t = (user_cab_balance s)(u \<mapsto> b - cost * quantity)
      \<and> user_streaks t = (user_streaks s)(u \<mapsto> (case user_streaks s u of
           None \<Rightarrow> \<lparr> current_streak_days = 0, last_fed_at = None, food_reserves = quantity,
                     timezone = DEFAULT_TZ \<rparr>
         | Some r \<Rightarrow> r\<lparr> food_reserves := food_reserves r + quantity \<rparr>))
      \<and> pu_food_reserves res \<le> mx \<and> pu_cab_spent res = cost * quantity
      \<and> 0 < cost \<and> 1 \<le> quantity"
proof -
  have q: "1 \<le> quantity" using assms by (auto simp: purchase_reserve_def split: if_splits)
  have pos: "0 < cost * quantity \<longleftrightarrow> 0 < cost" using q by (simp add: zero_less_mult_iff)
  have row: "\<lparr> current_streak_days = current_streak_days r, last_fed_at = last_fed_at r,
      food_reserves = n, timezone = timezone r \<rparr> = r\<lparr> food_reserves := n \<rparr>" for r n
    by (cases r) simp
  show ?thesis
    using assms q
    by (auto simp: purchase_reserve_def Let_def seq_Inr_iff upsert_streak_Inr row pos
        dest!: streak_debit_cab_Inr split: if_splits option.splits)
qed

theorem purchase_reserve_charges_witness:
  "\<exists>res t b row. purchase_reserve demo_clock 7 2 30 5
      (empty_db\<lparr> user_cab_balance := [7 \<mapsto> 80] \<rparr>) = (Inr res, t)
      \<and> user_cab_balance t = [7 \<mapsto> 20 :: int] \<and> user_streaks t 7 = Some row \<and> food_reserves row = 2"
proof -
  let ?s = "empty_db\<lparr> user_cab_balance := [7 \<mapsto> 80] \<rparr>"
  obtain res t where run: "purchase_reserve demo_clock 7 2 30 5 ?s = (Inr res, t)"
    by (simp add: purchase_reserve_def Let_def streak_debit_cab_def update_cab_minus_def insert_cab_tx_def
        upsert_streak_def fits_int4_def empty_db_def CAB_REASONS_def)
  from purchase_reserve_charges [OF run] run show ?thesis
    by (auto simp: empty_db_def)
qed

end
