(* ===== verification/Ratis_Challenge.thy ===== *)
theory Ratis_Challenge
  imports Ratis_Ledger
begin

text \<open>
  Community challenges (\<open>repositories/challenge_repository.py\<close>): one shared counter per challenge,
  milestones every user may claim once when the counter has reached their threshold, and the
  multipliers some milestones grant. The functions are in the order of the file. The lemmas show
  that at most one challenge is active, that a milestone is claimed at most once per user in any
  sequence of requests, and which notifications an increment sends.
\<close>

section \<open>Queries\<close>

definition milestone_claimed :: "uuid \<Rightarrow> uuid \<Rightarrow> db \<Rightarrow> bool" where
  "milestone_claimed mid u s \<longleftrightarrow>
     list_ex (\<lambda>c. cc_milestone_id c = mid \<and> cc_user_id c = u) (community_challenge_claims s)"

definition current_count :: "db \<Rightarrow> uuid \<Rightarrow> int" where
  "current_count s cid = (case community_challenge_progress s cid of None \<Rightarrow> 0 | Some n \<Rightarrow> n)"

definition grace_until :: "challenge_row \<Rightarrow> stamp" where
  "grace_until c = ch_ends_at c + ch_grace_period_days c * day_us"

record milestone_view =
  mv_id :: uuid
  mv_threshold :: int
  mv_reward_type :: string
  mv_reward_value :: reward_value
  mv_label :: "string option"
  mv_sort_order :: int
  mv_unlocked :: bool
  mv_claimed :: bool

record challenge_view =
  cv_id :: uuid
  cv_title :: string
  cv_description :: "string option"
  cv_action_type :: string
  cv_objective :: int
  cv_current_count :: int
  cv_status :: string
  cv_ends_at :: stamp
  cv_claims_until :: stamp
  cv_milestones :: "milestone_view list"

definition get_active_challenge_with_state :: "clock \<Rightarrow> uuid \<Rightarrow> db \<Rightarrow> challenge_view option" where
  "get_active_challenge_with_state ck u s =
     (case List.find ch_is_active (community_challenges s) of
        None \<Rightarrow> None
      | Some c \<Rightarrow>
          let cnt = current_count s (ch_id c);
              view = (\<lambda>status. Some \<lparr> cv_id = ch_id c, cv_title = ch_title c,
                cv_description = ch_description c, cv_action_type = ch_action_type c,
                cv_objective = ch_objective c, cv_current_count = cnt, cv_status = status,
                cv_ends_at = ch_ends_at c, cv_claims_until = grace_until c,
                cv_milestones = map (\<lambda>m. \<lparr> mv_id = cm_id m, mv_threshold = cm_threshold m,
                    mv_reward_type = cm_reward_type m, mv_reward_value = cm_reward_value m,
                    mv_label = cm_label m, mv_sort_order = cm_sort_order m,
                    mv_unlocked = (cm_threshold m \<le> cnt),
                    mv_claimed = milestone_claimed (cm_id m) u s \<rparr>)
                  (sort_key cm_sort_order
                    (filter (\<lambda>m. cm_challenge_id m = ch_id c) (community_challenge_milestones s))) \<rparr>)
          in if now ck < ch_ends_at c then view ''active''
             else if now ck < grace_until c then view ''frozen''
             else None)"

definition multiplier_active :: "clock \<Rightarrow> uuid \<Rightarrow> multiplier_row \<Rightarrow> bool" where
  "multiplier_active ck u m \<longleftrightarrow>
     mu_user_id m = u \<and> mu_active_from m \<le> now ck \<and> now ck < mu_active_until m"

definition get_active_community_multiplier :: "clock \<Rightarrow> uuid \<Rightarrow> string \<Rightarrow> db \<Rightarrow> dbl" where
  "get_active_community_multiplier ck u applies_to s =
     (case List.find (\<lambda>m. multiplier_active ck u m
            \<and> (mu_applies_to m = applies_to \<or> mu_applies_to m = ''both'')) (community_multipliers s) of
        None \<Rightarrow> Dbl 0 0
      | Some m \<Rightarrow> decimal_to_dbl (mu_multiplier m))"

definition get_active_community_multipliers :: "clock \<Rightarrow> uuid \<Rightarrow> db \<Rightarrow> dbl \<times> dbl" where
  "get_active_community_multipliers ck u s =
     (case List.find (multiplier_active ck u) (community_multipliers s) of
        None \<Rightarrow> (Dbl 0 0, Dbl 0 0)
      | Some row \<Rightarrow>
          let m = decimal_to_dbl (mu_multiplier row) in
          if mu_applies_to row = ''cab'' then (m, Dbl 0 0)
          else if mu_applies_to row = ''xp'' then (Dbl 0 0, m)
          else (m, m))"


section \<open>Progress and claims\<close>

definition challenge_matches :: "clock \<Rightarrow> string \<Rightarrow> json option \<Rightarrow> challenge_row \<Rightarrow> bool" where
  "challenge_matches ck action_type context c \<longleftrightarrow>
     ch_is_active c \<and> ch_action_type c = action_type \<and> now ck < ch_ends_at c
     \<and> (case ch_action_filter c of None \<Rightarrow> True
        | Some f \<Rightarrow> (case context of None \<Rightarrow> False | Some j \<Rightarrow> json_contained f j))"

text \<open>The \<open>UPDATE ... FROM ... RETURNING\<close> of the increment: the new counter of every match.\<close>

definition bump_progress :: "uuid \<Rightarrow> (uuid \<times> int) list \<Rightarrow> (uuid \<times> int) list db_op" where
  "bump_progress cid acc = bnd (reads (\<lambda>s. community_challenge_progress s cid)) (\<lambda>row. case row of
       None \<Rightarrow> ret acc
     | Some n \<Rightarrow> seq (int4 (n + 1)) (seq (constr (0 \<le> n + 1) ''community_challenge_progress_count_nn'')
         (seq (modify (\<lambda>s. s\<lparr> community_challenge_progress :=
                 (community_challenge_progress s)(cid \<mapsto> n + 1) \<rparr>))
         (ret (acc @ [(cid, n + 1)])))))"

definition label_json :: "string option \<Rightarrow> json" where
  "label_json l = (case l of None \<Rightarrow> JNull | Some x \<Rightarrow> JStr x)"

definition milestones_at :: "(uuid \<times> int) list \<Rightarrow> db \<Rightarrow> challenge_milestone list" where
  "milestones_at inc s = concat (map (\<lambda>(cid, n). filter (\<lambda>m. cm_challenge_id m = cid \<and> cm_threshold m = n)
     (community_challenge_milestones s)) inc)"

definition maybe_increment_challenge :: "clock \<Rightarrow> uuid \<Rightarrow> string \<Rightarrow> json option \<Rightarrow> unit db_op" where
  "maybe_increment_challenge ck u action_type context =
     bnd (reads (\<lambda>s. filter (challenge_matches ck action_type context) (community_challenges s))) (\<lambda>cs.
     bnd (for_each (\<lambda>c acc. bump_progress (ch_id c) acc) cs []) (\<lambda>inc.
     bnd (reads (milestones_at inc)) (\<lambda>ms.
     for_each (\<lambda>m _. enqueue_notification ck u ''challenge_milestone_unlocked''
                       (JObj [(''label'', label_json (cm_label m))])) ms ())))"

record claim_spec =
  cs_milestone_id :: uuid
  cs_reward_type :: string
  cs_reward_value :: reward_value
  cs_challenge_id :: uuid

definition insert_challenge_claim :: "challenge_claim \<Rightarrow> unit db_op" where
  "insert_challenge_claim c = bnd (reads (milestone_claimed (cc_milestone_id c) (cc_user_id c))) (\<lambda>dup.
     seq (constr (\<not> dup) ''uq_challenge_claims_milestone_user'')
     (modify (\<lambda>s. s\<lparr> community_challenge_claims := community_challenge_claims s @ [c] \<rparr>)))"

text \<open>The join of a milestone with its active challenge.\<close>

definition milestone_of_active :: "uuid \<Rightarrow> db \<Rightarrow> (challenge_milestone \<times> challenge_row) option" where
  "milestone_of_active mid s =
     List.find (\<lambda>(m, c). cm_id m = mid \<and> ch_id c = cm_challenge_id m \<and> ch_is_active c)
       (List.product (community_challenge_milestones s) (community_challenges s))"

definition challenge_claim_milestone :: "clock \<Rightarrow> uuid \<Rightarrow> uuid \<Rightarrow> claim_spec db_op" where
  "challenge_claim_milestone ck u mid = bnd (reads (milestone_of_active mid)) (\<lambda>row. case row of
      None \<Rightarrow> throw MilestoneNotFound
    | Some (m, c) \<Rightarrow>
        if grace_until c \<le> now ck then throw ChallengeExpired
        else bnd (reads (\<lambda>s. current_count s (cm_challenge_id m))) (\<lambda>progress.
          if progress < cm_threshold m then throw MilestoneLocked
          else bnd (reads (milestone_claimed mid u)) (\<lambda>existing.
            if existing then throw MilestoneAlreadyClaimed
            else seq (catch (insert_challenge_claim \<lparr> cc_challenge_id = cm_challenge_id m,
                               cc_milestone_id = mid, cc_user_id = u \<rparr>)
                        (\<lambda>e. if is_integrity_error e then throw MilestoneAlreadyClaimed else throw e))
                 (ret \<lparr> cs_milestone_id = mid, cs_reward_type = cm_reward_type m,
                        cs_reward_value = cm_reward_value m, cs_challenge_id = cm_challenge_id m \<rparr>))))"

definition applies_to_values :: "string list" where
  "applies_to_values = [''cab'', ''xp'', ''both'']"

definition create_community_multiplier ::
  "clock \<Rightarrow> uuid \<Rightarrow> uuid \<Rightarrow> decimal \<Rightarrow> string \<Rightarrow> int \<Rightarrow> unit db_op" where
  "create_community_multiplier ck cid u multiplier applies_to duration_hours =
     seq (constr (applies_to \<in> set applies_to_values) ''community_multipliers_applies_to_check'')
     (bnd (reads community_multipliers) (\<lambda>rows.
       seq (constr (\<not> list_ex (\<lambda>m. mu_challenge_id m = cid \<and> mu_user_id m = u) rows)
              ''uq_community_multipliers_challenge_user'')
       (modify (\<lambda>s. s\<lparr> community_multipliers := community_multipliers s @
          [\<lparr> mu_challenge_id = cid, mu_user_id = u, mu_multiplier = multiplier, mu_applies_to = applies_to,
             mu_active_from = now ck, mu_active_until = now ck + duration_hours * hour_us \<rparr>] \<rparr>))))"


section \<open>Administration\<close>

text \<open>The arguments of \<open>create_challenge\<close>, the columns of the row but its id and state.\<close>

definition create_challenge ::
  "string \<Rightarrow> string option \<Rightarrow> string \<Rightarrow> json option \<Rightarrow> int \<Rightarrow> stamp \<Rightarrow> stamp \<Rightarrow> int \<Rightarrow> uuid db_op" where
  "create_challenge title description action_type action_filter objective starts_at ends_at grace =
     bnd fresh_uuid (\<lambda>cid. seq (int4 objective) (seq (int4 grace)
     (seq (modify (\<lambda>s. s\<lparr> community_challenges := community_challenges s @
            [\<lparr> ch_id = cid, ch_title = title, ch_description = description,
               ch_action_type = action_type, ch_action_filter = action_filter,
               ch_objective = objective, ch_starts_at = starts_at, ch_ends_at = ends_at,
               ch_grace_period_days = grace, ch_is_active = False \<rparr>],
            community_challenge_progress := (community_challenge_progress s)(cid \<mapsto> 0) \<rparr>))
     (ret cid))))"

definition challenge_exists :: "uuid \<Rightarrow> db \<Rightarrow> bool" where
  "challenge_exists cid s \<longleftrightarrow> list_ex (\<lambda>c. ch_id c = cid) (community_challenges s)"

definition create_challenge_milestone ::
  "uuid \<Rightarrow> int \<Rightarrow> string \<Rightarrow> reward_value \<Rightarrow> string option \<Rightarrow> int \<Rightarrow> uuid db_op" where
  "create_challenge_milestone cid threshold reward_type reward label sort_order =
     bnd (reads (challenge_exists cid)) (\<lambda>found.
       if \<not> found then throw ChallengeNotFound
       else bnd fresh_uuid (\<lambda>mid. seq (int4 threshold) (seq (int4 sort_order)
         (seq (constr (reward_type \<in> {''cab'', ''xp'', ''skin'', ''multiplier''})
                 ''community_challenge_milestones_reward_type_check'')
         (seq (modify (\<lambda>s. s\<lparr> community_challenge_milestones := community_challenge_milestones s @
                [\<lparr> cm_id = mid, cm_challenge_id = cid, cm_threshold = threshold,
                   cm_reward_type = reward_type, cm_reward_value = reward, cm_label = label,
                   cm_sort_order = sort_order \<rparr>] \<rparr>))
         (ret mid))))))"

definition set_active :: "uuid \<Rightarrow> bool \<Rightarrow> challenge_row list \<Rightarrow> challenge_row list" where
  "set_active cid b = update_where (\<lambda>c. ch_id c = cid) (\<lambda>c. c\<lparr> ch_is_active := b \<rparr>)"

definition activate_challenge :: "uuid \<Rightarrow> unit db_op" where
  "activate_challenge cid = bnd (reads (challenge_exists cid)) (\<lambda>found.
     if \<not> found then throw ChallengeNotFound
     else catch
       (bnd (reads (\<lambda>s. set_active cid True (community_challenges s))) (\<lambda>rows.
         seq (constr (count_where ch_is_active rows \<le> 1) ''community_challenges_one_active'')
         (modify (\<lambda>s. s\<lparr> community_challenges := rows \<rparr>))))
       (\<lambda>e. if is_integrity_error e then throw ActiveChallengeConflict else throw e))"

definition deactivate_challenge :: "uuid \<Rightarrow> unit db_op" where
  "deactivate_challenge cid = bnd (reads (challenge_exists cid)) (\<lambda>found.
     seq (modify (\<lambda>s. s\<lparr> community_challenges := set_active cid False (community_challenges s) \<rparr>))
     (if \<not> found then throw ChallengeNotFound else ret ()))"

record challenge_listing =
  cl_id :: uuid
  cl_row :: challenge_row
  cl_status :: string
  cl_current_count :: int
  cl_milestone_count :: nat

definition challenge_status :: "clock \<Rightarrow> challenge_row \<Rightarrow> string" where
  "challenge_status ck c =
     (if \<not> ch_is_active c then ''inactive''
      else if now ck < ch_ends_at c then ''active''
      else if now ck < grace_until c then ''frozen''
      else ''expired'')"

definition list_challenges_with_state :: "clock \<Rightarrow> db \<Rightarrow> challenge_listing list" where
  "list_challenges_with_state ck s = map (\<lambda>c.
       \<lparr> cl_id = ch_id c, cl_row = c, cl_status = challenge_status ck c,
         cl_current_count = current_count s (ch_id c),
         cl_milestone_count = count_where (\<lambda>m. cm_challenge_id m = ch_id c)
                                (community_challenge_milestones s) \<rparr>)
     (sort_key (\<lambda>c. - ch_starts_at c) (community_challenges s))"

definition get_challenge_by_id :: "uuid \<Rightarrow> db \<Rightarrow> (challenge_row \<times> int) option" where
  "get_challenge_by_id cid s = map_option (\<lambda>c. (c, current_count s (ch_id c)))
     (List.find (\<lambda>c. ch_id c = cid) (community_challenges s))"


section \<open>Requests\<close>

text \<open>The state-changing requests of the module, each in a transaction of its own.\<close>

datatype challenge_cmd =
    Increment clock uuid string "json option"
  | Claim clock uuid uuid
  | GrantMultiplier clock uuid uuid decimal string int
  | CreateChallenge string "string option" string "json option" int stamp stamp int
  | CreateMilestone uuid int string reward_value "string option" int
  | Activate uuid
  | Deactivate uuid

fun challenge_body :: "challenge_cmd \<Rightarrow> unit db_op" where
  "challenge_body (Increment ck u a cx) = maybe_increment_challenge ck u a cx"
| "challenge_body (Claim ck u mid) = bnd (challenge_claim_milestone ck u mid) (\<lambda>_. ret ())"
| "challenge_body (GrantMultiplier ck cid u m a h) = create_community_multiplier ck cid u m a h"
| "challenge_body (CreateChallenge t d a f ob st en g) = bnd (create_challenge t d a f ob st en g) (\<lambda>_. ret ())"
| "challenge_body (CreateMilestone cid th rt rv l so) =
     bnd (create_challenge_milestone cid th rt rv l so) (\<lambda>_. ret ())"
| "challenge_body (Activate cid) = activate_challenge cid"
| "challenge_body (Deactivate cid) = deactivate_challenge cid"

definition challenge_step :: "challenge_cmd \<Rightarrow> unit db_op" where
  "challenge_step c = db_transaction (challenge_body c)"

text \<open>
  At most one challenge is active, counters are non-negative, a user has one claim per milestone
  and one multiplier per challenge, and rows have the values their constraints allow.
\<close>

definition challenge_ok :: "db \<Rightarrow> bool" where
  "challenge_ok s \<longleftrightarrow>
     count_where ch_is_active (community_challenges s) \<le> 1
     \<and> (\<forall>cid n. community_challenge_progress s cid = Some n \<longrightarrow> 0 \<le> n)
     \<and> distinct (map (\<lambda>c. (cc_milestone_id c, cc_user_id c)) (community_challenge_claims s))
     \<and> distinct (map (\<lambda>m. (mu_challenge_id m, mu_user_id m)) (community_multipliers s))
     \<and> (\<forall>m \<in> set (community_multipliers s). mu_applies_to m \<in> set applies_to_values)"

lemma challenge_ok_frame [simp]:
  "challenge_ok (s\<lparr> next_uuid := x0 \<rparr>) = challenge_ok s"
  "challenge_ok (s\<lparr> users := x1 \<rparr>) = challenge_ok s"
  "challenge_ok (s\<lparr> user_cab_balance := x2 \<rparr>) = challenge_ok s"
  "challenge_ok (s\<lparr> user_cashback_balance := x3 \<rparr>) = challenge_ok s"
  "challenge_ok (s\<lparr> cabecoin_transactions := x4 \<rparr>) = challenge_ok s"
  "challenge_ok (s\<lparr> user_streaks := x5 \<rparr>) = challenge_ok s"
  "challenge_ok (s\<lparr> user_xp_balance := x6 \<rparr>) = challenge_ok s"
  "challenge_ok (s\<lparr> xp_transactions := x7 \<rparr>) = challenge_ok s"
  "challenge_ok (s\<lparr> battlepass_seasons := x8 \<rparr>) = challenge_ok s"
  "challenge_ok (s\<lparr> battlepass_milestones := x9 \<rparr>) = challenge_ok s"
  "challenge_ok (s\<lparr> user_battlepass_progress := x10 \<rparr>) = challenge_ok s"
  "challenge_ok (s\<lparr> user_battlepass_claims := x11 \<rparr>) = challenge_ok s"
  "challenge_ok (s\<lparr> community_challenge_milestones := x13 \<rparr>) = challenge_ok s"
  "challenge_ok (s\<lparr> notification_outbox := x17 \<rparr>) = challenge_ok s"
  "challenge_ok (s\<lparr> affiliate_offers := x18 \<rparr>) = challenge_ok s"
  "challenge_ok (s\<lparr> cashback_transactions := x19 \<rparr>) = challenge_ok s"
  "challenge_ok (s\<lparr> cashback_withdrawals := x20 \<rparr>) = challenge_ok s"
  "challenge_ok (s\<lparr> subscriptions := x21 \<rparr>) = challenge_ok s"
  "challenge_ok (s\<lparr> receipts := x22 \<rparr>) = challenge_ok s"
  "challenge_ok (s\<lparr> scans := x23 \<rparr>) = challenge_ok s"
  "challenge_ok (s\<lparr> products := x24 \<rparr>) = challenge_ok s"
  "challenge_ok (s\<lparr> gift_card_brands := x25 \<rparr>) = challenge_ok s"
  "challenge_ok (s\<lparr> gift_card_orders := x26 \<rparr>) = challenge_ok s"
  "challenge_ok (s\<lparr> achievements := x27 \<rparr>) = challenge_ok s"
  "challenge_ok (s\<lparr> user_achievements := x28 \<rparr>) = challenge_ok s"
  "challenge_ok (s\<lparr> referral_codes := x29 \<rparr>) = challenge_ok s"
  "challenge_ok (s\<lparr> referral_uses := x30 \<rparr>) = challenge_ok s"
  "challenge_ok (s\<lparr> play := x31 \<rparr>) = challenge_ok s"
  by (simp_all add: challenge_ok_def)

lemma keeps_enqueue_notification:
  assumes "\<And>s x. I s \<Longrightarrow> I (s\<lparr> next_uuid := Suc (next_uuid s) \<rparr>)"
    and "\<And>s x. I s \<Longrightarrow> I (s\<lparr> notification_outbox := x \<rparr>)"
  shows "keeps I (enqueue_notification ck u ty d)"
  unfolding enqueue_notification_def
  by (intro keeps_intro keeps_modify keeps_fresh_uuid assms)

lemma keeps_bump_progress:
  assumes "\<And>s n. I s \<Longrightarrow> community_challenge_progress s cid = Some n \<Longrightarrow> 0 \<le> n + 1 \<Longrightarrow>
      I (s\<lparr> community_challenge_progress := (community_challenge_progress s)(cid \<mapsto> n + 1) \<rparr>)"
  shows "keeps I (bump_progress cid acc)"
  by (rule keepsI) (auto simp: bump_progress_def assms split: option.splits if_splits)

lemma keeps_maybe_increment:
  assumes "\<And>s x. I s \<Longrightarrow> I (s\<lparr> next_uuid := Suc (next_uuid s) \<rparr>)"
    and "\<And>s x. I s \<Longrightarrow> I (s\<lparr> notification_outbox := x \<rparr>)"
    and "\<And>s cid n. I s \<Longrightarrow> community_challenge_progress s cid = Some n \<Longrightarrow> 0 \<le> n + 1 \<Longrightarrow>
      I (s\<lparr> community_challenge_progress := (community_challenge_progress s)(cid \<mapsto> n + 1) \<rparr>)"
  shows "keeps I (maybe_increment_challenge ck u a cx)"
  unfolding maybe_increment_challenge_def
  by (intro keeps_intro keeps_bump_progress keeps_enqueue_notification assms)

lemma count_where_append [simp]: "count_where p (xs @ ys) = count_where p xs + count_where p ys"
  by (simp add: count_where_def)

lemma count_where_set_inactive:
  "count_where ch_is_active (set_active cid False cs) \<le> count_where ch_is_active cs"
  by (induction cs) (auto simp: set_active_def count_where_def)

lemma insert_challenge_claim_Inr:
  "insert_challenge_claim c s = (Inr x, t) \<longleftrightarrow>
     \<not> milestone_claimed (cc_milestone_id c) (cc_user_id c) s
     \<and> t = s\<lparr> community_challenge_claims := community_challenge_claims s @ [c] \<rparr>"
  by (auto simp: insert_challenge_claim_def)

text \<open>When a claim returns, and with what.\<close>

lemma challenge_claim_Inr:
  "challenge_claim_milestone ck u mid s = (Inr res, t) \<longleftrightarrow>
     (\<exists>m c. milestone_of_active mid s = Some (m, c) \<and> now ck < grace_until c
        \<and> cm_threshold m \<le> current_count s (cm_challenge_id m) \<and> \<not> milestone_claimed mid u s
        \<and> res = \<lparr> cs_milestone_id = mid, cs_reward_type = cm_reward_type m,
                  cs_reward_value = cm_reward_value m, cs_challenge_id = cm_challenge_id m \<rparr>
        \<and> t = s\<lparr> community_challenge_claims := community_challenge_claims s @
               [\<lparr> cc_challenge_id = cm_challenge_id m, cc_milestone_id = mid, cc_user_id = u \<rparr>] \<rparr>)"
  by (auto simp: challenge_claim_milestone_def seq_Inr_iff catch_Inr_iff insert_challenge_claim_Inr
      split: option.splits if_splits)

lemma milestone_claimed_iff:
  "milestone_claimed mid u s \<longleftrightarrow>
     (mid, u) \<in> (\<lambda>c. (cc_milestone_id c, cc_user_id c)) ` set (community_challenge_claims s)"
  by (auto simp: milestone_claimed_def list_ex_iff)

lemma challenge_ok_claim:
  "challenge_ok s \<Longrightarrow> \<not> milestone_claimed (cc_milestone_id c) (cc_user_id c) s \<Longrightarrow>
   challenge_ok (s\<lparr> community_challenge_claims := community_challenge_claims s @ [c] \<rparr>)"
  by (simp add: challenge_ok_def milestone_claimed_iff)

definition has_multiplier :: "uuid \<Rightarrow> uuid \<Rightarrow> db \<Rightarrow> bool" where
  "has_multiplier cid u s \<longleftrightarrow>
     (cid, u) \<in> (\<lambda>m. (mu_challenge_id m, mu_user_id m)) ` set (community_multipliers s)"

lemma create_community_multiplier_Inr:
  "create_community_multiplier ck cid u mult a h s = (Inr x, t) \<longleftrightarrow>
     a \<in> set applies_to_values \<and> \<not> has_multiplier cid u s
     \<and> t = s\<lparr> community_multipliers := community_multipliers s @
          [\<lparr> mu_challenge_id = cid, mu_user_id = u, mu_multiplier = mult, mu_applies_to = a,
             mu_active_from = now ck, mu_active_until = now ck + h * hour_us \<rparr>] \<rparr>"
  by (auto simp: create_community_multiplier_def has_multiplier_def list_ex_iff)

lemma challenge_ok_multiplier:
  "challenge_ok s \<Longrightarrow> mu_applies_to m \<in> set applies_to_values \<Longrightarrow>
   \<not> has_multiplier (mu_challenge_id m) (mu_user_id m) s \<Longrightarrow>
   challenge_ok (s\<lparr> community_multipliers := community_multipliers s @ [m] \<rparr>)"
  by (simp add: challenge_ok_def has_multiplier_def)

lemma challenge_body_keeps: "preserves challenge_ok (challenge_body c)"
proof (cases c)
  case (Increment ck u a cx)
  have "keeps challenge_ok (maybe_increment_challenge ck u a cx)"
    by (rule keeps_maybe_increment) (auto simp: challenge_ok_def)
  then show ?thesis by (simp add: Increment keeps_preserves)
next
  case (Claim ck u mid)
  then show ?thesis
    by (auto intro!: preservesI challenge_ok_claim simp: bnd_Inr_iff challenge_claim_Inr)
next
  case (GrantMultiplier ck cid u m a h)
  then show ?thesis
    by (auto intro!: preservesI challenge_ok_multiplier simp: create_community_multiplier_Inr
       )
next
  case (CreateChallenge t d a f ob st en g)
  then show ?thesis
    by (auto intro!: preservesI simp: create_challenge_def challenge_ok_def count_where_def
        split: if_splits)
next
  case (CreateMilestone cid th rt rv l so)
  then show ?thesis
    by (auto intro!: preservesI simp: create_challenge_milestone_def split: if_splits)
next
  case (Activate cid)
  then show ?thesis
    by (auto intro!: preservesI simp: activate_challenge_def catch_Inr_iff challenge_ok_def
        split: if_splits)
next
  case (Deactivate cid)
  then show ?thesis
    by (auto intro!: preservesI simp: deactivate_challenge_def challenge_ok_def
        split: if_splits intro!: order_trans [OF count_where_set_inactive])
qed

interpretation challenge_inv: kept_invariant challenge_step challenge_ok
  by unfold_locales
    (simp add: challenge_step_def keeps_snd [OF preserves_transaction [OF challenge_body_keeps]])


section \<open>Properties\<close>

text \<open>
  Whatever requests reach the module, in any order, at most one challenge is active, no counter is
  negative, no user has two claims on a milestone or two multipliers of a challenge.
\<close>

theorem challenge_invariant:
  assumes "challenge_ok s" and "exec_all challenge_step cmds s = (rs, t)"
  shows "challenge_ok t"
  using assms by (rule challenge_inv.exec_all_keeps)

definition demo_challenge :: challenge_row where
  "demo_challenge = \<lparr> ch_id = 1, ch_title = ''scan'', ch_description = None,
     ch_action_type = ''label_scan'', ch_action_filter = None, ch_objective = 10, ch_starts_at = 0,
     ch_ends_at = 1000, ch_grace_period_days = 3, ch_is_active = True \<rparr>"

definition demo_milestone :: challenge_milestone where
  "demo_milestone = \<lparr> cm_id = 2, cm_challenge_id = 1, cm_threshold = 1, cm_reward_type = ''cab'',
     cm_reward_value = \<lparr> rv_amount = Some 5, rv_multiplier = None, rv_duration_hours = None,
       rv_applies_to = None \<rparr>, cm_label = Some ''one'', cm_sort_order = 0 \<rparr>"

definition challenge_db :: db where
  "challenge_db = empty_db\<lparr> community_challenges := [demo_challenge],
     community_challenge_milestones := [demo_milestone],
     community_challenge_progress := [1 \<mapsto> 0], next_uuid := 3 \<rparr>"

definition clock_at :: "stamp \<Rightarrow> clock" where
  "clock_at t = \<lparr> now = t, tzdb = (\<lambda>_. None), paris = id \<rparr>"

lemma challenge_db_ok: "challenge_ok challenge_db"
  by (simp add: challenge_ok_def challenge_db_def empty_db_def demo_challenge_def count_where_def)

theorem challenge_invariant_witness:
  "challenge_ok challenge_db
   \<and> challenge_ok (snd (exec_all challenge_step
       [Increment (clock_at 5) 9 ''label_scan'' None, Claim (clock_at 6) 9 2] challenge_db))"
  using challenge_db_ok challenge_invariant [OF challenge_db_ok]
  by (metis prod.collapse)

text \<open>A milestone is claimed by a user at most once.\<close>

fun claims_of :: "uuid \<Rightarrow> uuid \<Rightarrow> challenge_cmd \<Rightarrow> bool" where
  "claims_of u mid (Claim ck v m) = (v = u \<and> m = mid)"
| "claims_of u mid _ = False"

lemma claimed_stays: "keeps (milestone_claimed mid u) (challenge_step c)"
proof -
  have "preserves (milestone_claimed mid u) (challenge_body c)"
  proof (cases c)
    case (Increment ck v a cx)
    have "keeps (milestone_claimed mid u) (maybe_increment_challenge ck v a cx)"
      by (rule keeps_maybe_increment) (auto simp: milestone_claimed_def)
    then show ?thesis by (simp add: Increment keeps_preserves)
  qed (auto intro!: preservesI simp: milestone_claimed_def challenge_claim_Inr bnd_Inr_iff
      create_community_multiplier_Inr create_challenge_def create_challenge_milestone_def
      activate_challenge_def deactivate_challenge_def catch_Inr_iff split: if_splits)
  then show ?thesis unfolding challenge_step_def by (rule preserves_transaction)
qed

interpretation milestone_once: one_shot challenge_step "claims_of u mid" "milestone_claimed mid u"
  for u mid
proof unfold_locales
  fix s c assume "milestone_claimed mid u s"
  then show "milestone_claimed mid u (snd (challenge_step c s))"
    by (rule keeps_snd [OF claimed_stays])
next
  fix c s x t assume "claims_of u mid c" and run: "challenge_step c s = (Inr x, t)"
  then obtain ck where "c = Claim ck u mid" by (cases c) auto
  with run show "\<not> milestone_claimed mid u s \<and> milestone_claimed mid u t"
    by (auto simp: challenge_step_def db_transaction_Inr_iff bnd_Inr_iff challenge_claim_Inr)
      (simp add: milestone_claimed_def)
qed

text \<open>
  In any sequence of challenge requests, from any state, at most one claim of a given milestone by a
  given user succeeds; every other attempt raises.
\<close>

theorem milestone_claimed_at_most_once:
  assumes "exec_all challenge_step cmds s = (rs, t)"
  shows "successes (claims_of u mid) cmds rs \<le> 1"
  using assms by (rule milestone_once.at_most_once)

theorem milestone_claimed_at_most_once_witness:
  "let run = exec_all challenge_step [Increment (clock_at 5) 9 ''label_scan'' None,
       Claim (clock_at 6) 9 2, Claim (clock_at 7) 9 2] challenge_db
   in successes (claims_of 9 2) [Increment (clock_at 5) 9 ''label_scan'' None,
       Claim (clock_at 6) 9 2, Claim (clock_at 7) 9 2] (fst run) \<le> 1"
  unfolding Let_def by (rule milestone_claimed_at_most_once [OF prod.collapse [symmetric]])

text \<open>Increments; the outbox is compared by addressee, type and data.\<close>

definition outbox_view :: "db \<Rightarrow> (uuid \<times> string \<times> json) list" where
  "outbox_view s = map (\<lambda>r. (ob_user_id r, ob_type r, ob_data r)) (notification_outbox s)"

lemma for_each_enqueue:
  "\<exists>t. for_each (\<lambda>m _. enqueue_notification ck u ty (f m)) ms () s = (Inr (), t)
     \<and> outbox_view t =
        outbox_view s
          @ map (\<lambda>m. (u, ty, f m)) ms
     \<and> community_challenge_progress t = community_challenge_progress s
     \<and> community_challenge_claims t = community_challenge_claims s"
proof (induction ms arbitrary: s)
  case Nil
  then show ?case by simp
next
  case (Cons m ms)
  let ?s = "snd (enqueue_notification ck u ty (f m) s)"
  have one: "enqueue_notification ck u ty (f m) s = (Inr (), ?s)"
    by (simp add: enqueue_notification_def)
  have "for_each (\<lambda>m _. enqueue_notification ck u ty (f m)) (m # ms) () s =
      for_each (\<lambda>m _. enqueue_notification ck u ty (f m)) ms () ?s"
    unfolding for_each.simps by (rule bnd_run_Inr, rule one)
  moreover have "outbox_view ?s =
      outbox_view s @ [(u, ty, f m)]"
    "community_challenge_progress ?s = community_challenge_progress s"
    "community_challenge_claims ?s = community_challenge_claims s"
    by (simp_all add: enqueue_notification_def outbox_view_def)
  ultimately show ?case using Cons.IH [of ?s] by simp
qed

text \<open>
  A matching action on the active challenge returns, adds one to its counter and to nothing else,
  and sends the acting user one notification per milestone whose threshold is exactly the new
  count, in the same transaction; a milestone already passed is not announced again.
\<close>

theorem increment_notifies_crossed:
  assumes "filter (challenge_matches ck action cx) (community_challenges s) = [c]"
    and "community_challenge_progress s (ch_id c) = Some n" and "0 \<le> n" and "n < int4_max"
  shows "\<exists>t. maybe_increment_challenge ck u action cx s = (Inr (), t)
      \<and> community_challenge_progress t = (community_challenge_progress s)(ch_id c \<mapsto> n + 1)
      \<and> outbox_view t =
         outbox_view s @
         map (\<lambda>m. (u, ''challenge_milestone_unlocked'', JObj [(''label'', label_json (cm_label m))]))
           (filter (\<lambda>m. cm_challenge_id m = ch_id c \<and> cm_threshold m = n + 1)
              (community_challenge_milestones s))"
proof -
  let ?s = "s\<lparr> community_challenge_progress := (community_challenge_progress s)(ch_id c \<mapsto> n + 1) \<rparr>"
  have "maybe_increment_challenge ck u action cx s =
      for_each (\<lambda>m _. enqueue_notification ck u ''challenge_milestone_unlocked''
          (JObj [(''label'', label_json (cm_label m))]))
        (filter (\<lambda>m. cm_challenge_id m = ch_id c \<and> cm_threshold m = n + 1)
              (community_challenge_milestones s)) () ?s"
    using assms
    by (simp add: maybe_increment_challenge_def bump_progress_def fits_int4_def milestones_at_def)
  moreover have "outbox_view ?s = outbox_view s" by (simp add: outbox_view_def)
  ultimately show ?thesis
    using for_each_enqueue [of ck u "''challenge_milestone_unlocked''"
        "\<lambda>m. JObj [(''label'', label_json (cm_label m))]"
        "filter (\<lambda>m. cm_challenge_id m = ch_id c \<and> cm_threshold m = n + 1)
              (community_challenge_milestones s)" ?s] by auto
qed

theorem increment_notifies_crossed_witness:
  "\<exists>t. maybe_increment_challenge (clock_at 5) 9 ''label_scan'' None challenge_db = (Inr (), t)
      \<and> community_challenge_progress t 1 = Some 1 \<and> length (notification_outbox t) = 1"
proof -
  obtain t where run: "maybe_increment_challenge (clock_at 5) 9 ''label_scan'' None challenge_db = (Inr (), t)"
    and p: "community_challenge_progress t = (community_challenge_progress challenge_db)(1 \<mapsto> 0 + 1)"
    and n: "outbox_view t = outbox_view challenge_db @
         map (\<lambda>m. (9, ''challenge_milestone_unlocked'', JObj [(''label'', label_json (cm_label m))]))
           (filter (\<lambda>m. cm_challenge_id m = 1 \<and> cm_threshold m = 0 + 1)
              (community_challenge_milestones challenge_db))"
    using increment_notifies_crossed [of "clock_at 5" "''label_scan''" None challenge_db demo_challenge 0 9]
    by (auto simp: challenge_db_def demo_challenge_def challenge_matches_def clock_at_def)
  from arg_cong [OF n, of length] have "length (notification_outbox t) = 1"
    by (simp add: challenge_db_def demo_milestone_def empty_db_def outbox_view_def)
  with run p show ?thesis by simp
qed

end
