(* ===== verification/Ratis_Bonus.thy ===== *)
theory Ratis_Bonus
  imports Ratis_Streak Ratis_Challenge
begin

text \<open>
  The bonus both award functions apply before they write anything: the streak multiplier of
  \<open>streak_repository\<close> plus the community multiplier of \<open>challenge_repository\<close>, on IEEE doubles.
  The lemmas bound the boosted amount by the amount asked for.
\<close>

definition boosted_amount :: "clock \<Rightarrow> uuid \<Rightarrow> string \<Rightarrow> int \<Rightarrow> bool \<Rightarrow> dbl option \<Rightarrow> db \<Rightarrow> int" where
  "boosted_amount ck u scope amount apply_streak_multiplier community_multiplier s =
     (if apply_streak_multiplier then
        let community = (case community_multiplier of
                           None \<Rightarrow> get_active_community_multiplier ck u scope s
                         | Some m \<Rightarrow> m);
            total = dadd (get_streak_multiplier ck u s) community
        in if dless (Dbl 0 0) total then max 1 (scaled amount total) else amount
      else amount)"

lemma boosted_plain [simp]: "boosted_amount ck u scope n False cm s = n"
  by (simp add: boosted_amount_def)

lemma dadd_zero_bounds:
  assumes "0 \<le> dval x" and "dval x \<le> 1"
  shows "0 \<le> dval (dadd x (Dbl 0 0)) \<and> dval (dadd x (Dbl 0 0)) \<le> 1"
  using dadd_ge [of 0 x "Dbl 0 0"] dadd_le [of x "Dbl 0 0" 1] assms by simp

text \<open>Without a community multiplier the bonus is at most 100 per cent.\<close>

lemma boosted_amount_streak_bounds:
  assumes "streaks_ok s" and "0 < n" and "2 * n \<le> 2 ^ 53"
    and "cm = Some (Dbl 0 0) \<or> cm = None \<and> get_active_community_multiplier ck u scope s = Dbl 0 0"
  shows "n \<le> boosted_amount ck u scope n ap cm s \<and> boosted_amount ck u scope n ap cm s \<le> 2 * n"
proof (cases ap)
  case True
  define tot where "tot = dadd (get_streak_multiplier ck u s) (Dbl 0 0)"
  have b: "0 \<le> dval tot" "dval tot \<le> of_int 1"
    using dadd_zero_bounds get_streak_multiplier_bounds [OF assms(1)] by (auto simp: tot_def)
  have "n \<le> scaled n tot" using b assms(2,3) by (intro scaled_ge) auto
  moreover have "scaled n tot \<le> n * (1 + 1)" using b assms(2,3) by (intro scaled_le) auto
  moreover have "boosted_amount ck u scope n ap cm s =
      (if dless (Dbl 0 0) tot then max 1 (scaled n tot) else n)"
    using assms(4) True by (auto simp: boosted_amount_def tot_def)
  ultimately show ?thesis using assms(2) by auto
next
  case False
  then show ?thesis using assms(2) by (simp add: boosted_amount_def)
qed

text \<open>With any non-negative community multiplier an award is never lowered.\<close>

lemma boosted_amount_ge:
  assumes "streaks_ok s" and "0 < n" and "n \<le> 2 ^ 53"
    and "case cm of Some m \<Rightarrow> 0 \<le> dval m | None \<Rightarrow> 0 \<le> dval (get_active_community_multiplier ck u scope s)"
  shows "n \<le> boosted_amount ck u scope n ap cm s"
proof -
  define c where "c = (case cm of None \<Rightarrow> get_active_community_multiplier ck u scope s | Some m \<Rightarrow> m)"
  have "0 \<le> dval c" using assms(4) by (auto simp: c_def split: option.splits)
  then have "0 \<le> dval (dadd (get_streak_multiplier ck u s) c)"
    using get_streak_multiplier_bounds [OF assms(1), of ck u]
      dadd_ge [of 0 "get_streak_multiplier ck u s" c] by simp
  then have "n \<le> scaled n (dadd (get_streak_multiplier ck u s) c)"
    using assms(2,3) by (intro scaled_ge) auto
  then show ?thesis by (simp add: boosted_amount_def c_def Let_def le_max_iff_disj)
qed

lemma boosted_amount_pos:
  assumes "0 < n" shows "0 < boosted_amount ck u scope n ap cm s"
  using assms by (simp add: boosted_amount_def Let_def less_max_iff_disj)

end
