(* ===== verification/Ratis_Cab.thy ===== *)
theory Ratis_Cab
  imports Ratis_Bonus
begin

text \<open>
  Cabecoins (\<open>repositories/cab_repository.py\<close>, \<open>services/cab_service.py\<close>, the admin routes of
  \<open>routes/admin/cab.py\<close>): the award with its bonus, ledger row and battle pass progress, the
  debit, the manual adjustment, and the read side. The lemmas give what each operation does on
  every branch; the account contract of the prelude is interpreted on the plain credit and the debit.
\<close>

section \<open>Guards\<close>

definition VALID_REASONS :: "string list" where
  "VALID_REASONS = [''receipt_scan'', ''label_scan'', ''barcode_scan'', ''product_identification'',
     ''fill_product_field'', ''scan_distinct'', ''promo_found'', ''mission_reward'',
     ''battlepass_milestone'', ''referral'', ''cashback_boost_debit'', ''cashback_boost_refund'',
     ''shop_purchase'', ''stonks_boost'', ''mission_freeze'', ''food_reserve_purchase'',
     ''streak_repair'', ''challenge_milestone'', ''mystery_product'', ''admin_adjustment'',
     ''retro_scan'', ''gift_card_purchase'', ''gift_card_refund'', ''achievement_unlock'']"

definition VALID_REFERENCE_TYPES :: "string list" where
  "VALID_REFERENCE_TYPES = [''scan'', ''mission'', ''battlepass_milestone'', ''referral'',
     ''user_mission'', ''community_challenge_milestone'', ''admin'', ''retro_scan'', ''achievement'']"

definition validate_reference_type :: "string option \<Rightarrow> unit db_op" where
  "validate_reference_type rt =
     (case rt of None \<Rightarrow> ret ()
      | Some t \<Rightarrow> if t \<notin> set VALID_REFERENCE_TYPES then throw ValueError else ret ())"

definition get_balance :: "db \<Rightarrow> uuid \<Rightarrow> int" where
  "get_balance s u = (case user_cab_balance s u of Some b \<Rightarrow> b | None \<Rightarrow> 0)"


section \<open>Awards and debits\<close>

definition active_season_id :: "db \<Rightarrow> uuid option" where
  "active_season_id s = map_option se_id (List.find se_is_active (battlepass_seasons s))"

definition upsert_bp_progress :: "uuid \<Rightarrow> uuid \<Rightarrow> int \<Rightarrow> unit db_op" where
  "upsert_bp_progress u sid n = bnd (reads (\<lambda>s. user_battlepass_progress s (u, sid))) (\<lambda>row.
     let v = (case row of None \<Rightarrow> n | Some e \<Rightarrow> e + n) in
     seq (int4 v) (modify (\<lambda>s. s\<lparr> user_battlepass_progress :=
        (user_battlepass_progress s)((u, sid) \<mapsto> v) \<rparr>)))"

text \<open>The writes of an award: balance, ledger row, season progress.\<close>

definition write_award ::
  "clock \<Rightarrow> uuid \<Rightarrow> string \<Rightarrow> uuid option \<Rightarrow> string option \<Rightarrow> bool \<Rightarrow> uuid option \<Rightarrow> int \<Rightarrow> unit db_op" where
  "write_award ck u reason reference_id reference_type apply_to_bp_progress season n =
     bnd (update_cab_plus u n) (\<lambda>_.
     bnd fresh_uuid (\<lambda>i.
     seq (insert_cab_tx
            \<lparr> ct_id = i, ct_user_id = u, ct_direction = ''credit'', ct_amount = n,
              ct_reason = reason, ct_reference_id = reference_id,
              ct_reference_type = reference_type, ct_context = None, ct_created_at = now ck \<rparr>)
     (if apply_to_bp_progress then
        bnd (case season of Some sid \<Rightarrow> ret (Some sid) | None \<Rightarrow> reads active_season_id) (\<lambda>sid.
          case sid of None \<Rightarrow> ret () | Some x \<Rightarrow> upsert_bp_progress u x n)
      else ret ())))"

definition award_cab ::
  "clock \<Rightarrow> uuid \<Rightarrow> int \<Rightarrow> string \<Rightarrow> uuid option \<Rightarrow> string option \<Rightarrow> bool \<Rightarrow> dbl option \<Rightarrow> bool
    \<Rightarrow> uuid option \<Rightarrow> unit db_op" where
  "award_cab ck u amount reason reference_id reference_type apply_streak_multiplier
     community_multiplier apply_to_bp_progress season =
     (if amount \<le> 0 then throw ValueError
      else if reason \<notin> set VALID_REASONS then throw ValueError
      else seq (validate_reference_type reference_type)
       (bnd (reads (boosted_amount ck u ''cab'' amount apply_streak_multiplier community_multiplier))
         (write_award ck u reason reference_id reference_type apply_to_bp_progress season)))"

definition debit_cab ::
  "clock \<Rightarrow> uuid \<Rightarrow> int \<Rightarrow> string \<Rightarrow> uuid option \<Rightarrow> string option \<Rightarrow> uuid option \<Rightarrow> uuid db_op" where
  "debit_cab ck u amount reason reference_id reference_type tx_id =
     (if amount \<le> 0 then throw ValueError
      else if reason \<notin> set VALID_REASONS then throw ValueError
      else seq (validate_reference_type reference_type)
       (bnd (update_cab_minus u amount) (\<lambda>rows.
         if rows = 0 then throw InsufficientBalance
         else bnd (case tx_id of Some i \<Rightarrow> ret i | None \<Rightarrow> fresh_uuid) (\<lambda>i.
           seq (insert_cab_tx
             \<lparr> ct_id = i, ct_user_id = u, ct_direction = ''debit'', ct_amount = amount,
               ct_reason = reason, ct_reference_id = reference_id,
               ct_reference_type = reference_type, ct_context = None, ct_created_at = now ck \<rparr>)
           (ret i)))))"

definition admin_adjust_cab ::
  "clock \<Rightarrow> uuid \<Rightarrow> string \<Rightarrow> int \<Rightarrow> string \<Rightarrow> string \<Rightarrow> uuid db_op" where
  "admin_adjust_cab ck u direction amount operator operator_reason =
     (if direction \<notin> {''credit'', ''debit''} then throw ValueError
      else if amount \<le> 0 then throw ValueError
      else seq
        (if direction = ''credit'' then
           bnd (update_cab_plus u amount) (\<lambda>rows. if rows = 0 then throw LookupError else ret ())
         else
           bnd (update_cab_minus u amount) (\<lambda>rows.
             if rows = 0 then bnd (reads (\<lambda>s. user_cab_balance s u)) (\<lambda>found.
               if found = None then throw LookupError else throw InsufficientBalance)
             else ret ()))
        (bnd fresh_uuid (\<lambda>tx_id. bnd fresh_uuid (\<lambda>ref_id.
          seq (insert_cab_tx
            \<lparr> ct_id = tx_id, ct_user_id = u, ct_direction = direction, ct_amount = amount,
              ct_reason = ''admin_adjustment'', ct_reference_id = Some ref_id,
              ct_reference_type = Some ''admin'', ct_context = Some (operator, operator_reason),
              ct_created_at = now ck \<rparr>)
          (ret tx_id)))))"


section \<open>The read side\<close>

definition get_active_season :: "db \<Rightarrow> season_row option" where
  "get_active_season s = List.find se_is_active (battlepass_seasons s)"

definition get_cab_earned_season :: "db \<Rightarrow> uuid \<Rightarrow> uuid \<Rightarrow> int" where
  "get_cab_earned_season s u sid =
     (case user_battlepass_progress s (u, sid) of Some e \<Rightarrow> e | None \<Rightarrow> 0)"

definition bp_claimed :: "db \<Rightarrow> uuid \<Rightarrow> uuid \<Rightarrow> bool" where
  "bp_claimed s u mid \<longleftrightarrow>
     list_ex (\<lambda>c. bc_milestone_id c = mid \<and> bc_user_id c = u) (user_battlepass_claims s)"

definition open_milestones :: "db \<Rightarrow> uuid \<Rightarrow> uuid \<Rightarrow> int \<Rightarrow> milestone_row list" where
  "open_milestones s u sid earned = filter (\<lambda>m. mi_season_id m = sid \<and> earned < mi_cab_required m
     \<and> \<not> bp_claimed s u (mi_id m)) (battlepass_milestones s)"

definition get_next_milestone_delta :: "db \<Rightarrow> uuid \<Rightarrow> uuid \<Rightarrow> int \<Rightarrow> int" where
  "get_next_milestone_delta s u sid earned =
     (case sort_key mi_cab_required (open_milestones s u sid earned) of
        [] \<Rightarrow> 0
      | m # _ \<Rightarrow> mi_cab_required m - earned)"

record bp_summary =
  bs_season_number :: int
  bs_season_name :: string
  bs_ends_at :: stamp
  bs_cab_earned_season :: int
  bs_next_milestone_delta :: int

definition get_balance_with_battlepass :: "db \<Rightarrow> uuid \<Rightarrow> int \<times> bp_summary option" where
  "get_balance_with_battlepass s u = (get_balance s u,
     (case get_active_season s of
        None \<Rightarrow> None
      | Some season \<Rightarrow>
          let earned = get_cab_earned_season s u (se_id season) in
          Some \<lparr> bs_season_number = se_number season, bs_season_name = se_name season,
            bs_ends_at = se_ends_at season, bs_cab_earned_season = earned,
            bs_next_milestone_delta = get_next_milestone_delta s u (se_id season) earned \<rparr>))"


section \<open>Admin routes\<close>

text \<open>The body constraints: a direction, a positive amount, a reason of 3 to 200 characters.\<close>

definition admin_cab_adjustment ::
  "clock \<Rightarrow> uuid \<Rightarrow> string \<Rightarrow> int \<Rightarrow> string \<Rightarrow> string \<Rightarrow> uuid db_op" where
  "admin_cab_adjustment ck u direction amount_cents reason operator =
     (if direction \<notin> {''credit'', ''debit''} \<or> amount_cents \<le> 0
         \<or> length reason < 3 \<or> 200 < length reason
      then throw (HTTPException 422 ''validation_error'')
      else catch (db_transaction (admin_adjust_cab ck u direction amount_cents operator reason))
        (\<lambda>e. if e = LookupError then throw (HTTPException 404 ''user_not_found'')
             else if e = InsufficientBalance then throw (HTTPException 409 ''insufficient_balance'')
             else throw e))"

definition admin_cab_user_transactions ::
  "db \<Rightarrow> uuid \<Rightarrow> string option \<Rightarrow> string option \<Rightarrow> stamp option \<Rightarrow> nat \<Rightarrow> nat \<Rightarrow> cab_tx list \<times> nat" where
  "admin_cab_user_transactions s u direction reference_type since limit offset =
     (let rows = filter (\<lambda>r. ct_user_id r = u
            \<and> (case direction of None \<Rightarrow> True | Some d \<Rightarrow> ct_direction r = d)
            \<and> (case reference_type of None \<Rightarrow> True | Some t \<Rightarrow> ct_reference_type r = Some t)
            \<and> (case since of None \<Rightarrow> True | Some t \<Rightarrow> t \<le> ct_created_at r)) (cabecoin_transactions s)
      in (take limit (drop offset (sort_key (\<lambda>r. - ct_created_at r)
            (sort_key (\<lambda>r. - int (ct_id r)) rows))), length rows))"


section \<open>What the operations do\<close>

lemma VALID_REASONS_sync: "set VALID_REASONS = set CAB_REASONS"
  by (simp add: VALID_REASONS_def CAB_REASONS_def)

lemma VALID_REFERENCE_TYPES_sync: "set VALID_REFERENCE_TYPES = set cab_reference_types"
  by (simp add: VALID_REFERENCE_TYPES_def cab_reference_types_def)

lemma validate_reference_type_run:
  "validate_reference_type rt s =
     (if ref_type_allowed cab_reference_types rt then Inr () else Inl ValueError, s)"
  by (simp add: validate_reference_type_def VALID_REFERENCE_TYPES_sync split: option.split)

lemma seq_validate [simp]:
  "seq (validate_reference_type rt) m s =
     (if ref_type_allowed cab_reference_types rt then m s else (Inl ValueError, s))"
  by (simp add: seq_def bnd_def validate_reference_type_run)

definition credited :: "uuid \<Rightarrow> int \<Rightarrow> (uuid \<rightharpoonup> int) \<Rightarrow> (uuid \<rightharpoonup> int)" where
  "credited u n f = (case f u of None \<Rightarrow> f | Some b \<Rightarrow> f(u \<mapsto> b + n))"

definition award_row ::
  "clock \<Rightarrow> uuid \<Rightarrow> uuid \<Rightarrow> int \<Rightarrow> string \<Rightarrow> uuid option \<Rightarrow> string option \<Rightarrow> cab_tx" where
  "award_row ck i u n reason rid rt =
     \<lparr> ct_id = i, ct_user_id = u, ct_direction = ''credit'', ct_amount = n, ct_reason = reason,
       ct_reference_id = rid, ct_reference_type = rt, ct_context = None, ct_created_at = now ck \<rparr>"

definition bp_credited ::
  "bool \<Rightarrow> uuid option \<Rightarrow> uuid \<Rightarrow> int \<Rightarrow> db \<Rightarrow> (uuid \<times> uuid \<rightharpoonup> int)" where
  "bp_credited bp season u n s =
     (case if bp then (case season of Some x \<Rightarrow> Some x | None \<Rightarrow> active_season_id s) else None of
        None \<Rightarrow> user_battlepass_progress s
      | Some x \<Rightarrow> (user_battlepass_progress s)((u, x) \<mapsto> get_cab_earned_season s u x + n))"

lemma upsert_bp_progress_Inr:
  "upsert_bp_progress u sid n s = (Inr x, t) \<longleftrightarrow>
     fits_int4 (get_cab_earned_season s u sid + n)
     \<and> t = s\<lparr> user_battlepass_progress :=
          (user_battlepass_progress s)((u, sid) \<mapsto> get_cab_earned_season s u sid + n) \<rparr>"
  by (auto simp: upsert_bp_progress_def get_cab_earned_season_def Let_def split: option.splits)

lemma update_cab_plus_credited:
  assumes "update_cab_plus u n s = (Inr k, t)"
  shows "t = s\<lparr> user_cab_balance := credited u n (user_cab_balance s) \<rparr>
    \<and> (\<forall>b. user_cab_balance s u = Some b \<longrightarrow> fits_int4 (b + n) \<and> 0 \<le> b + n)"
  using assms by (auto simp: update_cab_plus_Inr credited_def)

text \<open>The state after an award that returns, and when one does.\<close>

definition award_state ::
  "clock \<Rightarrow> uuid \<Rightarrow> string \<Rightarrow> uuid option \<Rightarrow> string option \<Rightarrow> bool \<Rightarrow> uuid option \<Rightarrow> int \<Rightarrow> db \<Rightarrow> db" where
  "award_state ck u reason rid rt bp season n s =
     s\<lparr> next_uuid := Suc (next_uuid s), user_cab_balance := credited u n (user_cab_balance s),
        cabecoin_transactions := cabecoin_transactions s @ [award_row ck (next_uuid s) u n reason rid rt],
        user_battlepass_progress := bp_credited bp season u n s \<rparr>"

definition awardable ::
  "clock \<Rightarrow> uuid \<Rightarrow> string \<Rightarrow> uuid option \<Rightarrow> string option \<Rightarrow> bool \<Rightarrow> uuid option \<Rightarrow> int \<Rightarrow> db \<Rightarrow> bool" where
  "awardable ck u reason rid rt bp season n s \<longleftrightarrow>
     cab_insertable (award_row ck (next_uuid s) u n reason rid rt) s
     \<and> (\<forall>b. user_cab_balance s u = Some b \<longrightarrow> fits_int4 (b + n) \<and> 0 \<le> b + n)
     \<and> (\<forall>x. (if bp then (case season of Some y \<Rightarrow> Some y | None \<Rightarrow> active_season_id s) else None) = Some x
          \<longrightarrow> fits_int4 (get_cab_earned_season s u x + n))"

lemma update_cab_plus_iff:
  "update_cab_plus u n s = (Inr k, t) \<longleftrightarrow>
     (\<forall>b. user_cab_balance s u = Some b \<longrightarrow> fits_int4 (b + n) \<and> 0 \<le> b + n)
     \<and> k = (if user_cab_balance s u = None then 0 else 1)
     \<and> t = s\<lparr> user_cab_balance := credited u n (user_cab_balance s) \<rparr>"
  by (auto simp: update_cab_plus_Inr credited_def)

lemma write_award_Inr:
  "write_award ck u reason rid rt bp season n s = (Inr x, t) \<longleftrightarrow>
     awardable ck u reason rid rt bp season n s
     \<and> t = award_state ck u reason rid rt bp season n s"
  by (cases bp; cases season)
    (auto simp: write_award_def bnd_Inr_iff seq_Inr_iff update_cab_plus_iff insert_cab_tx_Inr upsert_bp_progress_Inr
      award_row_def awardable_def award_state_def bp_credited_def active_season_id_def
      get_cab_earned_season_def cab_insertable_def split: option.splits)

lemma award_cab_Inr:
  "award_cab ck u amount reason rid rt ap cm bp season s = (Inr x, t) \<longleftrightarrow>
     0 < amount \<and> awardable ck u reason rid rt bp season (boosted_amount ck u ''cab'' amount ap cm s) s
     \<and> t = award_state ck u reason rid rt bp season (boosted_amount ck u ''cab'' amount ap cm s) s"
  by (auto simp: award_cab_def VALID_REASONS_sync write_award_Inr awardable_def cab_insertable_def
      cab_row_ok_def award_row_def)

lemma debit_cab_Inr:
  "debit_cab ck u n reason rid rt txo s = (Inr i, t) \<longleftrightarrow>
     (\<exists>b nu. 0 < n \<and> user_cab_balance s u = Some b \<and> n \<le> b \<and> fits_int4 (b - n)
        \<and> (case txo of Some j \<Rightarrow> i = j \<and> nu = next_uuid s | None \<Rightarrow> i = next_uuid s \<and> nu = Suc (next_uuid s))
        \<and> cab_insertable ((award_row ck i u n reason rid rt)\<lparr> ct_direction := ''debit'' \<rparr>) s
        \<and> t = s\<lparr> next_uuid := nu, user_cab_balance := (user_cab_balance s)(u \<mapsto> b - n),
             cabecoin_transactions := cabecoin_transactions s @
               [(award_row ck i u n reason rid rt)\<lparr> ct_direction := ''debit'' \<rparr>] \<rparr>)"
  by (cases txo)
    (auto simp: debit_cab_def VALID_REASONS_sync bnd_Inr_iff seq_Inr_iff update_cab_minus_Inr
      insert_cab_tx_Inr award_row_def cab_insertable_def cab_row_ok_def split: if_splits)

lemma preserves_award_cab [preserves_intro]:
  "preserves cab_ok (award_cab ck u amount reason rid rt ap cm bp season)"
proof (rule preservesI)
  fix s x t assume ok: "cab_ok s" and run: "award_cab ck u amount reason rid rt ap cm bp season s = (Inr x, t)"
  then show "cab_ok t"
    by (auto simp: award_cab_Inr awardable_def award_state_def award_row_def credited_def signed_amount_def
        fits_int4_def intro!: cab_ok_step [OF ok] split: option.splits)
qed

lemma preserves_debit_cab [preserves_intro]: "preserves cab_ok (debit_cab ck u n reason rid rt txo)"
proof (rule preservesI)
  fix s i t assume ok: "cab_ok s" and run: "debit_cab ck u n reason rid rt txo s = (Inr i, t)"
  then show "cab_ok t"
    by (auto simp: debit_cab_Inr award_row_def signed_amount_def fits_int4_def
        intro!: cab_ok_step [OF ok])
qed

lemma admin_adjust_cab_Inr:
  assumes "admin_adjust_cab ck u dir n op rsn s = (Inr i, t)"
  shows "\<exists>b b'. user_cab_balance s u = Some b \<and> 0 < n \<and> i = next_uuid s
     \<and> (dir = ''credit'' \<and> b' = b + n \<or> dir = ''debit'' \<and> n \<le> b \<and> b' = b - n)
     \<and> fits_int4 b' \<and> 0 \<le> b'
     \<and> cab_insertable \<lparr> ct_id = i, ct_user_id = u, ct_direction = dir, ct_amount = n,
          ct_reason = ''admin_adjustment'', ct_reference_id = Some (Suc i), ct_reference_type = Some ''admin'',
          ct_context = Some (op, rsn), ct_created_at = now ck \<rparr> s
     \<and> t = s\<lparr> next_uuid := Suc (Suc i), user_cab_balance := (user_cab_balance s)(u \<mapsto> b'),
          cabecoin_transactions := cabecoin_transactions s @
            [\<lparr> ct_id = i, ct_user_id = u, ct_direction = dir, ct_amount = n,
               ct_reason = ''admin_adjustment'', ct_reference_id = Some (Suc i), ct_reference_type = Some ''admin'',
               ct_context = Some (op, rsn), ct_created_at = now ck \<rparr>] \<rparr>"
  using assms
  by (auto simp: admin_adjust_cab_def bnd_Inr_iff seq_Inr_iff update_cab_plus_Inr update_cab_minus_Inr
      insert_cab_tx_Inr cab_insertable_def split: if_splits)

lemma preserves_admin_adjust_cab [preserves_intro]:
  "preserves cab_ok (admin_adjust_cab ck u dir n op rsn)"
proof (rule preservesI)
  fix s i t assume ok: "cab_ok s" and run: "admin_adjust_cab ck u dir n op rsn s = (Inr i, t)"
  from admin_adjust_cab_Inr [OF run] show "cab_ok t"
    by (auto simp: signed_amount_def fits_int4_def intro!: cab_ok_step [OF ok])
qed


section \<open>Properties of awards\<close>

lemma awardable_plain:
  assumes "cab_ids_ok s" and "user_cab_balance s u = Some b" and "0 < n" and "0 \<le> b" and "b + n \<le> int4_max"
    and "reason \<in> set CAB_REASONS" and "(rid = None) = (rt = None)"
    and "ref_type_allowed cab_reference_types rt" and "rt \<noteq> Some ''scan''" and "rt \<noteq> Some ''retro_scan''"
    and "\<And>x. bp \<Longrightarrow> (case season of Some y \<Rightarrow> Some y | None \<Rightarrow> active_season_id s) = Some x \<Longrightarrow>
           fits_int4 (get_cab_earned_season s u x + n)"
  shows "awardable ck u reason rid rt bp season n s"
  using assms fresh_cab_id [OF assms(1)]
  by (auto simp: awardable_def cab_insertable_def cab_row_ok_def award_row_def fits_int4_def split: if_splits)

text \<open>
  An award to a user with a balance row returns whenever its arguments are valid and nothing
  overflows; the balance and the ledger grow by the same boosted amount, the season counter of the
  user (and nothing else of the battle pass) by that amount too if asked for.
\<close>

theorem award_cab_credits:
  assumes "cab_ok s" and "cab_ids_ok s" and "user_cab_balance s u = Some b" and "0 < amount"
    and "n = boosted_amount ck u ''cab'' amount ap cm s" and "b + n \<le> int4_max"
    and "reason \<in> set VALID_REASONS" and "(rid = None) = (rt = None)"
    and "ref_type_allowed VALID_REFERENCE_TYPES rt" and "rt \<noteq> Some ''scan''" and "rt \<noteq> Some ''retro_scan''"
    and "\<And>x. get_cab_earned_season s u x + n \<le> int4_max \<and> 0 \<le> get_cab_earned_season s u x"
  shows "\<exists>t. award_cab ck u amount reason rid rt ap cm bp season s = (Inr (), t)
     \<and> user_cab_balance t = (user_cab_balance s)(u \<mapsto> b + n)
     \<and> cab_ledger t = (cab_ledger s)(u := cab_ledger s u + n)
     \<and> user_battlepass_progress t = bp_credited bp season u n s \<and> cab_ok t"
proof -
  have pos: "0 < n" using boosted_amount_pos [OF assms(4)] assms(5) by simp
  have fits: "fits_int4 (get_cab_earned_season s u x + n)" for x
    using assms(12) [of x] pos by (auto simp: fits_int4_def)
  have allowed: "ref_type_allowed cab_reference_types rt"
    using assms(9) by (cases rt) (simp_all add: VALID_REFERENCE_TYPES_sync)
  have "awardable ck u reason rid rt bp season n s"
    using assms allowed pos fits cab_ok_balance [OF assms(1,3)]
    by (intro awardable_plain [where b = b]) (auto simp: VALID_REASONS_sync)
  then have run: "award_cab ck u amount reason rid rt ap cm bp season s =
      (Inr (), award_state ck u reason rid rt bp season n s)"
    using assms(4,5) by (simp add: award_cab_Inr)
  have "cab_ledger (award_state ck u reason rid rt bp season n s) =
      (cab_ledger s)(u := cab_ledger s u + n)"
    by (auto simp: award_state_def cab_ledger_def award_row_def signed_amount_def)
  with run preservesD [OF preserves_award_cab assms(1) run] assms(3) show ?thesis
    by (simp add: award_state_def credited_def)
qed

definition cab_demo :: "int \<Rightarrow> db" where
  "cab_demo b = empty_db\<lparr> user_cab_balance := [7 \<mapsto> b], next_uuid := 1,
     cabecoin_transactions := [\<lparr> ct_id = 0, ct_user_id = 7, ct_direction = ''credit'', ct_amount = b,
        ct_reason = ''referral'', ct_reference_id = None, ct_reference_type = None, ct_context = None,
        ct_created_at = 0 \<rparr>] \<rparr>"

lemma cab_demo_ok:
  assumes "0 < b" and "b \<le> int4_max"
  shows "cab_ok (cab_demo b)" "cab_ids_ok (cab_demo b)" "user_cab_balance (cab_demo b) 7 = Some b"
    "streaks_ok (cab_demo b)"
  using assms
  by (auto simp: cab_demo_def cab_ok_def cab_ids_ok_def cab_ledger_def signed_amount_def cab_row_ok_def
      CAB_REASONS_def empty_db_def streaks_ok_def)

theorem award_cab_credits_witness:
  "\<exists>t. award_cab demo_clock 7 20 ''label_scan'' None None True None True None (cab_demo 80) = (Inr (), t)
     \<and> user_cab_balance t 7 = Some 100"
proof -
  have n: "boosted_amount demo_clock 7 ''cab'' 20 True None (cab_demo 80) = 20"
    by (simp add: boosted_amount_def get_streak_multiplier_def get_active_community_multiplier_def
        cab_demo_def empty_db_def bitlen.simps)
  show ?thesis
    using award_cab_credits [of "cab_demo 80" 7 80 20 20 demo_clock True None "''label_scan''" None None True None]
      cab_demo_ok [of 80] n
    by (auto simp: VALID_REASONS_def get_cab_earned_season_def cab_demo_def empty_db_def)
qed

text \<open>
  Without a community multiplier an award credits at least the amount asked for and at most twice it,
  computed on doubles: the streak bonus is between 0 and 100 per cent whatever the length of the streak.
\<close>

theorem award_cab_bounds:
  assumes "streaks_ok s" and "user_cab_balance s u = Some b" and "amount \<le> int4_max"
    and "award_cab ck u amount reason rid rt ap (Some (Dbl 0 0)) bp season s = (Inr x, t)"
  shows "\<exists>b'. user_cab_balance t u = Some b' \<and> b + amount \<le> b' \<and> b' \<le> b + 2 * amount"
proof -
  let ?n = "boosted_amount ck u ''cab'' amount ap (Some (Dbl 0 0)) s"
  from assms(4) have "0 < amount" and t: "t = award_state ck u reason rid rt bp season ?n s"
    by (simp_all add: award_cab_Inr)
  have "2 * amount \<le> 2 ^ 53" using assms(3) by (simp only: numeral_eq_Suc power_Suc) simp
  with boosted_amount_streak_bounds [OF assms(1) \<open>0 < amount\<close>, of "Some (Dbl 0 0)" ck u "''cab''" ap]
  have "amount \<le> ?n \<and> ?n \<le> 2 * amount" by simp
  then show ?thesis using assms(2) by (simp add: t award_state_def credited_def)
qed


definition streak_demo :: db where
  "streak_demo = (cab_demo 80)\<lparr> user_streaks := [7 \<mapsto> fed_row 3 0 20000 ''Europe/Paris''] \<rparr>"

lemma streak_demo_bonus:
  "boosted_amount demo_clock 7 ''cab'' 100 True (Some (Dbl 0 0)) streak_demo = 114"
proof -
  have "get_streak_multiplier demo_clock 7 streak_demo = streak_bonus 3"
    by (simp add: get_streak_multiplier_def streak_demo_def fed_row_def demo_clock_def today_in_tz_def)
  moreover have "streak_bonus 3 = Dbl 10808639105689192 56"
    by (simp add: streak_bonus_def dbl_of_int_def bitlen.simps rhe_def dmin_def Let_def)
  moreover have "scaled 100 (dadd (Dbl 10808639105689192 56) (Dbl 0 0)) = 114"
    by (simp add: scaled_def dbl_of_int_def bitlen.simps rhe_def Let_def)
  moreover have "dless (Dbl 0 0) (dadd (Dbl 10808639105689192 56) (Dbl 0 0))"
    by (simp add: bitlen.simps rhe_def Let_def)
  ultimately show ?thesis by (simp add: boosted_amount_def)
qed

theorem award_cab_bounds_witness:
  "\<exists>t b'. award_cab demo_clock 7 100 ''label_scan'' None None True (Some (Dbl 0 0)) False None streak_demo
        = (Inr (), t)
     \<and> user_cab_balance t 7 = Some b' \<and> 80 + 100 \<le> b' \<and> b' \<le> 80 + 2 * 100"
proof -
  have ok: "streaks_ok streak_demo" "user_cab_balance streak_demo 7 = Some 80" "cab_ids_ok streak_demo"
    using cab_demo_ok [of 80] by (simp_all add: streak_demo_def streaks_ok_def streak_row_ok_def fed_row_def)
  have "awardable demo_clock 7 ''label_scan'' None None False None 114 streak_demo"
    using ok by (intro awardable_plain [where b = 80]) (auto simp: CAB_REASONS_def)
  then have "award_cab demo_clock 7 100 ''label_scan'' None None True (Some (Dbl 0 0)) False None streak_demo
      = (Inr (), award_state demo_clock 7 ''label_scan'' None None False None 114 streak_demo)"
    by (simp add: award_cab_Inr streak_demo_bonus)
  from award_cab_bounds [OF ok(1,2) _ this] this show ?thesis by auto
qed

text \<open>
  The bonus is computed on binary floating point and truncated: a three day streak is a bonus of
  15 per cent, and an award of 100 CAB credits 114, one less than the 115 the rule promises.
\<close>

theorem award_cab_bonus_truncates:
  "snd (award_cab demo_clock 7 100 ''label_scan'' None None True (Some (Dbl 0 0)) False None streak_demo)
   = award_state demo_clock 7 ''label_scan'' None None False None 114 streak_demo"
proof -
  have "awardable demo_clock 7 ''label_scan'' None None False None 114 streak_demo"
    using cab_demo_ok [of 80]
    by (intro awardable_plain [where b = 80]) (auto simp: CAB_REASONS_def streak_demo_def)
  then have "award_cab demo_clock 7 100 ''label_scan'' None None True (Some (Dbl 0 0)) False None streak_demo
      = (Inr (), award_state demo_clock 7 ''label_scan'' None None False None 114 streak_demo)"
    by (simp add: award_cab_Inr streak_demo_bonus)
  then show ?thesis by simp
qed

text \<open>
  The Python allowlists and the CHECK constraints are the same sets: an award or debit that passes
  the guards of \<open>cab_repository\<close> never fails on the reason or the reference type in the database.
  A constraint violation can only be the missing half of a reference or a scan credited before.
\<close>

theorem award_cab_integrity_errors:
  assumes "cab_ids_ok s" and "cab_ok s"
    and "award_cab ck u amount reason rid rt ap cm bp season s = (Inl (IntegrityError name), t)"
  shows "name \<in> {''cabecoin_transactions_reference_consistency_check'',
                 ''uq_cabtx_scan_credit'', ''uq_cabtx_retro_scan_credit''}"
proof -
  let ?n = "boosted_amount ck u ''cab'' amount ap cm s"
  have "0 < amount" using assms(3) by (auto simp: award_cab_def split: if_splits)
  then have "0 < ?n" by (rule boosted_amount_pos)
  moreover have "0 \<le> b + ?n" if "user_cab_balance s u = Some b" for b
    using cab_ok_balance [OF assms(2) that] \<open>0 < ?n\<close> by simp
  moreover have "next_uuid s \<notin> ct_id ` set (cabecoin_transactions s)" by (rule fresh_cab_id [OF assms(1)])
  ultimately show ?thesis
    using assms(3)
    by (auto simp: award_cab_def write_award_def update_cab_plus_def insert_cab_tx_def upsert_bp_progress_def
        VALID_REASONS_sync Let_def split: if_splits option.splits)
qed

theorem award_cab_integrity_errors_witness:
  "award_cab demo_clock 7 20 ''label_scan'' (Some 5) None False None False None (cab_demo 80)
     = (Inl (IntegrityError ''cabecoin_transactions_reference_consistency_check''),
        snd (award_cab demo_clock 7 20 ''label_scan'' (Some 5) None False None False None (cab_demo 80)))
   \<and> ''cabecoin_transactions_reference_consistency_check''
      \<in> {''cabecoin_transactions_reference_consistency_check'',
         ''uq_cabtx_scan_credit'', ''uq_cabtx_retro_scan_credit''}"
proof -
  let ?run = "award_cab demo_clock 7 20 ''label_scan'' (Some 5) None False None False None (cab_demo 80)"
  have run: "?run = (Inl (IntegrityError ''cabecoin_transactions_reference_consistency_check''), snd ?run)"
    by (simp add: award_cab_def write_award_def update_cab_plus_def insert_cab_tx_def cab_demo_def
        VALID_REASONS_def CAB_REASONS_def fits_int4_def)
  show ?thesis using award_cab_integrity_errors [OF _ _ run] cab_demo_ok [of 80] run by blast
qed


section \<open>Requests on the ledger\<close>

datatype cab_cmd =
    Award clock uuid int string "uuid option" "string option" bool "dbl option" bool "uuid option"
  | Debit clock uuid int string "uuid option" "string option" "uuid option"
  | Adjust clock uuid string int string string

fun cab_body :: "cab_cmd \<Rightarrow> unit db_op" where
  "cab_body (Award ck u n r rid rt ap cm bp sid) = award_cab ck u n r rid rt ap cm bp sid"
| "cab_body (Debit ck u n r rid rt i) = bnd (debit_cab ck u n r rid rt i) (\<lambda>_. ret ())"
| "cab_body (Adjust ck u d n op r) = bnd (admin_adjust_cab ck u d n op r) (\<lambda>_. ret ())"

definition cab_step :: "cab_cmd \<Rightarrow> unit db_op" where
  "cab_step c = db_transaction (cab_body c)"

lemma keeps_cab_step: "keeps cab_ok (cab_step c)"
  unfolding cab_step_def by (cases c) (auto intro!: preserves_transaction preserves_intro)

interpretation cab_inv: kept_invariant cab_step cab_ok
  by unfold_locales (rule keeps_snd [OF keeps_cab_step])

text \<open>A scan is credited once.\<close>

fun awards_scan :: "uuid \<Rightarrow> cab_cmd \<Rightarrow> bool" where
  "awards_scan sid (Award ck u n r rid rt ap cm bp x) = (rid = Some sid \<and> rt = Some ''scan'')"
| "awards_scan sid _ = False"

definition scan_credited :: "uuid \<Rightarrow> db \<Rightarrow> bool" where
  "scan_credited sid s = credit_ref_taken ''scan'' (Some sid) (cabecoin_transactions s)"

lemma scan_credited_append:
  "scan_credited sid (s\<lparr> cabecoin_transactions := cabecoin_transactions s @ [r] \<rparr>) \<longleftrightarrow>
     scan_credited sid s \<or> (ct_direction r = ''credit'' \<and> ct_reference_type r = Some ''scan''
        \<and> ct_reference_id r = Some sid)"
  by (auto simp: scan_credited_def credit_ref_taken_def)

lemma cab_step_ledger:
  assumes "cab_step c s = (Inr x, t)"
  shows "\<exists>r. cabecoin_transactions t = cabecoin_transactions s @ [r] \<and> cab_insertable r s
     \<and> (awards_scan sid c \<longrightarrow> ct_direction r = ''credit'' \<and> ct_reference_type r = Some ''scan''
          \<and> ct_reference_id r = Some sid)"
  using assms unfolding cab_step_def db_transaction_Inr_iff
  by (cases c) (auto simp: award_cab_Inr awardable_def award_state_def debit_cab_Inr award_row_def bnd_Inr_iff
      dest!: admin_adjust_cab_Inr)

interpretation scan_once: one_shot cab_step "awards_scan sid" "scan_credited sid" for sid
proof unfold_locales
  fix s c assume fired: "scan_credited sid s"
  obtain r t where run: "cab_step c s = (r, t)" by force
  show "scan_credited sid (snd (cab_step c s))"
  proof (cases r)
    case (Inl e)
    with run have "t = s" by (simp add: cab_step_def db_transaction_Inl_iff)
    with run fired show ?thesis by simp
  next
    case (Inr x)
    with run cab_step_ledger [of c s x t sid] fired show ?thesis
      by (auto simp: scan_credited_def credit_ref_taken_def)
  qed
next
  fix c s x t assume "awards_scan sid c" and run: "cab_step c s = (Inr x, t)"
  with cab_step_ledger [OF run, of sid] show "\<not> scan_credited sid s \<and> scan_credited sid t"
    by (auto simp: scan_credited_def credit_ref_taken_def cab_insertable_def)
qed

text \<open>
  In any sequence of awards, debits and adjustments, from any state, at most one award carries the
  reference of a given scan: a replayed scan event cannot be paid twice.
\<close>

theorem scan_credited_at_most_once:
  assumes "exec_all cab_step cmds s = (rs, t)"
  shows "successes (awards_scan sid) cmds rs \<le> 1"
  using assms by (rule scan_once.at_most_once)

theorem scan_credited_at_most_once_witness:
  "let cmds = [Award demo_clock 7 20 ''label_scan'' (Some 5) (Some ''scan'') False None False None,
               Award demo_clock 7 20 ''label_scan'' (Some 5) (Some ''scan'') False None False None]
   in successes (awards_scan 5) cmds (fst (exec_all cab_step cmds (cab_demo 80))) \<le> 1"
  unfolding Let_def by (rule scan_credited_at_most_once [OF prod.collapse [symmetric]])

text \<open>
  However awards, debits and admin adjustments are interleaved, and whichever of them raise, every
  stored balance equals the sum of its user's ledger, is never negative and fits its column.
\<close>

theorem cab_ledger_invariant:
  assumes "cab_ok s" and "exec_all cab_step cmds s = (rs, t)" and "user_cab_balance t u = Some b"
  shows "b = cab_ledger t u \<and> 0 \<le> b \<and> b \<le> int4_max"
  using cab_ok_balance [OF cab_inv.exec_all_keeps [OF assms(1,2)] assms(3)] .

theorem cab_ledger_invariant_witness:
  "\<exists>rs t b. exec_all cab_step [Debit demo_clock 7 30 ''shop_purchase'' None None None,
        Debit demo_clock 7 60 ''shop_purchase'' None None None] (cab_demo 80) = (rs, t)
     \<and> user_cab_balance t 7 = Some b \<and> b = cab_ledger t 7 \<and> b = 50"
proof -
  let ?cmds = "[Debit demo_clock 7 30 ''shop_purchase'' None None None,
        Debit demo_clock 7 60 ''shop_purchase'' None None None]"
  obtain rs t where run: "exec_all cab_step ?cmds (cab_demo 80) = (rs, t)" by force
  then have b: "user_cab_balance t 7 = Some 50"
    by (auto simp: cab_step_def debit_cab_def update_cab_minus_def insert_cab_tx_def cab_demo_def
        VALID_REASONS_def CAB_REASONS_def fits_int4_def db_transaction_def)
  from cab_ledger_invariant [OF cab_demo_ok(1) run b] run b show ?thesis by auto
qed


section \<open>Properties of debits\<close>

text \<open>
  The outcome of a debit is decided by the balance alone: with enough CAB it returns the id of its
  ledger row and takes exactly the amount; otherwise, also for a user without a balance row, it
  raises \<open>InsufficientBalance\<close> and nothing is written.
\<close>

theorem debit_cab_outcome:
  assumes "cab_ok s" and "cab_ids_ok s" and "0 < n" and "reason \<in> set VALID_REASONS"
  shows "debit_cab ck u n reason None None None s =
    (case user_cab_balance s u of
       None \<Rightarrow> (Inl InsufficientBalance, s)
     | Some b \<Rightarrow> if b < n then (Inl InsufficientBalance, s)
         else (Inr (next_uuid s),
           s\<lparr> next_uuid := Suc (next_uuid s), user_cab_balance := (user_cab_balance s)(u \<mapsto> b - n),
              cabecoin_transactions := cabecoin_transactions s @
                [(award_row ck (next_uuid s) u n reason None None)\<lparr> ct_direction := ''debit'' \<rparr>] \<rparr>))"
proof (cases "user_cab_balance s u")
  case None
  then show ?thesis using assms(3,4) by (simp add: debit_cab_def update_cab_minus_def)
next
  case (Some b)
  have "fits_int4 (b - n)" "fits_int4 n" if "n \<le> b"
    using cab_ok_balance [OF assms(1) Some] assms(3) that by (auto simp: fits_int4_def)
  then show ?thesis
    using assms(3,4) Some fresh_cab_id [OF assms(2)]
    by (auto simp: debit_cab_def update_cab_minus_def insert_cab_tx_def award_row_def VALID_REASONS_sync)
qed

theorem debit_cab_outcome_witness:
  "fst (debit_cab demo_clock 7 81 ''shop_purchase'' None None None (cab_demo 80)) = Inl InsufficientBalance
   \<and> user_cab_balance (snd (debit_cab demo_clock 7 30 ''shop_purchase'' None None None (cab_demo 80))) 7
     = Some 50"
  using debit_cab_outcome [OF cab_demo_ok(1,2), of 80 81 "''shop_purchase''" demo_clock 7]
    debit_cab_outcome [OF cab_demo_ok(1,2), of 80 30 "''shop_purchase''" demo_clock 7]
    cab_demo_ok(3) [of 80]
  by (simp add: VALID_REASONS_def)

text \<open>The account contract, on the refund of a purchase and the debit of one.\<close>

definition cab_refund :: "clock \<Rightarrow> uuid \<Rightarrow> int \<Rightarrow> unit db_op" where
  "cab_refund ck u n = award_cab ck u n ''gift_card_refund'' None None False None False None"

definition cab_spend :: "clock \<Rightarrow> uuid \<Rightarrow> int \<Rightarrow> uuid db_op" where
  "cab_spend ck u n = debit_cab ck u n ''gift_card_purchase'' None None None"

interpretation cab_account: account user_cab_balance "cab_refund ck" "cab_spend ck" InsufficientBalance
  for ck
proof unfold_locales
  fix s :: db and u b n x t assume "user_cab_balance s u = Some b" and "cab_refund ck u n s = (Inr x, t)"
  then show "user_cab_balance t = (user_cab_balance s)(u \<mapsto> b + n)"
    by (auto simp: cab_refund_def award_cab_Inr award_state_def credited_def)
next
  fix s u n y t assume "cab_spend ck u n s = (Inr y, t)"
  then show "\<exists>b. user_cab_balance s u = Some b \<and> n \<le> b \<and> user_cab_balance t = (user_cab_balance s)(u \<mapsto> b - n)"
    by (auto simp: cab_spend_def debit_cab_Inr)
next
  fix s :: db and u b n assume "user_cab_balance s u = Some b" "b < n" "0 < (n :: int)"
  then show "cab_spend ck u n s = (Inl InsufficientBalance, s)"
    by (simp add: cab_spend_def debit_cab_def update_cab_minus_short bnd_run_Inr VALID_REASONS_def)
qed

text \<open>
  A purchase debited from the balance and refunded with the plain credit restores every balance, and
  two debits that both return were covered by the balance together.
\<close>

theorem cab_spend_refund_roundtrip:
  assumes "user_cab_balance s u = Some b" and "cab_spend ck u n s = (Inr i, t)"
  shows "(cab_refund ck' u n t = (Inr x, w) \<longrightarrow> user_cab_balance w = user_cab_balance s)
     \<and> (cab_spend ck u m t = (Inr j, w) \<longrightarrow>
          n + m \<le> b \<and> user_cab_balance w = (user_cab_balance s)(u \<mapsto> b - n - m))"
proof (intro conjI impI)
  obtain c where c: "user_cab_balance s u = Some c" and t: "user_cab_balance t = (user_cab_balance s)(u \<mapsto> c - n)"
    using cab_account.debit_subtracts [OF assms(2)] by blast
  assume "cab_refund ck' u n t = (Inr x, w)"
  with cab_account.credit_adds [of t u "c - n" ck' n x w] t c show "user_cab_balance w = user_cab_balance s"
    by auto
next
  assume "cab_spend ck u m t = (Inr j, w)"
  from cab_account.no_double_spend [OF assms this]
  show "n + m \<le> b" "user_cab_balance w = (user_cab_balance s)(u \<mapsto> b - n - m)" by simp_all
qed

theorem cab_spend_refund_roundtrip_witness:
  "\<exists>i t w. cab_spend demo_clock 7 30 (cab_demo 80) = (Inr i, t) \<and> cab_refund demo_clock 7 30 t = (Inr (), w)
     \<and> user_cab_balance w = user_cab_balance (cab_demo 80)"
proof -
  have run: "\<exists>i t w. cab_spend demo_clock 7 30 (cab_demo 80) = (Inr i, t)
      \<and> cab_refund demo_clock 7 30 t = (Inr (), w)"
    by (simp add: cab_spend_def cab_refund_def award_cab_def write_award_def debit_cab_def update_cab_plus_def
        update_cab_minus_def insert_cab_tx_def cab_demo_def VALID_REASONS_def CAB_REASONS_def fits_int4_def)
  then obtain i t w where 1: "cab_spend demo_clock 7 30 (cab_demo 80) = (Inr i, t)"
    and 2: "cab_refund demo_clock 7 30 t = (Inr (), w)" by blast
  from cab_spend_refund_roundtrip [OF cab_demo_ok(3) 1, of demo_clock "()" w] 1 2 show ?thesis by auto
qed


section \<open>Adjustments and the read side\<close>

definition adjust_row :: "clock \<Rightarrow> uuid \<Rightarrow> uuid \<Rightarrow> string \<Rightarrow> int \<Rightarrow> string \<Rightarrow> string \<Rightarrow> cab_tx" where
  "adjust_row ck i u direction n operator reason =
     \<lparr> ct_id = i, ct_user_id = u, ct_direction = direction, ct_amount = n,
       ct_reason = ''admin_adjustment'', ct_reference_id = Some (Suc i), ct_reference_type = Some ''admin'',
       ct_context = Some (operator, reason), ct_created_at = now ck \<rparr>"

definition adjust_state ::
  "clock \<Rightarrow> uuid \<Rightarrow> string \<Rightarrow> int \<Rightarrow> string \<Rightarrow> string \<Rightarrow> int \<Rightarrow> db \<Rightarrow> (error + uuid) \<times> db" where
  "adjust_state ck u direction n operator reason b s = (Inr (next_uuid s),
     s\<lparr> next_uuid := Suc (Suc (next_uuid s)), user_cab_balance := (user_cab_balance s)(u \<mapsto> b),
        cabecoin_transactions := cabecoin_transactions s @
          [adjust_row ck (next_uuid s) u direction n operator reason] \<rparr>)"

lemma admin_adjust_cab_run:
  assumes "cab_ok s" and "cab_ids_ok s" and "0 < n" and "direction \<in> {''credit'', ''debit''}"
    and "user_cab_balance s u = Some b"
    and b': "b' = (if direction = ''credit'' then b + n else b - n)" and "0 \<le> b'" and "b' \<le> int4_max"
  shows "admin_adjust_cab ck u direction n op rsn s = adjust_state ck u direction n op rsn b' s"
proof -
  have "0 \<le> b" "b \<le> int4_max" using cab_ok_balance [OF assms(1,5)] by auto
  then have "fits_int4 n" "fits_int4 b'"
    using assms(3,4,7,8) b' by (auto simp: fits_int4_def split: if_splits)
  then show ?thesis
    using assms fresh_cab_id [OF assms(2)]
    by (auto simp: admin_adjust_cab_def update_cab_plus_def update_cab_minus_def insert_cab_tx_def
        adjust_state_def adjust_row_def CAB_REASONS_def cab_reference_types_def)
qed

text \<open>
  The admin adjustment route, on every branch: an invalid body is 422, a user without a balance row
  404, a debit beyond the balance 409, a credit beyond the column a database error; in all these
  cases nothing is written. Otherwise the balance moves by exactly the amount and the audited ledger
  row is appended, without streak bonus or season progress.
\<close>

theorem admin_cab_adjustment_outcome:
  assumes "cab_ok s" and "cab_ids_ok s"
  shows "admin_cab_adjustment ck u direction n reason operator s =
    (if direction \<notin> {''credit'', ''debit''} \<or> n \<le> 0 \<or> length reason < 3 \<or> 200 < length reason
     then (Inl (HTTPException 422 ''validation_error''), s)
     else case user_cab_balance s u of
       None \<Rightarrow> (Inl (HTTPException 404 ''user_not_found''), s)
     | Some b \<Rightarrow>
         if direction = ''credit'' then
           if b + n \<le> int4_max then adjust_state ck u direction n operator reason (b + n) s
           else (Inl DataError, s)
         else if n \<le> b then adjust_state ck u direction n operator reason (b - n) s
         else (Inl (HTTPException 409 ''insufficient_balance''), s))"
proof (cases "direction \<notin> {''credit'', ''debit''} \<or> n \<le> 0 \<or> length reason < 3 \<or> 200 < length reason")
  case True
  then show ?thesis by (simp add: admin_cab_adjustment_def)
next
  case valid: False
  show ?thesis
  proof (cases "user_cab_balance s u")
    case None
    with valid show ?thesis
      by (auto simp: admin_cab_adjustment_def admin_adjust_cab_def update_cab_plus_def update_cab_minus_def
          catch_def db_transaction_def)
  next
    case (Some b)
    have b: "0 \<le> b" "b \<le> int4_max" using cab_ok_balance [OF assms(1) Some] by auto
    have run: "admin_adjust_cab ck u direction n operator reason s =
        adjust_state ck u direction n operator reason b' s"
      if "b' = (if direction = ''credit'' then b + n else b - n)" "0 \<le> b'" "b' \<le> int4_max" for b'
      using valid that by (intro admin_adjust_cab_run [OF assms _ _ Some]) auto
    have "admin_adjust_cab ck u ''credit'' n operator reason s = (Inl DataError, s)" if "\<not> b + n \<le> int4_max"
      using valid Some that by (simp add: admin_adjust_cab_def update_cab_plus_def fits_int4_def)
    moreover have "admin_adjust_cab ck u ''debit'' n operator reason s = (Inl InsufficientBalance, s)"
      if "\<not> n \<le> b"
      using valid Some that by (simp add: admin_adjust_cab_def update_cab_minus_short bnd_run_Inr)
    ultimately show ?thesis
      using valid Some b run [of "b + n"] run [of "b - n"]
      by (auto simp: admin_cab_adjustment_def catch_def db_transaction_def adjust_state_def)
  qed
qed

theorem admin_cab_adjustment_outcome_witness:
  "admin_cab_adjustment demo_clock 7 ''debit'' 90 ''typo'' ''ops'' (cab_demo 80)
     = (Inl (HTTPException 409 ''insufficient_balance''), cab_demo 80)
   \<and> user_cab_balance (snd (admin_cab_adjustment demo_clock 7 ''credit'' 5 ''gift'' ''ops'' (cab_demo 80))) 7
     = Some 85"
  using admin_cab_adjustment_outcome [OF cab_demo_ok(1,2), of 80 demo_clock 7 "''debit''" 90 "''typo''" "''ops''"]
    admin_cab_adjustment_outcome [OF cab_demo_ok(1,2), of 80 demo_clock 7 "''credit''" 5 "''gift''" "''ops''"]
    cab_demo_ok(3) [of 80]
  by (simp add: adjust_state_def)

lemma sort_key_hd_min:
  assumes "sort_key f xs = y # ys"
  shows "y \<in> set xs \<and> (\<forall>x \<in> set xs. f y \<le> f x)"
proof -
  have "set (y # ys) = set xs" using assms set_sort [of f xs] by simp
  moreover have "sorted (map f (y # ys))" using assms sorted_sort_key [of f xs] by simp
  ultimately show ?thesis by auto
qed

text \<open>
  The distance to the next milestone is 0 exactly when no unclaimed milestone of the season lies
  above what the user has earned; otherwise it is positive and the smallest such distance.
\<close>

theorem next_milestone_delta_minimal:
  "(get_next_milestone_delta s u sid earned = 0 \<longleftrightarrow> open_milestones s u sid earned = [])
   \<and> (open_milestones s u sid earned \<noteq> [] \<longrightarrow>
        get_next_milestone_delta s u sid earned =
          Min ((\<lambda>m. mi_cab_required m - earned) ` set (open_milestones s u sid earned))
        \<and> 0 < get_next_milestone_delta s u sid earned)"
proof (cases "sort_key mi_cab_required (open_milestones s u sid earned)")
  case Nil
  then have "open_milestones s u sid earned = []"
    by (metis length_0_conv length_sort)
  with Nil show ?thesis by (simp add: get_next_milestone_delta_def)
next
  case (Cons m ms)
  from sort_key_hd_min [OF this] have m: "m \<in> set (open_milestones s u sid earned)"
    and min: "\<forall>x \<in> set (open_milestones s u sid earned). mi_cab_required m \<le> mi_cab_required x" by auto
  from m have "earned < mi_cab_required m" by (simp add: open_milestones_def)
  moreover have "Min ((\<lambda>m. mi_cab_required m - earned) ` set (open_milestones s u sid earned)) =
      mi_cab_required m - earned"
    using m min by (intro Min_eqI) auto
  moreover have "open_milestones s u sid earned \<noteq> []" using m by auto
  ultimately show ?thesis using Cons by (simp add: get_next_milestone_delta_def)
qed

theorem next_milestone_delta_minimal_witness:
  "get_next_milestone_delta (empty_db\<lparr> battlepass_milestones :=
      [\<lparr> mi_id = 1, mi_season_id = 4, mi_number = 2, mi_cab_required = 300, mi_reward_type = ''cab'',
         mi_reward_value = 5, mi_subscriber_only = False \<rparr>,
       \<lparr> mi_id = 2, mi_season_id = 4, mi_number = 1, mi_cab_required = 100, mi_reward_type = ''cab'',
         mi_reward_value = 5, mi_subscriber_only = False \<rparr>] \<rparr>) 7 4 60 = 40"
  using next_milestone_delta_minimal [of "empty_db\<lparr> battlepass_milestones :=
      [\<lparr> mi_id = 1, mi_season_id = 4, mi_number = 2, mi_cab_required = 300, mi_reward_type = ''cab'',
         mi_reward_value = 5, mi_subscriber_only = False \<rparr>,
       \<lparr> mi_id = 2, mi_season_id = 4, mi_number = 1, mi_cab_required = 100, mi_reward_type = ''cab'',
         mi_reward_value = 5, mi_subscriber_only = False \<rparr>] \<rparr>" 7 4 60]
  by (simp add: open_milestones_def bp_claimed_def empty_db_def)


section \<open>What awards and debits leave alone\<close>

text \<open>A predicate that does not look at the columns a CAB operation writes.\<close>

locale cab_frame =
  fixes I :: "db \<Rightarrow> bool"
  assumes frame_uuid: "I (s\<lparr> next_uuid := n \<rparr>) = I s"
    and frame_balance: "I (s\<lparr> user_cab_balance := b \<rparr>) = I s"
    and frame_ledger: "I (s\<lparr> cabecoin_transactions := c \<rparr>) = I s"
    and frame_progress: "I (s\<lparr> user_battlepass_progress := p \<rparr>) = I s"
begin

lemma keeps_fresh: "keeps I fresh_uuid"
  by (rule keeps_fresh_uuid) (simp add: frame_uuid)

lemma keeps_insert: "keeps I (insert_cab_tx r)"
  unfolding insert_cab_tx_def
  by (intro keeps_intro keeps_modify) (simp_all add: frame_ledger)

lemma keeps_plus: "keeps I (update_cab_plus u n)"
  unfolding update_cab_plus_def Let_def
  by (intro keeps_intro keeps_modify) (simp_all add: frame_balance)

lemma keeps_minus: "keeps I (update_cab_minus u n)"
  unfolding update_cab_minus_def Let_def
  by (intro keeps_intro keeps_modify) (simp_all add: frame_balance)

lemma keeps_upsert: "keeps I (upsert_bp_progress u sid n)"
  unfolding upsert_bp_progress_def Let_def
  by (intro keeps_intro keeps_modify) (simp_all add: frame_progress)

lemma keeps_validate: "keeps I (validate_reference_type rt)"
  unfolding validate_reference_type_def by (intro keeps_intro)

lemma keeps_write_award: "keeps I (write_award ck u reason rid rt bp season n)"
  unfolding write_award_def by (intro keeps_intro keeps_plus keeps_fresh keeps_insert keeps_upsert)

lemma keeps_award: "keeps I (award_cab ck u n reason rid rt ap cm bp season)"
  unfolding award_cab_def by (intro keeps_intro keeps_validate keeps_write_award)

lemma keeps_debit: "keeps I (debit_cab ck u n reason rid rt txo)"
  unfolding debit_cab_def by (intro keeps_intro keeps_validate keeps_minus keeps_fresh keeps_insert)

end

interpretation orders_frame: cab_frame "\<lambda>s. gift_card_orders s = c" for c
  by unfold_locales simp_all

interpretation claims_frame: cab_frame "\<lambda>s. user_battlepass_claims s = c" for c
  by unfold_locales simp_all

interpretation users_frame: cab_frame "\<lambda>s. users s = c" for c
  by unfold_locales simp_all

end
