(* ===== verification/Ratis_Achievement.thy ===== *)
theory Ratis_Achievement
  imports Ratis_Cab "HOL-Library.Sublist"
begin

text \<open>
  Achievements (\<open>services/achievement_service.py\<close>, \<open>services/achievement_notification_service.py\<close>):
  an event selects catalogue rows by trigger type, a handler compares a count of the user's data
  with the target, and an unlock inserts one row per user and achievement and grants its CAB. Each
  candidate runs in a savepoint of its own and no exception leaves the dispatcher. The JSON payload
  kept for debugging (\<open>trigger_event\<close>) is not modelled, nor the HTTP call of the notification; its
  decisions are. The lemmas show that the dispatcher is total, keeps the CAB ledger, and pays
  exactly the rewards of what it unlocked.
\<close>

section \<open>Counting\<close>

definition ACCEPTED_SCAN_STATUSES :: "string list" where
  "ACCEPTED_SCAN_STATUSES = [''matched'', ''accepted'']"

definition EVENT_TYPE_TO_TRIGGERS :: "string \<Rightarrow> string list" where
  "EVENT_TYPE_TO_TRIGGERS e =
     (if e = ''scan_accepted'' then [''scan_count'', ''unique_brands_count'', ''unique_categories_count'',
          ''unique_products_discovered_count'']
      else if e = ''cashback_credited'' then [''savings_eur_total'']
      else if e = ''streak_extended'' then [''streak_days'']
      else if e = ''referral_paid'' then [''referral_count'']
      else if e \<in> {''battlepass_season_participated'', ''konami_code_entered'', ''app_opened_at_3am''}
      then [''first_event'']
      else [])"

definition WINDOWED_TRIGGER_TYPES :: "string list" where
  "WINDOWED_TRIGGER_TYPES = [''savings_eur_in_window'']"

definition count_for_user :: "uuid \<Rightarrow> ('r \<Rightarrow> uuid) \<Rightarrow> ('r \<Rightarrow> bool) \<Rightarrow> 'r list \<Rightarrow> int" where
  "count_for_user u owner extra_where rows = int (count_where (\<lambda>r. owner r = u \<and> extra_where r) rows)"

definition sum_for_user :: "uuid \<Rightarrow> ('r \<Rightarrow> uuid) \<Rightarrow> ('r \<Rightarrow> int) \<Rightarrow> ('r \<Rightarrow> bool) \<Rightarrow> 'r list \<Rightarrow> int" where
  "sum_for_user u owner column extra_where rows = sum_where (\<lambda>r. owner r = u \<and> extra_where r) column rows"

definition count_distinct_for_user :: "'k list \<Rightarrow> int" where
  "count_distinct_for_user ks = int (length (remdups ks))"

definition max_streak_for_user :: "db \<Rightarrow> uuid \<Rightarrow> int" where
  "max_streak_for_user s u = (case user_streaks s u of None \<Rightarrow> 0 | Some r \<Rightarrow> current_streak_days r)"

definition first_event_seen :: "db \<Rightarrow> uuid \<Rightarrow> string \<Rightarrow> bool" where
  "first_event_seen s u e = True"

type_synonym computer = "clock \<Rightarrow> db \<Rightarrow> uuid \<Rightarrow> int option \<Rightarrow> extra_params \<Rightarrow> int"
type_synonym handler = "clock \<Rightarrow> db \<Rightarrow> uuid \<Rightarrow> dbl \<Rightarrow> int option \<Rightarrow> extra_params \<Rightarrow> bool"

definition compute_scan_count :: computer where
  "compute_scan_count ck s u window_days extra =
     count_for_user u sc_user_id (\<lambda>r. sc_status r \<in> set ACCEPTED_SCAN_STATUSES
       \<and> (case if ex_window_scans_only extra then ex_window_since extra else None of
            None \<Rightarrow> True | Some since \<Rightarrow> since \<le> sc_scanned_at r)) (scans s)"

definition eval_scan_count :: handler where
  "eval_scan_count ck s u target window_days extra =
     (dtrunc target \<le> compute_scan_count ck s u window_days extra)"

definition compute_savings_eur_total :: computer where
  "compute_savings_eur_total ck s u window_days extra =
     sum_for_user u cb_user_id cb_amount (\<lambda>r. cb_type r = ''CREDIT''
       \<and> cb_status r \<in> {''pending'', ''confirmed''}) (cashback_transactions s)"

definition eval_savings_eur_total :: handler where
  "eval_savings_eur_total ck s u target window_days extra =
     (dtrunc target \<le> compute_savings_eur_total ck s u window_days extra)"

definition compute_streak_days :: computer where
  "compute_streak_days ck s u window_days extra = max_streak_for_user s u"

definition eval_streak_days :: handler where
  "eval_streak_days ck s u target window_days extra =
     (dtrunc target \<le> compute_streak_days ck s u window_days extra)"

definition compute_referral_count :: computer where
  "compute_referral_count ck s u window_days extra =
     count_for_user u go_user_id (\<lambda>r. go_source_type r = ''referral_reward'' \<and> go_eligible_at r \<noteq> None)
       (gift_card_orders s)"

definition eval_referral_count :: handler where
  "eval_referral_count ck s u target window_days extra =
     (dtrunc target \<le> compute_referral_count ck s u window_days extra)"

definition compute_unique_brands_count :: computer where
  "compute_unique_brands_count ck s u window_days extra =
     count_distinct_for_user (List.map_filter (\<lambda>r.
       if sc_user_id r = u \<and> sc_status r \<in> set ACCEPTED_SCAN_STATUSES then sc_store_id r else None) (scans s))"

definition eval_unique_brands_count :: handler where
  "eval_unique_brands_count ck s u target window_days extra =
     (dtrunc target \<le> compute_unique_brands_count ck s u window_days extra)"

definition compute_unique_categories_count :: computer where
  "compute_unique_categories_count ck s u window_days extra =
     count_distinct_for_user (List.map_filter (\<lambda>(r, p).
       if sc_user_id r = u \<and> sc_status r \<in> set ACCEPTED_SCAN_STATUSES \<and> sc_product_ean r = Some (pr_ean p)
       then pr_category_id p else None) (List.product (scans s) (products s)))"

definition eval_unique_categories_count :: handler where
  "eval_unique_categories_count ck s u target window_days extra =
     (dtrunc target \<le> compute_unique_categories_count ck s u window_days extra)"

definition compute_unique_products_discovered_count :: computer where
  "compute_unique_products_discovered_count ck s u window_days extra =
     int (count_where (\<lambda>p. pr_first_discovered_by p = Some u) (products s))"

definition eval_unique_products_discovered_count :: handler where
  "eval_unique_products_discovered_count ck s u target window_days extra =
     (dtrunc target \<le> compute_unique_products_discovered_count ck s u window_days extra)"

definition compute_first_event :: computer where
  "compute_first_event ck s u window_days extra = 0"

definition eval_first_event :: handler where
  "eval_first_event ck s u target window_days extra =
     first_event_seen s u (case ex_event extra of Some e \<Rightarrow> e | None \<Rightarrow> [])"

definition compute_savings_eur_in_window :: computer where
  "compute_savings_eur_in_window ck s u window_days extra =
     (case window_days of
        None \<Rightarrow> 0
      | Some w \<Rightarrow> if w = 0 then 0 else
          sum_for_user u cb_user_id cb_amount (\<lambda>r. cb_type r = ''CREDIT''
            \<and> cb_status r \<in> {''pending'', ''confirmed''} \<and> now ck - w * day_us \<le> cb_created_at r)
            (cashback_transactions s))"

definition eval_savings_eur_in_window :: handler where
  "eval_savings_eur_in_window ck s u target window_days extra =
     (case window_days of None \<Rightarrow> False | Some w \<Rightarrow>
        w \<noteq> 0 \<and> dtrunc target \<le> compute_savings_eur_in_window ck s u window_days extra)"

definition TRIGGER_HANDLERS :: "(string \<times> handler) list" where
  "TRIGGER_HANDLERS = [(''scan_count'', eval_scan_count), (''savings_eur_total'', eval_savings_eur_total),
     (''streak_days'', eval_streak_days), (''referral_count'', eval_referral_count),
     (''unique_brands_count'', eval_unique_brands_count),
     (''unique_categories_count'', eval_unique_categories_count),
     (''unique_products_discovered_count'', eval_unique_products_discovered_count),
     (''first_event'', eval_first_event)]"

definition TRIGGER_PROGRESS_COMPUTERS :: "(string \<times> computer) list" where
  "TRIGGER_PROGRESS_COMPUTERS = [(''scan_count'', compute_scan_count),
     (''savings_eur_total'', compute_savings_eur_total), (''streak_days'', compute_streak_days),
     (''referral_count'', compute_referral_count), (''unique_brands_count'', compute_unique_brands_count),
     (''unique_categories_count'', compute_unique_categories_count),
     (''unique_products_discovered_count'', compute_unique_products_discovered_count),
     (''first_event'', compute_first_event), (''savings_eur_in_window'', compute_savings_eur_in_window)]"

text \<open>\<^verbatim>\<open>int(Decimal)\<close> truncates the stored target directly.\<close>

fun dec_trunc :: "decimal \<Rightarrow> int" where
  "dec_trunc (Decimal c p) = sgn c * (\<bar>c\<bar> div 10 ^ p)"

definition compute_progress :: "clock \<Rightarrow> db \<Rightarrow> achievement_row \<Rightarrow> uuid \<Rightarrow> int option" where
  "compute_progress ck s ach u =
     (case map_of TRIGGER_PROGRESS_COMPUTERS (ac_trigger_type ach) of
        None \<Rightarrow> None
      | Some computer \<Rightarrow> Some (min (computer ck s u (ac_window_days ach) (ac_extra_params ach))
                                  (dec_trunc (ac_target_value ach))))"


section \<open>Notification\<close>

definition MODAL_RARITIES :: "string list" where
  "MODAL_RARITIES = [''gold'', ''emerald'', ''sapphire'', ''ruby'', ''crystal'', ''diamond'']"

definition PUSH_RARITIES :: "string list" where
  "PUSH_RARITIES = [''sapphire'', ''ruby'', ''crystal'', ''diamond'']"

definition RATE_LIMITED_RARITIES :: "string list" where
  "RATE_LIMITED_RARITIES = [''sapphire'', ''ruby'']"

definition INTENSITY_BY_RARITY :: "(string \<times> int) list" where
  "INTENSITY_BY_RARITY = [(''terracotta'', 0), (''bronze'', 0), (''copper'', 0), (''silver'', 1), (''gold'', 1),
     (''emerald'', 2), (''sapphire'', 2), (''ruby'', 3), (''crystal'', 3), (''diamond'', 3)]"

record unlock_notification =
  un_show_modal :: bool
  un_has_bespoke :: bool
  un_sound_intensity :: int
  un_visible_push :: bool
  un_push_rate_limit_seconds :: int

definition notify_achievement_unlocked :: "achievement_row \<Rightarrow> unlock_notification" where
  "notify_achievement_unlocked ach = (let rarity = ac_rarity ach in
     \<lparr> un_show_modal = (rarity \<in> set MODAL_RARITIES),
       un_has_bespoke = (rarity = ''diamond''),
       un_sound_intensity = (case map_of INTENSITY_BY_RARITY rarity of Some i \<Rightarrow> i | None \<Rightarrow> 0),
       un_visible_push = (rarity \<in> set PUSH_RARITIES),
       un_push_rate_limit_seconds = (if rarity \<in> set RATE_LIMITED_RARITIES then 3600 else 0) \<rparr>)"


section \<open>Unlock and dispatch\<close>

definition has_achievement :: "uuid \<Rightarrow> uuid \<Rightarrow> db \<Rightarrow> bool" where
  "has_achievement u aid s \<longleftrightarrow>
     list_ex (\<lambda>r. ua_user_id r = u \<and> ua_achievement_id r = aid) (user_achievements s)"

definition unlock :: "clock \<Rightarrow> uuid \<Rightarrow> achievement_row \<Rightarrow> bool db_op" where
  "unlock ck u ach = bnd (reads (has_achievement u (ac_id ach))) (\<lambda>conflict.
     if conflict then ret False
     else seq (int4 (ac_cab_reward ach))
       (seq (modify (\<lambda>s. s\<lparr> user_achievements := user_achievements s @
              [\<lparr> ua_user_id = u, ua_achievement_id = ac_id ach, ua_unlocked_at = now ck,
                 ua_cab_granted = ac_cab_reward ach \<rparr>] \<rparr>))
       (seq (if 0 < ac_cab_reward ach
             then award_cab ck u (ac_cab_reward ach) ''achievement_unlock'' (Some (ac_id ach))
                    (Some ''achievement'') False None False None
             else ret ())
       (ret True))))"

definition achievement_candidate :: "clock \<Rightarrow> uuid \<Rightarrow> string \<Rightarrow> db \<Rightarrow> achievement_row \<Rightarrow> bool" where
  "achievement_candidate ck u event_type s a \<longleftrightarrow>
     ac_trigger_type a \<in> set (filter (\<lambda>t. t \<notin> set WINDOWED_TRIGGER_TYPES) (EVENT_TYPE_TO_TRIGGERS event_type))
     \<and> (case ac_available_from a of None \<Rightarrow> True | Some f \<Rightarrow> f \<le> now ck)
     \<and> (case ac_available_until a of None \<Rightarrow> True | Some x \<Rightarrow> now ck < x)
     \<and> \<not> has_achievement u (ac_id a) s
     \<and> (ac_trigger_type a \<noteq> ''first_event'' \<or> ex_event (ac_extra_params a) = Some event_type)"

text \<open>One iteration of the dispatch loop, in its savepoint.\<close>

definition try_unlock :: "clock \<Rightarrow> uuid \<Rightarrow> achievement_row \<Rightarrow> uuid list \<Rightarrow> uuid list db_op" where
  "try_unlock ck u a unlocked = (case map_of TRIGGER_HANDLERS (ac_trigger_type a) of
      None \<Rightarrow> ret unlocked
    | Some handler \<Rightarrow> catch (db_transaction
        (bnd (reads (\<lambda>s. handler ck s u (decimal_to_dbl (ac_target_value a)) (ac_window_days a)
                           (ac_extra_params a))) (\<lambda>reached.
          if reached then bnd (unlock ck u a) (\<lambda>fresh.
            ret (if fresh then unlocked @ [ac_id a] else unlocked))
          else ret unlocked)))
        (\<lambda>_. ret unlocked))"

definition check_achievements :: "clock \<Rightarrow> uuid \<Rightarrow> string \<Rightarrow> uuid list db_op" where
  "check_achievements ck u event_type = bnd (reads (\<lambda>s. users s u)) (\<lambda>user. case user of
      None \<Rightarrow> ret []
    | Some ur \<Rightarrow>
        if is_shadow_banned ur \<or> is_deleted ur then ret []
        else bnd (reads (\<lambda>s. filter (achievement_candidate ck u event_type s) (achievements s)))
          (\<lambda>candidates. for_each (try_unlock ck u) candidates []))"

text \<open>The fire-and-forget call of the hooks: any exception is logged and dropped.\<close>

definition achievement_hook :: "clock \<Rightarrow> uuid \<Rightarrow> string \<Rightarrow> unit db_op" where
  "achievement_hook ck u event_type =
     catch (bnd (check_achievements ck u event_type) (\<lambda>_. ret ())) (\<lambda>_. ret ())"


section \<open>Totality and frames\<close>

lemma catch_ret_total: "\<exists>x t. catch m (\<lambda>_. ret d) s = (Inr x, t)"
  by (auto simp: catch_def split: prod.splits sum.splits)

lemma for_each_total:
  assumes "\<And>x acc s. \<exists>y t. f x acc s = (Inr y, t)"
  shows "\<exists>y t. for_each f xs acc s = (Inr y, t)"
proof (induction xs arbitrary: acc s)
  case Nil
  then show ?case by simp
next
  case (Cons x xs)
  obtain y t where "f x acc s = (Inr y, t)" using assms by blast
  then show ?case using Cons.IH [of y t] by (simp add: bnd_run_Inr)
qed

lemma try_unlock_total: "\<exists>y t. try_unlock ck u a acc s = (Inr y, t)"
  by (auto simp: try_unlock_def catch_ret_total split: option.split)

lemma check_achievements_total: "\<exists>ids t. check_achievements ck u e s = (Inr ids, t)"
  by (auto simp: check_achievements_def for_each_total try_unlock_total split: option.split)

lemma keeps_unlock_frame:
  assumes "preserves I (unlock ck u a)"
  shows "keeps I (try_unlock ck u a acc)"
  unfolding try_unlock_def
  by (intro keeps_intro preserves_intro assms)

lemma keeps_check_achievements:
  assumes "\<And>a. preserves I (unlock ck u a)"
  shows "keeps I (check_achievements ck u e)"
  unfolding check_achievements_def
  by (intro keeps_intro keeps_unlock_frame assms)

lemma preserves_unlock_cab: "preserves cab_ok (unlock ck u a)"
  unfolding unlock_def
  by (intro preserves_intro keeps_preserves [OF keeps_modify]) simp

lemma keeps_check_achievements_cab [keeps_intro]: "keeps cab_ok (check_achievements ck u e)"
  by (rule keeps_check_achievements) (rule preserves_unlock_cab)

lemma keeps_achievement_hook:
  assumes "\<And>a. preserves I (unlock ck u a)"
  shows "keeps I (achievement_hook ck u e)"
  unfolding achievement_hook_def by (intro keeps_intro keeps_check_achievements assms)

lemma keeps_achievement_hook_cab [keeps_intro]: "keeps cab_ok (achievement_hook ck u e)"
  by (rule keeps_achievement_hook) (rule preserves_unlock_cab)

lemma achievement_hook_total: "\<exists>t. achievement_hook ck u e s = (Inr (), t)"
  using check_achievements_total [of ck u e s] by (auto simp: achievement_hook_def catch_def bnd_def)


section \<open>What a dispatch pays\<close>

definition unlock_row :: "clock \<Rightarrow> uuid \<Rightarrow> achievement_row \<Rightarrow> user_achievement" where
  "unlock_row ck u a = \<lparr> ua_user_id = u, ua_achievement_id = ac_id a, ua_unlocked_at = now ck,
     ua_cab_granted = ac_cab_reward a \<rparr>"

lemma unlock_Inr:
  assumes "unlock ck u a s = (Inr fresh, t)" and "user_cab_balance s u = Some b" and "0 \<le> ac_cab_reward a"
  shows "fresh = (\<not> has_achievement u (ac_id a) s)
     \<and> (if fresh then user_achievements t = user_achievements s @ [unlock_row ck u a]
            \<and> user_cab_balance t = (user_cab_balance s)(u \<mapsto> b + ac_cab_reward a)
        else t = s)"
proof (cases "has_achievement u (ac_id a) s")
  case True
  then show ?thesis using assms(1) by (simp add: unlock_def)
next
  case False
  show ?thesis
  proof (cases "ac_cab_reward a = 0")
    case True
    then show ?thesis using assms(1,2) False
      by (auto simp: unlock_def unlock_row_def map_upd_triv split: if_splits)
  next
    case pos: False
    then show ?thesis using assms False
      by (auto simp: unlock_def unlock_row_def seq_Inr_iff award_cab_Inr award_state_def credited_def
          split: if_splits)
  qed
qed

text \<open>what the loop has done so far: the achievements unlocked and what they paid.\<close>

definition paid_out :: "clock \<Rightarrow> uuid \<Rightarrow> db \<Rightarrow> int \<Rightarrow> achievement_row list \<Rightarrow> uuid list \<Rightarrow> db \<Rightarrow> bool" where
  "paid_out ck u s b got ids t \<longleftrightarrow> ids = map ac_id got
     \<and> user_achievements t = user_achievements s @ map (unlock_row ck u) got
     \<and> user_cab_balance t = (user_cab_balance s)(u \<mapsto> b + sum_list (map ac_cab_reward got))"

lemma try_unlock_pays:
  assumes "paid_out ck u s b got acc t" and "0 \<le> ac_cab_reward a"
    and "try_unlock ck u a acc t = (Inr ids, w)"
  shows "paid_out ck u s b got ids w \<or>
     paid_out ck u s b (got @ [a]) ids w \<and> \<not> has_achievement u (ac_id a) t"
proof -
  have bal: "user_cab_balance t u = Some (b + sum_list (map ac_cab_reward got))"
    using assms(1) by (simp add: paid_out_def)
  from assms(3) consider "ids = acc \<and> w = t"
    | fresh where "unlock ck u a t = (Inr fresh, w)" "ids = (if fresh then acc @ [ac_id a] else acc)"
    by (auto simp: try_unlock_def catch_Inr_iff db_transaction_Inr_iff db_transaction_Inl_iff bnd_Inr_iff
        split: option.splits if_splits)
  then show ?thesis
  proof cases
    case 1
    then show ?thesis using assms(1) by simp
  next
    case (2 fresh)
    from unlock_Inr [OF 2(1) bal assms(2)] 2(2) assms(1) show ?thesis
      by (cases fresh) (auto simp: paid_out_def)
  qed
qed

lemma dispatch_pays:
  assumes "\<And>a. a \<in> set cands \<Longrightarrow> 0 \<le> ac_cab_reward a" and "paid_out ck u s b got acc t"
    and "for_each (try_unlock ck u) cands acc t = (Inr ids, w)"
  shows "\<exists>fresh. paid_out ck u s b (got @ fresh) ids w \<and> subseq fresh cands"
  using assms
proof (induction cands arbitrary: acc t got)
  case Nil
  then show ?case by (intro exI [of _ "[]"]) auto
next
  case (Cons a cands)
  from Cons.prems(3) obtain acc' t' where one: "try_unlock ck u a acc t = (Inr acc', t')"
    and rest: "for_each (try_unlock ck u) cands acc' t' = (Inr ids, w)" by (auto simp: bnd_Inr_iff)
  from try_unlock_pays [OF Cons.prems(2) _ one] Cons.prems(1)
  consider "paid_out ck u s b got acc' t'" | "paid_out ck u s b (got @ [a]) acc' t'" by auto
  then show ?case
  proof cases
    case 1
    from Cons.IH [OF _ 1 rest] Cons.prems(1) show ?thesis by (meson list.set_intros(2) list_emb_Cons)
  next
    case 2
    from Cons.IH [OF _ 2 rest] Cons.prems(1) obtain fresh where
      "paid_out ck u s b (got @ a # fresh) ids w" "subseq fresh cands" by auto
    then show ?thesis by (intro exI [of _ "a # fresh"]) auto
  qed
qed

text \<open>
  The dispatcher returns for every user, event and catalogue, whatever its handlers and awards do.
  For a user with a balance it unlocks a subsequence of the candidates, reports exactly their ids,
  adds one row for each and credits exactly the sum of their rewards, with the ledger in step.
\<close>

theorem check_achievements_pays:
  assumes "cab_ok s" and "user_cab_balance s u = Some b" and "list_all (\<lambda>a. 0 \<le> ac_cab_reward a) (achievements s)"
  shows "\<exists>fresh t. check_achievements ck u e s = (Inr (map ac_id fresh), t)
     \<and> subseq fresh (filter (achievement_candidate ck u e s) (achievements s))
     \<and> user_achievements t = user_achievements s @ map (unlock_row ck u) fresh
     \<and> user_cab_balance t = (user_cab_balance s)(u \<mapsto> b + sum_list (map ac_cab_reward fresh)) \<and> cab_ok t"
proof -
  obtain ids t where run: "check_achievements ck u e s = (Inr ids, t)"
    using check_achievements_total by blast
  have start: "paid_out ck u s b [] [] s" using assms(2) by (simp add: paid_out_def map_upd_triv)
  have "\<exists>fresh. paid_out ck u s b fresh ids t
      \<and> subseq fresh (filter (achievement_candidate ck u e s) (achievements s))"
  proof (cases "\<exists>ur. users s u = Some ur \<and> \<not> is_shadow_banned ur \<and> \<not> is_deleted ur")
    case True
    with run have "for_each (try_unlock ck u) (filter (achievement_candidate ck u e s) (achievements s)) [] s
        = (Inr ids, t)" by (auto simp: check_achievements_def)
    from dispatch_pays [OF _ start this] assms(3) show ?thesis by (auto simp: list_all_iff)
  next
    case False
    with run have "ids = [] \<and> t = s" by (auto simp: check_achievements_def split: option.splits if_splits)
    with start show ?thesis by (intro exI [of _ "[]"]) auto
  qed
  moreover have "cab_ok t" using keepsD [OF keeps_check_achievements_cab assms(1) run] .
  ultimately show ?thesis using run by (auto simp: paid_out_def)
qed

definition demo_achievement :: achievement_row where
  "demo_achievement = \<lparr> ac_id = 50, ac_code = ''streak_3'', ac_rarity = ''gold'', ac_category = ''streak'',
     ac_trigger_type = ''streak_days'', ac_target_value = Decimal 3 0, ac_window_days = None,
     ac_extra_params = \<lparr> ex_window_scans_only = False, ex_window_since = None, ex_event = None \<rparr>,
     ac_cab_reward = 25, ac_available_from = None, ac_available_until = None \<rparr>"

definition achievement_db :: db where
  "achievement_db = (cab_demo 80)\<lparr> users := [7 \<mapsto> \<lparr> is_deleted = False, is_shadow_banned = False,
       gift_card_redeemed_ytd_cents = 0, display_name = None, email = ''jack@ratis.app'' \<rparr>],
     user_streaks := [7 \<mapsto> fed_row 3 0 20000 ''Europe/Paris''], achievements := [demo_achievement] \<rparr>"

lemma achievement_db_ok:
  "cab_ok achievement_db" "user_cab_balance achievement_db 7 = Some 80"
  "list_all (\<lambda>a. 0 \<le> ac_cab_reward a) (achievements achievement_db)"
  using cab_demo_ok [of 80] by (simp_all add: achievement_db_def demo_achievement_def)

lemma achievement_db_unlocks:
  "fst (check_achievements demo_clock 7 ''streak_extended'' achievement_db) = Inr [50]"
proof -
  have target: "dtrunc (decimal_to_dbl (Decimal 3 0)) = 3"
    by (simp add: dbl_of_frac_def bitlen.simps rhe_def Let_def)
  have "\<not> has_achievement 7 50 achievement_db"
    by (simp add: has_achievement_def achievement_db_def cab_demo_def empty_db_def)
  moreover have "unlock demo_clock 7 demo_achievement achievement_db =
      (Inr True, snd (unlock demo_clock 7 demo_achievement achievement_db))"
    by (simp add: unlock_def has_achievement_def demo_achievement_def achievement_db_def cab_demo_def empty_db_def
        award_cab_def write_award_def update_cab_plus_def insert_cab_tx_def fits_int4_def VALID_REASONS_def
        CAB_REASONS_def cab_reference_types_def)
  ultimately show ?thesis
    by (simp add: check_achievements_def achievement_candidate_def EVENT_TYPE_TO_TRIGGERS_def
        WINDOWED_TRIGGER_TYPES_def try_unlock_def TRIGGER_HANDLERS_def eval_streak_days_def
        compute_streak_days_def max_streak_for_user_def fed_row_def target catch_def db_transaction_def
        bnd_run_Inr achievement_db_def demo_achievement_def del: decimal_to_dbl.simps)
qed

theorem check_achievements_pays_witness:
  "\<exists>t. check_achievements demo_clock 7 ''streak_extended'' achievement_db = (Inr [50], t)
     \<and> length (user_achievements t) = 1 \<and> cab_ok t"
proof -
  obtain fresh t where run: "check_achievements demo_clock 7 ''streak_extended'' achievement_db = (Inr (map ac_id fresh), t)"
    and t: "user_achievements t = user_achievements achievement_db @ map (unlock_row demo_clock 7) fresh" "cab_ok t"
    using check_achievements_pays [OF achievement_db_ok, of demo_clock "''streak_extended''"] by blast
  from run achievement_db_unlocks have "map ac_id fresh = [50]" by simp
  then have "length fresh = 1" by (metis length_map length_Cons list.size(3) One_nat_def)
  with run t \<open>map ac_id fresh = [50]\<close> show ?thesis
    by (auto simp: achievement_db_def cab_demo_def empty_db_def)
qed

text \<open>
  An event only ever unlocks achievements meant for it: a candidate's trigger type is registered for the
  event and is not a windowed one, a first-event achievement names this very event, and the user
  does not have it yet; a shadow-banned, deleted or unknown user is given nothing.
\<close>

theorem check_achievements_only_eligible:
  assumes "check_achievements ck u e s = (Inr ids, t)" and "i \<in> set ids"
    and "user_cab_balance s u = Some b" and "list_all (\<lambda>a. 0 \<le> ac_cab_reward a) (achievements s)"
  shows "\<exists>a ur. a \<in> set (achievements s) \<and> ac_id a = i \<and> users s u = Some ur
     \<and> \<not> is_shadow_banned ur \<and> \<not> is_deleted ur
     \<and> ac_trigger_type a \<in> set (EVENT_TYPE_TO_TRIGGERS e) \<and> ac_trigger_type a \<noteq> ''savings_eur_in_window''
     \<and> (ac_trigger_type a = ''first_event'' \<longrightarrow> ex_event (ac_extra_params a) = Some e)
     \<and> \<not> has_achievement u i s"
proof -
  have "ids \<noteq> []" using assms(2) by auto
  with assms(1) obtain ur where ur: "users s u = Some ur" "\<not> is_shadow_banned ur" "\<not> is_deleted ur"
    and run: "for_each (try_unlock ck u) (filter (achievement_candidate ck u e s) (achievements s)) [] s = (Inr ids, t)"
    by (auto simp: check_achievements_def split: option.splits if_splits)
  have start: "paid_out ck u s b [] [] s" using assms(3) by (simp add: paid_out_def map_upd_triv)
  from dispatch_pays [OF _ start run] assms(4) obtain fresh where
    ids: "ids = map ac_id fresh" and sub: "subseq fresh (filter (achievement_candidate ck u e s) (achievements s))"
    by (auto simp: list_all_iff paid_out_def)
  from assms(2) ids obtain a where a: "a \<in> set fresh" "ac_id a = i" by auto
  with list_emb_set [OF sub] have "a \<in> set (achievements s)" "achievement_candidate ck u e s a" by auto
  with ur a show ?thesis
    by (intro exI [of _ a] exI [of _ ur]) (auto simp: achievement_candidate_def WINDOWED_TRIGGER_TYPES_def)
qed

theorem check_achievements_only_eligible_witness:
  "\<exists>a ur. a \<in> set (achievements achievement_db) \<and> ac_id a = 50 \<and> users achievement_db 7 = Some ur
     \<and> \<not> is_shadow_banned ur \<and> ac_trigger_type a \<in> set (EVENT_TYPE_TO_TRIGGERS ''streak_extended'')"
proof -
  obtain t where "check_achievements demo_clock 7 ''streak_extended'' achievement_db = (Inr [50], t)"
    using achievement_db_unlocks by (metis prod.collapse)
  from check_achievements_only_eligible [OF this _ achievement_db_ok(2,3), of 50] show ?thesis by auto
qed

end
