(* ===== verification/Ratis_Xp.thy ===== *)
theory Ratis_Xp
  imports Ratis_Bonus
begin

text \<open>
  Experience points (\<open>repositories/xp_repository.py\<close>): an append-only ledger, a balance and a level
  per user. The level loop of \<open>_compute_level\<close> is a terminating function; the SQL expression the
  upsert stores is PostgreSQL's numeric logarithm, a parameter \<open>pg_log2\<close> of the award (the value of
  \<open>floor(log(2.0, balance / base + 1))::int\<close>, \<open>None\<close> when the statement raises). The lemmas show that
  the loop computes the documented closed form and that the stored level agrees with it.
\<close>

section \<open>Levels\<close>

text \<open>
  The \<open>while\<close> loop; the caller has returned already when \<open>level_base <= 0\<close>, so the test on the base
  never decides.
\<close>

function level_loop :: "int \<Rightarrow> int \<Rightarrow> nat \<Rightarrow> int \<Rightarrow> nat" where
  "level_loop balance level_base level threshold =
     (if 0 < level_base \<and> threshold \<le> balance
      then level_loop balance level_base (level + 1) (threshold + push_bit (level + 1) level_base)
      else level)"
  by auto
termination
proof (relation "measure (\<lambda>(balance, _, _, threshold). nat (balance - threshold + 1))", goal_cases)
  case (2 balance level_base level threshold)
  then have "0 < push_bit (level + 1) level_base" by (simp add: push_bit_eq_mult)
  with 2 show ?case by simp
qed simp

declare level_loop.simps [simp del]

definition compute_level :: "int \<Rightarrow> int \<Rightarrow> nat" where
  "compute_level balance level_base =
     (if balance \<le> 0 \<or> level_base \<le> 0 then 0 else level_loop balance level_base 0 level_base)"


section \<open>Operations\<close>

definition VALID_XP_REASONS :: "string list" where
  "VALID_XP_REASONS = [''receipt_scan'', ''label_scan'', ''barcode_scan'', ''product_identification'',
     ''fill_product_field'', ''scan_distinct'', ''promo_found'', ''price_compared'', ''mission_completed'',
     ''battlepass_milestone'', ''referral'', ''feed_jack'', ''stonks_completion'', ''challenge_milestone'',
     ''mission_burst'']"

definition XP_REASONS :: "string list" where
  "XP_REASONS = [''receipt_scan'', ''label_scan'', ''barcode_scan'', ''product_identification'',
     ''fill_product_field'', ''scan_distinct'', ''promo_found'', ''price_compared'', ''mission_completed'',
     ''battlepass_milestone'', ''referral'', ''feed_jack'', ''stonks_completion'', ''challenge_milestone'',
     ''mission_burst'']"

definition get_xp_balance :: "db \<Rightarrow> uuid \<Rightarrow> int \<times> int" where
  "get_xp_balance s u = (case user_xp_balance s u of None \<Rightarrow> (0, 0) | Some r \<Rightarrow> (xp_balance r, xp_level r))"

definition insert_xp_tx :: "xp_tx \<Rightarrow> unit db_op" where
  "insert_xp_tx r =
     seq (constr (0 < xt_amount r) ''xp_amount_positive'')
     (seq (constr (xt_reason r \<in> set XP_REASONS) ''xp_reason_check'')
     (seq (constr ((xt_reference_id r = None) = (xt_reference_type r = None))
             ''xp_transactions_reference_consistency_check'')
     (seq (constr (ref_type_allowed cab_reference_types (xt_reference_type r))
             ''xp_transactions_reference_type_check'')
     (modify (\<lambda>s. s\<lparr> xp_transactions := xp_transactions s @ [r] \<rparr>)))))"

record xp_result =
  xr_old_level :: int
  xr_new_level :: int
  xr_leveled_up :: bool

text \<open>The upsert: the level is computed from the new balance and returned by \<open>RETURNING level\<close>.\<close>

definition upsert_xp_balance ::
  "(int \<Rightarrow> int \<Rightarrow> int option) \<Rightarrow> uuid \<Rightarrow> int \<Rightarrow> int \<Rightarrow> int db_op" where
  "upsert_xp_balance pg_log2 u n level_base = bnd (reads (\<lambda>s. user_xp_balance s u)) (\<lambda>row.
     let bal = (case row of None \<Rightarrow> n | Some r \<Rightarrow> xp_balance r + n) in
     (case pg_log2 bal level_base of
        None \<Rightarrow> throw DataError
      | Some l \<Rightarrow>
          seq (int4 (max l 0)) (seq (constr (0 \<le> bal) ''user_xp_balance_positive'')
          (seq (modify (\<lambda>s. s\<lparr> user_xp_balance := (user_xp_balance s)
                  (u \<mapsto> \<lparr> xp_balance = bal, xp_level = max l 0 \<rparr>) \<rparr>))
          (ret (max l 0))))))"

definition award_xp ::
  "(int \<Rightarrow> int \<Rightarrow> int option) \<Rightarrow> clock \<Rightarrow> uuid \<Rightarrow> int \<Rightarrow> string \<Rightarrow> uuid option \<Rightarrow> string option \<Rightarrow> int
    \<Rightarrow> bool \<Rightarrow> dbl option \<Rightarrow> xp_result db_op" where
  "award_xp pg_log2 ck u amount reason reference_id reference_type level_base apply_streak_multiplier
     community_multiplier =
     (if amount \<le> 0 then throw ValueError
      else if reason \<notin> set VALID_XP_REASONS then throw ValueError
      else bnd (reads (boosted_amount ck u ''xp'' amount apply_streak_multiplier community_multiplier)) (\<lambda>n.
        seq (insert_xp_tx \<lparr> xt_user_id = u, xt_amount = n, xt_reason = reason,
               xt_reference_id = reference_id, xt_reference_type = reference_type \<rparr>)
        (bnd (reads (\<lambda>s. snd (get_xp_balance s u))) (\<lambda>old_level.
        bnd (upsert_xp_balance pg_log2 u n level_base) (\<lambda>new_level.
        ret \<lparr> xr_old_level = old_level, xr_new_level = new_level,
              xr_leveled_up = (old_level < new_level) \<rparr>)))))"


section \<open>The level loop\<close>

text \<open>Cumulative threshold of a level: \<open>base * (2 ^ n - 1)\<close>.\<close>

definition level_threshold :: "int \<Rightarrow> nat \<Rightarrow> int" where
  "level_threshold base n = base * (2 ^ n - 1)"

lemma level_threshold_Suc: "level_threshold base (Suc n) + push_bit n (base * 2) = level_threshold base (Suc (Suc n))"
  by (simp add: level_threshold_def push_bit_eq_mult algebra_simps)

lemma level_threshold_mono: "0 < base \<Longrightarrow> m \<le> n \<Longrightarrow> level_threshold base m \<le> level_threshold base n"
  unfolding level_threshold_def by (intro mult_left_mono diff_mono power_increasing) simp_all

lemma level_loop_correct:
  assumes "0 < base" and "level_threshold base l \<le> balance"
  shows "level_threshold base (level_loop balance base l (level_threshold base (Suc l))) \<le> balance
     \<and> balance < level_threshold base (Suc (level_loop balance base l (level_threshold base (Suc l))))"
  using assms
proof (induction "nat (balance - level_threshold base (Suc l) + 1)" arbitrary: l rule: less_induct)
  case less
  show ?case
  proof (cases "level_threshold base (Suc l) \<le> balance")
    case True
    have step: "level_loop balance base l (level_threshold base (Suc l)) =
        level_loop balance base (Suc l) (level_threshold base (Suc (Suc l)))"
      using True less.prems(1) by (subst level_loop.simps) (simp add: level_threshold_Suc)
    have "level_threshold base (Suc l) < level_threshold base (Suc (Suc l))"
      using less.prems(1) by (simp add: level_threshold_def)
    then have "nat (balance - level_threshold base (Suc (Suc l)) + 1)
        < nat (balance - level_threshold base (Suc l) + 1)"
      using True by simp
    from less.hyps [OF this less.prems(1) True] show ?thesis unfolding step .
  next
    case False
    then have "level_loop balance base l (level_threshold base (Suc l)) = l"
      by (subst level_loop.simps) simp
    with False less.prems show ?thesis by simp
  qed
qed

lemma compute_level_bounds:
  assumes "0 \<le> balance" and "0 < base"
  shows "level_threshold base (compute_level balance base) \<le> balance
     \<and> balance < level_threshold base (Suc (compute_level balance base))"
proof (cases "balance = 0")
  case True
  then show ?thesis using assms by (simp add: compute_level_def level_threshold_def)
next
  case False
  have "level_threshold base (Suc 0) = base" by (simp add: level_threshold_def)
  then show ?thesis
    using level_loop_correct [of base 0 balance] assms False
    by (simp add: compute_level_def level_threshold_def)
qed

lemma level_unique:
  assumes "0 < base" and "level_threshold base m \<le> x" and "x < level_threshold base (Suc m)"
    and "level_threshold base n \<le> x" and "x < level_threshold base (Suc n)"
  shows "m = n"
proof (rule ccontr)
  assume "m \<noteq> n"
  then consider "Suc m \<le> n" | "Suc n \<le> m" by linarith
  then show False
    using level_threshold_mono [OF assms(1), of "Suc m" n] level_threshold_mono [OF assms(1), of "Suc n" m]
      assms by cases linarith+
qed

text \<open>
  The level loop terminates on every input and finds the one level whose threshold the balance has
  reached while the next is still above it.
\<close>

theorem compute_level_correct:
  assumes "0 \<le> balance" and "0 < base"
  shows "compute_level balance base = n \<longleftrightarrow>
     base * (2 ^ n - 1) \<le> balance \<and> balance < base * (2 ^ Suc n - 1)"
proof -
  have "n = compute_level balance base"
    if "level_threshold base n \<le> balance" "balance < level_threshold base (Suc n)"
    using level_unique [OF assms(2) that] compute_level_bounds [OF assms] by simp
  then show ?thesis using compute_level_bounds [OF assms] unfolding level_threshold_def by metis
qed

theorem compute_level_correct_witness:
  "compute_level 299 100 = 1 \<and> compute_level 300 100 = 2"
  using compute_level_correct [of 299 100 1] compute_level_correct [of 300 100 2] by simp

lemma floor_log2_iff:
  fixes x :: real assumes "1 \<le> x"
  shows "\<lfloor>log 2 x\<rfloor> = int n \<longleftrightarrow> 2 ^ n \<le> x \<and> x < 2 ^ Suc n"
proof -
  have "int n \<le> \<lfloor>log 2 x\<rfloor> \<longleftrightarrow> 2 ^ n \<le> x"
    using assms by (simp add: le_floor_iff le_log_iff powr_realpow)
  moreover have "\<lfloor>log 2 x\<rfloor> < int (Suc n) \<longleftrightarrow> x < 2 ^ Suc n"
  proof -
    have "\<lfloor>log 2 x\<rfloor> < int (Suc n) \<longleftrightarrow> log 2 x < real (Suc n)"
      by (simp add: floor_less_iff)
    also have "\<dots> \<longleftrightarrow> x < 2 powr real (Suc n)" using assms by (simp add: log_less_iff)
    finally show ?thesis by (simp only: powr_realpow zero_less_numeral)
  qed
  ultimately show ?thesis by auto
qed

lemma compute_level_log:
  assumes "0 \<le> balance" and "0 < base"
  shows "int (compute_level balance base) = \<lfloor>log 2 (real_of_int balance / real_of_int base + 1)\<rfloor>"
proof -
  let ?n = "compute_level balance base" and ?x = "real_of_int balance / real_of_int base + 1"
  have eq: "real_of_int base * ?x = real_of_int (balance + base)"
    using assms(2) by (simp add: distrib_left)
  have b: "base * 2 ^ ?n \<le> balance + base" "balance + base < base * 2 ^ Suc ?n"
    using compute_level_bounds [OF assms] by (simp_all add: level_threshold_def algebra_simps)
  have "real_of_int base * 2 ^ ?n \<le> real_of_int base * ?x"
    unfolding eq using b(1) by (metis of_int_le_iff of_int_mult of_int_numeral of_int_power)
  moreover have "real_of_int base * ?x < real_of_int base * 2 ^ Suc ?n"
    unfolding eq using b(2) by (metis of_int_less_iff of_int_mult of_int_numeral of_int_power)
  ultimately have "2 ^ ?n \<le> ?x \<and> ?x < 2 ^ Suc ?n"
    using assms(2) by (simp add: mult_le_cancel_left_pos mult_less_cancel_left_pos)
  moreover have "1 \<le> ?x" using assms by simp
  ultimately show ?thesis using floor_log2_iff [of ?x ?n] by simp
qed

text \<open>
  The integer loop of \<open>_compute_level\<close> and the closed form of its documentation, which the SQL
  upsert evaluates, are the same function: the level is the floor of log2(balance / base + 1).
\<close>

theorem compute_level_closed_form:
  assumes "0 \<le> balance" and "0 < base"
  shows "int (compute_level balance base) = \<lfloor>log 2 (real_of_int balance / real_of_int base + 1)\<rfloor>"
  using assms by (rule compute_level_log)

theorem compute_level_closed_form_witness:
  "int (compute_level 300 100) = \<lfloor>log 2 (real_of_int 300 / real_of_int 100 + 1)\<rfloor>"
  by (rule compute_level_closed_form) simp_all


section \<open>Awards\<close>

definition xp_ledger :: "db \<Rightarrow> uuid \<Rightarrow> int" where
  "xp_ledger s u = sum_where (\<lambda>r. xt_user_id r = u) xt_amount (xp_transactions s)"

definition xp_ok :: "db \<Rightarrow> bool" where
  "xp_ok s \<longleftrightarrow> (\<forall>u. fst (get_xp_balance s u) = xp_ledger s u)
     \<and> (\<forall>r \<in> set (xp_transactions s). 0 < xt_amount r)"

lemma xp_ok_frame [simp]:
  "xp_ok (s\<lparr> next_uuid := x0 \<rparr>) = xp_ok s"
  "xp_ok (s\<lparr> users := x1 \<rparr>) = xp_ok s"
  "xp_ok (s\<lparr> user_cab_balance := x2 \<rparr>) = xp_ok s"
  "xp_ok (s\<lparr> user_cashback_balance := x3 \<rparr>) = xp_ok s"
  "xp_ok (s\<lparr> cabecoin_transactions := x4 \<rparr>) = xp_ok s"
  "xp_ok (s\<lparr> user_streaks := x5 \<rparr>) = xp_ok s"
  "xp_ok (s\<lparr> battlepass_seasons := x8 \<rparr>) = xp_ok s"
  "xp_ok (s\<lparr> battlepass_milestones := x9 \<rparr>) = xp_ok s"
  "xp_ok (s\<lparr> user_battlepass_progress := x10 \<rparr>) = xp_ok s"
  "xp_ok (s\<lparr> user_battlepass_claims := x11 \<rparr>) = xp_ok s"
  "xp_ok (s\<lparr> community_challenges := x12 \<rparr>) = xp_ok s"
  "xp_ok (s\<lparr> community_challenge_milestones := x13 \<rparr>) = xp_ok s"
  "xp_ok (s\<lparr> community_challenge_progress := x14 \<rparr>) = xp_ok s"
  "xp_ok (s\<lparr> community_challenge_claims := x15 \<rparr>) = xp_ok s"
  "xp_ok (s\<lparr> community_multipliers := x16 \<rparr>) = xp_ok s"
  "xp_ok (s\<lparr> notification_outbox := x17 \<rparr>) = xp_ok s"
  "xp_ok (s\<lparr> affiliate_offers := x18 \<rparr>) = xp_ok s"
  "xp_ok (s\<lparr> cashback_transactions := x19 \<rparr>) = xp_ok s"
  "xp_ok (s\<lparr> cashback_withdrawals := x20 \<rparr>) = xp_ok s"
  "xp_ok (s\<lparr> subscriptions := x21 \<rparr>) = xp_ok s"
  "xp_ok (s\<lparr> receipts := x22 \<rparr>) = xp_ok s"
  "xp_ok (s\<lparr> scans := x23 \<rparr>) = xp_ok s"
  "xp_ok (s\<lparr> products := x24 \<rparr>) = xp_ok s"
  "xp_ok (s\<lparr> gift_card_brands := x25 \<rparr>) = xp_ok s"
  "xp_ok (s\<lparr> gift_card_orders := x26 \<rparr>) = xp_ok s"
  "xp_ok (s\<lparr> achievements := x27 \<rparr>) = xp_ok s"
  "xp_ok (s\<lparr> user_achievements := x28 \<rparr>) = xp_ok s"
  "xp_ok (s\<lparr> referral_codes := x29 \<rparr>) = xp_ok s"
  "xp_ok (s\<lparr> referral_uses := x30 \<rparr>) = xp_ok s"
  "xp_ok (s\<lparr> play := x31 \<rparr>) = xp_ok s"
  by (simp_all add: xp_ok_def get_xp_balance_def xp_ledger_def)

lemma xp_ok_nonneg: "xp_ok s \<Longrightarrow> 0 \<le> fst (get_xp_balance s u)"
  by (simp add: xp_ok_def xp_ledger_def) (rule sum_where_nonneg, simp add: less_imp_le)

lemma award_xp_Inr:
  assumes "award_xp pg ck u amount reason rid rt base ap cm s = (Inr res, t)"
    and "n = boosted_amount ck u ''xp'' amount ap cm s"
  shows "\<exists>l. 0 < amount \<and> 0 < n \<and> reason \<in> set XP_REASONS
     \<and> pg (fst (get_xp_balance s u) + n) base = Some l
     \<and> xr_old_level res = snd (get_xp_balance s u) \<and> xr_new_level res = max l 0
     \<and> xr_leveled_up res = (snd (get_xp_balance s u) < max l 0)
     \<and> t = s\<lparr> xp_transactions := xp_transactions s @
            [\<lparr> xt_user_id = u, xt_amount = n, xt_reason = reason, xt_reference_id = rid,
               xt_reference_type = rt \<rparr>],
          user_xp_balance := (user_xp_balance s)
            (u \<mapsto> \<lparr> xp_balance = fst (get_xp_balance s u) + n, xp_level = max l 0 \<rparr>) \<rparr>"
  using assms
  by (auto simp: award_xp_def insert_xp_tx_def upsert_xp_balance_def Let_def get_xp_balance_def
      split: if_splits option.splits)

lemma preserves_award_xp [preserves_intro]:
  "preserves xp_ok (award_xp pg ck u amount reason rid rt base ap cm)"
proof (rule preservesI)
  fix s res t assume "xp_ok s" and run: "award_xp pg ck u amount reason rid rt base ap cm s = (Inr res, t)"
  let ?n = "boosted_amount ck u ''xp'' amount ap cm s"
  from award_xp_Inr [OF run refl] have "0 < ?n"
    and bal: "fst (get_xp_balance t v) = fst (get_xp_balance s v) + (if v = u then ?n else 0)"
    and led: "xp_ledger t v = xp_ledger s v + (if v = u then ?n else 0)"
    and amounts: "xp_transactions t = xp_transactions s @ [r] \<Longrightarrow> xt_amount r = ?n"
    and "\<exists>r. xp_transactions t = xp_transactions s @ [r]"
    for v r by (auto simp: get_xp_balance_def xp_ledger_def)
  moreover have "fst (get_xp_balance s v) = xp_ledger s v" for v
    using \<open>xp_ok s\<close> by (simp add: xp_ok_def)
  ultimately show "xp_ok t" using \<open>xp_ok s\<close> by (auto simp: xp_ok_def)
qed

text \<open>What an award of XP leaves alone.\<close>

lemma keeps_award_xp:
  assumes "\<And>s x. I s \<Longrightarrow> I (s\<lparr> xp_transactions := x \<rparr>)" and "\<And>s x. I s \<Longrightarrow> I (s\<lparr> user_xp_balance := x \<rparr>)"
  shows "keeps I (award_xp pg ck u amount reason rid rt base ap cm)"
  unfolding award_xp_def insert_xp_tx_def upsert_xp_balance_def Let_def
  by (intro keeps_intro keeps_modify assms)

lemma keeps_award_xp_cab [keeps_intro]: "keeps cab_ok (award_xp pg ck u amount reason rid rt base ap cm)"
  by (rule keeps_award_xp) simp_all

lemma XP_REASONS_sync: "set VALID_XP_REASONS = set XP_REASONS"
  by (simp add: VALID_XP_REASONS_def XP_REASONS_def)

text \<open>
  An XP award adds exactly the boosted amount to the balance, which stays the sum of the ledger, and
  the level it stores and reports is the level of the new balance, whatever level was stored before.
  It relies on PostgreSQL evaluating the logarithm exactly enough for its floor to be right.
\<close>

theorem award_xp_levels:
  assumes "xp_ok s" and "0 < base"
    and pg: "\<And>b. 0 \<le> b \<Longrightarrow> pg b base = Some \<lfloor>log 2 (real_of_int b / real_of_int base + 1)\<rfloor>"
    and run: "award_xp pg ck u amount reason rid rt base ap cm s = (Inr res, t)"
  shows "\<exists>b. user_xp_balance t u = Some \<lparr> xp_balance = b, xp_level = int (compute_level b base) \<rparr>
     \<and> b = fst (get_xp_balance s u) + boosted_amount ck u ''xp'' amount ap cm s
     \<and> xr_new_level res = int (compute_level b base)
     \<and> (xr_leveled_up res \<longleftrightarrow> snd (get_xp_balance s u) < int (compute_level b base)) \<and> xp_ok t"
proof -
  let ?n = "boosted_amount ck u ''xp'' amount ap cm s"
  let ?b = "fst (get_xp_balance s u) + ?n"
  obtain l where l: "0 < ?n" "pg ?b base = Some l" "xr_new_level res = max l 0"
      "xr_leveled_up res = (snd (get_xp_balance s u) < max l 0)"
    and t: "user_xp_balance t u = Some \<lparr> xp_balance = ?b, xp_level = max l 0 \<rparr>"
    using award_xp_Inr [OF run refl] by auto
  have "0 \<le> ?b" using xp_ok_nonneg [OF assms(1), of u] l(1) by simp
  then have "l = int (compute_level ?b base)"
    using pg [of ?b] l(2) compute_level_log [OF _ assms(2), of ?b] by simp
  with l t preservesD [OF preserves_award_xp assms(1) run] show ?thesis by auto
qed

theorem award_xp_levels_witness:
  "\<exists>res t. award_xp (\<lambda>b base. Some (int (compute_level b base))) demo_clock 7 300 ''feed_jack'' None None 100
        False None empty_db = (Inr res, t)
     \<and> user_xp_balance t 7 = Some \<lparr> xp_balance = 300, xp_level = int (compute_level 300 100) \<rparr>"
proof -
  let ?pg = "\<lambda>b base. Some (int (compute_level b base))"
  have "level_loop 300 100 0 100 = 2" by (simp add: level_loop.simps)
  then have lv: "compute_level 300 100 = 2" by (simp add: compute_level_def)
  obtain res t where run: "award_xp ?pg demo_clock 7 300 ''feed_jack'' None None 100 False None empty_db = (Inr res, t)"
    by (simp add: award_xp_def insert_xp_tx_def upsert_xp_balance_def VALID_XP_REASONS_def XP_REASONS_def
        empty_db_def get_xp_balance_def fits_int4_def lv)
  have ok: "xp_ok empty_db" by (simp add: xp_ok_def get_xp_balance_def xp_ledger_def empty_db_def)
  have pg: "?pg b 100 = Some \<lfloor>log 2 (real_of_int b / real_of_int 100 + 1)\<rfloor>" if "0 \<le> b" for b
    using compute_level_log [OF that, of 100] by simp
  from award_xp_levels [OF ok _ pg run] run show ?thesis
    by (auto simp: get_xp_balance_def empty_db_def)
qed

end
