(* ===== verification/Ratis_Gamification.thy ===== *)
theory Ratis_Gamification
  imports Ratis_Achievement Ratis_Xp
begin

text \<open>
  The gamification routes (\<open>routes/gamification/streak.py\<close>, \<open>challenge.py\<close>, \<open>xp.py\<close>): each runs the
  repository functions in one \<open>db_transaction\<close> and turns domain exceptions into HTTP errors. The
  lemmas show what a feed awards, that a repeated feed awards nothing, and what a claimed challenge
  milestone pays.
\<close>

section \<open>Streak routes\<close>

definition get_streak_endpoint :: "clock \<Rightarrow> uuid \<Rightarrow> streak_state db_op" where
  "get_streak_endpoint ck u = reads (get_streak ck u)"

text \<open>The transaction of the feed route; XP, challenge and achievements follow a new feed only.\<close>

definition feed_body ::
  "(int \<Rightarrow> int \<Rightarrow> int option) \<Rightarrow> clock \<Rightarrow> uuid \<Rightarrow> int \<Rightarrow> string option \<Rightarrow> feed_result db_op" where
  "feed_body pg ck u xp_per_feed tz = bnd (feed_jack ck u tz) (\<lambda>res.
     if fr_is_new_feed res then
       seq (award_xp pg ck u xp_per_feed ''feed_jack'' None None 100 True None)
       (seq (maybe_increment_challenge ck u ''feed_jack'' None)
       (seq (achievement_hook ck u ''streak_extended'')
       (ret res)))
     else ret res)"

definition feed_jack_endpoint ::
  "(int \<Rightarrow> int \<Rightarrow> int option) \<Rightarrow> clock \<Rightarrow> uuid \<Rightarrow> int \<Rightarrow> string option \<Rightarrow> streak_state db_op" where
  "feed_jack_endpoint pg ck u xp_per_feed tz =
     bnd (catch (db_transaction (feed_body pg ck u xp_per_feed tz))
       (\<lambda>e. if e = StreakNeedsRepair then throw (HTTPException 409 ''needs_repair_required'') else throw e))
     (\<lambda>res. ret (fr_state res))"

definition repair_streak_endpoint :: "clock \<Rightarrow> uuid \<Rightarrow> int \<Rightarrow> streak_state db_op" where
  "repair_streak_endpoint ck u repair_cost =
     catch (db_transaction (repair_streak ck u repair_cost))
       (\<lambda>e. if e = StreakNotInRepairState then throw (HTTPException 409 ''streak_not_in_repair_state'')
            else if e = InsufficientBalance then throw (HTTPException 402 ''insufficient_cab_balance'')
            else throw e)"

definition purchase_reserve_endpoint :: "clock \<Rightarrow> uuid \<Rightarrow> int \<Rightarrow> int \<Rightarrow> int \<Rightarrow> purchase_result db_op" where
  "purchase_reserve_endpoint ck u quantity cost_per_reserve max_reserves =
     (if quantity < 1 then throw (HTTPException 422 ''validation_error'')
      else catch (db_transaction (purchase_reserve ck u quantity cost_per_reserve max_reserves))
        (\<lambda>e. if e = ReserveLimitExceeded then throw (HTTPException 409 ''reserve_limit_exceeded'')
             else if e = InsufficientBalance then throw (HTTPException 402 ''insufficient_cab_balance'')
             else throw e))"


section \<open>Challenge routes\<close>

definition get_challenge :: "clock \<Rightarrow> uuid \<Rightarrow> challenge_view db_op" where
  "get_challenge ck u = bnd (reads (get_active_challenge_with_state ck u)) (\<lambda>state. case state of
       None \<Rightarrow> throw (HTTPException 404 ''challenge_not_found'')
     | Some v \<Rightarrow> ret v)"

definition apply_reward ::
  "(int \<Rightarrow> int \<Rightarrow> int option) \<Rightarrow> clock \<Rightarrow> uuid \<Rightarrow> claim_spec \<Rightarrow> uuid \<Rightarrow> unit db_op" where
  "apply_reward pg ck u result mid =
     (let reward_type = cs_reward_type result;
          rv = cs_reward_value result;
          amount = (case rv_amount rv of Some n \<Rightarrow> n | None \<Rightarrow> 0)
      in if reward_type = ''cab'' then
           if 0 < amount then award_cab ck u amount ''challenge_milestone'' (Some mid)
               (Some ''community_challenge_milestone'') False None True None
           else ret ()
         else if reward_type = ''xp'' then
           if 0 < amount then bnd (award_xp pg ck u amount ''challenge_milestone'' (Some mid)
               (Some ''community_challenge_milestone'') 100 False None) (\<lambda>_. ret ())
           else ret ()
         else if reward_type = ''multiplier'' then
           let multiplier = (case rv_multiplier rv of Some m \<Rightarrow> m | None \<Rightarrow> Decimal 0 0);
               hours = (case rv_duration_hours rv of Some h \<Rightarrow> h | None \<Rightarrow> 0);
               applies_to = (case rv_applies_to rv of Some a \<Rightarrow> a | None \<Rightarrow> ''both'')
           in if dless (Dbl 0 0) (decimal_to_dbl multiplier) \<and> 0 < hours
              then create_community_multiplier ck (cs_challenge_id result) u multiplier applies_to hours
              else ret ()
         else ret ())"

definition claim_error :: "error \<Rightarrow> error" where
  "claim_error e =
     (if e = MilestoneNotFound then HTTPException 404 ''milestone_not_found''
      else if e = ChallengeExpired then HTTPException 409 ''challenge_expired''
      else if e = MilestoneLocked then HTTPException 409 ''milestone_locked''
      else if e = MilestoneAlreadyClaimed then HTTPException 409 ''milestone_already_claimed''
      else e)"

definition claim_challenge_milestone ::
  "(int \<Rightarrow> int \<Rightarrow> int option) \<Rightarrow> clock \<Rightarrow> uuid \<Rightarrow> uuid \<Rightarrow> claim_spec db_op" where
  "claim_challenge_milestone pg ck u mid =
     catch (db_transaction (bnd (challenge_claim_milestone ck u mid) (\<lambda>result.
         seq (apply_reward pg ck u result mid) (ret result))))
       (\<lambda>e. throw (claim_error e))"

definition get_xp_balance_endpoint :: "uuid \<Rightarrow> (int \<times> int) db_op" where
  "get_xp_balance_endpoint u = reads (\<lambda>s. get_xp_balance s u)"


section \<open>The CAB ledger stays in step\<close>

lemma keeps_catch_throw [keeps_intro]:
  assumes "keeps I m" and "\<And>e. \<exists>e'. h e = throw e'"
  shows "keeps I (catch m h)"
proof (rule keeps_catch [OF assms(1)])
  fix e show "keeps I (h e)" using assms(2) [of e] by auto
qed

lemma throw_if: "\<exists>e'. (if b then throw x else throw y) = throw e'"
  by auto

lemma keeps_maybe_increment_cab [keeps_intro]: "keeps cab_ok (maybe_increment_challenge ck u a cx)"
  by (rule keeps_maybe_increment) simp_all

lemma preserves_feed_body_cab [preserves_intro]: "preserves cab_ok (feed_body pg ck u xp tz)"
  unfolding feed_body_def
  by (intro preserves_intro keeps_preserves keeps_award_xp_cab keeps_maybe_increment_cab
      keeps_achievement_hook_cab)

lemma preserves_create_multiplier_cab [preserves_intro]:
  "preserves cab_ok (create_community_multiplier ck cid u m a h)"
  by (rule preservesI) (auto simp: create_community_multiplier_Inr)

lemma preserves_challenge_claim_cab [preserves_intro]: "preserves cab_ok (challenge_claim_milestone ck u mid)"
  by (rule preservesI) (auto simp: challenge_claim_Inr)

lemma preserves_apply_reward_cab [preserves_intro]: "preserves cab_ok (apply_reward pg ck u r mid)"
  unfolding apply_reward_def Let_def
  by (intro preserves_intro keeps_preserves keeps_award_xp_cab)

lemma keeps_streak_routes_cab:
  "keeps cab_ok (feed_jack_endpoint pg ck u xp tz)"
  "keeps cab_ok (repair_streak_endpoint ck u cost)"
  "keeps cab_ok (purchase_reserve_endpoint ck u q cost mx)"
  "keeps cab_ok (claim_challenge_milestone pg ck u mid)"
  unfolding feed_jack_endpoint_def repair_streak_endpoint_def purchase_reserve_endpoint_def
    claim_challenge_milestone_def
  by (intro keeps_bnd keeps_ret keeps_throw keeps_if keeps_catch_throw preserves_transaction preserves_intro; auto)+


section \<open>Feeds award once\<close>

lemma preserves_unlock_streaks: "preserves (\<lambda>s. user_streaks s = c) (unlock ck u a)"
  by (rule preservesI)
    (auto simp: unlock_def seq_Inr_iff award_cab_Inr award_state_def split: if_splits)

lemma feed_aftermath_keeps_streaks:
  "keeps (\<lambda>s. user_streaks s = c) (award_xp pg ck u n r rid rt base ap cm)"
  "keeps (\<lambda>s. user_streaks s = c) (maybe_increment_challenge ck u a cx)"
  "keeps (\<lambda>s. user_streaks s = c) (achievement_hook ck u e)"
  by (rule keeps_award_xp, simp, simp) (rule keeps_maybe_increment, simp_all,
    rule keeps_achievement_hook, rule preserves_unlock_streaks)

lemma feed_body_Inr:
  assumes "feed_body pg ck u xp tz s = (Inr res, t)"
  shows "\<exists>s1. feed_jack ck u tz s = (Inr res, s1) \<and> user_streaks t = user_streaks s1"
proof -
  from assms obtain s1 where feed: "feed_jack ck u tz s = (Inr res, s1)"
    and rest: "t = s1 \<or> (\<exists>s2 s3 x y z. award_xp pg ck u xp ''feed_jack'' None None 100 True None s1 = (Inr x, s2)
        \<and> maybe_increment_challenge ck u ''feed_jack'' None s2 = (Inr y, s3)
        \<and> achievement_hook ck u ''streak_extended'' s3 = (Inr z, t))"
    by (auto simp: feed_body_def bnd_Inr_iff seq_Inr_iff split: if_splits)
  from rest have "user_streaks t = user_streaks s1"
    using keepsD [OF feed_aftermath_keeps_streaks(1) refl] keepsD [OF feed_aftermath_keeps_streaks(2) refl]
      keepsD [OF feed_aftermath_keeps_streaks(3) refl] by metis
  with feed show ?thesis by blast
qed

lemma feed_jack_endpoint_Inr:
  "feed_jack_endpoint pg ck u xp tz s = (Inr st, t) \<longleftrightarrow>
     (\<exists>res. feed_body pg ck u xp tz s = (Inr res, t) \<and> st = fr_state res)"
  by (auto simp: feed_jack_endpoint_def bnd_Inr_iff catch_Inr_iff db_transaction_Inr_iff split: if_splits)

text \<open>
  A feed request repeated at the same instant is paid once: after a feed route that returned, the same
  request returns the same streak and changes nothing in the database, so no XP, challenge progress
  or achievement is granted a second time.
\<close>

theorem feed_route_pays_once:
  assumes "feed_jack_endpoint pg ck u xp tz s = (Inr st, t)"
  shows "\<exists>st'. feed_jack_endpoint pg ck u xp tz t = (Inr st', t) \<and> st_streak_days st' = st_streak_days st"
proof -
  from assms obtain res where body: "feed_body pg ck u xp tz s = (Inr res, t)" and st: "st = fr_state res"
    by (auto simp: feed_jack_endpoint_Inr)
  from feed_body_Inr [OF body] obtain s1 where feed: "feed_jack ck u tz s = (Inr res, s1)"
    and same: "user_streaks t = user_streaks s1" by blast
  from feed_jack_Inr [OF feed] same obtain row where
    row: "user_streaks t u = Some row" "last_fed_at row = Some (today_in_tz ck (hinted_tz tz (timezone row)))"
    and days: "st_streak_days st = current_streak_days row" by (auto simp: st)
  from feed_jack_already [OF row] obtain res' where
    again: "feed_jack ck u tz t = (Inr res', t)" "\<not> fr_is_new_feed res'"
    and "st_streak_days (fr_state res') = current_streak_days row" by blast
  moreover have "feed_body pg ck u xp tz t = (Inr res', t)"
    using again by (simp add: feed_body_def bnd_run_Inr)
  ultimately show ?thesis using days by (auto simp: feed_jack_endpoint_Inr)
qed

theorem feed_route_pays_once_witness:
  "\<exists>st t st'. feed_jack_endpoint (\<lambda>_ _. Some 0) demo_clock 7 10 None empty_db
      = (Inr st, t)
    \<and> feed_jack_endpoint (\<lambda>_ _. Some 0) demo_clock 7 10 None t = (Inr st', t)
    \<and> xp_transactions t \<noteq> []"
proof -
  let ?pg = "\<lambda>_ _. Some 0"
  have bonus: "boosted_amount demo_clock 7 ''xp'' 10 True None
      (empty_db\<lparr> user_streaks := [7 \<mapsto> fed_row 1 0 20000 ''Europe/Paris''] \<rparr>) = 10"
  proof -
    have "streak_bonus 1 = Dbl 3602879701896397 56"
      by (simp add: streak_bonus_def dbl_of_int_def bitlen.simps dmin_def Let_def)
    moreover have "scaled 10 (dadd (Dbl 3602879701896397 56) (Dbl 0 0)) = 10"
      by (simp add: scaled_def dbl_of_int_def bitlen.simps rhe_def Let_def)
    ultimately show ?thesis
      by (simp add: boosted_amount_def get_streak_multiplier_def get_active_community_multiplier_def
          fed_row_def demo_clock_def today_in_tz_def empty_db_def bitlen.simps Let_def)
  qed
  let ?s1 = "empty_db\<lparr> user_streaks := [7 \<mapsto> fed_row 1 0 20000 ''Europe/Paris''] \<rparr>"
  obtain res where feed: "feed_jack demo_clock 7 None empty_db = (Inr res, ?s1)" "fr_is_new_feed res"
    by (simp add: feed_jack_def Let_def seq_upsert_streak streak_row_ok_def DEFAULT_TZ_def fed_row_def
        demo_clock_def today_in_tz_def empty_db_def)
  obtain x s2 where xp: "award_xp ?pg demo_clock 7 10 ''feed_jack'' None None 100 True None ?s1 = (Inr x, s2)"
    and s2: "xp_transactions s2 \<noteq> []" "community_challenges s2 = []" "users s2 = Map.empty"
    by (simp add: award_xp_def bonus insert_xp_tx_def upsert_xp_balance_def VALID_XP_REASONS_def XP_REASONS_def
        get_xp_balance_def fits_int4_def Let_def)
  have "maybe_increment_challenge demo_clock 7 ''feed_jack'' None s2 = (Inr (), s2)"
    by (simp add: maybe_increment_challenge_def s2 milestones_at_def)
  moreover have "achievement_hook demo_clock 7 ''streak_extended'' s2 = (Inr (), s2)"
    by (simp add: achievement_hook_def check_achievements_def s2 catch_def)
  ultimately have "feed_body ?pg demo_clock 7 10 None empty_db = (Inr res, s2)"
    using feed xp by (simp add: feed_body_def bnd_run_Inr seq_run_Inr)
  then have run: "feed_jack_endpoint ?pg demo_clock 7 10 None empty_db = (Inr (fr_state res), s2)"
    by (auto simp: feed_jack_endpoint_Inr)
  from feed_route_pays_once [OF run] run s2 show ?thesis by blast
qed


section \<open>Claims pay their face value\<close>

lemma claim_challenge_milestone_Inr:
  "claim_challenge_milestone pg ck u mid s = (Inr r, t) \<longleftrightarrow>
     (\<exists>s1 x. challenge_claim_milestone ck u mid s = (Inr r, s1) \<and> apply_reward pg ck u r mid s1 = (Inr x, t))"
  by (auto simp: claim_challenge_milestone_def catch_Inr_iff db_transaction_Inr_iff bnd_Inr_iff seq_Inr_iff)

text \<open>
  A claimed CAB milestone of a challenge pays exactly the amount in its reward, without streak or
  community bonus, to a user who had not claimed it; the claim and the payment are one transaction.
\<close>

theorem challenge_claim_pays_face_value:
  assumes "claim_challenge_milestone pg ck u mid s = (Inr r, t)" and "user_cab_balance s u = Some b"
    and "cs_reward_type r = ''cab''" and "rv_amount (cs_reward_value r) = Some n" and "0 < n"
  shows "user_cab_balance t = (user_cab_balance s)(u \<mapsto> b + n)
     \<and> milestone_claimed mid u t \<and> \<not> milestone_claimed mid u s"
proof -
  from assms(1) obtain s1 x where claim: "challenge_claim_milestone ck u mid s = (Inr r, s1)"
    and reward: "apply_reward pg ck u r mid s1 = (Inr x, t)" by (auto simp: claim_challenge_milestone_Inr)
  from claim have s1: "user_cab_balance s1 = user_cab_balance s" "milestone_claimed mid u s1"
    and fresh: "\<not> milestone_claimed mid u s"
    by (auto simp: challenge_claim_Inr milestone_claimed_def)
  from reward assms(2-5) s1 show ?thesis
    using fresh
    by (auto simp: apply_reward_def award_cab_Inr award_state_def credited_def milestone_claimed_def)
qed

definition claim_db :: db where
  "claim_db = (cab_demo 80)\<lparr> community_challenges := [demo_challenge],
     community_challenge_milestones := [demo_milestone], community_challenge_progress := [1 \<mapsto> 1] \<rparr>"

theorem challenge_claim_pays_face_value_witness:
  "\<exists>r t. claim_challenge_milestone (\<lambda>_ _. None) (clock_at 6) 7 2 claim_db = (Inr r, t)
     \<and> user_cab_balance t 7 = Some 85 \<and> milestone_claimed 2 7 t"
proof -
  let ?run = "claim_challenge_milestone (\<lambda>_ _. None) (clock_at 6) 7 2 claim_db"
  obtain r t where run: "?run = (Inr r, t)" and r: "cs_reward_type r = ''cab''" "rv_amount (cs_reward_value r) = Some 5"
    by (simp add: claim_challenge_milestone_Inr challenge_claim_Inr apply_reward_def award_cab_Inr awardable_def
        cab_insertable_def cab_row_ok_def award_row_def milestone_of_active_def claim_db_def cab_demo_def
        empty_db_def demo_challenge_def demo_milestone_def grace_until_def clock_at_def current_count_def
        milestone_claimed_def CAB_REASONS_def cab_reference_types_def fits_int4_def active_season_id_def)
  have "user_cab_balance claim_db 7 = Some 80" by (simp add: claim_db_def cab_demo_def)
  from challenge_claim_pays_face_value [OF run this r] run show ?thesis by auto
qed

text \<open>
  One multiplier per user and challenge: once a user holds the multiplier of a challenge, claiming
  another unlocked multiplier milestone of it fails with a raw constraint violation and is rolled
  back, however often it is tried; such a milestone can never be claimed by that user.
\<close>

theorem second_multiplier_unclaimable:
  assumes "has_multiplier (cm_challenge_id m) u s" and "milestone_of_active mid s = Some (m, c)"
    and "now ck < grace_until c" and "cm_threshold m \<le> current_count s (cm_challenge_id m)"
    and "\<not> milestone_claimed mid u s" and "cm_reward_type m = ''multiplier''"
    and "rv_multiplier (cm_reward_value m) = Some mult" and "dless (Dbl 0 0) (decimal_to_dbl mult)"
    and "rv_duration_hours (cm_reward_value m) = Some h" and "0 < h"
    and "rv_applies_to (cm_reward_value m) = Some a" and "a \<in> set applies_to_values"
  shows "claim_challenge_milestone pg ck u mid s =
     (Inl (IntegrityError ''uq_community_multipliers_challenge_user''), s)"
proof -
  let ?r = "\<lparr> cs_milestone_id = mid, cs_reward_type = cm_reward_type m,
                  cs_reward_value = cm_reward_value m, cs_challenge_id = cm_challenge_id m \<rparr>"
  let ?s1 = "s\<lparr> community_challenge_claims := community_challenge_claims s @
               [\<lparr> cc_challenge_id = cm_challenge_id m, cc_milestone_id = mid, cc_user_id = u \<rparr>] \<rparr>"
  have claim: "challenge_claim_milestone ck u mid s = (Inr ?r, ?s1)"
    using assms(2-5) by (auto simp: challenge_claim_Inr)
  have "apply_reward pg ck u ?r mid ?s1 = (Inl (IntegrityError ''uq_community_multipliers_challenge_user''), ?s1)"
    using assms(1,6-12)
    by (auto simp: apply_reward_def Let_def create_community_multiplier_def has_multiplier_def list_ex_iff)
  then show ?thesis
    using claim
    by (simp add: claim_challenge_milestone_def catch_def db_transaction_def bnd_def seq_def claim_error_def)
qed

definition multiplier_db :: db where
  "multiplier_db = claim_db\<lparr> community_challenge_milestones := [demo_milestone\<lparr> cm_reward_type := ''multiplier'',
       cm_reward_value := \<lparr> rv_amount = None, rv_multiplier = Some (Decimal 5 1), rv_duration_hours = Some 24,
         rv_applies_to = Some ''both'' \<rparr> \<rparr>],
     community_multipliers := [\<lparr> mu_challenge_id = 1, mu_user_id = 7, mu_multiplier = Decimal 2 1,
       mu_applies_to = ''both'', mu_active_from = 0, mu_active_until = 1 \<rparr>] \<rparr>"

theorem second_multiplier_unclaimable_witness:
  "claim_challenge_milestone (\<lambda>_ _. None) (clock_at 6) 7 2 multiplier_db =
     (Inl (IntegrityError ''uq_community_multipliers_challenge_user''), multiplier_db)"
proof (rule second_multiplier_unclaimable)
  let ?m = "demo_milestone\<lparr> cm_reward_type := ''multiplier'',
       cm_reward_value := \<lparr> rv_amount = None, rv_multiplier = Some (Decimal 5 1), rv_duration_hours = Some 24,
         rv_applies_to = Some ''both'' \<rparr> \<rparr>"
  show "milestone_of_active 2 multiplier_db = Some (?m, demo_challenge)"
    by (simp add: milestone_of_active_def multiplier_db_def claim_db_def demo_milestone_def demo_challenge_def)
  show "dless (Dbl 0 0) (decimal_to_dbl (Decimal 5 1))"
    by (simp add: dbl_of_frac_def bitlen.simps rhe_def Let_def)
  show "''both'' \<in> set applies_to_values" by (simp add: applies_to_values_def)
  show "0 < (24 :: int)" by simp
qed (simp_all add: multiplier_db_def claim_db_def demo_milestone_def demo_challenge_def has_multiplier_def
    grace_until_def clock_at_def current_count_def milestone_claimed_def applies_to_values_def cab_demo_def
    empty_db_def)

end
