(* ===== verification/Ratis_Cashback.thy ===== *)
theory Ratis_Cashback
  imports Ratis_Gamification
begin

text \<open>
  Cashback: detection of affiliate offers on receipt lines, boosts paid in CAB, resolution by the
  brand, and withdrawals to a bank account (\<open>cashback_repository.py\<close>, \<open>cashback_service.py\<close>,
  \<open>payout_client.py\<close> and the routes \<open>rewards/cashback.py\<close>, \<open>rewards/cashback_withdraw.py\<close>,
  \<open>admin/cashback.py\<close>, \<open>admin/cashback_withdrawals.py\<close>). The lemmas relate the stored balance to
  the transactions, show that detection is idempotent and exact to half a cent, that a
  transaction is boosted and resolved once and a withdrawal settled once, and that a refused
  withdrawal restores the balance.
\<close>

section \<open>Tables\<close>

record receipt_line =
  ln_ean :: string
  ln_price :: int
  ln_scan_id :: uuid

record cashback_cfg =
  cashback_boost_window_hours :: int
  cashback_boost_cab_rate :: decimal
  cashback_min_withdrawal :: int

definition get_active_offer_by_ean :: "clock \<Rightarrow> string \<Rightarrow> db \<Rightarrow> offer_row option" where
  "get_active_offer_by_ean ck ean s = List.find (\<lambda>r. of_product_ean r = ean \<and> of_valid_from r \<le> now ck
     \<and> (case of_valid_until r of None \<Rightarrow> True | Some x \<Rightarrow> now ck < x)) (affiliate_offers s)"

text \<open>Rows of the join of \<open>receipts\<close> and \<open>scans\<close>: the owner and the line.\<close>

definition get_pending_store_receipt_scans :: "uuid \<Rightarrow> db \<Rightarrow> (uuid \<times> receipt_line) list" where
  "get_pending_store_receipt_scans sid s =
     concat (map (\<lambda>r. map (\<lambda>x. (re_user_id r, \<lparr> ln_ean = the (sc_product_ean x), ln_price = sc_price x,
                                             ln_scan_id = sc_id x \<rparr>))
         (filter (\<lambda>x. sc_receipt_id x = Some (re_id r) \<and> sc_status x = ''accepted''
                      \<and> sc_product_ean x \<noteq> None) (scans s)))
       (sort_key re_id (filter (\<lambda>r. re_store_id r = Some sid \<and> re_store_status r = ''pending'') (receipts s))))"

definition get_pending_store_receipt_ids :: "uuid \<Rightarrow> db \<Rightarrow> uuid list" where
  "get_pending_store_receipt_ids sid s =
     map re_id (filter (\<lambda>r. re_store_id r = Some sid \<and> re_store_status r = ''pending'') (receipts s))"

definition confirm_store_receipts :: "uuid list \<Rightarrow> unit db_op" where
  "confirm_store_receipts ids = (if ids = [] then ret ()
     else modify (\<lambda>s. s\<lparr> receipts := update_where (\<lambda>r. re_id r \<in> set ids)
            (\<lambda>r. r\<lparr> re_store_status := ''confirmed'' \<rparr>) (receipts s) \<rparr>))"

definition credit_exists :: "uuid option \<Rightarrow> string option \<Rightarrow> cashback_tx list \<Rightarrow> bool" where
  "credit_exists sid ean rows \<longleftrightarrow> sid \<noteq> None \<and> ean \<noteq> None \<and>
     list_ex (\<lambda>r. cb_type r = ''CREDIT'' \<and> cb_scan_id r = sid \<and> cb_product_ean r = ean) rows"

definition has_cashback_for_scan :: "uuid \<Rightarrow> string \<Rightarrow> db \<Rightarrow> bool" where
  "has_cashback_for_scan sid ean s = credit_exists (Some sid) (Some ean) (cashback_transactions s)"

definition cashback_statuses :: "string list" where
  "cashback_statuses = [''pending'', ''confirmed'', ''refused'']"

definition cashback_types :: "string list" where
  "cashback_types = [''CREDIT'', ''BOOST'', ''WITHDRAWAL'']"

definition cashback_parent_types :: "string list" where
  "cashback_parent_types = [''boost_parent'', ''withdrawal_refund'']"

text \<open>
  An \<open>INSERT INTO cashback_transactions\<close> with the constraints of \<open>CashbackTransaction\<close>, in the
  order of their names; the three constraints on the amount say the same.
\<close>

definition insert_cashback_tx :: "cashback_tx \<Rightarrow> unit db_op" where
  "insert_cashback_tx r = seq (int4 (cb_amount r))
    (seq (constr (0 < cb_amount r) ''amount_pos'')
    (seq (constr (ref_type_allowed cashback_parent_types (cb_parent_type r))
            ''cashback_transactions_parent_type_check'')
    (seq (constr (cb_type r \<in> set cashback_types) ''cashback_transactions_type_check'')
    (seq (constr (cb_status r \<in> set cashback_statuses) ''ck_cashback_transactions_status'')
    (seq (constr (cb_type r = ''WITHDRAWAL'' \<or> cb_offer_id r \<noteq> None) ''credit_requires_offer'')
    (seq (constr (cb_type r = ''WITHDRAWAL'' \<or> cb_product_ean r \<noteq> None) ''credit_requires_product'')
    (bnd (reads cashback_transactions) (\<lambda>rows.
      seq (constr (cb_id r \<notin> cb_id ` set rows) ''cashback_transactions_pkey'')
      (seq (constr (\<not> (cb_type r = ''CREDIT'' \<and> credit_exists (cb_scan_id r) (cb_product_ean r) rows))
              ''uq_cashbacktx_scan_ean_credit'')
      (modify (\<lambda>s. s\<lparr> cashback_transactions := cashback_transactions s @ [r] \<rparr>)))))))))))"

definition insert_cashback_credit ::
  "clock \<Rightarrow> uuid \<Rightarrow> uuid \<Rightarrow> string \<Rightarrow> int \<Rightarrow> uuid \<Rightarrow> stamp option \<Rightarrow> uuid db_op" where
  "insert_cashback_credit ck u offer_id ean amount sid distributed_at = bnd fresh_uuid (\<lambda>i.
     seq (insert_cashback_tx
       \<lparr> cb_id = i, cb_user_id = u, cb_type = ''CREDIT'', cb_amount = amount, cb_status = ''pending'',
         cb_product_ean = Some ean, cb_offer_id = Some offer_id, cb_boost_applied = False,
         cb_distributed_at = distributed_at, cb_scan_id = Some sid, cb_parent_id = None,
         cb_parent_type = None, cb_created_at = now ck \<rparr>)
     (ret i))"

text \<open>An upsert: the proposed row must satisfy the constraints even when it only updates.\<close>

definition credit_cashback_balance :: "uuid \<Rightarrow> int \<Rightarrow> unit db_op" where
  "credit_cashback_balance u n = seq (int4 n) (seq (constr (0 \<le> n) ''balance_nn'')
     (bnd (reads (\<lambda>s. user_cashback_balance s u)) (\<lambda>row. case row of
         None \<Rightarrow> modify (\<lambda>s. s\<lparr> user_cashback_balance := (user_cashback_balance s)(u \<mapsto> n) \<rparr>)
       | Some b \<Rightarrow> seq (int4 (b + n)) (seq (constr (0 \<le> b + n) ''balance_nn'')
           (modify (\<lambda>s. s\<lparr> user_cashback_balance := (user_cashback_balance s)(u \<mapsto> b + n) \<rparr>))))))"

definition debit_cashback_balance :: "uuid \<Rightarrow> int \<Rightarrow> unit db_op" where
  "debit_cashback_balance u n = bnd (reads (\<lambda>s. user_cashback_balance s u)) (\<lambda>row. case row of
       None \<Rightarrow> throw InsufficientCashbackBalance
     | Some b \<Rightarrow> if n \<le> b then seq (int4 (b - n)) (seq (constr (0 \<le> b - n) ''balance_nn'')
         (modify (\<lambda>s. s\<lparr> user_cashback_balance := (user_cashback_balance s)(u \<mapsto> b - n) \<rparr>)))
       else throw InsufficientCashbackBalance)"

definition get_cashback_balance :: "db \<Rightarrow> uuid \<Rightarrow> int" where
  "get_cashback_balance s u = (case user_cashback_balance s u of None \<Rightarrow> 0 | Some b \<Rightarrow> b)"

definition get_pending_credits :: "uuid \<Rightarrow> db \<Rightarrow> cashback_tx list" where
  "get_pending_credits u s = sort_key (\<lambda>r. - cb_created_at r)
     (filter (\<lambda>r. cb_user_id r = u \<and> cb_type r = ''CREDIT'' \<and> cb_status r = ''pending'')
       (cashback_transactions s))"

definition get_cashback_tx :: "uuid \<Rightarrow> db \<Rightarrow> cashback_tx option" where
  "get_cashback_tx i s = List.find (\<lambda>r. cb_id r = i) (cashback_transactions s)"

definition get_boost_child :: "uuid \<Rightarrow> db \<Rightarrow> cashback_tx option" where
  "get_boost_child i s =
     List.find (\<lambda>r. cb_parent_id r = Some i \<and> cb_type r = ''BOOST'') (cashback_transactions s)"

definition insert_cashback_boost ::
  "clock \<Rightarrow> uuid \<Rightarrow> uuid \<Rightarrow> uuid option \<Rightarrow> string option \<Rightarrow> int \<Rightarrow> uuid db_op" where
  "insert_cashback_boost ck u parent offer_id ean amount = bnd fresh_uuid (\<lambda>i.
     seq (insert_cashback_tx
       \<lparr> cb_id = i, cb_user_id = u, cb_type = ''BOOST'', cb_amount = amount, cb_status = ''pending'',
         cb_product_ean = ean, cb_offer_id = offer_id, cb_boost_applied = False,
         cb_distributed_at = Some (now ck), cb_scan_id = None, cb_parent_id = Some parent,
         cb_parent_type = Some ''boost_parent'', cb_created_at = now ck \<rparr>)
     (ret i))"

definition update_cashback_tx :: "uuid \<Rightarrow> (cashback_tx \<Rightarrow> cashback_tx) \<Rightarrow> db \<Rightarrow> db" where
  "update_cashback_tx i f s =
     s\<lparr> cashback_transactions := update_where (\<lambda>r. cb_id r = i) f (cashback_transactions s) \<rparr>"

definition mark_boost_applied :: "uuid \<Rightarrow> bool db_op" where
  "mark_boost_applied i =
     bnd (reads (\<lambda>s. count_where (\<lambda>r. cb_id r = i \<and> \<not> cb_boost_applied r) (cashback_transactions s))) (\<lambda>n.
     seq (modify (\<lambda>s. s\<lparr> cashback_transactions :=
            update_where (\<lambda>r. cb_id r = i \<and> \<not> cb_boost_applied r) (\<lambda>r. r\<lparr> cb_boost_applied := True \<rparr>)
              (cashback_transactions s) \<rparr>))
     (ret (n = 1)))"

definition update_cashback_tx_status :: "uuid \<Rightarrow> string \<Rightarrow> unit db_op" where
  "update_cashback_tx_status i new_status =
     bnd (reads (get_cashback_tx i)) (\<lambda>row.
     seq (constr (row = None \<or> new_status \<in> set cashback_statuses) ''ck_cashback_transactions_status'')
       (modify (update_cashback_tx i (\<lambda>r. r\<lparr> cb_status := new_status \<rparr>))))"

definition update_cashback_tx_distributed :: "clock \<Rightarrow> uuid \<Rightarrow> unit db_op" where
  "update_cashback_tx_distributed ck i =
     modify (update_cashback_tx i (\<lambda>r. r\<lparr> cb_distributed_at := Some (now ck) \<rparr>))"

text \<open>A value stored in a \<open>NUMERIC(5,4)\<close> column is rounded to four places, half away from zero.\<close>

fun numeric_5_4 :: "decimal \<Rightarrow> decimal" where
  "numeric_5_4 (Decimal c p) = Decimal (quantize_half_up (Decimal (c * 10000) p)) 4"

fun fits_5_4 :: "decimal \<Rightarrow> bool" where
  "fits_5_4 (Decimal c p) \<longleftrightarrow> \<bar>c\<bar> < 10 * 10 ^ p"

fun dec_pos :: "decimal \<Rightarrow> bool" where
  "dec_pos (Decimal c p) \<longleftrightarrow> 0 < c"

fun dec_le_int :: "decimal \<Rightarrow> int \<Rightarrow> bool" where
  "dec_le_int (Decimal c p) n \<longleftrightarrow> c \<le> n * 10 ^ p"

definition affiliate_providers :: "string list" where
  "affiliate_providers = [''affilae'', ''awin'', ''cj'']"

definition create_affiliate_offer ::
  "clock \<Rightarrow> string \<Rightarrow> string \<Rightarrow> string \<Rightarrow> uuid \<Rightarrow> decimal \<Rightarrow> stamp \<Rightarrow> stamp option \<Rightarrow> uuid db_op" where
  "create_affiliate_offer ck provider ext ean brand rate valid_from valid_until =
     bnd fresh_uuid (\<lambda>i.
     seq (guard (fits_5_4 (numeric_5_4 rate)) DataError)
    (seq (constr (provider \<in> set affiliate_providers) ''provider_check'')
    (seq (constr (dec_pos (numeric_5_4 rate)) ''rate_pos'')
    (seq (constr (case valid_until of None \<Rightarrow> True | Some x \<Rightarrow> valid_from < x) ''valid_range'')
    (bnd (reads affiliate_offers) (\<lambda>rows.
      seq (constr (\<not> list_ex (\<lambda>r. of_provider r = provider \<and> of_external_id r = ext) rows)
             ''affiliate_offers_provider_external_id_key'')
      (seq (modify (\<lambda>s. s\<lparr> affiliate_offers := affiliate_offers s @
         [\<lparr> of_id = i, of_provider = provider, of_external_id = ext, of_product_ean = ean,
            of_brand_id = brand, of_cashback_rate = numeric_5_4 rate, of_valid_from = valid_from,
            of_valid_until = valid_until, of_created_at = now ck \<rparr>] \<rparr>))
      (ret i))))))))"

definition get_all_affiliate_offers :: "db \<Rightarrow> offer_row list" where
  "get_all_affiliate_offers s = sort_key (\<lambda>r. - of_created_at r) (affiliate_offers s)"

definition insert_cashback_withdrawal_tx :: "clock \<Rightarrow> uuid \<Rightarrow> int \<Rightarrow> uuid db_op" where
  "insert_cashback_withdrawal_tx ck u amount = bnd fresh_uuid (\<lambda>i.
     seq (insert_cashback_tx
       \<lparr> cb_id = i, cb_user_id = u, cb_type = ''WITHDRAWAL'', cb_amount = amount,
         cb_status = ''confirmed'', cb_product_ean = None, cb_offer_id = None, cb_boost_applied = False,
         cb_distributed_at = Some (now ck), cb_scan_id = None, cb_parent_id = None,
         cb_parent_type = None, cb_created_at = now ck \<rparr>)
     (ret i))"


subsection \<open>Withdrawals\<close>

definition withdrawal_statuses :: "string list" where
  "withdrawal_statuses = [''pending'', ''processed'', ''failed'', ''abandoned'']"

definition withdrawal_row_ok :: "withdrawal_row \<Rightarrow> bool" where
  "withdrawal_row_ok r \<longleftrightarrow> 0 < wd_amount r
     \<and> (wd_status r = ''failed'') = (wd_failure_reason r \<noteq> None)
     \<and> (wd_status r = ''processed'') = (wd_processed_at r \<noteq> None)
     \<and> (wd_provider_ref r = None) = (wd_provider_initiated_at r = None)
     \<and> wd_status r \<in> set withdrawal_statuses
     \<and> (wd_status r \<noteq> ''processed'' \<or> wd_transaction_id r \<noteq> None)"

text \<open>The \<open>CHECK\<close> constraints of \<open>CashbackWithdrawal\<close> in the order of their names.\<close>

definition check_withdrawal :: "withdrawal_row \<Rightarrow> unit db_op" where
  "check_withdrawal r = seq (constr (0 < wd_amount r) ''amount_pos'')
    (seq (constr ((wd_status r = ''failed'') = (wd_failure_reason r \<noteq> None)) ''failure_check'')
    (seq (constr ((wd_status r = ''processed'') = (wd_processed_at r \<noteq> None)) ''processed_check'')
    (seq (constr ((wd_provider_ref r = None) = (wd_provider_initiated_at r = None)) ''provider_coherence'')
    (seq (constr (wd_status r \<in> set withdrawal_statuses) ''status_check'')
    (constr (wd_status r \<noteq> ''processed'' \<or> wd_transaction_id r \<noteq> None) ''transaction_required'')))))"

definition insert_cashback_withdrawal :: "clock \<Rightarrow> uuid \<Rightarrow> uuid \<Rightarrow> int \<Rightarrow> uuid db_op" where
  "insert_cashback_withdrawal ck u tx amount = bnd fresh_uuid (\<lambda>i.
     let r = \<lparr> wd_id = i, wd_user_id = u, wd_amount = amount, wd_status = ''pending'',
               wd_transaction_id = Some tx, wd_provider_ref = None, wd_provider_initiated_at = None,
               wd_requested_at = now ck, wd_processed_at = None, wd_failure_reason = None,
               wd_last_reconciled_at = None \<rparr>
     in seq (int4 amount) (seq (check_withdrawal r)
       (bnd (reads cashback_withdrawals) (\<lambda>rows.
         seq (constr (i \<notin> wd_id ` set rows) ''cashback_withdrawals_pkey'')
        (seq (modify (\<lambda>s. s\<lparr> cashback_withdrawals := cashback_withdrawals s @ [r] \<rparr>)) (ret i))))))"

definition find_withdrawal :: "uuid \<Rightarrow> db \<Rightarrow> withdrawal_row option" where
  "find_withdrawal w s = List.find (\<lambda>r. wd_id r = w) (cashback_withdrawals s)"

text \<open>\<^verbatim>\<open>UPDATE cashback_withdrawals SET ... WHERE id = :id\<close>, an error when no row matched.\<close>

definition update_withdrawal :: "uuid \<Rightarrow> (withdrawal_row \<Rightarrow> withdrawal_row) \<Rightarrow> unit db_op" where
  "update_withdrawal w f = bnd (reads (find_withdrawal w)) (\<lambda>row. case row of
       None \<Rightarrow> throw WithdrawalNotFound
     | Some r \<Rightarrow> seq (check_withdrawal (f r))
         (modify (\<lambda>s. s\<lparr> cashback_withdrawals := update_where (\<lambda>r. wd_id r = w) f (cashback_withdrawals s) \<rparr>)))"

definition set_withdrawal_provider_ref :: "clock \<Rightarrow> uuid \<Rightarrow> payout_ref \<Rightarrow> unit db_op" where
  "set_withdrawal_provider_ref ck w ref = update_withdrawal w
     (\<lambda>r. r\<lparr> wd_provider_ref := Some ref, wd_provider_initiated_at := Some (now ck) \<rparr>)"

definition get_withdrawal_for_update :: "uuid \<Rightarrow> withdrawal_row option db_op" where
  "get_withdrawal_for_update w = reads (find_withdrawal w)"

definition mark_withdrawal_processed :: "clock \<Rightarrow> uuid \<Rightarrow> payout_ref \<Rightarrow> unit db_op" where
  "mark_withdrawal_processed ck w ref = update_withdrawal w
     (\<lambda>r. r\<lparr> wd_status := ''processed'', wd_processed_at := Some (now ck), wd_provider_ref := Some ref,
            wd_provider_initiated_at := Some (now ck) \<rparr>)"

definition mark_withdrawal_failed :: "uuid \<Rightarrow> string \<Rightarrow> unit db_op" where
  "mark_withdrawal_failed w reason = update_withdrawal w
     (\<lambda>r. r\<lparr> wd_status := ''failed'', wd_failure_reason := Some reason \<rparr>)"

text \<open>A page of the queue, newest first, and the number of rows before pagination.\<close>

definition list_withdrawals :: "string option \<Rightarrow> nat \<Rightarrow> nat \<Rightarrow> db \<Rightarrow> withdrawal_row list \<times> nat" where
  "list_withdrawals status limit offset s =
     (let rows = filter (\<lambda>r. case status of None \<Rightarrow> True | Some st \<Rightarrow> wd_status r = st) (cashback_withdrawals s)
      in (take limit (drop offset (sort_key (\<lambda>r. - wd_requested_at r) (sort_key (\<lambda>r. - int (wd_id r)) rows))),
          length rows))"


section \<open>The payout client\<close>

text \<open>
  With an empty \<open>PAYMENT_PROVIDER_KEY\<close> the client answers with a sandbox reference; otherwise the
  answer of the payment provider to the request for a withdrawal is a parameter.
\<close>

datatype stripe_response = PayoutId string | StripeFailure

record payout_env =
  payment_provider_key :: string
  stripe_payouts :: "uuid \<Rightarrow> int \<Rightarrow> stripe_response"

definition initiate_payout :: "payout_env \<Rightarrow> uuid \<Rightarrow> int \<Rightarrow> payout_ref db_op" where
  "initiate_payout env w amount =
     (if payment_provider_key env = [] then ret (SandboxRef w)
      else case stripe_payouts env w amount of
          PayoutId p \<Rightarrow> ret (ProviderRef p)
        | StripeFailure \<Rightarrow> throw PayoutError)"


section \<open>The service\<close>

definition cashback_amount :: "decimal \<Rightarrow> int \<Rightarrow> int" where
  "cashback_amount rate price = quantize_half_up (dec_mul_int rate price)"

text \<open>One iteration of the loop of \<open>detect_cashback\<close>; the accumulator is
  \<open>(inserted_total, inserted_any)\<close>.\<close>

definition detect_line ::
  "clock \<Rightarrow> uuid \<Rightarrow> bool \<Rightarrow> receipt_line \<Rightarrow> int \<times> bool \<Rightarrow> (int \<times> bool) db_op" where
  "detect_line ck u subscriber line acc =
     bnd (reads (get_active_offer_by_ean ck (ln_ean line))) (\<lambda>offer. case offer of
         None \<Rightarrow> ret acc
       | Some off \<Rightarrow> bnd (reads (has_cashback_for_scan (ln_scan_id line) (ln_ean line))) (\<lambda>dup.
           if dup then ret acc
           else let base = cashback_amount (of_cashback_rate off) (ln_price line) in
             seq (insert_cashback_credit ck u (of_id off) (ln_ean line) base (ln_scan_id line)
                    (if subscriber then Some (now ck) else None))
            (seq (if subscriber then credit_cashback_balance u base else ret ())
            (ret (fst acc + base, True)))))"

definition detect_cashback :: "clock \<Rightarrow> uuid \<Rightarrow> receipt_line list \<Rightarrow> int db_op" where
  "detect_cashback ck u receipt_lines =
     bnd (reads (active_subscription ck u)) (\<lambda>subscriber.
     bnd (for_each (detect_line ck u subscriber) receipt_lines (0, False)) (\<lambda>acc.
     seq (if snd acc then achievement_hook ck u ''cashback_credited'' else ret ())
     (ret (fst acc))))"

record boost_result =
  bo_boost_amount :: int
  bo_boost_cost_cab :: int

definition boost_cost :: "cashback_cfg \<Rightarrow> int \<Rightarrow> int" where
  "boost_cost cfg amount = quantize_half_up (dec_mul_int (cashback_boost_cab_rate cfg) amount)"

definition boost_cashback :: "cashback_cfg \<Rightarrow> clock \<Rightarrow> uuid \<Rightarrow> uuid \<Rightarrow> boost_result db_op" where
  "boost_cashback cfg ck u tx_id = bnd (reads (get_cashback_tx tx_id)) (\<lambda>row. case row of
       None \<Rightarrow> throw (NotFound ''transaction_not_found'')
     | Some tx \<Rightarrow>
         if cb_user_id tx \<noteq> u \<or> cb_type tx \<noteq> ''CREDIT'' then throw (NotFound ''transaction_not_found'')
         else if cb_status tx = ''refused'' then throw (NotFound ''transaction_not_found'')
         else if cb_boost_applied tx then throw AlreadyBoosted
         else if cb_created_at tx + cashback_boost_window_hours cfg * hour_us < now ck
           then throw BoostWindowExpired
         else bnd (mark_boost_applied tx_id) (\<lambda>won.
           if \<not> won then throw AlreadyBoosted
           else let cost = boost_cost cfg (cb_amount tx); delta = cb_amount tx in
             seq (debit_cab ck u cost ''cashback_boost_debit'' None None None)
            (seq (insert_cashback_boost ck u tx_id (cb_offer_id tx) (cb_product_ean tx) delta)
            (seq (credit_cashback_balance u delta)
            (ret \<lparr> bo_boost_amount = delta, bo_boost_cost_cab = cost \<rparr>)))))"

text \<open>The two branches of \<open>resolve_cashback\<close>.\<close>

definition confirm_credit :: "clock \<Rightarrow> uuid \<Rightarrow> cashback_tx \<Rightarrow> unit db_op" where
  "confirm_credit ck tx_id tx = seq (update_cashback_tx_status tx_id ''confirmed'')
     (if cb_distributed_at tx = None then
        seq (credit_cashback_balance (cb_user_id tx) (cb_amount tx)) (update_cashback_tx_distributed ck tx_id)
      else ret ())"

definition refuse_credit :: "cashback_cfg \<Rightarrow> clock \<Rightarrow> uuid \<Rightarrow> unit db_op" where
  "refuse_credit cfg ck tx_id = seq (update_cashback_tx_status tx_id ''refused'')
     (bnd (reads (get_boost_child tx_id)) (\<lambda>boost. case boost of
         None \<Rightarrow> ret ()
       | Some child \<Rightarrow> seq (update_cashback_tx_status (cb_id child) ''refused'')
           (award_cab ck (cb_user_id child) (boost_cost cfg (cb_amount child))
              ''cashback_boost_refund'' None None True None True None)))"

definition resolve_cashback :: "cashback_cfg \<Rightarrow> clock \<Rightarrow> uuid \<Rightarrow> string \<Rightarrow> unit db_op" where
  "resolve_cashback cfg ck tx_id resolution =
     (if resolution \<noteq> ''confirmed'' \<and> resolution \<noteq> ''refused'' then throw ValueError
      else bnd (reads (get_cashback_tx tx_id)) (\<lambda>row. case row of
          None \<Rightarrow> throw (NotFound ''transaction_not_found'')
        | Some tx \<Rightarrow>
            if cb_type tx \<noteq> ''CREDIT'' then throw (NotFound ''transaction_not_found'')
            else if cb_status tx \<noteq> ''pending'' then throw (Conflict ''already_resolved'')
            else if resolution = ''confirmed'' then confirm_credit ck tx_id tx
            else refuse_credit cfg ck tx_id))"

definition admin_validate_withdrawal :: "payout_env \<Rightarrow> clock \<Rightarrow> uuid \<Rightarrow> payout_ref db_op" where
  "admin_validate_withdrawal env ck w = bnd (get_withdrawal_for_update w) (\<lambda>row. case row of
       None \<Rightarrow> throw (NotFound ''withdrawal_not_found'')
     | Some r \<Rightarrow>
         if wd_status r \<noteq> ''pending'' then throw (Conflict ''already_resolved'')
         else bnd (initiate_payout env w (wd_amount r)) (\<lambda>ref.
           seq (mark_withdrawal_processed ck w ref) (ret ref)))"

definition admin_refuse_withdrawal :: "uuid \<Rightarrow> string \<Rightarrow> bool \<Rightarrow> unit db_op" where
  "admin_refuse_withdrawal w reason refund_balance = bnd (get_withdrawal_for_update w) (\<lambda>row. case row of
       None \<Rightarrow> throw (NotFound ''withdrawal_not_found'')
     | Some r \<Rightarrow>
         if wd_status r \<noteq> ''pending'' then throw (Conflict ''already_resolved'')
         else seq (mark_withdrawal_failed w reason)
           (if refund_balance then credit_cashback_balance (wd_user_id r) (wd_amount r) else ret ()))"

definition withdraw_cashback :: "cashback_cfg \<Rightarrow> clock \<Rightarrow> uuid \<Rightarrow> int \<Rightarrow> uuid db_op" where
  "withdraw_cashback cfg ck u amount =
     (if amount < cashback_min_withdrawal cfg then throw BelowMinimum
      else seq (debit_cashback_balance u amount)
        (bnd (insert_cashback_withdrawal_tx ck u amount) (\<lambda>tx.
           insert_cashback_withdrawal ck u tx amount)))"


section \<open>Routes\<close>

definition scan_detected :: "clock \<Rightarrow> uuid \<Rightarrow> receipt_line list \<Rightarrow> unit db_op" where
  "scan_detected ck u receipt_lines =
     (if list_ex (\<lambda>l. ln_price l < 0) receipt_lines then throw (HTTPException 422 ''validation_error'')
      else bnd (db_transaction (detect_cashback ck u receipt_lines)) (\<lambda>_. ret ()))"

text \<open>An item of the balance page; the last two components are present while a boost is offered.\<close>

record pending_item =
  pe_id :: uuid
  pe_amount :: int
  pe_product_ean :: "string option"
  pe_status :: string
  pe_boost_available_until :: "stamp option"
  pe_boost_cost_cab :: "int option"

definition pending_item_of :: "cashback_cfg \<Rightarrow> clock \<Rightarrow> cashback_tx \<Rightarrow> pending_item" where
  "pending_item_of cfg ck r =
     (let boost_until = cb_created_at r + cashback_boost_window_hours cfg * hour_us;
          offered = \<not> cb_boost_applied r \<and> now ck < boost_until
      in \<lparr> pe_id = cb_id r, pe_amount = cb_amount r, pe_product_ean = cb_product_ean r,
           pe_status = cb_status r,
           pe_boost_available_until = (if offered then Some boost_until else None),
           pe_boost_cost_cab = (if offered then Some (boost_cost cfg (cb_amount r)) else None) \<rparr>)"

definition cashback_get_balance ::
  "cashback_cfg \<Rightarrow> clock \<Rightarrow> uuid \<Rightarrow> (int \<times> pending_item list) db_op" where
  "cashback_get_balance cfg ck u = reads (\<lambda>s.
     (get_cashback_balance s u, map (pending_item_of cfg ck) (get_pending_credits u s)))"

text \<open>The dictionary \<open>by_user\<close>: users in the order of their first row.\<close>

definition by_user :: "(uuid \<times> receipt_line) list \<Rightarrow> (uuid \<times> receipt_line list) list" where
  "by_user pending = map (\<lambda>u. (u, map snd (filter (\<lambda>p. fst p = u) pending)))
     (rev (remdups (rev (map fst pending))))"

record retroactive_result =
  rr_processed_receipts :: nat
  rr_total_cashback_cents :: int

definition process_retroactive :: "clock \<Rightarrow> uuid \<Rightarrow> retroactive_result db_op" where
  "process_retroactive ck store_id = bnd (reads (get_pending_store_receipt_scans store_id)) (\<lambda>pending.
     db_transaction
      (bnd (for_each (\<lambda>entry total. bnd (detect_cashback ck (fst entry) (snd entry)) (\<lambda>n. ret (total + n)))
              (by_user pending) 0) (\<lambda>total.
       bnd (reads (get_pending_store_receipt_ids store_id)) (\<lambda>all_pending_ids.
       seq (confirm_store_receipts all_pending_ids)
       (ret \<lparr> rr_processed_receipts = length all_pending_ids, rr_total_cashback_cents = total \<rparr>)))))"

definition boost_error :: "error \<Rightarrow> error" where
  "boost_error e = (case e of
       NotFound d \<Rightarrow> HTTPException 404 d
     | AlreadyBoosted \<Rightarrow> HTTPException 409 ''already_boosted''
     | BoostWindowExpired \<Rightarrow> HTTPException 409 ''boost_window_expired''
     | InsufficientBalance \<Rightarrow> HTTPException 422 ''insufficient_cab_balance''
     | _ \<Rightarrow> e)"

definition boost :: "cashback_cfg \<Rightarrow> clock \<Rightarrow> uuid \<Rightarrow> uuid \<Rightarrow> boost_result db_op" where
  "boost cfg ck u tx_id =
     catch (db_transaction (boost_cashback cfg ck u tx_id)) (\<lambda>e. throw (boost_error e))"

definition resolve_error :: "error \<Rightarrow> error" where
  "resolve_error e = (case e of
       NotFound d \<Rightarrow> HTTPException 404 d
     | Conflict d \<Rightarrow> HTTPException 409 d
     | _ \<Rightarrow> e)"

definition admin_validate_cashback :: "cashback_cfg \<Rightarrow> clock \<Rightarrow> uuid \<Rightarrow> unit db_op" where
  "admin_validate_cashback cfg ck tx_id =
     catch (db_transaction (resolve_cashback cfg ck tx_id ''confirmed'')) (\<lambda>e. throw (resolve_error e))"

definition admin_refuse_cashback :: "cashback_cfg \<Rightarrow> clock \<Rightarrow> uuid \<Rightarrow> unit db_op" where
  "admin_refuse_cashback cfg ck tx_id =
     catch (db_transaction (resolve_cashback cfg ck tx_id ''refused'')) (\<lambda>e. throw (resolve_error e))"

definition offer_request_providers :: "string list" where
  "offer_request_providers = [''affilae'', ''awin'', ''cj'', ''direct'']"

definition admin_create_offer ::
  "clock \<Rightarrow> string \<Rightarrow> string \<Rightarrow> string \<Rightarrow> uuid \<Rightarrow> decimal \<Rightarrow> stamp \<Rightarrow> stamp option \<Rightarrow> uuid db_op" where
  "admin_create_offer ck provider ext ean brand rate valid_from valid_until =
     (if provider \<notin> set offer_request_providers \<or> ext = [] \<or> ean = [] \<or> \<not> dec_pos rate
         \<or> \<not> dec_le_int rate 1
      then throw (HTTPException 422 ''validation_error'')
      else db_transaction (create_affiliate_offer ck provider ext ean brand rate valid_from valid_until))"

definition admin_list_offers :: "offer_row list db_op" where
  "admin_list_offers = db_transaction (reads get_all_affiliate_offers)"

definition validate_withdrawal_error :: "error \<Rightarrow> error" where
  "validate_withdrawal_error e = (case e of
       PayoutError \<Rightarrow> HTTPException 503 ''payment_provider_unavailable''
     | _ \<Rightarrow> resolve_error e)"

definition admin_validate :: "payout_env \<Rightarrow> clock \<Rightarrow> uuid \<Rightarrow> payout_ref db_op" where
  "admin_validate env ck w = catch (db_transaction (admin_validate_withdrawal env ck w))
     (\<lambda>e. throw (validate_withdrawal_error e))"

definition admin_refuse :: "uuid \<Rightarrow> string \<Rightarrow> bool \<Rightarrow> unit db_op" where
  "admin_refuse w reason refund_balance =
     (if length reason < 3 \<or> 200 < length reason then throw (HTTPException 422 ''validation_error'')
      else catch (db_transaction (admin_refuse_withdrawal w reason refund_balance))
        (\<lambda>e. throw (resolve_error e)))"

definition admin_list_withdrawals ::
  "string option \<Rightarrow> int \<Rightarrow> int \<Rightarrow> (withdrawal_row list \<times> nat) db_op" where
  "admin_list_withdrawals status_filter limit offset =
     (if (case status_filter of None \<Rightarrow> False | Some st \<Rightarrow> st \<notin> {''pending'', ''processed'', ''failed''})
         \<or> limit < 1 \<or> 500 < limit \<or> offset < 0
      then throw (HTTPException 422 ''validation_error'')
      else reads (list_withdrawals status_filter (nat limit) (nat offset)))"

text \<open>
  The withdrawal route: the debit is committed before the payment provider is called, the reference
  is stored in a second transaction, and a failure of either leaves a pending withdrawal.
\<close>

definition withdraw :: "cashback_cfg \<Rightarrow> payout_env \<Rightarrow> clock \<Rightarrow> uuid \<Rightarrow> int \<Rightarrow> (uuid \<times> int) db_op" where
  "withdraw cfg env ck u amount =
     (if amount \<le> 0 then throw (HTTPException 422 ''validation_error'')
      else if amount < cashback_min_withdrawal cfg then throw (HTTPException 422 ''below_minimum'')
      else bnd (catch (db_transaction (withdraw_cashback cfg ck u amount))
             (\<lambda>e. if e = InsufficientCashbackBalance then throw (HTTPException 422 ''insufficient_balance'')
                  else throw e)) (\<lambda>w.
        bnd (catch (bnd (initiate_payout env w amount) (\<lambda>ref. ret (Some ref)))
               (\<lambda>e. if e = PayoutError then ret None else throw e)) (\<lambda>answer. case answer of
            None \<Rightarrow> ret (w, amount)
          | Some ref \<Rightarrow> seq (catch (db_transaction (set_withdrawal_provider_ref ck w ref)) (\<lambda>_. ret ()))
              (ret (w, amount)))))"


section \<open>What the statements do\<close>

definition cashback_insertable :: "cashback_tx \<Rightarrow> db \<Rightarrow> bool" where
  "cashback_insertable r s \<longleftrightarrow> fits_int4 (cb_amount r) \<and> 0 < cb_amount r
     \<and> ref_type_allowed cashback_parent_types (cb_parent_type r)
     \<and> cb_type r \<in> set cashback_types \<and> cb_status r \<in> set cashback_statuses
     \<and> (cb_type r = ''WITHDRAWAL'' \<or> cb_offer_id r \<noteq> None)
     \<and> (cb_type r = ''WITHDRAWAL'' \<or> cb_product_ean r \<noteq> None)
     \<and> cb_id r \<notin> cb_id ` set (cashback_transactions s)
     \<and> \<not> (cb_type r = ''CREDIT'' \<and> credit_exists (cb_scan_id r) (cb_product_ean r) (cashback_transactions s))"

lemma insert_cashback_tx_Inr:
  "insert_cashback_tx r s = (Inr x, t) \<longleftrightarrow>
     cashback_insertable r s \<and> t = s\<lparr> cashback_transactions := cashback_transactions s @ [r] \<rparr>"
  unfolding insert_cashback_tx_def cashback_insertable_def by (auto split: if_splits)

lemma credit_cashback_balance_Inr:
  "credit_cashback_balance u n s = (Inr x, t) \<longleftrightarrow>
     0 \<le> n \<and> fits_int4 n \<and> fits_int4 (get_cashback_balance s u + n) \<and> 0 \<le> get_cashback_balance s u + n
     \<and> t = s\<lparr> user_cashback_balance := (user_cashback_balance s)(u \<mapsto> get_cashback_balance s u + n) \<rparr>"
  by (auto simp: credit_cashback_balance_def get_cashback_balance_def split: option.splits if_splits)

lemma debit_cashback_balance_Inr:
  "debit_cashback_balance u n s = (Inr x, t) \<longleftrightarrow>
     (\<exists>b. user_cashback_balance s u = Some b \<and> n \<le> b \<and> fits_int4 (b - n)
        \<and> t = s\<lparr> user_cashback_balance := (user_cashback_balance s)(u \<mapsto> b - n) \<rparr>)"
  by (auto simp: debit_cashback_balance_def split: option.splits if_splits)

lemma check_withdrawal_run:
  "check_withdrawal r s = (Inr x, t) \<longleftrightarrow> withdrawal_row_ok r \<and> t = s"
  unfolding check_withdrawal_def withdrawal_row_ok_def by (auto split: if_splits)

lemma update_withdrawal_Inr:
  "update_withdrawal w f s = (Inr x, t) \<longleftrightarrow>
     (\<exists>r. find_withdrawal w s = Some r \<and> withdrawal_row_ok (f r)
        \<and> t = s\<lparr> cashback_withdrawals := update_where (\<lambda>r. wd_id r = w) f (cashback_withdrawals s) \<rparr>)"
  by (auto simp: update_withdrawal_def seq_Inr_iff check_withdrawal_run split: option.splits)

lemmas withdrawal_run_iff = update_withdrawal_Inr set_withdrawal_provider_ref_def
  mark_withdrawal_processed_def mark_withdrawal_failed_def get_withdrawal_for_update_def

lemma initiate_payout_Inr:
  "initiate_payout env w n s = (Inr ref, t) \<longleftrightarrow> t = s \<and>
     (if payment_provider_key env = [] then ref = SandboxRef w
      else \<exists>p. stripe_payouts env w n = PayoutId p \<and> ref = ProviderRef p)"
  by (auto simp: initiate_payout_def split: stripe_response.splits)

lemma keeps_initiate_payout [keeps_intro]: "keeps I (initiate_payout env w n)"
  by (auto simp: keeps_def initiate_payout_def split: stripe_response.splits)

text \<open>The rows the three kinds of insertion write.\<close>

definition credit_row :: "clock \<Rightarrow> uuid \<Rightarrow> uuid \<Rightarrow> uuid \<Rightarrow> string \<Rightarrow> int \<Rightarrow> uuid \<Rightarrow> stamp option \<Rightarrow> cashback_tx" where
  "credit_row ck i u off ean n sid d =
     \<lparr> cb_id = i, cb_user_id = u, cb_type = ''CREDIT'', cb_amount = n, cb_status = ''pending'',
       cb_product_ean = Some ean, cb_offer_id = Some off, cb_boost_applied = False,
       cb_distributed_at = d, cb_scan_id = Some sid, cb_parent_id = None,
       cb_parent_type = None, cb_created_at = now ck \<rparr>"

lemma insert_cashback_credit_Inr:
  "insert_cashback_credit ck u off ean n sid d s = (Inr i, t) \<longleftrightarrow>
     i = next_uuid s \<and> cashback_insertable (credit_row ck i u off ean n sid d) s
     \<and> t = s\<lparr> next_uuid := Suc (next_uuid s),
          cashback_transactions := cashback_transactions s @ [credit_row ck i u off ean n sid d] \<rparr>"
  by (auto simp: insert_cashback_credit_def seq_Inr_iff insert_cashback_tx_Inr credit_row_def cashback_insertable_def)

definition boost_row :: "clock \<Rightarrow> uuid \<Rightarrow> uuid \<Rightarrow> uuid \<Rightarrow> uuid option \<Rightarrow> string option \<Rightarrow> int \<Rightarrow> cashback_tx" where
  "boost_row ck i u parent off ean n =
     \<lparr> cb_id = i, cb_user_id = u, cb_type = ''BOOST'', cb_amount = n, cb_status = ''pending'',
       cb_product_ean = ean, cb_offer_id = off, cb_boost_applied = False,
       cb_distributed_at = Some (now ck), cb_scan_id = None, cb_parent_id = Some parent,
       cb_parent_type = Some ''boost_parent'', cb_created_at = now ck \<rparr>"

lemma insert_cashback_boost_Inr:
  "insert_cashback_boost ck u parent off ean n s = (Inr i, t) \<longleftrightarrow>
     i = next_uuid s \<and> cashback_insertable (boost_row ck i u parent off ean n) s
     \<and> t = s\<lparr> next_uuid := Suc (next_uuid s),
          cashback_transactions := cashback_transactions s @ [boost_row ck i u parent off ean n] \<rparr>"
  by (auto simp: insert_cashback_boost_def seq_Inr_iff insert_cashback_tx_Inr boost_row_def cashback_insertable_def)

definition withdrawal_tx_row :: "clock \<Rightarrow> uuid \<Rightarrow> uuid \<Rightarrow> int \<Rightarrow> cashback_tx" where
  "withdrawal_tx_row ck i u n =
     \<lparr> cb_id = i, cb_user_id = u, cb_type = ''WITHDRAWAL'', cb_amount = n, cb_status = ''confirmed'',
       cb_product_ean = None, cb_offer_id = None, cb_boost_applied = False,
       cb_distributed_at = Some (now ck), cb_scan_id = None, cb_parent_id = None,
       cb_parent_type = None, cb_created_at = now ck \<rparr>"

lemma insert_cashback_withdrawal_tx_Inr:
  "insert_cashback_withdrawal_tx ck u n s = (Inr i, t) \<longleftrightarrow>
     i = next_uuid s \<and> cashback_insertable (withdrawal_tx_row ck i u n) s
     \<and> t = s\<lparr> next_uuid := Suc (next_uuid s),
          cashback_transactions := cashback_transactions s @ [withdrawal_tx_row ck i u n] \<rparr>"
  by (auto simp: insert_cashback_withdrawal_tx_def seq_Inr_iff insert_cashback_tx_Inr withdrawal_tx_row_def
      cashback_insertable_def)

definition pending_withdrawal :: "clock \<Rightarrow> uuid \<Rightarrow> uuid \<Rightarrow> uuid \<Rightarrow> int \<Rightarrow> withdrawal_row" where
  "pending_withdrawal ck i u tx n =
     \<lparr> wd_id = i, wd_user_id = u, wd_amount = n, wd_status = ''pending'',
       wd_transaction_id = Some tx, wd_provider_ref = None, wd_provider_initiated_at = None,
       wd_requested_at = now ck, wd_processed_at = None, wd_failure_reason = None,
       wd_last_reconciled_at = None \<rparr>"

lemma insert_cashback_withdrawal_Inr:
  "insert_cashback_withdrawal ck u tx n s = (Inr i, t) \<longleftrightarrow>
     i = next_uuid s \<and> 0 < n \<and> fits_int4 n \<and> i \<notin> wd_id ` set (cashback_withdrawals s)
     \<and> t = s\<lparr> next_uuid := Suc (next_uuid s),
          cashback_withdrawals := cashback_withdrawals s @ [pending_withdrawal ck i u tx n] \<rparr>"
  by (auto simp: insert_cashback_withdrawal_def Let_def seq_Inr_iff check_withdrawal_run pending_withdrawal_def
      withdrawal_row_ok_def withdrawal_statuses_def)


section \<open>The balance and the transactions\<close>

text \<open>
  What the transactions say a user holds: every distributed credit and boost, less every
  withdrawal. A refused withdrawal may or may not have been refunded, and no row records it, so
  the stored balance lies between that sum and the sum plus the failed withdrawals.
\<close>

definition cb_signed :: "cashback_tx \<Rightarrow> int" where
  "cb_signed r = (if cb_type r = ''WITHDRAWAL'' then - cb_amount r
                  else if cb_distributed_at r = None then 0 else cb_amount r)"

definition cashback_ledger :: "db \<Rightarrow> uuid \<Rightarrow> int" where
  "cashback_ledger s u = sum_where (\<lambda>r. cb_user_id r = u) cb_signed (cashback_transactions s)"

definition failed_withdrawals :: "db \<Rightarrow> uuid \<Rightarrow> int" where
  "failed_withdrawals s u =
     sum_where (\<lambda>r. wd_user_id r = u \<and> wd_status r = ''failed'') wd_amount (cashback_withdrawals s)"

definition balanced :: "db \<Rightarrow> bool" where
  "balanced s \<longleftrightarrow> (\<forall>u. cashback_ledger s u \<le> get_cashback_balance s u
     \<and> get_cashback_balance s u \<le> cashback_ledger s u + failed_withdrawals s u
     \<and> 0 \<le> get_cashback_balance s u \<and> get_cashback_balance s u \<le> int4_max)"

definition cashback_rows_ok :: "db \<Rightarrow> bool" where
  "cashback_rows_ok s \<longleftrightarrow> distinct (map cb_id (cashback_transactions s))
     \<and> distinct (map wd_id (cashback_withdrawals s))
     \<and> (\<forall>r \<in> set (cashback_transactions s). 0 < cb_amount r)
     \<and> (\<forall>r \<in> set (cashback_withdrawals s). withdrawal_row_ok r)"

definition cashback_ok :: "db \<Rightarrow> bool" where
  "cashback_ok s \<longleftrightarrow> balanced s \<and> cashback_rows_ok s"

lemma cashback_ok_frame [simp]:
  "cashback_ok (s\<lparr> next_uuid := x0 \<rparr>) = cashback_ok s"
  "cashback_ok (s\<lparr> users := x1 \<rparr>) = cashback_ok s"
  "cashback_ok (s\<lparr> user_cab_balance := x2 \<rparr>) = cashback_ok s"
  "cashback_ok (s\<lparr> cabecoin_transactions := x4 \<rparr>) = cashback_ok s"
  "cashback_ok (s\<lparr> user_streaks := x5 \<rparr>) = cashback_ok s"
  "cashback_ok (s\<lparr> user_xp_balance := x6 \<rparr>) = cashback_ok s"
  "cashback_ok (s\<lparr> xp_transactions := x7 \<rparr>) = cashback_ok s"
  "cashback_ok (s\<lparr> battlepass_seasons := x8 \<rparr>) = cashback_ok s"
  "cashback_ok (s\<lparr> battlepass_milestones := x9 \<rparr>) = cashback_ok s"
  "cashback_ok (s\<lparr> user_battlepass_progress := x10 \<rparr>) = cashback_ok s"
  "cashback_ok (s\<lparr> user_battlepass_claims := x11 \<rparr>) = cashback_ok s"
  "cashback_ok (s\<lparr> community_challenges := x12 \<rparr>) = cashback_ok s"
  "cashback_ok (s\<lparr> community_challenge_milestones := x13 \<rparr>) = cashback_ok s"
  "cashback_ok (s\<lparr> community_challenge_progress := x14 \<rparr>) = cashback_ok s"
  "cashback_ok (s\<lparr> community_challenge_claims := x15 \<rparr>) = cashback_ok s"
  "cashback_ok (s\<lparr> community_multipliers := x16 \<rparr>) = cashback_ok s"
  "cashback_ok (s\<lparr> notification_outbox := x17 \<rparr>) = cashback_ok s"
  "cashback_ok (s\<lparr> affiliate_offers := x18 \<rparr>) = cashback_ok s"
  "cashback_ok (s\<lparr> subscriptions := x21 \<rparr>) = cashback_ok s"
  "cashback_ok (s\<lparr> receipts := x22 \<rparr>) = cashback_ok s"
  "cashback_ok (s\<lparr> scans := x23 \<rparr>) = cashback_ok s"
  "cashback_ok (s\<lparr> products := x24 \<rparr>) = cashback_ok s"
  "cashback_ok (s\<lparr> gift_card_brands := x25 \<rparr>) = cashback_ok s"
  "cashback_ok (s\<lparr> gift_card_orders := x26 \<rparr>) = cashback_ok s"
  "cashback_ok (s\<lparr> achievements := x27 \<rparr>) = cashback_ok s"
  "cashback_ok (s\<lparr> user_achievements := x28 \<rparr>) = cashback_ok s"
  "cashback_ok (s\<lparr> referral_codes := x29 \<rparr>) = cashback_ok s"
  "cashback_ok (s\<lparr> referral_uses := x30 \<rparr>) = cashback_ok s"
  "cashback_ok (s\<lparr> play := x31 \<rparr>) = cashback_ok s"
  by (simp_all add: cashback_ok_def balanced_def cashback_rows_ok_def cashback_ledger_def failed_withdrawals_def get_cashback_balance_def)

lemma get_cashback_balance_simps [simp]:
  "get_cashback_balance (s\<lparr> user_cashback_balance := m \<rparr>) v = (case m v of None \<Rightarrow> 0 | Some b \<Rightarrow> b)"
  "get_cashback_balance (s\<lparr> cashback_transactions := x \<rparr>) v = get_cashback_balance s v"
  "get_cashback_balance (s\<lparr> cashback_withdrawals := y \<rparr>) v = get_cashback_balance s v"
  "get_cashback_balance (s\<lparr> next_uuid := i \<rparr>) v = get_cashback_balance s v"
  by (simp_all add: get_cashback_balance_def)

lemma get_cashback_balance_Some: "user_cashback_balance s u = Some b \<Longrightarrow> get_cashback_balance s u = b"
  by (simp add: get_cashback_balance_def)

lemma cashback_ok_step:
  assumes "cashback_ok s" and "cashback_rows_ok t"
    and "\<And>v. cashback_ledger t v - cashback_ledger s v \<le> get_cashback_balance t v - get_cashback_balance s v
      \<and> get_cashback_balance t v - get_cashback_balance s v
          \<le> (cashback_ledger t v - cashback_ledger s v) + (failed_withdrawals t v - failed_withdrawals s v)
      \<and> (get_cashback_balance t v \<noteq> get_cashback_balance s v \<longrightarrow>
           0 \<le> get_cashback_balance t v \<and> get_cashback_balance t v \<le> int4_max)"
  shows "cashback_ok t"
  unfolding cashback_ok_def balanced_def
proof (intro conjI allI)
  fix v
  from assms(1) have *: "cashback_ledger s v \<le> get_cashback_balance s v"
    "get_cashback_balance s v \<le> cashback_ledger s v + failed_withdrawals s v"
    "0 \<le> get_cashback_balance s v" "get_cashback_balance s v \<le> int4_max"
    by (simp_all add: cashback_ok_def balanced_def)
  show "cashback_ledger t v \<le> get_cashback_balance t v"
    "get_cashback_balance t v \<le> cashback_ledger t v + failed_withdrawals t v"
    using * assms(3) [of v] by linarith+
  show "0 \<le> get_cashback_balance t v" "get_cashback_balance t v \<le> int4_max"
    using * assms(3) [of v] by (cases "get_cashback_balance t v = get_cashback_balance s v"; simp)+
qed (rule assms(2))

lemma cashback_rows_insert:
  assumes "cashback_rows_ok s" and "cashback_insertable r s"
    and "cashback_transactions t = cashback_transactions s @ [r]"
    and "cashback_withdrawals t = cashback_withdrawals s"
  shows "cashback_rows_ok t"
  using assms by (auto simp: cashback_rows_ok_def cashback_insertable_def)

lemma cashback_rows_update:
  assumes "cashback_rows_ok s"
    and "\<And>r. cb_id (f r) = cb_id r \<and> cb_amount (f r) = cb_amount r"
    and "cashback_transactions t = update_where q f (cashback_transactions s)"
    and "cashback_withdrawals t = cashback_withdrawals s"
  shows "cashback_rows_ok t"
  using assms by (auto simp: cashback_rows_ok_def map_update_where set_update_where)

lemma cashback_ok_rows: "cashback_ok s \<Longrightarrow> cashback_rows_ok s"
  by (simp add: cashback_ok_def)

lemma cashback_ledger_append:
  "cashback_transactions t = cashback_transactions s @ [r] \<Longrightarrow>
   cashback_ledger t v = cashback_ledger s v + (if cb_user_id r = v then cb_signed r else 0)"
  by (simp add: cashback_ledger_def)

text \<open>A row and the matching change of the balance: a credit or boost, and a withdrawal.\<close>

lemma cashback_ok_credit:
  assumes ok: "cashback_ok s" and ins: "cashback_insertable r s"
    and tx: "cashback_transactions t = cashback_transactions s @ [r]"
    and wd: "cashback_withdrawals t = cashback_withdrawals s"
    and bal: "user_cashback_balance t =
       (if cb_signed r = 0 then user_cashback_balance s
        else (user_cashback_balance s)(cb_user_id r \<mapsto> get_cashback_balance s (cb_user_id r) + cb_signed r))"
    and bounds: "cb_signed r = 0 \<or> fits_int4 (get_cashback_balance s (cb_user_id r) + cb_signed r)
       \<and> 0 \<le> get_cashback_balance s (cb_user_id r) + cb_signed r"
  shows "cashback_ok t"
proof (rule cashback_ok_step [OF ok cashback_rows_insert [OF cashback_ok_rows [OF ok] ins tx wd]])
  fix v
  have b: "get_cashback_balance t v = get_cashback_balance s v + (if cb_user_id r = v then cb_signed r else 0)"
    using bal by (auto simp: get_cashback_balance_def)
  have f: "failed_withdrawals t v = failed_withdrawals s v" by (simp add: failed_withdrawals_def wd)
  show "cashback_ledger t v - cashback_ledger s v \<le> get_cashback_balance t v - get_cashback_balance s v
      \<and> get_cashback_balance t v - get_cashback_balance s v
          \<le> (cashback_ledger t v - cashback_ledger s v) + (failed_withdrawals t v - failed_withdrawals s v)
      \<and> (get_cashback_balance t v \<noteq> get_cashback_balance s v \<longrightarrow>
           0 \<le> get_cashback_balance t v \<and> get_cashback_balance t v \<le> int4_max)"
    using bounds by (auto simp: b f cashback_ledger_append [OF tx] fits_int4_def)
qed

text \<open>Rewriting rows in a way the ledger does not see.\<close>

lemma cashback_ok_relabel:
  assumes ok: "cashback_ok s"
    and same: "\<And>r. cb_id (f r) = cb_id r \<and> cb_amount (f r) = cb_amount r \<and> cb_user_id (f r) = cb_user_id r
       \<and> cb_signed (f r) = cb_signed r"
    and t: "t = s\<lparr> cashback_transactions := update_where q f (cashback_transactions s) \<rparr>"
  shows "cashback_ok t"
proof (rule cashback_ok_step [OF ok])
  show "cashback_rows_ok t"
    by (rule cashback_rows_update [OF cashback_ok_rows [OF ok], of f]) (simp_all add: same t)
  fix v
  have "cashback_ledger t v = cashback_ledger s v"
    by (simp add: cashback_ledger_def t sum_where_update_same same)
  then show "cashback_ledger t v - cashback_ledger s v \<le> get_cashback_balance t v - get_cashback_balance s v
      \<and> get_cashback_balance t v - get_cashback_balance s v
          \<le> (cashback_ledger t v - cashback_ledger s v) + (failed_withdrawals t v - failed_withdrawals s v)
      \<and> (get_cashback_balance t v \<noteq> get_cashback_balance s v \<longrightarrow>
           0 \<le> get_cashback_balance t v \<and> get_cashback_balance t v \<le> int4_max)"
    by (simp add: t failed_withdrawals_def)
qed

text \<open>Distributing a pending credit when the brand confirms it.\<close>

lemma cashback_ok_distribute:
  assumes ok: "cashback_ok s" and r: "get_cashback_tx i s = Some r" "cb_distributed_at r = None"
    "cb_type r \<noteq> ''WITHDRAWAL''"
    and cr: "credit_cashback_balance (cb_user_id r) (cb_amount r) s = (Inr x, s1)"
    and t: "t = update_cashback_tx i (\<lambda>r. r\<lparr> cb_distributed_at := Some d \<rparr>) s1"
  shows "cashback_ok t"
proof (rule cashback_ok_step [OF ok])
  let ?f = "\<lambda>r. r\<lparr> cb_distributed_at := Some d \<rparr>"
  from cr have s1: "s1 = s\<lparr> user_cashback_balance := (user_cashback_balance s)
        (cb_user_id r \<mapsto> get_cashback_balance s (cb_user_id r) + cb_amount r) \<rparr>"
    and fits: "fits_int4 (get_cashback_balance s (cb_user_id r) + cb_amount r)"
      "0 \<le> get_cashback_balance s (cb_user_id r) + cb_amount r"
    by (auto simp: credit_cashback_balance_Inr)
  show "cashback_rows_ok t"
    by (rule cashback_rows_update [OF cashback_ok_rows [OF ok], of ?f]) (simp_all add: t s1 update_cashback_tx_def)
  from r(1) have i: "i = cb_id r" "r \<in> set (cashback_transactions s)"
    by (auto simp: get_cashback_tx_def dest: find_Some_in)
  have dist: "distinct (map cb_id (cashback_transactions s))"
    using ok by (simp add: cashback_ok_def cashback_rows_ok_def)
  have led: "cashback_ledger t v = cashback_ledger s v + (if cb_user_id r = v then cb_amount r else 0)" for v
    using sum_where_update_key [OF dist i(2), of ?f "\<lambda>r. cb_user_id r = v" cb_signed] r
    by (simp add: t s1 cashback_ledger_def update_cashback_tx_def i(1) cb_signed_def)
  have bal: "get_cashback_balance t v = get_cashback_balance s v + (if cb_user_id r = v then cb_amount r else 0)" for v
    by (auto simp: t s1 update_cashback_tx_def get_cashback_balance_def)
  have failed: "failed_withdrawals t v = failed_withdrawals s v" for v
    by (simp add: t s1 update_cashback_tx_def failed_withdrawals_def)
  fix v
  show "cashback_ledger t v - cashback_ledger s v \<le> get_cashback_balance t v - get_cashback_balance s v
      \<and> get_cashback_balance t v - get_cashback_balance s v
          \<le> (cashback_ledger t v - cashback_ledger s v) + (failed_withdrawals t v - failed_withdrawals s v)
      \<and> (get_cashback_balance t v \<noteq> get_cashback_balance s v \<longrightarrow>
           0 \<le> get_cashback_balance t v \<and> get_cashback_balance t v \<le> int4_max)"
    using fits by (auto simp: led bal failed fits_int4_def)
qed

text \<open>Changing one pending withdrawal, with the refund if it fails.\<close>

lemma cashback_ok_withdrawal:
  assumes ok: "cashback_ok s" and r: "find_withdrawal w s = Some r" "wd_status r \<noteq> ''failed''"
    and f: "\<And>x. wd_id (f x) = wd_id x \<and> wd_user_id (f x) = wd_user_id x \<and> wd_amount (f x) = wd_amount x"
    and good: "withdrawal_row_ok (f r)"
    and tx: "cashback_transactions t = cashback_transactions s"
    and wd: "cashback_withdrawals t = update_where (\<lambda>r. wd_id r = w) f (cashback_withdrawals s)"
    and bal: "get_cashback_balance t = get_cashback_balance s
       \<or> wd_status (f r) = ''failed'' \<and> get_cashback_balance t = (get_cashback_balance s)
            (wd_user_id r := get_cashback_balance s (wd_user_id r) + wd_amount r)
          \<and> fits_int4 (get_cashback_balance s (wd_user_id r) + wd_amount r)"
  shows "cashback_ok t"
proof (rule cashback_ok_step [OF ok])
  from r(1) have w: "w = wd_id r" "r \<in> set (cashback_withdrawals s)"
    by (auto simp: find_withdrawal_def dest: find_Some_in)
  have dist: "distinct (map wd_id (cashback_withdrawals s))" and rows: "\<forall>r \<in> set (cashback_withdrawals s). withdrawal_row_ok r"
    using ok by (simp_all add: cashback_ok_def cashback_rows_ok_def)
  have only: "x = r" if "x \<in> set (cashback_withdrawals s)" "wd_id x = w" for x
    using dist that w by (metis distinct_map inj_onD)
  show "cashback_rows_ok t"
    using ok f good only rows
    by (auto simp: cashback_ok_def cashback_rows_ok_def tx wd map_update_where set_update_where)
  have pos: "0 < wd_amount r" using rows w by (auto simp: withdrawal_row_ok_def)
  fix v
  have led: "cashback_ledger t v = cashback_ledger s v" by (simp add: cashback_ledger_def tx)
  have failed: "failed_withdrawals t v = failed_withdrawals s v
     + (if wd_user_id r = v \<and> wd_status (f r) = ''failed'' then wd_amount r else 0)"
    using sum_where_update_key [OF dist w(2), of f "\<lambda>r. wd_user_id r = v \<and> wd_status r = ''failed''" wd_amount] r f
    by (simp add: failed_withdrawals_def wd w(1))
  have nn: "0 \<le> get_cashback_balance s v" using ok by (simp add: cashback_ok_def balanced_def)
  show "cashback_ledger t v - cashback_ledger s v \<le> get_cashback_balance t v - get_cashback_balance s v
      \<and> get_cashback_balance t v - get_cashback_balance s v
          \<le> (cashback_ledger t v - cashback_ledger s v) + (failed_withdrawals t v - failed_withdrawals s v)
      \<and> (get_cashback_balance t v \<noteq> get_cashback_balance s v \<longrightarrow>
           0 \<le> get_cashback_balance t v \<and> get_cashback_balance t v \<le> int4_max)"
    using bal pos nn by (auto simp: led failed fits_int4_def)
qed

section \<open>Every operation keeps the balance in step\<close>

lemma keeps_achievement_hook_cashback [keeps_intro]: "keeps cashback_ok (achievement_hook ck u e)"
  by (rule keeps_achievement_hook, rule preservesI)
    (auto simp: unlock_def seq_Inr_iff award_cab_Inr award_state_def split: if_splits)

definition line_row :: "clock \<Rightarrow> uuid \<Rightarrow> bool \<Rightarrow> offer_row \<Rightarrow> receipt_line \<Rightarrow> uuid \<Rightarrow> cashback_tx" where
  "line_row ck u subscriber off line i = credit_row ck i u (of_id off) (ln_ean line)
     (cashback_amount (of_cashback_rate off) (ln_price line)) (ln_scan_id line)
     (if subscriber then Some (now ck) else None)"

definition line_state :: "uuid \<Rightarrow> bool \<Rightarrow> cashback_tx \<Rightarrow> db \<Rightarrow> db" where
  "line_state u subscriber row s = s\<lparr> next_uuid := Suc (next_uuid s),
     cashback_transactions := cashback_transactions s @ [row],
     user_cashback_balance := (if subscriber
       then (user_cashback_balance s)(u \<mapsto> get_cashback_balance s u + cb_amount row)
       else user_cashback_balance s) \<rparr>"

definition line_credits :: "clock \<Rightarrow> uuid \<Rightarrow> bool \<Rightarrow> offer_row \<Rightarrow> receipt_line \<Rightarrow> cashback_tx \<Rightarrow> db \<Rightarrow> bool" where
  "line_credits ck u subscriber off line row s \<longleftrightarrow>
     get_active_offer_by_ean ck (ln_ean line) s = Some off
     \<and> \<not> has_cashback_for_scan (ln_scan_id line) (ln_ean line) s
     \<and> row = line_row ck u subscriber off line (next_uuid s) \<and> cashback_insertable row s
     \<and> (subscriber \<longrightarrow> fits_int4 (get_cashback_balance s u + cb_amount row)
          \<and> 0 \<le> get_cashback_balance s u + cb_amount row)"

lemma detect_line_Inr:
  "detect_line ck u subscriber line acc s = (Inr acc', t) \<longleftrightarrow>
     (get_active_offer_by_ean ck (ln_ean line) s = None \<or> has_cashback_for_scan (ln_scan_id line) (ln_ean line) s)
       \<and> acc' = acc \<and> t = s
   \<or> (\<exists>off row. line_credits ck u subscriber off line row s \<and> acc' = (fst acc + cb_amount row, True)
       \<and> t = line_state u subscriber row s)"
  by (cases "get_active_offer_by_ean ck (ln_ean line) s"; cases "has_cashback_for_scan (ln_scan_id line) (ln_ean line) s")
    (auto simp: detect_line_def Let_def seq_Inr_iff insert_cashback_credit_Inr credit_cashback_balance_Inr
      line_row_def credit_row_def cashback_insertable_def line_credits_def line_state_def)

lemma preserves_detect_line [preserves_intro]: "preserves cashback_ok (detect_line ck u subscriber line acc)"
proof (rule preservesI)
  fix s acc' t assume ok: "cashback_ok s" and run: "detect_line ck u subscriber line acc s = (Inr acc', t)"
  then consider "t = s" | (row) off row where "line_credits ck u subscriber off line row s" "t = line_state u subscriber row s"
    by (auto simp: detect_line_Inr)
  then show "cashback_ok t"
  proof cases
    case row
    then have ins: "cashback_insertable row s" by (auto simp: line_credits_def)
    have facts: "cb_user_id row = u" "cb_type row = ''CREDIT''" "0 < cb_amount row"
        "cb_distributed_at row = (if subscriber then Some (now ck) else None)"
      using row by (auto simp: line_credits_def line_row_def credit_row_def cashback_insertable_def)
    show ?thesis
      using row facts by (intro cashback_ok_credit [OF ok ins]) (auto simp: line_state_def line_credits_def cb_signed_def)
  qed (simp add: ok)
qed

lemma preserves_detect_cashback [preserves_intro]: "preserves cashback_ok (detect_cashback ck u lines)"
  unfolding detect_cashback_def by (intro preserves_intro keeps_preserves keeps_achievement_hook_cashback)

lemma preserves_debit_cab_cashback [preserves_intro]: "preserves cashback_ok (debit_cab ck u n reason rid rt txo)"
  by (rule preservesI) (auto simp: debit_cab_Inr)

lemma preserves_award_cab_cashback [preserves_intro]:
  "preserves cashback_ok (award_cab ck u amount reason rid rt ap cm bp season)"
  by (rule preservesI) (auto simp: award_cab_Inr award_state_def)

lemma preserves_tx_status [preserves_intro]: "preserves cashback_ok (update_cashback_tx_status i st)"
proof (rule preservesI)
  fix s x t assume ok: "cashback_ok s" and "update_cashback_tx_status i st s = (Inr x, t)"
  then have "t = s\<lparr> cashback_transactions := update_where (\<lambda>r. cb_id r = i) (\<lambda>r. r\<lparr> cb_status := st \<rparr>) (cashback_transactions s) \<rparr>"
    by (auto simp: update_cashback_tx_status_def update_cashback_tx_def split: if_splits)
  then show "cashback_ok t" by (rule cashback_ok_relabel [OF ok, rotated]) (simp add: cb_signed_def)
qed

lemma preserves_mark_boost [preserves_intro]: "preserves cashback_ok (mark_boost_applied i)"
proof (rule preservesI)
  fix s x t assume ok: "cashback_ok s" and "mark_boost_applied i s = (Inr x, t)"
  then have "t = s\<lparr> cashback_transactions := update_where (\<lambda>r. cb_id r = i \<and> \<not> cb_boost_applied r)
      (\<lambda>r. r\<lparr> cb_boost_applied := True \<rparr>) (cashback_transactions s) \<rparr>"
    by (auto simp: mark_boost_applied_def)
  then show "cashback_ok t" by (rule cashback_ok_relabel [OF ok, rotated]) (simp add: cb_signed_def)
qed

lemma preserves_boost_payment:
  "preserves cashback_ok (seq (insert_cashback_boost ck u tx off ean n) (seq (credit_cashback_balance u n) (ret r)))"
proof (rule preservesI)
  fix s x t assume ok: "cashback_ok s"
    and run: "seq (insert_cashback_boost ck u tx off ean n) (seq (credit_cashback_balance u n) (ret r)) s = (Inr x, t)"
  from run have ins: "cashback_insertable (boost_row ck (next_uuid s) u tx off ean n) s"
    by (auto simp: seq_Inr_iff insert_cashback_boost_Inr)
  show "cashback_ok t"
    using run by (intro cashback_ok_credit [OF ok ins])
      (auto simp: seq_Inr_iff insert_cashback_boost_Inr credit_cashback_balance_Inr boost_row_def cb_signed_def
        cashback_insertable_def)
qed

lemma preserves_boost_cashback [preserves_intro]: "preserves cashback_ok (boost_cashback cfg ck u tx)"
  unfolding boost_cashback_def Let_def by (intro preserves_intro preserves_boost_payment)

lemma preserves_confirm:
  assumes ok: "cashback_ok s" and r: "get_cashback_tx i s = Some r" "cb_type r = ''CREDIT''"
    and run: "confirm_credit ck i r s = (Inr x, t)"
  shows "cashback_ok t"
proof (cases "cb_distributed_at r = None")
  case True
  let ?f = "\<lambda>r. r\<lparr> cb_status := ''confirmed'' \<rparr>"
  from True run obtain s1 s2 where s1: "update_cashback_tx_status i ''confirmed'' s = (Inr (), s1)"
    and s2: "credit_cashback_balance (cb_user_id r) (cb_amount r) s1 = (Inr (), s2)"
    and t: "t = update_cashback_tx i (\<lambda>r. r\<lparr> cb_distributed_at := Some (now ck) \<rparr>) s2"
    by (auto simp: confirm_credit_def seq_Inr_iff update_cashback_tx_distributed_def)
  have ok1: "cashback_ok s1" by (rule preservesD [OF preserves_tx_status ok s1])
  have "s1 = update_cashback_tx i ?f s"
    using s1 by (auto simp: update_cashback_tx_status_def split: if_splits)
  with r(1) have "get_cashback_tx i s1 = Some (?f r)"
    by (simp add: get_cashback_tx_def update_cashback_tx_def find_update_where_key)
  then show ?thesis using s2 t r True by (intro cashback_ok_distribute [OF ok1, of i "?f r"]) simp_all
next
  case False
  with run have "update_cashback_tx_status i ''confirmed'' s = (Inr x, t)"
    by (auto simp: confirm_credit_def seq_Inr_iff)
  then show ?thesis by (rule preservesD [OF preserves_tx_status ok])
qed

lemma preserves_refuse_credit [preserves_intro]: "preserves cashback_ok (refuse_credit cfg ck i)"
  unfolding refuse_credit_def by (intro preserves_intro)

lemma resolve_cashback_Inr:
  "resolve_cashback cfg ck i resolution s = (Inr x, t) \<longleftrightarrow>
     (\<exists>r. get_cashback_tx i s = Some r \<and> cb_type r = ''CREDIT'' \<and> cb_status r = ''pending''
        \<and> (resolution = ''confirmed'' \<and> confirm_credit ck i r s = (Inr x, t)
           \<or> resolution = ''refused'' \<and> refuse_credit cfg ck i s = (Inr x, t)))"
  by (cases "get_cashback_tx i s") (auto simp: resolve_cashback_def)

lemma preserves_resolve_cashback [preserves_intro]: "preserves cashback_ok (resolve_cashback cfg ck i resolution)"
  by (rule preservesI)
    (auto simp: resolve_cashback_Inr dest: preserves_confirm preservesD [OF preserves_refuse_credit])

lemma preserves_validate_withdrawal [preserves_intro]: "preserves cashback_ok (admin_validate_withdrawal env ck w)"
proof (rule preservesI)
  fix s x t assume ok: "cashback_ok s" and run: "admin_validate_withdrawal env ck w s = (Inr x, t)"
  then obtain r where r: "find_withdrawal w s = Some r" "wd_status r = ''pending''"
    by (auto simp: admin_validate_withdrawal_def withdrawal_run_iff split: option.splits if_splits)
  let ?f = "\<lambda>r. r\<lparr> wd_status := ''processed'', wd_processed_at := Some (now ck), wd_provider_ref := Some x,
            wd_provider_initiated_at := Some (now ck) \<rparr>"
  from run r have "withdrawal_row_ok (?f r)"
    and "t = s\<lparr> cashback_withdrawals := update_where (\<lambda>r. wd_id r = w) ?f (cashback_withdrawals s) \<rparr>"
    by (auto simp: admin_validate_withdrawal_def withdrawal_run_iff bnd_Inr_iff seq_Inr_iff initiate_payout_Inr)
  then show "cashback_ok t" using r
    by (intro cashback_ok_withdrawal [OF ok r(1), of ?f]) (simp_all add: fun_eq_iff)
qed

lemma admin_refuse_Inr:
  assumes "admin_refuse_withdrawal w reason refund s = (Inr x, t)"
  shows "\<exists>r. find_withdrawal w s = Some r \<and> wd_status r = ''pending''
    \<and> withdrawal_row_ok (r\<lparr> wd_status := ''failed'', wd_failure_reason := Some reason \<rparr>)
    \<and> (refund \<longrightarrow> fits_int4 (get_cashback_balance s (wd_user_id r) + wd_amount r))
    \<and> t = s\<lparr> cashback_withdrawals := update_where (\<lambda>r. wd_id r = w)
              (\<lambda>r. r\<lparr> wd_status := ''failed'', wd_failure_reason := Some reason \<rparr>) (cashback_withdrawals s),
            user_cashback_balance := (if refund then (user_cashback_balance s)
              (wd_user_id r \<mapsto> get_cashback_balance s (wd_user_id r) + wd_amount r) else user_cashback_balance s) \<rparr>"
  using assms
  by (auto simp: admin_refuse_withdrawal_def withdrawal_run_iff seq_Inr_iff credit_cashback_balance_Inr
      split: option.splits if_splits)

lemma preserves_refuse_withdrawal [preserves_intro]: "preserves cashback_ok (admin_refuse_withdrawal w reason refund)"
proof (rule preservesI)
  fix s x t assume ok: "cashback_ok s" and run: "admin_refuse_withdrawal w reason refund s = (Inr x, t)"
  let ?f = "\<lambda>r. r\<lparr> wd_status := ''failed'', wd_failure_reason := Some reason \<rparr>"
  from admin_refuse_Inr [OF run] obtain r where r: "find_withdrawal w s = Some r" "wd_status r = ''pending''"
    and good: "withdrawal_row_ok (?f r)" "refund \<longrightarrow> fits_int4 (get_cashback_balance s (wd_user_id r) + wd_amount r)"
    and t: "t = s\<lparr> cashback_withdrawals := update_where (\<lambda>r. wd_id r = w) ?f (cashback_withdrawals s),
            user_cashback_balance := (if refund then (user_cashback_balance s)
              (wd_user_id r \<mapsto> get_cashback_balance s (wd_user_id r) + wd_amount r) else user_cashback_balance s) \<rparr>"
    by blast
  show "cashback_ok t"
    using r good t by (intro cashback_ok_withdrawal [OF ok r(1), of ?f]) (auto simp: fun_eq_iff get_cashback_balance_def)
qed

definition withdrawn_state :: "clock \<Rightarrow> uuid \<Rightarrow> int \<Rightarrow> db \<Rightarrow> db" where
  "withdrawn_state ck u n s = s\<lparr> next_uuid := Suc (Suc (next_uuid s)),
     user_cashback_balance := (user_cashback_balance s)(u \<mapsto> get_cashback_balance s u - n),
     cashback_transactions := cashback_transactions s @ [withdrawal_tx_row ck (next_uuid s) u n],
     cashback_withdrawals := cashback_withdrawals s @
       [pending_withdrawal ck (Suc (next_uuid s)) u (next_uuid s) n] \<rparr>"

lemma withdraw_cashback_Inr:
  "withdraw_cashback cfg ck u n s = (Inr w, t) \<longleftrightarrow>
     cashback_min_withdrawal cfg \<le> n
     \<and> (\<exists>b. user_cashback_balance s u = Some b \<and> n \<le> b \<and> fits_int4 (b - n))
     \<and> cashback_insertable (withdrawal_tx_row ck (next_uuid s) u n) s
     \<and> Suc (next_uuid s) \<notin> wd_id ` set (cashback_withdrawals s)
     \<and> w = Suc (next_uuid s) \<and> t = withdrawn_state ck u n s"
  by (auto simp: withdraw_cashback_def seq_Inr_iff bnd_Inr_iff debit_cashback_balance_Inr
      insert_cashback_withdrawal_tx_Inr insert_cashback_withdrawal_Inr withdrawn_state_def get_cashback_balance_def
      cashback_insertable_def withdrawal_tx_row_def split: if_splits)

lemma preserves_withdraw_cashback [preserves_intro]: "preserves cashback_ok (withdraw_cashback cfg ck u n)"
proof (rule preservesI)
  fix s w t assume ok: "cashback_ok s" and run: "withdraw_cashback cfg ck u n s = (Inr w, t)"
  let ?r = "withdrawal_tx_row ck (next_uuid s) u n" and ?w = "pending_withdrawal ck (Suc (next_uuid s)) u (next_uuid s) n"
  from run obtain b where b: "user_cashback_balance s u = Some b" "n \<le> b" "fits_int4 (b - n)"
    and ins: "cashback_insertable ?r s" and new: "Suc (next_uuid s) \<notin> wd_id ` set (cashback_withdrawals s)"
    and t: "t = withdrawn_state ck u n s" by (auto simp: withdraw_cashback_Inr)
  have "0 < n" using ins by (simp add: cashback_insertable_def withdrawal_tx_row_def)
  let ?m = "s\<lparr> next_uuid := Suc (Suc (next_uuid s)), user_cashback_balance := (user_cashback_balance s)(u \<mapsto> b - n),
     cashback_transactions := cashback_transactions s @ [?r] \<rparr>"
  have mid: "cashback_ok ?m"
    using b by (intro cashback_ok_credit [OF ok ins]) (auto simp: withdrawal_tx_row_def cb_signed_def get_cashback_balance_Some)
  have t': "t = ?m\<lparr> cashback_withdrawals := cashback_withdrawals s @ [?w] \<rparr>"
    by (simp add: t withdrawn_state_def get_cashback_balance_Some b)
  have rows: "cashback_rows_ok t"
    using mid new \<open>0 < n\<close> by (auto simp: t' cashback_ok_def cashback_rows_ok_def pending_withdrawal_def
        withdrawal_row_ok_def withdrawal_statuses_def)
  have "balanced ?m" using mid by (simp add: cashback_ok_def)
  then have "balanced t"
    by (simp add: t' balanced_def cashback_ledger_def failed_withdrawals_def pending_withdrawal_def)
  with rows show "cashback_ok t" by (simp add: cashback_ok_def)
qed


section \<open>Sequences of requests\<close>

text \<open>The common body of the admin and webhook resolutions.\<close>

definition resolve_route :: "cashback_cfg \<Rightarrow> clock \<Rightarrow> uuid \<Rightarrow> string \<Rightarrow> unit db_op" where
  "resolve_route cfg ck tx_id resolution =
     catch (db_transaction (resolve_cashback cfg ck tx_id resolution)) (\<lambda>e. throw (resolve_error e))"

datatype cashback_cmd =
    ScanDetected clock uuid "receipt_line list"
  | ProcessRetroactive clock uuid
  | BoostTx cashback_cfg clock uuid uuid
  | ResolveTx cashback_cfg clock uuid string
  | CreateOffer clock string string string uuid decimal stamp "stamp option"
  | Withdraw cashback_cfg payout_env clock uuid int
  | ValidateWithdrawal payout_env clock uuid
  | RefuseWithdrawal uuid string bool

fun cashback_step :: "cashback_cmd \<Rightarrow> unit db_op" where
  "cashback_step (ScanDetected ck u lines) = scan_detected ck u lines"
| "cashback_step (ProcessRetroactive ck sid) = bnd (process_retroactive ck sid) (\<lambda>_. ret ())"
| "cashback_step (BoostTx cfg ck u i) = bnd (boost cfg ck u i) (\<lambda>_. ret ())"
| "cashback_step (ResolveTx cfg ck i resolution) = resolve_route cfg ck i resolution"
| "cashback_step (CreateOffer ck p e ean b rate vf vu) = bnd (admin_create_offer ck p e ean b rate vf vu) (\<lambda>_. ret ())"
| "cashback_step (Withdraw cfg env ck u n) = bnd (withdraw cfg env ck u n) (\<lambda>_. ret ())"
| "cashback_step (ValidateWithdrawal env ck w) = bnd (admin_validate env ck w) (\<lambda>_. ret ())"
| "cashback_step (RefuseWithdrawal w reason refund) = admin_refuse w reason refund"

lemmas route_intro = keeps_bnd keeps_ret keeps_throw keeps_reads keeps_if keeps_catch keeps_seq keeps_case_option
  keeps_initiate_payout preserves_transaction

text \<open>What the services establish on return, the routes keep.\<close>

lemma keeps_cashback_step:
  assumes detect: "\<And>ck u ls. preserves I (detect_cashback ck u ls)"
    and confirm: "\<And>ids. preserves I (confirm_store_receipts ids)"
    and boosts: "\<And>cfg ck u i. preserves I (boost_cashback cfg ck u i)"
    and resolves: "\<And>cfg ck i r. preserves I (resolve_cashback cfg ck i r)"
    and offers: "\<And>ck p e ean b rate vf vu. preserves I (create_affiliate_offer ck p e ean b rate vf vu)"
    and withdraws: "\<And>cfg ck u n. preserves I (withdraw_cashback cfg ck u n)"
    and refs: "\<And>ck w ref. preserves I (set_withdrawal_provider_ref ck w ref)"
    and validates: "\<And>env ck w. preserves I (admin_validate_withdrawal env ck w)"
    and refuses: "\<And>w reason refund. preserves I (admin_refuse_withdrawal w reason refund)"
  shows "keeps I (cashback_step c)"
proof (cases c)
  case (ScanDetected ck u ls)
  then show ?thesis by (simp add: scan_detected_def) (intro conjI impI route_intro detect)
next
  case (ProcessRetroactive ck sid)
  have "preserves I (for_each (\<lambda>entry total. bnd (detect_cashback ck (fst entry) (snd entry)) (\<lambda>n. ret (total + n))) xs 0)"
    for xs by (intro preserves_for_each preserves_bnd preserves_ret detect)
  then show ?thesis unfolding ProcessRetroactive cashback_step.simps process_retroactive_def
    by (intro route_intro preserves_bnd preserves_seq preserves_reads preserves_ret confirm)
next
  case (BoostTx cfg ck u i)
  then show ?thesis unfolding BoostTx cashback_step.simps boost_def by (intro route_intro boosts)
next
  case (ResolveTx cfg ck i r)
  then show ?thesis unfolding ResolveTx cashback_step.simps resolve_route_def by (intro route_intro resolves)
next
  case (CreateOffer ck p e ean b rate vf vu)
  show ?thesis unfolding CreateOffer cashback_step.simps admin_create_offer_def by (intro route_intro offers)
next
  case (Withdraw cfg env ck u n)
  show ?thesis unfolding Withdraw cashback_step.simps withdraw_def by (intro route_intro withdraws refs)
next
  case (ValidateWithdrawal env ck w)
  show ?thesis unfolding ValidateWithdrawal cashback_step.simps admin_validate_def by (intro route_intro validates)
next
  case (RefuseWithdrawal w reason refund)
  show ?thesis unfolding RefuseWithdrawal cashback_step.simps admin_refuse_def by (intro route_intro refuses)
qed

text \<open>
  A predicate that every request keeps because each statement does: the laws name the statements
  the requests are made of. \<open>cashback_ok\<close> is not of this kind (it holds again only at the end of a
  transaction); what a single row has become is.
\<close>

locale cashback_mark =
  fixes mark :: "db \<Rightarrow> bool"
  assumes insert_tx: "mark s \<Longrightarrow> mark (s\<lparr> cashback_transactions := cashback_transactions s @ [r] \<rparr>)"
    and boost_tx: "mark s \<Longrightarrow> mark (s\<lparr> cashback_transactions :=
          update_where (\<lambda>r. cb_id r = j \<and> \<not> cb_boost_applied r) (\<lambda>r. r\<lparr> cb_boost_applied := True \<rparr>)
            (cashback_transactions s) \<rparr>)"
    and status_tx: "st = ''confirmed'' \<or> st = ''refused'' \<Longrightarrow> mark s \<Longrightarrow>
          mark (update_cashback_tx j (\<lambda>r. r\<lparr> cb_status := st \<rparr>) s)"
    and distribute_tx: "mark s \<Longrightarrow> mark (update_cashback_tx j (\<lambda>r. r\<lparr> cb_distributed_at := Some d \<rparr>) s)"
    and insert_wd: "mark s \<Longrightarrow> mark (s\<lparr> cashback_withdrawals := cashback_withdrawals s @ [wr] \<rparr>)"
    and update_wd: "find_withdrawal w s = Some wr \<Longrightarrow>
          (\<And>x. wd_id (f x) = wd_id x \<and> wd_user_id (f x) = wd_user_id x \<and> wd_amount (f x) = wd_amount x) \<Longrightarrow>
          wd_status (f wr) = wd_status wr \<or> wd_status wr = ''pending'' \<and> wd_status (f wr) \<in> {''processed'', ''failed''} \<Longrightarrow>
          mark s \<Longrightarrow>
          mark (s\<lparr> cashback_withdrawals := update_where (\<lambda>r. wd_id r = w) f (cashback_withdrawals s) \<rparr>)"
    and elsewhere: "mark (s\<lparr> next_uuid := x1 \<rparr>) = mark s" "mark (s\<lparr> user_cashback_balance := x2 \<rparr>) = mark s"
      "mark (s\<lparr> user_cab_balance := x3 \<rparr>) = mark s" "mark (s\<lparr> cabecoin_transactions := x4 \<rparr>) = mark s"
      "mark (s\<lparr> user_battlepass_progress := x5 \<rparr>) = mark s" "mark (s\<lparr> user_achievements := x6 \<rparr>) = mark s"
      "mark (s\<lparr> receipts := x7 \<rparr>) = mark s" "mark (s\<lparr> affiliate_offers := x8 \<rparr>) = mark s"
begin

lemma award: "preserves mark (award_cab ck u amount reason rid rt ap cm bp season)"
  by (rule preservesI) (auto simp: award_cab_Inr award_state_def elsewhere)

lemma debit: "preserves mark (debit_cab ck u n reason rid rt txo)"
  by (rule preservesI) (auto simp: debit_cab_Inr elsewhere)

lemma hook: "keeps mark (achievement_hook ck u e)"
  by (rule keeps_achievement_hook, rule preservesI)
    (auto simp: unlock_def seq_Inr_iff award_cab_Inr award_state_def elsewhere split: if_splits)

lemma credit: "preserves mark (credit_cashback_balance u n)"
  by (rule preservesI) (auto simp: credit_cashback_balance_Inr elsewhere)

lemma insert_boost: "preserves mark (insert_cashback_boost ck u p off ean n)"
proof (rule preservesI)
  fix s i t assume "mark s" and run: "insert_cashback_boost ck u p off ean n s = (Inr i, t)"
  then have "mark (s\<lparr> next_uuid := Suc (next_uuid s) \<rparr>)" by (simp add: elsewhere)
  from insert_tx [OF this] run show "mark t" by (auto simp: insert_cashback_boost_Inr)
qed

lemma mark_boost: "preserves mark (mark_boost_applied i)"
  by (rule preservesI) (auto simp: mark_boost_applied_def intro: boost_tx)

lemma tx_status: "st = ''confirmed'' \<or> st = ''refused'' \<Longrightarrow> preserves mark (update_cashback_tx_status i st)"
  by (rule preservesI) (auto simp: update_cashback_tx_status_def intro: status_tx split: if_splits)

lemma tx_distributed: "preserves mark (update_cashback_tx_distributed ck i)"
  by (rule preservesI) (auto simp: update_cashback_tx_distributed_def intro: distribute_tx)

lemma line: "preserves mark (detect_line ck u subscriber line acc)"
proof (rule preservesI)
  fix s acc' t assume m: "mark s" and run: "detect_line ck u subscriber line acc s = (Inr acc', t)"
  then have "mark (s\<lparr> next_uuid := Suc (next_uuid s) \<rparr>)" by (simp add: elsewhere)
  from insert_tx [OF this] have "mark (line_state u subscriber row s)" for row
    by (simp add: line_state_def elsewhere)
  with m run show "mark t" by (auto simp: detect_line_Inr)
qed

lemma detect: "preserves mark (detect_cashback ck u lines)"
  unfolding detect_cashback_def by (intro preserves_intro line keeps_preserves hook)

lemma confirm_receipts: "preserves mark (confirm_store_receipts ids)"
  by (rule preservesI) (auto simp: confirm_store_receipts_def elsewhere split: if_splits)

lemma boosting: "preserves mark (boost_cashback cfg ck u i)"
  unfolding boost_cashback_def Let_def by (intro preserves_intro mark_boost debit insert_boost credit)

lemma resolving: "preserves mark (resolve_cashback cfg ck i resolution)"
  unfolding resolve_cashback_def confirm_credit_def refuse_credit_def
  by (intro preserves_intro tx_status tx_distributed credit award; simp)

lemma offers: "preserves mark (create_affiliate_offer ck p e ean b rate vf vu)"
  by (rule preservesI) (auto simp: create_affiliate_offer_def elsewhere split: if_splits)

lemma withdrawing: "preserves mark (withdraw_cashback cfg ck u n)"
proof (rule preservesI)
  fix s w t assume m: "mark s" and run: "withdraw_cashback cfg ck u n s = (Inr w, t)"
  have "mark (s\<lparr> next_uuid := Suc (Suc (next_uuid s)),
      user_cashback_balance := (user_cashback_balance s)(u \<mapsto> get_cashback_balance s u - n) \<rparr>)"
    using m by (simp add: elsewhere)
  from insert_wd [OF insert_tx [OF this]] run show "mark t"
    by (auto simp: withdraw_cashback_Inr withdrawn_state_def)
qed

lemma provider_ref: "preserves mark (set_withdrawal_provider_ref ck w ref)"
  by (rule preservesI) (auto simp: withdrawal_run_iff intro!: update_wd)

lemma validating: "preserves mark (admin_validate_withdrawal env ck w)"
proof (rule preservesI)
  fix s x t assume m: "mark s" and run: "admin_validate_withdrawal env ck w s = (Inr x, t)"
  then obtain r where "find_withdrawal w s = Some r" "wd_status r = ''pending''"
    by (auto simp: admin_validate_withdrawal_def withdrawal_run_iff split: option.splits if_splits)
  with m run show "mark t"
    by (auto simp: admin_validate_withdrawal_def withdrawal_run_iff bnd_Inr_iff seq_Inr_iff initiate_payout_Inr
        intro!: update_wd)
qed

lemma refusing: "preserves mark (admin_refuse_withdrawal w reason refund)"
proof (rule preservesI)
  fix s x t assume m: "mark s" and run: "admin_refuse_withdrawal w reason refund s = (Inr x, t)"
  from admin_refuse_Inr [OF run] show "mark t"
    using update_wd [of w s _ "\<lambda>r. r\<lparr> wd_status := ''failed'', wd_failure_reason := Some reason \<rparr>", OF _ _ _ m]
    by (auto simp: elsewhere)
qed

lemma step: "mark s \<Longrightarrow> mark (snd (cashback_step c s))"
  by (rule keeps_snd, rule keeps_cashback_step, rule detect, rule confirm_receipts, rule boosting, rule resolving,
    rule offers, rule withdrawing, rule provider_ref, rule validating, rule refusing)

end

lemma preserves_provider_ref [preserves_intro]: "preserves cashback_ok (set_withdrawal_provider_ref ck w ref)"
proof (rule preservesI)
  fix s x t assume ok: "cashback_ok s" and run: "set_withdrawal_provider_ref ck w ref s = (Inr x, t)"
  let ?f = "\<lambda>r. r\<lparr> wd_provider_ref := Some ref, wd_provider_initiated_at := Some (now ck) \<rparr>"
  from run have t: "t = s\<lparr> cashback_withdrawals := update_where (\<lambda>r. wd_id r = w) ?f (cashback_withdrawals s) \<rparr>"
    by (auto simp: withdrawal_run_iff)
  have "cashback_rows_ok t"
    using ok by (auto simp: t cashback_ok_def cashback_rows_ok_def map_update_where set_update_where withdrawal_row_ok_def)
  moreover have "failed_withdrawals t = failed_withdrawals s"
    by (simp add: fun_eq_iff t failed_withdrawals_def sum_where_update_same)
  ultimately show "cashback_ok t" using ok by (simp add: cashback_ok_def balanced_def t cashback_ledger_def)
qed

lemma keeps_cashback_step_ok: "keeps cashback_ok (cashback_step c)"
proof (rule keeps_cashback_step)
  fix ids show "preserves cashback_ok (confirm_store_receipts ids)"
    by (rule preservesI) (auto simp: confirm_store_receipts_def split: if_splits)
next
  fix ck p e ean b rate vf vu show "preserves cashback_ok (create_affiliate_offer ck p e ean b rate vf vu)"
    by (rule preservesI) (auto simp: create_affiliate_offer_def split: if_splits)
qed (rule preserves_intro)+

interpretation cashback_inv: kept_invariant cashback_step cashback_ok
  by unfold_locales (rule keeps_snd [OF keeps_cashback_step_ok])

text \<open>
  C9 (invariant). Whatever cashback requests arrive, in whatever order and with whatever answers of
  the payment provider, every user's balance stays non-negative, within its column and between the
  sum of the distributed credits and boosts less the withdrawals and that sum plus the failed
  withdrawals; identifiers stay unique and every withdrawal row is coherent with its status.
\<close>

theorem cashback_balance_invariant:
  assumes "cashback_ok s" and "exec_all cashback_step cs s = (rs, t)"
  shows "cashback_ok t"
  using assms by (rule cashback_inv.exec_all_keeps)

definition demo_cfg :: cashback_cfg where
  "demo_cfg = \<lparr> cashback_boost_window_hours = 48, cashback_boost_cab_rate = Decimal 5 1,
     cashback_min_withdrawal = 500 \<rparr>"

definition sandbox_env :: payout_env where
  "sandbox_env = \<lparr> payment_provider_key = [], stripe_payouts = \<lambda>_ _. StripeFailure \<rparr>"

definition cashback_demo :: "int \<Rightarrow> db" where
  "cashback_demo b = empty_db\<lparr> user_cashback_balance := [1 \<mapsto> b], next_uuid := 10,
     cashback_transactions := [boost_row (clock_at 0) 5 1 4 (Some 2) (Some ''ean'') b] \<rparr>"

lemma cashback_demo_ok: "0 < b \<Longrightarrow> b \<le> int4_max \<Longrightarrow> cashback_ok (cashback_demo b)"
  by (auto simp: cashback_ok_def balanced_def cashback_rows_ok_def cashback_demo_def cashback_ledger_def
      failed_withdrawals_def get_cashback_balance_def boost_row_def cb_signed_def)

theorem cashback_balance_invariant_witness:
  "cashback_ok (snd (exec_all cashback_step
     [Withdraw demo_cfg sandbox_env (clock_at 5) 1 600, RefuseWithdrawal 11 ''fraud'' True] (cashback_demo 1000)))"
  by (rule cashback_balance_invariant [OF cashback_demo_ok prod.collapse [symmetric]]) simp_all


section \<open>Once only\<close>

definition tx_is :: "(cashback_tx \<Rightarrow> bool) \<Rightarrow> uuid \<Rightarrow> db \<Rightarrow> bool" where
  "tx_is Q i s \<longleftrightarrow> (case get_cashback_tx i s of None \<Rightarrow> False | Some r \<Rightarrow> Q r)"

lemma tx_is_insert: "tx_is Q i s \<Longrightarrow> tx_is Q i (s\<lparr> cashback_transactions := cashback_transactions s @ [r] \<rparr>)"
  by (auto simp: tx_is_def get_cashback_tx_def find_append split: option.splits)

lemma tx_is_update:
  assumes "\<And>r. cb_id (f r) = cb_id r" and "\<And>r. Q r \<Longrightarrow> Q (f r)" and "tx_is Q i s"
  shows "tx_is Q i (s\<lparr> cashback_transactions := update_where q f (cashback_transactions s) \<rparr>)"
  using assms by (auto simp: tx_is_def get_cashback_tx_def find_update_where_any split: option.splits)

interpretation boosted: cashback_mark "tx_is cb_boost_applied i" for i
  by unfold_locales
    (auto simp: update_cashback_tx_def intro!: tx_is_insert tx_is_update, simp_all add: tx_is_def get_cashback_tx_def)

interpretation resolved: cashback_mark "tx_is (\<lambda>r. cb_status r \<noteq> ''pending'') i" for i
  by unfold_locales
    (auto simp: update_cashback_tx_def intro!: tx_is_insert tx_is_update, simp_all add: tx_is_def get_cashback_tx_def)

fun boosts_tx :: "uuid \<Rightarrow> cashback_cmd \<Rightarrow> bool" where
  "boosts_tx i (BoostTx cfg ck u j) = (j = i)"
| "boosts_tx i _ = False"

fun resolves_tx :: "uuid \<Rightarrow> cashback_cmd \<Rightarrow> bool" where
  "resolves_tx i (ResolveTx cfg ck j r) = (j = i)"
| "resolves_tx i _ = False"

lemma boost_marks:
  assumes "boost_cashback cfg ck u i s = (Inr x, t)"
  shows "\<not> tx_is cb_boost_applied i s \<and> tx_is cb_boost_applied i t"
proof -
  from assms obtain r s1 where r: "get_cashback_tx i s = Some r" "\<not> cb_boost_applied r"
    and s1: "mark_boost_applied i s = (Inr True, s1)"
    and rest: "seq (debit_cab ck u (boost_cost cfg (cb_amount r)) ''cashback_boost_debit'' None None None)
       (seq (insert_cashback_boost ck u i (cb_offer_id r) (cb_product_ean r) (cb_amount r))
       (seq (credit_cashback_balance u (cb_amount r))
       (ret \<lparr> bo_boost_amount = cb_amount r, bo_boost_cost_cab = boost_cost cfg (cb_amount r) \<rparr>))) s1 = (Inr x, t)"
    by (auto simp: boost_cashback_def bnd_Inr_iff Let_def split: option.splits if_splits)
  from s1 r have "tx_is cb_boost_applied i s1"
    by (auto simp: mark_boost_applied_def tx_is_def get_cashback_tx_def find_update_where_any dest: find_Some_in)
  then have "tx_is cb_boost_applied i t"
    using rest by (rule preservesD [rotated]) (intro preserves_intro boosted.debit boosted.insert_boost boosted.credit)
  with r show ?thesis by (simp add: tx_is_def)
qed

lemma resolve_marks:
  assumes "resolve_cashback cfg ck i resolution s = (Inr x, t)"
  shows "\<not> tx_is (\<lambda>r. cb_status r \<noteq> ''pending'') i s \<and> tx_is (\<lambda>r. cb_status r \<noteq> ''pending'') i t"
proof -
  let ?P = "tx_is (\<lambda>r. cb_status r \<noteq> ''pending'') i"
  from assms obtain r where r: "get_cashback_tx i s = Some r" "cb_status r = ''pending''"
    and run: "confirm_credit ck i r s = (Inr x, t) \<or> refuse_credit cfg ck i s = (Inr x, t)"
    by (auto simp: resolve_cashback_Inr)
  have upd: "?P s1" if "update_cashback_tx_status i st s = (Inr y, s1)" "st \<noteq> ''pending''" for st y s1
    using that r by (auto simp: update_cashback_tx_status_def tx_is_def get_cashback_tx_def update_cashback_tx_def
        find_update_where_any split: if_splits dest: find_Some_in)
  from run have "?P t"
  proof
    assume "confirm_credit ck i r s = (Inr x, t)"
    then obtain s1 where s1: "update_cashback_tx_status i ''confirmed'' s = (Inr (), s1)"
      and rest: "(if cb_distributed_at r = None then seq (credit_cashback_balance (cb_user_id r) (cb_amount r))
           (update_cashback_tx_distributed ck i) else ret ()) s1 = (Inr x, t)"
      by (auto simp: confirm_credit_def seq_Inr_iff)
    have "?P s1" by (rule upd [OF s1]) simp
    from this rest show "?P t" by (rule preservesD [rotated]) (intro preserves_intro resolved.credit resolved.tx_distributed)
  next
    assume "refuse_credit cfg ck i s = (Inr x, t)"
    then obtain s1 where s1: "update_cashback_tx_status i ''refused'' s = (Inr (), s1)"
      and rest: "bnd (reads (get_boost_child i)) (\<lambda>boost. case boost of None \<Rightarrow> ret ()
         | Some child \<Rightarrow> seq (update_cashback_tx_status (cb_id child) ''refused'')
           (award_cab ck (cb_user_id child) (boost_cost cfg (cb_amount child))
              ''cashback_boost_refund'' None None True None True None)) s1 = (Inr x, t)"
      by (auto simp: refuse_credit_def seq_Inr_iff)
    have "?P s1" by (rule upd [OF s1]) simp
    from this rest show "?P t" by (rule preservesD [rotated]) (intro preserves_intro resolved.tx_status resolved.award; simp)
  qed
  with r show ?thesis by (simp add: tx_is_def)
qed

interpretation boost_once: one_shot cashback_step "boosts_tx i" "tx_is cb_boost_applied i" for i
proof
  fix s :: db and c
  show "tx_is cb_boost_applied i s \<Longrightarrow> tx_is cb_boost_applied i (snd (cashback_step c s))" by (rule boosted.step)
next
  fix c and s :: db and x t
  assume "boosts_tx i c" and "cashback_step c s = (Inr x, t)"
  then show "\<not> tx_is cb_boost_applied i s \<and> tx_is cb_boost_applied i t"
    by (cases c) (auto simp: boost_def bnd_Inr_iff catch_Inr_iff db_transaction_Inr_iff dest: boost_marks)
qed

interpretation resolve_once: one_shot cashback_step "resolves_tx i" "tx_is (\<lambda>r. cb_status r \<noteq> ''pending'') i" for i
proof
  fix s :: db and c
  show "tx_is (\<lambda>r. cb_status r \<noteq> ''pending'') i s \<Longrightarrow>
    tx_is (\<lambda>r. cb_status r \<noteq> ''pending'') i (snd (cashback_step c s))" by (rule resolved.step)
next
  fix c and s :: db and x t
  assume "resolves_tx i c" and "cashback_step c s = (Inr x, t)"
  then show "\<not> tx_is (\<lambda>r. cb_status r \<noteq> ''pending'') i s \<and> tx_is (\<lambda>r. cb_status r \<noteq> ''pending'') i t"
    by (cases c) (simp_all add: resolve_route_def catch_Inr_iff db_transaction_Inr_iff resolve_marks)
qed




section \<open>The life of a withdrawal\<close>

text \<open>The documented state machine: a pending withdrawal is processed or fails, and stays so.\<close>

inductive wd_step :: "string \<Rightarrow> string \<Rightarrow> bool" where
  process: "wd_step ''pending'' ''processed''"
| fail: "wd_step ''pending'' ''failed''"

inductive_simps wd_step_from_processed: "wd_step ''processed'' y"
inductive_simps wd_step_from_failed: "wd_step ''failed'' y"

lemma wd_terminal: "wd_step\<^sup>*\<^sup>* x y \<Longrightarrow> x \<in> {''processed'', ''failed''} \<Longrightarrow> y = x"
  by (induction rule: converse_rtranclp_induct) (auto simp: wd_step_from_processed wd_step_from_failed)

definition wd_follows :: "uuid \<Rightarrow> withdrawal_row \<Rightarrow> db \<Rightarrow> bool" where
  "wd_follows w r0 s \<longleftrightarrow> (\<exists>r. find_withdrawal w s = Some r \<and> wd_step\<^sup>*\<^sup>* (wd_status r0) (wd_status r)
     \<and> wd_user_id r = wd_user_id r0 \<and> wd_amount r = wd_amount r0)"

definition wd_is :: "(withdrawal_row \<Rightarrow> bool) \<Rightarrow> uuid \<Rightarrow> db \<Rightarrow> bool" where
  "wd_is Q w s \<longleftrightarrow> (case find_withdrawal w s of None \<Rightarrow> False | Some r \<Rightarrow> Q r)"

lemma find_withdrawal_simps [simp]:
  "find_withdrawal w (s\<lparr> cashback_withdrawals := cashback_withdrawals s @ [r] \<rparr>) =
     (case find_withdrawal w s of None \<Rightarrow> if wd_id r = w then Some r else None | Some x \<Rightarrow> Some x)"
  "find_withdrawal w (s\<lparr> cashback_transactions := x1 \<rparr>) = find_withdrawal w s"
  "find_withdrawal w (s\<lparr> next_uuid := x2 \<rparr>) = find_withdrawal w s"
  "find_withdrawal w (s\<lparr> user_cashback_balance := x3 \<rparr>) = find_withdrawal w s"
  "find_withdrawal w (s\<lparr> user_cab_balance := x4 \<rparr>) = find_withdrawal w s"
  "find_withdrawal w (s\<lparr> cabecoin_transactions := x5 \<rparr>) = find_withdrawal w s"
  "find_withdrawal w (s\<lparr> user_battlepass_progress := x6 \<rparr>) = find_withdrawal w s"
  "find_withdrawal w (s\<lparr> user_achievements := x7 \<rparr>) = find_withdrawal w s"
  "find_withdrawal w (s\<lparr> receipts := x8 \<rparr>) = find_withdrawal w s"
  "find_withdrawal w (s\<lparr> affiliate_offers := x9 \<rparr>) = find_withdrawal w s"
  by (simp_all add: find_withdrawal_def find_append split: option.splits)

lemma find_withdrawal_update:
  "(\<And>r. wd_id (f r) = wd_id r) \<Longrightarrow>
   find_withdrawal w (s\<lparr> cashback_withdrawals := update_where (\<lambda>r. wd_id r = j) f (cashback_withdrawals s) \<rparr>) =
     (if w = j then map_option f (find_withdrawal w s) else find_withdrawal w s)"
  by (simp add: find_withdrawal_def find_update_where_key)

lemma wd_follows_update:
  assumes "find_withdrawal j s = Some wr"
    and f: "\<And>x. wd_id (f x) = wd_id x \<and> wd_user_id (f x) = wd_user_id x \<and> wd_amount (f x) = wd_amount x"
    and st: "wd_status (f wr) = wd_status wr \<or> wd_status wr = ''pending'' \<and> wd_status (f wr) \<in> {''processed'', ''failed''}"
    and "wd_follows w r0 s"
  shows "wd_follows w r0 (s\<lparr> cashback_withdrawals := update_where (\<lambda>r. wd_id r = j) f (cashback_withdrawals s) \<rparr>)"
proof (cases "w = j")
  case True
  from st have "wd_status (f wr) = wd_status wr \<or> wd_step (wd_status wr) (wd_status (f wr))"
    by (auto intro: wd_step.intros)
  then have "wd_step\<^sup>*\<^sup>* (wd_status wr) (wd_status (f wr))" by auto
  with assms True show ?thesis by (auto simp: wd_follows_def find_withdrawal_update)
next
  case False
  with assms(4) f show ?thesis by (simp add: wd_follows_def find_withdrawal_update)
qed

interpretation followed: cashback_mark "wd_follows w r0" for w r0
proof
  fix j and s :: db and wr and f :: "withdrawal_row \<Rightarrow> withdrawal_row"
  assume "find_withdrawal j s = Some wr"
    and "\<And>x. wd_id (f x) = wd_id x \<and> wd_user_id (f x) = wd_user_id x \<and> wd_amount (f x) = wd_amount x"
    and "wd_status (f wr) = wd_status wr \<or> wd_status wr = ''pending'' \<and> wd_status (f wr) \<in> {''processed'', ''failed''}"
    and "wd_follows w r0 s"
  then show "wd_follows w r0 (s\<lparr> cashback_withdrawals := update_where (\<lambda>r. wd_id r = j) f (cashback_withdrawals s) \<rparr>)"
    by (rule wd_follows_update)
qed (auto simp: wd_follows_def update_cashback_tx_def)

interpretation followed_inv: kept_invariant cashback_step "wd_follows w r0" for w r0
  by unfold_locales (rule followed.step)

interpretation settled: cashback_mark "wd_is (\<lambda>r. wd_status r \<noteq> ''pending'') w" for w
proof
  fix j and s :: db and wr and f :: "withdrawal_row \<Rightarrow> withdrawal_row"
  assume "find_withdrawal j s = Some wr"
    and f: "\<And>x. wd_id (f x) = wd_id x \<and> wd_user_id (f x) = wd_user_id x \<and> wd_amount (f x) = wd_amount x"
    and "wd_status (f wr) = wd_status wr \<or> wd_status wr = ''pending'' \<and> wd_status (f wr) \<in> {''processed'', ''failed''}"
    and "wd_is (\<lambda>r. wd_status r \<noteq> ''pending'') w s"
  then show "wd_is (\<lambda>r. wd_status r \<noteq> ''pending'') w
      (s\<lparr> cashback_withdrawals := update_where (\<lambda>r. wd_id r = j) f (cashback_withdrawals s) \<rparr>)"
    by (cases "w = j") (auto simp: wd_is_def find_withdrawal_update)
qed (auto simp: wd_is_def update_cashback_tx_def split: option.splits)

fun settles_wd :: "uuid \<Rightarrow> cashback_cmd \<Rightarrow> bool" where
  "settles_wd w (ValidateWithdrawal env ck x) = (x = w)"
| "settles_wd w (RefuseWithdrawal x reason refund) = (x = w)"
| "settles_wd w _ = False"

lemma settle_marks:
  "admin_validate_withdrawal env ck w s = (Inr ref, t) \<Longrightarrow>
     \<not> wd_is (\<lambda>r. wd_status r \<noteq> ''pending'') w s \<and> wd_is (\<lambda>r. wd_status r \<noteq> ''pending'') w t"
  "admin_refuse_withdrawal w reason refund s = (Inr x, t) \<Longrightarrow>
     \<not> wd_is (\<lambda>r. wd_status r \<noteq> ''pending'') w s \<and> wd_is (\<lambda>r. wd_status r \<noteq> ''pending'') w t"
  by (auto simp: admin_validate_withdrawal_def withdrawal_run_iff bnd_Inr_iff seq_Inr_iff initiate_payout_Inr wd_is_def
      find_withdrawal_update split: option.splits if_splits)
    (auto simp: wd_is_def find_withdrawal_update dest!: admin_refuse_Inr)

interpretation settle_once: one_shot cashback_step "settles_wd w" "wd_is (\<lambda>r. wd_status r \<noteq> ''pending'') w" for w
proof
  fix s :: db and c
  show "wd_is (\<lambda>r. wd_status r \<noteq> ''pending'') w s \<Longrightarrow>
    wd_is (\<lambda>r. wd_status r \<noteq> ''pending'') w (snd (cashback_step c s))" by (rule settled.step)
next
  fix c and s :: db and x t
  assume "settles_wd w c" and "cashback_step c s = (Inr x, t)"
  then show "\<not> wd_is (\<lambda>r. wd_status r \<noteq> ''pending'') w s \<and> wd_is (\<lambda>r. wd_status r \<noteq> ''pending'') w t"
    by (cases c) (auto simp: admin_validate_def admin_refuse_def bnd_Inr_iff catch_Inr_iff db_transaction_Inr_iff
        dest: settle_marks split: if_splits)
qed

text \<open>
  C11 (refinement). Every run of requests takes a withdrawal along the documented state machine: its
  status only moves from pending to processed or failed, at most one admin decision on it succeeds,
  and its owner and amount never change.
\<close>

theorem withdrawal_lifecycle:
  assumes "find_withdrawal w s = Some r" and "exec_all cashback_step cs s = (rs, t)"
  shows "successes (settles_wd w) cs rs \<le> 1 \<and> (\<exists>r'. find_withdrawal w t = Some r'
     \<and> wd_step\<^sup>*\<^sup>* (wd_status r) (wd_status r')
     \<and> (wd_status r \<in> {''processed'', ''failed''} \<longrightarrow> wd_status r' = wd_status r)
     \<and> wd_user_id r' = wd_user_id r \<and> wd_amount r' = wd_amount r)"
proof -
  have "wd_follows w r s" using assms(1) by (simp add: wd_follows_def)
  from followed_inv.exec_all_keeps [OF this assms(2)] show ?thesis
    using settle_once.at_most_once [OF assms(2), of w] wd_terminal unfolding wd_follows_def by blast
qed

definition withdrawal_demo :: db where
  "withdrawal_demo = withdrawn_state (clock_at 5) 1 600 (cashback_demo 1000)"

theorem withdrawal_lifecycle_witness:
  "\<exists>r'. find_withdrawal 11 (snd (exec_all cashback_step
      [ValidateWithdrawal sandbox_env (clock_at 6) 11, RefuseWithdrawal 11 ''late'' True] withdrawal_demo)) = Some r'
     \<and> wd_step\<^sup>*\<^sup>* ''pending'' (wd_status r') \<and> wd_user_id r' = 1 \<and> wd_amount r' = 600"
proof -
  have "find_withdrawal 11 withdrawal_demo = Some (pending_withdrawal (clock_at 5) 11 1 10 600)"
    by (simp add: withdrawal_demo_def withdrawn_state_def cashback_demo_def find_withdrawal_def pending_withdrawal_def)
  from withdrawal_lifecycle [OF this prod.collapse [symmetric]] show ?thesis
    unfolding pending_withdrawal_def withdrawal_row.simps by blast
qed

section \<open>Detection\<close>

lemma credit_exists_append:
  "credit_exists sid ean xs \<Longrightarrow> credit_exists sid ean (xs @ ys)"
  by (auto simp: credit_exists_def)

lemma has_cashback_mono:
  "has_cashback_for_scan sid ean s \<Longrightarrow> cashback_transactions t = cashback_transactions s @ rows \<Longrightarrow>
   has_cashback_for_scan sid ean t"
  by (simp add: has_cashback_for_scan_def credit_exists_append)

lemma get_active_offer_cong:
  "affiliate_offers t = affiliate_offers s \<Longrightarrow> get_active_offer_by_ean ck ean t = get_active_offer_by_ean ck ean s"
  by (simp add: get_active_offer_by_ean_def)

definition added_balance :: "uuid \<Rightarrow> int \<Rightarrow> (uuid \<Rightarrow> int) \<Rightarrow> uuid \<Rightarrow> int" where
  "added_balance u n b = b(u := b u + n)"

definition detected :: "clock \<Rightarrow> uuid \<Rightarrow> bool \<Rightarrow> receipt_line list \<Rightarrow> db \<Rightarrow> cashback_tx list \<Rightarrow> db \<Rightarrow> bool" where
  "detected ck u subscriber ls s rows t \<longleftrightarrow>
     cashback_transactions t = cashback_transactions s @ rows
     \<and> affiliate_offers t = affiliate_offers s \<and> subscriptions t = subscriptions s
     \<and> get_cashback_balance t = added_balance u (if subscriber then sum_list (map cb_amount rows) else 0) (get_cashback_balance s)
     \<and> (\<forall>r \<in> set rows. \<exists>l \<in> set ls. \<exists>off i. get_active_offer_by_ean ck (ln_ean l) s = Some off
          \<and> r = line_row ck u subscriber off l i \<and> 0 < cb_amount r)
     \<and> (\<forall>l \<in> set ls. get_active_offer_by_ean ck (ln_ean l) s = None \<or> has_cashback_for_scan (ln_scan_id l) (ln_ean l) t)"

lemma detect_line_detected:
  assumes "detect_line ck u subscriber l acc s = (Inr acc', t)"
  shows "\<exists>rows. detected ck u subscriber [l] s rows t \<and> fst acc' = fst acc + sum_list (map cb_amount rows)
    \<and> snd acc' = (snd acc \<or> rows \<noteq> [])"
  using assms unfolding detect_line_Inr
proof (elim disjE conjE exE)
  assume "get_active_offer_by_ean ck (ln_ean l) s = None" "acc' = acc" "t = s"
  then show ?thesis by (intro exI [of _ "[]"]) (simp add: detected_def added_balance_def)
next
  assume "has_cashback_for_scan (ln_scan_id l) (ln_ean l) s" "acc' = acc" "t = s"
  then show ?thesis by (intro exI [of _ "[]"]) (simp add: detected_def added_balance_def)
next
  fix off row
  assume *: "line_credits ck u subscriber off l row s" "acc' = (fst acc + cb_amount row, True)"
    "t = line_state u subscriber row s"
  then have row: "row = line_row ck u subscriber off l (next_uuid s)" "0 < cb_amount row"
      "get_active_offer_by_ean ck (ln_ean l) s = Some off"
    by (auto simp: line_credits_def cashback_insertable_def)
  have "has_cashback_for_scan (ln_scan_id l) (ln_ean l) t"
    by (simp add: *(3) line_state_def has_cashback_for_scan_def credit_exists_def row(1) line_row_def credit_row_def)
  moreover have "get_cashback_balance t = added_balance u (if subscriber then cb_amount row else 0) (get_cashback_balance s)"
    by (auto simp: *(3) line_state_def added_balance_def fun_eq_iff get_cashback_balance_def)
  moreover have "cashback_transactions t = cashback_transactions s @ [row]" "affiliate_offers t = affiliate_offers s"
      "subscriptions t = subscriptions s"
    by (simp_all add: *(3) line_state_def)
  ultimately have "detected ck u subscriber [l] s [row] t"
    using row by (auto simp: detected_def)
  then show ?thesis using *(2) by (intro exI [of _ "[row]"]) simp
qed

lemma detected_trans:
  assumes "detected ck u subscriber [l] s rows1 s1" and "detected ck u subscriber ls s1 rows2 t"
  shows "detected ck u subscriber (l # ls) s (rows1 @ rows2) t"
proof -
  have off: "get_active_offer_by_ean ck ean s1 = get_active_offer_by_ean ck ean s" for ean
    using assms(1) by (intro get_active_offer_cong) (simp add: detected_def)
  have tx: "cashback_transactions t = cashback_transactions s1 @ rows2" using assms(2) by (simp add: detected_def)
  have "get_active_offer_by_ean ck (ln_ean l) s = None \<or> has_cashback_for_scan (ln_scan_id l) (ln_ean l) t"
    using assms(1) has_cashback_mono [OF _ tx] by (auto simp: detected_def)
  moreover have "get_cashback_balance t = added_balance u
      (if subscriber then sum_list (map cb_amount (rows1 @ rows2)) else 0) (get_cashback_balance s)"
    using assms by (auto simp: detected_def added_balance_def)
  ultimately show ?thesis using assms by (auto simp: detected_def off)
qed

lemma detect_loop:
  "for_each (detect_line ck u subscriber) ls acc s = (Inr acc', t) \<Longrightarrow>
   \<exists>rows. detected ck u subscriber ls s rows t \<and> fst acc' = fst acc + sum_list (map cb_amount rows)
     \<and> snd acc' = (snd acc \<or> rows \<noteq> [])"
proof (induction ls arbitrary: acc s)
  case Nil
  then show ?case by (intro exI [of _ "[]"]) (simp add: detected_def added_balance_def)
next
  case (Cons l ls)
  then obtain acc1 s1 where one: "detect_line ck u subscriber l acc s = (Inr acc1, s1)"
    and rest: "for_each (detect_line ck u subscriber) ls acc1 s1 = (Inr acc', t)"
    by (auto simp: bnd_Inr_iff)
  from detect_line_detected [OF one] obtain rows1 where 1: "detected ck u subscriber [l] s rows1 s1"
    "fst acc1 = fst acc + sum_list (map cb_amount rows1)" "snd acc1 = (snd acc \<or> rows1 \<noteq> [])" by blast
  from Cons.IH [OF rest] obtain rows2 where 2: "detected ck u subscriber ls s1 rows2 t"
    "fst acc' = fst acc1 + sum_list (map cb_amount rows2)" "snd acc' = (snd acc1 \<or> rows2 \<noteq> [])" by blast
  from detected_trans [OF 1(1) 2(1)] 1 2 show ?case
    by (intro exI [of _ "rows1 @ rows2"]) simp
qed

lemma hook_leaves_cashback:
  assumes "achievement_hook ck u e s = (r, t)"
  shows "cashback_transactions t = cashback_transactions s \<and> affiliate_offers t = affiliate_offers s
    \<and> user_cashback_balance t = user_cashback_balance s \<and> subscriptions t = subscriptions s"
proof -
  let ?f = "\<lambda>s. (cashback_transactions s, affiliate_offers s, user_cashback_balance s, subscriptions s)"
  have "keeps (\<lambda>x. ?f x = ?f s) (achievement_hook ck u e)"
    by (rule keeps_achievement_hook, rule preservesI)
      (auto simp: unlock_def seq_Inr_iff award_cab_Inr award_state_def split: if_splits)
  from keepsD [OF this _ assms] show ?thesis by simp
qed

lemma detect_cashback_detected:
  assumes "detect_cashback ck u ls s = (Inr n, t)"
  shows "\<exists>rows. detected ck u (active_subscription ck u s) ls s rows t \<and> n = sum_list (map cb_amount rows)"
proof -
  from assms obtain acc s1 where loop: "for_each (detect_line ck u (active_subscription ck u s)) ls (0, False) s = (Inr acc, s1)"
    and hook: "t = s1 \<or> (\<exists>x. achievement_hook ck u ''cashback_credited'' s1 = (Inr x, t))" and n: "n = fst acc"
    by (auto simp: detect_cashback_def bnd_Inr_iff seq_Inr_iff split: if_splits)
  from detect_loop [OF loop] obtain rows where d: "detected ck u (active_subscription ck u s) ls s rows s1"
    "n = sum_list (map cb_amount rows)" using n by auto
  have same: "cashback_transactions t = cashback_transactions s1" "affiliate_offers t = affiliate_offers s1"
      "user_cashback_balance t = user_cashback_balance s1" "subscriptions t = subscriptions s1"
    using hook hook_leaves_cashback by blast+
  then have "detected ck u (active_subscription ck u s) ls s rows t"
    using d(1) by (auto simp: detected_def has_cashback_for_scan_def get_cashback_balance_def fun_eq_iff)
  with d(2) show ?thesis by blast
qed

lemma cashback_amount_half_cent:
  assumes "0 < cashback_amount (Decimal c p) price"
  shows "2 * (c * price) - 10 ^ p < cashback_amount (Decimal c p) price * (2 * 10 ^ p)
    \<and> cashback_amount (Decimal c p) price * (2 * 10 ^ p) \<le> 2 * (c * price) + 10 ^ p"
proof -
  have "0 \<le> c * price"
  proof (rule ccontr)
    assume "\<not> 0 \<le> c * price"
    then have "c * price < 0" by simp
    then have "sgn (c * price) = -1" by (rule sgn_neg)
    moreover have "0 \<le> (2 * \<bar>c * price\<bar> + 10 ^ p) div (2 * 10 ^ p)" by (simp add: pos_imp_zdiv_nonneg_iff)
    ultimately show False using assms by (simp add: cashback_amount_def)
  qed
  from quantize_half_up_error [OF this] show ?thesis by (simp add: cashback_amount_def)
qed

text \<open>
  Detection returns the sum of the credits it appends; each is a pending credit of
  the user for a line with an active offer, positive and within half a cent of rate times price. A
  subscriber's balance grows by exactly that sum, everybody else's stays.
\<close>

theorem detect_cashback_exact:
  assumes "detect_cashback ck u ls s = (Inr n, t)"
  shows "\<exists>rows. cashback_transactions t = cashback_transactions s @ rows \<and> n = sum_list (map cb_amount rows)
    \<and> (\<forall>r \<in> set rows. cb_user_id r = u \<and> cb_type r = ''CREDIT'' \<and> cb_status r = ''pending'' \<and> 0 < cb_amount r
        \<and> (\<exists>l \<in> set ls. \<exists>off c p. get_active_offer_by_ean ck (ln_ean l) s = Some off
             \<and> cb_product_ean r = Some (ln_ean l) \<and> cb_scan_id r = Some (ln_scan_id l)
             \<and> of_cashback_rate off = Decimal c p
             \<and> 2 * (c * ln_price l) - 10 ^ p < cb_amount r * (2 * 10 ^ p)
             \<and> cb_amount r * (2 * 10 ^ p) \<le> 2 * (c * ln_price l) + 10 ^ p))
    \<and> get_cashback_balance t u = get_cashback_balance s u + (if active_subscription ck u s then n else 0)
    \<and> (\<forall>v. v \<noteq> u \<longrightarrow> get_cashback_balance t v = get_cashback_balance s v)"
proof -
  from detect_cashback_detected [OF assms] obtain rows where
    d: "detected ck u (active_subscription ck u s) ls s rows t" and n: "n = sum_list (map cb_amount rows)" by blast
  have "cb_user_id r = u \<and> cb_type r = ''CREDIT'' \<and> cb_status r = ''pending'' \<and> 0 < cb_amount r
        \<and> (\<exists>l \<in> set ls. \<exists>off c p. get_active_offer_by_ean ck (ln_ean l) s = Some off
             \<and> cb_product_ean r = Some (ln_ean l) \<and> cb_scan_id r = Some (ln_scan_id l)
             \<and> of_cashback_rate off = Decimal c p
             \<and> 2 * (c * ln_price l) - 10 ^ p < cb_amount r * (2 * 10 ^ p)
             \<and> cb_amount r * (2 * 10 ^ p) \<le> 2 * (c * ln_price l) + 10 ^ p)"
    if "r \<in> set rows" for r
  proof -
    from d that obtain l off i where l: "l \<in> set ls" "get_active_offer_by_ean ck (ln_ean l) s = Some off"
      "r = line_row ck u (active_subscription ck u s) off l i" "0 < cb_amount r" unfolding detected_def by blast
    obtain c p where rate: "of_cashback_rate off = Decimal c p" by (cases "of_cashback_rate off")
    have "0 < cashback_amount (Decimal c p) (ln_price l)" using l rate by (simp add: line_row_def credit_row_def)
    from cashback_amount_half_cent [OF this] l rate show ?thesis
      by (auto simp: line_row_def credit_row_def intro!: bexI [OF _ l(1)])
  qed
  then show ?thesis
    using d n by (intro exI [of _ rows]) (simp add: detected_def added_balance_def)
qed

definition demo_offer :: "decimal \<Rightarrow> offer_row" where
  "demo_offer rate = \<lparr> of_id = 2, of_provider = ''awin'', of_external_id = ''x'', of_product_ean = ''ean'',
     of_brand_id = 3, of_cashback_rate = rate, of_valid_from = 0, of_valid_until = None, of_created_at = 0 \<rparr>"

definition demo_line :: receipt_line where
  "demo_line = \<lparr> ln_ean = ''ean'', ln_price = 250, ln_scan_id = 8 \<rparr>"

definition offer_demo :: "decimal \<Rightarrow> db" where
  "offer_demo rate = empty_db\<lparr> next_uuid := 10, affiliate_offers := [demo_offer rate],
     subscriptions := [\<lparr> su_user_id = 1, su_status = ''active'', su_plan = Some ''monthly'', su_started_at = 0, su_expires_at = 100 \<rparr>] \<rparr>"

lemma seq_hook_no_user: "users s u = None \<Longrightarrow> seq (achievement_hook ck u e) m s = m s"
  by (simp add: achievement_hook_def check_achievements_def catch_def seq_run_Inr)

lemma offer_demo_run:
  "detect_cashback (clock_at 5) 1 [demo_line] (offer_demo (Decimal 500 4)) =
     (Inr 13, (offer_demo (Decimal 500 4))\<lparr> next_uuid := 11, user_cashback_balance := [1 \<mapsto> 13],
        cashback_transactions := [credit_row (clock_at 5) 10 1 2 ''ean'' 13 8 (Some 5)] \<rparr>)"
  by (simp add: detect_cashback_def active_subscription_def offer_demo_def demo_offer_def demo_line_def clock_at_def
      detect_line_def get_active_offer_by_ean_def has_cashback_for_scan_def credit_exists_def cashback_amount_def
      insert_cashback_credit_def insert_cashback_tx_def credit_cashback_balance_def cashback_types_def
      cashback_statuses_def seq_hook_no_user fits_int4_def credit_row_def Let_def)

theorem detect_cashback_exact_witness:
  "\<exists>t. detect_cashback (clock_at 5) 1 [demo_line] (offer_demo (Decimal 500 4)) = (Inr 13, t)
     \<and> get_cashback_balance t 1 = get_cashback_balance (offer_demo (Decimal 500 4)) 1 + 13"
proof -
  let ?s = "offer_demo (Decimal 500 4)"
  have sub: "active_subscription (clock_at 5) 1 ?s"
    by (simp add: active_subscription_def offer_demo_def clock_at_def)
  obtain t where run: "detect_cashback (clock_at 5) 1 [demo_line] ?s = (Inr 13, t)" using offer_demo_run by blast
  from detect_cashback_exact [OF run] have
    "get_cashback_balance t 1 = get_cashback_balance ?s 1 + (if active_subscription (clock_at 5) 1 ?s then 13 else 0)"
    by blast
  with run sub show ?thesis by auto
qed

lemma detect_skips:
  assumes "\<And>l. l \<in> set ls \<Longrightarrow> get_active_offer_by_ean ck (ln_ean l) s = None
     \<or> has_cashback_for_scan (ln_scan_id l) (ln_ean l) s"
  shows "for_each (detect_line ck u subscriber) ls acc s = (Inr acc, s)"
  using assms
proof (induction ls)
  case Nil
  then show ?case by simp
next
  case (Cons l ls)
  have "detect_line ck u subscriber l acc s = (Inr acc, s)"
    using Cons.prems [of l] by (auto simp: detect_line_Inr)
  with Cons show ?case by (simp add: bnd_run_Inr)
qed

text \<open>
  A detection that is sent again, at any later time at which no offer for the lines
  has newly become active, returns 0 and changes nothing: no second credit, no second advance, no
  achievement.
\<close>

theorem detect_cashback_idempotent:
  assumes "detect_cashback ck u ls s = (Inr n, t)"
    and "\<And>l. l \<in> set ls \<Longrightarrow> get_active_offer_by_ean ck' (ln_ean l) t \<noteq> None \<Longrightarrow>
      get_active_offer_by_ean ck (ln_ean l) s \<noteq> None"
  shows "detect_cashback ck' v ls t = (Inr 0, t)"
proof -
  from detect_cashback_detected [OF assms(1)] have
    "\<forall>l \<in> set ls. get_active_offer_by_ean ck (ln_ean l) s = None \<or> has_cashback_for_scan (ln_scan_id l) (ln_ean l) t"
    by (auto simp: detected_def)
  with assms(2) have "for_each (detect_line ck' v sub) ls acc t = (Inr acc, t)" for sub acc
    by (intro detect_skips) blast
  then show ?thesis by (simp add: detect_cashback_def bnd_run_Inr)
qed

theorem detect_cashback_idempotent_witness:
  "\<exists>t. detect_cashback (clock_at 5) 1 [demo_line] (offer_demo (Decimal 500 4)) = (Inr 13, t)
     \<and> detect_cashback (clock_at 90) 1 [demo_line] t = (Inr 0, t)"
  by (intro exI conjI, rule offer_demo_run, rule detect_cashback_idempotent [OF offer_demo_run])
    (simp add: get_active_offer_by_ean_def offer_demo_def demo_offer_def demo_line_def clock_at_def)


section \<open>Boosts and withdrawals\<close>

text \<open>
  The boost the balance page quotes is the boost that is charged: when the page
  offers a transaction for a number of CAB and the user boosts it at that moment, the boost takes
  exactly that number of CAB and adds exactly the quoted amount to the cashback balance.
\<close>

theorem boost_quote_is_charged:
  assumes "cashback_get_balance cfg ck u s = (Inr (b, items), s)" and "item \<in> set items"
    and "pe_boost_cost_cab item = Some cost"
    and "distinct (map cb_id (cashback_transactions s))"
    and "boost cfg ck u (pe_id item) s = (Inr res, t)"
  shows "bo_boost_cost_cab res = cost \<and> bo_boost_amount res = pe_amount item
    \<and> user_cab_balance t = (user_cab_balance s)(u \<mapsto> the (user_cab_balance s u) - cost)
    \<and> cost \<le> the (user_cab_balance s u)
    \<and> get_cashback_balance t u = b + pe_amount item"
proof -
  from assms(1,2) obtain r where r: "r \<in> set (cashback_transactions s)" "item = pending_item_of cfg ck r"
    and b: "b = get_cashback_balance s u"
    by (auto simp: cashback_get_balance_def get_pending_credits_def)
  have id: "pe_id item = cb_id r" and amt: "pe_amount item = cb_amount r" and cost: "cost = boost_cost cfg (cb_amount r)"
    using r(2) assms(3) by (auto simp: pending_item_of_def Let_def split: if_splits)
  have "get_cashback_tx (pe_id item) s = Some r"
    using find_distinct_key [OF assms(4) r(1)] by (simp add: get_cashback_tx_def id)
  with assms(5) show ?thesis
    by (auto simp: boost_def boost_cashback_def catch_Inr_iff db_transaction_Inr_iff bnd_Inr_iff seq_Inr_iff Let_def
        mark_boost_applied_def debit_cab_Inr insert_cashback_boost_Inr credit_cashback_balance_Inr cost amt b
        get_cashback_balance_def split: if_splits)
qed

definition boost_demo :: db where
  "boost_demo = empty_db\<lparr> next_uuid := 20, user_cab_balance := [1 \<mapsto> 300],
     cashback_transactions := [credit_row (clock_at 0) 7 1 2 ''ean'' 100 8 None] \<rparr>"

lemma boost_demo_page:
  "cashback_get_balance demo_cfg (clock_at 5) 1 boost_demo =
     (Inr (0, [pending_item_of demo_cfg (clock_at 5) (credit_row (clock_at 0) 7 1 2 ''ean'' 100 8 None)]), boost_demo)"
  by (simp add: cashback_get_balance_def get_cashback_balance_def boost_demo_def get_pending_credits_def credit_row_def)

lemma boost_demo_run: "\<exists>t. boost demo_cfg (clock_at 5) 1 7 boost_demo =
    (Inr \<lparr> bo_boost_amount = 100, bo_boost_cost_cab = 50 \<rparr>, t)"
  by (simp add: boost_def catch_def db_transaction_def boost_cashback_def get_cashback_tx_def boost_demo_def
      credit_row_def demo_cfg_def clock_at_def mark_boost_applied_def count_where_def boost_cost_def debit_cab_def
      VALID_REASONS_def update_cab_minus_def insert_cab_tx_def CAB_REASONS_def fits_int4_def
      validate_reference_type_def insert_cashback_boost_def insert_cashback_tx_def cashback_parent_types_def
      cashback_types_def cashback_statuses_def credit_cashback_balance_def Let_def)

theorem boost_quote_is_charged_witness:
  "\<exists>t. boost demo_cfg (clock_at 5) 1 7 boost_demo = (Inr \<lparr> bo_boost_amount = 100, bo_boost_cost_cab = 50 \<rparr>, t)
     \<and> user_cab_balance t = [1 \<mapsto> 250] \<and> get_cashback_balance t 1 = 100"
proof -
  obtain t where run: "boost demo_cfg (clock_at 5) 1 7 boost_demo =
      (Inr \<lparr> bo_boost_amount = 100, bo_boost_cost_cab = 50 \<rparr>, t)" using boost_demo_run by blast
  have item: "pe_id (pending_item_of demo_cfg (clock_at 5) (credit_row (clock_at 0) 7 1 2 ''ean'' 100 8 None)) = 7"
    "pe_boost_cost_cab (pending_item_of demo_cfg (clock_at 5) (credit_row (clock_at 0) 7 1 2 ''ean'' 100 8 None)) = Some 50"
    "pe_amount (pending_item_of demo_cfg (clock_at 5) (credit_row (clock_at 0) 7 1 2 ''ean'' 100 8 None)) = 100"
    by (simp_all add: pending_item_of_def credit_row_def demo_cfg_def clock_at_def boost_cost_def)
  have "distinct (map cb_id (cashback_transactions boost_demo))" by (simp add: boost_demo_def)
  from boost_quote_is_charged [OF boost_demo_page _ item(2) this, unfolded item, OF _ run] show ?thesis
    using run by (simp add: boost_demo_def)
qed

text \<open>The two halves of the withdrawal route: the committed debit, and the reference if one is stored.\<close>

lemma withdraw_Inr:
  assumes "withdraw cfg env ck u n s = (Inr (w, m), t)"
  shows "m = n \<and> 0 < n \<and> (\<exists>s1. withdraw_cashback cfg ck u n s = (Inr w, s1)
    \<and> (case fst (initiate_payout env w n s1) of
         Inl e \<Rightarrow> t = s1
       | Inr ref \<Rightarrow> t = snd (db_transaction (set_withdrawal_provider_ref ck w ref) s1)))"
  using assms
  by (auto simp: withdraw_def bnd_Inr_iff seq_Inr_iff catch_Inr_iff db_transaction_Inr_iff db_transaction_Inl_iff
      initiate_payout_def snd_db_transaction split: if_splits option.splits stripe_response.splits sum.splits)

lemma provider_ref_run:
  assumes "find_withdrawal w s = Some (pending_withdrawal ck i u tx n)" and "0 < n"
  shows "set_withdrawal_provider_ref ck' w ref s = (Inr (), s\<lparr> cashback_withdrawals := update_where (\<lambda>r. wd_id r = w)
      (\<lambda>r. r\<lparr> wd_provider_ref := Some ref, wd_provider_initiated_at := Some (now ck') \<rparr>) (cashback_withdrawals s) \<rparr>)"
  using assms by (simp add: withdrawal_run_iff pending_withdrawal_def withdrawal_row_ok_def withdrawal_statuses_def)

lemma withdraw_row:
  assumes "withdraw cfg env ck u n s = (Inr (w, m), t)" and "\<forall>r \<in> set (cashback_withdrawals s). wd_id r \<noteq> w"
  shows "m = n \<and> cashback_min_withdrawal cfg \<le> n
    \<and> (\<exists>b. user_cashback_balance s u = Some b \<and> n \<le> b \<and> user_cashback_balance t = (user_cashback_balance s)(u \<mapsto> b - n))
    \<and> (\<exists>r. find_withdrawal w t = Some r \<and> wd_amount r = n \<and> wd_user_id r = u \<and> wd_status r = ''pending''
         \<and> wd_provider_ref r = (case fst (initiate_payout env w n s) of Inl _ \<Rightarrow> None | Inr ref \<Rightarrow> Some ref))"
proof -
  from withdraw_Inr [OF assms(1)] obtain s1 where m: "m = n" "0 < n" and run: "withdraw_cashback cfg ck u n s = (Inr w, s1)"
    and rest: "case fst (initiate_payout env w n s1) of Inl e \<Rightarrow> t = s1
       | Inr ref \<Rightarrow> t = snd (db_transaction (set_withdrawal_provider_ref ck w ref) s1)" by blast
  from run obtain b where b: "user_cashback_balance s u = Some b" "n \<le> b" and s1: "s1 = withdrawn_state ck u n s"
    and w: "w = Suc (next_uuid s)" and min: "cashback_min_withdrawal cfg \<le> n" by (auto simp: withdraw_cashback_Inr)
  have "List.find (\<lambda>r. wd_id r = w) (cashback_withdrawals s) = None" using assms(2) by (simp add: find_None_iff)
  then have row: "find_withdrawal w s1 = Some (pending_withdrawal ck w u (next_uuid s) n)"
    by (simp add: s1 withdrawn_state_def find_withdrawal_def find_append pending_withdrawal_def w)
  have answer: "fst (initiate_payout env w n s1) = fst (initiate_payout env w n s)"
    by (simp add: initiate_payout_def split: stripe_response.splits)
  have bal: "user_cashback_balance s1 = (user_cashback_balance s)(u \<mapsto> b - n)"
    using b by (simp add: s1 withdrawn_state_def get_cashback_balance_Some)
  have "find_withdrawal w t = Some ((pending_withdrawal ck w u (next_uuid s) n)
      \<lparr> wd_provider_ref := (case fst (initiate_payout env w n s) of Inl _ \<Rightarrow> None | Inr ref \<Rightarrow> Some ref),
        wd_provider_initiated_at := (case fst (initiate_payout env w n s) of Inl _ \<Rightarrow> None | Inr ref \<Rightarrow> Some (now ck)) \<rparr>)
      \<and> user_cashback_balance t = user_cashback_balance s1"
    using rest row by (cases "fst (initiate_payout env w n s)")
      (simp_all add: answer provider_ref_run [OF row m(2)] db_transaction_def find_withdrawal_update pending_withdrawal_def)
  with m min b bal show ?thesis by (auto simp: pending_withdrawal_def)
qed

text \<open>
  C12 (roundtrip). A withdrawal request debits exactly its amount; refused with a refund it restores
  the user's cashback balance exactly and is left as a failed withdrawal of that amount. This holds
  whatever the payment provider answered: when it had already accepted the payout, the refused
  row carries its reference and the balance is credited again all the same.
\<close>

theorem withdraw_refuse_roundtrip:
  assumes "withdraw cfg env ck u n s = (Inr (w, m), t)"
    and "admin_refuse w reason True t = (Inr x, t')"
    and "\<forall>r \<in> set (cashback_withdrawals s). wd_id r \<noteq> w"
  shows "m = n \<and> cashback_min_withdrawal cfg \<le> n
    \<and> get_cashback_balance t u = get_cashback_balance s u - n \<and> 0 \<le> get_cashback_balance t u
    \<and> user_cashback_balance t' = user_cashback_balance s
    \<and> (\<exists>r. find_withdrawal w t' = Some r \<and> wd_status r = ''failed'' \<and> wd_amount r = n \<and> wd_user_id r = u
         \<and> wd_provider_ref r = (case fst (initiate_payout env w n s) of Inl _ \<Rightarrow> None | Inr ref \<Rightarrow> Some ref))"
proof -
  from withdraw_row [OF assms(1,3)] obtain b r where m: "m = n" "cashback_min_withdrawal cfg \<le> n"
    and b: "user_cashback_balance s u = Some b" "n \<le> b" "user_cashback_balance t = (user_cashback_balance s)(u \<mapsto> b - n)"
    and r: "find_withdrawal w t = Some r" "wd_amount r = n" "wd_user_id r = u"
      "wd_provider_ref r = (case fst (initiate_payout env w n s) of Inl _ \<Rightarrow> None | Inr ref \<Rightarrow> Some ref)" by blast
  from assms(2) have ref: "admin_refuse_withdrawal w reason True t = (Inr x, t')"
    by (auto simp: admin_refuse_def catch_Inr_iff db_transaction_Inr_iff split: if_splits)
  from admin_refuse_Inr [OF ref] r b have "user_cashback_balance t' = user_cashback_balance s"
    by (auto simp: get_cashback_balance_def)
  moreover from admin_refuse_Inr [OF ref] r
  have "find_withdrawal w t' = Some (r\<lparr> wd_status := ''failed'', wd_failure_reason := Some reason \<rparr>)"
    by (auto simp: find_withdrawal_update)
  ultimately show ?thesis using m b r by (simp add: get_cashback_balance_def)
qed

definition paying_env :: payout_env where
  "paying_env = \<lparr> payment_provider_key = ''sk'', stripe_payouts = \<lambda>_ _. PayoutId ''po'' \<rparr>"

lemmas withdraw_eval = withdraw_def demo_cfg_def paying_env_def catch_def bnd_def seq_def db_transaction_def
  withdraw_cashback_def debit_cashback_balance_def cashback_demo_def boost_row_def clock_at_def fits_int4_def
  insert_cashback_withdrawal_tx_def insert_cashback_tx_def cashback_types_def cashback_statuses_def
  insert_cashback_withdrawal_def check_withdrawal_def withdrawal_statuses_def initiate_payout_def
  set_withdrawal_provider_ref_def update_withdrawal_def find_withdrawal_def

lemma paying_run:
  "\<exists>t t'. withdraw demo_cfg paying_env (clock_at 5) 1 600 (cashback_demo 1000) = (Inr (11, 600), t)
     \<and> admin_refuse 11 ''fraud'' True t = (Inr (), t')"
  by (simp add: withdraw_eval admin_refuse_def admin_refuse_withdrawal_def get_withdrawal_for_update_def
      mark_withdrawal_failed_def credit_cashback_balance_def)

theorem withdraw_refuse_roundtrip_witness:
  "\<exists>t t'. withdraw demo_cfg paying_env (clock_at 5) 1 600 (cashback_demo 1000) = (Inr (11, 600), t)
     \<and> admin_refuse 11 ''fraud'' True t = (Inr (), t')
     \<and> get_cashback_balance t 1 = 400 \<and> user_cashback_balance t' = [1 \<mapsto> 1000]
     \<and> (\<exists>r. find_withdrawal 11 t' = Some r \<and> wd_provider_ref r = Some (ProviderRef ''po''))"
proof -
  from paying_run obtain t t' where run: "withdraw demo_cfg paying_env (clock_at 5) 1 600 (cashback_demo 1000) = (Inr (11, 600), t)"
    "admin_refuse 11 ''fraud'' True t = (Inr (), t')" by blast
  have "\<forall>r \<in> set (cashback_withdrawals (cashback_demo 1000)). wd_id r \<noteq> 11" by (simp add: cashback_demo_def)
  from withdraw_refuse_roundtrip [OF run this] run show ?thesis
    by (auto simp: cashback_demo_def get_cashback_balance_def paying_env_def initiate_payout_def)
qed


section \<open>Cashback and the CAB ledger\<close>

lemma boosted_amount_cong:
  "user_streaks t = user_streaks s \<Longrightarrow> community_multipliers t = community_multipliers s \<Longrightarrow>
   boosted_amount ck u scope n ap cm t = boosted_amount ck u scope n ap cm s"
  by (cases cm) (simp_all add: boosted_amount_def get_streak_multiplier_def get_active_community_multiplier_def)

lemma boost_cashback_state:
  assumes "boost_cashback cfg ck u i s = (Inr res, t)"
  shows "\<exists>r b. get_cashback_tx i s = Some r \<and> user_cab_balance s u = Some b \<and> cb_user_id r = u
    \<and> bo_boost_amount res = cb_amount r \<and> bo_boost_cost_cab res = boost_cost cfg (cb_amount r)
    \<and> user_cab_balance t = (user_cab_balance s)(u \<mapsto> b - bo_boost_cost_cab res)
    \<and> get_cashback_balance t u = get_cashback_balance s u + cb_amount r
    \<and> user_streaks t = user_streaks s \<and> community_multipliers t = community_multipliers s
    \<and> (\<exists>j. cashback_transactions t = update_where (\<lambda>r. cb_id r = i \<and> \<not> cb_boost_applied r)
          (\<lambda>r. r\<lparr> cb_boost_applied := True \<rparr>) (cashback_transactions s)
          @ [boost_row ck j u i (cb_offer_id r) (cb_product_ean r) (cb_amount r)])"
proof -
  from assms obtain r s1 where r: "get_cashback_tx i s = Some r" "cb_user_id r = u"
    and s1: "mark_boost_applied i s = (Inr True, s1)"
    and "seq (debit_cab ck u (boost_cost cfg (cb_amount r)) ''cashback_boost_debit'' None None None)
            (seq (insert_cashback_boost ck u i (cb_offer_id r) (cb_product_ean r) (cb_amount r))
            (seq (credit_cashback_balance u (cb_amount r))
            (ret \<lparr> bo_boost_amount = cb_amount r, bo_boost_cost_cab = boost_cost cfg (cb_amount r) \<rparr>))) s1 = (Inr res, t)"
    by (auto simp: boost_cashback_def bnd_Inr_iff Let_def split: option.splits if_splits)
  then obtain s2 s3 j k where
        s2: "debit_cab ck u (boost_cost cfg (cb_amount r)) ''cashback_boost_debit'' None None None s1 = (Inr k, s2)"
    and s3: "insert_cashback_boost ck u i (cb_offer_id r) (cb_product_ean r) (cb_amount r) s2 = (Inr j, s3)"
    and t: "credit_cashback_balance u (cb_amount r) s3 = (Inr (), t)"
    and res: "res = \<lparr> bo_boost_amount = cb_amount r, bo_boost_cost_cab = boost_cost cfg (cb_amount r) \<rparr>"
    by (auto simp: seq_Inr_iff)
  from s1 have 1: "s1 = s\<lparr> cashback_transactions := update_where (\<lambda>r. cb_id r = i \<and> \<not> cb_boost_applied r)
          (\<lambda>r. r\<lparr> cb_boost_applied := True \<rparr>) (cashback_transactions s) \<rparr>"
    by (auto simp: mark_boost_applied_def)
  from s2 obtain b where b: "user_cab_balance s u = Some b" and
    2: "user_cab_balance s2 = (user_cab_balance s)(u \<mapsto> b - boost_cost cfg (cb_amount r))"
      "cashback_transactions s2 = cashback_transactions s1" "get_cashback_balance s2 u = get_cashback_balance s u"
      "user_streaks s2 = user_streaks s" "community_multipliers s2 = community_multipliers s"
    by (auto simp: debit_cab_Inr 1 get_cashback_balance_def)
  from s3 have 3: "cashback_transactions s3 = cashback_transactions s2
      @ [boost_row ck j u i (cb_offer_id r) (cb_product_ean r) (cb_amount r)]"
      "user_cab_balance s3 = user_cab_balance s2" "get_cashback_balance s3 u = get_cashback_balance s2 u"
      "user_streaks s3 = user_streaks s2" "community_multipliers s3 = community_multipliers s2"
    by (auto simp: insert_cashback_boost_Inr)
  from t have 4: "cashback_transactions t = cashback_transactions s3" "user_cab_balance t = user_cab_balance s3"
      "get_cashback_balance t u = get_cashback_balance s3 u + cb_amount r"
      "user_streaks t = user_streaks s3" "community_multipliers t = community_multipliers s3"
    by (auto simp: credit_cashback_balance_Inr)
  show ?thesis by (intro exI [of _ r] exI [of _ b] exI [of _ j] conjI) (simp_all add: r b res 1 2 3 4)
qed

text \<open>
  When a boosted credit is refused, the user keeps the boosted cashback and gets
  CAB back: not the cost of the boost but the cost with the streak and community bonus of that
  moment on top, so a user with a streak ends with more CAB than before the boost.
\<close>

theorem boost_refusal_refund:
  assumes "boost cfg ck u i s = (Inr res, s1)" and "resolve_route cfg ck' i ''refused'' s1 = (Inr x, t)"
    and "get_boost_child i s = None" and "user_cab_balance s u = Some b"
  shows "user_cab_balance t u = Some (b - bo_boost_cost_cab res
      + boosted_amount ck' u ''cab'' (bo_boost_cost_cab res) True None s)
    \<and> get_cashback_balance t u = get_cashback_balance s u + bo_boost_amount res"
proof -
  from assms(1) have "boost_cashback cfg ck u i s = (Inr res, s1)"
    by (auto simp: boost_def catch_Inr_iff db_transaction_Inr_iff)
  from boost_cashback_state [OF this] obtain r :: cashback_tx and b' j where "user_cab_balance s u = Some b'"
    and res: "bo_boost_amount res = cb_amount r" "bo_boost_cost_cab res = boost_cost cfg (cb_amount r)"
    and bal: "user_cab_balance s1 = (user_cab_balance s)(u \<mapsto> b' - bo_boost_cost_cab res)"
      "get_cashback_balance s1 u = get_cashback_balance s u + cb_amount r"
    and same: "user_streaks s1 = user_streaks s" "community_multipliers s1 = community_multipliers s"
    and tx: "cashback_transactions s1 = update_where (\<lambda>r. cb_id r = i \<and> \<not> cb_boost_applied r)
          (\<lambda>r. r\<lparr> cb_boost_applied := True \<rparr>) (cashback_transactions s)
          @ [boost_row ck j u i (cb_offer_id r) (cb_product_ean r) (cb_amount r)]"
    by blast
  with assms(4) have b: "user_cab_balance s1 u = Some (b - bo_boost_cost_cab res)" by simp
  let ?st = "\<lambda>r. r\<lparr> cb_status := ''refused'' \<rparr>" and ?row = "boost_row ck j u i (cb_offer_id r) (cb_product_ean r) (cb_amount r)"
  have "get_boost_child i s1 = Some ?row"
    using assms(3) by (simp add: get_boost_child_def tx find_append find_update_where_any boost_row_def)
  then have "get_boost_child i (update_cashback_tx i ?st s1) = Some (if cb_id ?row = i then ?st ?row else ?row)"
    by (simp add: get_boost_child_def update_cashback_tx_def find_update_where_any)
  then obtain child where child: "get_boost_child i (update_cashback_tx i ?st s1) = Some child"
    "cb_user_id child = u" "cb_amount child = cb_amount r" by (auto simp: boost_row_def)
  define s2 where "s2 = update_cashback_tx (cb_id child) ?st (update_cashback_tx i ?st s1)"
  have s2: "user_cab_balance s2 = user_cab_balance s1" "user_cashback_balance s2 = user_cashback_balance s1"
      "user_streaks s2 = user_streaks s" "community_multipliers s2 = community_multipliers s"
    by (simp_all add: s2_def update_cashback_tx_def same)
  have "refuse_credit cfg ck' i s1 = (Inr x, t)"
    using assms(2) by (auto simp: resolve_route_def catch_Inr_iff db_transaction_Inr_iff resolve_cashback_Inr)
  then have "award_cab ck' u (bo_boost_cost_cab res) ''cashback_boost_refund'' None None True None True None s2 = (Inr x, t)"
    using child by (auto simp: refuse_credit_def update_cashback_tx_status_def s2_def res split: if_splits)
  then have t: "user_cab_balance t = credited u (boosted_amount ck' u ''cab'' (bo_boost_cost_cab res) True None s) (user_cab_balance s1)"
      "user_cashback_balance t = user_cashback_balance s1"
    using boosted_amount_cong [OF s2(3,4)] by (auto simp: award_cab_Inr award_state_def s2(1,2))
  show ?thesis using b bal(2) t res by (simp add: credited_def get_cashback_balance_def)
qed

definition refund_demo :: db where
  "refund_demo = (cab_demo 300)\<lparr> user_streaks := [7 \<mapsto> fed_row 3 0 20000 ''Europe/Paris''], next_uuid := 20,
     cashback_transactions := [credit_row demo_clock 9 7 2 ''ean'' 200 8 None] \<rparr>"

lemma refund_demo_bonus: "boosted_amount demo_clock 7 ''cab'' 100 True None refund_demo = 114"
proof -
  have "boosted_amount demo_clock 7 ''cab'' 100 True None refund_demo =
      boosted_amount demo_clock 7 ''cab'' 100 True (Some (Dbl 0 0)) streak_demo"
    by (simp add: boosted_amount_def get_streak_multiplier_def get_active_community_multiplier_def refund_demo_def
        streak_demo_def cab_demo_def)
  then show ?thesis by (simp add: streak_demo_bonus)
qed

lemma refund_demo_boost:
  "\<exists>s1. boost demo_cfg demo_clock 7 9 refund_demo = (Inr \<lparr> bo_boost_amount = 200, bo_boost_cost_cab = 100 \<rparr>, s1)
     \<and> get_cashback_tx 9 s1 = Some ((credit_row demo_clock 9 7 2 ''ean'' 200 8 None)\<lparr> cb_boost_applied := True \<rparr>)
     \<and> cab_ids_ok s1 \<and> user_cab_balance s1 = [7 \<mapsto> 200]
     \<and> active_season_id s1 = None
     \<and> get_boost_child 9 s1 = Some (boost_row demo_clock 21 7 9 (Some 2) (Some ''ean'') 200)
     \<and> user_streaks s1 = user_streaks refund_demo \<and> community_multipliers s1 = community_multipliers refund_demo"
  by (simp add: boost_def catch_def db_transaction_def boost_cashback_def get_cashback_tx_def refund_demo_def cab_demo_def
      credit_row_def demo_cfg_def mark_boost_applied_def count_where_def boost_cost_def debit_cab_def
      VALID_REASONS_def update_cab_minus_def insert_cab_tx_def CAB_REASONS_def fits_int4_def cab_ids_ok_def
      validate_reference_type_def insert_cashback_boost_def insert_cashback_tx_def cashback_parent_types_def
      cashback_types_def cashback_statuses_def credit_cashback_balance_def Let_def get_boost_child_def boost_row_def
      active_season_id_def)

theorem boost_refusal_refund_witness:
  "\<exists>s1 t. boost demo_cfg demo_clock 7 9 refund_demo = (Inr \<lparr> bo_boost_amount = 200, bo_boost_cost_cab = 100 \<rparr>, s1)
     \<and> resolve_route demo_cfg demo_clock 9 ''refused'' s1 = (Inr (), t)
     \<and> user_cab_balance refund_demo 7 = Some 300 \<and> user_cab_balance t 7 = Some 314"
proof -
  let ?st = "\<lambda>r. r\<lparr> cb_status := ''refused'' \<rparr>"
  from refund_demo_boost obtain s1 where
    run: "boost demo_cfg demo_clock 7 9 refund_demo = (Inr \<lparr> bo_boost_amount = 200, bo_boost_cost_cab = 100 \<rparr>, s1)"
    and tx: "get_cashback_tx 9 s1 = Some ((credit_row demo_clock 9 7 2 ''ean'' 200 8 None)\<lparr> cb_boost_applied := True \<rparr>)"
    and s1: "cab_ids_ok s1" "user_cab_balance s1 = [7 \<mapsto> 200]" "active_season_id s1 = None"
    and child: "get_boost_child 9 s1 = Some (boost_row demo_clock 21 7 9 (Some 2) (Some ''ean'') 200)"
    and same: "user_streaks s1 = user_streaks refund_demo" "community_multipliers s1 = community_multipliers refund_demo" by blast
  define s2 where "s2 = update_cashback_tx 21 ?st (update_cashback_tx 9 ?st s1)"
  have child': "get_boost_child 9 (update_cashback_tx 9 ?st s1) = Some (boost_row demo_clock 21 7 9 (Some 2) (Some ''ean'') 200)"
    using child by (simp add: get_boost_child_def update_cashback_tx_def find_update_where_any boost_row_def)
  have bonus: "boosted_amount demo_clock 7 ''cab'' 100 True None s2 = 114"
    using boosted_amount_cong [of s2 refund_demo] same refund_demo_bonus by (simp add: s2_def update_cashback_tx_def)
  have "awardable demo_clock 7 ''cashback_boost_refund'' None None True None 114 s2"
    using s1 by (intro awardable_plain [where b = 200])
      (auto simp: CAB_REASONS_def s2_def update_cashback_tx_def active_season_id_def)
  then have "award_cab demo_clock 7 100 ''cashback_boost_refund'' None None True None True None s2 =
      (Inr (), award_state demo_clock 7 ''cashback_boost_refund'' None None True None 114 s2)"
    by (simp add: award_cab_Inr bonus)
  then have "refuse_credit demo_cfg demo_clock 9 s1 =
      (Inr (), award_state demo_clock 7 ''cashback_boost_refund'' None None True None 114 s2)"
    using child' by (simp add: refuse_credit_def update_cashback_tx_status_def cashback_statuses_def boost_row_def
        boost_cost_def demo_cfg_def s2_def)
  then have refuse: "resolve_route demo_cfg demo_clock 9 ''refused'' s1 =
      (Inr (), award_state demo_clock 7 ''cashback_boost_refund'' None None True None 114 s2)"
    by (simp add: resolve_route_def catch_def db_transaction_def resolve_cashback_def tx credit_row_def)
  have "get_boost_child 9 refund_demo = None" "user_cab_balance refund_demo 7 = Some 300"
    by (simp_all add: refund_demo_def get_boost_child_def credit_row_def cab_demo_def)
  from boost_refusal_refund [OF run refuse this] run refuse this(2) show ?thesis by (auto simp: refund_demo_bonus)
qed


text \<open>The cashback routes keep the CAB ledger in step as well.\<close>

lemma preserves_cab_cashback_statements:
  "preserves cab_ok (detect_line ck u sub l acc)"
  "preserves cab_ok (mark_boost_applied i)"
  "preserves cab_ok (insert_cashback_boost ck u p off ean n)"
  "preserves cab_ok (credit_cashback_balance u n)"
  "preserves cab_ok (update_cashback_tx_status i st)"
  "preserves cab_ok (update_cashback_tx_distributed ck i)"
  "preserves cab_ok (update_withdrawal w f)"
  by (rule preservesI, auto simp: detect_line_Inr line_state_def mark_boost_applied_def insert_cashback_boost_Inr
      credit_cashback_balance_Inr update_cashback_tx_status_def update_cashback_tx_def update_cashback_tx_distributed_def
      update_withdrawal_Inr split: if_splits)+

lemma keeps_cashback_step_cab: "keeps cab_ok (cashback_step c)"
proof (rule keeps_cashback_step)
  show "preserves cab_ok (detect_cashback ck u ls)" for ck u ls
    unfolding detect_cashback_def
    by (intro preserves_intro preserves_cab_cashback_statements keeps_preserves keeps_achievement_hook_cab)
  show "preserves cab_ok (confirm_store_receipts ids)" for ids
    by (rule preservesI) (auto simp: confirm_store_receipts_def split: if_splits)
  show "preserves cab_ok (boost_cashback cfg ck u i)" for cfg ck u i
    unfolding boost_cashback_def Let_def by (intro preserves_intro preserves_cab_cashback_statements)
  show "preserves cab_ok (resolve_cashback cfg ck i r)" for cfg ck i r
    unfolding resolve_cashback_def confirm_credit_def refuse_credit_def
    by (intro preserves_intro preserves_cab_cashback_statements)
  show "preserves cab_ok (create_affiliate_offer ck p e ean b rate vf vu)" for ck p e ean b rate vf vu
    by (rule preservesI) (auto simp: create_affiliate_offer_def split: if_splits)
  show "preserves cab_ok (withdraw_cashback cfg ck u n)" for cfg ck u n
    by (rule preservesI) (auto simp: withdraw_cashback_Inr withdrawn_state_def)
  show "preserves cab_ok (set_withdrawal_provider_ref ck w ref)" for ck w ref
    unfolding set_withdrawal_provider_ref_def by (rule preserves_cab_cashback_statements)
  show "preserves cab_ok (admin_validate_withdrawal env ck w)" for env ck w
    unfolding admin_validate_withdrawal_def get_withdrawal_for_update_def mark_withdrawal_processed_def
    by (intro preserves_intro preserves_cab_cashback_statements keeps_preserves [OF keeps_initiate_payout])
  show "preserves cab_ok (admin_refuse_withdrawal w reason refund)" for w reason refund
    unfolding admin_refuse_withdrawal_def get_withdrawal_for_update_def mark_withdrawal_failed_def
    by (intro preserves_intro preserves_cab_cashback_statements)
qed

end
