(* ===== verification/Ratis_Webhook.thy ===== *)
theory Ratis_Webhook
  imports Ratis_Cashback
begin

text \<open>
  The partner webhook (\<open>routes/rewards/cashback_webhook.py\<close>): the Stripe-style signature header
  \<open>t=<unix time>,v1=<hex digest>\<close>, the replay window, the per-provider secrets with their rotation,
  and the dispatch to \<open>resolve_cashback\<close>. Header values are Latin-1 strings, for which the model of
  \<open>str.strip\<close>, \<open>str.split\<close> and \<open>int\<close> is exact up to the 4300 digits \<open>int\<close> accepts. The digest function and the JSON validation of
  the body (pydantic) are parameters. The lemmas show that only a signed, fresh request of an allowed
  provider reaches the database, and that every request signed as documented does.
\<close>

section \<open>Python strings\<close>

fun split_on :: "char \<Rightarrow> string \<Rightarrow> string list" where
  "split_on c [] = [[]]"
| "split_on c (x # xs) = (if x = c then [] # split_on c xs
     else case split_on c xs of [] \<Rightarrow> [[x]] | y # ys \<Rightarrow> (x # y) # ys)"

definition is_space :: "char \<Rightarrow> bool" where
  "is_space c = (let n = of_char c :: nat in 9 \<le> n \<and> n \<le> 13 \<or> 28 \<le> n \<and> n \<le> 32 \<or> n = 133 \<or> n = 160)"

definition strip :: "string \<Rightarrow> string" where
  "strip s = rev (dropWhile is_space (rev (dropWhile is_space s)))"

definition digit_value :: "char \<Rightarrow> int option" where
  "digit_value c = (let n = of_char c :: nat in if 48 \<le> n \<and> n \<le> 57 then Some (int n - 48) else None)"

text \<open>\<^verbatim>\<open>int(s)\<close> on a stripped string: a sign, then digits with single underscores between them.\<close>

fun int_tail :: "int \<Rightarrow> string \<Rightarrow> int option" where
  "int_tail acc [] = Some acc"
| "int_tail acc (c # cs) = (case digit_value c of
       Some d \<Rightarrow> int_tail (10 * acc + d) cs
     | None \<Rightarrow> if c = CHR ''_'' then (case cs of
           [] \<Rightarrow> None
         | d # ds \<Rightarrow> (case digit_value d of None \<Rightarrow> None | Some v \<Rightarrow> int_tail (10 * acc + v) ds))
         else None)"

fun py_nat :: "string \<Rightarrow> int option" where
  "py_nat [] = None"
| "py_nat (c # cs) = (case digit_value c of None \<Rightarrow> None | Some d \<Rightarrow> int_tail d cs)"

definition py_int :: "string \<Rightarrow> int option" where
  "py_int s = (case s of
       [] \<Rightarrow> None
     | c # cs \<Rightarrow> if c = CHR ''-'' then map_option uminus (py_nat cs)
         else if c = CHR ''+'' then py_nat cs else py_nat s)"

fun nat_str :: "nat \<Rightarrow> string" where
  "nat_str n = (if n < 10 then [char_of (48 + n)] else nat_str (n div 10) @ [char_of (48 + n mod 10)])"

declare nat_str.simps [simp del]

definition py_str :: "int \<Rightarrow> string" where
  "py_str i = (if i < 0 then CHR ''-'' # nat_str (nat (- i)) else nat_str (nat i))"

definition is_ascii :: "string \<Rightarrow> bool" where
  "is_ascii s = list_all (\<lambda>c. (of_char c :: nat) < 128) s"


section \<open>The handler\<close>

text \<open>The dictionary of the header's \<open>key=value\<close> chunks; a later chunk overrides an earlier one.\<close>

definition header_part :: "string \<Rightarrow> (string \<times> string) option" where
  "header_part chunk = (let c = strip chunk in
     if c = [] \<or> CHR ''='' \<notin> set c then None
     else Some (strip (takeWhile (\<lambda>x. x \<noteq> CHR ''='') c), strip (tl (dropWhile (\<lambda>x. x \<noteq> CHR ''='') c))))"

definition parse_signature_header :: "string \<Rightarrow> (int \<times> string) option" where
  "parse_signature_header raw =
     (let parts = map_of (rev (List.map_filter header_part (split_on (CHR '','') raw))) in
      case (parts ''t'', parts ''v1'') of
        (Some t, Some v1) \<Rightarrow> if v1 = [] then None else map_option (\<lambda>ts. (ts, v1)) (py_int t)
      | _ \<Rightarrow> None)"

definition expected_signature :: "(string \<Rightarrow> string \<Rightarrow> string) \<Rightarrow> string \<Rightarrow> int \<Rightarrow> string \<Rightarrow> string" where
  "expected_signature hmac_sha256 secret ts raw_body = hmac_sha256 secret (py_str ts @ ''.'' @ raw_body)"

definition provider_secret_env :: "string \<Rightarrow> string" where
  "provider_secret_env provider = ''CASHBACK_WEBHOOK_SECRET_'' @ upper provider"

definition DEFAULT_TIMESTAMP_TOLERANCE_SECONDS :: int where
  "DEFAULT_TIMESTAMP_TOLERANCE_SECONDS = 300"

definition now_unix :: "clock \<Rightarrow> int" where
  "now_unix ck = now ck div second_us"

record webhook_cfg =
  webhook_providers :: "string list"
  webhook_timestamp_tolerance_seconds :: "int option"

record webhook_request =
  wh_provider :: string
  wh_signature :: "string option"
  wh_body :: string

definition webhook_tolerance :: "webhook_cfg \<Rightarrow> int" where
  "webhook_tolerance wcfg = (case webhook_timestamp_tolerance_seconds wcfg of
     None \<Rightarrow> DEFAULT_TIMESTAMP_TOLERANCE_SECONDS | Some n \<Rightarrow> n)"

definition getenv :: "(string \<Rightarrow> string option) \<Rightarrow> string \<Rightarrow> string" where
  "getenv environ name = (case environ name of None \<Rightarrow> [] | Some x \<Rightarrow> x)"

text \<open>\<^verbatim>\<open>hmac.compare_digest\<close> raises \<open>TypeError\<close> on a non-ASCII string.\<close>

definition cashback_webhook ::
  "(string \<Rightarrow> string \<Rightarrow> string) \<Rightarrow> (string \<Rightarrow> (uuid \<times> string) option) \<Rightarrow> (string \<Rightarrow> string option) \<Rightarrow>
   webhook_cfg \<Rightarrow> cashback_cfg \<Rightarrow> clock \<Rightarrow> webhook_request \<Rightarrow> unit db_op" where
  "cashback_webhook hmac_sha256 validate_json environ wcfg cfg ck req =
     (if wh_provider req \<notin> set (webhook_providers wcfg) then throw (HTTPException 401 ''unknown_provider'')
      else let sig_header = (case wh_signature req of None \<Rightarrow> [] | Some h \<Rightarrow> h) in
      if sig_header = [] then throw (HTTPException 401 ''missing_signature'')
      else case parse_signature_header sig_header of
        None \<Rightarrow> throw (HTTPException 401 ''invalid_signature'')
      | Some (ts, provided_sig) \<Rightarrow>
          if webhook_tolerance wcfg < \<bar>now_unix ck - ts\<bar> then throw (HTTPException 401 ''signature_expired'')
          else let secret_env = provider_secret_env (wh_provider req);
                   current_secret = getenv environ secret_env;
                   prev_secret = getenv environ (secret_env @ ''_PREV'') in
            if current_secret = [] then throw (HTTPException 401 ''invalid_signature'')
            else if \<not> is_ascii provided_sig then throw TypeError
            else if provided_sig \<noteq> expected_signature hmac_sha256 current_secret ts (wh_body req)
                  \<and> (prev_secret = [] \<or> provided_sig \<noteq> expected_signature hmac_sha256 prev_secret ts (wh_body req))
              then throw (HTTPException 401 ''invalid_signature'')
            else case validate_json (wh_body req) of
                None \<Rightarrow> throw (HTTPException 422 ''invalid_body'')
              | Some (tx_id, resolution) \<Rightarrow>
                  if resolution \<noteq> ''confirmed'' \<and> resolution \<noteq> ''refused''
                  then throw (HTTPException 422 ''invalid_resolution'')
                  else resolve_route cfg ck tx_id resolution)"


section \<open>Printing and parsing\<close>

lemma digit_value_char: "d < 10 \<Longrightarrow> digit_value (char_of (48 + d)) = Some (int d)"
  by (simp add: digit_value_def)

lemma int_tail_append:
  "int_tail acc xs = Some v \<Longrightarrow> digit_value c = Some d \<Longrightarrow> int_tail acc (xs @ [c]) = Some (10 * v + d)"
  by (induction acc xs rule: int_tail.induct) (auto split: option.splits list.splits if_splits)

lemma py_nat_append:
  "py_nat xs = Some v \<Longrightarrow> digit_value c = Some d \<Longrightarrow> py_nat (xs @ [c]) = Some (10 * v + d)"
  by (cases xs) (auto simp: int_tail_append split: option.splits)

lemma py_nat_str: "py_nat (nat_str n) = Some (int n)"
proof (induction n rule: nat_str.induct)
  case (1 n)
  show ?case
  proof (cases "n < 10")
    case True
    then show ?thesis by (subst nat_str.simps) (simp add: digit_value_char)
  next
    case False
    have "py_nat (nat_str (n div 10) @ [char_of (48 + n mod 10)]) = Some (10 * int (n div 10) + int (n mod 10))"
      using 1 False by (intro py_nat_append digit_value_char) simp_all
    then show ?thesis using False by (subst nat_str.simps) (simp add: zdiv_int zmod_int)
  qed
qed

definition digit_chars :: "string \<Rightarrow> bool" where
  "digit_chars s = list_all (\<lambda>c. digit_value c \<noteq> None) s"

lemma digit_chars_nat_str: "digit_chars (nat_str n) \<and> nat_str n \<noteq> []"
proof (induction n rule: nat_str.induct)
  case (1 n)
  then show ?case
    by (subst nat_str.simps, subst nat_str.simps) (auto simp: digit_chars_def digit_value_char)
qed

lemma py_int_str: "py_int (py_str i) = Some i"
proof (cases "i < 0")
  case True
  then show ?thesis by (simp add: py_str_def py_int_def py_nat_str)
next
  case False
  obtain c cs where s: "nat_str (nat i) = c # cs" using digit_chars_nat_str [of "nat i"] by (cases "nat_str (nat i)") auto
  have "digit_value c \<noteq> None" using digit_chars_nat_str [of "nat i"] by (simp add: s digit_chars_def)
  then have "c \<noteq> CHR ''-''" "c \<noteq> CHR ''+''" by (auto simp: digit_value_def)
  then show ?thesis using False py_nat_str [of "nat i"] by (simp add: py_str_def py_int_def s)
qed

lemma split_on_none: "c \<notin> set xs \<Longrightarrow> split_on c xs = [xs]"
  by (induction xs) auto

lemma split_on_append: "c \<notin> set xs \<Longrightarrow> split_on c (xs @ c # ys) = xs # split_on c ys"
  by (induction xs) auto

lemma dropWhile_none: "\<forall>c \<in> set xs. \<not> p c \<Longrightarrow> dropWhile p xs = xs"
  by (cases xs) simp_all

lemma strip_id: "\<forall>c \<in> set s. \<not> is_space c \<Longrightarrow> strip s = s"
  by (simp add: strip_def dropWhile_none)

lemma takeWhile_neq: "c \<notin> set k \<Longrightarrow> takeWhile (\<lambda>x. x \<noteq> c) (k @ c # v) = k"
  by (induction k) auto

lemma dropWhile_neq: "c \<notin> set k \<Longrightarrow> dropWhile (\<lambda>x. x \<noteq> c) (k @ c # v) = c # v"
  by (induction k) auto

definition plain :: "string \<Rightarrow> bool" where
  "plain s = list_all (\<lambda>c. \<not> is_space c \<and> c \<noteq> CHR '','') s"

lemma plain_simps [simp]:
  "plain []"
  "plain (c # s) \<longleftrightarrow> \<not> is_space c \<and> c \<noteq> CHR '','' \<and> plain s"
  "plain (xs @ ys) \<longleftrightarrow> plain xs \<and> plain ys"
  by (auto simp: plain_def)

lemma plain_digits: "digit_chars s \<Longrightarrow> plain s"
  by (auto simp: digit_chars_def plain_def list_all_iff digit_value_def is_space_def Let_def split: if_splits)

lemma plain_py_str: "plain (py_str i)"
  using plain_digits [OF conjunct1 [OF digit_chars_nat_str]] by (simp add: py_str_def is_space_def)

lemma plain_strip: "plain s \<Longrightarrow> strip s = s"
  by (rule strip_id) (auto simp: plain_def list_all_iff)

lemma plain_no_comma: "plain s \<Longrightarrow> CHR '','' \<notin> set s"
  by (auto simp: plain_def list_all_iff)

lemma header_part_plain:
  assumes "plain k" and "plain v" and "CHR ''='' \<notin> set k"
  shows "header_part (k @ CHR ''='' # v) = Some (k, v)"
proof -
  have "plain (k @ CHR ''='' # v)" using assms by (simp add: is_space_def)
  moreover have "takeWhile (\<lambda>x. x \<noteq> CHR ''='') (k @ CHR ''='' # v) = k"
      "dropWhile (\<lambda>x. x \<noteq> CHR ''='') (k @ CHR ''='' # v) = CHR ''='' # v"
    using assms(3) by (simp_all add: takeWhile_neq dropWhile_neq)
  ultimately show ?thesis using assms by (simp add: header_part_def Let_def plain_strip)
qed

text \<open>The header a partner sends.\<close>

definition signature_header :: "int \<Rightarrow> string \<Rightarrow> string" where
  "signature_header ts sig = ''t='' @ py_str ts @ '',v1='' @ sig"

lemma parse_signature_header_printed:
  assumes "plain sig" and "sig \<noteq> []"
  shows "parse_signature_header (signature_header ts sig) = Some (ts, sig)"
proof -
  have t: "plain (''t='' @ py_str ts)" and v: "plain (''v1='' @ sig)"
    using assms by (simp_all add: plain_py_str is_space_def)
  have "signature_header ts sig = (''t='' @ py_str ts) @ CHR '','' # (''v1='' @ sig)"
    by (simp add: signature_header_def)
  then have "split_on (CHR '','') (signature_header ts sig) = [''t='' @ py_str ts, ''v1='' @ sig]"
    by (simp only: split_on_append [OF plain_no_comma [OF t]] split_on_none [OF plain_no_comma [OF v]])
  moreover have "header_part (''t='' @ py_str ts) = Some (''t'', py_str ts)"
    using header_part_plain [of "''t''" "py_str ts"] by (simp add: plain_py_str is_space_def)
  moreover have "header_part (''v1='' @ sig) = Some (''v1'', sig)"
    using header_part_plain [of "''v1''" sig] assms by (simp add: is_space_def)
  ultimately show ?thesis
    using assms by (simp add: parse_signature_header_def List.map_filter_def py_int_str)
qed


definition demo_hmac :: "string \<Rightarrow> string \<Rightarrow> string" where
  "demo_hmac k m = (if k = ''key'' then ''a1'' else ''b2'')"

definition demo_environ :: "string \<Rightarrow> string option" where
  "demo_environ = [''CASHBACK_WEBHOOK_SECRET_AWIN'' \<mapsto> ''key'']"

definition demo_webhook :: webhook_cfg where
  "demo_webhook = \<lparr> webhook_providers = [''awin''], webhook_timestamp_tolerance_seconds = None \<rparr>"

definition demo_request :: webhook_request where
  "demo_request = \<lparr> wh_provider = ''awin'', wh_signature = Some (signature_header 100 ''a1''), wh_body = ''{}'' \<rparr>"

lemma demo_secret: "provider_secret_env ''awin'' = ''CASHBACK_WEBHOOK_SECRET_AWIN''"
  unfolding provider_secret_env_def upper_def by code_simp

lemma demo_confirm:
  "\<exists>t. resolve_route demo_cfg (clock_at 200000000) 7 ''confirmed'' boost_demo = (Inr (), t)
     \<and> get_cashback_balance t 1 = 100"
  by (simp add: resolve_route_def catch_def db_transaction_def resolve_cashback_def get_cashback_tx_def boost_demo_def
      credit_row_def confirm_credit_def update_cashback_tx_status_def cashback_statuses_def update_cashback_tx_def
      credit_cashback_balance_def update_cashback_tx_distributed_def fits_int4_def clock_at_def)


section \<open>Who reaches the database\<close>

text \<open>
  C13 (safety). A webhook request returns or changes the database only when its provider is on the
  allowlist, its timestamp is within the tolerance of the clock, and its signature is the digest, under a
  configured secret of that very provider (current or previous), of the timestamp and the body it
  carries; what then happens is the resolution the body asks for.
\<close>

theorem webhook_authenticated:
  assumes "cashback_webhook hmac_sha256 validate_json environ wcfg cfg ck req s = (r, t)"
    and "t \<noteq> s \<or> r = Inr x"
  shows "wh_provider req \<in> set (webhook_providers wcfg)
    \<and> (\<exists>h ts sig secret tx_id resolution. wh_signature req = Some h \<and> parse_signature_header h = Some (ts, sig)
        \<and> \<bar>now_unix ck - ts\<bar> \<le> webhook_tolerance wcfg
        \<and> secret \<noteq> [] \<and> secret \<in> {getenv environ (provider_secret_env (wh_provider req)),
                          getenv environ (provider_secret_env (wh_provider req) @ ''_PREV'')}
        \<and> sig = hmac_sha256 secret (py_str ts @ ''.'' @ wh_body req)
        \<and> validate_json (wh_body req) = Some (tx_id, resolution)
        \<and> resolution \<in> {''confirmed'', ''refused''}
        \<and> resolve_route cfg ck tx_id resolution s = (r, t))"
  using assms
  by (auto simp: cashback_webhook_def Let_def expected_signature_def split: if_splits option.splits prod.splits)

theorem webhook_authenticated_witness:
  "\<exists>h ts sig. wh_signature demo_request = Some h \<and> parse_signature_header h = Some (ts, sig)
     \<and> \<bar>now_unix (clock_at 200000000) - ts\<bar> \<le> webhook_tolerance demo_webhook"
proof -
  have "parse_signature_header (signature_header 100 ''a1'') = Some (100, ''a1'')"
    by (rule parse_signature_header_printed) (simp_all add: is_space_def)
  moreover have "signature_header 100 ''a1'' \<noteq> []" by (simp add: signature_header_def)
  ultimately have run: "cashback_webhook demo_hmac (\<lambda>_. Some (7, ''confirmed'')) demo_environ demo_webhook demo_cfg
      (clock_at 200000000) demo_request boost_demo = resolve_route demo_cfg (clock_at 200000000) 7 ''confirmed'' boost_demo"
    by (simp add: cashback_webhook_def demo_request_def demo_webhook_def demo_environ_def demo_secret now_unix_def Let_def
        webhook_tolerance_def DEFAULT_TIMESTAMP_TOLERANCE_SECONDS_def clock_at_def getenv_def is_ascii_def
        expected_signature_def demo_hmac_def)
  from demo_confirm obtain t where "resolve_route demo_cfg (clock_at 200000000) 7 ''confirmed'' boost_demo = (Inr (), t)"
    by blast
  with run have "cashback_webhook demo_hmac (\<lambda>_. Some (7, ''confirmed'')) demo_environ demo_webhook demo_cfg
      (clock_at 200000000) demo_request boost_demo = (Inr (), t)" by simp
  from webhook_authenticated [OF this disjI2 [OF refl]] show ?thesis by blast
qed

text \<open>
  A request signed as documented is accepted: with the header printed from a timestamp
  inside the window and the digest under the provider's current secret, the handler parses the header back
  and performs exactly the resolution of the body. The digest is assumed to be non-empty and made of
  hexadecimal digits.
\<close>

theorem webhook_accepts_signed:
  assumes hex: "\<And>k m. hmac_sha256 k m \<noteq> [] \<and> list_all (\<lambda>c. c \<in> set ''0123456789abcdef'') (hmac_sha256 k m)"
    and "wh_provider req \<in> set (webhook_providers wcfg)"
    and "\<bar>now_unix ck - ts\<bar> \<le> webhook_tolerance wcfg"
    and "environ (provider_secret_env (wh_provider req)) = Some secret" and "secret \<noteq> []"
    and "wh_signature req = Some (signature_header ts (hmac_sha256 secret (py_str ts @ ''.'' @ wh_body req)))"
    and "validate_json (wh_body req) = Some (tx_id, resolution)" and "resolution \<in> {''confirmed'', ''refused''}"
  shows "cashback_webhook hmac_sha256 validate_json environ wcfg cfg ck req s = resolve_route cfg ck tx_id resolution s"
proof -
  let ?sig = "hmac_sha256 secret (py_str ts @ ''.'' @ wh_body req)"
  have chars: "\<not> is_space c \<and> c \<noteq> CHR '','' \<and> (of_char c :: nat) < 128" if "c \<in> set ''0123456789abcdef''" for c
    using that by (auto simp: is_space_def)
  have "plain ?sig" "is_ascii ?sig"
    using hex [of secret "py_str ts @ ''.'' @ wh_body req"] chars by (auto simp: plain_def is_ascii_def list_all_iff)
  moreover from this hex have "parse_signature_header (signature_header ts ?sig) = Some (ts, ?sig)"
    by (intro parse_signature_header_printed) auto
  moreover have "signature_header ts ?sig \<noteq> []" by (simp add: signature_header_def)
  moreover have "resolution = ''confirmed'' \<or> resolution = ''refused''" using assms(8) by simp
  ultimately show ?thesis
    using assms(2-7) by (auto simp: cashback_webhook_def Let_def getenv_def expected_signature_def)
qed

theorem webhook_accepts_signed_witness:
  "\<exists>t. cashback_webhook demo_hmac (\<lambda>_. Some (7, ''confirmed'')) demo_environ demo_webhook demo_cfg
      (clock_at 200000000) demo_request boost_demo = (Inr (), t) \<and> get_cashback_balance t 1 = 100"
proof -
  have "cashback_webhook demo_hmac (\<lambda>_. Some (7, ''confirmed'')) demo_environ demo_webhook demo_cfg
      (clock_at 200000000) demo_request boost_demo = resolve_route demo_cfg (clock_at 200000000) 7 ''confirmed'' boost_demo"
    by (rule webhook_accepts_signed [where ts = 100 and secret = "''key''"])
      (simp_all add: demo_hmac_def demo_request_def demo_webhook_def demo_environ_def demo_secret now_unix_def
        webhook_tolerance_def DEFAULT_TIMESTAMP_TOLERANCE_SECONDS_def clock_at_def)
  with demo_confirm show ?thesis by simp
qed

end
