(* ===== verification/Ratis_GiftCards.thy ===== *)
theory Ratis_GiftCards
  imports Ratis_Cab
begin

text \<open>
  Gift cards: the order table (\<open>gift_card_repository.py\<close>), the annual fiscal cap
  (\<open>gift_card_cap_service.py\<close>, \<open>gift_card_cap_usage_service.py\<close>, the yearly reset batch), the
  issuance at the card provider with its failure path (\<open>gift_card_service.py\<close>), and the routes
  \<open>rewards/gift_cards.py\<close> and \<open>rewards/shop.py\<close> that do not belong to the boutique. The provider's
  answer is a parameter. The lemmas show that the reservations add up to the counter and never
  exceed the cap, that an order leaves \<open>pending\<close> once and for all, and what the yearly reset breaks.
\<close>

section \<open>Calendar\<close>

text \<open>The year of a day number, as \<open>datetime\<close> computes it from the proleptic ordinal.\<close>

definition ordinal_year :: "int \<Rightarrow> int" where
  "ordinal_year n =
     (let m = n - 1; n400 = m div 146097; m1 = m mod 146097;
          n100 = m1 div 36524; m2 = m1 mod 36524;
          n4 = m2 div 1461; m3 = m2 mod 1461;
          n1 = m3 div 365;
          year = n400 * 400 + 1 + n100 * 100 + n4 * 4 + n1
      in if n1 = 4 \<or> n100 = 4 then year - 1 else year)"

definition utc_year :: "clock \<Rightarrow> int" where
  "utc_year ck = ordinal_year (utc_date ck + 719163)"

text \<open>Days before the first of January of a year, counted from 1970-01-01.\<close>

definition year_start :: "int \<Rightarrow> day" where
  "year_start y = (let z = y - 1 in 365 * z + z div 4 - z div 100 + z div 400 - 719162)"

definition next_jan_1_utc :: "clock \<Rightarrow> stamp" where
  "next_jan_1_utc ck = year_start (utc_year ck + 1) * day_us"

definition trunc_day :: "stamp \<Rightarrow> stamp" where
  "trunc_day t = t div day_us * day_us"

text \<open>\<^verbatim>\<open>date_trunc('week', t)\<close>: the Monday; 1970-01-01 was a Thursday.\<close>

definition trunc_week :: "stamp \<Rightarrow> stamp" where
  "trunc_week t = (let d = t div day_us in (d - (d + 3) mod 7) * day_us)"


section \<open>Orders\<close>

definition gift_source_types :: "string list" where
  "gift_source_types = [''annual_subscription'', ''battlepass_milestone'', ''shop_purchase'', ''referral_reward'']"

definition find_brand :: "uuid \<Rightarrow> db \<Rightarrow> brand_row option" where
  "find_brand b s = List.find (\<lambda>r. br_id r = b) (gift_card_brands s)"

definition find_order :: "uuid \<Rightarrow> db \<Rightarrow> order_row option" where
  "find_order i s = List.find (\<lambda>r. go_id r = i) (gift_card_orders s)"

text \<open>An order as it is shown: with its brand, and with the code only once it is issued.\<close>

definition row_to_dict :: "order_row \<Rightarrow> order_row" where
  "row_to_dict r = r\<lparr> go_code := (if go_status r = ''issued'' then go_code r else None) \<rparr>"

definition order_with_brand :: "db \<Rightarrow> order_row \<Rightarrow> (order_row \<times> brand_row) option" where
  "order_with_brand s r = map_option (\<lambda>b. (row_to_dict r, b)) (find_brand (go_brand_id r) s)"

definition get_orders_by_user :: "uuid \<Rightarrow> db \<Rightarrow> (order_row \<times> brand_row) list" where
  "get_orders_by_user u s = sort_key (\<lambda>p. - go_created_at (fst p))
     (List.map_filter (order_with_brand s) (filter (\<lambda>r. go_user_id r = u) (gift_card_orders s)))"

definition get_order :: "uuid \<Rightarrow> db \<Rightarrow> (order_row \<times> brand_row) option" where
  "get_order i s = Option.bind (find_order i s) (order_with_brand s)"

definition find_by_source :: "string \<Rightarrow> ref_text \<Rightarrow> db \<Rightarrow> order_row option" where
  "find_by_source st ref s =
     List.find (\<lambda>r. go_source_type r = st \<and> go_source_ref_id r = ref) (gift_card_orders s)"

definition new_order :: "clock \<Rightarrow> uuid \<Rightarrow> uuid \<Rightarrow> uuid \<Rightarrow> int \<Rightarrow> string \<Rightarrow> ref_text \<Rightarrow> order_row" where
  "new_order ck i u b denom st ref =
     \<lparr> go_id = i, go_user_id = u, go_brand_id = b, go_denomination = denom, go_status = ''pending'',
       go_source_type = st, go_source_ref_id = ref, go_provider_order_id = None, go_code = None,
       go_eligible_at = None, go_issued_at = None, go_failed_at = None, go_cap_reserved_cents = 0,
       go_created_at = now ck \<rparr>"

definition insert_gift_card_order ::
  "clock \<Rightarrow> uuid \<Rightarrow> uuid \<Rightarrow> int \<Rightarrow> string \<Rightarrow> ref_text \<Rightarrow> uuid db_op" where
  "insert_gift_card_order ck u b denom st ref = bnd fresh_uuid (\<lambda>i.
     seq (int4 denom)
    (seq (constr (st \<in> set gift_source_types) ''ck_gift_card_orders_source_type'')
    (seq (bnd (reads (find_by_source st ref)) (\<lambda>conflict. case conflict of
            Some _ \<Rightarrow> ret ()
          | None \<Rightarrow> bnd (reads gift_card_orders) (\<lambda>rows.
              seq (constr (i \<notin> go_id ` set rows) ''gift_card_orders_pkey'')
                (modify (\<lambda>s. s\<lparr> gift_card_orders := gift_card_orders s @ [new_order ck i u b denom st ref] \<rparr>)))))
    (bnd (reads (find_by_source st ref)) (\<lambda>row. case row of
        None \<Rightarrow> throw AssertionError
      | Some r \<Rightarrow> ret (go_id r))))))"

definition sum_redeemed_window ::
  "clock \<Rightarrow> uuid \<Rightarrow> string \<Rightarrow> string \<Rightarrow> bool \<Rightarrow> int db_op" where
  "sum_redeemed_window ck u source_type window exclude_failed =
     (if window \<noteq> ''day'' \<and> window \<noteq> ''week'' then throw ValueError
      else reads (\<lambda>s. sum_where (\<lambda>r. go_user_id r = u \<and> go_source_type r = source_type
          \<and> (\<not> exclude_failed \<or> go_status r \<noteq> ''failed'')
          \<and> (if window = ''day'' then trunc_day (paris ck (now ck)) else trunc_week (paris ck (now ck)))
              \<le> paris ck (go_created_at r)) go_denomination (gift_card_orders s)))"

definition update_order :: "uuid \<Rightarrow> (order_row \<Rightarrow> order_row) \<Rightarrow> db \<Rightarrow> db" where
  "update_order i f s = s\<lparr> gift_card_orders := update_where (\<lambda>r. go_id r = i) f (gift_card_orders s) \<rparr>"

text \<open>The two guarded updates; they return whether a row was still pending.\<close>

definition update_pending :: "uuid \<Rightarrow> (order_row \<Rightarrow> order_row) \<Rightarrow> bool db_op" where
  "update_pending i f =
     bnd (reads (\<lambda>s. count_where (\<lambda>r. go_id r = i \<and> go_status r = ''pending'') (gift_card_orders s))) (\<lambda>n.
     seq (modify (\<lambda>s. s\<lparr> gift_card_orders :=
            update_where (\<lambda>r. go_id r = i \<and> go_status r = ''pending'') f (gift_card_orders s) \<rparr>))
     (ret (n = 1)))"

definition issued_order :: "clock \<Rightarrow> string \<Rightarrow> gift_code \<Rightarrow> order_row \<Rightarrow> order_row" where
  "issued_order ck poid code r = r\<lparr> go_status := ''issued'', go_provider_order_id := Some poid,
     go_code := Some code, go_issued_at := Some (now ck) \<rparr>"

definition failed_order :: "clock \<Rightarrow> order_row \<Rightarrow> order_row" where
  "failed_order ck r = r\<lparr> go_status := ''failed'', go_failed_at := Some (now ck) \<rparr>"

definition update_order_issued :: "clock \<Rightarrow> uuid \<Rightarrow> string \<Rightarrow> gift_code \<Rightarrow> bool db_op" where
  "update_order_issued ck i poid code = update_pending i (issued_order ck poid code)"

definition update_order_failed :: "clock \<Rightarrow> uuid \<Rightarrow> bool db_op" where
  "update_order_failed ck i = update_pending i (failed_order ck)"


section \<open>The annual cap\<close>

datatype cap_decision = CapAllow | CapDefer stamp | CapBlock

definition ytd_cents :: "uuid \<Rightarrow> db \<Rightarrow> int" where
  "ytd_cents u s = (case users s u of None \<Rightarrow> 0 | Some r \<Rightarrow> gift_card_redeemed_ytd_cents r)"

text \<open>\<^verbatim>\<open>UPDATE users SET gift_card_redeemed_ytd_cents = ... WHERE id = :uid\<close>\<close>

definition update_ytd :: "uuid \<Rightarrow> (int \<Rightarrow> int) \<Rightarrow> unit db_op" where
  "update_ytd u f = bnd (reads (\<lambda>s. users s u)) (\<lambda>row. case row of
       None \<Rightarrow> ret ()
     | Some r \<Rightarrow> let v = f (gift_card_redeemed_ytd_cents r) in
         seq (int4 v) (modify (\<lambda>s. s\<lparr> users := (users s)(u \<mapsto> r\<lparr> gift_card_redeemed_ytd_cents := v \<rparr>) \<rparr>)))"

text \<open>
  \<open>reserve_gift_card_cap\<close> with the annual cap of the settings. The advisory lock serialises it, so
  the recheck under the lock sees what the first read saw.
\<close>

definition reserve_gift_card_cap :: "int \<Rightarrow> clock \<Rightarrow> uuid \<Rightarrow> bool \<Rightarrow> cap_decision db_op" where
  "reserve_gift_card_cap cap_annual ck i allow_defer = bnd (reads (find_order i)) (\<lambda>row. case row of
       None \<Rightarrow> ret CapBlock
     | Some r \<Rightarrow>
         if 0 < go_cap_reserved_cents r then ret CapAllow
         else let u = go_user_id r; amount = go_denomination r in
           bnd (reads (ytd_cents u)) (\<lambda>ytd.
             if ytd + amount \<le> cap_annual then
               seq (update_ytd u (\<lambda>v. v + amount))
              (seq (modify (update_order i (\<lambda>r. r\<lparr> go_cap_reserved_cents := amount \<rparr>)))
              (ret CapAllow))
             else if allow_defer then ret (CapDefer (next_jan_1_utc ck))
             else ret CapBlock))"

definition release_gift_card_cap :: "uuid \<Rightarrow> unit db_op" where
  "release_gift_card_cap i = bnd (reads (find_order i)) (\<lambda>row. case row of
       None \<Rightarrow> ret ()
     | Some r \<Rightarrow>
         if go_cap_reserved_cents r = 0 then ret ()
         else let amount = go_cap_reserved_cents r in
           seq (update_ytd (go_user_id r) (\<lambda>v. max 0 (v - amount)))
             (modify (update_order i (\<lambda>r. r\<lparr> go_cap_reserved_cents := 0 \<rparr>))))"

text \<open>The batch of the first of January; it returns the number of users reset.\<close>

definition reset_gift_card_ytd :: "bool \<Rightarrow> uuid list \<Rightarrow> nat db_op" where
  "reset_gift_card_ytd dry_run all_users =
     bnd (reads (\<lambda>s. length (filter (\<lambda>u. ytd_cents u s \<noteq> 0) all_users))) (\<lambda>n.
     if dry_run then ret n
     else seq (modify (\<lambda>s. s\<lparr> users := (\<lambda>u. map_option (\<lambda>r. r\<lparr> gift_card_redeemed_ytd_cents := 0 \<rparr>) (users s u)) \<rparr>))
       (ret n))"

record cap_settings =
  cs_annual_hard_cap :: int
  cs_daily_cap :: int
  cs_weekly_cap :: int
  cs_annual_warning :: int

record cap_usage =
  cu_year :: int
  cu_ytd_cents :: int
  cu_annual_warning_threshold_cents :: int
  cu_annual_hard_cap_cents :: int
  cu_remaining_cents :: int
  cu_warning_threshold_reached :: bool
  cu_daily_cents :: int
  cu_weekly_cents :: int
  cu_daily_cap_cents :: int
  cu_weekly_cap_cents :: int

definition get_cap_usage :: "cap_settings \<Rightarrow> clock \<Rightarrow> uuid \<Rightarrow> cap_usage db_op" where
  "get_cap_usage caps ck u = bnd (reads (ytd_cents u)) (\<lambda>ytd.
     bnd (sum_redeemed_window ck u ''shop_purchase'' ''day'' True) (\<lambda>daily.
     bnd (sum_redeemed_window ck u ''shop_purchase'' ''week'' True) (\<lambda>weekly.
     ret \<lparr> cu_year = utc_year ck, cu_ytd_cents = ytd,
           cu_annual_warning_threshold_cents = cs_annual_warning caps,
           cu_annual_hard_cap_cents = cs_annual_hard_cap caps,
           cu_remaining_cents = max 0 (cs_annual_hard_cap caps - ytd),
           cu_warning_threshold_reached = (cs_annual_warning caps \<le> ytd),
           cu_daily_cents = daily, cu_weekly_cents = weekly,
           cu_daily_cap_cents = cs_daily_cap caps, cu_weekly_cap_cents = cs_weekly_cap caps \<rparr>)))"


section \<open>Issuance\<close>

text \<open>
  What the provider's \<open>POST /orders\<close> gives: an HTTP or network failure, or a JSON object of which
  the code reads \<open>status\<close>, \<open>id\<close> and \<open>redemption_code\<close> (absent keys are \<open>None\<close>).
\<close>

datatype runa_response =
    RunaFailure
  | RunaReply "string option" "string option" "string option"

record runa_env =
  gift_card_provider_key :: string
  runa_orders :: "string \<Rightarrow> int \<Rightarrow> uuid \<Rightarrow> runa_response"

definition refund_order_cab :: "clock \<Rightarrow> uuid \<Rightarrow> unit db_op" where
  "refund_order_cab ck i = bnd (reads (get_order i)) (\<lambda>found. case found of
       None \<Rightarrow> ret ()
     | Some (r, _) \<Rightarrow>
         if go_source_type r \<noteq> ''shop_purchase'' then ret ()
         else case go_source_ref_id r of
             OtherText _ \<Rightarrow> ret ()
           | UuidText tid \<Rightarrow>
               bnd (reads (\<lambda>s. List.find (\<lambda>x. ct_id x = tid \<and> ct_direction x = ''debit'')
                                (cabecoin_transactions s))) (\<lambda>row. case row of
                   None \<Rightarrow> ret ()
                 | Some x \<Rightarrow> award_cab ck (ct_user_id x) (ct_amount x) ''gift_card_refund'' None None
                     False None False None))"

text \<open>\<open>_mark_failed\<close>; on an exception the session is rolled back to \<open>start\<close>, where it began.\<close>

definition mark_failed :: "clock \<Rightarrow> db \<Rightarrow> uuid \<Rightarrow> unit db_op" where
  "mark_failed ck start i = catch
     (bnd (update_order_failed ck i) (\<lambda>marked.
        if marked then seq (refund_order_cab ck i) (release_gift_card_cap i) else ret ()))
     (\<lambda>_. modify (\<lambda>_. start))"

text \<open>The provider call and what is made of its answer.\<close>

definition issue_at_provider :: "runa_env \<Rightarrow> clock \<Rightarrow> db \<Rightarrow> order_row \<Rightarrow> unit db_op" where
  "issue_at_provider env ck start r = bnd (reads (find_brand (go_brand_id r))) (\<lambda>brand. case brand of
       None \<Rightarrow> mark_failed ck start (go_id r)
     | Some b \<Rightarrow>
         if gift_card_provider_key env = [] then
           seq (update_order_issued ck (go_id r) ''sandbox'' (SandboxCode (go_id r))) (ret ())
         else case runa_orders env (br_provider_brand_id b) (go_denomination r) (go_id r) of
             RunaFailure \<Rightarrow> mark_failed ck start (go_id r)
           | RunaReply status poid code \<Rightarrow>
               (let runa_status = (case status of None \<Rightarrow> ''FAILED'' | Some x \<Rightarrow> x) in
                if runa_status = ''COMPLETE'' then
                  (case (poid, code) of
                     (Some p, Some c) \<Rightarrow> seq (update_order_issued ck (go_id r) p (ProviderCode c)) (ret ())
                   | _ \<Rightarrow> throw LookupError)
                else if runa_status = ''PROCESSING'' then ret ()
                else mark_failed ck start (go_id r)))"

definition issue_gift_card :: "runa_env \<Rightarrow> int \<Rightarrow> clock \<Rightarrow> db \<Rightarrow> uuid \<Rightarrow> unit db_op" where
  "issue_gift_card env cap_annual ck start i = bnd (reads (get_order i)) (\<lambda>found. case found of
       None \<Rightarrow> ret ()
     | Some (r, _) \<Rightarrow>
         if go_status r \<noteq> ''pending'' then ret ()
         else bnd (reserve_gift_card_cap cap_annual ck i (go_source_type r \<noteq> ''shop_purchase'')) (\<lambda>decision.
           case decision of
             CapDefer ts \<Rightarrow> modify (update_order i (\<lambda>r. r\<lparr> go_eligible_at := Some ts \<rparr>))
           | CapBlock \<Rightarrow> mark_failed ck start i
           | CapAllow \<Rightarrow> issue_at_provider env ck start r))"

text \<open>The background task: its own session, committed on success and rolled back on any exception.\<close>

definition issue_gift_card_bg :: "runa_env \<Rightarrow> int \<Rightarrow> clock \<Rightarrow> uuid \<Rightarrow> unit db_op" where
  "issue_gift_card_bg env cap_annual ck i =
     (\<lambda>s. catch (db_transaction (issue_gift_card env cap_annual ck s i)) (\<lambda>_. ret ()) s)"


section \<open>Routes\<close>

definition list_gift_cards :: "uuid \<Rightarrow> (order_row \<times> brand_row) list db_op" where
  "list_gift_cards u = reads (get_orders_by_user u)"

definition get_gift_card :: "uuid \<Rightarrow> uuid \<Rightarrow> (order_row \<times> brand_row) db_op" where
  "get_gift_card u i = bnd (reads (get_order i)) (\<lambda>found. case found of
       None \<Rightarrow> throw (HTTPException 404 ''not_found'')
     | Some x \<Rightarrow> if go_user_id (fst x) \<noteq> u then throw (HTTPException 403 ''forbidden'') else ret x)"

text \<open>The annual subscription card; a configured brand is the text of an identifier.\<close>

definition create_annual_gift_card ::
  "clock \<Rightarrow> ref_text option \<Rightarrow> int \<Rightarrow> uuid \<Rightarrow> ref_text \<Rightarrow> uuid option db_op" where
  "create_annual_gift_card ck brand denomination u stripe_session = (case brand of
       None \<Rightarrow> ret None
     | Some (OtherText _) \<Rightarrow> throw ValueError
     | Some (UuidText b) \<Rightarrow> db_transaction
         (bnd (insert_gift_card_order ck u b denomination ''annual_subscription'' stripe_session) (\<lambda>i. ret (Some i))))"

definition issue_existing_order :: "uuid \<Rightarrow> uuid db_op" where
  "issue_existing_order i = bnd (reads (get_order i)) (\<lambda>found. case found of
       None \<Rightarrow> throw (HTTPException 404 ''order_not_found'')
     | Some (r, _) \<Rightarrow> if go_status r \<noteq> ''pending'' then throw (HTTPException 409 ''order_not_pending'')
         else ret i)"

record brand_usage =
  bu_orders_count :: int
  bu_total_saved_cents :: int
  bu_first_order_at :: "stamp option"
  bu_last_order_at :: "stamp option"

definition get_brand_usage_stats :: "uuid \<Rightarrow> uuid \<Rightarrow> db \<Rightarrow> brand_usage" where
  "get_brand_usage_stats u b s =
     (let rows = filter (\<lambda>r. go_user_id r = u \<and> go_brand_id r = b \<and> go_status r \<noteq> ''failed''
                            \<and> go_status r \<noteq> ''churned'') (gift_card_orders s);
          times = map go_created_at rows
      in \<lparr> bu_orders_count = int (length rows), bu_total_saved_cents = sum_list (map go_denomination rows),
           bu_first_order_at = (if times = [] then None else Some (fold min (tl times) (hd times))),
           bu_last_order_at = (if times = [] then None else Some (fold max (tl times) (hd times))) \<rparr>)"


section \<open>The cap and the reservations\<close>

definition reserved_total :: "db \<Rightarrow> uuid \<Rightarrow> int" where
  "reserved_total s u = sum_where (\<lambda>r. go_user_id r = u) go_cap_reserved_cents (gift_card_orders s)"

definition issued_total :: "db \<Rightarrow> uuid \<Rightarrow> int" where
  "issued_total s u = sum_where (\<lambda>r. go_user_id r = u \<and> go_status r = ''issued'') go_denomination (gift_card_orders s)"

definition order_ok :: "order_row \<Rightarrow> bool" where
  "order_ok r \<longleftrightarrow> 0 < go_denomination r \<and> go_cap_reserved_cents r \<in> {0, go_denomination r}
     \<and> (go_status r = ''issued'' \<longrightarrow> go_cap_reserved_cents r = go_denomination r)"

definition gift_ok :: "int \<Rightarrow> db \<Rightarrow> bool" where
  "gift_ok cap s \<longleftrightarrow> distinct (map go_id (gift_card_orders s))
     \<and> (\<forall>r \<in> set (gift_card_orders s). order_ok r)
     \<and> (\<forall>u. users s u \<noteq> None \<longrightarrow> ytd_cents u s = reserved_total s u \<and> ytd_cents u s \<le> cap)"

lemma gift_ok_frame [simp]:
  "gift_ok cap (s\<lparr> next_uuid := x0 \<rparr>) = gift_ok cap s"
  "gift_ok cap (s\<lparr> user_cab_balance := x2 \<rparr>) = gift_ok cap s"
  "gift_ok cap (s\<lparr> user_cashback_balance := x3 \<rparr>) = gift_ok cap s"
  "gift_ok cap (s\<lparr> cabecoin_transactions := x4 \<rparr>) = gift_ok cap s"
  "gift_ok cap (s\<lparr> user_streaks := x5 \<rparr>) = gift_ok cap s"
  "gift_ok cap (s\<lparr> user_xp_balance := x6 \<rparr>) = gift_ok cap s"
  "gift_ok cap (s\<lparr> xp_transactions := x7 \<rparr>) = gift_ok cap s"
  "gift_ok cap (s\<lparr> battlepass_seasons := x8 \<rparr>) = gift_ok cap s"
  "gift_ok cap (s\<lparr> battlepass_milestones := x9 \<rparr>) = gift_ok cap s"
  "gift_ok cap (s\<lparr> user_battlepass_progress := x10 \<rparr>) = gift_ok cap s"
  "gift_ok cap (s\<lparr> user_battlepass_claims := x11 \<rparr>) = gift_ok cap s"
  "gift_ok cap (s\<lparr> community_challenges := x12 \<rparr>) = gift_ok cap s"
  "gift_ok cap (s\<lparr> community_challenge_milestones := x13 \<rparr>) = gift_ok cap s"
  "gift_ok cap (s\<lparr> community_challenge_progress := x14 \<rparr>) = gift_ok cap s"
  "gift_ok cap (s\<lparr> community_challenge_claims := x15 \<rparr>) = gift_ok cap s"
  "gift_ok cap (s\<lparr> community_multipliers := x16 \<rparr>) = gift_ok cap s"
  "gift_ok cap (s\<lparr> notification_outbox := x17 \<rparr>) = gift_ok cap s"
  "gift_ok cap (s\<lparr> affiliate_offers := x18 \<rparr>) = gift_ok cap s"
  "gift_ok cap (s\<lparr> cashback_transactions := x19 \<rparr>) = gift_ok cap s"
  "gift_ok cap (s\<lparr> cashback_withdrawals := x20 \<rparr>) = gift_ok cap s"
  "gift_ok cap (s\<lparr> subscriptions := x21 \<rparr>) = gift_ok cap s"
  "gift_ok cap (s\<lparr> receipts := x22 \<rparr>) = gift_ok cap s"
  "gift_ok cap (s\<lparr> scans := x23 \<rparr>) = gift_ok cap s"
  "gift_ok cap (s\<lparr> products := x24 \<rparr>) = gift_ok cap s"
  "gift_ok cap (s\<lparr> gift_card_brands := x25 \<rparr>) = gift_ok cap s"
  "gift_ok cap (s\<lparr> achievements := x27 \<rparr>) = gift_ok cap s"
  "gift_ok cap (s\<lparr> user_achievements := x28 \<rparr>) = gift_ok cap s"
  "gift_ok cap (s\<lparr> referral_codes := x29 \<rparr>) = gift_ok cap s"
  "gift_ok cap (s\<lparr> referral_uses := x30 \<rparr>) = gift_ok cap s"
  "gift_ok cap (s\<lparr> play := x31 \<rparr>) = gift_ok cap s"
  by (simp_all add: gift_ok_def reserved_total_def ytd_cents_def)

lemma issued_le_reserved:
  assumes "\<forall>r \<in> set (gift_card_orders s). order_ok r"
  shows "issued_total s u \<le> reserved_total s u"
proof -
  have "sum_where (\<lambda>r. go_user_id r = u \<and> go_status r = ''issued'') go_denomination xs
      \<le> sum_where (\<lambda>r. go_user_id r = u) go_cap_reserved_cents xs" if "\<forall>r \<in> set xs. order_ok r" for xs
    using that by (induction xs) (auto simp: order_ok_def)
  with assms show ?thesis by (simp add: issued_total_def reserved_total_def)
qed

text \<open>What a user was ever given in issued cards stays within the cap.\<close>

lemma gift_ok_issued: "gift_ok cap s \<Longrightarrow> users s u \<noteq> None \<Longrightarrow> issued_total s u \<le> cap"
  using issued_le_reserved [of s u] by (force simp: gift_ok_def)

lemma gift_ok_relabel:
  assumes "gift_ok cap s"
    and "\<And>r. go_id (f r) = go_id r \<and> go_user_id (f r) = go_user_id r \<and> go_denomination (f r) = go_denomination r
       \<and> go_cap_reserved_cents (f r) = go_cap_reserved_cents r"
    and "\<And>r. r \<in> set (gift_card_orders s) \<Longrightarrow> q r \<Longrightarrow> go_status (f r) = ''issued'' \<Longrightarrow>
       go_cap_reserved_cents r = go_denomination r"
  shows "gift_ok cap (s\<lparr> gift_card_orders := update_where q f (gift_card_orders s) \<rparr>)"
  using assms unfolding gift_ok_def reserved_total_def
  by (auto simp: map_update_where set_update_where sum_where_update_same order_ok_def ytd_cents_def)

lemma update_pending_run:
  "update_pending i f s = (Inr (count_where (\<lambda>r. go_id r = i \<and> go_status r = ''pending'') (gift_card_orders s) = 1),
     s\<lparr> gift_card_orders := update_where (\<lambda>r. go_id r = i \<and> go_status r = ''pending'') f (gift_card_orders s) \<rparr>)"
  by (simp add: update_pending_def)

lemma update_ytd_Inr:
  "update_ytd u f s = (Inr x, t) \<longleftrightarrow> (case users s u of
       None \<Rightarrow> t = s
     | Some r \<Rightarrow> fits_int4 (f (gift_card_redeemed_ytd_cents r))
         \<and> t = s\<lparr> users := (users s)(u \<mapsto> r\<lparr> gift_card_redeemed_ytd_cents := f (gift_card_redeemed_ytd_cents r) \<rparr>) \<rparr>)"
  by (auto simp: update_ytd_def Let_def split: option.splits)

text \<open>Changing one order's reservation together with its owner's counter.\<close>

lemma gift_ok_reservation:
  assumes ok: "gift_ok cap s" and r: "find_order i s = Some r"
    and n: "n \<in> {0, go_denomination r}" "go_status r = ''issued'' \<longrightarrow> n = go_denomination r"
    and ytd: "update_ytd (go_user_id r) g s = (Inr x, s1)"
    and g: "\<And>v. users s (go_user_id r) \<noteq> None \<Longrightarrow> v = ytd_cents (go_user_id r) s \<Longrightarrow>
        g v = v + n - go_cap_reserved_cents r \<and> g v \<le> cap"
  shows "gift_ok cap (update_order i (\<lambda>r. r\<lparr> go_cap_reserved_cents := n \<rparr>) s1)"
proof -
  let ?f = "\<lambda>r. r\<lparr> go_cap_reserved_cents := n \<rparr>" and ?t = "update_order i (\<lambda>r. r\<lparr> go_cap_reserved_cents := n \<rparr>) s1"
  have i: "i = go_id r" "r \<in> set (gift_card_orders s)" using r by (auto simp: find_order_def dest: find_Some_in)
  have dist: "distinct (map go_id (gift_card_orders s))" and rows: "\<forall>r \<in> set (gift_card_orders s). order_ok r"
    using ok by (simp_all add: gift_ok_def)
  have s1: "gift_card_orders s1 = gift_card_orders s" using ytd by (auto simp: update_ytd_Inr split: option.splits)
  have orders: "gift_card_orders ?t = update_where (\<lambda>r. go_id r = i) ?f (gift_card_orders s)"
    by (simp add: update_order_def s1)
  have only: "x = r" if "x \<in> set (gift_card_orders s)" "go_id x = i" for x
    using dist that i by (metis distinct_map inj_onD)
  have total: "reserved_total ?t u = reserved_total s u + (if go_user_id r = u then n - go_cap_reserved_cents r else 0)" for u
    using sum_where_update_key [OF dist i(2), of ?f "\<lambda>r. go_user_id r = u" go_cap_reserved_cents]
    unfolding reserved_total_def orders by (simp add: i(1))
  have "ytd_cents u ?t = reserved_total ?t u \<and> ytd_cents u ?t \<le> cap" if u: "users ?t u \<noteq> None" for u
  proof -
    have "users s u \<noteq> None" using u ytd by (auto simp: update_order_def update_ytd_Inr split: option.splits if_splits)
    then have "ytd_cents u s = reserved_total s u" "ytd_cents u s \<le> cap" using ok by (auto simp: gift_ok_def)
    moreover have "ytd_cents u ?t = (if u = go_user_id r then g (ytd_cents u s) else ytd_cents u s)"
      using ytd \<open>users s u \<noteq> None\<close>
      by (auto simp: update_order_def update_ytd_Inr ytd_cents_def split: option.splits)
    ultimately show ?thesis using g [OF _ refl] \<open>users s u \<noteq> None\<close> total [of u] by auto
  qed
  moreover have "\<forall>x \<in> set (gift_card_orders ?t). order_ok x"
  proof
    fix x assume "x \<in> set (gift_card_orders ?t)"
    then obtain y where y: "y \<in> set (gift_card_orders s)" "x = (if go_id y = i then ?f y else y)"
      unfolding orders set_update_where by auto
    show "order_ok x"
    proof (cases "go_id y = i")
      case True
      with only y(1) have "y = r" by simp
      with rows i(2) y(2) True n show ?thesis by (auto simp: order_ok_def)
    qed (use rows y in auto)
  qed
  moreover have "distinct (map go_id (gift_card_orders ?t))" using dist by (simp add: orders map_update_where)
  ultimately show ?thesis unfolding gift_ok_def by blast
qed

lemma find_order_update:
  "(\<And>r. go_id (f r) = go_id r) \<Longrightarrow>
   find_order j (update_order i f s) = (if j = i then map_option f (find_order j s) else find_order j s)"
  by (simp add: find_order_def update_order_def find_update_where_key)

lemma find_order_users [simp]:
  "find_order i (s\<lparr> users := m \<rparr>) = find_order i s"
  "find_order i (s\<lparr> next_uuid := n \<rparr>) = find_order i s"
  "find_order i (s\<lparr> user_cab_balance := b \<rparr>) = find_order i s"
  "find_order i (s\<lparr> cabecoin_transactions := c \<rparr>) = find_order i s"
  "find_order i (s\<lparr> user_battlepass_progress := p \<rparr>) = find_order i s"
  by (simp_all add: find_order_def)

lemma reserve_Inr:
  assumes "reserve_gift_card_cap cap ck i defer s = (Inr d, t)"
  shows "d \<noteq> CapAllow \<and> t = s
    \<or> d = CapAllow \<and> t = s \<and> (\<exists>r. find_order i s = Some r \<and> 0 < go_cap_reserved_cents r)
    \<or> d = CapAllow \<and> (\<exists>r s1. find_order i s = Some r \<and> go_cap_reserved_cents r \<le> 0
        \<and> ytd_cents (go_user_id r) s + go_denomination r \<le> cap
        \<and> update_ytd (go_user_id r) (\<lambda>v. v + go_denomination r) s = (Inr (), s1)
        \<and> t = update_order i (\<lambda>x. x\<lparr> go_cap_reserved_cents := go_denomination r \<rparr>) s1)"
  using assms
  by (auto simp: reserve_gift_card_cap_def Let_def seq_Inr_iff split: option.splits if_splits)

lemma reserve_ok:
  assumes "gift_ok cap s" and "reserve_gift_card_cap cap ck i defer s = (Inr d, t)"
  shows "gift_ok cap t \<and> (d = CapAllow \<longrightarrow> (\<exists>r. find_order i t = Some r \<and> go_cap_reserved_cents r = go_denomination r))"
  using reserve_Inr [OF assms(2)]
proof (elim disjE conjE exE)
  fix r assume "d = CapAllow" "t = s" "find_order i s = Some r" "0 < go_cap_reserved_cents r"
  moreover from this have "order_ok r" using assms(1) by (auto simp: gift_ok_def find_order_def dest: find_Some_in)
  ultimately show ?thesis using assms(1) by (auto simp: order_ok_def)
next
  fix r s1 assume r: "find_order i s = Some r" "go_cap_reserved_cents r \<le> 0"
    and le: "ytd_cents (go_user_id r) s + go_denomination r \<le> cap"
    and s1: "update_ytd (go_user_id r) (\<lambda>v. v + go_denomination r) s = (Inr (), s1)"
    and t: "t = update_order i (\<lambda>x. x\<lparr> go_cap_reserved_cents := go_denomination r \<rparr>) s1"
  from r have "order_ok r" using assms(1) by (auto simp: gift_ok_def find_order_def dest: find_Some_in)
  with r have "go_cap_reserved_cents r = 0" by (auto simp: order_ok_def)
  with le have "gift_ok cap t" unfolding t
    by (intro gift_ok_reservation [OF assms(1) r(1) _ _ s1]) auto
  moreover have "find_order i s1 = Some r" using s1 r by (auto simp: update_ytd_Inr split: option.splits)
  ultimately show ?thesis by (simp add: t find_order_update)
qed (simp_all add: assms(1))

lemma refund_leaves_orders:
  assumes "refund_order_cab ck i s = (Inr x, t)"
  shows "gift_card_orders t = gift_card_orders s \<and> users t = users s"
  using assms
  by (auto simp: refund_order_cab_def award_cab_Inr award_state_def split: option.splits if_splits ref_text.splits prod.splits)

lemma release_ok:
  assumes ok: "gift_ok cap s" and run: "release_gift_card_cap i s = (Inr x, t)"
    and st: "\<And>r. find_order i s = Some r \<Longrightarrow> go_status r \<noteq> ''issued''"
  shows "gift_ok cap t"
proof (cases "t = s")
  case False
  with run obtain r s1 where r: "find_order i s = Some r" "go_cap_reserved_cents r \<noteq> 0"
    and s1: "update_ytd (go_user_id r) (\<lambda>v. max 0 (v - go_cap_reserved_cents r)) s = (Inr (), s1)"
    and t: "t = update_order i (\<lambda>x. x\<lparr> go_cap_reserved_cents := 0 \<rparr>) s1"
    by (auto simp: release_gift_card_cap_def Let_def seq_Inr_iff split: option.splits if_splits)
  have row: "r \<in> set (gift_card_orders s)" using r by (auto simp: find_order_def dest: find_Some_in)
  have rows: "\<forall>r \<in> set (gift_card_orders s). order_ok r" using ok by (simp add: gift_ok_def)
  have "go_cap_reserved_cents r \<le> reserved_total s (go_user_id r)"
  proof -
    have "go_cap_reserved_cents r \<le> sum_where (\<lambda>x. go_user_id x = go_user_id r) go_cap_reserved_cents xs"
      if "r \<in> set xs" "\<forall>r \<in> set xs. order_ok r" for xs
      using that
    proof (induction xs)
      case (Cons a xs)
      then have "0 \<le> sum_where (\<lambda>x. go_user_id x = go_user_id r) go_cap_reserved_cents xs"
        by (intro sum_where_nonneg) (auto simp: order_ok_def)
      moreover have "0 \<le> go_cap_reserved_cents a" using Cons.prems by (auto simp: order_ok_def)
      ultimately show ?case using Cons by auto
    qed simp
    with row rows show ?thesis by (simp add: reserved_total_def)
  qed
  moreover have "0 < go_cap_reserved_cents r" using r row rows by (auto simp: order_ok_def)
  moreover have "users s (go_user_id r) \<noteq> None \<Longrightarrow> ytd_cents (go_user_id r) s = reserved_total s (go_user_id r)
      \<and> ytd_cents (go_user_id r) s \<le> cap" using ok unfolding gift_ok_def by blast
  ultimately show ?thesis unfolding t
    using st [OF r(1)] by (intro gift_ok_reservation [OF ok r(1) _ _ s1]) auto
qed (simp add: ok)

lemma find_order_pending:
  "find_order i (s\<lparr> gift_card_orders := update_where (\<lambda>r. go_id r = i \<and> go_status r = ''pending'') f (gift_card_orders s) \<rparr>) =
     map_option (\<lambda>r. if go_id r = i \<and> go_status r = ''pending'' then f r else r) (find_order i s)"
  if "\<And>r. go_id (f r) = go_id r"
  using that by (simp add: find_order_def find_update_where_any)

lemma mark_failed_ok:
  assumes ok: "gift_ok cap s" and start: "gift_ok cap start" and run: "mark_failed ck start i s = (r, t)"
  shows "gift_ok cap t"
proof -
  let ?s1 = "s\<lparr> gift_card_orders := update_where (\<lambda>r. go_id r = i \<and> go_status r = ''pending'') (failed_order ck) (gift_card_orders s) \<rparr>"
  have s1: "gift_ok cap ?s1" by (rule gift_ok_relabel [OF ok]) (simp_all add: failed_order_def)
  have not_issued: "go_status r \<noteq> ''issued''" if "find_order i ?s1 = Some r"
      "count_where (\<lambda>r. go_id r = i \<and> go_status r = ''pending'') (gift_card_orders s) = 1" for r
  proof -
    from that(2) obtain p where p: "p \<in> set (gift_card_orders s)" "go_id p = i" "go_status p = ''pending''"
      using count_where_0_iff [of "\<lambda>r. go_id r = i \<and> go_status r = ''pending''" "gift_card_orders s"] by fastforce
    have "distinct (map go_id (gift_card_orders s))" using ok by (simp add: gift_ok_def)
    from find_distinct_key [OF this p(1)] p have "find_order i s = Some p" by (simp add: find_order_def)
    with that(1) p show ?thesis by (auto simp: find_order_pending failed_order_def)
  qed
  consider "t = start" | "t = ?s1"
    | (refund) s2 x y where "count_where (\<lambda>r. go_id r = i \<and> go_status r = ''pending'') (gift_card_orders s) = 1"
        "refund_order_cab ck i ?s1 = (Inr x, s2)" "release_gift_card_cap i s2 = (Inr y, t)"
    using run by (auto simp: mark_failed_def update_order_failed_def update_pending_run catch_def bnd_def seq_def
        split: if_splits prod.splits sum.splits)
  then show ?thesis
  proof cases
    case refund
    from refund_leaves_orders [OF refund(2)] have same: "gift_card_orders s2 = gift_card_orders ?s1" "users s2 = users ?s1"
      by simp_all
    then have "gift_ok cap s2" using s1 by (auto simp: gift_ok_def reserved_total_def ytd_cents_def)
    moreover have "find_order i s2 = find_order i ?s1" using same by (simp add: find_order_def)
    ultimately show ?thesis using not_issued refund(1) by (intro release_ok [OF _ refund(3)]) auto
  qed (simp_all add: start s1)
qed

lemma update_issued_ok:
  assumes "gift_ok cap s" and "\<And>r. find_order i s = Some r \<Longrightarrow> go_cap_reserved_cents r = go_denomination r"
  shows "gift_ok cap (snd (update_order_issued ck i poid code s))"
proof -
  have "go_cap_reserved_cents r = go_denomination r" if "r \<in> set (gift_card_orders s)" "go_id r = i" for r
    using assms find_distinct_key [of go_id "gift_card_orders s" r] that by (auto simp: gift_ok_def find_order_def)
  then show ?thesis unfolding update_order_issued_def update_pending_run snd_conv
    by (intro gift_ok_relabel [OF assms(1)]) (auto simp: issued_order_def)
qed

lemma get_order_Some: "get_order i s = Some (r, b) \<Longrightarrow> \<exists>r0. find_order i s = Some r0 \<and> r = row_to_dict r0 \<and> go_id r0 = i"
  by (auto simp: get_order_def bind_eq_Some_conv order_with_brand_def find_order_def dest: find_Some_in)

lemma issue_gift_card_ok:
  assumes ok: "gift_ok cap s" and run: "issue_gift_card env cap ck s i s = (Inr x, t)"
  shows "gift_ok cap t"
proof (cases "t = s")
  case False
  with run obtain r b d s1 where r: "get_order i s = Some (r, b)"
    and s1: "reserve_gift_card_cap cap ck i (go_source_type r \<noteq> ''shop_purchase'') s = (Inr d, s1)"
    and rest: "(case d of CapDefer ts \<Rightarrow> modify (update_order i (\<lambda>r. r\<lparr> go_eligible_at := Some ts \<rparr>))
           | CapBlock \<Rightarrow> mark_failed ck s i | CapAllow \<Rightarrow> issue_at_provider env ck s r) s1 = (Inr x, t)"
    by (auto simp: issue_gift_card_def bnd_Inr_iff split: option.splits if_splits prod.splits)
  from reserve_ok [OF ok s1] have ok1: "gift_ok cap s1"
    and res: "d = CapAllow \<Longrightarrow> \<exists>r. find_order i s1 = Some r \<and> go_cap_reserved_cents r = go_denomination r" by auto
  have id: "go_id r = i" using get_order_Some [OF r] by (auto simp: row_to_dict_def)
  show ?thesis
  proof (cases d)
    case CapAllow
    with res have "gift_ok cap (snd (update_order_issued ck i p c s1))" for p c by (intro update_issued_ok [OF ok1]) auto
    moreover have "\<And>y z. mark_failed ck s i s1 = (y, z) \<Longrightarrow> gift_ok cap z" by (rule mark_failed_ok [OF ok1 ok])
    ultimately show ?thesis using rest CapAllow ok1 id
      by (auto simp: issue_at_provider_def seq_Inr_iff update_order_issued_def update_pending_run Let_def
          split: option.splits if_splits runa_response.splits)
  next
    case (CapDefer ts)
    with rest have "t = s1\<lparr> gift_card_orders := update_where (\<lambda>r. go_id r = i) (\<lambda>r. r\<lparr> go_eligible_at := Some ts \<rparr>) (gift_card_orders s1) \<rparr>"
      by (simp add: update_order_def)
    moreover have "go_cap_reserved_cents r = go_denomination r" if "r \<in> set (gift_card_orders s1)" "go_status r = ''issued''" for r
      using ok1 that by (auto simp: gift_ok_def order_ok_def)
    ultimately show ?thesis by (auto intro!: gift_ok_relabel [OF ok1])
  next
    case CapBlock
    with rest show ?thesis by (auto intro: mark_failed_ok [OF ok1 ok])
  qed
qed (simp add: ok)

lemma issue_gift_card_bg_ok:
  assumes "gift_ok cap s" shows "gift_ok cap (snd (issue_gift_card_bg env cap ck i s))"
  using assms issue_gift_card_ok [OF assms]
  by (auto simp: issue_gift_card_bg_def catch_def db_transaction_def split: prod.splits sum.splits)


section \<open>The first of January\<close>

lemma year_start_split:
  fixes a b c d :: int
  assumes "0 \<le> b" "b \<le> 3" "0 \<le> c" "c \<le> 24" "0 \<le> d" "d \<le> 3"
  shows "year_start (400 * a + 100 * b + 4 * c + d + 1) = 146097 * a + 36524 * b + 1461 * c + 365 * d - 719162"
proof -
  have "(400 * a + 100 * b + 4 * c + d) div 4 = 100 * a + 25 * b + c"
    and "(400 * a + 100 * b + 4 * c + d) div 100 = 4 * a + b"
    and "(400 * a + 100 * b + 4 * c + d) div 400 = a"
    using assms
    by (auto intro: int_div_pos_eq [of _ _ _ d] int_div_pos_eq [of _ _ _ "4 * c + d"]
        int_div_pos_eq [of _ _ _ "100 * b + 4 * c + d"])
  then show ?thesis by (simp add: year_start_def Let_def)
qed

lemma year_start_cases:
  fixes a b c d :: int
  assumes "y = 400 * a + 100 * b + 4 * c + d + 1" "0 \<le> b" "b \<le> 3" "0 \<le> c" "c \<le> 24" "0 \<le> d" "d \<le> 3"
  shows "year_start y = 146097 * a + 36524 * b + 1461 * c + 365 * d - 719162
    \<and> year_start (y + 1) =
     (if d < 3 then 146097 * a + 36524 * b + 1461 * c + 365 * (d + 1)
      else if c < 24 then 146097 * a + 36524 * b + 1461 * (c + 1)
      else if b < 3 then 146097 * a + 36524 * (b + 1)
      else 146097 * (a + 1)) - 719162"
proof -
  consider "d < 3" | "d = 3" "c < 24" | "d = 3" "c = 24" "b < 3" | "d = 3" "c = 24" "b = 3"
    using assms by linarith
  then have "year_start (y + 1) =
     (if d < 3 then 146097 * a + 36524 * b + 1461 * c + 365 * (d + 1)
      else if c < 24 then 146097 * a + 36524 * b + 1461 * (c + 1)
      else if b < 3 then 146097 * a + 36524 * (b + 1)
      else 146097 * (a + 1)) - 719162"
  proof cases
    case 1
    with assms year_start_split [of b c "d + 1" a] show ?thesis by (simp add: algebra_simps)
  next
    case 2
    with assms year_start_split [of b "c + 1" 0 a] show ?thesis by (simp add: algebra_simps)
  next
    case 3
    with assms year_start_split [of "b + 1" 0 0 a] show ?thesis by (simp add: algebra_simps)
  next
    case 4
    with assms year_start_split [of 0 0 0 "a + 1"] show ?thesis by (simp add: algebra_simps)
  qed
  with assms year_start_split show ?thesis by simp
qed

lemma ordinal_year_bounds:
  "year_start (ordinal_year n) \<le> n - 719163 \<and> n - 719163 < year_start (ordinal_year n + 1)"
proof -
  define a where "a = (n - 1) div 146097"
  define m1 where "m1 = (n - 1) mod 146097"
  define b where "b = m1 div 36524"
  define m2 where "m2 = m1 mod 36524"
  define c where "c = m2 div 1461"
  define m3 where "m3 = m2 mod 1461"
  define d where "d = m3 div 365"
  have n: "n = 146097 * a + m1 + 1" "0 \<le> m1" "m1 < 146097" by (simp_all add: a_def m1_def)
  have m1: "m1 = 36524 * b + m2" "0 \<le> m2" "m2 < 36524" by (simp_all add: b_def m2_def)
  have m2: "m2 = 1461 * c + m3" "0 \<le> m3" "m3 < 1461" by (simp_all add: c_def m3_def)
  have d: "365 * d \<le> m3" "m3 < 365 * d + 365" unfolding d_def by presburger+
  have rng: "0 \<le> b" "b \<le> 4" "0 \<le> c" "c \<le> 24" "0 \<le> d" "d \<le> 4" using n m1 m2 d by linarith+
  have year: "ordinal_year n = (if d = 4 \<or> b = 4 then 400 * a + 100 * b + 4 * c + d
      else 400 * a + 100 * b + 4 * c + d + 1)"
    by (simp add: ordinal_year_def Let_def a_def m1_def b_def m2_def c_def m3_def d_def algebra_simps)
  show ?thesis
  proof (cases "b = 4")
    case True
    with n m1 have "m2 = 0" by linarith
    with m2 d rng have "c = 0" "d = 0" by linarith+
    with True year year_start_cases [of "ordinal_year n" a 3 24 3] n m1 \<open>m2 = 0\<close> show ?thesis by simp
  next
    case b: False
    show ?thesis
    proof (cases "d = 4")
      case True
      with year_start_cases [of "ordinal_year n" a b c 3] b year n m1 m2 d rng show ?thesis
        by (cases "c < 24"; cases "b < 3") simp_all
    next
      case False
      with b rng have le: "b \<le> 3" "d \<le> 3" by linarith+
      have y: "ordinal_year n = 400 * a + 100 * b + 4 * c + d + 1" using year b False by simp
      note ys = year_start_cases [OF y rng(1) le(1) rng(3,4,5) le(2)]
      have "year_start (ordinal_year n) \<le> n - 719163" using ys n(1) m1(1) m2(1) d(1) by linarith
      moreover have "n - 719163 < year_start (ordinal_year n + 1)"
      proof -
        have "n - 1 < 146097 * a + 36524 * b + 1461 * c + 365 * (d + 1)" "n - 1 < 146097 * a + 36524 * b + 1461 * (c + 1)"
          "n - 1 < 146097 * a + 36524 * (b + 1)" "n - 1 < 146097 * (a + 1)"
          using n m1 m2 d(2) by (simp_all add: algebra_simps)
        with conjunct2 [OF ys] show ?thesis by (auto split: if_splits)
      qed
      ultimately show ?thesis ..
    qed
  qed
qed

lemma year_start_step: "year_start (y + 1) - year_start y \<in> {365, 366}"
proof -
  define a b c d where "a = (y - 1) div 400" and "b = (y - 1) mod 400 div 100"
    and "c = (y - 1) mod 400 mod 100 div 4" and "d = (y - 1) mod 400 mod 100 mod 4"
  have y: "y = 400 * a + 100 * b + 4 * c + d + 1" by (simp add: a_def b_def c_def d_def)
  have rng: "0 \<le> b" "b \<le> 3" "0 \<le> c" "c \<le> 24" "0 \<le> d" "d \<le> 3"
  proof -
    have "0 \<le> m div 100 \<and> m div 100 \<le> 3" if "0 \<le> m" "m < 400" for m :: int using that by presburger
    moreover have "0 \<le> m div 4 \<and> m div 4 \<le> 24" if "0 \<le> m" "m < 100" for m :: int using that by presburger
    moreover have "0 \<le> m mod 4 \<and> m mod 4 \<le> 3" for m :: int by presburger
    ultimately show "0 \<le> b" "b \<le> 3" "0 \<le> c" "c \<le> 24" "0 \<le> d" "d \<le> 3"
      by (simp_all add: b_def c_def d_def)
  qed
  show ?thesis using year_start_cases [OF y rng] rng by (cases "d < 3"; cases "c < 24"; cases "b < 3") simp_all
qed

text \<open>
  A card over the cap is deferred to the next first of January in UTC: that instant lies
  in the future, at most a leap year ahead, and is the first one of its year.
\<close>

theorem next_jan_1_future:
  "now ck < next_jan_1_utc ck \<and> next_jan_1_utc ck \<le> now ck + 366 * day_us
    \<and> year_start (utc_year ck) * day_us \<le> now ck"
proof -
  have y: "year_start (utc_year ck) \<le> utc_date ck" "utc_date ck < year_start (utc_year ck + 1)"
    using ordinal_year_bounds [of "utc_date ck + 719163"] by (simp_all add: utc_year_def)
  have "utc_date ck * day_us \<le> now ck" "now ck < (utc_date ck + 1) * day_us"
    unfolding utc_date_def by presburger+
  moreover have "(utc_date ck + 1) * day_us \<le> year_start (utc_year ck + 1) * day_us"
    "year_start (utc_year ck) * day_us \<le> utc_date ck * day_us"
    using y by simp_all
  moreover have "year_start (utc_year ck + 1) \<le> year_start (utc_year ck) + 366"
    using year_start_step [of "utc_year ck"] by auto
  ultimately show ?thesis by (simp add: next_jan_1_utc_def)
qed


section \<open>An order that left pending is final\<close>

interpretation order_frame: cab_frame "\<lambda>s. find_order i s = x" for i x
  by unfold_locales simp_all

text \<open>Work on one order leaves every other order alone.\<close>

lemma keeps_other_order:
  assumes "i \<noteq> j" and "\<And>r. go_id (f r) = go_id r"
  shows "keeps (\<lambda>s. find_order i s = x) (modify (update_order j f))"
  by (rule keeps_modify) (simp add: find_order_update assms)

lemma keeps_other_update_ytd: "keeps (\<lambda>s. find_order i s = x) (update_ytd u f)"
  unfolding update_ytd_def Let_def by (intro keeps_intro keeps_modify) simp_all

lemma keeps_other_pending:
  assumes "i \<noteq> j" and "\<And>r. go_id (f r) = go_id r"
  shows "keeps (\<lambda>s. find_order i s = x) (update_pending j f)"
proof (rule keepsI)
  fix s r t assume "find_order i s = x" and "update_pending j f s = (r, t)"
  moreover have "List.find (\<lambda>r. go_id r = i) (update_where (\<lambda>r. go_id r = j \<and> go_status r = ''pending'') f xs) =
      List.find (\<lambda>r. go_id r = i) xs" for xs
    using assms by (induction xs) auto
  ultimately show "find_order i t = x" by (auto simp: update_pending_run find_order_def)
qed

lemma keeps_other_refund: "keeps (\<lambda>s. find_order i s = x) (refund_order_cab ck j)"
  unfolding refund_order_cab_def
  by (auto intro!: keeps_intro order_frame.keeps_award split: prod.splits ref_text.splits)

lemma keeps_other_release: "i \<noteq> j \<Longrightarrow> keeps (\<lambda>s. find_order i s = x) (release_gift_card_cap j)"
  unfolding release_gift_card_cap_def Let_def
  by (intro keeps_intro keeps_other_update_ytd keeps_other_order) simp_all

lemma keeps_other_mark_failed:
  "i \<noteq> j \<Longrightarrow> find_order i start = x \<Longrightarrow> keeps (\<lambda>s. find_order i s = x) (mark_failed ck start j)"
  unfolding mark_failed_def update_order_failed_def
  by (intro keeps_intro keeps_other_pending keeps_other_refund keeps_other_release keeps_modify)
    (simp_all add: failed_order_def)

lemma keeps_other_reserve: "i \<noteq> j \<Longrightarrow> keeps (\<lambda>s. find_order i s = x) (reserve_gift_card_cap cap ck j defer)"
  unfolding reserve_gift_card_cap_def Let_def
  by (intro keeps_intro keeps_other_update_ytd keeps_other_order) simp_all

lemma keeps_other_provider:
  assumes "i \<noteq> go_id r" and "find_order i start = x"
  shows "keeps (\<lambda>s. find_order i s = x) (issue_at_provider env ck start r)"
  unfolding issue_at_provider_def Let_def update_order_issued_def
  by (auto intro!: keeps_intro keeps_other_mark_failed keeps_other_pending assms
      simp: issued_order_def split: runa_response.splits option.splits)

lemma keeps_other_issue:
  assumes "i \<noteq> j" and "find_order i s = x"
  shows "find_order i (snd (issue_gift_card env cap ck s j s)) = x"
proof (cases "get_order j s")
  case (Some p)
  then obtain r b where p: "get_order j s = Some (r, b)" by (cases p) simp
  then have "go_id r = j" using get_order_Some [OF p] by (auto simp: row_to_dict_def)
  moreover have "keeps (\<lambda>s. find_order i s = x) (case d of CapAllow \<Rightarrow> issue_at_provider env ck s r
      | CapDefer ts \<Rightarrow> modify (update_order j (\<lambda>r. r\<lparr> go_eligible_at := Some ts \<rparr>))
      | CapBlock \<Rightarrow> mark_failed ck s j)" for d
    using assms calculation
    by (cases d) (auto intro!: keeps_other_provider keeps_other_mark_failed keeps_other_order)
  ultimately have "keeps (\<lambda>s. find_order i s = x) (bnd (reserve_gift_card_cap cap ck j (go_source_type r \<noteq> ''shop_purchase''))
      (\<lambda>d. case d of CapAllow \<Rightarrow> issue_at_provider env ck s r
      | CapDefer ts \<Rightarrow> modify (update_order j (\<lambda>r. r\<lparr> go_eligible_at := Some ts \<rparr>))
      | CapBlock \<Rightarrow> mark_failed ck s j))"
    by (intro keeps_bnd keeps_other_reserve assms)
  from keeps_snd [OF this assms(2)] p assms(2) show ?thesis by (simp add: issue_gift_card_def)
qed (simp add: issue_gift_card_def assms)

lemma issue_bg_final:
  assumes "find_order i s = Some r" and "go_status r \<noteq> ''pending'' \<or> i \<noteq> j"
  shows "find_order i (snd (issue_gift_card_bg env cap ck j s)) = Some r"
proof -
  have "find_order i (snd (issue_gift_card env cap ck s j s)) = Some r"
  proof (cases "i = j")
    case True
    with assms have "snd (issue_gift_card env cap ck s j s) = s"
      by (auto simp: issue_gift_card_def get_order_def order_with_brand_def row_to_dict_def split: option.splits)
    with assms show ?thesis by simp
  qed (use assms keeps_other_issue in blast)
  with assms show ?thesis
    by (auto simp: issue_gift_card_bg_def catch_def db_transaction_def split: prod.splits sum.splits)
qed

lemma find_by_source_uuid [simp]: "find_by_source st ref (s\<lparr> next_uuid := n \<rparr>) = find_by_source st ref s"
  by (simp add: find_by_source_def)

lemma gift_ok_new_order:
  assumes "gift_ok cap s" and "0 < denom" and "i \<notin> go_id ` set (gift_card_orders s)"
  shows "gift_ok cap (s\<lparr> gift_card_orders := gift_card_orders s @ [new_order ck i u b denom st ref] \<rparr>)"
proof -
  let ?t = "s\<lparr> gift_card_orders := gift_card_orders s @ [new_order ck i u b denom st ref] \<rparr>"
  have "reserved_total ?t v = reserved_total s v" "ytd_cents v ?t = ytd_cents v s" for v
    by (simp_all add: reserved_total_def new_order_def ytd_cents_def)
  with assms show ?thesis unfolding gift_ok_def by (auto simp: new_order_def order_ok_def)
qed

lemma insert_order_Inr:
  assumes "insert_gift_card_order ck u b denom st ref s = (Inr i, t)"
  shows "(\<exists>r. find_by_source st ref s = Some r \<and> i = go_id r \<and> t = s\<lparr> next_uuid := Suc (next_uuid s) \<rparr>)
    \<or> find_by_source st ref s = None \<and> i = next_uuid s \<and> i \<notin> go_id ` set (gift_card_orders s)
      \<and> t = s\<lparr> next_uuid := Suc (next_uuid s), gift_card_orders := gift_card_orders s @ [new_order ck i u b denom st ref] \<rparr>"
proof (cases "find_by_source st ref s")
  case None
  moreover have "find_by_source st ref (s\<lparr> next_uuid := n, gift_card_orders := gift_card_orders s @ [new_order ck k u b denom st ref] \<rparr>)
      = Some (new_order ck k u b denom st ref)" for n k
    using None by (simp add: find_by_source_def find_append new_order_def)
  ultimately show ?thesis using assms
    by (simp add: insert_gift_card_order_def split: if_splits) (auto simp: new_order_def)
next
  case (Some r)
  with assms show ?thesis
    by (auto simp: insert_gift_card_order_def split: if_splits)
qed

lemma insert_order_run:
  assumes "fits_int4 denom" and "st \<in> set gift_source_types" and "find_by_source st ref s = None"
    and "next_uuid s \<notin> go_id ` set (gift_card_orders s)"
  shows "insert_gift_card_order ck u b denom st ref s = (Inr (next_uuid s),
    s\<lparr> next_uuid := Suc (next_uuid s), gift_card_orders := gift_card_orders s @ [new_order ck (next_uuid s) u b denom st ref] \<rparr>)"
proof -
  have "find_by_source st ref (s\<lparr> next_uuid := n, gift_card_orders := gift_card_orders s @ [new_order ck k u b denom st ref] \<rparr>)
      = Some (new_order ck k u b denom st ref)" for n k
    using assms(3) by (simp add: find_by_source_def find_append new_order_def)
  with assms show ?thesis by (simp add: insert_gift_card_order_def) (simp add: new_order_def)
qed

lemma insert_order_ok:
  assumes "gift_ok cap s" and "0 < denom" and "insert_gift_card_order ck u b denom st ref s = (Inr i, t)"
  shows "gift_ok cap t"
  using insert_order_Inr [OF assms(3)]
proof (elim disjE conjE exE)
  assume "i \<notin> go_id ` set (gift_card_orders s)"
    and t: "t = s\<lparr> next_uuid := Suc (next_uuid s), gift_card_orders := gift_card_orders s @ [new_order ck i u b denom st ref] \<rparr>"
  with gift_ok_new_order [of cap "s\<lparr> next_uuid := Suc (next_uuid s) \<rparr>"] assms(1,2) show ?thesis by simp
qed (simp add: assms(1))

lemma insert_order_final:
  assumes "find_order i s = Some r" and "insert_gift_card_order ck u b denom st ref s = (Inr j, t)"
  shows "find_order i t = Some r"
  using insert_order_Inr [OF assms(2)] assms(1) by (auto simp: find_order_def find_append)

end
