(* ===== verification/Ratis_Battlepass.thy ===== *)
theory Ratis_Battlepass
  imports Ratis_GiftCards Ratis_Xp
begin

text \<open>
  The battle pass: \<open>battlepass_repository.py\<close>, \<open>battlepass_service.py\<close>, the user routes of
  \<open>gamification/battlepass.py\<close> and the admin routes of \<open>admin/battlepass.py\<close>. The lemmas show that
  at most one season is active, that a milestone is claimed at most once per user and only when it is
  unlocked, what a claim pays, and two ways a milestone a user has earned pays nothing.
\<close>

section \<open>The read side\<close>

definition milestone_status :: "db \<Rightarrow> uuid \<Rightarrow> int \<Rightarrow> milestone_row \<Rightarrow> string" where
  "milestone_status s u earned m =
     (if bp_claimed s u (mi_id m) then ''claimed''
      else if mi_cab_required m \<le> earned then ''unlocked'' else ''locked'')"

record battlepass_view =
  bv_season :: season_row
  bv_cab_earned_season :: int
  bv_milestones :: "(milestone_row \<times> string) list"

definition get_active_battlepass_data :: "uuid \<Rightarrow> db \<Rightarrow> battlepass_view option" where
  "get_active_battlepass_data u s = (case get_active_season s of
       None \<Rightarrow> None
     | Some season \<Rightarrow>
         let earned = get_cab_earned_season s u (se_id season) in
         Some \<lparr> bv_season = season, bv_cab_earned_season = earned,
           bv_milestones = map (\<lambda>m. (m, milestone_status s u earned m))
             (sort_key mi_cab_required (filter (\<lambda>m. mi_season_id m = se_id season) (battlepass_milestones s))) \<rparr>)"

definition get_milestone_for_claim :: "uuid \<Rightarrow> uuid \<Rightarrow> db \<Rightarrow> (milestone_row \<times> string) option" where
  "get_milestone_for_claim u mid s =
     map_option (\<lambda>m. (m, milestone_status s u (get_cab_earned_season s u (mi_season_id m)) m))
       (List.find (\<lambda>m. mi_id m = mid
          \<and> list_ex (\<lambda>x. se_id x = mi_season_id m \<and> se_is_active x) (battlepass_seasons s)) (battlepass_milestones s))"

definition bp_is_subscriber :: "clock \<Rightarrow> uuid \<Rightarrow> db \<Rightarrow> bool" where
  "bp_is_subscriber ck u s = active_subscription ck u s"

definition get_newly_unlocked_bp_milestones :: "uuid \<Rightarrow> uuid \<Rightarrow> int \<Rightarrow> db \<Rightarrow> (int \<times> string) list" where
  "get_newly_unlocked_bp_milestones u sid cab_before s = (case user_battlepass_progress s (u, sid) of
       None \<Rightarrow> []
     | Some earned \<Rightarrow> map (\<lambda>m. (mi_number m, mi_reward_type m)) (filter (\<lambda>m. mi_season_id m = sid
         \<and> cab_before < mi_cab_required m \<and> mi_cab_required m \<le> earned \<and> \<not> bp_claimed s u (mi_id m))
         (battlepass_milestones s)))"

definition get_battlepass :: "uuid \<Rightarrow> db \<Rightarrow> battlepass_view option" where
  "get_battlepass u s = get_active_battlepass_data u s"


section \<open>Claims\<close>

definition insert_milestone_claim :: "uuid \<Rightarrow> uuid \<Rightarrow> unit db_op" where
  "insert_milestone_claim u mid = bnd fresh_uuid (\<lambda>_. bnd (reads (\<lambda>s. bp_claimed s u mid)) (\<lambda>taken.
     seq (constr (\<not> taken) ''user_battlepass_claims_user_id_milestone_id_key'')
       (modify (\<lambda>s. s\<lparr> user_battlepass_claims := user_battlepass_claims s @
          [\<lparr> bc_user_id = u, bc_milestone_id = mid \<rparr>] \<rparr>))))"

record claim_result =
  cr_reward_type :: string
  cr_reward_value :: int
  cr_new_cab_balance :: int
  cr_gift_card_order_id :: "uuid option"

text \<open>
  The reward of a claim. \<open>gift_card_cfg\<close> is the brand configured for milestones: \<open>None\<close> when there is
  no such setting or it is empty.
\<close>

definition give_milestone_reward ::
  "clock \<Rightarrow> uuid \<Rightarrow> uuid \<Rightarrow> milestone_row \<Rightarrow> ref_text option \<Rightarrow> uuid option db_op" where
  "give_milestone_reward ck u mid m gift_card_cfg =
     (if mi_reward_type m = ''cab'' then
        seq (award_cab ck u (mi_reward_value m) ''battlepass_milestone'' (Some mid) (Some ''battlepass_milestone'')
               True None False None) (ret None)
      else if mi_reward_type m = ''gift_card'' then
        (case gift_card_cfg of
           None \<Rightarrow> ret None
         | Some (OtherText _) \<Rightarrow> throw ValueError
         | Some (UuidText brand) \<Rightarrow>
             bnd (insert_gift_card_order ck u brand (mi_reward_value m) ''battlepass_milestone'' (UuidText mid)) (\<lambda>i. ret (Some i)))
      else ret None)"

definition claim_milestone ::
  "(int \<Rightarrow> int \<Rightarrow> int option) \<Rightarrow> clock \<Rightarrow> uuid \<Rightarrow> uuid \<Rightarrow> ref_text option \<Rightarrow> int \<Rightarrow> claim_result db_op" where
  "claim_milestone pg ck u mid gift_card_cfg xp_per_milestone =
     bnd (reads (get_milestone_for_claim u mid)) (\<lambda>found. case found of
       None \<Rightarrow> throw (NotFound ''milestone_not_found'')
     | Some (m, status) \<Rightarrow>
         seq (guard (status \<noteq> ''claimed'') (Conflict ''milestone_already_claimed''))
        (seq (guard (status \<noteq> ''locked'') (Forbidden ''milestone_locked''))
        (bnd (reads (bp_is_subscriber ck u)) (\<lambda>sub.
         seq (guard (mi_subscriber_only m \<longrightarrow> sub) (Forbidden ''subscriber_required''))
        (seq (catch (insert_milestone_claim u mid)
               (\<lambda>e. if is_integrity_error e then throw (Conflict ''milestone_already_claimed'') else throw e))
        (bnd (give_milestone_reward ck u mid m gift_card_cfg) (\<lambda>order.
         seq (if 0 < xp_per_milestone then
                seq (award_xp pg ck u xp_per_milestone ''battlepass_milestone'' (Some mid) (Some ''battlepass_milestone'')
                       100 True None) (ret ())
              else ret ())
        (bnd (reads (\<lambda>s. get_balance s u)) (\<lambda>balance.
         ret \<lparr> cr_reward_type = mi_reward_type m, cr_reward_value = mi_reward_value m,
               cr_new_cab_balance = balance, cr_gift_card_order_id = order \<rparr>)))))))))"

text \<open>The routes; a claim that returns an order is followed by \<open>issue_gift_card_bg\<close>.\<close>

definition get_battlepass_endpoint :: "uuid \<Rightarrow> battlepass_view option db_op" where
  "get_battlepass_endpoint u = db_transaction (reads (get_battlepass u))"

definition claim_battlepass_milestone ::
  "(int \<Rightarrow> int \<Rightarrow> int option) \<Rightarrow> clock \<Rightarrow> uuid \<Rightarrow> uuid \<Rightarrow> ref_text option \<Rightarrow> int \<Rightarrow> claim_result db_op" where
  "claim_battlepass_milestone pg ck u mid gift_card_cfg xp = db_transaction (claim_milestone pg ck u mid gift_card_cfg xp)"


section \<open>Administration\<close>

definition admin_list_seasons :: "db \<Rightarrow> season_row list" where
  "admin_list_seasons s = sort_key (\<lambda>r. - se_number r) (battlepass_seasons s)"

definition admin_get_season :: "uuid \<Rightarrow> db \<Rightarrow> season_row option" where
  "admin_get_season sid s = List.find (\<lambda>r. se_id r = sid) (battlepass_seasons s)"

definition admin_create_season :: "string \<Rightarrow> int \<Rightarrow> stamp \<Rightarrow> stamp \<Rightarrow> uuid db_op" where
  "admin_create_season name num start_at end_at =
     bnd (reads (\<lambda>s. list_ex (\<lambda>r. se_number r = num) (battlepass_seasons s))) (\<lambda>existing.
     if existing then throw SeasonNumberConflict
     else bnd fresh_uuid (\<lambda>i. seq (int4 num) (seq (modify (\<lambda>s. s\<lparr> battlepass_seasons := battlepass_seasons s @
       [\<lparr> se_id = i, se_number = num, se_name = name, se_started_at = start_at, se_ends_at = end_at,
          se_is_active = False \<rparr>] \<rparr>)) (ret i))))"

definition admin_activate_season :: "uuid \<Rightarrow> unit db_op" where
  "admin_activate_season sid = bnd (reads (admin_get_season sid)) (\<lambda>target. case target of
       None \<Rightarrow> throw SeasonNotFound
     | Some r \<Rightarrow>
         if se_is_active r then ret ()
         else bnd (reads (\<lambda>s. list_ex (\<lambda>x. se_is_active x \<and> se_id x \<noteq> sid) (battlepass_seasons s))) (\<lambda>other.
           if other then throw ActiveSeasonConflict
           else modify (\<lambda>s. s\<lparr> battlepass_seasons :=
             update_where (\<lambda>x. se_id x = sid) (\<lambda>x. x\<lparr> se_is_active := True \<rparr>) (battlepass_seasons s) \<rparr>)))"

definition admin_create_milestone :: "uuid \<Rightarrow> int \<Rightarrow> int \<Rightarrow> string \<Rightarrow> int \<Rightarrow> bool \<Rightarrow> uuid db_op" where
  "admin_create_milestone sid num cab_required reward_type reward_value subscriber_only =
     bnd (reads (admin_get_season sid)) (\<lambda>season.
     if season = None then throw SeasonNotFound
     else bnd (reads (\<lambda>s. list_ex (\<lambda>m. mi_season_id m = sid \<and> mi_number m = num) (battlepass_milestones s))) (\<lambda>dup.
       if dup then throw MilestoneNumberConflict
       else bnd fresh_uuid (\<lambda>i. seq (int4 num) (seq (int4 cab_required) (seq (int4 reward_value)
         (seq (constr (reward_type \<in> {''cab'', ''gift_card'', ''skin''}) ''battlepass_milestones_reward_type_check'')
         (seq (modify (\<lambda>s. s\<lparr> battlepass_milestones := battlepass_milestones s @
           [\<lparr> mi_id = i, mi_season_id = sid, mi_number = num, mi_cab_required = cab_required, mi_reward_type = reward_type,
              mi_reward_value = reward_value, mi_subscriber_only = subscriber_only \<rparr>] \<rparr>)) (ret i))))))))"

definition admin_list_battlepass_seasons :: "(season_row list \<times> nat) db_op" where
  "admin_list_battlepass_seasons = reads (\<lambda>s. (admin_list_seasons s, length (admin_list_seasons s)))"

definition admin_post_battlepass_season :: "string \<Rightarrow> int \<Rightarrow> stamp \<Rightarrow> stamp \<Rightarrow> season_row option db_op" where
  "admin_post_battlepass_season name num start_at end_at =
     (if length name < 1 \<or> 128 < length name \<or> num < 1 \<or> end_at \<le> start_at
      then throw (HTTPException 422 ''validation_error'')
      else bnd (catch (db_transaction (admin_create_season name num start_at end_at))
        (\<lambda>e. if e = SeasonNumberConflict then throw (HTTPException 409 ''season_number_conflict'') else throw e))
        (\<lambda>sid. reads (admin_get_season sid)))"

definition admin_activate_battlepass_season :: "uuid \<Rightarrow> uuid db_op" where
  "admin_activate_battlepass_season sid =
     catch (seq (db_transaction (admin_activate_season sid)) (ret sid))
       (\<lambda>e. if e = SeasonNotFound then throw (HTTPException 404 ''season_not_found'')
            else if e = ActiveSeasonConflict then throw (HTTPException 409 ''active_season_conflict'') else throw e)"

definition admin_post_battlepass_milestone :: "uuid \<Rightarrow> int \<Rightarrow> int \<Rightarrow> string \<Rightarrow> int \<Rightarrow> bool \<Rightarrow> uuid db_op" where
  "admin_post_battlepass_milestone sid num cab_required reward_type reward_value subscriber_only =
     (if num < 1 \<or> cab_required < 0 \<or> reward_type \<notin> {''cab'', ''gift_card'', ''skin''} \<or> reward_value < 0
      then throw (HTTPException 422 ''validation_error'')
      else catch (db_transaction (admin_create_milestone sid num cab_required reward_type reward_value subscriber_only))
        (\<lambda>e. if e = SeasonNotFound then throw (HTTPException 404 ''season_not_found'')
             else if e = MilestoneNumberConflict then throw (HTTPException 409 ''milestone_number_conflict'') else throw e))"


section \<open>Seasons, milestones and claims stay consistent\<close>

definition bp_ok :: "db \<Rightarrow> bool" where
  "bp_ok s \<longleftrightarrow> count_where se_is_active (battlepass_seasons s) \<le> 1
     \<and> distinct (map se_id (battlepass_seasons s)) \<and> distinct (map se_number (battlepass_seasons s))
     \<and> (\<forall>r \<in> set (battlepass_seasons s). se_id r < next_uuid s)
     \<and> distinct (map mi_id (battlepass_milestones s))
     \<and> (\<forall>m \<in> set (battlepass_milestones s). mi_id m < next_uuid s)
     \<and> distinct (map (\<lambda>m. (mi_season_id m, mi_number m)) (battlepass_milestones s))
     \<and> distinct (map (\<lambda>c. (bc_user_id c, bc_milestone_id c)) (user_battlepass_claims s))"

lemma bp_ok_frame [simp]:
  "bp_ok (s\<lparr> users := x1 \<rparr>) = bp_ok s"
  "bp_ok (s\<lparr> user_cab_balance := x2 \<rparr>) = bp_ok s"
  "bp_ok (s\<lparr> user_cashback_balance := x3 \<rparr>) = bp_ok s"
  "bp_ok (s\<lparr> cabecoin_transactions := x4 \<rparr>) = bp_ok s"
  "bp_ok (s\<lparr> user_streaks := x5 \<rparr>) = bp_ok s"
  "bp_ok (s\<lparr> user_xp_balance := x6 \<rparr>) = bp_ok s"
  "bp_ok (s\<lparr> xp_transactions := x7 \<rparr>) = bp_ok s"
  "bp_ok (s\<lparr> user_battlepass_progress := x10 \<rparr>) = bp_ok s"
  "bp_ok (s\<lparr> community_challenges := x12 \<rparr>) = bp_ok s"
  "bp_ok (s\<lparr> community_challenge_milestones := x13 \<rparr>) = bp_ok s"
  "bp_ok (s\<lparr> community_challenge_progress := x14 \<rparr>) = bp_ok s"
  "bp_ok (s\<lparr> community_challenge_claims := x15 \<rparr>) = bp_ok s"
  "bp_ok (s\<lparr> community_multipliers := x16 \<rparr>) = bp_ok s"
  "bp_ok (s\<lparr> notification_outbox := x17 \<rparr>) = bp_ok s"
  "bp_ok (s\<lparr> affiliate_offers := x18 \<rparr>) = bp_ok s"
  "bp_ok (s\<lparr> cashback_transactions := x19 \<rparr>) = bp_ok s"
  "bp_ok (s\<lparr> cashback_withdrawals := x20 \<rparr>) = bp_ok s"
  "bp_ok (s\<lparr> subscriptions := x21 \<rparr>) = bp_ok s"
  "bp_ok (s\<lparr> receipts := x22 \<rparr>) = bp_ok s"
  "bp_ok (s\<lparr> scans := x23 \<rparr>) = bp_ok s"
  "bp_ok (s\<lparr> products := x24 \<rparr>) = bp_ok s"
  "bp_ok (s\<lparr> gift_card_brands := x25 \<rparr>) = bp_ok s"
  "bp_ok (s\<lparr> gift_card_orders := x26 \<rparr>) = bp_ok s"
  "bp_ok (s\<lparr> achievements := x27 \<rparr>) = bp_ok s"
  "bp_ok (s\<lparr> user_achievements := x28 \<rparr>) = bp_ok s"
  "bp_ok (s\<lparr> referral_codes := x29 \<rparr>) = bp_ok s"
  "bp_ok (s\<lparr> referral_uses := x30 \<rparr>) = bp_ok s"
  "bp_ok (s\<lparr> play := x31 \<rparr>) = bp_ok s"
  by (simp_all add: bp_ok_def)

lemma bp_ok_next [simp]: "bp_ok s \<Longrightarrow> bp_ok (s\<lparr> next_uuid := Suc (next_uuid s) \<rparr>)"
  by (auto simp: bp_ok_def less_Suc_eq)

lemma bp_ok_seasons:
  assumes "bp_ok s" and "\<not> list_ex (\<lambda>r. se_number r = se_number x) (battlepass_seasons s)"
    and "se_id x = next_uuid s" and "\<not> se_is_active x"
  shows "bp_ok (s\<lparr> next_uuid := Suc (next_uuid s), battlepass_seasons := battlepass_seasons s @ [x] \<rparr>)"
  using assms by (auto simp: bp_ok_def count_where_def list_ex_iff less_Suc_eq)

lemma count_where_update_one:
  assumes "distinct (map k xs)" and "\<forall>x \<in> set xs. p x \<longrightarrow> k x = i" and "\<And>x. k (f x) = k x"
  shows "count_where p (update_where (\<lambda>x. k x = i) f xs) \<le> 1"
  using assms(1,2)
proof (induction xs)
  case (Cons a xs)
  show ?case
  proof (cases "k a = i")
    case True
    then have none: "\<forall>x \<in> set xs. k x \<noteq> i" using Cons.prems(1) by (auto simp: rev_image_eqI)
    then have "update_where (\<lambda>x. k x = i) f xs = xs" by (intro update_where_none) auto
    moreover have "count_where p xs = 0" using none Cons.prems(2) by (auto simp: count_where_0_iff)
    ultimately show ?thesis by (simp add: count_where_def)
  next
    case False
    with Cons.prems have "\<not> p a" by auto
    with Cons False show ?thesis by (simp add: count_where_def)
  qed
qed (simp add: count_where_def)

lemma preserves_activate [preserves_intro]: "preserves bp_ok (admin_activate_season sid)"
proof (rule preservesI)
  fix s x t assume ok: "bp_ok s" and run: "admin_activate_season sid s = (Inr x, t)"
  show "bp_ok t"
  proof (cases "t = s")
    case False
    with run have other: "\<not> list_ex (\<lambda>x. se_is_active x \<and> se_id x \<noteq> sid) (battlepass_seasons s)"
      and t: "t = s\<lparr> battlepass_seasons := update_where (\<lambda>x. se_id x = sid) (\<lambda>x. x\<lparr> se_is_active := True \<rparr>) (battlepass_seasons s) \<rparr>"
      by (auto simp: admin_activate_season_def split: option.splits if_splits)
    have "count_where se_is_active (battlepass_seasons t) \<le> 1"
      unfolding t using ok other
        count_where_update_one [of se_id "battlepass_seasons s" se_is_active sid "\<lambda>x. x\<lparr> se_is_active := True \<rparr>"]
      by (auto simp: bp_ok_def list_ex_iff)
    with ok show ?thesis by (auto simp: bp_ok_def t map_update_where set_update_where)
  qed (simp add: ok)
qed

lemma preserves_create_season [preserves_intro]: "preserves bp_ok (admin_create_season name num a b)"
  by (rule preservesI) (auto simp: admin_create_season_def intro!: bp_ok_seasons split: if_splits)

lemma preserves_create_milestone [preserves_intro]:
  "preserves bp_ok (admin_create_milestone sid num cab rt rv sub)"
proof (rule preservesI)
  fix s i t assume ok: "bp_ok s" and run: "admin_create_milestone sid num cab rt rv sub s = (Inr i, t)"
  then have fresh: "\<not> list_ex (\<lambda>m. mi_season_id m = sid \<and> mi_number m = num) (battlepass_milestones s)"
    and t: "t = s\<lparr> next_uuid := Suc (next_uuid s), battlepass_milestones := battlepass_milestones s @
         [\<lparr> mi_id = next_uuid s, mi_season_id = sid, mi_number = num, mi_cab_required = cab, mi_reward_type = rt,
            mi_reward_value = rv, mi_subscriber_only = sub \<rparr>] \<rparr>"
    by (auto simp: admin_create_milestone_def split: if_splits)
  from ok fresh show "bp_ok t" by (auto simp: bp_ok_def t list_ex_iff less_Suc_eq)
qed

lemma insert_milestone_claim_Inr:
  "insert_milestone_claim u mid s = (Inr x, t) \<longleftrightarrow> \<not> bp_claimed s u mid
     \<and> t = s\<lparr> next_uuid := Suc (next_uuid s), user_battlepass_claims := user_battlepass_claims s @
          [\<lparr> bc_user_id = u, bc_milestone_id = mid \<rparr>] \<rparr>"
  by (auto simp: insert_milestone_claim_def bp_claimed_def)

lemma preserves_insert_claim: "preserves bp_ok (insert_milestone_claim u mid)"
  by (rule preservesI) (auto simp: insert_milestone_claim_Inr bp_ok_def bp_claimed_def list_ex_iff less_Suc_eq)

lemma keeps_bp_fresh [keeps_intro]: "keeps bp_ok fresh_uuid"
  by (rule keeps_fresh_uuid) simp

lemma preserves_bp_award [preserves_intro]: "preserves bp_ok (award_cab ck u n reason rid rt ap cm bp season)"
proof (rule preservesI)
  fix s x t assume "bp_ok s" and "award_cab ck u n reason rid rt ap cm bp season s = (Inr x, t)"
  moreover from this have "bp_ok (s\<lparr> next_uuid := Suc (next_uuid s) \<rparr>)" by simp
  ultimately show "bp_ok t" by (auto simp: award_cab_Inr award_state_def)
qed

lemma preserves_bp_order [preserves_intro]: "preserves bp_ok (insert_gift_card_order ck u b d st ref)"
proof (rule preservesI)
  fix s i t assume ok: "bp_ok s" and "insert_gift_card_order ck u b d st ref s = (Inr i, t)"
  from insert_order_Inr [OF this(2)] bp_ok_next [OF ok] show "bp_ok t" by auto
qed

lemma preserves_give_reward [preserves_intro]: "preserves bp_ok (give_milestone_reward ck u mid m cfg)"
  unfolding give_milestone_reward_def by (auto intro!: preserves_intro split: ref_text.splits option.splits)

lemma preserves_bp_xp [preserves_intro]: "preserves bp_ok (award_xp pg ck u n reason rid rt base ap cm)"
  by (rule keeps_preserves, rule keeps_award_xp) simp_all

lemma preserves_claim [preserves_intro]: "preserves bp_ok (claim_milestone pg ck u mid cfg xp)"
  unfolding claim_milestone_def
  by (auto intro!: preserves_bnd preserves_seq preserves_reads preserves_guard preserves_catch_rethrow preserves_insert_claim
      preserves_give_reward preserves_bp_xp preserves_ret preserves_throw exI [of "\<lambda>e'. throw _ = throw e'"]
      split: option.splits prod.splits if_splits)


section \<open>Sequences of battle pass requests\<close>

datatype bp_cmd =
    BpClaim "int \<Rightarrow> int \<Rightarrow> int option" clock uuid uuid "ref_text option" int
  | BpSeason string int stamp stamp
  | BpActivate uuid
  | BpMilestone uuid int int string int bool
  | BpAward clock uuid int string "uuid option" "string option" bool bool

fun bp_step :: "bp_cmd \<Rightarrow> unit db_op" where
  "bp_step (BpClaim pg ck u mid cfg xp) = void (claim_battlepass_milestone pg ck u mid cfg xp)"
| "bp_step (BpSeason name num a b) = void (admin_post_battlepass_season name num a b)"
| "bp_step (BpActivate sid) = void (admin_activate_battlepass_season sid)"
| "bp_step (BpMilestone sid num cab rt rv sub) = void (admin_post_battlepass_milestone sid num cab rt rv sub)"
| "bp_step (BpAward ck u n reason rid rt ap bp) = db_transaction (award_cab ck u n reason rid rt ap None bp None)"

text \<open>What every route needs of its transaction.\<close>

lemma keeps_bp_step:
  assumes "\<And>pg ck u mid cfg xp. preserves I (claim_milestone pg ck u mid cfg xp)"
    and "\<And>name num a b. preserves I (admin_create_season name num a b)"
    and "\<And>sid. preserves I (admin_activate_season sid)"
    and "\<And>sid num cab rt rv sub. preserves I (admin_create_milestone sid num cab rt rv sub)"
    and "\<And>ck u n reason rid rt ap bp. preserves I (award_cab ck u n reason rid rt ap None bp None)"
  shows "keeps I (bp_step c)"
  by (cases c)
    (auto simp: claim_battlepass_milestone_def admin_post_battlepass_season_def admin_activate_battlepass_season_def
      admin_post_battlepass_milestone_def
      intro!: keeps_void keeps_if keeps_throw keeps_bnd keeps_reads keeps_seq keeps_ret keeps_catch_if2 preserves_transaction assms)

interpretation bp_inv: kept_invariant bp_step bp_ok
proof
  fix s c assume "bp_ok s"
  then show "bp_ok (snd (bp_step c s))"
    by (rule keeps_snd [OF keeps_bp_step, rotated -1])
      (intro preserves_claim preserves_create_season preserves_activate preserves_create_milestone preserves_bp_award)+
qed

lemma preserves_bp_cab:
  "preserves cab_ok (claim_milestone pg ck u mid cfg xp)"
  "preserves cab_ok (admin_create_season name num a b)"
  "preserves cab_ok (admin_activate_season sid)"
  "preserves cab_ok (admin_create_milestone sid num cab rt rv sub)"
proof -
  have 1: "preserves cab_ok (insert_milestone_claim v i)" for v i
    by (rule preservesI) (auto simp: insert_milestone_claim_Inr)
  have 2: "preserves cab_ok (insert_gift_card_order ck v b d st ref)" for v b d st ref
    by (rule preservesI) (auto dest: insert_order_Inr)
  have 3: "preserves cab_ok (give_milestone_reward ck u mid m cfg)" for m
    unfolding give_milestone_reward_def by (auto intro!: preserves_intro 2 split: ref_text.splits option.splits)
  show "preserves cab_ok (claim_milestone pg ck u mid cfg xp)" unfolding claim_milestone_def
    by (auto intro!: preserves_bnd preserves_seq preserves_reads preserves_guard preserves_catch_rethrow 1 3
        keeps_preserves [OF keeps_award_xp_cab] exI [of "\<lambda>e'. throw _ = throw e'"] split: option.splits prod.splits if_splits)
qed (auto simp: admin_create_season_def admin_activate_season_def admin_create_milestone_def preserves_def
      split: option.splits if_splits)

lemma keeps_bp_step_cab: "keeps cab_ok (bp_step c)"
  by (rule keeps_bp_step) (intro preserves_bp_cab preserves_award_cab)+

text \<open>
  C16 (invariant). However seasons are created and activated, milestones added and claimed, and CAB
  awarded, at most one season is active, numbers are unique, and no user holds two claims of one milestone.
\<close>

theorem battlepass_invariant:
  assumes "bp_ok s" and "exec_all bp_step cmds s = (rs, t)"
  shows "count_where se_is_active (battlepass_seasons t) \<le> 1
    \<and> distinct (map se_number (battlepass_seasons t))
    \<and> distinct (map (\<lambda>m. (mi_season_id m, mi_number m)) (battlepass_milestones t))
    \<and> distinct (map (\<lambda>c. (bc_user_id c, bc_milestone_id c)) (user_battlepass_claims t))"
  using bp_inv.exec_all_keeps [OF assms] by (simp add: bp_ok_def)

lemma bp_ok_empty: "bp_ok empty_db"
  by (simp add: bp_ok_def count_where_def)

theorem battlepass_invariant_witness:
  "count_where se_is_active (battlepass_seasons (snd (exec_all bp_step
     [BpSeason ''one'' 1 0 10, BpSeason ''two'' 2 10 20, BpActivate 0, BpActivate 1] empty_db))) \<le> 1"
  using battlepass_invariant [OF bp_ok_empty prod.collapse [symmetric]] by blast


section \<open>Claims happen once, and only when unlocked\<close>

lemma claim_milestone_Inr:
  assumes "claim_milestone pg ck u mid cfg xp s = (Inr x, t)"
  obtains m s1 ord s2 where "get_milestone_for_claim u mid s = Some (m, ''unlocked'')"
    "mi_subscriber_only m \<longrightarrow> active_subscription ck u s" "\<not> bp_claimed s u mid"
    "s1 = s\<lparr> next_uuid := Suc (next_uuid s), user_battlepass_claims := user_battlepass_claims s @
          [\<lparr> bc_user_id = u, bc_milestone_id = mid \<rparr>] \<rparr>"
    "give_milestone_reward ck u mid m cfg s1 = (Inr ord, s2)"
    "xp \<le> 0 \<and> t = s2 \<or> 0 < xp \<and> (\<exists>l. award_xp pg ck u xp ''battlepass_milestone'' (Some mid)
        (Some ''battlepass_milestone'') 100 True None s2 = (Inr l, t))"
    "x = \<lparr> cr_reward_type = mi_reward_type m, cr_reward_value = mi_reward_value m,
           cr_new_cab_balance = get_balance t u, cr_gift_card_order_id = ord \<rparr>"
proof -
  from assms obtain m st s1 ord s2 where found: "get_milestone_for_claim u mid s = Some (m, st)"
    and st: "st \<noteq> ''claimed''" "st \<noteq> ''locked''" and sub: "mi_subscriber_only m \<longrightarrow> active_subscription ck u s"
    and ins: "insert_milestone_claim u mid s = (Inr (), s1)"
    and rew: "give_milestone_reward ck u mid m cfg s1 = (Inr ord, s2)"
    and xp: "xp \<le> 0 \<and> t = s2 \<or> 0 < xp \<and> (\<exists>l. award_xp pg ck u xp ''battlepass_milestone'' (Some mid)
        (Some ''battlepass_milestone'') 100 True None s2 = (Inr l, t))"
    and x: "x = \<lparr> cr_reward_type = mi_reward_type m, cr_reward_value = mi_reward_value m,
           cr_new_cab_balance = get_balance t u, cr_gift_card_order_id = ord \<rparr>"
    by (auto simp: claim_milestone_def bp_is_subscriber_def bnd_Inr_iff seq_Inr_iff catch_Inr_iff
        split: option.splits prod.splits if_splits)
  from found st have "st = ''unlocked''" by (auto simp: get_milestone_for_claim_def milestone_status_def split: if_splits)
  with that found sub ins rew xp x show ?thesis by (auto simp: insert_milestone_claim_Inr)
qed


lemma give_reward_leaves:
  assumes "give_milestone_reward ck u mid m cfg s = (Inr ord, t)"
  shows "user_battlepass_claims t = user_battlepass_claims s" "user_battlepass_progress t = user_battlepass_progress s"
  using assms
  by (auto simp: give_milestone_reward_def seq_Inr_iff bnd_Inr_iff award_cab_Inr award_state_def bp_credited_def
      dest!: insert_order_Inr split: if_splits option.splits ref_text.splits)

lemma award_xp_leaves:
  assumes "award_xp pg ck u n reason rid rt base ap cm s = (Inr l, t)"
  shows "user_battlepass_claims t = user_battlepass_claims s" "user_battlepass_progress t = user_battlepass_progress s"
    "user_cab_balance t = user_cab_balance s" "gift_card_orders t = gift_card_orders s"
  using award_xp_Inr [OF assms refl] by auto

lemma claim_marks:
  assumes "claim_milestone pg ck u mid cfg xp s = (Inr x, t)"
  shows "user_battlepass_claims t = user_battlepass_claims s @ [\<lparr> bc_user_id = u, bc_milestone_id = mid \<rparr>]"
    "user_battlepass_progress t = user_battlepass_progress s" "\<not> bp_claimed s u mid"
proof -
  from assms obtain m s1 ord s2 where new: "\<not> bp_claimed s u mid" and s1: "s1 = s\<lparr> next_uuid := Suc (next_uuid s),
        user_battlepass_claims := user_battlepass_claims s @ [\<lparr> bc_user_id = u, bc_milestone_id = mid \<rparr>] \<rparr>"
    and rew: "give_milestone_reward ck u mid m cfg s1 = (Inr ord, s2)"
    and xp: "xp \<le> 0 \<and> t = s2 \<or> 0 < xp \<and> (\<exists>l. award_xp pg ck u xp ''battlepass_milestone'' (Some mid)
        (Some ''battlepass_milestone'') 100 True None s2 = (Inr l, t))"
    by (rule claim_milestone_Inr)
  have "user_battlepass_claims t = user_battlepass_claims s2 \<and> user_battlepass_progress t = user_battlepass_progress s2"
    using xp by (auto dest: award_xp_leaves)
  with give_reward_leaves [OF rew] s1 new
  show "user_battlepass_claims t = user_battlepass_claims s @ [\<lparr> bc_user_id = u, bc_milestone_id = mid \<rparr>]"
    "user_battlepass_progress t = user_battlepass_progress s" "\<not> bp_claimed s u mid" by simp_all
qed

lemma keeps_claimed: "keeps (\<lambda>s. bp_claimed s u mid) (bp_step c)"
proof (rule keeps_bp_step)
  show "preserves (\<lambda>s. bp_claimed s u mid) (claim_milestone pg ck v i cfg xp)" for pg ck v i cfg xp
    by (rule preservesI) (auto dest!: claim_marks(1) simp: bp_claimed_def)
  show "preserves (\<lambda>s. bp_claimed s u mid) (admin_create_season name num a b)" for name num a b
    by (rule preservesI) (auto simp: admin_create_season_def bp_claimed_def split: if_splits)
  show "preserves (\<lambda>s. bp_claimed s u mid) (admin_activate_season sid)" for sid
    by (rule preservesI) (auto simp: admin_activate_season_def bp_claimed_def split: if_splits option.splits)
  show "preserves (\<lambda>s. bp_claimed s u mid) (admin_create_milestone sid num cab rt rv sub)" for sid num cab rt rv sub
    by (rule preservesI) (auto simp: admin_create_milestone_def bp_claimed_def split: if_splits)
  show "preserves (\<lambda>s. bp_claimed s u mid) (award_cab ck v n reason rid rt ap None bp None)" for ck v n reason rid rt ap bp
    by (rule preservesI) (auto simp: award_cab_Inr award_state_def bp_claimed_def)
qed

fun bp_claims_of :: "uuid \<Rightarrow> uuid \<Rightarrow> bp_cmd \<Rightarrow> bool" where
  "bp_claims_of u mid (BpClaim pg ck v i cfg xp) \<longleftrightarrow> v = u \<and> i = mid"
| "bp_claims_of u mid _ \<longleftrightarrow> False"

fun_cases bp_claims_ofE: "bp_claims_of u mid c"

interpretation bp_once: one_shot bp_step "bp_claims_of u mid" "\<lambda>s. bp_claimed s u mid" for u mid
proof
  fix s c assume "bp_claimed s u mid"
  then show "bp_claimed (snd (bp_step c s)) u mid" by (rule keeps_snd [OF keeps_claimed])
next
  fix c s x t assume "bp_claims_of u mid c" and "bp_step c s = (Inr x, t)"
  then show "\<not> bp_claimed s u mid \<and> bp_claimed t u mid"
    by (elim bp_claims_ofE)
      (auto simp: void_Inr claim_battlepass_milestone_def db_transaction_Inr_iff bp_claimed_def dest: claim_marks)
qed

text \<open>
  In every sequence of battle pass requests a user's claims of one milestone succeed at most
  once, so its reward is given at most once.
\<close>

theorem bp_claim_at_most_once:
  assumes "exec_all bp_step cmds s = (rs, t)"
  shows "successes (bp_claims_of u mid) cmds rs \<le> 1"
  using assms by (rule bp_once.at_most_once)

theorem bp_claim_at_most_once_witness:
  "successes (bp_claims_of 7 2) [BpClaim (\<lambda>_ _. Some 1) demo_clock 7 2 None 0, BpClaim (\<lambda>_ _. Some 1) demo_clock 7 2 None 0]
     (fst (exec_all bp_step [BpClaim (\<lambda>_ _. Some 1) demo_clock 7 2 None 0, BpClaim (\<lambda>_ _. Some 1) demo_clock 7 2 None 0] empty_db)) \<le> 1"
  by (rule bp_claim_at_most_once [OF prod.collapse [symmetric]])

text \<open>
  A claim that returns was for a milestone of an active season that the CAB earned in
  that season had reached, by a subscriber where the milestone asks for one. It pays a CAB milestone its value
  (with the streak and community bonus), and never feeds the season progress that unlocks milestones.
\<close>

theorem bp_claim_pays:
  assumes "claim_battlepass_milestone pg ck u mid cfg xp s = (Inr x, t)"
  shows "user_battlepass_progress t = user_battlepass_progress s \<and> \<not> bp_claimed s u mid \<and> bp_claimed t u mid
    \<and> (\<exists>m \<in> set (battlepass_milestones s). mi_id m = mid \<and> mi_cab_required m \<le> get_cab_earned_season s u (mi_season_id m)
         \<and> list_ex (\<lambda>y. se_id y = mi_season_id m \<and> se_is_active y) (battlepass_seasons s)
         \<and> (mi_subscriber_only m \<longrightarrow> active_subscription ck u s)
         \<and> (user_cab_balance t = (if mi_reward_type m = ''cab''
              then credited u (boosted_amount ck u ''cab'' (mi_reward_value m) True None s) (user_cab_balance s)
              else user_cab_balance s)))"
proof -
  from assms have run: "claim_milestone pg ck u mid cfg xp s = (Inr x, t)"
    by (simp add: claim_battlepass_milestone_def db_transaction_Inr_iff)
  from run obtain m s1 ord s2 where m: "get_milestone_for_claim u mid s = Some (m, ''unlocked'')"
    "mi_subscriber_only m \<longrightarrow> active_subscription ck u s"
    and s1: "s1 = s\<lparr> next_uuid := Suc (next_uuid s), user_battlepass_claims := user_battlepass_claims s @
          [\<lparr> bc_user_id = u, bc_milestone_id = mid \<rparr>] \<rparr>"
    and rew: "give_milestone_reward ck u mid m cfg s1 = (Inr ord, s2)"
    and xp: "xp \<le> 0 \<and> t = s2 \<or> 0 < xp \<and> (\<exists>l. award_xp pg ck u xp ''battlepass_milestone'' (Some mid)
        (Some ''battlepass_milestone'') 100 True None s2 = (Inr l, t))"
    by (rule claim_milestone_Inr)
  have boost: "boosted_amount ck u ''cab'' n True None s1 = boosted_amount ck u ''cab'' n True None s" for n
    by (simp add: s1 boosted_amount_def get_streak_multiplier_def get_active_community_multiplier_def)
  have "user_cab_balance s2 = (if mi_reward_type m = ''cab''
      then credited u (boosted_amount ck u ''cab'' (mi_reward_value m) True None s) (user_cab_balance s) else user_cab_balance s)"
    using rew unfolding boost [symmetric]
    by (auto simp: s1 give_milestone_reward_def seq_Inr_iff bnd_Inr_iff award_cab_Inr award_state_def
        dest!: insert_order_Inr split: if_splits option.splits ref_text.splits)
  moreover have "user_cab_balance t = user_cab_balance s2" using xp by (auto dest: award_xp_leaves)
  moreover have "m \<in> set (battlepass_milestones s)" "mi_id m = mid" "mi_cab_required m \<le> get_cab_earned_season s u (mi_season_id m)"
    "list_ex (\<lambda>y. se_id y = mi_season_id m \<and> se_is_active y) (battlepass_seasons s)"
    using m(1) by (auto simp: get_milestone_for_claim_def milestone_status_def dest!: find_Some_in split: if_splits)
  ultimately show ?thesis using claim_marks [OF run] m(2) by (auto simp: bp_claimed_def)
qed

definition bp_demo :: db where
  "bp_demo = (cab_demo 80)\<lparr> next_uuid := 10,
     battlepass_seasons := [\<lparr> se_id = 1, se_number = 1, se_name = ''one'', se_started_at = 0, se_ends_at = 10, se_is_active = True \<rparr>],
     battlepass_milestones :=
       [\<lparr> mi_id = 2, mi_season_id = 1, mi_number = 1, mi_cab_required = 50, mi_reward_type = ''cab'', mi_reward_value = 25,
          mi_subscriber_only = False \<rparr>,
        \<lparr> mi_id = 3, mi_season_id = 1, mi_number = 2, mi_cab_required = 60, mi_reward_type = ''gift_card'', mi_reward_value = 500,
          mi_subscriber_only = False \<rparr>],
     user_battlepass_progress := [(7, 1) \<mapsto> 60],
     gift_card_orders := [new_order demo_clock 4 9 5 500 ''battlepass_milestone'' (UuidText 3)] \<rparr>"

lemma bp_demo_boost: "boosted_amount demo_clock 7 ''cab'' 25 True None (bp_demo\<lparr> next_uuid := n, user_battlepass_claims := c \<rparr>) = 25"
  by (simp add: boosted_amount_def get_streak_multiplier_def get_active_community_multiplier_def
        bp_demo_def cab_demo_def empty_db_def bitlen.simps)

lemma claim_milestone_run:
  assumes "get_milestone_for_claim u mid s = Some (m, ''unlocked'')" and "mi_subscriber_only m \<longrightarrow> active_subscription ck u s"
    and "\<not> bp_claimed s u mid"
    and "give_milestone_reward ck u mid m cfg (s\<lparr> next_uuid := Suc (next_uuid s),
        user_battlepass_claims := user_battlepass_claims s @ [\<lparr> bc_user_id = u, bc_milestone_id = mid \<rparr>] \<rparr>) = (Inr ord, t)"
  shows "claim_battlepass_milestone pg ck u mid cfg 0 s = (Inr \<lparr> cr_reward_type = mi_reward_type m, cr_reward_value = mi_reward_value m,
     cr_new_cab_balance = get_balance t u, cr_gift_card_order_id = ord \<rparr>, t)"
proof -
  have "insert_milestone_claim u mid s = (Inr (), s\<lparr> next_uuid := Suc (next_uuid s),
        user_battlepass_claims := user_battlepass_claims s @ [\<lparr> bc_user_id = u, bc_milestone_id = mid \<rparr>] \<rparr>)"
    using assms(3) by (simp add: insert_milestone_claim_Inr)
  then have "catch (insert_milestone_claim u mid) h s = (Inr (), s\<lparr> next_uuid := Suc (next_uuid s),
        user_battlepass_claims := user_battlepass_claims s @ [\<lparr> bc_user_id = u, bc_milestone_id = mid \<rparr>] \<rparr>)" for h
    by (simp add: catch_def)
  with assms show ?thesis
    by (simp add: claim_battlepass_milestone_def db_transaction_Inr_iff claim_milestone_def bp_is_subscriber_def
        seq_def bnd_run_Inr)
qed

lemma bp_demo_cab: "\<exists>x t. claim_battlepass_milestone (\<lambda>_ _. Some 1) demo_clock 7 2 None 0 bp_demo = (Inr x, t)"
proof -
  let ?s1 = "bp_demo\<lparr> next_uuid := Suc (next_uuid bp_demo),
        user_battlepass_claims := user_battlepass_claims bp_demo @ [\<lparr> bc_user_id = 7, bc_milestone_id = 2 \<rparr>] \<rparr>"
  have "awardable demo_clock 7 ''battlepass_milestone'' (Some 2) (Some ''battlepass_milestone'') False None 25 ?s1"
    by (auto simp: awardable_def cab_insertable_def cab_row_ok_def award_row_def fits_int4_def CAB_REASONS_def
        cab_reference_types_def bp_demo_def cab_demo_def)
  moreover have "mi_reward_type (hd (battlepass_milestones bp_demo)) = ''cab''" "mi_reward_value (hd (battlepass_milestones bp_demo)) = 25"
    by (simp_all add: bp_demo_def)
  ultimately have "\<exists>t. give_milestone_reward demo_clock 7 2 (hd (battlepass_milestones bp_demo)) None ?s1 = (Inr None, t)"
    by (simp add: give_milestone_reward_def seq_Inr_iff award_cab_Inr bp_demo_boost)
  moreover have "get_milestone_for_claim 7 2 bp_demo = Some (hd (battlepass_milestones bp_demo), ''unlocked'')"
    "\<not> bp_claimed bp_demo 7 2" "\<not> mi_subscriber_only (hd (battlepass_milestones bp_demo))"
    by (simp_all add: get_milestone_for_claim_def milestone_status_def bp_claimed_def get_cab_earned_season_def bp_demo_def cab_demo_def)
  ultimately show ?thesis using claim_milestone_run by blast
qed

theorem bp_claim_pays_witness:
  "\<exists>x t. claim_battlepass_milestone (\<lambda>_ _. Some 1) demo_clock 7 2 None 0 bp_demo = (Inr x, t)
     \<and> user_battlepass_progress t (7, 1) = Some 60 \<and> user_cab_balance t 7 = Some 105"
proof -
  obtain x t where run: "claim_battlepass_milestone (\<lambda>_ _. Some 1) demo_clock 7 2 None 0 bp_demo = (Inr x, t)"
    using bp_demo_cab by blast
  have "boosted_amount demo_clock 7 ''cab'' 25 True None bp_demo = 25" 
    using bp_demo_boost [where n = "next_uuid bp_demo" and c = "user_battlepass_claims bp_demo"] by simp
  with bp_claim_pays [OF run] run show ?thesis by (auto simp: bp_demo_def credited_def cab_demo_def)
qed

text \<open>
  Orders are unique by source, and the source of a milestone card is the milestone, not the
  claim: when another user already claimed the same gift card milestone, a claim succeeds and is recorded, but it
  returns the other user's order and creates none.
\<close>

theorem milestone_card_shared:
  assumes "find_by_source ''battlepass_milestone'' (UuidText mid) s = Some r" and "go_user_id r \<noteq> u"
    and "claim_battlepass_milestone pg ck u mid (Some (UuidText brand)) xp s = (Inr x, t)"
    and "cr_reward_type x = ''gift_card''"
  shows "cr_gift_card_order_id x = Some (go_id r) \<and> gift_card_orders t = gift_card_orders s \<and> bp_claimed t u mid"
proof -
  from assms(3) have run: "claim_milestone pg ck u mid (Some (UuidText brand)) xp s = (Inr x, t)"
    by (simp add: claim_battlepass_milestone_def db_transaction_Inr_iff)
  from run obtain m s1 ord s2 where
    s1: "s1 = s\<lparr> next_uuid := Suc (next_uuid s), user_battlepass_claims := user_battlepass_claims s @
          [\<lparr> bc_user_id = u, bc_milestone_id = mid \<rparr>] \<rparr>"
    and rew: "give_milestone_reward ck u mid m (Some (UuidText brand)) s1 = (Inr ord, s2)"
    and xp: "xp \<le> 0 \<and> t = s2 \<or> 0 < xp \<and> (\<exists>l. award_xp pg ck u xp ''battlepass_milestone'' (Some mid)
        (Some ''battlepass_milestone'') 100 True None s2 = (Inr l, t))"
    and x: "x = \<lparr> cr_reward_type = mi_reward_type m, cr_reward_value = mi_reward_value m,
           cr_new_cab_balance = get_balance t u, cr_gift_card_order_id = ord \<rparr>"
    by (rule claim_milestone_Inr)
  have "find_by_source ''battlepass_milestone'' (UuidText mid) s1 = Some r"
    using assms(1) by (simp add: s1 find_by_source_def)
  with rew x assms(4) have "ord = Some (go_id r)" "gift_card_orders s2 = gift_card_orders s"
    by (auto simp: give_milestone_reward_def bnd_Inr_iff s1 dest!: insert_order_Inr)
  moreover have "gift_card_orders t = gift_card_orders s2" using xp by (auto dest: award_xp_leaves)
  ultimately show ?thesis using x claim_marks [OF run] by (auto simp: bp_claimed_def)
qed


theorem milestone_card_shared_witness:
  "\<exists>x t. claim_battlepass_milestone (\<lambda>_ _. Some 1) demo_clock 7 3 (Some (UuidText 5)) 0 bp_demo = (Inr x, t)
     \<and> cr_gift_card_order_id x = Some 4 \<and> gift_card_orders t = gift_card_orders bp_demo"
proof -
  let ?m = "battlepass_milestones bp_demo ! 1" and ?r = "hd (gift_card_orders bp_demo)"
  have src: "find_by_source ''battlepass_milestone'' (UuidText 3) bp_demo = Some ?r" "go_user_id ?r = 9" "go_id ?r = 4"
    by (simp_all add: find_by_source_def bp_demo_def new_order_def)
  have "\<exists>ord t. give_milestone_reward demo_clock 7 3 ?m (Some (UuidText 5)) (bp_demo\<lparr> next_uuid := Suc (next_uuid bp_demo),
        user_battlepass_claims := user_battlepass_claims bp_demo @ [\<lparr> bc_user_id = 7, bc_milestone_id = 3 \<rparr>] \<rparr>) = (Inr ord, t)"
    by (simp add: give_milestone_reward_def insert_gift_card_order_def bp_demo_def find_by_source_def new_order_def
        fits_int4_def gift_source_types_def)
  moreover have "get_milestone_for_claim 7 3 bp_demo = Some (?m, ''unlocked'')" "\<not> bp_claimed bp_demo 7 3"
    "\<not> mi_subscriber_only ?m" "mi_reward_type ?m = ''gift_card''"
    by (simp_all add: get_milestone_for_claim_def milestone_status_def bp_claimed_def get_cab_earned_season_def bp_demo_def cab_demo_def)
  ultimately obtain x t where run: "claim_battlepass_milestone (\<lambda>_ _. Some 1) demo_clock 7 3 (Some (UuidText 5)) 0 bp_demo = (Inr x, t)"
    and "cr_reward_type x = ''gift_card''"
    using claim_milestone_run [of 7 3 bp_demo ?m demo_clock "Some (UuidText 5)" _ _ "\<lambda>_ _. Some 1"] by fastforce
  with milestone_card_shared [OF src(1) _ run] src show ?thesis by auto
qed

end
