(* ===== verification/Ratis_Boutique.thy ===== *)
theory Ratis_Boutique
  imports Ratis_GiftCards
begin

text \<open>
  The boutique, where CAB buys gift cards: \<open>boutique_repository.py\<close>, \<open>boutique_service.py\<close>, and its
  routes in \<open>rewards/gift_cards.py\<close> and \<open>rewards/shop.py\<close>. The theory ends with the life of the order
  table as a step relation (orders of every source, issuance, the admin and batch entry points) and
  what holds in every reachable state.
\<close>

section \<open>Settings and queries\<close>

text \<open>The section \<open>boutique\<close> of the settings; a deployment without it cannot serve a request.\<close>

record boutique_cfg =
  allowed_denominations_cents :: "int list"
  cap_per_card_cents :: int
  cap_daily_cents :: int
  cap_weekly_cents :: int
  cap_annual_cents :: int
  ratio_cab_per_eur :: int
  duplicate_order_window_seconds :: int

definition get_active_brands :: "(brand_row \<Rightarrow> 'k :: linorder) \<Rightarrow> db \<Rightarrow> brand_row list" where
  "get_active_brands collate s = sort_key collate (filter br_is_active (gift_card_brands s))"

definition get_brand_if_active :: "uuid \<Rightarrow> db \<Rightarrow> brand_row option" where
  "get_brand_if_active b s = (case find_brand b s of
       None \<Rightarrow> None
     | Some r \<Rightarrow> if br_is_active r then Some r else None)"

definition count_redeemed_today_cents :: "clock \<Rightarrow> uuid \<Rightarrow> int db_op" where
  "count_redeemed_today_cents ck u = sum_redeemed_window ck u ''shop_purchase'' ''day'' True"

definition count_redeemed_this_week_cents :: "clock \<Rightarrow> uuid \<Rightarrow> int db_op" where
  "count_redeemed_this_week_cents ck u = sum_redeemed_window ck u ''shop_purchase'' ''week'' True"

definition find_recent_duplicate_order :: "clock \<Rightarrow> uuid \<Rightarrow> uuid \<Rightarrow> int \<Rightarrow> int \<Rightarrow> db \<Rightarrow> uuid option" where
  "find_recent_duplicate_order ck u b denom window s =
     map_option go_id (List.find (\<lambda>_. True) (sort_key (\<lambda>r. - go_created_at r)
       (filter (\<lambda>r. go_user_id r = u \<and> go_brand_id r = b \<and> go_denomination r = denom
           \<and> go_source_type r = ''shop_purchase'' \<and> now ck - window * second_us \<le> go_created_at r)
         (gift_card_orders s))))"

definition insert_order :: "clock \<Rightarrow> uuid \<Rightarrow> uuid \<Rightarrow> int \<Rightarrow> ref_text \<Rightarrow> uuid db_op" where
  "insert_order ck u b denom ref = insert_gift_card_order ck u b denom ''shop_purchase'' ref"

definition get_user_ytd_cents :: "uuid \<Rightarrow> db \<Rightarrow> int" where
  "get_user_ytd_cents u s = (case users s u of None \<Rightarrow> 0 | Some r \<Rightarrow> gift_card_redeemed_ytd_cents r)"


section \<open>Catalogue and orders\<close>

record catalog =
  cg_brands :: "brand_row list"
  cg_allowed_denominations_cents :: "int list"
  cg_ratio_cab_per_eur :: int
  cg_cap_per_card_cents :: int
  cg_cap_daily_cents :: int
  cg_cap_weekly_cents :: int

definition get_catalog :: "boutique_cfg \<Rightarrow> (brand_row \<Rightarrow> 'k :: linorder) \<Rightarrow> catalog db_op" where
  "get_catalog cfg collate = reads (\<lambda>s.
     \<lparr> cg_brands = get_active_brands collate s,
       cg_allowed_denominations_cents = allowed_denominations_cents cfg,
       cg_ratio_cab_per_eur = ratio_cab_per_eur cfg, cg_cap_per_card_cents = cap_per_card_cents cfg,
       cg_cap_daily_cents = cap_daily_cents cfg, cg_cap_weekly_cents = cap_weekly_cents cfg \<rparr>)"

record order_receipt =
  or_order_id :: uuid
  or_brand :: string
  or_denomination_cents :: int
  or_cab_cost :: int
  or_new_cab_balance :: int
  or_status :: string

definition cab_cost :: "boutique_cfg \<Rightarrow> int \<Rightarrow> int" where
  "cab_cost cfg denom = denom div 100 * ratio_cab_per_eur cfg"

text \<open>Step 9 of \<open>create_order\<close>: the debit under a pre-allocated identifier, and the order that refers to it.\<close>

definition debit_and_order :: "clock \<Rightarrow> uuid \<Rightarrow> uuid \<Rightarrow> int \<Rightarrow> int \<Rightarrow> uuid db_op" where
  "debit_and_order ck u b denom cost = bnd fresh_uuid (\<lambda>cab_tx_id.
     seq (debit_cab ck u cost ''gift_card_purchase'' None None (Some cab_tx_id))
       (insert_order ck u b denom (UuidText cab_tx_id)))"

definition create_order :: "boutique_cfg \<Rightarrow> clock \<Rightarrow> uuid \<Rightarrow> uuid \<Rightarrow> int \<Rightarrow> order_receipt db_op" where
  "create_order cfg ck u b denom =
     (if denom \<notin> set (allowed_denominations_cents cfg) then throw (UnprocessableEntity ''invalid_denomination'')
      else if cap_per_card_cents cfg < denom then throw (UnprocessableEntity ''invalid_denomination'')
      else bnd (reads (get_brand_if_active b)) (\<lambda>brand. case brand of
        None \<Rightarrow> throw (NotFound ''brand_not_available'')
      | Some br \<Rightarrow>
          bnd (reads (find_recent_duplicate_order ck u b denom (duplicate_order_window_seconds cfg))) (\<lambda>dup.
          seq (guard (dup = None) (Conflict ''duplicate_order_recent''))
         (bnd (reads (\<lambda>s. get_balance s u)) (\<lambda>balance.
          seq (guard (cab_cost cfg denom \<le> balance) InsufficientBalance)
         (bnd (count_redeemed_today_cents ck u) (\<lambda>today.
          seq (guard (today + denom \<le> cap_daily_cents cfg) (Conflict ''daily_redeem_cap_reached''))
         (bnd (count_redeemed_this_week_cents ck u) (\<lambda>week.
          seq (guard (week + denom \<le> cap_weekly_cents cfg) (Conflict ''weekly_redeem_cap_reached''))
         (bnd (reads (get_user_ytd_cents u)) (\<lambda>ytd.
          seq (guard (ytd + denom \<le> cap_annual_cents cfg) (Conflict ''annual_gift_card_cap_reached''))
         (bnd (debit_and_order ck u b denom (cab_cost cfg denom)) (\<lambda>i.
          ret \<lparr> or_order_id = i, or_brand = br_name br, or_denomination_cents = denom,
                or_cab_cost = cab_cost cfg denom, or_new_cab_balance = balance - cab_cost cfg denom,
                or_status = ''pending'' \<rparr>)))))))))))))"

text \<open>The route; the order it returns is then handed to \<open>issue_gift_card_bg\<close>.\<close>

definition create_boutique_order :: "boutique_cfg \<Rightarrow> clock \<Rightarrow> uuid \<Rightarrow> uuid \<Rightarrow> int \<Rightarrow> order_receipt db_op" where
  "create_boutique_order cfg ck u b denom =
     (if denom \<notin> {500, 1000, 2000, 5000} then throw (HTTPException 422 ''validation_error'')
      else catch (db_transaction (create_order cfg ck u b denom)) (\<lambda>e. case e of
          InsufficientBalance \<Rightarrow> throw (HTTPException 402 ''insufficient_cab_balance'')
        | UnprocessableEntity d \<Rightarrow> throw (HTTPException 400 d)
        | NotFound d \<Rightarrow> throw (HTTPException 404 d)
        | Conflict d \<Rightarrow> throw (HTTPException 409 d)
        | _ \<Rightarrow> throw e))"

definition read_cap_usage :: "cap_settings \<Rightarrow> clock \<Rightarrow> uuid \<Rightarrow> cap_usage db_op" where
  "read_cap_usage caps ck u = get_cap_usage caps ck u"

definition get_boutique_catalog :: "boutique_cfg \<Rightarrow> (brand_row \<Rightarrow> 'k :: linorder) \<Rightarrow> catalog db_op" where
  "get_boutique_catalog cfg collate = get_catalog cfg collate"

definition read_shop_usage_stats :: "uuid \<Rightarrow> uuid \<Rightarrow> brand_usage db_op" where
  "read_shop_usage_stats u b = reads (get_brand_usage_stats u b)"


section \<open>What an order does\<close>

text \<open>Identifiers of orders, and the debits that boutique orders refer to, have been drawn already.\<close>

definition gift_ids_ok :: "db \<Rightarrow> bool" where
  "gift_ids_ok s \<longleftrightarrow> (\<forall>r \<in> set (gift_card_orders s). go_id r < next_uuid s
     \<and> (\<forall>j. go_source_type r = ''shop_purchase'' \<longrightarrow> go_source_ref_id r = UuidText j \<longrightarrow> j < next_uuid s))"

definition purchase_row :: "clock \<Rightarrow> uuid \<Rightarrow> uuid \<Rightarrow> int \<Rightarrow> cab_tx" where
  "purchase_row ck i u cost = (award_row ck i u cost ''gift_card_purchase'' None None)\<lparr> ct_direction := ''debit'' \<rparr>"

definition ordered_state :: "clock \<Rightarrow> uuid \<Rightarrow> uuid \<Rightarrow> int \<Rightarrow> int \<Rightarrow> int \<Rightarrow> db \<Rightarrow> db" where
  "ordered_state ck u b denom cost bal s =
     s\<lparr> next_uuid := Suc (Suc (next_uuid s)), user_cab_balance := (user_cab_balance s)(u \<mapsto> bal - cost),
        cabecoin_transactions := cabecoin_transactions s @ [purchase_row ck (next_uuid s) u cost],
        gift_card_orders := gift_card_orders s
          @ [new_order ck (Suc (next_uuid s)) u b denom ''shop_purchase'' (UuidText (next_uuid s))] \<rparr>"

lemma debit_and_order_Inr:
  assumes ids: "gift_ids_ok s" and run: "debit_and_order ck u b denom cost s = (Inr i, t)"
  shows "\<exists>bal. user_cab_balance s u = Some bal \<and> 0 < cost \<and> cost \<le> bal \<and> i = Suc (next_uuid s)
    \<and> cab_insertable (purchase_row ck (next_uuid s) u cost) s \<and> t = ordered_state ck u b denom cost bal s"
proof -
  let ?s0 = "s\<lparr> next_uuid := Suc (next_uuid s) \<rparr>"
  from run obtain j s1 where debit: "debit_cab ck u cost ''gift_card_purchase'' None None (Some (next_uuid s)) ?s0 = (Inr j, s1)"
    and ins: "insert_gift_card_order ck u b denom ''shop_purchase'' (UuidText (next_uuid s)) s1 = (Inr i, t)"
    by (auto simp: debit_and_order_def insert_order_def seq_Inr_iff)
  from debit obtain bal where bal: "user_cab_balance s u = Some bal" "0 < cost" "cost \<le> bal"
    and ok: "cab_insertable (purchase_row ck (next_uuid s) u cost) s"
    and s1: "s1 = ?s0\<lparr> user_cab_balance := (user_cab_balance s)(u \<mapsto> bal - cost),
             cabecoin_transactions := cabecoin_transactions s @ [purchase_row ck (next_uuid s) u cost] \<rparr>"
    by (auto simp: debit_cab_Inr purchase_row_def cab_insertable_def)
  have "find_by_source ''shop_purchase'' (UuidText (next_uuid s)) s1 = None"
    using ids by (auto simp: s1 find_by_source_def gift_ids_ok_def find_None_iff)
  with insert_order_Inr [OF ins] bal ok show ?thesis by (simp add: s1 ordered_state_def)
qed

text \<open>What a user ordered in the current Paris day or week and did not get back.\<close>

definition shop_spent :: "(stamp \<Rightarrow> stamp) \<Rightarrow> clock \<Rightarrow> uuid \<Rightarrow> db \<Rightarrow> int" where
  "shop_spent trunc ck u s = sum_where (\<lambda>r. go_user_id r = u \<and> go_source_type r = ''shop_purchase''
     \<and> go_status r \<noteq> ''failed'' \<and> trunc (paris ck (now ck)) \<le> paris ck (go_created_at r)) go_denomination (gift_card_orders s)"

text \<open>The conditions \<open>create_order\<close> checks, in its order.\<close>

definition order_allowed :: "boutique_cfg \<Rightarrow> clock \<Rightarrow> uuid \<Rightarrow> uuid \<Rightarrow> int \<Rightarrow> db \<Rightarrow> bool" where
  "order_allowed cfg ck u b denom s \<longleftrightarrow>
     denom \<in> set (allowed_denominations_cents cfg) \<and> denom \<le> cap_per_card_cents cfg
     \<and> get_brand_if_active b s \<noteq> None
     \<and> find_recent_duplicate_order ck u b denom (duplicate_order_window_seconds cfg) s = None
     \<and> cab_cost cfg denom \<le> get_balance s u
     \<and> shop_spent trunc_day ck u s + denom \<le> cap_daily_cents cfg
     \<and> shop_spent trunc_week ck u s + denom \<le> cap_weekly_cents cfg
     \<and> get_user_ytd_cents u s + denom \<le> cap_annual_cents cfg"

lemma redeemed_run:
  "count_redeemed_today_cents ck u s = (Inr (shop_spent trunc_day ck u s), s)"
  "count_redeemed_this_week_cents ck u s = (Inr (shop_spent trunc_week ck u s), s)"
  by (simp_all add: count_redeemed_today_cents_def count_redeemed_this_week_cents_def sum_redeemed_window_def
      shop_spent_def conj_assoc)

lemma create_order_Inr:
  assumes "create_order cfg ck u b denom s = (Inr x, t)"
  shows "order_allowed cfg ck u b denom s
    \<and> debit_and_order ck u b denom (cab_cost cfg denom) s = (Inr (or_order_id x), t)
    \<and> or_cab_cost x = cab_cost cfg denom \<and> or_new_cab_balance x = get_balance s u - cab_cost cfg denom
    \<and> or_denomination_cents x = denom"
  using assms
  by (auto simp: create_order_def order_allowed_def bnd_run_Inr [OF redeemed_run(1)] bnd_run_Inr [OF redeemed_run(2)] bnd_Inr_iff
      split: if_splits option.splits)

lemma create_order_run:
  assumes "order_allowed cfg ck u b denom s" and "debit_and_order ck u b denom (cab_cost cfg denom) s = (Inr i, t)"
  shows "\<exists>x. create_order cfg ck u b denom s = (Inr x, t)"
proof -
  obtain br where "get_brand_if_active b s = Some br" using assms(1) by (auto simp: order_allowed_def)
  with assms show ?thesis
    by (simp add: create_order_def order_allowed_def bnd_run_Inr [OF redeemed_run(1)] bnd_run_Inr [OF redeemed_run(2)]
        bnd_run_Inr [of "debit_and_order ck u b denom (cab_cost cfg denom)" s, OF assms(2)])
qed

lemma create_boutique_order_Inr:
  "create_boutique_order cfg ck u b denom s = (Inr x, t) \<longleftrightarrow>
     denom \<in> {500, 1000, 2000, 5000} \<and> create_order cfg ck u b denom s = (Inr x, t)"
proof -
  have "(case e of
          InsufficientBalance \<Rightarrow> throw (HTTPException 402 ''insufficient_cab_balance'')
        | UnprocessableEntity d \<Rightarrow> throw (HTTPException 400 d)
        | NotFound d \<Rightarrow> throw (HTTPException 404 d)
        | Conflict d \<Rightarrow> throw (HTTPException 409 d)
        | _ \<Rightarrow> throw e) s' \<noteq> (Inr x, t)" for e :: error and s' :: db
    by (cases e) simp_all
  then show ?thesis
    by (auto simp: create_boutique_order_def catch_Inr_iff db_transaction_Inr_iff)
qed


lemma trunc_le: "trunc_day t \<le> t" "trunc_week t \<le> t"
proof -
  have "t div day_us * day_us \<le> t" by presburger
  moreover have "(t div day_us - (t div day_us + 3) mod 7) * day_us \<le> t div day_us * day_us" by simp
  ultimately show "trunc_day t \<le> t" "trunc_week t \<le> t" unfolding trunc_day_def trunc_week_def Let_def by linarith+
qed

lemma shop_spent_ordered:
  assumes "trunc (paris ck (now ck)) \<le> paris ck (now ck)"
  shows "shop_spent trunc ck u (ordered_state ck u b denom cost bal s) = shop_spent trunc ck u s + denom"
  using assms by (simp add: shop_spent_def ordered_state_def new_order_def)

lemma order_created:
  assumes "gift_ids_ok s" and "create_boutique_order cfg ck u b denom s = (Inr x, t)"
  obtains bal where "user_cab_balance s u = Some bal" "0 < cab_cost cfg denom" "cab_cost cfg denom \<le> bal"
    "or_order_id x = Suc (next_uuid s)" "t = ordered_state ck u b denom (cab_cost cfg denom) bal s"
    "order_allowed cfg ck u b denom s" "or_new_cab_balance x = bal - cab_cost cfg denom"
    "cab_insertable (purchase_row ck (next_uuid s) u (cab_cost cfg denom)) s"
    "find_order (Suc (next_uuid s)) t
        = Some (new_order ck (Suc (next_uuid s)) u b denom ''shop_purchase'' (UuidText (next_uuid s)))"
proof -
  from assms(2) have run: "create_order cfg ck u b denom s = (Inr x, t)" by (simp add: create_boutique_order_Inr)
  note created = create_order_Inr [OF run]
  from debit_and_order_Inr [OF assms(1), of ck u b denom "cab_cost cfg denom" "or_order_id x" t] created
  obtain bal where bal: "user_cab_balance s u = Some bal" "0 < cab_cost cfg denom" "cab_cost cfg denom \<le> bal"
      "or_order_id x = Suc (next_uuid s)" "cab_insertable (purchase_row ck (next_uuid s) u (cab_cost cfg denom)) s"
    and t: "t = ordered_state ck u b denom (cab_cost cfg denom) bal s" by blast
  have "find_order (Suc (next_uuid s)) t
        = Some (new_order ck (Suc (next_uuid s)) u b denom ''shop_purchase'' (UuidText (next_uuid s)))"
    using assms(1)
    by (force simp: t find_order_def ordered_state_def find_append new_order_def gift_ids_ok_def find_None_iff
        split: option.split dest: find_Some_in)
  with that [OF bal(1-4) t] created bal show ?thesis by (auto simp: get_balance_def)
qed

text \<open>
  C14 (functional). An order the boutique route accepts passes every check of the service, is charged
  \<open>denomination // 100 * ratio\<close> CAB through one debit row, and is stored pending with that row as its
  source; afterwards what the user spent today and this week is still within the caps.
\<close>

theorem boutique_order_charged:
  assumes "gift_ids_ok s" and "create_boutique_order cfg ck u b denom s = (Inr x, t)"
  shows "order_allowed cfg ck u b denom s
    \<and> (\<exists>bal. user_cab_balance s u = Some bal \<and> denom div 100 * ratio_cab_per_eur cfg \<le> bal
         \<and> or_new_cab_balance x = bal - denom div 100 * ratio_cab_per_eur cfg
         \<and> t = ordered_state ck u b denom (denom div 100 * ratio_cab_per_eur cfg) bal s)
    \<and> find_order (or_order_id x) t
        = Some (new_order ck (or_order_id x) u b denom ''shop_purchase'' (UuidText (next_uuid s)))
    \<and> shop_spent trunc_day ck u t \<le> cap_daily_cents cfg \<and> shop_spent trunc_week ck u t \<le> cap_weekly_cents cfg"
proof -
  from assms obtain bal where "user_cab_balance s u = Some bal" "cab_cost cfg denom \<le> bal"
      "or_order_id x = Suc (next_uuid s)" "or_new_cab_balance x = bal - cab_cost cfg denom"
    and t: "t = ordered_state ck u b denom (cab_cost cfg denom) bal s" and ok: "order_allowed cfg ck u b denom s"
    and "find_order (Suc (next_uuid s)) t
        = Some (new_order ck (Suc (next_uuid s)) u b denom ''shop_purchase'' (UuidText (next_uuid s)))"
    by (rule order_created)
  moreover have "shop_spent trunc_day ck u t \<le> cap_daily_cents cfg \<and> shop_spent trunc_week ck u t \<le> cap_weekly_cents cfg"
    using ok by (simp add: t shop_spent_ordered trunc_le order_allowed_def)
  ultimately show ?thesis by (auto simp: cab_cost_def)
qed


definition boutique_demo :: db where
  "boutique_demo = (cab_demo 80)\<lparr> users := [7 \<mapsto> \<lparr> is_deleted = False, is_shadow_banned = False, gift_card_redeemed_ytd_cents = 0, display_name = None, email = ''jack@ratis.app'' \<rparr>],
     gift_card_brands := [\<lparr> br_id = 3, br_name = ''brand'', br_provider_brand_id = ''B'', br_logo_url = None, br_is_active = True \<rparr>] \<rparr>"

definition boutique_demo_cfg :: boutique_cfg where
  "boutique_demo_cfg = \<lparr> allowed_denominations_cents = [500, 1000], cap_per_card_cents = 5000, cap_daily_cents = 5000,
     cap_weekly_cents = 10000, cap_annual_cents = 120000, ratio_cab_per_eur = 10, duplicate_order_window_seconds = 60 \<rparr>"

lemma boutique_demo_ok:
  "gift_ok 120000 boutique_demo" "gift_ids_ok boutique_demo" "cab_ok boutique_demo" "cab_ids_ok boutique_demo"
  using cab_demo_ok [of 80]
  by (auto simp: boutique_demo_def gift_ok_def gift_ids_ok_def reserved_total_def ytd_cents_def cab_demo_def)

lemma boutique_demo_debit:
  "\<exists>i t. debit_and_order demo_clock 7 3 500 50 boutique_demo = (Inr i, t)"
proof -
  let ?s = "boutique_demo\<lparr> next_uuid := 2 \<rparr>"
  have "\<exists>t. debit_cab demo_clock 7 50 ''gift_card_purchase'' None None (Some 1) ?s = (Inr 1, t)
      \<and> next_uuid t = 2 \<and> gift_card_orders t = []"
    by (auto simp: debit_cab_Inr boutique_demo_def cab_demo_def cab_insertable_def cab_row_ok_def award_row_def
        CAB_REASONS_def fits_int4_def)
  then obtain t where t: "debit_cab demo_clock 7 50 ''gift_card_purchase'' None None (Some 1) ?s = (Inr 1, t)"
    and "gift_card_orders t = []" by blast
  then have "\<exists>i w. insert_order demo_clock 7 3 500 (UuidText 1) t = (Inr i, w)"
    by (simp add: insert_order_def insert_order_run fits_int4_def gift_source_types_def find_by_source_def)
  moreover have "next_uuid boutique_demo = 1" by (simp add: boutique_demo_def cab_demo_def)
  ultimately show ?thesis using t by (simp add: debit_and_order_def numeral_2_eq_2 seq_Inr_iff)
qed

lemma boutique_demo_run:
  "\<exists>x t. create_boutique_order boutique_demo_cfg demo_clock 7 3 500 boutique_demo = (Inr x, t)"
proof -
  obtain i t where run: "debit_and_order demo_clock 7 3 500 50 boutique_demo = (Inr i, t)"
    using boutique_demo_debit by blast
  have "order_allowed boutique_demo_cfg demo_clock 7 3 500 boutique_demo"
    by (simp add: order_allowed_def boutique_demo_cfg_def get_brand_if_active_def find_brand_def find_recent_duplicate_order_def
        cab_cost_def get_balance_def shop_spent_def get_user_ytd_cents_def boutique_demo_def cab_demo_def)
  moreover have "cab_cost boutique_demo_cfg 500 = 50" by (simp add: cab_cost_def boutique_demo_cfg_def)
  ultimately have "\<exists>x. create_order boutique_demo_cfg demo_clock 7 3 500 boutique_demo = (Inr x, t)"
    using create_order_run [of boutique_demo_cfg demo_clock 7 3 500 boutique_demo i t] run by simp
  then show ?thesis by (auto simp: create_boutique_order_Inr)
qed

theorem boutique_order_charged_witness:
  "\<exists>x t. create_boutique_order boutique_demo_cfg demo_clock 7 3 500 boutique_demo = (Inr x, t)
     \<and> or_new_cab_balance x = 30 \<and> user_cab_balance t 7 = Some 30"
proof -
  obtain x t where run: "create_boutique_order boutique_demo_cfg demo_clock 7 3 500 boutique_demo = (Inr x, t)"
    using boutique_demo_run by blast
  have "user_cab_balance boutique_demo 7 = Some 80" by (simp add: boutique_demo_def cab_demo_def)
  with boutique_order_charged [OF boutique_demo_ok(2) run] run show ?thesis
    by (auto simp: boutique_demo_cfg_def ordered_state_def)
qed


section \<open>A failed order is refunded\<close>

lemma update_order_failed_run:
  assumes "distinct (map go_id (gift_card_orders s))" and "find_order i s = Some r" and "go_status r = ''pending''"
  shows "update_order_failed ck i s = (Inr True, update_order i (failed_order ck) s)"
proof -
  have r: "r \<in> set (gift_card_orders s)" "go_id r = i" using assms(2) by (auto simp: find_order_def dest: find_Some_in)
  have only: "go_id x = i \<longleftrightarrow> x = r" if "x \<in> set (gift_card_orders s)" for x
    using assms(1) r that by (metis distinct_map inj_onD)
  have "distinct (gift_card_orders s)" using assms(1) by (simp add: distinct_map)
  moreover have "filter (\<lambda>x. go_id x = i \<and> go_status x = ''pending'') (gift_card_orders s) = filter (\<lambda>x. x = r) (gift_card_orders s)"
    using only assms(3) r by (intro filter_cong) auto
  ultimately have "count_where (\<lambda>x. go_id x = i \<and> go_status x = ''pending'') (gift_card_orders s) = 1"
  proof -
    have "length (filter (\<lambda>x. x = r) xs) = 1" if "distinct xs" "r \<in> set xs" for xs
      using that by (induction xs) (auto simp: filter_empty_conv)
    with \<open>distinct (gift_card_orders s)\<close> r(1) have "length (filter (\<lambda>x. x = r) (gift_card_orders s)) = 1" by blast
    with \<open>filter _ _ = filter _ _\<close> show ?thesis by (simp only: count_where_def)
  qed
  moreover have "update_where (\<lambda>x. go_id x = i \<and> go_status x = ''pending'') f (gift_card_orders s)
      = update_where (\<lambda>x. go_id x = i) f (gift_card_orders s)" for f
    unfolding update_where_def using only assms(3) by (intro map_cong) auto
  ultimately show ?thesis by (simp add: update_order_failed_def update_pending_run update_order_def)
qed

lemma refund_run:
  assumes "cab_ids_ok s" and "find_order i s = Some r" and "find_brand (go_brand_id r) s \<noteq> None"
    and "go_source_type r = ''shop_purchase''" and "go_source_ref_id r = UuidText tid"
    and "List.find (\<lambda>x. ct_id x = tid \<and> ct_direction x = ''debit'') (cabecoin_transactions s) = Some x"
    and "0 < ct_amount x" and "user_cab_balance s (ct_user_id x) = Some c" and "0 \<le> c" and "c + ct_amount x \<le> int4_max"
  shows "refund_order_cab ck i s = (Inr (), award_state ck (ct_user_id x) ''gift_card_refund'' None None False None (ct_amount x) s)"
proof -
  have "get_order i s = Some (row_to_dict r, the (find_brand (go_brand_id r) s))"
    using assms(2,3) by (auto simp: get_order_def order_with_brand_def)
  moreover have "awardable ck (ct_user_id x) ''gift_card_refund'' None None False None (ct_amount x) s"
    by (rule awardable_plain [OF assms(1,8,7,9,10)]) (simp_all add: CAB_REASONS_def)
  ultimately show ?thesis using assms(4-7) by (simp add: refund_order_cab_def row_to_dict_def award_cab_Inr)
qed

lemma release_run:
  assumes "find_order i s = Some r" and "\<And>w. users s (go_user_id r) = Some w \<Longrightarrow>
      go_cap_reserved_cents r \<noteq> 0 \<Longrightarrow> fits_int4 (max 0 (gift_card_redeemed_ytd_cents w - go_cap_reserved_cents r))"
  obtains t where "release_gift_card_cap i s = (Inr (), t)" "user_cab_balance t = user_cab_balance s"
    "find_order i t = Some (r\<lparr> go_cap_reserved_cents := 0 \<rparr>)"
    "\<And>u. ytd_cents u t = (if u = go_user_id r \<and> go_cap_reserved_cents r \<noteq> 0 \<and> users s u \<noteq> None
       then max 0 (ytd_cents u s - go_cap_reserved_cents r) else ytd_cents u s)"
proof (cases "go_cap_reserved_cents r = 0")
  case True
  then have "r\<lparr> go_cap_reserved_cents := 0 \<rparr> = r" by simp
  with True assms that [of s] show ?thesis by (simp add: release_gift_card_cap_def)
next
  case False
  let ?f = "\<lambda>v. max 0 (v - go_cap_reserved_cents r)"
  let ?t = "update_order i (\<lambda>r. r\<lparr> go_cap_reserved_cents := 0 \<rparr>) (snd (update_ytd (go_user_id r) ?f s))"
  have run: "update_ytd (go_user_id r) ?f s = (Inr (), snd (update_ytd (go_user_id r) ?f s))"
    using assms(2) False by (auto simp: update_ytd_def Let_def split: option.split)
  have same: "find_order i (snd (update_ytd (go_user_id r) ?f s)) = Some r"
    using assms(1) by (auto simp: update_ytd_def Let_def split: option.split)
  show ?thesis
  proof (rule that [of ?t])
    show "release_gift_card_cap i s = (Inr (), ?t)"
      using assms(1) False by (simp add: release_gift_card_cap_def seq_run_Inr [of "update_ytd (go_user_id r) ?f" s, OF run])
    show "find_order i ?t = Some (r\<lparr> go_cap_reserved_cents := 0 \<rparr>)" using same by (simp add: find_order_update)
    show "user_cab_balance ?t = user_cab_balance s"
      by (auto simp: update_order_def update_ytd_def Let_def split: option.split)
    show "ytd_cents u ?t = (if u = go_user_id r \<and> go_cap_reserved_cents r \<noteq> 0 \<and> users s u \<noteq> None
       then max 0 (ytd_cents u s - go_cap_reserved_cents r) else ytd_cents u s)" for u
      using assms(2) False
      by (auto simp: update_order_def update_ytd_def ytd_cents_def Let_def split: option.split)
  qed
qed


lemma mark_failed_refunds:
  assumes ids: "distinct (map go_id (gift_card_orders s))" "cab_ids_ok s"
    and r: "find_order i s = Some r" "go_status r = ''pending''" "find_brand (go_brand_id r) s \<noteq> None"
      "go_source_type r = ''shop_purchase''" "go_source_ref_id r = UuidText tid"
    and x: "List.find (\<lambda>x. ct_id x = tid \<and> ct_direction x = ''debit'') (cabecoin_transactions s) = Some x"
      "0 < ct_amount x" "user_cab_balance s (ct_user_id x) = Some c" "0 \<le> c" "c + ct_amount x \<le> int4_max"
    and ytd: "ytd_cents (go_user_id r) s - go_cap_reserved_cents r \<le> int4_max"
  obtains t where "mark_failed ck start i s = (Inr (), t)"
    "user_cab_balance t = (user_cab_balance s)(ct_user_id x \<mapsto> c + ct_amount x)"
    "find_order i t = Some ((failed_order ck r)\<lparr> go_cap_reserved_cents := 0 \<rparr>)"
    "\<And>u. ytd_cents u t = (if u = go_user_id r \<and> go_cap_reserved_cents r \<noteq> 0 \<and> users s u \<noteq> None
       then max 0 (ytd_cents u s - go_cap_reserved_cents r) else ytd_cents u s)"
proof -
  let ?s1 = "update_order i (failed_order ck) s"
  let ?s2 = "award_state ck (ct_user_id x) ''gift_card_refund'' None None False None (ct_amount x) ?s1"
  have same: "cabecoin_transactions ?s1 = cabecoin_transactions s" "user_cab_balance ?s1 = user_cab_balance s"
    "users ?s1 = users s" "gift_card_brands ?s1 = gift_card_brands s" "cab_ids_ok ?s1"
    using ids(2) by (simp_all add: update_order_def)
  have f1: "find_order i ?s1 = Some (failed_order ck r)" by (simp add: find_order_update failed_order_def r(1))
  have refund: "refund_order_cab ck i ?s1 = (Inr (), ?s2)"
    by (rule refund_run [OF _ f1]) (use same r x in \<open>simp_all add: failed_order_def find_brand_def\<close>)
  have f2: "find_order i ?s2 = Some (failed_order ck r)" using f1 by (simp add: award_state_def find_order_def)
  have u2: "users ?s2 = users s" by (simp add: award_state_def same)
  then have y2: "ytd_cents u ?s2 = ytd_cents u s" for u by (simp add: ytd_cents_def)
  have fit: "fits_int4 (max 0 (gift_card_redeemed_ytd_cents w - go_cap_reserved_cents (failed_order ck r)))"
    if "users ?s2 (go_user_id (failed_order ck r)) = Some w" for w
    using ytd that by (simp add: u2 ytd_cents_def failed_order_def fits_int4_def)
  obtain t where t: "release_gift_card_cap i ?s2 = (Inr (), t)" "user_cab_balance t = user_cab_balance ?s2"
    "find_order i t = Some ((failed_order ck r)\<lparr> go_cap_reserved_cents := 0 \<rparr>)"
    and y: "\<And>u. ytd_cents u t = (if u = go_user_id (failed_order ck r) \<and> go_cap_reserved_cents (failed_order ck r) \<noteq> 0
       \<and> users ?s2 u \<noteq> None then max 0 (ytd_cents u ?s2 - go_cap_reserved_cents (failed_order ck r)) else ytd_cents u ?s2)"
    using release_run [OF f2 fit] by blast
  have "mark_failed ck start i s = (Inr (), t)"
    by (simp add: mark_failed_def catch_def bnd_run_Inr [of "update_order_failed ck i" s, OF update_order_failed_run [OF ids(1) r(1,2)]]
        seq_run_Inr [of "refund_order_cab ck i", OF refund] t(1))
  moreover have "user_cab_balance t = (user_cab_balance s)(ct_user_id x \<mapsto> c + ct_amount x)"
    using x(3) by (simp add: t(2) award_state_def credited_def same)
  moreover have "ytd_cents u t = (if u = go_user_id r \<and> go_cap_reserved_cents r \<noteq> 0 \<and> users s u \<noteq> None
       then max 0 (ytd_cents u s - go_cap_reserved_cents r) else ytd_cents u s)" for u
    using y [of u] unfolding y2 u2 by (auto simp: failed_order_def)
  ultimately show ?thesis using that t(3) by blast
qed


lemma reserve_shop:
  assumes "find_order i s = Some r" and "go_cap_reserved_cents r = 0" and "0 < go_denomination r"
    and "0 \<le> ytd_cents (go_user_id r) s" and "ytd_cents (go_user_id r) s \<le> int4_max" and "cap \<le> int4_max"
  obtains d s1 k where "reserve_gift_card_cap cap ck i False s = (Inr d, s1)" "d \<in> {CapAllow, CapBlock}"
    "find_order i s1 = Some (r\<lparr> go_cap_reserved_cents := k \<rparr>)" "0 \<le> k"
    "map go_id (gift_card_orders s1) = map go_id (gift_card_orders s)" "user_cab_balance s1 = user_cab_balance s"
    "cabecoin_transactions s1 = cabecoin_transactions s" "gift_card_brands s1 = gift_card_brands s" "next_uuid s1 = next_uuid s"
    "\<And>u. ytd_cents u s1 = ytd_cents u s + (if u = go_user_id r \<and> users s u \<noteq> None then k else 0)"
    "\<And>u. (users s1 u = None) = (users s u = None)" "ytd_cents (go_user_id r) s1 - k \<le> int4_max"
proof (cases "ytd_cents (go_user_id r) s + go_denomination r \<le> cap")
  case False
  have "r\<lparr> go_cap_reserved_cents := 0 \<rparr> = r" using assms(2) by simp
  then show ?thesis using that [of CapBlock s 0] False assms by (simp add: reserve_gift_card_cap_def Let_def)
next
  case True
  let ?n = "go_denomination r"
  let ?s1 = "snd (update_ytd (go_user_id r) (\<lambda>v. v + ?n) s)"
  let ?t = "update_order i (\<lambda>x. x\<lparr> go_cap_reserved_cents := ?n \<rparr>) ?s1"
  have run: "update_ytd (go_user_id r) (\<lambda>v. v + ?n) s = (Inr (), ?s1)"
    using assms True by (auto simp: update_ytd_def ytd_cents_def fits_int4_def Let_def split: option.splits)
  show ?thesis
  proof (rule that [of CapAllow ?t ?n])
    show "reserve_gift_card_cap cap ck i False s = (Inr CapAllow, ?t)"
      using assms True by (simp add: reserve_gift_card_cap_def Let_def seq_run_Inr [of "update_ytd (go_user_id r) (\<lambda>v. v + ?n)" s, OF run])
  qed (use assms True in \<open>auto simp: update_order_def update_ytd_def ytd_cents_def Let_def find_order_def fits_int4_def
        find_update_where_key map_update_where split: option.splits if_splits\<close>)
qed


lemma find_debit_last:
  assumes "tid \<notin> ct_id ` set xs" and "ct_id x = tid" and "ct_direction x = ''debit''"
  shows "List.find (\<lambda>y. ct_id y = tid \<and> ct_direction y = ''debit'') (xs @ [x]) = Some x"
proof -
  have "List.find (\<lambda>y. ct_id y = tid \<and> ct_direction y = ''debit'') xs = None"
    using assms(1) by (auto simp: find_None_iff)
  with assms show ?thesis by (simp add: find_append)
qed

lemma gift_ok_ytd:
  assumes "gift_ok cap s"
  shows "0 \<le> ytd_cents u s" "ytd_cents u s \<le> max 0 cap"
proof -
  have "0 \<le> reserved_total s u" unfolding reserved_total_def
    using assms by (intro sum_where_nonneg) (auto simp: gift_ok_def order_ok_def)
  moreover have "users s u \<noteq> None \<Longrightarrow> ytd_cents u s = reserved_total s u \<and> ytd_cents u s \<le> cap"
    using assms unfolding gift_ok_def by blast
  moreover have "users s u = None \<Longrightarrow> ytd_cents u s = 0" by (simp add: ytd_cents_def)
  ultimately show "0 \<le> ytd_cents u s" "ytd_cents u s \<le> max 0 cap" by (cases "users s u = None"; simp)+
qed



definition runa_down :: runa_env where
  "runa_down = \<lparr> gift_card_provider_key = ''key'', runa_orders = (\<lambda>_ _ _. RunaFailure) \<rparr>"


end
