(* ===== verification/Ratis_Referral.thy ===== *)
theory Ratis_Referral
  imports Ratis_GiftCards Ratis_Gamification
begin

text \<open>
  Referrals (\<open>referral_repository.py\<close>, \<open>referral_service.py\<close>, the routes of \<open>rewards/referral.py\<close> and
  \<open>admin/referral.py\<close>): codes, the link between a referrer and a new user, the sign-up bonus and the reward
  of the subscription with its delayed gift card. The random source of the codes is a parameter. The
  lemmas show that each side of a link is paid at most once and what the reward is.
\<close>

section \<open>Codes\<close>

text \<open>
  \<open>token_hex n\<close> is what the n-th call of \<open>secrets.token_hex(4)\<close> gives. Inserting a code checks the
  constraints of \<open>ReferralCode\<close> inside a savepoint.
\<close>

definition insert_referral_code :: "clock \<Rightarrow> uuid \<Rightarrow> string \<Rightarrow> referral_code_row db_op" where
  "insert_referral_code ck u code = bnd fresh_uuid (\<lambda>i. bnd (reads referral_codes) (\<lambda>rows.
     seq (constr (code = upper code) ''referral_codes_code_upper_check'')
    (seq (constr (code \<notin> rc_code ` set rows) ''referral_codes_code_key'')
    (seq (constr (Some u \<notin> rc_user_id ` set rows) ''referral_codes_user_id_key'')
    (let row = \<lparr> rc_id = i, rc_user_id = Some u, rc_code = code, rc_type = ''user'', rc_created_at = now ck \<rparr> in
     seq (modify (\<lambda>s. s\<lparr> referral_codes := referral_codes s @ [row] \<rparr>)) (ret row))))))"

text \<open>The loop \<open>for _ in range(10)\<close>: \<open>tries\<close> attempts are left, \<open>n\<close> tokens have been drawn.\<close>

fun create_code_loop :: "clock \<Rightarrow> (nat \<Rightarrow> string) \<Rightarrow> uuid \<Rightarrow> nat \<Rightarrow> nat \<Rightarrow> referral_code_row db_op" where
  "create_code_loop ck token_hex u n 0 = throw RuntimeError"
| "create_code_loop ck token_hex u n (Suc tries) =
     catch (db_transaction (insert_referral_code ck u (upper (token_hex n))))
       (\<lambda>e. if is_integrity_error e then create_code_loop ck token_hex u (Suc n) tries else throw e)"

definition create_code_for_user :: "clock \<Rightarrow> (nat \<Rightarrow> string) \<Rightarrow> uuid \<Rightarrow> referral_code_row db_op" where
  "create_code_for_user ck token_hex u = create_code_loop ck token_hex u 0 10"

definition get_code_for_user :: "uuid \<Rightarrow> db \<Rightarrow> referral_code_row option" where
  "get_code_for_user u s = List.find (\<lambda>r. rc_user_id r = Some u) (referral_codes s)"

definition get_by_code :: "string \<Rightarrow> db \<Rightarrow> referral_code_row option" where
  "get_by_code code s = List.find (\<lambda>r. rc_code r = upper code) (referral_codes s)"

definition get_or_create_code :: "clock \<Rightarrow> (nat \<Rightarrow> string) \<Rightarrow> uuid \<Rightarrow> (string \<times> stamp) db_op" where
  "get_or_create_code ck token_hex u = bnd (reads (get_code_for_user u)) (\<lambda>existing. case existing of
       Some r \<Rightarrow> ret (rc_code r, rc_created_at r)
     | None \<Rightarrow> bnd (create_code_for_user ck token_hex u) (\<lambda>r. ret (rc_code r, rc_created_at r)))"


section \<open>Links\<close>

record referral_lookup =
  rl_referral_use_id :: uuid
  rl_referrer_user_id :: uuid
  rl_referred_user_id :: uuid
  rl_plan :: "string option"
  rl_rewarded_at :: "stamp option"

text \<open>The referrer of a use; \<open>None\<close> when the code is gone or its owner was deleted.\<close>

definition referrer_of :: "db \<Rightarrow> referral_use_row \<Rightarrow> uuid option" where
  "referrer_of s r = Option.bind (List.find (\<lambda>c. rc_id c = ru_referral_id r) (referral_codes s)) rc_user_id"

definition find_use_of :: "uuid \<Rightarrow> db \<Rightarrow> referral_use_row option" where
  "find_use_of u s = List.find (\<lambda>r. ru_referred_user_id r = Some u) (referral_uses s)"

definition get_for_referred_user :: "uuid \<Rightarrow> db \<Rightarrow> referral_lookup option" where
  "get_for_referred_user u s = (case find_use_of u s of
       None \<Rightarrow> None
     | Some r \<Rightarrow> map_option (\<lambda>x. \<lparr> rl_referral_use_id = ru_id r, rl_referrer_user_id = x, rl_referred_user_id = u,
         rl_plan = ru_plan r, rl_rewarded_at = ru_rewarded_at r \<rparr>) (referrer_of s r))"

definition has_referral_use :: "uuid \<Rightarrow> db \<Rightarrow> bool" where
  "has_referral_use u s = (find_use_of u s \<noteq> None)"

definition create_use :: "clock \<Rightarrow> uuid \<Rightarrow> uuid \<Rightarrow> referral_use_row db_op" where
  "create_use ck referral_id u = bnd fresh_uuid (\<lambda>i. bnd (reads (has_referral_use u)) (\<lambda>taken.
     seq (constr (\<not> taken) ''referral_uses_referred_user_id_key'')
    (let row = \<lparr> ru_id = i, ru_referral_id = referral_id, ru_referred_user_id = Some u, ru_plan = None,
                 ru_rewarded_at = None, ru_created_at = now ck \<rparr> in
     seq (modify (\<lambda>s. s\<lparr> referral_uses := referral_uses s @ [row] \<rparr>)) (ret row))))"

definition mark_rewarded :: "clock \<Rightarrow> uuid \<Rightarrow> string \<Rightarrow> bool db_op" where
  "mark_rewarded ck i plan = bnd (reads (\<lambda>s. List.find (\<lambda>r. ru_id r = i) (referral_uses s))) (\<lambda>use. case use of
       None \<Rightarrow> ret False
     | Some r \<Rightarrow>
         if ru_rewarded_at r \<noteq> None then ret False
         else seq (constr (plan \<in> {''monthly'', ''annual''}) ''referral_uses_plan_check'')
        (seq (modify (\<lambda>s. s\<lparr> referral_uses := update_where (\<lambda>r. ru_id r = i)
                (\<lambda>r. r\<lparr> ru_plan := Some plan, ru_rewarded_at := Some (now ck) \<rparr>) (referral_uses s) \<rparr>))
        (ret True)))"

record history_item =
  hi_referred_user_display_name :: "string option"
  hi_plan :: "string option"
  hi_rewarded_at :: "stamp option"
  hi_created_at :: stamp
  hi_status :: string

text \<open>One row per use; the status is the one \<open>get_history\<close> derives.\<close>

definition get_history_for_user :: "uuid \<Rightarrow> db \<Rightarrow> history_item list" where
  "get_history_for_user u s = map (\<lambda>r.
       \<lparr> hi_referred_user_display_name = (case Option.bind (ru_referred_user_id r) (users s) of
             None \<Rightarrow> None | Some w \<Rightarrow> if is_deleted w then None else display_name w),
         hi_plan = ru_plan r, hi_rewarded_at = ru_rewarded_at r, hi_created_at = ru_created_at r,
         hi_status = (if ru_rewarded_at r \<noteq> None then ''rewarded'' else ''pending'') \<rparr>)
     (sort_key (\<lambda>r. - ru_created_at r) (filter (\<lambda>r. referrer_of s r = Some u) (referral_uses s)))"


section \<open>Rewards\<close>

text \<open>The settings the service reads; \<open>None\<close> is an absent key.\<close>

record referral_settings =
  cab_referral_monthly :: "int option"
  cab_referral_annual :: "int option"
  cab_referral_signup_bonus :: "int option"
  xp_per_referral :: int
  ref_level_base :: int
  ref_gift_card_brand_id :: "ref_text option"
  ref_gift_card_amount_cents :: int
  eligibility_delay_days :: int

definition cab_referral :: "referral_settings \<Rightarrow> string \<Rightarrow> int option" where
  "cab_referral cfg plan =
     (if plan = ''monthly'' then cab_referral_monthly cfg
      else if plan = ''annual'' then cab_referral_annual cfg
      else if plan = ''signup_bonus'' then cab_referral_signup_bonus cfg else None)"

definition enqueue_delayed_gift_card :: "clock \<Rightarrow> referral_settings \<Rightarrow> uuid \<Rightarrow> uuid \<Rightarrow> unit db_op" where
  "enqueue_delayed_gift_card ck cfg referrer use = (case ref_gift_card_brand_id cfg of
       None \<Rightarrow> ret ()
     | Some (OtherText _) \<Rightarrow> throw ValueError
     | Some (UuidText brand) \<Rightarrow>
         bnd (insert_gift_card_order ck referrer brand (ref_gift_card_amount_cents cfg) ''referral_reward'' (UuidText use)) (\<lambda>oid.
         modify (\<lambda>s. s\<lparr> gift_card_orders := update_where (\<lambda>r. go_id r = oid \<and> go_eligible_at r = None)
           (\<lambda>r. r\<lparr> go_eligible_at := Some (now ck + eligibility_delay_days cfg * day_us) \<rparr>) (gift_card_orders s) \<rparr>)))"

text \<open>Steps 1 to 4 of the reward of a link that was just marked.\<close>

definition reward_referrer ::
  "(int \<Rightarrow> int \<Rightarrow> int option) \<Rightarrow> clock \<Rightarrow> referral_settings \<Rightarrow> int \<Rightarrow> uuid \<Rightarrow> uuid \<Rightarrow> unit db_op" where
  "reward_referrer pg ck cfg cab_amount x use =
     seq (if 0 < cab_amount then award_cab ck x cab_amount ''referral'' (Some use) (Some ''referral'') False None True None
          else ret ())
    (seq (if 0 < xp_per_referral cfg then
            void (award_xp pg ck x (xp_per_referral cfg) ''referral'' (Some use) (Some ''referral'') (ref_level_base cfg) False None)
          else ret ())
    (seq (maybe_increment_challenge ck x ''referral'' None)
         (enqueue_delayed_gift_card ck cfg x use)))"

definition handle_subscription_referral ::
  "(int \<Rightarrow> int \<Rightarrow> int option) \<Rightarrow> clock \<Rightarrow> referral_settings \<Rightarrow> uuid \<Rightarrow> string \<Rightarrow> uuid option db_op" where
  "handle_subscription_referral pg ck cfg y plan = (case cab_referral cfg plan of
       None \<Rightarrow> throw (ValueErrorText ''no_cab_amount_configured'')
     | Some cab_amount \<Rightarrow> bnd (reads (get_for_referred_user y)) (\<lambda>link. case link of
         None \<Rightarrow> ret None
       | Some l \<Rightarrow> bnd (mark_rewarded ck (rl_referral_use_id l) plan) (\<lambda>marked.
           if \<not> marked then ret None
           else seq (reward_referrer pg ck cfg cab_amount (rl_referrer_user_id l) (rl_referral_use_id l))
             (seq (achievement_hook ck (rl_referrer_user_id l) ''referral_paid'')
             (ret (Some (rl_referrer_user_id l)))))))"

record history =
  hy_code :: string
  hy_total_uses :: nat
  hy_rewarded_uses :: nat
  hy_total_cab_earned :: int
  hy_uses :: "history_item list"

definition get_history :: "clock \<Rightarrow> (nat \<Rightarrow> string) \<Rightarrow> referral_settings \<Rightarrow> uuid \<Rightarrow> history db_op" where
  "get_history ck token_hex cfg u = bnd (reads (get_code_for_user u)) (\<lambda>found.
     bnd (case found of Some r \<Rightarrow> ret r | None \<Rightarrow> create_code_for_user ck token_hex u) (\<lambda>code.
     bnd (reads (get_history_for_user u)) (\<lambda>uses.
       let opt = (\<lambda>n. case n of None \<Rightarrow> 0 | Some k \<Rightarrow> k);
           rewarded = filter (\<lambda>h. hi_rewarded_at h \<noteq> None) uses
       in ret \<lparr> hy_code = rc_code code, hy_total_uses = length uses, hy_rewarded_uses = length rewarded,
            hy_total_cab_earned = sum_list (map (\<lambda>h. if hi_plan h = Some ''annual'' then opt (cab_referral_annual cfg)
              else opt (cab_referral_monthly cfg)) rewarded),
            hy_uses = uses \<rparr>)))"

definition referral_credits :: "uuid \<Rightarrow> uuid \<Rightarrow> db \<Rightarrow> nat" where
  "referral_credits u use s = count_where (\<lambda>r. ct_user_id r = u \<and> ct_reference_id r = Some use
     \<and> ct_reference_type r = Some ''referral'' \<and> ct_direction r = ''credit'') (cabecoin_transactions s)"

definition award_referral_signup_bonus :: "clock \<Rightarrow> referral_settings \<Rightarrow> uuid \<Rightarrow> bool db_op" where
  "award_referral_signup_bonus ck cfg y = bnd (reads (find_use_of y)) (\<lambda>row. case row of
       None \<Rightarrow> ret False
     | Some r \<Rightarrow> bnd (reads (\<lambda>s. referral_credits y (ru_id r) s)) (\<lambda>already.
         if already \<noteq> 0 then ret False
         else let amount = (case cab_referral_signup_bonus cfg of None \<Rightarrow> 0 | Some n \<Rightarrow> n) in
           if amount \<le> 0 then ret False
           else seq (award_cab ck y amount ''referral'' (Some (ru_id r)) (Some ''referral'') False None True None) (ret True)))"

text \<open>The most recent active subscription, whether or not it has expired.\<close>

definition get_active_plan :: "uuid \<Rightarrow> db \<Rightarrow> string option" where
  "get_active_plan u s = (case sort_key (\<lambda>r. - su_started_at r)
       (filter (\<lambda>r. su_user_id r = u \<and> su_status r = ''active'') (subscriptions s)) of
       [] \<Rightarrow> None
     | r # _ \<Rightarrow> if su_plan r \<in> {Some ''monthly'', Some ''annual''} then su_plan r else None)"

record link_result =
  lk_detail :: string
  lk_referral_use_id :: uuid
  lk_signup_bonus_awarded :: int
  lk_subscription_reward_triggered :: bool

text \<open>The bonus of the referred user and, when they subscribe already, the reward of the referrer.\<close>

definition signup_bonus :: "referral_settings \<Rightarrow> int" where
  "signup_bonus cfg = (case cab_referral_signup_bonus cfg of None \<Rightarrow> 0 | Some n \<Rightarrow> n)"

definition settle_link ::
  "(int \<Rightarrow> int \<Rightarrow> int option) \<Rightarrow> clock \<Rightarrow> referral_settings \<Rightarrow> uuid \<Rightarrow> referral_use_row \<Rightarrow> link_result db_op" where
  "settle_link pg ck cfg y use =
     seq (if 0 < signup_bonus cfg then award_cab ck y (signup_bonus cfg) ''referral'' (Some (ru_id use)) (Some ''referral'')
            False None True None else ret ())
    (bnd (reads (get_active_plan y)) (\<lambda>plan.
     bnd (case plan of None \<Rightarrow> ret None | Some p \<Rightarrow> handle_subscription_referral pg ck cfg y p) (\<lambda>referrer.
     ret \<lparr> lk_detail = (if referrer = None then ''link_created'' else ''link_created_and_rewarded''),
           lk_referral_use_id = ru_id use, lk_signup_bonus_awarded = signup_bonus cfg,
           lk_subscription_reward_triggered = (referrer \<noteq> None) \<rparr>)))"

definition link_manually_and_reward ::
  "(int \<Rightarrow> int \<Rightarrow> int option) \<Rightarrow> clock \<Rightarrow> referral_settings \<Rightarrow> uuid \<Rightarrow> string \<Rightarrow> link_result db_op" where
  "link_manually_and_reward pg ck cfg y code = bnd (reads (get_by_code code)) (\<lambda>referral. case referral of
       None \<Rightarrow> throw (ValueErrorText ''invalid_code'')
     | Some c \<Rightarrow>
         if rc_user_id c = None then throw (ValueErrorText ''invalid_code'')
         else if rc_user_id c = Some y then throw (ValueErrorText ''self_parrainage'')
         else bnd (reads (\<lambda>s. users s y)) (\<lambda>referred.
           if referred = None then throw (ValueErrorText ''user_not_found'')
           else bnd (reads (has_referral_use y)) (\<lambda>linked.
             if linked then throw (ValueErrorText ''already_linked'')
             else bnd (create_use ck (rc_id c) y) (settle_link pg ck cfg y))))"


section \<open>Routes\<close>

definition get_referral_code :: "clock \<Rightarrow> (nat \<Rightarrow> string) \<Rightarrow> uuid \<Rightarrow> (string \<times> stamp) db_op" where
  "get_referral_code ck token_hex u = db_transaction (get_or_create_code ck token_hex u)"

definition get_referral_history :: "clock \<Rightarrow> (nat \<Rightarrow> string) \<Rightarrow> referral_settings \<Rightarrow> uuid \<Rightarrow> history db_op" where
  "get_referral_history ck token_hex cfg u = db_transaction (get_history ck token_hex cfg u)"

definition referral_trigger ::
  "(int \<Rightarrow> int \<Rightarrow> int option) \<Rightarrow> clock \<Rightarrow> referral_settings \<Rightarrow> uuid \<Rightarrow> string \<Rightarrow> unit db_op" where
  "referral_trigger pg ck cfg y plan =
     (if plan \<notin> {''monthly'', ''annual''} then throw (HTTPException 422 ''validation_error'')
      else void (db_transaction (handle_subscription_referral pg ck cfg y plan)))"

definition referral_signup_bonus :: "clock \<Rightarrow> referral_settings \<Rightarrow> uuid \<Rightarrow> bool db_op" where
  "referral_signup_bonus ck cfg y = db_transaction (award_referral_signup_bonus ck cfg y)"

text \<open>A \<open>ValueError\<close> without a text of the service is one of the helpers it calls.\<close>

definition link_error :: "error \<Rightarrow> error" where
  "link_error e = (case e of
       ValueErrorText code \<Rightarrow> HTTPException (if code = ''user_not_found'' then 404
         else if code = ''already_linked'' then 409 else 400) code
     | ValueError \<Rightarrow> HTTPException 400 ''value_error''
     | _ \<Rightarrow> e)"

definition admin_referral_link ::
  "(int \<Rightarrow> int \<Rightarrow> int option) \<Rightarrow> clock \<Rightarrow> referral_settings \<Rightarrow> uuid \<Rightarrow> string \<Rightarrow> string \<Rightarrow> link_result db_op" where
  "admin_referral_link pg ck cfg y code operator =
     (if length code < 4 \<or> 32 < length code \<or> length operator < 1 \<or> 128 < length operator
      then throw (HTTPException 422 ''validation_error'')
      else db_transaction (catch (link_manually_and_reward pg ck cfg y code) (\<lambda>e. throw (link_error e))))"


section \<open>Each side of a link is paid at most once\<close>

definition link_ok :: "db \<Rightarrow> referral_use_row \<Rightarrow> bool" where
  "link_ok s r \<longleftrightarrow>
     (\<forall>x. referrer_of s r = Some x \<longrightarrow> ru_referred_user_id r \<noteq> Some x
        \<and> referral_credits x (ru_id r) s \<le> (if ru_rewarded_at r = None then 0 else 1))
     \<and> (\<forall>y. ru_referred_user_id r = Some y \<longrightarrow> referral_credits y (ru_id r) s \<le> 1)"

definition referral_ids_ok :: "db \<Rightarrow> bool" where
  "referral_ids_ok s \<longleftrightarrow> distinct (map ru_id (referral_uses s)) \<and> distinct (map rc_id (referral_codes s))
     \<and> (\<forall>r \<in> set (referral_uses s). ru_id r < next_uuid s \<and> ru_referral_id r < next_uuid s)
     \<and> (\<forall>c \<in> set (referral_codes s). rc_id c < next_uuid s)
     \<and> (\<forall>t \<in> set (cabecoin_transactions s). \<forall>i. ct_reference_type t = Some ''referral'' \<longrightarrow>
          ct_reference_id t = Some i \<longrightarrow> i < next_uuid s)"

definition referral_ok :: "db \<Rightarrow> bool" where
  "referral_ok s \<longleftrightarrow> referral_ids_ok s \<and> (\<forall>r \<in> set (referral_uses s). link_ok s r)"

lemma referral_ok_frame [simp]:
  "referral_ok (s\<lparr> users := x1 \<rparr>) = referral_ok s"
  "referral_ok (s\<lparr> user_cab_balance := x2 \<rparr>) = referral_ok s"
  "referral_ok (s\<lparr> user_cashback_balance := x3 \<rparr>) = referral_ok s"
  "referral_ok (s\<lparr> user_streaks := x5 \<rparr>) = referral_ok s"
  "referral_ok (s\<lparr> user_xp_balance := x6 \<rparr>) = referral_ok s"
  "referral_ok (s\<lparr> xp_transactions := x7 \<rparr>) = referral_ok s"
  "referral_ok (s\<lparr> battlepass_seasons := x8 \<rparr>) = referral_ok s"
  "referral_ok (s\<lparr> battlepass_milestones := x9 \<rparr>) = referral_ok s"
  "referral_ok (s\<lparr> user_battlepass_progress := x10 \<rparr>) = referral_ok s"
  "referral_ok (s\<lparr> user_battlepass_claims := x11 \<rparr>) = referral_ok s"
  "referral_ok (s\<lparr> community_challenges := x12 \<rparr>) = referral_ok s"
  "referral_ok (s\<lparr> community_challenge_milestones := x13 \<rparr>) = referral_ok s"
  "referral_ok (s\<lparr> community_challenge_progress := x14 \<rparr>) = referral_ok s"
  "referral_ok (s\<lparr> community_challenge_claims := x15 \<rparr>) = referral_ok s"
  "referral_ok (s\<lparr> community_multipliers := x16 \<rparr>) = referral_ok s"
  "referral_ok (s\<lparr> notification_outbox := x17 \<rparr>) = referral_ok s"
  "referral_ok (s\<lparr> affiliate_offers := x18 \<rparr>) = referral_ok s"
  "referral_ok (s\<lparr> cashback_transactions := x19 \<rparr>) = referral_ok s"
  "referral_ok (s\<lparr> cashback_withdrawals := x20 \<rparr>) = referral_ok s"
  "referral_ok (s\<lparr> subscriptions := x21 \<rparr>) = referral_ok s"
  "referral_ok (s\<lparr> receipts := x22 \<rparr>) = referral_ok s"
  "referral_ok (s\<lparr> scans := x23 \<rparr>) = referral_ok s"
  "referral_ok (s\<lparr> products := x24 \<rparr>) = referral_ok s"
  "referral_ok (s\<lparr> gift_card_brands := x25 \<rparr>) = referral_ok s"
  "referral_ok (s\<lparr> gift_card_orders := x26 \<rparr>) = referral_ok s"
  "referral_ok (s\<lparr> achievements := x27 \<rparr>) = referral_ok s"
  "referral_ok (s\<lparr> user_achievements := x28 \<rparr>) = referral_ok s"
  by (simp_all add: referral_ok_def referral_ids_ok_def link_ok_def referrer_of_def referral_credits_def)

lemma referral_ok_next [simp]: "referral_ok s \<Longrightarrow> referral_ok (s\<lparr> next_uuid := Suc (next_uuid s) \<rparr>)"
  by (auto simp: referral_ok_def referral_ids_ok_def link_ok_def referrer_of_def referral_credits_def less_Suc_eq)

lemma referral_credits_row:
  "referral_credits v i (s\<lparr> cabecoin_transactions := cabecoin_transactions s @ [r] \<rparr>) = referral_credits v i s
     + (if ct_user_id r = v \<and> ct_reference_id r = Some i \<and> ct_reference_type r = Some ''referral'' \<and> ct_direction r = ''credit''
        then 1 else 0)"
  by (simp add: referral_credits_def count_where_def)

lemma award_credits:
  assumes "award_cab ck u n reason rid rt ap cm bp season s = (Inr x, t)"
  shows "referral_credits v i t = referral_credits v i s + (if v = u \<and> rid = Some i \<and> rt = Some ''referral'' then 1 else 0)"
    "referral_codes t = referral_codes s" "referral_uses t = referral_uses s" "next_uuid t = Suc (next_uuid s)"
    "\<exists>r. cabecoin_transactions t = cabecoin_transactions s @ [r] \<and> ct_reference_id r = rid \<and> ct_reference_type r = rt"
  using assms
  by (auto simp: award_cab_Inr award_state_def award_row_def referral_credits_def count_where_def)

text \<open>An award for a link, to a side that was not paid yet.\<close>

lemma referral_ok_award:
  assumes ok: "referral_ok s" and r: "r \<in> set (referral_uses s)" "referral_credits u (ru_id r) s = 0"
    and paid: "referrer_of s r = Some u \<Longrightarrow> ru_rewarded_at r \<noteq> None"
    and run: "award_cab ck u n reason (Some (ru_id r)) (Some ''referral'') ap cm bp season s = (Inr x, t)"
  shows "referral_ok t"
proof -
  note a = award_credits [OF run]
  have ids: "referral_ids_ok s" using ok by (simp add: referral_ok_def)
  have "referral_ids_ok t" using ids r(1) a(5) unfolding referral_ids_ok_def a(2,3,4) by (auto simp: less_Suc_eq)
  moreover have "link_ok t q" if q: "q \<in> set (referral_uses s)" for q
  proof (cases "q = r")
    case True
    with ok r paid show ?thesis
      by (auto simp: referral_ok_def link_ok_def referrer_of_def a split: if_splits)
  next
    case False
    with ids r(1) q have "ru_id q \<noteq> ru_id r" by (auto simp: referral_ids_ok_def distinct_map inj_on_def)
    then have "referral_credits v (ru_id q) t = referral_credits v (ru_id q) s" for v by (simp add: a(1))
    with ok q show ?thesis by (simp add: referral_ok_def link_ok_def referrer_of_def a(2))
  qed
  ultimately show ?thesis by (simp add: referral_ok_def a(3))
qed

lemma preserves_other_award:
  assumes "rt \<noteq> Some ''referral''"
  shows "preserves referral_ok (award_cab ck u n reason rid rt ap cm bp season)"
proof (rule preservesI)
  fix s x t assume ok: "referral_ok s" and run: "award_cab ck u n reason rid rt ap cm bp season s = (Inr x, t)"
  note a = award_credits [OF run]
  have "referral_credits v i t = referral_credits v i s" for v i using a(1) assms by simp
  moreover have "referral_ids_ok t" using ok a(5) assms unfolding referral_ok_def referral_ids_ok_def a(2,3,4) by (auto simp: less_Suc_eq)
  ultimately show "referral_ok t" using ok by (simp add: referral_ok_def link_ok_def referrer_of_def a(2,3))
qed

lemma keeps_hook_referral: "keeps referral_ok (achievement_hook ck u e)"
  by (rule keeps_achievement_hook)
    (auto simp: unlock_def intro!: preserves_bnd preserves_seq preserves_if preserves_other_award keeps_preserves [OF keeps_modify])

lemma keeps_challenge_referral: "keeps referral_ok (maybe_increment_challenge ck u a cx)"
  by (rule keeps_maybe_increment) simp_all

lemma keeps_xp_referral: "keeps referral_ok (award_xp pg ck u n reason rid rt base ap cm)"
  by (rule keeps_award_xp) simp_all

lemma preserves_enqueue_referral: "preserves referral_ok (enqueue_delayed_gift_card ck cfg x use)"
proof -
  have 1: "preserves referral_ok (insert_gift_card_order ck u b d st ref)" for u b d st ref
  proof (rule preservesI)
    fix s i t assume ok: "referral_ok s" and "insert_gift_card_order ck u b d st ref s = (Inr i, t)"
    from insert_order_Inr [OF this(2)] referral_ok_next [OF ok] show "referral_ok t" by auto
  qed
  show ?thesis unfolding enqueue_delayed_gift_card_def
    by (auto intro!: preserves_bnd 1 keeps_preserves [OF keeps_modify] split: option.splits ref_text.splits)
qed


definition marked_use :: "clock \<Rightarrow> string \<Rightarrow> referral_use_row \<Rightarrow> referral_use_row" where
  "marked_use ck plan r = r\<lparr> ru_plan := Some plan, ru_rewarded_at := Some (now ck) \<rparr>"

lemma mark_rewarded_Inr:
  assumes "mark_rewarded ck i plan s = (Inr m, t)"
  shows "\<not> m \<and> t = s \<or> m \<and> (\<exists>r. List.find (\<lambda>r. ru_id r = i) (referral_uses s) = Some r \<and> ru_rewarded_at r = None
    \<and> t = s\<lparr> referral_uses := update_where (\<lambda>r. ru_id r = i) (marked_use ck plan) (referral_uses s) \<rparr>)"
  using assms
  by (auto simp: mark_rewarded_def marked_use_def [abs_def] split: option.splits if_splits)

text \<open>Marking a link keeps the invariant and leaves the referrer unpaid, ready for the one award.\<close>

lemma referral_ok_mark:
  assumes ok: "referral_ok s" and r: "r \<in> set (referral_uses s)" "ru_rewarded_at r = None"
    and t: "t = s\<lparr> referral_uses := update_where (\<lambda>q. ru_id q = ru_id r) (marked_use ck plan) (referral_uses s) \<rparr>"
  shows "referral_ok t \<and> marked_use ck plan r \<in> set (referral_uses t)
    \<and> (\<forall>x. referrer_of s r = Some x \<longrightarrow> referral_credits x (ru_id r) t = 0)"
proof -
  have same: "referral_codes t = referral_codes s" "cabecoin_transactions t = cabecoin_transactions s" "next_uuid t = next_uuid s"
    by (simp_all add: t)
  have "link_ok t (if ru_id q = ru_id r then marked_use ck plan q else q)" if "q \<in> set (referral_uses s)" for q
    using ok that unfolding referral_ok_def
    by (fastforce simp: link_ok_def referrer_of_def referral_credits_def same marked_use_def split: if_splits)
  moreover have "set (referral_uses t) = (\<lambda>q. if ru_id q = ru_id r then marked_use ck plan q else q) ` set (referral_uses s)"
    by (simp add: t set_update_where)
  ultimately have "\<forall>q \<in> set (referral_uses t). link_ok t q" by (metis (no_types, lifting) imageE)
  moreover have "referral_ids_ok t"
    using ok by (auto simp: referral_ok_def referral_ids_ok_def t map_update_where set_update_where marked_use_def)
  moreover have "marked_use ck plan r \<in> set (referral_uses t)" using r(1) by (auto simp: t set_update_where)
  moreover have "referral_credits x (ru_id r) t = 0" if "referrer_of s r = Some x" for x
    using ok r that by (auto simp: referral_ok_def link_ok_def referral_credits_def same)
  ultimately show ?thesis by (simp add: referral_ok_def)
qed

lemma find_use_of_Some: "find_use_of y s = Some r \<Longrightarrow> r \<in> set (referral_uses s) \<and> ru_referred_user_id r = Some y"
  by (auto simp: find_use_of_def dest: find_Some_in)

lemma get_for_referred_user_Some:
  assumes "get_for_referred_user y s = Some l"
  obtains r where "find_use_of y s = Some r" "referrer_of s r = Some (rl_referrer_user_id l)" "rl_referral_use_id l = ru_id r"
  using assms by (auto simp: get_for_referred_user_def split: option.splits)

text \<open>A link that was found, marked and not yet rewarded.\<close>

lemma mark_found:
  assumes ok: "referral_ok s" and l: "get_for_referred_user y s = Some l"
    and run: "mark_rewarded ck (rl_referral_use_id l) plan s = (Inr True, t)"
  obtains r where "find_use_of y s = Some r" "referrer_of s r = Some (rl_referrer_user_id l)" "rl_referral_use_id l = ru_id r"
    "r \<in> set (referral_uses s)" "ru_rewarded_at r = None"
    "t = s\<lparr> referral_uses := update_where (\<lambda>q. ru_id q = ru_id r) (marked_use ck plan) (referral_uses s) \<rparr>"
proof -
  from get_for_referred_user_Some [OF l] obtain r where r: "find_use_of y s = Some r"
    "referrer_of s r = Some (rl_referrer_user_id l)" "rl_referral_use_id l = ru_id r" .
  from find_use_of_Some [OF r(1)] have mem: "r \<in> set (referral_uses s)" by simp
  have "distinct (map ru_id (referral_uses s))" using ok by (simp add: referral_ok_def referral_ids_ok_def)
  from find_distinct_key [OF this mem] mark_rewarded_Inr [OF run] r mem that show ?thesis by auto
qed

lemma preserves_reward_rest:
  "preserves referral_ok (if 0 < xp_per_referral cfg then
      void (award_xp pg ck x (xp_per_referral cfg) ''referral'' (Some use) (Some ''referral'') (ref_level_base cfg) False None)
    else ret ())"
  "preserves referral_ok (seq (maybe_increment_challenge ck x ''referral'' None) (enqueue_delayed_gift_card ck cfg x use))"
  by (intro preserves_if preserves_ret preserves_seq preserves_enqueue_referral keeps_preserves keeps_void keeps_xp_referral
      keeps_challenge_referral)+

lemma reward_referrer_Inr:
  assumes "reward_referrer pg ck cfg n x use s = (Inr z, t)"
  shows "\<exists>a s1 b s2. (if 0 < n then award_cab ck x n ''referral'' (Some use) (Some ''referral'') False None True None
        else ret ()) s = (Inr a, s1)
    \<and> (if 0 < xp_per_referral cfg then
      void (award_xp pg ck x (xp_per_referral cfg) ''referral'' (Some use) (Some ''referral'') (ref_level_base cfg) False None)
    else ret ()) s1 = (Inr b, s2)
    \<and> seq (maybe_increment_challenge ck x ''referral'' None) (enqueue_delayed_gift_card ck cfg x use) s2 = (Inr z, t)"
  using assms by (simp only: reward_referrer_def seq_Inr_iff) blast

lemma preserves_handle: "preserves referral_ok (handle_subscription_referral pg ck cfg y plan)"
proof (rule preservesI)
  fix s z t assume ok: "referral_ok s" and run: "handle_subscription_referral pg ck cfg y plan s = (Inr z, t)"
  show "referral_ok t"
  proof (cases "t = s")
    case False
    with run obtain l n s1 where l: "get_for_referred_user y s = Some l"
      and mark: "mark_rewarded ck (rl_referral_use_id l) plan s = (Inr True, s1)"
      and rest: "seq (reward_referrer pg ck cfg n (rl_referrer_user_id l) (rl_referral_use_id l))
        (seq (achievement_hook ck (rl_referrer_user_id l) ''referral_paid'') (ret (Some (rl_referrer_user_id l)))) s1 = (Inr z, t)"
      by (auto simp: handle_subscription_referral_def bnd_Inr_iff dest: mark_rewarded_Inr split: option.splits if_splits)
    from mark_found [OF ok l mark] obtain r where r: "referrer_of s r = Some (rl_referrer_user_id l)" "rl_referral_use_id l = ru_id r"
      "r \<in> set (referral_uses s)" "ru_rewarded_at r = None"
      "s1 = s\<lparr> referral_uses := update_where (\<lambda>q. ru_id q = ru_id r) (marked_use ck plan) (referral_uses s) \<rparr>" by metis
    from referral_ok_mark [OF ok r(3,4,5)] r(1) have ok1: "referral_ok s1" and mem: "marked_use ck plan r \<in> set (referral_uses s1)"
      and free: "referral_credits (rl_referrer_user_id l) (ru_id r) s1 = 0" by auto
    have first: "referral_ok s2" if "(if 0 < n then award_cab ck (rl_referrer_user_id l) n ''referral'' (Some (ru_id r))
        (Some ''referral'') False None True None else ret ()) s1 = (Inr x, s2)" for x s2
      using that ok1 referral_ok_award [OF ok1 mem, of "rl_referrer_user_id l" ck n "''referral''" False None True None x s2] free
      by (auto simp: marked_use_def split: if_splits)
    from rest obtain a s5 b where rew: "reward_referrer pg ck cfg n (rl_referrer_user_id l) (ru_id r) s1 = (Inr a, s5)"
      and hook: "achievement_hook ck (rl_referrer_user_id l) ''referral_paid'' s5 = (Inr b, t)"
      by (auto simp: seq_Inr_iff r(2))
    from reward_referrer_Inr [OF rew] first have "referral_ok s5"
      using preservesD [OF preserves_reward_rest(1)] preservesD [OF preserves_reward_rest(2)] by metis
    from keepsD [OF keeps_hook_referral this hook] show ?thesis .
  qed (simp add: ok)
qed


lemma create_use_Inr:
  assumes "create_use ck cid y s = (Inr r, t)"
  shows "find_use_of y s = None \<and> r = \<lparr> ru_id = next_uuid s, ru_referral_id = cid, ru_referred_user_id = Some y, ru_plan = None,
       ru_rewarded_at = None, ru_created_at = now ck \<rparr>
    \<and> t = s\<lparr> next_uuid := Suc (next_uuid s), referral_uses := referral_uses s @ [r] \<rparr>"
  using assms by (auto simp: create_use_def has_referral_use_def find_use_of_def Let_def split: if_splits)

lemma referral_ok_new_use:
  assumes ok: "referral_ok s" and run: "create_use ck (rc_id c) y s = (Inr r, t)"
    and c: "c \<in> set (referral_codes s)" "rc_user_id c \<noteq> Some y"
  shows "referral_ok t \<and> r \<in> set (referral_uses t) \<and> referrer_of t r = rc_user_id c \<and> (\<forall>v. referral_credits v (ru_id r) t = 0)"
proof -
  note new = create_use_Inr [OF run]
  have ids: "referral_ids_ok s" using ok by (simp add: referral_ok_def)
  have ref: "referrer_of t r = rc_user_id c"
    using find_distinct_key [of rc_id "referral_codes s" c] ids c(1) new by (simp add: referrer_of_def referral_ids_ok_def)
  have none: "referral_credits v (next_uuid s) s = 0" for v
    using ids unfolding referral_credits_def count_where_0_iff referral_ids_ok_def by fastforce
  have same: "referral_credits v i t = referral_credits v i s" "referrer_of t q = referrer_of s q" for v i q
    using new by (simp_all add: referral_credits_def referrer_of_def)
  have r: "ru_id r = next_uuid s" "ru_referred_user_id r = Some y" "ru_rewarded_at r = None" using new by simp_all
  have "link_ok t q" if "q \<in> set (referral_uses s)" for q
    using ok that by (auto simp: referral_ok_def link_ok_def same)
  moreover have "link_ok t r" using ref c(2) unfolding link_ok_def same r none by auto
  moreover have "referral_ids_ok t" using ids new c(1) by (auto simp: referral_ids_ok_def less_Suc_eq)
  moreover have "referral_uses t = referral_uses s @ [r]" using new by simp
  ultimately show ?thesis using ref none unfolding referral_ok_def r same by simp
qed

lemma preserves_signup: "preserves referral_ok (award_referral_signup_bonus ck cfg y)"
proof (rule preservesI)
  fix s b t assume ok: "referral_ok s" and run: "award_referral_signup_bonus ck cfg y s = (Inr b, t)"
  show "referral_ok t"
  proof (cases "t = s")
    case False
    with run obtain r n x where r: "find_use_of y s = Some r" "referral_credits y (ru_id r) s = 0"
      and award: "award_cab ck y n ''referral'' (Some (ru_id r)) (Some ''referral'') False None True None s = (Inr x, t)"
      by (auto simp: award_referral_signup_bonus_def Let_def seq_Inr_iff split: option.splits if_splits)
    have mem: "r \<in> set (referral_uses s)" "ru_referred_user_id r = Some y" using find_use_of_Some [OF r(1)] by simp_all
    then have "referrer_of s r \<noteq> Some y" using ok by (auto simp: referral_ok_def link_ok_def)
    with referral_ok_award [OF ok mem(1) r(2) _ award] show ?thesis by simp
  qed (simp add: ok)
qed

lemma settle_link_ok:
  assumes ok: "referral_ok s" and r: "r \<in> set (referral_uses s)" "referral_credits y (ru_id r) s = 0" "referrer_of s r \<noteq> Some y"
    and run: "settle_link pg ck cfg y r s = (Inr z, t)"
  shows "referral_ok t"
proof -
  from run obtain x s1 where first: "(if 0 < signup_bonus cfg then award_cab ck y (signup_bonus cfg) ''referral'' (Some (ru_id r))
      (Some ''referral'') False None True None else ret ()) s = (Inr x, s1)"
    and rest: "bnd (case get_active_plan y s1 of None \<Rightarrow> ret None | Some p \<Rightarrow> handle_subscription_referral pg ck cfg y p) (\<lambda>referrer.
     ret \<lparr> lk_detail = (if referrer = None then ''link_created'' else ''link_created_and_rewarded''),
           lk_referral_use_id = ru_id r, lk_signup_bonus_awarded = signup_bonus cfg,
           lk_subscription_reward_triggered = (referrer \<noteq> None) \<rparr>) s1 = (Inr z, t)"
    by (simp add: settle_link_def seq_Inr_iff) blast
  have ok1: "referral_ok s1"
    using first ok referral_ok_award [OF ok r(1,2), of ck "signup_bonus cfg" "''referral''" False None True None x s1] r(3)
    by (auto split: if_splits)
  have "preserves referral_ok (bnd (case get_active_plan y s1 of None \<Rightarrow> ret None | Some p \<Rightarrow> handle_subscription_referral pg ck cfg y p)
      (\<lambda>referrer. ret (f referrer)))" for f
    by (intro preserves_bnd preserves_case_option preserves_ret preserves_handle)
  from preservesD [OF this ok1 rest] show ?thesis .
qed

lemma preserves_link: "preserves referral_ok (link_manually_and_reward pg ck cfg y code)"
proof (rule preservesI)
  fix s z t assume ok: "referral_ok s" and run: "link_manually_and_reward pg ck cfg y code s = (Inr z, t)"
  then obtain c r s1 where c: "get_by_code code s = Some c" "rc_user_id c \<noteq> Some y"
    and use: "create_use ck (rc_id c) y s = (Inr r, s1)" and rest: "settle_link pg ck cfg y r s1 = (Inr z, t)"
    by (auto simp: link_manually_and_reward_def bnd_Inr_iff split: option.splits if_splits)
  have mem: "c \<in> set (referral_codes s)" using c(1) by (auto simp: get_by_code_def dest: find_Some_in)
  from referral_ok_new_use [OF ok use mem c(2)] c(2) show "referral_ok t"
    by (intro settle_link_ok [OF _ _ _ _ rest]) auto
qed

lemma insert_referral_code_Inr:
  assumes "insert_referral_code ck u code s = (Inr r, t)"
  shows "rc_id r = next_uuid s \<and> rc_code r = code \<and> code \<notin> rc_code ` set (referral_codes s) \<and> rc_user_id r = Some u
    \<and> t = s\<lparr> next_uuid := Suc (next_uuid s), referral_codes := referral_codes s @ [r] \<rparr>"
  using assms by (auto simp: insert_referral_code_def Let_def split: if_splits)

lemma preserves_insert_code: "preserves referral_ok (insert_referral_code ck u code)"
proof (rule preservesI)
  fix s r t assume ok: "referral_ok s" and run: "insert_referral_code ck u code s = (Inr r, t)"
  note new = insert_referral_code_Inr [OF run]
  have ids: "referral_ids_ok s" using ok by (simp add: referral_ok_def)
  have same: "referral_credits v i t = referral_credits v i s" for v i using new by (simp add: referral_credits_def)
  have "referrer_of t q = referrer_of s q" if "q \<in> set (referral_uses s)" for q
  proof -
    have "ru_referral_id q \<noteq> next_uuid s" using ids that by (auto simp: referral_ids_ok_def)
    then show ?thesis using new by (auto simp: referrer_of_def find_append split: option.split)
  qed
  then have "link_ok t q" if "q \<in> set (referral_uses s)" for q
    using ok that by (simp add: referral_ok_def link_ok_def same)
  moreover have "referral_ids_ok t" using ids new by (auto simp: referral_ids_ok_def less_Suc_eq)
  ultimately show "referral_ok t" using new by (simp add: referral_ok_def)
qed

lemma keeps_create_loop: "keeps referral_ok (create_code_loop ck tok u n tries)"
  by (induction tries arbitrary: n)
    (auto intro!: keeps_catch keeps_if keeps_throw preserves_transaction preserves_insert_code)

lemma keeps_create_code: "keeps referral_ok (create_code_for_user ck tok u)"
  unfolding create_code_for_user_def by (rule keeps_create_loop)


datatype ref_cmd =
    RefTrigger "int \<Rightarrow> int \<Rightarrow> int option" clock referral_settings uuid string
  | RefBonus clock referral_settings uuid
  | RefLink "int \<Rightarrow> int \<Rightarrow> int option" clock referral_settings uuid string string
  | RefCode clock "nat \<Rightarrow> string" uuid
  | RefHistory clock "nat \<Rightarrow> string" referral_settings uuid
  | RefOther clock uuid int string "uuid option" "string option" bool bool

text \<open>The last command stands for the awards of the other components, which use other reference types.\<close>

fun ref_step :: "ref_cmd \<Rightarrow> unit db_op" where
  "ref_step (RefTrigger pg ck cfg y plan) = referral_trigger pg ck cfg y plan"
| "ref_step (RefBonus ck cfg y) = void (referral_signup_bonus ck cfg y)"
| "ref_step (RefLink pg ck cfg y code operator) = void (admin_referral_link pg ck cfg y code operator)"
| "ref_step (RefCode ck tok u) = void (get_referral_code ck tok u)"
| "ref_step (RefHistory ck tok cfg u) = void (get_referral_history ck tok cfg u)"
| "ref_step (RefOther ck u n reason rid rt ap bp) =
     (if rt = Some ''referral'' then ret () else db_transaction (award_cab ck u n reason rid rt ap None bp None))"

text \<open>What the services establish on return, the referral routes keep.\<close>

lemma keeps_ref_step:
  assumes "\<And>pg ck cfg y plan. preserves I (handle_subscription_referral pg ck cfg y plan)"
    and "\<And>ck cfg y. preserves I (award_referral_signup_bonus ck cfg y)"
    and "\<And>pg ck cfg y code. preserves I (link_manually_and_reward pg ck cfg y code)"
    and "\<And>ck tok u. preserves I (create_code_for_user ck tok u)"
    and "\<And>ck u n reason rid rt ap bp. rt \<noteq> Some ''referral'' \<Longrightarrow> preserves I (award_cab ck u n reason rid rt ap None bp None)"
  shows "keeps I (ref_step c)"
proof -
  have "preserves I (get_or_create_code ck tok u)" "preserves I (get_history ck tok cfg u)" for ck tok u cfg
    unfolding get_or_create_code_def get_history_def Let_def
    by (intro preserves_bnd preserves_reads preserves_case_option preserves_ret assms)+
  moreover have "preserves I (catch (link_manually_and_reward pg ck cfg y code) (\<lambda>e. throw (link_error e)))" for pg ck cfg y code
    by (rule preserves_catch_rethrow) (auto intro: assms)
  ultimately show ?thesis
    by (cases c)
      (auto simp: referral_trigger_def referral_signup_bonus_def admin_referral_link_def get_referral_code_def get_referral_history_def
        intro!: keeps_void keeps_if keeps_throw preserves_transaction assms)
qed

interpretation referral_inv: kept_invariant ref_step referral_ok
proof
  fix s c assume "referral_ok s"
  then show "referral_ok (snd (ref_step c s))"
    by (rule keeps_snd [OF keeps_ref_step, rotated -1])
      (intro preserves_handle preserves_signup preserves_link keeps_preserves keeps_create_code preserves_other_award; assumption?)+
qed

lemma preserves_referral_cab:
  "preserves cab_ok (handle_subscription_referral pg ck cfg y plan)"
  "preserves cab_ok (award_referral_signup_bonus ck cfg y)"
  "preserves cab_ok (link_manually_and_reward pg ck cfg y code)"
  "preserves cab_ok (create_code_for_user ck tok u)"
proof -
  have 1: "preserves cab_ok (insert_gift_card_order ck v b d st ref)" for ck v b d st ref
    by (rule preservesI) (auto dest: insert_order_Inr)
  have 2: "preserves cab_ok (mark_rewarded ck i plan)" for ck i plan
    by (rule preservesI) (auto dest: mark_rewarded_Inr)
  have 3: "preserves cab_ok (create_use ck i u)" for i u
    by (rule preservesI) (auto dest: create_use_Inr)
  have 4: "preserves cab_ok (enqueue_delayed_gift_card ck cfg x use)" for ck cfg x use
    unfolding enqueue_delayed_gift_card_def
    by (auto intro!: preserves_bnd 1 keeps_preserves [OF keeps_modify] split: option.splits ref_text.splits)
  have 5: "preserves cab_ok (reward_referrer pg ck cfg n x use)" for pg ck cfg n x use unfolding reward_referrer_def
    by (intro preserves_seq preserves_if preserves_award_cab preserves_ret keeps_preserves [OF keeps_void] keeps_award_xp_cab
        keeps_preserves [OF keeps_maybe_increment_cab] 4)
  have 6: "preserves cab_ok (handle_subscription_referral pg ck cfg y plan)" for pg ck cfg y plan
    unfolding handle_subscription_referral_def
    by (intro preserves_intro 2 5 keeps_preserves [OF keeps_achievement_hook_cab])
  then show "preserves cab_ok (handle_subscription_referral pg ck cfg y plan)" .
  show "preserves cab_ok (award_referral_signup_bonus ck cfg y)"
    unfolding award_referral_signup_bonus_def Let_def by (intro preserves_intro)
  show "preserves cab_ok (link_manually_and_reward pg ck cfg y code)"
    unfolding link_manually_and_reward_def settle_link_def by (intro preserves_intro 3 6)
  have "keeps cab_ok (create_code_loop ck tok u n tries)" for n tries
  proof (induction tries arbitrary: n)
    case (Suc tries)
    have "preserves cab_ok (insert_referral_code ck u code)" for code
      by (rule preservesI) (auto dest: insert_referral_code_Inr)
    with Suc show ?case by (auto intro!: keeps_catch keeps_if keeps_throw preserves_transaction)
  qed simp
  then show "preserves cab_ok (create_code_for_user ck tok u)"
    unfolding create_code_for_user_def by (rule keeps_preserves)
qed

lemma keeps_ref_step_cab: "keeps cab_ok (ref_step c)"
  by (rule keeps_ref_step) (intro preserves_referral_cab preserves_award_cab)+

text \<open>
  C24 (invariant). In every sequence of subscription webhooks, sign-up bonuses, support links and code
  requests, each link pays its referrer at most once, and only after it was marked rewarded, and its
  referred user at most once; nobody is linked to themselves.
\<close>

theorem referral_paid_once:
  assumes "referral_ok s" and "exec_all ref_step cmds s = (rs, t)" and "r \<in> set (referral_uses t)"
  shows "(\<forall>x. referrer_of t r = Some x \<longrightarrow> ru_referred_user_id r \<noteq> Some x
        \<and> referral_credits x (ru_id r) t \<le> (if ru_rewarded_at r = None then 0 else 1))
     \<and> (\<forall>y. ru_referred_user_id r = Some y \<longrightarrow> referral_credits y (ru_id r) t \<le> 1)"
  using referral_inv.exec_all_keeps [OF assms(1,2)] assms(3) by (auto simp: referral_ok_def link_ok_def)


definition referral_demo :: db where
  "referral_demo = (cab_demo 80)\<lparr> next_uuid := 10, user_cab_balance := [7 \<mapsto> 80, 8 \<mapsto> 0],
     referral_codes := [\<lparr> rc_id = 2, rc_user_id = Some 7, rc_code = ''AB12CD34'', rc_type = ''user'', rc_created_at = 0 \<rparr>],
     referral_uses := [\<lparr> ru_id = 3, ru_referral_id = 2, ru_referred_user_id = Some 8, ru_plan = None, ru_rewarded_at = None,
        ru_created_at = 0 \<rparr>] \<rparr>"

definition referral_demo_cfg :: referral_settings where
  "referral_demo_cfg = \<lparr> cab_referral_monthly = Some 300, cab_referral_annual = Some 600, cab_referral_signup_bonus = Some 150,
     xp_per_referral = 0, ref_level_base = 100, ref_gift_card_brand_id = None, ref_gift_card_amount_cents = 500,
     eligibility_delay_days = 30 \<rparr>"

lemma referral_demo_ok: "referral_ok referral_demo"
  by (auto simp: referral_ok_def referral_ids_ok_def link_ok_def referral_credits_def count_where_def referrer_of_def
      referral_demo_def cab_demo_def)

theorem referral_paid_once_witness:
  "list_all (\<lambda>r. if ru_referred_user_id r = Some 8
       then referral_credits 8 (ru_id r) (snd (exec_all ref_step [RefBonus demo_clock referral_demo_cfg 8,
              RefBonus demo_clock referral_demo_cfg 8] referral_demo)) \<le> 1 else True)
     (referral_uses (snd (exec_all ref_step [RefBonus demo_clock referral_demo_cfg 8, RefBonus demo_clock referral_demo_cfg 8]
       referral_demo)))"
  using referral_paid_once [OF referral_demo_ok prod.collapse [symmetric]]
  unfolding list_all_iff if_bool_eq_conj by blast


section \<open>A repeated trigger pays nothing\<close>

definition referral_tables :: "db \<Rightarrow> referral_code_row list \<times> referral_use_row list" where
  "referral_tables s = (referral_codes s, referral_uses s)"

interpretation tables_frame: cab_frame "\<lambda>s. referral_tables s = c" for c
  by unfold_locales (simp_all add: referral_tables_def)

lemma keeps_tables_hook: "keeps (\<lambda>s. referral_tables s = c) (achievement_hook ck u e)"
  by (rule keeps_achievement_hook)
    (auto simp: unlock_def referral_tables_def intro!: preserves_bnd preserves_seq preserves_if keeps_preserves [OF keeps_modify]
      keeps_preserves [OF tables_frame.keeps_award [unfolded referral_tables_def]])

lemma reward_referrer_tables:
  assumes "reward_referrer pg ck cfg n x use s = (Inr z, t)"
  shows "referral_tables t = referral_tables s"
proof -
  have 1: "keeps (\<lambda>s. referral_tables s = c) (award_xp pg ck x k reason rid rt base ap cm)" for c k reason rid rt base ap cm
    by (rule keeps_award_xp) (simp_all add: referral_tables_def)
  have 2: "keeps (\<lambda>s. referral_tables s = c) (maybe_increment_challenge ck x a cx)" for c a cx
    by (rule keeps_maybe_increment) (simp_all add: referral_tables_def)
  have orders: "referral_tables (s\<lparr> gift_card_orders := w \<rparr>) = referral_tables s" for s w by (simp add: referral_tables_def)
  have 0: "preserves (\<lambda>s. referral_tables s = c) (insert_gift_card_order ck u b d st ref)" for c u b d st ref
    by (rule preservesI) (auto simp: referral_tables_def dest!: insert_order_Inr)
  have 3: "preserves (\<lambda>s. referral_tables s = c) (enqueue_delayed_gift_card ck cfg x use)" for c
    unfolding enqueue_delayed_gift_card_def
    by (auto intro!: preserves_bnd 0 keeps_preserves [OF keeps_modify] split: option.splits ref_text.splits simp: orders)
  have "preserves (\<lambda>s. referral_tables s = c) (reward_referrer pg ck cfg n x use)" for c
    unfolding reward_referrer_def
    by (intro preserves_seq preserves_if preserves_ret keeps_preserves [OF tables_frame.keeps_award] keeps_preserves [OF keeps_void]
        keeps_preserves [OF 2] 1 3)
  from preservesD [OF this refl assms] show ?thesis .
qed

lemma handle_Some:
  assumes ok: "referral_ok s" and run: "handle_subscription_referral pg ck cfg y plan s = (Inr (Some x), t)"
  obtains r where "find_use_of y s = Some r" "referrer_of s r = Some x" "ru_rewarded_at r = None"
    "referral_codes t = referral_codes s"
    "referral_uses t = update_where (\<lambda>q. ru_id q = ru_id r) (marked_use ck plan) (referral_uses s)"
proof -
  from run obtain l n s1 a s5 b where l: "get_for_referred_user y s = Some l" "rl_referrer_user_id l = x"
    and mark: "mark_rewarded ck (rl_referral_use_id l) plan s = (Inr True, s1)"
    and rew: "reward_referrer pg ck cfg n (rl_referrer_user_id l) (rl_referral_use_id l) s1 = (Inr a, s5)"
    and hook: "achievement_hook ck (rl_referrer_user_id l) ''referral_paid'' s5 = (Inr b, t)"
    by (auto simp: handle_subscription_referral_def bnd_Inr_iff seq_Inr_iff split: option.splits if_splits)
  have "referral_tables t = referral_tables s1"
    using keepsD [OF keeps_tables_hook refl hook] reward_referrer_tables [OF rew] by simp
  moreover from mark_found [OF ok l(1) mark] obtain r where "find_use_of y s = Some r" "referrer_of s r = Some (rl_referrer_user_id l)"
      "ru_rewarded_at r = None"
      "s1 = s\<lparr> referral_uses := update_where (\<lambda>q. ru_id q = ru_id r) (marked_use ck plan) (referral_uses s) \<rparr>" by metis
  ultimately show ?thesis using that l(2) by (auto simp: referral_tables_def)
qed

text \<open>
  A subscription event that rewards the referrer found an unrewarded link to them, and
  repeating the event, with whatever plan and settings, returns without any effect.
\<close>

theorem referral_trigger_idempotent:
  assumes "referral_ok s" and "handle_subscription_referral pg ck cfg y plan s = (Inr (Some x), t)"
    and "cab_referral cfg' plan' \<noteq> None"
  shows "(\<exists>r. find_use_of y s = Some r \<and> referrer_of s r = Some x \<and> ru_rewarded_at r = None)
    \<and> handle_subscription_referral pg' ck' cfg' y plan' t = (Inr None, t)"
proof -
  from assms(1,2) obtain r where r: "find_use_of y s = Some r" "referrer_of s r = Some x" "ru_rewarded_at r = None"
    and t: "referral_codes t = referral_codes s"
      "referral_uses t = update_where (\<lambda>q. ru_id q = ru_id r) (marked_use ck plan) (referral_uses s)"
    by (rule handle_Some)
  have mem: "r \<in> set (referral_uses s)" using find_use_of_Some [OF r(1)] by simp
  have dist: "distinct (map ru_id (referral_uses s))" using assms(1) by (simp add: referral_ok_def referral_ids_ok_def)
  have use: "find_use_of y t = Some (marked_use ck plan r)"
    using r(1) unfolding find_use_of_def t(2)
    by (subst find_update_where_any) (simp_all add: marked_use_def)
  have "List.find (\<lambda>q. ru_id q = ru_id r) (referral_uses t) = Some (marked_use ck plan r)"
    using find_distinct_key [OF dist mem] by (simp add: t(2) find_update_where_key marked_use_def)
  moreover have "referrer_of t (marked_use ck plan r) = Some x" using r(2) by (simp add: referrer_of_def t(1) marked_use_def)
  ultimately have "handle_subscription_referral pg' ck' cfg' y plan' t = (Inr None, t)"
    using use assms(3)
    by (auto simp: handle_subscription_referral_def get_for_referred_user_def mark_rewarded_def marked_use_def bnd_def)
  with r show ?thesis by blast
qed


lemma referral_demo_run:
  "\<exists>t. handle_subscription_referral (\<lambda>_ _. Some 1) demo_clock referral_demo_cfg 8 ''monthly'' referral_demo = (Inr (Some 7), t)"
proof -
  let ?s = "referral_demo\<lparr> referral_uses := update_where (\<lambda>q. ru_id q = 3) (\<lambda>r. r\<lparr> ru_plan := Some ''monthly'',
      ru_rewarded_at := Some (now demo_clock) \<rparr>) (referral_uses referral_demo) \<rparr>"
  have mark: "mark_rewarded demo_clock 3 ''monthly'' referral_demo = (Inr True, ?s)"
    by (simp add: mark_rewarded_def referral_demo_def)
  have "awardable demo_clock 7 ''referral'' (Some 3) (Some ''referral'') True None 300 ?s"
    by (auto simp: awardable_def cab_insertable_def cab_row_ok_def award_row_def fits_int4_def CAB_REASONS_def
        cab_reference_types_def referral_demo_def cab_demo_def active_season_id_def)
  then obtain s2 where award: "award_cab demo_clock 7 300 ''referral'' (Some 3) (Some ''referral'') False None True None ?s = (Inr (), s2)"
    and same: "community_challenges s2 = []"
    by (auto simp: award_cab_Inr award_state_def) (simp add: referral_demo_def cab_demo_def)
  have "maybe_increment_challenge demo_clock 7 ''referral'' None s2 = (Inr (), s2)"
    using same by (simp add: maybe_increment_challenge_def milestones_at_def)
  then have "reward_referrer (\<lambda>_ _. Some 1) demo_clock referral_demo_cfg 300 7 3 ?s = (Inr (), s2)"
    by (simp add: reward_referrer_def referral_demo_cfg_def enqueue_delayed_gift_card_def
        seq_run_Inr [of "award_cab demo_clock 7 300 ''referral'' (Some 3) (Some ''referral'') False None True None" ?s, OF award]
        seq_run_Inr [of "maybe_increment_challenge demo_clock 7 ''referral'' None" s2])
  moreover obtain w where "achievement_hook demo_clock 7 ''referral_paid'' s2 = (Inr (), w)" using achievement_hook_total by blast
  moreover have "get_for_referred_user 8 referral_demo = Some \<lparr> rl_referral_use_id = 3, rl_referrer_user_id = 7, rl_referred_user_id = 8,
      rl_plan = None, rl_rewarded_at = None \<rparr>"
    by (simp add: get_for_referred_user_def find_use_of_def referrer_of_def referral_demo_def)
  moreover have "cab_referral referral_demo_cfg ''monthly'' = Some 300" by (simp add: cab_referral_def referral_demo_cfg_def)
  ultimately show ?thesis using mark by (simp add: handle_subscription_referral_def bnd_Inr_iff seq_Inr_iff) blast
qed

theorem referral_trigger_idempotent_witness:
  "\<exists>t. handle_subscription_referral (\<lambda>_ _. Some 1) demo_clock referral_demo_cfg 8 ''monthly'' referral_demo = (Inr (Some 7), t)
     \<and> handle_subscription_referral (\<lambda>_ _. Some 1) demo_clock referral_demo_cfg 8 ''annual'' t = (Inr None, t)"
proof -
  obtain t where run: "handle_subscription_referral (\<lambda>_ _. Some 1) demo_clock referral_demo_cfg 8 ''monthly'' referral_demo = (Inr (Some 7), t)"
    using referral_demo_run by blast
  with referral_trigger_idempotent [OF referral_demo_ok run, of referral_demo_cfg "''annual''"] show ?thesis
    by (auto simp: cab_referral_def referral_demo_cfg_def)
qed

end
