(* ===== verification/Ratis_Reconciliation.thy ===== *)
theory Ratis_Reconciliation
  imports Ratis_Boutique Ratis_Cashback Ratis_Referral
begin

text \<open>
  The nightly reconciliation (\<open>batch/ratis_batch_reconciliation\<close>) and the referral payout
  (\<open>batch/ratis_batch_referral_payout\<close>): missing scan credits, stuck, deferred and processing gift
  card orders, expired and missing cashback, and the two integrity checks. A batch commits row by
  row, so a row is a transaction of its own. The theory also has the life of the order table as a step
  relation over everything that touches it, with the invariants of all reachable states.
\<close>

section \<open>Calls to the rewards service\<close>

text \<open>
  \<open>notify_rewards_to_issue\<close> posts to the internal route, whose background task then issues the order. The
  environment says whether the two settings are present and whether the request is answered.
\<close>

record rewards_http =
  rh_configured :: bool
  rh_answers :: "uuid \<Rightarrow> bool"
  rh_runa :: runa_env
  rh_cap_annual :: int

definition notify_rewards_to_issue :: "rewards_http \<Rightarrow> clock \<Rightarrow> uuid \<Rightarrow> bool db_op" where
  "notify_rewards_to_issue http ck i =
     (if \<not> rh_configured http then ret False
      else if \<not> rh_answers http i then ret False
      else catch (seq (issue_existing_order i)
                 (seq (issue_gift_card_bg (rh_runa http) (rh_cap_annual http) ck i) (ret True)))
             (\<lambda>_. ret False))"

text \<open>The loop both jobs share: one failure never stops the rest.\<close>

definition trigger_all :: "rewards_http \<Rightarrow> clock \<Rightarrow> bool \<Rightarrow> uuid list \<Rightarrow> nat db_op" where
  "trigger_all http ck dry_run ids =
     (if dry_run \<or> ids = [] then ret (length ids)
      else for_each (\<lambda>i n. bnd (notify_rewards_to_issue http ck i) (\<lambda>ok. ret (if ok then n + 1 else n))) ids 0)"

definition reconcile_deferred_gift_card_orders :: "rewards_http \<Rightarrow> clock \<Rightarrow> bool \<Rightarrow> nat db_op" where
  "reconcile_deferred_gift_card_orders http ck dry_run =
     bnd (reads (\<lambda>s. map go_id (sort_key (\<lambda>r. the (go_eligible_at r)) (filter (\<lambda>r. go_status r = ''pending''
        \<and> go_source_type r \<noteq> ''referral_reward''
        \<and> (case go_eligible_at r of None \<Rightarrow> False | Some e \<Rightarrow> e \<le> now ck)) (gift_card_orders s)))))
     (trigger_all http ck dry_run)"

definition reconcile_processing_gift_card_orders :: "rewards_http \<Rightarrow> clock \<Rightarrow> bool \<Rightarrow> nat db_op" where
  "reconcile_processing_gift_card_orders http ck dry_run =
     bnd (reads (\<lambda>s. map go_id (sort_key go_created_at (filter (\<lambda>r. go_status r = ''pending''
        \<and> go_source_type r \<noteq> ''shop_purchase'' \<and> go_eligible_at r = None \<and> go_created_at r < now ck - hour_us) (gift_card_orders s)))))
     (trigger_all http ck dry_run)"


section \<open>Stuck boutique orders\<close>

definition release_cap_sql :: "uuid \<Rightarrow> uuid \<Rightarrow> unit db_op" where
  "release_cap_sql i u = bnd (reads (find_order i)) (\<lambda>cap_row. case cap_row of
       None \<Rightarrow> ret ()
     | Some r \<Rightarrow>
         if go_cap_reserved_cents r = 0 then ret ()
         else seq (update_ytd u (\<lambda>v. max 0 (v - go_cap_reserved_cents r)))
           (modify (update_order i (\<lambda>r. r\<lparr> go_cap_reserved_cents := 0 \<rparr>))))"

definition refund_debit_sql :: "clock \<Rightarrow> cab_tx \<Rightarrow> unit db_op" where
  "refund_debit_sql ck x = bnd (update_cab_plus (ct_user_id x) (ct_amount x)) (\<lambda>rows.
     if rows = 0 then throw RuntimeError
     else bnd fresh_uuid (\<lambda>i. insert_cab_tx (award_row ck i (ct_user_id x) (ct_amount x) ''gift_card_refund'' None None)))"

definition reconcile_one_order :: "clock \<Rightarrow> uuid \<Rightarrow> uuid \<Rightarrow> ref_text \<Rightarrow> unit db_op" where
  "reconcile_one_order ck i u source_ref = bnd (update_order_failed ck i) (\<lambda>updated.
     if \<not> updated then ret ()
     else case source_ref of
         OtherText _ \<Rightarrow> ret ()
       | UuidText tid \<Rightarrow>
           bnd (reads (\<lambda>s. List.find (\<lambda>x. ct_id x = tid \<and> ct_direction x = ''debit'') (cabecoin_transactions s))) (\<lambda>row.
             case row of
               None \<Rightarrow> ret ()
             | Some x \<Rightarrow> seq (refund_debit_sql ck x) (release_cap_sql i u)))"

definition reconcile_pending_gift_card_orders :: "clock \<Rightarrow> bool \<Rightarrow> nat db_op" where
  "reconcile_pending_gift_card_orders ck dry_run =
     bnd (reads (\<lambda>s. sort_key go_created_at (filter (\<lambda>r. go_status r = ''pending'' \<and> go_source_type r = ''shop_purchase''
        \<and> go_created_at r < now ck - day_us) (gift_card_orders s)))) (\<lambda>rows.
     if dry_run \<or> rows = [] then ret (length rows)
     else for_each (\<lambda>r n. catch
            (seq (db_transaction (reconcile_one_order ck (go_id r) (go_user_id r) (go_source_ref_id r))) (ret (n + 1)))
            (\<lambda>_. ret n)) rows 0)"


section \<open>Missing scan credits\<close>

record scan_cfg =
  cab_per_receipt_scan :: "int option"
  cab_per_label_scan :: "int option"
  cab_per_barcode_scan :: "int option"

definition SCAN_TYPE_MAP :: "scan_cfg \<Rightarrow> string \<Rightarrow> string \<times> int option" where
  "SCAN_TYPE_MAP cfg ty =
     (if ty = ''receipt'' then (''receipt_scan'', cab_per_receipt_scan cfg)
      else if ty = ''electronic_label'' then (''label_scan'', cab_per_label_scan cfg)
      else (''barcode_scan'', cab_per_barcode_scan cfg))"

definition scan_row_credit :: "clock \<Rightarrow> uuid \<Rightarrow> uuid \<Rightarrow> uuid \<Rightarrow> int \<Rightarrow> string \<Rightarrow> cab_tx" where
  "scan_row_credit ck i sid u amount reason = award_row ck i u amount reason (Some sid) (Some ''scan'')"

text \<open>\<^verbatim>\<open>ON CONFLICT ... DO NOTHING RETURNING id\<close> against the partial index on scan credits.\<close>

definition credit_scan :: "clock \<Rightarrow> uuid \<Rightarrow> uuid \<Rightarrow> int \<Rightarrow> string \<Rightarrow> bool db_op" where
  "credit_scan ck sid u amount reason = bnd fresh_uuid (\<lambda>i. seq (int4 amount)
     (bnd (reads (\<lambda>s. credit_ref_taken ''scan'' (Some sid) (cabecoin_transactions s))) (\<lambda>conflict.
       if conflict then ret False
       else seq (insert_cab_tx (scan_row_credit ck i sid u amount reason))
         (bnd (update_cab_plus u amount) (\<lambda>rows.
           if rows = 0 then throw RuntimeError else ret True)))))"

definition missing_scan_rows :: "clock \<Rightarrow> db \<Rightarrow> scan_row list" where
  "missing_scan_rows ck s = sort_key sc_status_updated_at (filter (\<lambda>r. sc_status r = ''accepted''
     \<and> sc_scan_type r \<in> {''receipt'', ''electronic_label'', ''manual''}
     \<and> \<not> credit_ref_taken ''scan'' (Some (sc_id r)) (cabecoin_transactions s)
     \<and> sc_status_updated_at r < now ck - 600 * second_us) (scans s))"

definition credit_missing :: "scan_cfg \<Rightarrow> clock \<Rightarrow> scan_row \<Rightarrow> unit db_op" where
  "credit_missing cfg ck r = (case SCAN_TYPE_MAP cfg (sc_scan_type r) of (reason, setting) \<Rightarrow>
     let amount = (case setting of None \<Rightarrow> 0 | Some n \<Rightarrow> n) in
     if amount \<le> 0 then ret ()
     else catch (void (db_transaction (credit_scan ck (sc_id r) (sc_user_id r) amount reason))) (\<lambda>_. ret ()))"

definition reconcile_missing_scan_rewards :: "scan_cfg \<Rightarrow> clock \<Rightarrow> bool \<Rightarrow> nat db_op" where
  "reconcile_missing_scan_rewards cfg ck dry_run =
     (if cab_per_receipt_scan cfg = None \<or> cab_per_label_scan cfg = None \<or> cab_per_barcode_scan cfg = None then ret 0
      else bnd (reads (missing_scan_rows ck)) (\<lambda>rows.
        if dry_run \<or> rows = [] then ret (length rows)
        else seq (for_each (\<lambda>r _. credit_missing cfg ck r) rows ()) (ret (length rows))))"


section \<open>Cashback jobs\<close>

definition EXPIRY_DAYS :: int where
  "EXPIRY_DAYS = 90"

definition reconcile_expired_cashbacks :: "clock \<Rightarrow> bool \<Rightarrow> nat db_op" where
  "reconcile_expired_cashbacks ck dry_run =
     bnd (reads (\<lambda>s. filter (\<lambda>r. cb_type r = ''CREDIT'' \<and> cb_status r = ''pending''
        \<and> cb_created_at r < now ck - EXPIRY_DAYS * day_us) (cashback_transactions s))) (\<lambda>rows.
     if dry_run \<or> rows = [] then ret (length rows)
     else seq (for_each (\<lambda>r _. modify (\<lambda>s. s\<lparr> cashback_transactions :=
            update_where (\<lambda>x. cb_id x = cb_id r \<and> cb_status x = ''pending'') (\<lambda>x. x\<lparr> cb_status := ''refused'' \<rparr>)
              (cashback_transactions s) \<rparr>)) rows ())
       (ret (length rows)))"

definition offer_active :: "clock \<Rightarrow> offer_row \<Rightarrow> bool" where
  "offer_active ck o' \<longleftrightarrow> of_valid_from o' \<le> now ck \<and> (case of_valid_until o' of None \<Rightarrow> True | Some e \<Rightarrow> now ck < e)"

text \<open>The join of accepted receipt scans without a credit and the offers active now.\<close>

definition missing_cashback_rows :: "clock \<Rightarrow> db \<Rightarrow> (scan_row \<times> offer_row) list" where
  "missing_cashback_rows ck s = concat (map (\<lambda>r. map (\<lambda>f. (r, f))
       (filter (\<lambda>f. sc_product_ean r = Some (of_product_ean f) \<and> offer_active ck f) (affiliate_offers s)))
     (sort_key sc_status_updated_at (filter (\<lambda>r. sc_scan_type r = ''receipt'' \<and> sc_status r = ''accepted''
        \<and> sc_product_ean r \<noteq> None \<and> sc_status_updated_at r < now ck - 600 * second_us
        \<and> \<not> credit_exists (Some (sc_id r)) (sc_product_ean r) (cashback_transactions s)) (scans s))))"

definition insert_missing_cashback :: "clock \<Rightarrow> scan_row \<times> offer_row \<Rightarrow> nat \<Rightarrow> nat db_op" where
  "insert_missing_cashback ck p n = (case p of (r, f) \<Rightarrow>
     let amount = cashback_amount (of_cashback_rate f) (sc_price r) in
     if amount \<le> 0 then ret n
     else catch (seq (db_transaction (seq (int4 amount)
           (bnd (reads (\<lambda>s. credit_exists (Some (sc_id r)) (Some (of_product_ean f)) (cashback_transactions s))) (\<lambda>conflict.
             if conflict then void fresh_uuid
             else void (insert_cashback_credit ck (sc_user_id r) (of_id f) (of_product_ean f) amount (sc_id r) None)))))
         (ret (n + 1))) (\<lambda>_. ret n))"

definition reconcile_missing_cashback_scans :: "clock \<Rightarrow> bool \<Rightarrow> nat db_op" where
  "reconcile_missing_cashback_scans ck dry_run = bnd (reads (missing_cashback_rows ck)) (\<lambda>rows.
     if dry_run \<or> rows = [] then ret (length rows)
     else for_each (insert_missing_cashback ck) rows 0)"

definition reconcile_pending_withdrawals :: "clock \<Rightarrow> nat db_op" where
  "reconcile_pending_withdrawals ck = reads (\<lambda>s. count_where (\<lambda>r. wd_status r = ''pending''
     \<and> wd_requested_at r < now ck - day_us) (cashback_withdrawals s))"


section \<open>Integrity checks\<close>

record drift =
  dr_user_id :: uuid
  dr_stored_balance :: int
  dr_computed_balance :: int
  dr_drift :: int

text \<open>The query groups the balance rows, here those of the listed users, with the transactions of their user.\<close>

definition drift_of :: "(uuid \<rightharpoonup> int) \<Rightarrow> (uuid \<Rightarrow> int) \<Rightarrow> uuid \<Rightarrow> drift option" where
  "drift_of stored computed u = (case stored u of
       None \<Rightarrow> None
     | Some b \<Rightarrow> if b = computed u then None
         else Some \<lparr> dr_user_id = u, dr_stored_balance = b, dr_computed_balance = computed u, dr_drift = b - computed u \<rparr>)"

definition computed_cab :: "db \<Rightarrow> uuid \<Rightarrow> int" where
  "computed_cab s u = sum_where (\<lambda>t. ct_user_id t = u)
     (\<lambda>t. if ct_direction t = ''credit'' then ct_amount t else - ct_amount t) (cabecoin_transactions s)"

definition check_cab_balance_integrity :: "uuid list \<Rightarrow> drift list db_op" where
  "check_cab_balance_integrity us = reads (\<lambda>s. List.map_filter (drift_of (user_cab_balance s) (computed_cab s)) us)"

definition computed_cashback :: "db \<Rightarrow> uuid \<Rightarrow> int" where
  "computed_cashback s u = sum_where (\<lambda>t. cb_user_id t = u)
     (\<lambda>t. if (cb_type t = ''CREDIT'' \<or> cb_type t = ''BOOST'') \<and> cb_distributed_at t \<noteq> None then cb_amount t
          else if cb_type t = ''WITHDRAWAL'' then - cb_amount t else 0) (cashback_transactions s)"

definition check_cashback_balance_integrity :: "uuid list \<Rightarrow> drift list db_op" where
  "check_cashback_balance_integrity us =
     reads (\<lambda>s. List.map_filter (drift_of (user_cashback_balance s) (computed_cashback s)) us)"


section \<open>The nightly run\<close>

definition attempt :: "string \<Rightarrow> nat db_op \<Rightarrow> (string \<times> nat option) list \<Rightarrow> (string \<times> nat option) list db_op" where
  "attempt name m results = catch (bnd m (\<lambda>n. ret (results @ [(name, Some n)]))) (\<lambda>_. ret (results @ [(name, None)]))"

text \<open>The jobs in their order; the exit code is 1 when one of them ended in an error.\<close>

definition reconciliation_main ::
  "scan_cfg \<Rightarrow> rewards_http \<Rightarrow> clock \<Rightarrow> uuid list \<Rightarrow> bool \<Rightarrow> ((string \<times> nat option) list \<times> nat) db_op" where
  "reconciliation_main cfg http ck us dry_run =
     bnd (attempt ''missing_scan_rewards'' (reconcile_missing_scan_rewards cfg ck dry_run) []) (\<lambda>r.
     bnd (attempt ''cab_integrity_drifts'' (bnd (check_cab_balance_integrity us) (\<lambda>ds. ret (length ds))) r) (\<lambda>r.
     bnd (attempt ''pending_gift_card_orders'' (reconcile_pending_gift_card_orders ck dry_run) r) (\<lambda>r.
     bnd (attempt ''deferred_gift_card_orders'' (reconcile_deferred_gift_card_orders http ck dry_run) r) (\<lambda>r.
     bnd (attempt ''processing_gift_card_orders'' (reconcile_processing_gift_card_orders http ck dry_run) r) (\<lambda>r.
     bnd (attempt ''expired_cashbacks'' (reconcile_expired_cashbacks ck dry_run) r) (\<lambda>r.
     bnd (attempt ''missing_cashback_scans'' (reconcile_missing_cashback_scans ck dry_run) r) (\<lambda>r.
     bnd (attempt ''pending_withdrawals'' (reconcile_pending_withdrawals ck) r) (\<lambda>r.
     bnd (attempt ''cashback_integrity_drifts'' (bnd (check_cashback_balance_integrity us) (\<lambda>ds. ret (length ds))) r) (\<lambda>r.
     ret (r, if list_ex (\<lambda>p. snd p = None) r then 1 else 0))))))))))"


section \<open>The referral payout\<close>

record eligible_order =
  eo_order_id :: uuid
  eo_referrer_user_id :: uuid
  eo_referral_use_id :: uuid
  eo_referred_user_id :: "uuid option"

definition fetch_eligible_orders :: "clock \<Rightarrow> db \<Rightarrow> eligible_order list" where
  "fetch_eligible_orders ck s = concat (map (\<lambda>r. map (\<lambda>q.
       \<lparr> eo_order_id = go_id r, eo_referrer_user_id = go_user_id r, eo_referral_use_id = ru_id q,
         eo_referred_user_id = ru_referred_user_id q \<rparr>)
       (filter (\<lambda>q. go_source_ref_id r = UuidText (ru_id q)) (referral_uses s)))
     (sort_key go_created_at (filter (\<lambda>r. go_source_type r = ''referral_reward'' \<and> go_status r = ''pending''
        \<and> (case go_eligible_at r of None \<Rightarrow> False | Some e \<Rightarrow> e \<le> now ck)) (gift_card_orders s))))"

text \<open>A link without a referred user makes the comparison with the text \<open>None\<close> fail.\<close>

definition is_still_subscribed :: "uuid option \<Rightarrow> bool db_op" where
  "is_still_subscribed referred = (case referred of
       None \<Rightarrow> throw DataError
     | Some y \<Rightarrow> reads (\<lambda>s. get_active_plan y s \<noteq> None))"

definition churned_order :: "clock \<Rightarrow> order_row \<Rightarrow> order_row" where
  "churned_order ck r = r\<lparr> go_status := ''churned'', go_failed_at := Some (now ck) \<rparr>"

definition mark_churned :: "clock \<Rightarrow> uuid \<Rightarrow> unit db_op" where
  "mark_churned ck i = void (update_pending i (churned_order ck))"

record payout_stats =
  ps_candidates :: nat
  ps_issued :: nat
  ps_churned :: nat
  ps_errors :: nat

text \<open>
  The updates of churned orders stay in the batch's own transaction until its commit at the end, while
  every notification is served, and committed, by the rewards service at once.
\<close>

definition payout_order ::
  "rewards_http \<Rightarrow> clock \<Rightarrow> bool \<Rightarrow> eligible_order \<Rightarrow> payout_stats \<times> uuid list \<Rightarrow> (payout_stats \<times> uuid list) db_op" where
  "payout_order http ck dry_run e acc = (case acc of (st, churned) \<Rightarrow>
     bnd (is_still_subscribed (eo_referred_user_id e)) (\<lambda>still.
       if \<not> still then ret (st\<lparr> ps_churned := ps_churned st + 1 \<rparr>, churned @ [eo_order_id e])
       else if dry_run then ret (st\<lparr> ps_issued := ps_issued st + 1 \<rparr>, churned)
       else bnd (notify_rewards_to_issue http ck (eo_order_id e)) (\<lambda>ok.
         ret (if ok then st\<lparr> ps_issued := ps_issued st + 1 \<rparr> else st\<lparr> ps_errors := ps_errors st + 1 \<rparr>, churned))))"

definition payout_run :: "rewards_http \<Rightarrow> clock \<Rightarrow> bool \<Rightarrow> payout_stats db_op" where
  "payout_run http ck dry_run = bnd (reads (fetch_eligible_orders ck)) (\<lambda>orders.
     bnd (for_each (payout_order http ck dry_run) orders
       (\<lparr> ps_candidates = length orders, ps_issued = 0, ps_churned = 0, ps_errors = 0 \<rparr>, [])) (\<lambda>(st, churned).
     seq (if dry_run then ret () else for_each (\<lambda>i _. mark_churned ck i) churned ()) (ret st)))"


section \<open>The cap and the order table under every job\<close>

text \<open>
  The orders that left \<open>pending\<close> are as they were. The one column that the code may still write is the
  eligibility date: \<open>_enqueue_delayed_gift_card\<close> sets it, whatever the status, where it is missing.
\<close>

definition settled :: "order_row set \<Rightarrow> db \<Rightarrow> bool" where
  "settled F s \<longleftrightarrow> (\<forall>r \<in> F. go_status r \<noteq> ''pending''
     \<and> (\<exists>e. find_order (go_id r) s = Some (r\<lparr> go_eligible_at := e \<rparr>)))"

definition cards_ok :: "int \<Rightarrow> order_row set \<Rightarrow> db \<Rightarrow> bool" where
  "cards_ok cap F s \<longleftrightarrow> gift_ok cap s \<and> settled F s"

lemma cards_ok_settled:
  assumes "cards_ok cap F s" and "q \<in> F"
  obtains e where "go_status q \<noteq> ''pending''" "find_order (go_id q) s = Some (q\<lparr> go_eligible_at := e \<rparr>)"
  using assms unfolding cards_ok_def settled_def by blast

definition order_owners :: "db \<Rightarrow> (uuid \<times> uuid) list" where
  "order_owners s = map (\<lambda>r. (go_id r, go_user_id r)) (gift_card_orders s)"

lemma cards_ok_same:
  "gift_card_orders t = gift_card_orders s \<Longrightarrow> users t = users s \<Longrightarrow> cards_ok cap F t = cards_ok cap F s"
  by (simp add: cards_ok_def settled_def find_order_def gift_ok_def reserved_total_def ytd_cents_def)

lemma keeps_cards_issue: "keeps (cards_ok cap F) (issue_gift_card_bg env cap ck i)"
proof (rule keepsI)
  fix s r t assume ok: "cards_ok cap F s" and run: "issue_gift_card_bg env cap ck i s = (r, t)"
  from ok have "gift_ok cap s" and F: "settled F s" by (simp_all add: cards_ok_def)
  from issue_gift_card_bg_ok [OF this(1), of env ck i] run have "gift_ok cap t" by simp
  moreover have "\<exists>e. find_order (go_id q) t = Some (q\<lparr> go_eligible_at := e \<rparr>)" if q: "q \<in> F" for q
  proof -
    from F q obtain e where "find_order (go_id q) s = Some (q\<lparr> go_eligible_at := e \<rparr>)" "go_status q \<noteq> ''pending''"
      by (auto simp: settled_def)
    from issue_bg_final [OF this(1), of i env cap ck] this(2) run show ?thesis by auto
  qed
  ultimately show "cards_ok cap F t" using F by (simp add: cards_ok_def settled_def)
qed

lemma keeps_cards_notify:
  "rh_cap_annual http = cap \<Longrightarrow> keeps (cards_ok cap F) (notify_rewards_to_issue http ck i)"
  unfolding notify_rewards_to_issue_def issue_existing_order_def
  by (auto intro!: keeps_if keeps_catch keeps_seq keeps_bnd keeps_case_option keeps_cards_issue split: prod.split)

lemma keeps_cards_trigger:
  "rh_cap_annual http = cap \<Longrightarrow> keeps (cards_ok cap F) (trigger_all http ck dry ids)"
  unfolding trigger_all_def by (intro keeps_intro keeps_cards_notify)

text \<open>A guarded update that does not issue keeps the cap and every settled order.\<close>

lemma keeps_cards_pending:
  assumes "\<And>r. go_id (f r) = go_id r \<and> go_user_id (f r) = go_user_id r \<and> go_denomination (f r) = go_denomination r
       \<and> go_cap_reserved_cents (f r) = go_cap_reserved_cents r \<and> go_status (f r) \<noteq> ''issued''"
  shows "keeps (cards_ok cap F) (update_pending i f)"
proof (rule keepsI)
  fix s b t assume ok: "cards_ok cap F s" and "update_pending i f s = (b, t)"
  then have t: "t = s\<lparr> gift_card_orders := update_where (\<lambda>r. go_id r = i \<and> go_status r = ''pending'') f (gift_card_orders s) \<rparr>"
    by (simp add: update_pending_run)
  have "gift_ok cap t" unfolding t using ok assms by (intro gift_ok_relabel) (auto simp: cards_ok_def)
  moreover have "\<exists>e. find_order (go_id q) t = Some (q\<lparr> go_eligible_at := e \<rparr>)" if "q \<in> F" for q
    using ok that assms unfolding t
    by (fastforce simp: cards_ok_def settled_def find_order_def find_update_where_any)
  ultimately show "cards_ok cap F t" using ok by (simp add: cards_ok_def settled_def)
qed

lemma keeps_cards_churned: "keeps (cards_ok cap F) (mark_churned ck i)"
  unfolding mark_churned_def by (intro keeps_intro keeps_cards_pending) (simp add: churned_order_def)

lemma keeps_payout_order: "rh_cap_annual http = cap \<Longrightarrow> keeps (cards_ok cap F) (payout_order http ck dry e acc)"
  unfolding payout_order_def is_still_subscribed_def
  by (cases acc) (auto intro!: keeps_intro keeps_cards_notify)

lemma keeps_cards_payout: "rh_cap_annual http = cap \<Longrightarrow> keeps (cards_ok cap F) (payout_run http ck dry)"
  unfolding payout_run_def
  by (auto intro!: keeps_intro keeps_payout_order keeps_cards_churned split: prod.split)

lemma update_failed_True:
  assumes "distinct (map go_id (gift_card_orders s))" and "update_order_failed ck i s = (Inr True, s1)"
  obtains p where "find_order i s = Some p" "go_status p = ''pending''" "find_order i s1 = Some (failed_order ck p)"
    "find_brand b s1 = find_brand b s"
proof -
  from assms(2) have one: "count_where (\<lambda>r. go_id r = i \<and> go_status r = ''pending'') (gift_card_orders s) = 1"
    and s1: "s1 = s\<lparr> gift_card_orders := update_where (\<lambda>r. go_id r = i \<and> go_status r = ''pending'') (failed_order ck) (gift_card_orders s) \<rparr>"
    by (simp_all add: update_order_failed_def update_pending_run)
  then obtain p where p: "p \<in> set (gift_card_orders s)" "go_id p = i" "go_status p = ''pending''"
    using count_where_0_iff [of "\<lambda>r. go_id r = i \<and> go_status r = ''pending''" "gift_card_orders s"] by fastforce
  from find_distinct_key [OF assms(1) p(1)] p have "find_order i s = Some p" by (simp add: find_order_def)
  with that p s1 show ?thesis by (simp add: find_order_pending failed_order_def find_brand_def)
qed

lemma release_cap_sql_eq:
  "(\<And>r. find_order i s = Some r \<Longrightarrow> go_user_id r = u) \<Longrightarrow> release_cap_sql i u s = release_gift_card_cap i s"
  by (simp add: release_cap_sql_def release_gift_card_cap_def Let_def split: option.split)

lemma refund_debit_leaves: "keeps (\<lambda>s. (gift_card_orders s, users s) = c) (refund_debit_sql ck x)"
  unfolding refund_debit_sql_def update_cab_plus_def insert_cab_tx_def Let_def
  by (intro keeps_intro keeps_modify keeps_fresh_uuid) simp_all

lemma release_owners: "release_gift_card_cap i s = (r, t) \<Longrightarrow> order_owners t = order_owners s"
  by (auto simp: release_gift_card_cap_def order_owners_def update_order_def update_ytd_def Let_def bnd_def seq_def
      map_update_where split: option.splits if_splits)

lemma owner_known:
  assumes "distinct (map go_id (gift_card_orders s))" and "(i, u) \<in> set (order_owners s)" and "find_order i s = Some r"
  shows "go_user_id r = u"
proof -
  from assms(2) obtain q where "q \<in> set (gift_card_orders s)" "go_id q = i" "go_user_id q = u" by (auto simp: order_owners_def)
  with find_distinct_key [OF assms(1), of q] assms(3) show ?thesis by (simp add: find_order_def)
qed

lemma preserves_reconcile_one:
  assumes "(i, u) \<in> set ow"
  shows "preserves (\<lambda>s. cards_ok cap F s \<and> order_owners s = ow) (reconcile_one_order ck i u ref)"
proof (rule preservesI)
  fix s x t assume K: "cards_ok cap F s \<and> order_owners s = ow" and run: "reconcile_one_order ck i u ref s = (Inr x, t)"
  obtain b s1 where b: "update_order_failed ck i s = (Inr b, s1)" by (simp add: update_order_failed_def update_pending_run)
  with run have cases: "t = s1 \<or> (\<exists>y s2. b \<and> refund_debit_sql ck y s1 = (Inr (), s2) \<and> release_cap_sql i u s2 = (Inr (), t))"
    by (auto simp: reconcile_one_order_def bnd_run_Inr [of "update_order_failed ck i" s, OF b] seq_Inr_iff
        split: if_splits ref_text.splits option.splits)
  have dist: "distinct (map go_id (gift_card_orders s))" using K by (simp add: cards_ok_def gift_ok_def)
  have own1: "order_owners s1 = ow"
    using b K by (auto simp: update_order_failed_def update_pending_run order_owners_def failed_order_def map_update_where)
  have K1: "cards_ok cap F s1"
    using keepsD [OF keeps_cards_pending _ b [unfolded update_order_failed_def]] K by (simp add: failed_order_def)
  from cases show "cards_ok cap F t \<and> order_owners t = ow"
  proof (elim disjE exE conjE)
    fix y s2 assume b and s2: "refund_debit_sql ck y s1 = (Inr (), s2)" and t: "release_cap_sql i u s2 = (Inr (), t)"
    from b \<open>b\<close> obtain p where p: "find_order i s = Some p" "go_status p = ''pending''" "find_order i s1 = Some (failed_order ck p)"
      using update_failed_True [OF dist] by (metis (full_types))
    from keepsD [OF refund_debit_leaves refl s2] have same: "gift_card_orders s2 = gift_card_orders s1" "users s2 = users s1" by simp_all
    with K1 cards_ok_same have K2: "cards_ok cap F s2" by blast
    have own2: "order_owners s2 = ow" using same own1 by (simp add: order_owners_def)
    have f2: "find_order i s2 = Some (failed_order ck p)" using p(3) same by (simp add: find_order_def)
    from K2 have "distinct (map go_id (gift_card_orders s2))" by (simp add: cards_ok_def gift_ok_def)
    from owner_known [OF this] assms own2 have rel: "release_gift_card_cap i s2 = (Inr (), t)"
      using release_cap_sql_eq [of i s2 u] t by simp
    have "gift_ok cap t" using K2 f2 by (intro release_ok [OF _ rel]) (auto simp: cards_ok_def failed_order_def)
    moreover have "\<exists>e. find_order (go_id q) t = Some (q\<lparr> go_eligible_at := e \<rparr>)" if "q \<in> F" for q
    proof -
      from K that obtain e where "go_status q \<noteq> ''pending''" "find_order (go_id q) s = Some (q\<lparr> go_eligible_at := e \<rparr>)"
        by (blast elim: cards_ok_settled)
      with p(1,2) have "go_id q \<noteq> i" by auto
      from keepsD [OF keeps_other_release [OF this] _ rel] K2 that show ?thesis by (blast elim: cards_ok_settled)
    qed
    ultimately show ?thesis using K2 release_owners [OF rel] own2 by (simp add: cards_ok_def settled_def)
  qed (simp add: K1 own1)
qed

lemma keeps_for_each_in:
  assumes "\<And>x acc. x \<in> set xs \<Longrightarrow> keeps I (f x acc)"
  shows "keeps I (for_each f xs acc)"
  using assms by (induction xs arbitrary: acc) (simp_all add: keeps_bnd)

lemma keeps_cards_reconcile: "keeps (cards_ok cap F) (reconcile_pending_gift_card_orders ck dry)"
proof (rule keepsI)
  fix s n t assume ok: "cards_ok cap F s" and run: "reconcile_pending_gift_card_orders ck dry s = (n, t)"
  let ?K = "\<lambda>w. cards_ok cap F w \<and> order_owners w = order_owners s"
  let ?rows = "sort_key go_created_at (filter (\<lambda>r. go_status r = ''pending'' \<and> go_source_type r = ''shop_purchase''
        \<and> go_created_at r < now ck - day_us) (gift_card_orders s))"
  have "keeps ?K (for_each (\<lambda>r n. catch
      (seq (db_transaction (reconcile_one_order ck (go_id r) (go_user_id r) (go_source_ref_id r))) (ret (n + 1)))
      (\<lambda>_. ret n)) ?rows k)" for k :: nat
    by (intro keeps_for_each_in keeps_catch keeps_seq preserves_transaction preserves_reconcile_one keeps_ret)
      (auto simp: order_owners_def)
  from keepsD [OF this, of s] run ok show "cards_ok cap F t"
    by (auto simp: reconcile_pending_gift_card_orders_def split: if_splits)
qed

section \<open>The life of the order table\<close>

lemma cards_insert_order:
  assumes ok: "cards_ok cap F s" and denom: "0 < denom" and run: "insert_gift_card_order ck u b denom st ref s = (Inr i, t)"
  shows "cards_ok cap F t"
proof -
  have "gift_ok cap t" using ok denom by (intro insert_order_ok [OF _ _ run]) (auto simp: cards_ok_def)
  moreover have "\<exists>e. find_order (go_id q) t = Some (q\<lparr> go_eligible_at := e \<rparr>)" if "q \<in> F" for q
    using ok that insert_order_final [OF _ run] unfolding cards_ok_def settled_def by blast
  ultimately show ?thesis using ok by (simp add: cards_ok_def settled_def)
qed

lemma cards_eligible:
  assumes "cards_ok cap F s"
  shows "cards_ok cap F (s\<lparr> gift_card_orders := update_where q (\<lambda>r. r\<lparr> go_eligible_at := e \<rparr>) (gift_card_orders s) \<rparr>)"
    (is "cards_ok cap F ?t")
proof -
  have "gift_ok cap ?t" using assms
    by (intro gift_ok_relabel) (auto simp: cards_ok_def gift_ok_def order_ok_def)
  moreover have "\<exists>e'. find_order (go_id p) ?t = Some (p\<lparr> go_eligible_at := e' \<rparr>)" if "p \<in> F" for p
  proof -
    from assms that obtain e0 where "find_order (go_id p) s = Some (p\<lparr> go_eligible_at := e0 \<rparr>)" by (rule cards_ok_settled)
    moreover have "find_order (go_id p) ?t = map_option (\<lambda>r. if q r then r\<lparr> go_eligible_at := e \<rparr> else r) (find_order (go_id p) s)"
      by (simp add: find_order_def find_update_where_any)
    ultimately show ?thesis by auto
  qed
  ultimately show ?thesis using assms by (simp add: cards_ok_def settled_def)
qed

lemma cards_enqueue:
  assumes "cards_ok cap F s" and "0 < ref_gift_card_amount_cents cfg"
    and "enqueue_delayed_gift_card ck cfg x use s = (Inr y, t)"
  shows "cards_ok cap F t"
  using assms cards_insert_order [OF assms(1,2)]
  by (auto simp: enqueue_delayed_gift_card_def bnd_Inr_iff intro: cards_eligible split: option.splits ref_text.splits)

lemma cards_shop:
  assumes ok: "cards_ok cap F s" and run: "create_boutique_order cfg ck u b denom s = (Inr x, t)"
  shows "cards_ok cap F t"
proof -
  from run have "0 < denom" "create_order cfg ck u b denom s = (Inr x, t)" by (auto simp: create_boutique_order_Inr)
  with create_order_Inr have "debit_and_order ck u b denom (cab_cost cfg denom) s = (Inr (or_order_id x), t)" by blast
  then obtain s1 y s2 where s1: "fresh_uuid s = (Inr s1, s\<lparr> next_uuid := Suc (next_uuid s) \<rparr>)"
    and s2: "debit_cab ck u (cab_cost cfg denom) ''gift_card_purchase'' None None (Some s1) (s\<lparr> next_uuid := Suc (next_uuid s) \<rparr>) = (Inr y, s2)"
    and ins: "insert_gift_card_order ck u b denom ''shop_purchase'' (UuidText s1) s2 = (Inr (or_order_id x), t)"
    by (auto simp: debit_and_order_def bnd_Inr_iff seq_Inr_iff insert_order_def)
  have "cards_ok cap F (s\<lparr> next_uuid := Suc (next_uuid s) \<rparr>)" using ok cards_ok_same [of "s\<lparr> next_uuid := Suc (next_uuid s) \<rparr>" s] by simp
  moreover have "gift_card_orders s2 = gift_card_orders s" "users s2 = users s"
    using keepsD [OF orders_frame.keeps_debit refl s2] keepsD [OF users_frame.keeps_debit refl s2] by simp_all
  ultimately have "cards_ok cap F s2" using ok cards_ok_same [of s2 s] by simp
  from cards_insert_order [OF this \<open>0 < denom\<close> ins] show ?thesis .
qed

text \<open>
  Everything the services and batches do to the orders between two yearly resets, under one annual cap: new
  orders of the four sources, issuance by a route or by a notification, the three reconciliation jobs and the
  referral payout. Everything else leaves the orders and the users' counters alone.
\<close>

inductive gift_step :: "int \<Rightarrow> db \<Rightarrow> db \<Rightarrow> bool" for cap where
  order: "0 < denom \<Longrightarrow> insert_gift_card_order ck u b denom st ref s = (Inr i, t) \<Longrightarrow> gift_step cap s t"
| referral: "0 < ref_gift_card_amount_cents cfg \<Longrightarrow> enqueue_delayed_gift_card ck cfg x use s = (Inr y, t) \<Longrightarrow> gift_step cap s t"
| shop: "create_boutique_order bcfg ck u b denom s = (Inr rec, t) \<Longrightarrow> gift_step cap s t"
| issue: "gift_step cap s (snd (issue_gift_card_bg env cap ck i s))"
| deferred: "rh_cap_annual http = cap \<Longrightarrow> gift_step cap s (snd (reconcile_deferred_gift_card_orders http ck dry s))"
| processing: "rh_cap_annual http = cap \<Longrightarrow> gift_step cap s (snd (reconcile_processing_gift_card_orders http ck dry s))"
| stuck: "gift_step cap s (snd (reconcile_pending_gift_card_orders ck dry s))"
| payout: "rh_cap_annual http = cap \<Longrightarrow> gift_step cap s (snd (payout_run http ck dry s))"
| other: "gift_card_orders t = gift_card_orders s \<Longrightarrow> users t = users s \<Longrightarrow> gift_step cap s t"

lemma keeps_cards_triggers:
  assumes "rh_cap_annual http = cap"
  shows "keeps (cards_ok cap F) (reconcile_deferred_gift_card_orders http ck dry)"
    and "keeps (cards_ok cap F) (reconcile_processing_gift_card_orders http ck dry)"
  unfolding reconcile_deferred_gift_card_orders_def reconcile_processing_gift_card_orders_def
  by (intro keeps_bnd keeps_reads keeps_cards_trigger [OF assms])+

lemmas cards_jobs = keeps_cards_issue keeps_cards_reconcile keeps_cards_payout keeps_cards_triggers

lemma gift_step_cards:
  assumes "gift_step cap s t" and "cards_ok cap F s" shows "cards_ok cap F t"
  using assms
proof (cases rule: gift_step.cases)
  case (order denom ck u b st ref i)
  with cards_insert_order [OF assms(2)] show ?thesis by blast
next
  case (referral cfg ck x use y)
  with cards_enqueue [OF assms(2)] show ?thesis by blast
next
  case (shop bcfg ck u b denom x)
  with cards_shop [OF assms(2)] show ?thesis by blast
next
  case other
  with cards_ok_same assms(2) show ?thesis by blast
qed (use assms(2) in \<open>auto intro!: keeps_snd [where I = "cards_ok c F" for c] cards_jobs\<close>)

lemma gift_reachable_cards: "(gift_step cap)\<^sup>*\<^sup>* s t \<Longrightarrow> cards_ok cap F s \<Longrightarrow> cards_ok cap F t"
  by (induction rule: rtranclp_induct) (auto intro: gift_step_cards)

inductive_cases gift_stepE: "gift_step cap s t"

text \<open>
  C17 (invariant). The fiscal cap holds along every history: whatever orders are placed, issued, retried,
  failed, refunded and paid out between two yearly resets, each user's counter is exactly the sum of the
  reservations of that user's orders, it never exceeds the annual cap, and so neither do the issued cards.
\<close>

theorem gift_cap_never_exceeded:
  assumes "gift_ok cap s" and "(gift_step cap)\<^sup>*\<^sup>* s t" and "users t u \<noteq> None"
  shows "gift_ok cap t \<and> ytd_cents u t = reserved_total t u \<and> ytd_cents u t \<le> cap \<and> issued_total t u \<le> cap"
proof -
  have "cards_ok cap {} s" using assms(1) by (simp add: cards_ok_def settled_def)
  from gift_reachable_cards [OF assms(2) this] have ok: "gift_ok cap t" by (simp add: cards_ok_def)
  with gift_ok_issued [OF ok assms(3)] assms(3) show ?thesis unfolding gift_ok_def by blast
qed

theorem gift_cap_never_exceeded_witness:
  "\<exists>x t. create_boutique_order boutique_demo_cfg demo_clock 7 3 500 boutique_demo = (Inr x, t)
     \<and> gift_card_orders t \<noteq> [] \<and> gift_ok 120000 t \<and> issued_total t 7 \<le> 120000"
proof -
  obtain x t where run: "create_boutique_order boutique_demo_cfg demo_clock 7 3 500 boutique_demo = (Inr x, t)"
    using boutique_demo_run by blast
  obtain bal where t: "t = ordered_state demo_clock 7 3 500 (cab_cost boutique_demo_cfg 500) bal boutique_demo"
    using order_created [OF boutique_demo_ok(2) run] by metis
  have path: "(gift_step 120000)\<^sup>*\<^sup>* boutique_demo t" using gift_step.shop [OF run] by (rule r_into_rtranclp)
  have user: "users t 7 \<noteq> None" "gift_card_orders t \<noteq> []" by (simp_all add: t ordered_state_def boutique_demo_def)
  from gift_cap_never_exceeded [OF boutique_demo_ok(1) path user(1)] run user(2) show ?thesis by blast
qed


definition issued_demo_order :: order_row where
  "issued_demo_order = (issued_order demo_clock ''sandbox'' (SandboxCode 9)
     (new_order demo_clock 9 7 3 500 ''shop_purchase'' (UuidText 8)))\<lparr> go_cap_reserved_cents := 500 \<rparr>"

definition issued_demo :: db where
  "issued_demo = boutique_demo\<lparr> gift_card_orders := [issued_demo_order],
     users := [7 \<mapsto> \<lparr> is_deleted = False, is_shadow_banned = False, gift_card_redeemed_ytd_cents = 500, display_name = None, email = ''jack@ratis.app'' \<rparr>] \<rparr>"

lemma issued_demo_ok: "gift_ok 120000 issued_demo" "find_order 9 issued_demo = Some issued_demo_order"
  by (auto simp: issued_demo_def issued_demo_order_def gift_ok_def order_ok_def reserved_total_def ytd_cents_def
      issued_order_def new_order_def find_order_def)


text \<open>
  C23 (safety). The reset of the first of January zeroes the counters but not the reservations of the orders
  still pending: the counter no longer is their sum, and when such an order fails in the new year its
  release is taken from the new year's counter, which then is below what the new year's card reserved.
\<close>

theorem reset_orphans_reservations:
  assumes ok: "gift_ok cap s" and r: "find_order i s = Some r" "0 < go_cap_reserved_cents r"
    and u: "users s (go_user_id r) \<noteq> None"
    and reset: "reset_gift_card_ytd False us s = (Inr n, s1)"
    and q: "find_order j s1 = Some q" "go_cap_reserved_cents q = 0" "go_user_id q = go_user_id r" "j \<noteq> i"
    and reserve: "reserve_gift_card_cap cap ck j defer s1 = (Inr CapAllow, s2)"
    and release: "release_gift_card_cap i s2 = (Inr (), t)"
  shows "\<not> gift_ok cap s1 \<and> ytd_cents (go_user_id r) s2 = go_denomination q
    \<and> ytd_cents (go_user_id r) t = max 0 (go_denomination q - go_cap_reserved_cents r)
    \<and> ytd_cents (go_user_id r) t < go_denomination q"
proof -
  let ?u = "go_user_id r"
  have s1: "s1 = s\<lparr> users := (\<lambda>u. map_option (\<lambda>r. r\<lparr> gift_card_redeemed_ytd_cents := 0 \<rparr>) (users s u)) \<rparr>"
    using reset by (auto simp: reset_gift_card_ytd_def)
  have zero: "ytd_cents v s1 = 0" for v by (simp add: s1 ytd_cents_def split: option.split)
  have r1: "find_order i s1 = Some r" "users s1 ?u \<noteq> None" using r(1) u by (simp_all add: s1)
  have rows: "\<forall>x \<in> set (gift_card_orders s1). order_ok x" using ok by (simp add: s1 gift_ok_def)
  have mem: "r \<in> set (gift_card_orders s1)" "q \<in> set (gift_card_orders s1)"
    using r1(1) q(1) by (auto simp: find_order_def dest: find_Some_in)
  have "0 < reserved_total s1 ?u" unfolding reserved_total_def
    using mem(1) rows r(2) by (intro sum_where_pos) (auto simp: order_ok_def)
  with zero r1(2) have broken: "\<not> gift_ok cap s1" unfolding gift_ok_def by force
  have denom: "0 < go_denomination q" using rows mem(2) by (simp add: order_ok_def)
  from reserve_Inr [OF reserve] q obtain s3 where s3: "update_ytd ?u (\<lambda>v. v + go_denomination q) s1 = (Inr (), s3)"
    and s2: "s2 = update_order j (\<lambda>x. x\<lparr> go_cap_reserved_cents := go_denomination q \<rparr>) s3" by auto
  have y2: "ytd_cents ?u s2 = go_denomination q" "users s2 ?u \<noteq> None"
    using s3 r1(2) zero [of ?u] by (auto simp: s2 update_order_def update_ytd_Inr ytd_cents_def split: option.splits)
  have "find_order i s3 = Some r" using s3 r1(1) by (auto simp: update_ytd_Inr split: option.splits)
  then have f2: "find_order i s2 = Some r" using q(4) by (simp add: s2 find_order_update)
  have "ytd_cents ?u t = max 0 (go_denomination q - go_cap_reserved_cents r)"
    using release f2 r(2) y2
    by (auto simp: release_gift_card_cap_def Let_def seq_Inr_iff update_ytd_Inr update_order_def ytd_cents_def split: option.splits)
  with broken y2 denom r(2) show ?thesis by auto
qed

definition reset_demo_order :: order_row where
  "reset_demo_order = (new_order demo_clock 9 7 3 500 ''shop_purchase'' (UuidText 8))\<lparr> go_cap_reserved_cents := 500 \<rparr>"

definition reset_demo :: db where
  "reset_demo = boutique_demo\<lparr> gift_card_orders := [reset_demo_order, new_order demo_clock 11 7 3 1000 ''shop_purchase'' (UuidText 10)],
     users := [7 \<mapsto> \<lparr> is_deleted = False, is_shadow_banned = False, gift_card_redeemed_ytd_cents = 500, display_name = None, email = ''jack@ratis.app'' \<rparr>] \<rparr>"

lemma reset_demo_runs:
  obtains s1 s2 t where "reset_gift_card_ytd False [7] reset_demo = (Inr 1, s1)"
    "find_order 11 s1 = Some (new_order demo_clock 11 7 3 1000 ''shop_purchase'' (UuidText 10))"
    "reserve_gift_card_cap 120000 demo_clock 11 False s1 = (Inr CapAllow, s2)" "release_gift_card_cap 9 s2 = (Inr (), t)"
  by (simp add: reset_demo_def reset_demo_order_def reset_gift_card_ytd_def ytd_cents_def find_order_def new_order_def
      reserve_gift_card_cap_def release_gift_card_cap_def update_ytd_def update_order_def Let_def fits_int4_def)

theorem reset_orphans_reservations_witness:
  "\<exists>s1 s2 t. reset_gift_card_ytd False [7] reset_demo = (Inr 1, s1)
     \<and> reserve_gift_card_cap 120000 demo_clock 11 False s1 = (Inr CapAllow, s2)
     \<and> release_gift_card_cap 9 s2 = (Inr (), t) \<and> ytd_cents 7 s2 = 1000 \<and> ytd_cents 7 t = 500"
proof -
  have ok: "gift_ok 120000 reset_demo" and r: "find_order 9 reset_demo = Some reset_demo_order" "0 < go_cap_reserved_cents reset_demo_order"
    and u: "users reset_demo (go_user_id reset_demo_order) \<noteq> None"
    by (auto simp: reset_demo_def reset_demo_order_def gift_ok_def order_ok_def reserved_total_def ytd_cents_def new_order_def find_order_def)
  show ?thesis
  proof (rule reset_demo_runs)
    fix s1 s2 t
    assume runs: "reset_gift_card_ytd False [7] reset_demo = (Inr 1, s1)"
      "find_order 11 s1 = Some (new_order demo_clock 11 7 3 1000 ''shop_purchase'' (UuidText 10))"
      "reserve_gift_card_cap 120000 demo_clock 11 False s1 = (Inr CapAllow, s2)" "release_gift_card_cap 9 s2 = (Inr (), t)"
    from reset_orphans_reservations [OF ok r u runs(1,2) _ _ _ runs(3,4)]
    have "ytd_cents 7 s2 = 1000 \<and> ytd_cents 7 t = 500" by (simp add: reset_demo_order_def new_order_def)
    with runs show ?thesis by blast
  qed
qed

end
