(* ===== verification/Ratis_Integrity.thy ===== *)
theory Ratis_Integrity
  imports Ratis_Reconciliation
begin

text \<open>
  What the nightly run does to the two ledgers. Issuing, failing and retrying cards and crediting missing
  scans keep the CAB balance equal to its ledger, so the CAB integrity check stays silent; every missing
  scan that can be credited is credited; the run goes through all its jobs whatever fails. The cashback
  check compares with a sum that a refunded withdrawal is not part of, and the theory shows what it reports.
\<close>

section \<open>The CAB ledger\<close>

lemma computed_cab_ledger: "computed_cab s u = cab_ledger s u"
  by (simp add: computed_cab_def cab_ledger_def signed_amount_def [abs_def])

lemma drift_of_None: "drift_of stored computed u = None \<longleftrightarrow> (\<forall>b. stored u = Some b \<longrightarrow> b = computed u)"
  by (auto simp: drift_of_def split: option.split)

lemma map_filter_Nil_iff: "List.map_filter f xs = [] \<longleftrightarrow> (\<forall>x \<in> set xs. f x = None)"
  by (induction xs) (auto simp: List.map_filter_simps split: option.split)

lemma cab_check_silent:
  "check_cab_balance_integrity us s = (Inr [], s) \<longleftrightarrow>
     (\<forall>u \<in> set us. \<forall>b. user_cab_balance s u = Some b \<longrightarrow> b = cab_ledger s u)"
  by (simp add: check_cab_balance_integrity_def map_filter_Nil_iff drift_of_None computed_cab_ledger)

lemma cab_check_ok: "cab_ok s \<Longrightarrow> check_cab_balance_integrity us s = (Inr [], s)"
  by (auto simp: cab_check_silent dest: cab_ok_balance)

subsection \<open>Cards\<close>

lemma keeps_cab_orders:
  "keeps cab_ok (update_pending i f)"
  "keeps cab_ok (update_ytd u g)"
  "keeps cab_ok (modify (update_order i f))"
  "keeps cab_ok (release_gift_card_cap i)"
  "keeps cab_ok (reserve_gift_card_cap cap ck i defer)"
proof -
  show 1: "keeps cab_ok (update_pending i f)" for i f
    by (rule keepsI) (auto simp: update_pending_run)
  show 2: "keeps cab_ok (update_ytd u g)" for u g
    unfolding update_ytd_def Let_def by (intro keeps_intro keeps_modify) simp_all
  show 3: "keeps cab_ok (modify (update_order i f))" for i f
    by (rule keeps_modify) (simp add: update_order_def)
  show "keeps cab_ok (release_gift_card_cap i)"
    unfolding release_gift_card_cap_def Let_def by (intro keeps_intro 2 3)
  show "keeps cab_ok (reserve_gift_card_cap cap ck i defer)"
    unfolding reserve_gift_card_cap_def Let_def by (intro keeps_intro 2 3)
qed

lemma preserves_refund_order: "preserves cab_ok (refund_order_cab ck i)"
  unfolding refund_order_cab_def
  by (auto intro!: preserves_bnd preserves_award_cab split: option.splits prod.splits ref_text.splits)

lemma mark_failed_cab:
  assumes "cab_ok s" and "cab_ok start" and "mark_failed ck start i s = (r, t)" shows "cab_ok t"
proof -
  have "preserves cab_ok (bnd (update_order_failed ck i) (\<lambda>marked.
      if marked then seq (refund_order_cab ck i) (release_gift_card_cap i) else ret ()))"
    unfolding update_order_failed_def
    by (intro preserves_intro preserves_refund_order keeps_preserves [OF keeps_cab_orders(1)]
        keeps_preserves [OF keeps_cab_orders(4)])
  with assms show ?thesis
    by (auto simp: mark_failed_def catch_def split: prod.splits sum.splits dest: preservesD)
qed

lemma issue_at_provider_cab:
  assumes "cab_ok s" and "cab_ok start" and "issue_at_provider env ck start r s = (x, t)" shows "cab_ok t"
proof -
  have "keeps cab_ok (update_order_issued ck i p c)" for i p c
    unfolding update_order_issued_def by (rule keeps_cab_orders)
  then have "keeps cab_ok (seq (update_order_issued ck i p c) (ret ()))" for i p c by (intro keeps_seq keeps_ret)
  with assms show ?thesis
    by (auto simp: issue_at_provider_def Let_def dest: mark_failed_cab keepsD
        split: option.splits if_splits runa_response.splits)
qed

lemma keeps_cab_issue_bg: "keeps cab_ok (issue_gift_card_bg env cap ck i)"
proof (rule keepsI)
  fix s x t assume ok: "cab_ok s" and run: "issue_gift_card_bg env cap ck i s = (x, t)"
  have "cab_ok w" if w: "issue_gift_card env cap ck s i s = (Inr y, w)" for y w
  proof (cases "w = s")
    case False
    with w obtain r d s1 where s1: "reserve_gift_card_cap cap ck i (go_source_type r \<noteq> ''shop_purchase'') s = (Inr d, s1)"
      and rest: "(case d of CapDefer ts \<Rightarrow> modify (update_order i (\<lambda>r. r\<lparr> go_eligible_at := Some ts \<rparr>))
           | CapBlock \<Rightarrow> mark_failed ck s i | CapAllow \<Rightarrow> issue_at_provider env ck s r) s1 = (Inr y, w)"
      by (auto simp: issue_gift_card_def bnd_Inr_iff split: option.splits if_splits prod.splits)
    have "cab_ok s1" by (rule keepsD [OF keeps_cab_orders(5) ok s1])
    with rest ok show ?thesis
      by (auto simp: update_order_def dest: mark_failed_cab issue_at_provider_cab split: cap_decision.splits)
  qed (simp add: ok)
  with run ok show "cab_ok t"
    by (auto simp: issue_gift_card_bg_def catch_def db_transaction_def split: prod.splits sum.splits)
qed

lemma keeps_cab_notify: "keeps cab_ok (notify_rewards_to_issue http ck i)"
  unfolding notify_rewards_to_issue_def issue_existing_order_def
  by (auto intro!: keeps_if keeps_catch keeps_seq keeps_bnd keeps_case_option keeps_cab_issue_bg split: prod.split)

lemma keeps_cab_trigger: "keeps cab_ok (trigger_all http ck dry ids)"
  unfolding trigger_all_def by (intro keeps_intro keeps_cab_notify)

lemma preserves_cab_order: "preserves cab_ok (create_order cfg ck u b denom)"
proof (rule preservesI)
  fix s x t assume ok: "cab_ok s" and run: "create_order cfg ck u b denom s = (Inr x, t)"
  have "preserves cab_ok (insert_gift_card_order ck u b d st ref)" for d st ref
    by (rule preservesI) (auto dest!: insert_order_Inr)
  then have "preserves cab_ok (debit_and_order ck u b denom c)" for c
    unfolding debit_and_order_def insert_order_def
    by (intro preserves_bnd preserves_seq preserves_debit_cab keeps_preserves [OF keeps_fresh_uuid]) simp_all
  from preservesD [OF this ok] create_order_Inr [OF run] show "cab_ok t" by blast
qed

lemma keeps_cab_boutique: "keeps cab_ok (create_boutique_order cfg ck u b denom)"
proof -
  have "keeps cab_ok (case e of InsufficientBalance \<Rightarrow> throw (HTTPException 402 ''insufficient_cab_balance'')
        | UnprocessableEntity d \<Rightarrow> throw (HTTPException 400 d) | NotFound d \<Rightarrow> throw (HTTPException 404 d)
        | Conflict d \<Rightarrow> throw (HTTPException 409 d) | _ \<Rightarrow> throw e)" for e
    by (cases e) simp_all
  then show ?thesis unfolding create_boutique_order_def
    by (intro keeps_if keeps_throw keeps_catch preserves_transaction preserves_cab_order)
qed

subsection \<open>The jobs\<close>

lemma preserves_refund_debit: "preserves cab_ok (refund_debit_sql ck x)"
proof (rule preservesI)
  fix s y t assume "cab_ok s" and "refund_debit_sql ck x s = (Inr y, t)"
  then obtain n s1 i j where "update_cab_plus (ct_user_id x) (ct_amount x) s = (Inr n, s1)"
    "insert_cab_tx (award_row ck i (ct_user_id x) (ct_amount x) ''gift_card_refund'' None None) (s1\<lparr> next_uuid := j \<rparr>) = (Inr y, t)"
    by (auto simp: refund_debit_sql_def bnd_Inr_iff fresh_uuid_def split: if_splits)
  with \<open>cab_ok s\<close> show "cab_ok t" by (auto intro: cab_ok_credit simp: award_row_def)
qed

lemma preserves_cab_reconcile_one: "preserves cab_ok (reconcile_one_order ck i u ref)"
proof -
  have "keeps cab_ok (release_cap_sql i u)"
    unfolding release_cap_sql_def by (intro keeps_intro keeps_cab_orders)
  then have "preserves cab_ok (seq (refund_debit_sql ck x) (release_cap_sql i u))" for x
    by (intro preserves_seq preserves_refund_debit keeps_preserves)
  then show ?thesis unfolding reconcile_one_order_def update_order_failed_def
    by (intro preserves_bnd keeps_preserves [OF keeps_cab_orders(1)] preserves_if preserves_ret)
      (auto intro!: preserves_bnd split: ref_text.split option.split)
qed

lemma keeps_cab_reconcile_pending: "keeps cab_ok (reconcile_pending_gift_card_orders ck dry)"
  unfolding reconcile_pending_gift_card_orders_def
  by (intro keeps_bnd keeps_reads keeps_if keeps_ret keeps_for_each keeps_catch keeps_seq preserves_transaction
      preserves_cab_reconcile_one)

text \<open>What crediting one scan does.\<close>

definition scan_credit_state :: "clock \<Rightarrow> uuid \<Rightarrow> uuid \<Rightarrow> int \<Rightarrow> string \<Rightarrow> db \<Rightarrow> db" where
  "scan_credit_state ck sid u n reason s = s\<lparr> next_uuid := Suc (next_uuid s),
     cabecoin_transactions := cabecoin_transactions s @ [scan_row_credit ck (next_uuid s) sid u n reason],
     user_cab_balance := credited u n (user_cab_balance s) \<rparr>"

lemma credit_scan_Inr:
  "credit_scan ck sid u n reason s = (Inr b, t) \<longleftrightarrow> fits_int4 n
     \<and> (if scan_credited sid s then \<not> b \<and> t = s\<lparr> next_uuid := Suc (next_uuid s) \<rparr>
        else b \<and> cab_insertable (scan_row_credit ck (next_uuid s) sid u n reason) s
          \<and> (\<exists>bal. user_cab_balance s u = Some bal \<and> fits_int4 (bal + n) \<and> 0 \<le> bal + n)
          \<and> t = scan_credit_state ck sid u n reason s)"
proof -
  have ins: "cab_insertable r (s\<lparr> next_uuid := k \<rparr>) = cab_insertable r s" for r k by (simp add: cab_insertable_def)
  show ?thesis
    by (auto simp: credit_scan_def fresh_uuid_def bnd_Inr_iff seq_Inr_iff insert_cab_tx_Inr update_cab_plus_Inr scan_credited_def
        scan_credit_state_def credited_def ins split: if_splits option.splits)
qed

lemma credit_scan_ok:
  assumes "cab_ok s" and "credit_scan ck sid u n reason s = (Inr b, t)" shows "cab_ok t"
proof (cases "scan_credited sid s")
  case False
  with assms(2) obtain bal where bal: "user_cab_balance s u = Some bal" "fits_int4 (bal + n)" "0 \<le> bal + n"
    and ins: "cab_insertable (scan_row_credit ck (next_uuid s) sid u n reason) s"
    and t: "t = scan_credit_state ck sid u n reason s" by (auto simp: credit_scan_Inr)
  show ?thesis
    by (rule cab_ok_step [OF assms(1) ins])
      (use bal in \<open>auto simp: t scan_credit_state_def credited_def scan_row_credit_def award_row_def signed_amount_def fits_int4_def\<close>)
qed (use assms in \<open>auto simp: credit_scan_Inr\<close>)

lemma keeps_cab_credit_missing: "keeps cab_ok (credit_missing cfg ck r)"
proof -
  have "preserves cab_ok (credit_scan ck sid u n reason)" for sid u n reason
    by (rule preservesI) (rule credit_scan_ok)
  then have "keeps cab_ok (catch (void (db_transaction (credit_scan ck sid u n reason))) (\<lambda>_. ret ()))" for sid u n reason
    by (intro keeps_catch keeps_void preserves_transaction keeps_ret)
  then show ?thesis unfolding credit_missing_def Let_def by (auto intro!: keeps_if split: prod.split)
qed

lemma keeps_cab_missing_scans: "keeps cab_ok (reconcile_missing_scan_rewards cfg ck dry)"
  unfolding reconcile_missing_scan_rewards_def
  by (intro keeps_if keeps_ret keeps_bnd keeps_reads keeps_seq keeps_for_each keeps_cab_credit_missing)

section \<open>What the card jobs leave alone\<close>

text \<open>A predicate that looks neither at the CAB columns nor at the orders and the users.\<close>

locale card_frame = cab_frame +
  assumes frame_orders: "I (s\<lparr> gift_card_orders := rows \<rparr>) = I s"
    and frame_users: "I (s\<lparr> users := m \<rparr>) = I s"
begin

lemma keeps_pending: "keeps I (update_pending i f)"
  by (rule keepsI) (auto simp: update_pending_run frame_orders)

lemma keeps_ytd: "keeps I (update_ytd u g)"
  unfolding update_ytd_def Let_def by (intro keeps_intro keeps_modify) (simp_all add: frame_users)

lemma keeps_order: "keeps I (modify (update_order i f))"
  by (rule keeps_modify) (simp add: update_order_def frame_orders)

lemma keeps_release: "keeps I (release_gift_card_cap i)"
  unfolding release_gift_card_cap_def Let_def by (intro keeps_intro keeps_ytd keeps_order)

lemma keeps_reserve: "keeps I (reserve_gift_card_cap cap ck i defer)"
  unfolding reserve_gift_card_cap_def Let_def by (intro keeps_intro keeps_ytd keeps_order)

lemma keeps_refund: "keeps I (refund_order_cab ck i)"
  unfolding refund_order_cab_def
  by (auto intro!: keeps_bnd keeps_award split: option.splits prod.splits ref_text.splits)

lemma keeps_mark_failed: "I start \<Longrightarrow> keeps I (mark_failed ck start i)"
  unfolding mark_failed_def update_order_failed_def
  by (intro keeps_catch keeps_bnd keeps_if keeps_seq keeps_ret keeps_pending keeps_refund keeps_release keeps_modify)

lemma keeps_provider: "I start \<Longrightarrow> keeps I (issue_at_provider env ck start r)"
  unfolding issue_at_provider_def update_order_issued_def Let_def
  by (auto intro!: keeps_bnd keeps_seq keeps_mark_failed keeps_pending split: option.splits runa_response.splits)

lemma keeps_issue: "I start \<Longrightarrow> keeps I (issue_gift_card env cap ck start i)"
  unfolding issue_gift_card_def
  by (auto intro!: keeps_bnd keeps_reserve keeps_mark_failed keeps_provider keeps_order
      split: option.splits prod.splits cap_decision.splits)

lemma keeps_issue_bg: "keeps I (issue_gift_card_bg env cap ck i)"
proof (rule keepsI)
  fix s r t assume "I s" and "issue_gift_card_bg env cap ck i s = (r, t)"
  moreover have "keeps I (catch (db_transaction (issue_gift_card env cap ck s i)) (\<lambda>_. ret ()))"
    using \<open>I s\<close> by (intro keeps_catch keeps_transaction keeps_issue keeps_ret)
  ultimately show "I t" by (auto simp: issue_gift_card_bg_def dest: keepsD)
qed

lemma keeps_notify: "keeps I (notify_rewards_to_issue http ck i)"
  unfolding notify_rewards_to_issue_def issue_existing_order_def
  by (auto intro!: keeps_if keeps_catch keeps_seq keeps_bnd keeps_case_option keeps_issue_bg split: prod.split)

lemma keeps_trigger: "keeps I (trigger_all http ck dry ids)"
  unfolding trigger_all_def by (intro keeps_intro keeps_notify)

lemma keeps_reconcile_one: "keeps I (reconcile_one_order ck i u ref)"
proof -
  have "keeps I (release_cap_sql i u)"
    unfolding release_cap_sql_def by (intro keeps_intro keeps_ytd keeps_order)
  moreover have "keeps I (refund_debit_sql ck x)" for x
    unfolding refund_debit_sql_def by (intro keeps_intro keeps_plus keeps_fresh keeps_insert)
  ultimately show ?thesis unfolding reconcile_one_order_def update_order_failed_def
    by (auto intro!: keeps_bnd keeps_if keeps_pending keeps_seq split: ref_text.split option.split)
qed

lemma keeps_reconcile_pending: "keeps I (reconcile_pending_gift_card_orders ck dry)"
  unfolding reconcile_pending_gift_card_orders_def
  by (intro keeps_bnd keeps_reads keeps_if keeps_ret keeps_for_each keeps_catch keeps_seq keeps_transaction keeps_reconcile_one)

lemma keeps_missing_scans: "keeps I (reconcile_missing_scan_rewards cfg ck dry)"
proof -
  have "keeps I (credit_scan ck sid u n reason)" for sid u n reason
    unfolding credit_scan_def by (intro keeps_intro keeps_fresh keeps_insert keeps_plus)
  then have "keeps I (catch (void (db_transaction (credit_scan ck sid u n reason))) (\<lambda>_. ret ()))" for sid u n reason
    by (intro keeps_catch keeps_void keeps_transaction keeps_ret)
  then have "keeps I (credit_missing cfg ck r)" for r
    unfolding credit_missing_def Let_def by (auto intro!: keeps_if split: prod.split)
  then show ?thesis unfolding reconcile_missing_scan_rewards_def
    by (intro keeps_if keeps_ret keeps_bnd keeps_reads keeps_seq keeps_for_each)
qed

lemmas keeps_card_jobs = keeps_missing_scans keeps_reconcile_pending keeps_trigger

end

interpretation cashback_frame: card_frame cashback_ok
  by unfold_locales simp_all


section \<open>The cashback jobs\<close>

lemma keeps_missing_cashback:
  assumes "\<And>u f ean n sid. preserves I (insert_cashback_credit ck u f ean n sid None)"
    and "\<And>s. I s \<Longrightarrow> I (s\<lparr> next_uuid := Suc (next_uuid s) \<rparr>)"
  shows "keeps I (reconcile_missing_cashback_scans ck dry)"
proof -
  have "preserves I (void (insert_cashback_credit ck u f ean n sid None))" for u f ean n sid
    unfolding void_def by (intro preserves_seq preserves_ret assms)
  moreover have "preserves I (void fresh_uuid)"
    by (intro keeps_preserves keeps_void keeps_fresh_uuid) (rule assms)
  ultimately have "preserves I (seq (int4 a) (bnd (reads c) (\<lambda>conflict. if conflict then void fresh_uuid
      else void (insert_cashback_credit ck u f ean n sid None))))" for a c u f ean n sid
    by (intro preserves_seq preserves_int4 preserves_bnd preserves_reads preserves_if)
  then have "keeps I (insert_missing_cashback ck p n)" for p n
    unfolding insert_missing_cashback_def Let_def
    by (cases p) (simp, intro impI keeps_catch keeps_seq preserves_transaction keeps_ret)
  then show ?thesis
    unfolding reconcile_missing_cashback_scans_def by (intro keeps_bnd keeps_reads keeps_if keeps_ret keeps_for_each)
qed

lemma keeps_cab_cashback_jobs:
  "keeps cab_ok (reconcile_expired_cashbacks ck dry)"
  "keeps cab_ok (reconcile_missing_cashback_scans ck dry)"
proof -
  show "keeps cab_ok (reconcile_expired_cashbacks ck dry)"
    unfolding reconcile_expired_cashbacks_def
    by (intro keeps_bnd keeps_reads keeps_if keeps_ret keeps_seq keeps_for_each keeps_modify) simp
  show "keeps cab_ok (reconcile_missing_cashback_scans ck dry)"
    by (rule keeps_missing_cashback, rule preservesI) (auto simp: insert_cashback_credit_Inr)
qed

lemma keeps_cashback_jobs:
  "keeps cashback_ok (reconcile_expired_cashbacks ck dry)"
  "keeps cashback_ok (reconcile_missing_cashback_scans ck dry)"
proof -
  show "keeps cashback_ok (reconcile_expired_cashbacks ck dry)"
    unfolding reconcile_expired_cashbacks_def
    by (intro keeps_bnd keeps_reads keeps_if keeps_ret keeps_seq keeps_for_each keeps_modify)
      (erule cashback_ok_relabel [OF _ _ refl], simp add: cb_signed_def)
  have "preserves cashback_ok (insert_cashback_credit ck u f ean n sid None)" for u f ean n sid
  proof (rule preservesI)
    fix s i t assume ok: "cashback_ok s" and run: "insert_cashback_credit ck u f ean n sid None s = (Inr i, t)"
    then show "cashback_ok t" unfolding insert_cashback_credit_Inr
      by (intro cashback_ok_credit [OF ok, of "credit_row ck i u f ean n sid None"]) (auto simp: cb_signed_def credit_row_def)
  qed
  then show "keeps cashback_ok (reconcile_missing_cashback_scans ck dry)" by (rule keeps_missing_cashback) simp
qed


section \<open>The nightly run\<close>

lemma keeps_attempt [keeps_intro]: "keeps I m \<Longrightarrow> keeps I (attempt name m rs)"
  unfolding attempt_def by (intro keeps_catch keeps_bnd keeps_ret)

lemma keeps_main:
  assumes "keeps I (reconcile_missing_scan_rewards cfg ck dry)" "keeps I (reconcile_pending_gift_card_orders ck dry)"
    "\<And>ids. keeps I (trigger_all http ck dry ids)"
    "keeps I (reconcile_expired_cashbacks ck dry)" "keeps I (reconcile_missing_cashback_scans ck dry)"
  shows "keeps I (reconciliation_main cfg http ck us dry)"
  unfolding reconciliation_main_def reconcile_deferred_gift_card_orders_def reconcile_processing_gift_card_orders_def
    reconcile_pending_withdrawals_def check_cab_balance_integrity_def check_cashback_balance_integrity_def
  by (intro keeps_bnd keeps_attempt keeps_reads keeps_ret assms)

lemma keeps_main_ledgers:
  "keeps cab_ok (reconciliation_main cfg http ck us dry)"
  "keeps cashback_ok (reconciliation_main cfg http ck us dry)"
  by (intro keeps_main keeps_cab_missing_scans keeps_cab_reconcile_pending keeps_cab_trigger keeps_cab_cashback_jobs)
    (intro keeps_main cashback_frame.keeps_card_jobs keeps_cashback_jobs)

definition job_result :: "error + nat \<Rightarrow> nat option" where
  "job_result r = (case r of Inl _ \<Rightarrow> None | Inr n \<Rightarrow> Some n)"

lemma bnd_attempt [simp]: "bnd (attempt name m rs) f s = f (rs @ [(name, job_result (fst (m s)))]) (snd (m s))"
  by (simp add: attempt_def catch_def bnd_def job_result_def split: prod.split sum.split)

text \<open>
  C25 (error). The nightly run always ends with one result per job, in the order of the script, whatever any
  of them raises; it exits with 1 exactly when one of them failed. It keeps both ledgers in step, and on a
  ledger in step its CAB check reports no drift, even after the credits of the first job.
\<close>

theorem nightly_run_complete:
  assumes "cab_ok s" and "cashback_ok s"
  shows "\<exists>results code t. reconciliation_main cfg http ck us dry s = (Inr (results, code), t)
    \<and> map fst results = [''missing_scan_rewards'', ''cab_integrity_drifts'', ''pending_gift_card_orders'',
         ''deferred_gift_card_orders'', ''processing_gift_card_orders'', ''expired_cashbacks'',
         ''missing_cashback_scans'', ''pending_withdrawals'', ''cashback_integrity_drifts'']
    \<and> results ! 1 = (''cab_integrity_drifts'', Some 0)
    \<and> code = (if None \<in> set (map snd results) then 1 else 0) \<and> cab_ok t \<and> cashback_ok t"
proof -
  let ?s1 = "snd (reconcile_missing_scan_rewards cfg ck dry s)"
  have "check_cab_balance_integrity us ?s1 = (Inr [], ?s1)"
    using keeps_snd [OF keeps_cab_missing_scans assms(1)] by (rule cab_check_ok)
  then have drift: "bnd (check_cab_balance_integrity us) (\<lambda>ds. ret (length ds)) ?s1 = (Inr 0, ?s1)"
    by (simp add: bnd_run_Inr [of "check_cab_balance_integrity us" ?s1])
  obtain results code t where run: "reconciliation_main cfg http ck us dry s = (Inr (results, code), t)"
    "map fst results = [''missing_scan_rewards'', ''cab_integrity_drifts'', ''pending_gift_card_orders'',
         ''deferred_gift_card_orders'', ''processing_gift_card_orders'', ''expired_cashbacks'',
         ''missing_cashback_scans'', ''pending_withdrawals'', ''cashback_integrity_drifts'']"
    "results ! 1 = (''cab_integrity_drifts'', Some 0)" "code = (if list_ex (\<lambda>p. snd p = None) results then 1 else 0)"
    by (simp add: reconciliation_main_def drift job_result_def [of "Inr 0"])
  moreover have "list_ex (\<lambda>p. snd p = None) results = (None \<in> set (map snd results))"
    by (auto simp: list_ex_iff image_iff) (metis snd_conv)+
  moreover have "cab_ok t" "cashback_ok t"
    using keepsD [OF keeps_main_ledgers(1) assms(1) run(1)] keepsD [OF keeps_main_ledgers(2) assms(2) run(1)] by simp_all
  ultimately show ?thesis by metis
qed

theorem nightly_run_complete_witness:
  "\<exists>results code t. reconciliation_main \<lparr> cab_per_receipt_scan = Some 3, cab_per_label_scan = Some 2, cab_per_barcode_scan = Some 1 \<rparr>
       \<lparr> rh_configured = True, rh_answers = (\<lambda>_. True), rh_runa = runa_down, rh_cap_annual = 120000 \<rparr>
       demo_clock [7] False reset_demo = (Inr (results, code), t)
     \<and> results ! 1 = (''cab_integrity_drifts'', Some 0)"
proof -
  have "cab_ok reset_demo" using boutique_demo_ok(3) by (simp add: reset_demo_def)
  moreover have "cashback_ok reset_demo"
    by (simp add: reset_demo_def boutique_demo_def cab_demo_def cashback_ok_def balanced_def cashback_rows_ok_def
        cashback_ledger_def failed_withdrawals_def get_cashback_balance_def)
  ultimately show ?thesis using nightly_run_complete [of reset_demo] by meson
qed


section \<open>Missing scans\<close>

definition scan_amount :: "scan_cfg \<Rightarrow> scan_row \<Rightarrow> int" where
  "scan_amount cfg r = (case snd (SCAN_TYPE_MAP cfg (sc_scan_type r)) of None \<Rightarrow> 0 | Some n \<Rightarrow> n)"

definition scan_reason :: "scan_cfg \<Rightarrow> scan_row \<Rightarrow> string" where
  "scan_reason cfg r = fst (SCAN_TYPE_MAP cfg (sc_scan_type r))"

text \<open>The users of the rows have balances with room for what the rows are worth.\<close>

definition scan_room :: "scan_cfg \<Rightarrow> scan_row list \<Rightarrow> db \<Rightarrow> bool" where
  "scan_room cfg rows s \<longleftrightarrow> (\<forall>r \<in> set rows. 0 < scan_amount cfg r \<and> user_cab_balance s (sc_user_id r) \<noteq> None)
     \<and> (\<forall>u b. user_cab_balance s u = Some b \<longrightarrow> b + sum_where (\<lambda>r. sc_user_id r = u) (scan_amount cfg) rows \<le> int4_max)"

lemma scan_reason_valid: "scan_reason cfg r \<in> set CAB_REASONS"
  by (simp add: scan_reason_def SCAN_TYPE_MAP_def CAB_REASONS_def)

lemma credit_missing_run:
  assumes ok: "cab_ok s" "cab_ids_ok s" and room: "scan_room cfg (r # rows) s" and free: "\<not> scan_credited (sc_id r) s"
  shows "credit_missing cfg ck r s =
    (Inr (), scan_credit_state ck (sc_id r) (sc_user_id r) (scan_amount cfg r) (scan_reason cfg r) s)"
proof -
  let ?n = "scan_amount cfg r" and ?u = "sc_user_id r"
  from room obtain b where b: "user_cab_balance s ?u = Some b" and n: "0 < ?n"
    by (auto simp: scan_room_def)
  have rest: "0 \<le> sum_where (\<lambda>x. sc_user_id x = ?u) (scan_amount cfg) rows"
    using room by (intro sum_where_nonneg) (auto simp: scan_room_def)
  have "b + (?n + sum_where (\<lambda>x. sc_user_id x = ?u) (scan_amount cfg) rows) \<le> int4_max"
    using conjunct2 [OF room [unfolded scan_room_def], rule_format, OF b] by simp
  with rest cab_ok_balance [OF ok(1) b] n have fit: "fits_int4 ?n" "fits_int4 (b + ?n)" "0 \<le> b + ?n"
    by (auto simp: fits_int4_def)
  have "cab_insertable (scan_row_credit ck (next_uuid s) (sc_id r) ?u ?n (scan_reason cfg r)) s"
    using free fit(1) n scan_reason_valid fresh_cab_id [OF ok(2)]
    by (auto simp: cab_insertable_def cab_row_ok_def scan_row_credit_def award_row_def scan_credited_def cab_reference_types_def)
  with free fit b have "credit_scan ck (sc_id r) ?u ?n (scan_reason cfg r) s =
      (Inr True, scan_credit_state ck (sc_id r) ?u ?n (scan_reason cfg r) s)"
    by (simp add: credit_scan_Inr)
  then show ?thesis using n
    by (auto simp: credit_missing_def scan_amount_def scan_reason_def catch_def void_def db_transaction_def seq_def bnd_def
        Let_def split: prod.splits)
qed

lemma scan_credited_state:
  "scan_credited sid (scan_credit_state ck i u n reason s) \<longleftrightarrow> sid = i \<or> scan_credited sid s"
  by (auto simp: scan_credit_state_def scan_credited_def credit_ref_taken_def scan_row_credit_def award_row_def)

lemma credit_missing_loop:
  assumes "cab_ok s" "cab_ids_ok s" "scan_room cfg rows s" "distinct (map sc_id rows)"
    and "\<forall>r \<in> set rows. \<not> scan_credited (sc_id r) s"
  shows "\<exists>t. for_each (\<lambda>r _. credit_missing cfg ck r) rows () s = (Inr (), t) \<and> scans t = scans s
    \<and> (\<forall>sid. scan_credited sid t \<longleftrightarrow> sid \<in> sc_id ` set rows \<or> scan_credited sid s)
    \<and> (\<forall>u. user_cab_balance t u = map_option (\<lambda>b. b + sum_where (\<lambda>r. sc_user_id r = u) (scan_amount cfg) rows) (user_cab_balance s u))"
  using assms
proof (induction rows arbitrary: s)
  case Nil
  have "map_option (\<lambda>b. b) x = x" for x :: "int option" by (cases x) simp_all
  then show ?case by simp
next
  case (Cons r rows)
  let ?n = "scan_amount cfg r" and ?u = "sc_user_id r"
  let ?t = "scan_credit_state ck (sc_id r) ?u ?n (scan_reason cfg r) s"
  have run: "credit_missing cfg ck r s = (Inr (), ?t)"
    using Cons.prems by (intro credit_missing_run) auto
  have "cab_ok ?t" using keepsD [OF keeps_cab_credit_missing Cons.prems(1) run] .
  moreover have "cab_ids_ok ?t"
    using Cons.prems(2) by (auto simp: cab_ids_ok_def scan_credit_state_def scan_row_credit_def award_row_def less_Suc_eq)
  moreover have "scan_room cfg rows ?t"
    using Cons.prems(3) unfolding scan_room_def
    by (auto simp: scan_credit_state_def credited_def add.assoc split: option.splits if_splits)
  moreover have "\<forall>x \<in> set rows. \<not> scan_credited (sc_id x) ?t"
    using Cons.prems(4,5) by (auto simp: scan_credited_state) (metis image_eqI)
  ultimately obtain t where t: "for_each (\<lambda>r _. credit_missing cfg ck r) rows () ?t = (Inr (), t)" "scans t = scans ?t"
    and cr: "\<forall>sid. scan_credited sid t \<longleftrightarrow> sid \<in> sc_id ` set rows \<or> scan_credited sid ?t"
    and bal: "\<forall>u. user_cab_balance t u = map_option (\<lambda>b. b + sum_where (\<lambda>r. sc_user_id r = u) (scan_amount cfg) rows) (user_cab_balance ?t u)"
    using Cons.IH [of ?t] Cons.prems(4) by auto
  have "user_cab_balance ?t u = map_option (\<lambda>b. b + (if ?u = u then ?n else 0)) (user_cab_balance s u)" for u
    by (auto simp: scan_credit_state_def credited_def option.map_ident split: option.split)
  then have "user_cab_balance t u = map_option (\<lambda>b. b + sum_where (\<lambda>r. sc_user_id r = u) (scan_amount cfg) (r # rows)) (user_cab_balance s u)" for u
    using bal by (simp add: option.map_comp o_def add.assoc)
  moreover have "scans ?t = scans s" by (simp add: scan_credit_state_def)
  ultimately show ?case using t cr by (auto simp: bnd_run_Inr [of "credit_missing cfg ck r" s, OF run] scan_credited_state)
qed


definition missing_demo :: db where
  "missing_demo = (cab_demo 80)\<lparr> scans := [\<lparr> sc_id = 40, sc_user_id = 7, sc_store_id = None, sc_product_ean = None, sc_price = 0,
     sc_receipt_id = None, sc_status = ''accepted'', sc_scanned_at = 0, sc_scan_type = ''receipt'',
     sc_status_updated_at = now demo_clock - day_us \<rparr>] \<rparr>"



section \<open>The cashback check\<close>

lemma withdrawal_tx_appended:
  assumes "withdraw cfg env ck u n s = (Inr (w, m), t)" and "admin_refuse w reason refund t = (Inr x, t')"
  shows "cashback_transactions t' = cashback_transactions s @ [withdrawal_tx_row ck (next_uuid s) u n]"
proof -
  from withdraw_Inr [OF assms(1)] obtain s1 where run: "withdraw_cashback cfg ck u n s = (Inr w, s1)"
    and rest: "case fst (initiate_payout env w n s1) of Inl e \<Rightarrow> t = s1
       | Inr ref \<Rightarrow> t = snd (db_transaction (set_withdrawal_provider_ref ck w ref) s1)" by blast
  have s1: "cashback_transactions s1 = cashback_transactions s @ [withdrawal_tx_row ck (next_uuid s) u n]"
    using run by (auto simp: withdraw_cashback_Inr withdrawn_state_def)
  have "cashback_transactions t = cashback_transactions s1"
    using rest by (auto simp: db_transaction_def withdrawal_run_iff split: sum.splits prod.splits)
  moreover have "admin_refuse_withdrawal w reason refund t = (Inr x, t')"
    using assms(2) by (auto simp: admin_refuse_def catch_Inr_iff db_transaction_Inr_iff split: if_splits)
  from admin_refuse_Inr [OF this] have "cashback_transactions t' = cashback_transactions t" by auto
  ultimately show ?thesis by (simp add: s1)
qed

lemma computed_cashback_append:
  "cashback_transactions t = cashback_transactions s @ [r] \<Longrightarrow> cb_user_id r = u \<Longrightarrow> cb_type r = ''WITHDRAWAL'' \<Longrightarrow>
   computed_cashback t u = computed_cashback s u - cb_amount r"
  by (simp add: computed_cashback_def)

text \<open>
  C27 (safety). The cashback check has no term for a refund: on a user without drift, a withdrawal that is
  requested and then refused with a refund, which restores the balance exactly, is reported from then on as a
  drift of the withdrawn amount.
\<close>

theorem refund_reported_as_drift:
  assumes "withdraw cfg env ck u n s = (Inr (w, m), t)" and "admin_refuse w reason True t = (Inr x, t')"
    and "\<forall>r \<in> set (cashback_withdrawals s). wd_id r \<noteq> w"
    and "fst (check_cashback_balance_integrity [u] s) = Inr []"
  shows "user_cashback_balance t' = user_cashback_balance s
    \<and> (\<exists>b. user_cashback_balance s u = Some b \<and> check_cashback_balance_integrity [u] t' = (Inr
         [\<lparr> dr_user_id = u, dr_stored_balance = b, dr_computed_balance = b - n, dr_drift = n \<rparr>], t'))"
proof -
  from withdraw_row [OF assms(1,3)] withdraw_Inr [OF assms(1)] obtain b r where n: "0 < n"
    and b: "user_cashback_balance s u = Some b" "user_cashback_balance t = (user_cashback_balance s)(u \<mapsto> b - n)"
    and r: "find_withdrawal w t = Some r" "wd_amount r = n" "wd_user_id r = u" by blast
  have "admin_refuse_withdrawal w reason True t = (Inr x, t')"
    using assms(2) by (auto simp: admin_refuse_def catch_Inr_iff db_transaction_Inr_iff split: if_splits)
  from admin_refuse_Inr [OF this] r b have bal: "user_cashback_balance t' = user_cashback_balance s"
    by (auto simp: get_cashback_balance_def)
  have "computed_cashback s u = b"
    using assms(4) b(1) by (simp add: check_cashback_balance_integrity_def drift_of_def split: if_splits)
  then have "computed_cashback t' u = b - n"
    using computed_cashback_append [OF withdrawal_tx_appended [OF assms(1,2)], of u] by (simp add: withdrawal_tx_row_def)
  with bal b(1) n show ?thesis
    by (simp add: check_cashback_balance_integrity_def drift_of_def List.map_filter_simps)
qed

definition drift_demo :: db where
  "drift_demo = (cashback_demo 1000)\<lparr> cashback_transactions :=
     [(credit_row (clock_at 0) 5 1 2 ''ean'' 1000 4 (Some 0))\<lparr> cb_status := ''confirmed'' \<rparr>] \<rparr>"

lemma drift_demo_run:
  "\<exists>t t'. withdraw demo_cfg paying_env (clock_at 5) 1 600 drift_demo = (Inr (11, 600), t)
     \<and> admin_refuse 11 ''fraud'' True t = (Inr (), t')"
  by (simp add: withdraw_eval drift_demo_def credit_row_def admin_refuse_def admin_refuse_withdrawal_def
      get_withdrawal_for_update_def mark_withdrawal_failed_def credit_cashback_balance_def)

theorem refund_reported_as_drift_witness:
  "\<exists>t t'. withdraw demo_cfg paying_env (clock_at 5) 1 600 drift_demo = (Inr (11, 600), t)
     \<and> admin_refuse 11 ''fraud'' True t = (Inr (), t')
     \<and> check_cashback_balance_integrity [1] t' =
         (Inr [\<lparr> dr_user_id = 1, dr_stored_balance = 1000, dr_computed_balance = 400, dr_drift = 600 \<rparr>], t')"
proof -
  from drift_demo_run obtain t t' where run: "withdraw demo_cfg paying_env (clock_at 5) 1 600 drift_demo = (Inr (11, 600), t)"
    "admin_refuse 11 ''fraud'' True t = (Inr (), t')" by blast
  have "\<forall>r \<in> set (cashback_withdrawals drift_demo). wd_id r \<noteq> 11"
    "fst (check_cashback_balance_integrity [1] drift_demo) = Inr []"
    by (simp_all add: drift_demo_def cashback_demo_def check_cashback_balance_integrity_def drift_of_def computed_cashback_def
        credit_row_def List.map_filter_simps)
  from refund_reported_as_drift [OF run this] run show ?thesis by (auto simp: drift_demo_def cashback_demo_def)
qed

end
