(* ===== verification/Ratis_OrderTypes.thy ===== *)
theory Ratis_OrderTypes
  imports Ratis_Reconciliation
begin

text \<open>
  The shape of the rows of \<open>gift_card_orders\<close>. A property of one row that holds for a new order and
  survives the five updates the code performs on a row holds for every row of every reachable state; the
  locale proves that once, and its interpretation gives the columns that go together.
\<close>

section \<open>Properties of a row\<close>

definition orders_all :: "(order_row \<Rightarrow> bool) \<Rightarrow> db \<Rightarrow> bool" where
  "orders_all P s \<longleftrightarrow> (\<forall>r \<in> set (gift_card_orders s). P r)"

locale order_rows =
  fixes P :: "order_row \<Rightarrow> bool"
  assumes new_row: "st \<in> set gift_source_types \<Longrightarrow> P (new_order ck i u b denom st ref)"
    and issue_row: "P r \<Longrightarrow> go_status r = ''pending'' \<Longrightarrow> P (issued_order ck poid code r)"
    and fail_row: "P r \<Longrightarrow> go_status r = ''pending'' \<Longrightarrow> P (failed_order ck r)"
    and churn_row: "P r \<Longrightarrow> go_status r = ''pending'' \<Longrightarrow> P (churned_order ck r)"
    and eligible_row: "P r \<Longrightarrow> P (r\<lparr> go_eligible_at := e \<rparr>)"
    and reserve_row: "P r \<Longrightarrow> P (r\<lparr> go_cap_reserved_cents := n \<rparr>)"
begin

lemma rows_same: "gift_card_orders t = gift_card_orders s \<Longrightarrow> orders_all P t = orders_all P s"
  by (simp add: orders_all_def)

lemma rows_update:
  "orders_all P s \<Longrightarrow> (\<And>r. P r \<Longrightarrow> q r \<Longrightarrow> P (f r)) \<Longrightarrow>
   orders_all P (s\<lparr> gift_card_orders := update_where q f (gift_card_orders s) \<rparr>)"
  by (auto simp: orders_all_def set_update_where)

lemma keeps_pending: "(\<And>r. P r \<Longrightarrow> go_status r = ''pending'' \<Longrightarrow> P (f r)) \<Longrightarrow> keeps (orders_all P) (update_pending i f)"
  by (rule keepsI) (auto simp: update_pending_run intro!: rows_update)

lemma keeps_order: "(\<And>r. P r \<Longrightarrow> P (f r)) \<Longrightarrow> keeps (orders_all P) (modify (update_order i f))"
  by (rule keeps_modify) (simp add: update_order_def rows_update)

lemma keeps_ytd: "keeps (orders_all P) (update_ytd u g)"
  unfolding update_ytd_def Let_def by (intro keeps_intro keeps_modify) (simp_all add: orders_all_def)

lemma keeps_reserve: "keeps (orders_all P) (reserve_gift_card_cap cap ck i defer)"
  unfolding reserve_gift_card_cap_def Let_def by (intro keeps_intro keeps_ytd keeps_order reserve_row)

lemma keeps_release: "keeps (orders_all P) (release_gift_card_cap i)"
  unfolding release_gift_card_cap_def Let_def by (intro keeps_intro keeps_ytd keeps_order reserve_row)

lemma keeps_cab: "keeps (orders_all P) (award_cab ck u n reason rid rt ap cm bp season)"
  "keeps (orders_all P) (debit_cab ck u n reason rid rt txo)"
  by (rule keeps_frame [where f = gift_card_orders], rule orders_frame.keeps_award orders_frame.keeps_debit, erule rows_same)+

lemma keeps_refund: "keeps (orders_all P) (refund_order_cab ck i)"
  unfolding refund_order_cab_def
  by (auto intro!: keeps_bnd keeps_cab split: option.splits prod.splits ref_text.splits)

lemma keeps_mark_failed: "orders_all P start \<Longrightarrow> keeps (orders_all P) (mark_failed ck start i)"
  unfolding mark_failed_def update_order_failed_def
  by (intro keeps_catch keeps_bnd keeps_if keeps_seq keeps_ret keeps_pending keeps_refund keeps_release keeps_modify fail_row)

lemma keeps_provider: "orders_all P start \<Longrightarrow> keeps (orders_all P) (issue_at_provider env ck start r)"
  unfolding issue_at_provider_def update_order_issued_def Let_def
  by (auto intro!: keeps_bnd keeps_seq keeps_mark_failed keeps_pending issue_row split: option.splits runa_response.splits)

lemma keeps_issue: "orders_all P start \<Longrightarrow> keeps (orders_all P) (issue_gift_card env cap ck start i)"
  unfolding issue_gift_card_def
  by (auto intro!: keeps_bnd keeps_reserve keeps_mark_failed keeps_provider keeps_order eligible_row
      split: option.splits prod.splits cap_decision.splits)

lemma keeps_issue_bg: "keeps (orders_all P) (issue_gift_card_bg env cap ck i)"
proof (rule keepsI)
  fix s r t assume "orders_all P s" and "issue_gift_card_bg env cap ck i s = (r, t)"
  moreover have "keeps (orders_all P) (catch (db_transaction (issue_gift_card env cap ck s i)) (\<lambda>_. ret ()))"
    using \<open>orders_all P s\<close> by (intro keeps_catch keeps_transaction keeps_issue keeps_ret)
  ultimately show "orders_all P t" by (auto simp: issue_gift_card_bg_def dest: keepsD)
qed

lemma keeps_trigger: "keeps (orders_all P) (trigger_all http ck dry ids)"
proof -
  have "keeps (orders_all P) (notify_rewards_to_issue http ck i)" for i
    unfolding notify_rewards_to_issue_def issue_existing_order_def
    by (auto intro!: keeps_if keeps_catch keeps_seq keeps_bnd keeps_case_option keeps_issue_bg split: prod.split)
  then show ?thesis unfolding trigger_all_def by (intro keeps_intro)
qed

lemma keeps_reconcile_pending: "keeps (orders_all P) (reconcile_pending_gift_card_orders ck dry)"
proof -
  have "keeps (orders_all P) (release_cap_sql i u)" for i u
    unfolding release_cap_sql_def by (intro keeps_intro keeps_ytd keeps_order reserve_row)
  moreover have "keeps (orders_all P) (refund_debit_sql ck x)" for x
    by (rule keeps_frame [OF refund_debit_leaves]) (simp add: orders_all_def)
  ultimately have "keeps (orders_all P) (reconcile_one_order ck i u ref)" for i u ref
    unfolding reconcile_one_order_def update_order_failed_def
    by (auto intro!: keeps_bnd keeps_if keeps_pending keeps_seq fail_row split: ref_text.split option.split)
  then show ?thesis unfolding reconcile_pending_gift_card_orders_def
    by (intro keeps_bnd keeps_reads keeps_if keeps_ret keeps_for_each keeps_catch keeps_seq keeps_transaction)
qed

lemma keeps_payout: "keeps (orders_all P) (payout_run http ck dry)"
proof -
  have "keeps (orders_all P) (notify_rewards_to_issue http ck i)" for i
    unfolding notify_rewards_to_issue_def issue_existing_order_def
    by (auto intro!: keeps_if keeps_catch keeps_seq keeps_bnd keeps_case_option keeps_issue_bg split: prod.split)
  then have "keeps (orders_all P) (payout_order http ck dry e acc)" for e acc
    unfolding payout_order_def is_still_subscribed_def by (cases acc) (auto intro!: keeps_intro)
  moreover have "keeps (orders_all P) (mark_churned ck i)" for i
    unfolding mark_churned_def by (intro keeps_void keeps_pending churn_row)
  ultimately show ?thesis unfolding payout_run_def by (auto intro!: keeps_intro split: prod.split)
qed

lemma insert_rows:
  assumes "orders_all P s" and "insert_gift_card_order ck u b denom st ref s = (Inr i, t)" shows "orders_all P t"
proof -
  have "st \<in> set gift_source_types" using assms(2) by (auto simp: insert_gift_card_order_def split: if_splits)
  with insert_order_Inr [OF assms(2)] assms(1) new_row show ?thesis by (auto simp: orders_all_def)
qed

lemma preserves_insert: "preserves (orders_all P) (insert_gift_card_order ck u b denom st ref)"
  by (rule preservesI) (rule insert_rows)

lemma enqueue_rows:
  assumes "orders_all P s" and "enqueue_delayed_gift_card ck cfg x use s = (Inr y, t)" shows "orders_all P t"
  using assms insert_rows [OF assms(1)]
  by (auto simp: enqueue_delayed_gift_card_def bnd_Inr_iff intro!: rows_update eligible_row split: option.splits ref_text.splits)

lemma shop_rows:
  assumes "orders_all P s" and run: "create_boutique_order cfg ck u b denom s = (Inr x, t)" shows "orders_all P t"
proof -
  from run have "create_order cfg ck u b denom s = (Inr x, t)" by (auto simp: create_boutique_order_Inr)
  with create_order_Inr have "debit_and_order ck u b denom (cab_cost cfg denom) s = (Inr (or_order_id x), t)" by blast
  moreover have "preserves (orders_all P) (debit_and_order ck u b denom c)" for c
    unfolding debit_and_order_def insert_order_def
    by (intro preserves_bnd preserves_seq keeps_preserves [OF keeps_fresh_uuid] keeps_preserves [OF keeps_cab(2)]
        preserves_insert) (simp add: orders_all_def)
  ultimately show ?thesis using assms(1) by (blast dest: preservesD)
qed

lemma step_rows:
  assumes "gift_step cap s t" and "orders_all P s" shows "orders_all P t"
  using assms(1)
proof (cases rule: gift_step.cases)
  case (deferred http ck dry)
  then show ?thesis using assms(2) unfolding reconcile_deferred_gift_card_orders_def by (simp add: keeps_snd [OF keeps_trigger])
next
  case (processing http ck dry)
  then show ?thesis using assms(2) unfolding reconcile_processing_gift_card_orders_def by (simp add: keeps_snd [OF keeps_trigger])
next
  case (order denom ck u b st ref i)
  with insert_rows [OF assms(2)] show ?thesis by blast
next
  case (referral cfg ck x use y)
  with enqueue_rows [OF assms(2)] show ?thesis by blast
next
  case (shop bcfg ck u b denom x)
  with shop_rows [OF assms(2)] show ?thesis by blast
next
  case (issue env ck i)
  with keeps_snd [OF keeps_issue_bg assms(2)] show ?thesis by simp
next
  case (stuck ck dry)
  with keeps_snd [OF keeps_reconcile_pending assms(2)] show ?thesis by simp
next
  case (payout http ck dry)
  with keeps_snd [OF keeps_payout assms(2)] show ?thesis by simp
next
  case other
  with rows_same assms(2) show ?thesis by blast
qed

lemma reachable_rows: "(gift_step cap)\<^sup>*\<^sup>* s t \<Longrightarrow> orders_all P s \<Longrightarrow> orders_all P t"
  by (induction rule: rtranclp_induct) (auto intro: step_rows)

end


section \<open>The columns that go together\<close>

definition order_statuses :: "string list" where
  "order_statuses = [''pending'', ''issued'', ''failed'', ''churned'']"

definition order_typed :: "order_row \<Rightarrow> bool" where
  "order_typed r \<longleftrightarrow> go_status r \<in> set order_statuses \<and> go_source_type r \<in> set gift_source_types
     \<and> (go_code r \<noteq> None \<longleftrightarrow> go_status r = ''issued'') \<and> (go_provider_order_id r \<noteq> None \<longleftrightarrow> go_status r = ''issued'')
     \<and> (go_issued_at r \<noteq> None \<longleftrightarrow> go_status r = ''issued'')
     \<and> (go_failed_at r \<noteq> None \<longleftrightarrow> go_status r \<in> {''failed'', ''churned''})"

interpretation typed: order_rows order_typed
  by unfold_locales (auto simp: order_typed_def order_statuses_def new_order_def issued_order_def failed_order_def churned_order_def)

text \<open>
  C22 (type). Every row of the order table stays well formed along every history of the services and batches:
  its status and source are of the documented sets, a card code, a provider reference and an issue date are
  there exactly when the order is issued, and a failure date exactly when it failed or the referred user left.
\<close>

theorem orders_well_formed:
  assumes "\<forall>r \<in> set (gift_card_orders s). order_typed r" and "(gift_step cap)\<^sup>*\<^sup>* s t"
  shows "\<forall>r \<in> set (gift_card_orders t). order_typed r"
  using typed.reachable_rows [OF assms(2)] assms(1) by (simp add: orders_all_def)

theorem orders_well_formed_witness:
  "(\<exists>r \<in> set (gift_card_orders issued_demo). go_code r \<noteq> None)
    \<and> list_all order_typed (gift_card_orders (snd (payout_run \<lparr> rh_configured = True, rh_answers = (\<lambda>_. True),
        rh_runa = runa_down, rh_cap_annual = 120000 \<rparr> demo_clock False issued_demo)))"
proof -
  have "\<forall>r \<in> set (gift_card_orders issued_demo). order_typed r"
    by (simp add: issued_demo_def issued_demo_order_def order_typed_def issued_order_def new_order_def order_statuses_def gift_source_types_def)
  moreover have "(gift_step 120000)\<^sup>*\<^sup>* issued_demo (snd (payout_run \<lparr> rh_configured = True, rh_answers = (\<lambda>_. True),
      rh_runa = runa_down, rh_cap_annual = 120000 \<rparr> demo_clock False issued_demo))"
    by (rule r_into_rtranclp, rule gift_step.payout) simp
  ultimately have "\<forall>r \<in> set (gift_card_orders (snd (payout_run \<lparr> rh_configured = True, rh_answers = (\<lambda>_. True), rh_runa = runa_down,
        rh_cap_annual = 120000 \<rparr> demo_clock False issued_demo))). order_typed r" by (rule orders_well_formed)
  moreover have "\<exists>r \<in> set (gift_card_orders issued_demo). go_code r \<noteq> None"
    by (simp add: issued_demo_def issued_demo_order_def issued_order_def)
  ultimately show ?thesis by (simp add: list_all_iff)
qed

end
