(* ===== verification/Ratis_Play.thy ===== *)
theory Ratis_Play
  imports Ratis_Gamification
begin

text \<open>
  Ground of the event engine (missions, bursts, mystery product, events): its part of the database, the
  calendar it needs, and what the reward operations leave alone there. A predicate that does not look
  at that part is kept by every statement on it (locale \<open>play_frame\<close>, interpreted on the invariants of
  the CAB and XP tables), and the reward operations leave that part as it is.
\<close>

section \<open>Statements on the tables of the engine\<close>

definition modify_play :: "(play_db \<Rightarrow> play_db) \<Rightarrow> unit db_op" where
  "modify_play f = modify (\<lambda>s. s\<lparr> play := f (play s) \<rparr>)"

lemma modify_play_run [simp]: "modify_play f s = (Inr (), s\<lparr> play := f (play s) \<rparr>)"
  by (simp add: modify_play_def)

lemma bnd_modify_play [simp]: "bnd (modify_play f) g s = g () (s\<lparr> play := f (play s) \<rparr>)"
  by (simp add: modify_play_def)

lemma seq_modify_play [simp]: "seq (modify_play f) n s = n (s\<lparr> play := f (play s) \<rparr>)"
  by (simp add: modify_play_def)

locale play_frame =
  fixes I :: "db \<Rightarrow> bool"
  assumes frame_play: "I (s\<lparr> play := p \<rparr>) = I s"
begin

lemma keeps_play: "keeps I (modify_play f)"
  unfolding modify_play_def by (rule keeps_modify) (simp add: frame_play)

end

interpretation play_cab: play_frame cab_ok
  by unfold_locales simp

interpretation play_xp: play_frame xp_ok
  by unfold_locales simp

text \<open>The tables of the engine are none of the CAB columns.\<close>

interpretation engine_frame: cab_frame "\<lambda>s. I (play s)" for I
  by unfold_locales simp_all

lemma keeps_engine_xp: "keeps (\<lambda>s. I (play s)) (award_xp pg ck u n reason rid rt base ap cm)"
  by (rule keeps_award_xp) simp_all

lemma keeps_engine_unlock: "preserves (\<lambda>s. I (play s)) (unlock ck u a)"
  unfolding unlock_def
  by (intro preserves_bnd preserves_seq preserves_if preserves_ret preserves_throw preserves_reads
      keeps_preserves [OF keeps_modify] keeps_preserves [OF engine_frame.keeps_award]) simp_all

lemma keeps_engine_hook: "keeps (\<lambda>s. I (play s)) (achievement_hook ck u e)"
  by (rule keeps_achievement_hook [OF keeps_engine_unlock])

lemma keeps_engine_increment: "keeps (\<lambda>s. I (play s)) (maybe_increment_challenge ck u a cx)"
  by (rule keeps_maybe_increment) simp_all

lemma keeps_engine_enqueue: "keeps (\<lambda>s. I (play s)) (enqueue_notification ck u t d)"
  by (rule keeps_enqueue_notification) simp_all

lemmas keeps_engine = engine_frame.keeps_award engine_frame.keeps_debit keeps_engine_xp keeps_engine_hook
  keeps_engine_increment keeps_engine_enqueue engine_frame.keeps_fresh


section \<open>The calendar\<close>

text \<open>
  The proleptic Gregorian calendar of \<open>datetime\<close> and of \<open>date_trunc\<close>/\<open>to_char\<close>: day 0 is 1970-01-01,
  a Thursday, and Monday is weekday 0. Days are counted from the first of March of the year 0.
\<close>

definition weekday :: "day \<Rightarrow> int" where
  "weekday d = (d + 3) mod 7"

definition days_from_civil :: "int \<Rightarrow> int \<Rightarrow> int \<Rightarrow> day" where
  "days_from_civil y m d =
     (let y' = (if m \<le> 2 then y - 1 else y);
          era = y' div 400; yoe = y' mod 400;
          doy = (153 * (if 2 < m then m - 3 else m + 9) + 2) div 5 + d - 1
      in era * 146097 + (yoe * 365 + yoe div 4 - yoe div 100 + doy) - 719468)"

definition year_month :: "day \<Rightarrow> int \<times> int" where
  "year_month d =
     (let z = d + 719468; era = z div 146097; doe = z mod 146097;
          yoe = (doe - doe div 1460 + doe div 36524 - doe div 146096) div 365;
          doy = doe - (365 * yoe + yoe div 4 - yoe div 100);
          mp = (5 * doy + 2) div 153; m = (if mp < 10 then mp + 3 else mp - 9)
      in (yoe + era * 400 + (if m \<le> 2 then 1 else 0), m))"

definition first_of_next_month :: "stamp \<Rightarrow> stamp" where
  "first_of_next_month t =
     (case year_month (t div day_us) of (y, m) \<Rightarrow>
        (if m = 12 then days_from_civil (y + 1) 1 1 else days_from_civil y (m + 1) 1) * day_us)"

lemma weekday_bounds: "0 \<le> weekday d" "weekday d \<le> 6"
  by (simp_all add: weekday_def)

end
