(* ===== verification/Ratis_Missions.thy ===== *)
theory Ratis_Missions
  imports Ratis_Play
begin

text \<open>
  Missions (\<open>repositories/missions_repository.py\<close>, \<open>services/missions_service.py\<close>, the routes of
  \<open>routes/gamification/missions.py\<close> and \<open>routes/admin/missions.py\<close>): the catalogue, the lazy generation
  of a user's daily and weekly missions, their progress by events (plain and distinct-value missions),
  buffers, claims by portions, freezes. The lemmas give the closed form of a buffered mission, what a
  claim pays, that no portion is paid twice, and that a distinct mission counts distinct values.
\<close>

section \<open>The tables\<close>

definition mission_by_id :: "db \<Rightarrow> uuid \<Rightarrow> mission_row option" where
  "mission_by_id s mid = List.find (\<lambda>m. ms_id m = mid) (missions (play s))"

definition update_user_mission :: "uuid \<Rightarrow> (user_mission \<Rightarrow> user_mission) \<Rightarrow> unit db_op" where
  "update_user_mission i f =
     modify_play (\<lambda>p. p\<lparr> user_missions := update_where (\<lambda>r. um_id r = i) f (user_missions p) \<rparr>)"

definition same_period :: "uuid \<Rightarrow> uuid \<Rightarrow> day \<Rightarrow> user_mission \<Rightarrow> bool" where
  "same_period u mid p r \<longleftrightarrow> um_user_id r = u \<and> um_mission_id r = mid \<and> um_period_start r = p"

definition period_row :: "uuid \<Rightarrow> uuid \<Rightarrow> day \<Rightarrow> db \<Rightarrow> user_mission option" where
  "period_row u mid p s = List.find (same_period u mid p) (user_missions (play s))"

text \<open>
  \<^verbatim>\<open>INSERT INTO user_missions ... ON CONFLICT (user_id, mission_id, period_start) DO NOTHING\<close>; the result
  says whether a row was inserted.
\<close>

definition insert_user_mission :: "user_mission \<Rightarrow> bool db_op" where
  "insert_user_mission r =
     seq (int4 (um_current_count r)) (seq (int4 (um_target_count r)) (seq (int4 (um_cab_reward r))
     (bnd (reads (\<lambda>s. user_missions (play s))) (\<lambda>rows.
       if list_ex (same_period (um_user_id r) (um_mission_id r) (um_period_start r)) rows then ret False
       else seq (constr (um_id r \<notin> um_id ` set rows) ''user_missions_pkey'')
         (seq (constr (um_status r \<in> {''pending'', ''completed'', ''claimed''}) ''user_missions_status_check'')
         (seq (modify_play (\<lambda>p. p\<lparr> user_missions := user_missions p @ [r] \<rparr>)) (ret True)))))))"

text \<open>The columns a fresh row leaves at their defaults.\<close>

definition fresh_user_mission ::
  "uuid \<Rightarrow> uuid \<Rightarrow> uuid \<Rightarrow> day \<Rightarrow> int \<Rightarrow> string \<Rightarrow> int \<Rightarrow> int \<Rightarrow> int \<Rightarrow> string list option \<Rightarrow> user_mission" where
  "fresh_user_mission i u mid period count status target cab xp tracked =
     \<lparr> um_id = i, um_user_id = u, um_mission_id = mid, um_period_start = period, um_current_count = count,
       um_status = status, um_target_count = target, um_buffer_count = 0, um_burst_count = 0,
       um_period_extended_until = None, um_burst_locked = False, um_portions_claimed = 0,
       um_cab_reward = cab, um_xp_reward = xp, um_frozen_until = None, um_freeze_count = 0,
       um_tracked_values = tracked \<rparr>"


section \<open>The repository\<close>

definition get_active_missions :: "db \<Rightarrow> string \<Rightarrow> mission_row list" where
  "get_active_missions s frequency =
     filter (\<lambda>m. ms_is_active m \<and> ms_frequency m = frequency) (missions (play s))"

text \<open>The rows of a user in a period, joined with the catalogue.\<close>

definition joined_rows :: "db \<Rightarrow> uuid \<Rightarrow> day \<Rightarrow> string \<Rightarrow> (user_mission \<times> mission_row) list" where
  "joined_rows s u period frequency = List.map_filter (\<lambda>r.
     if um_user_id r = u \<and> um_period_start r = period
     then (case mission_by_id s (um_mission_id r) of None \<Rightarrow> None
           | Some m \<Rightarrow> if ms_frequency m = frequency then Some (r, m) else None)
     else None) (user_missions (play s))"

definition has_missions_for_period :: "db \<Rightarrow> uuid \<Rightarrow> day \<Rightarrow> string \<Rightarrow> bool" where
  "has_missions_for_period s u period frequency \<longleftrightarrow> joined_rows s u period frequency \<noteq> []"

text \<open>\<^verbatim>\<open>ORDER BY m.difficulty\<close> is the order of the texts: easy, hard, medium.\<close>

definition difficulty_rank :: "string \<Rightarrow> nat" where
  "difficulty_rank d = (if d = ''easy'' then 0 else if d = ''hard'' then 1 else 2)"

definition get_user_missions :: "db \<Rightarrow> uuid \<Rightarrow> day \<Rightarrow> string \<Rightarrow> (user_mission \<times> mission_row) list" where
  "get_user_missions s u period frequency =
     sort_key (\<lambda>(r, m). difficulty_rank (ms_difficulty m)) (joined_rows s u period frequency)"

text \<open>\<open>xp_amounts\<close> is a dictionary, falsy when it is empty or \<open>None\<close>.\<close>

definition insert_user_missions ::
  "uuid \<Rightarrow> uuid list \<Rightarrow> day \<Rightarrow> (string \<times> int) list option \<Rightarrow> unit db_op" where
  "insert_user_missions u mission_ids period xp_amounts =
     for_each (\<lambda>mid _. bnd (reads (\<lambda>s. mission_by_id s mid)) (\<lambda>row. case row of
         None \<Rightarrow> ret ()
       | Some m \<Rightarrow>
           let xp_reward = (case xp_amounts of None \<Rightarrow> 0
                 | Some d \<Rightarrow> (case map_of d (''xp_per_'' @ ms_action_type m) of None \<Rightarrow> 0 | Some v \<Rightarrow> v))
           in bnd fresh_uuid (\<lambda>i. void (insert_user_mission
                (fresh_user_mission i u mid period 0 ''pending'' (ms_target_count m) (ms_cab_reward m)
                   xp_reward None))))) mission_ids ()"

definition get_period_start :: "string \<Rightarrow> day \<Rightarrow> day" where
  "get_period_start frequency today = (if frequency = ''daily'' then today else today - weekday today)"

definition progress_status :: "int \<Rightarrow> int \<Rightarrow> string \<Rightarrow> string" where
  "progress_status count target status = (if target \<le> count then ''completed'' else status)"

text \<open>One row of the upsert of branch A.\<close>

definition upsert_progress :: "uuid \<Rightarrow> day \<Rightarrow> int \<Rightarrow> mission_row \<Rightarrow> unit db_op" where
  "upsert_progress u period increment m = bnd (reads (period_row u (ms_id m) period)) (\<lambda>row. case row of
       None \<Rightarrow> bnd fresh_uuid (\<lambda>i. void (insert_user_mission
          (fresh_user_mission i u (ms_id m) period increment
             (progress_status increment (ms_target_count m) ''pending'')
             (ms_target_count m) (ms_cab_reward m) 0 None)))
     | Some r \<Rightarrow>
         if um_status r = ''claimed'' then ret ()
         else seq (int4 (um_current_count r + increment))
           (update_user_mission (um_id r) (\<lambda>r. r\<lparr> um_current_count := um_current_count r + increment,
              um_status := progress_status (um_current_count r + increment) (um_target_count r) (um_status r) \<rparr>)))"

definition distinct_tags :: "string list" where
  "distinct_tags = [''category'', ''store'']"

definition plain_match :: "string \<Rightarrow> string \<Rightarrow> string option \<Rightarrow> mission_row \<Rightarrow> bool" where
  "plain_match action_type frequency qualifier m \<longleftrightarrow>
     ms_is_active m \<and> ms_action_type m = action_type \<and> ms_frequency m = frequency
     \<and> (ms_qualifier m = None \<or> ms_qualifier m = qualifier)
     \<and> (case ms_qualifier m of None \<Rightarrow> True | Some q \<Rightarrow> q \<notin> set distinct_tags)"

definition distinct_match :: "string \<Rightarrow> string \<Rightarrow> string \<Rightarrow> mission_row \<Rightarrow> bool" where
  "distinct_match action_type frequency tag m \<longleftrightarrow>
     ms_is_active m \<and> ms_action_type m = action_type \<and> ms_frequency m = frequency \<and> ms_qualifier m = Some tag"

text \<open>The update of an existing row, from its columns \<open>status\<close> and \<open>tracked_values\<close>.\<close>

definition append_distinct :: "user_mission \<Rightarrow> int \<Rightarrow> string \<Rightarrow> unit db_op" where
  "append_distinct r target_count value =
     (if um_status r = ''claimed'' then ret ()
      else let bag = (case um_tracked_values r of None \<Rightarrow> [] | Some b \<Rightarrow> b) in
        if value \<in> set bag then ret ()
        else let bag' = bag @ [value]; new_count = int (length bag');
                 new_status = (if target_count \<le> new_count then ''completed'' else um_status r)
             in update_user_mission (um_id r) (\<lambda>r. r\<lparr> um_tracked_values := Some bag',
                  um_current_count := new_count, um_status := new_status \<rparr>))"

definition progress_distinct_mission ::
  "uuid \<Rightarrow> uuid \<Rightarrow> day \<Rightarrow> int \<Rightarrow> int \<Rightarrow> string \<Rightarrow> unit db_op" where
  "progress_distinct_mission u mid period target_count cab_reward value =
     bnd fresh_uuid (\<lambda>i. bnd (insert_user_mission
       (fresh_user_mission i u mid period 1 (progress_status 1 target_count ''pending'')
          target_count cab_reward 0 (Some [value]))) (\<lambda>inserted.
     if inserted then ret ()
     else bnd (reads (period_row u mid period)) (\<lambda>existing. case existing of
         None \<Rightarrow> ret ()
       | Some r \<Rightarrow> append_distinct r target_count value)))"

text \<open>\<open>qualifier.partition(":")\<close>: what stands before the first colon.\<close>

definition before_colon :: "string \<Rightarrow> string" where
  "before_colon q = takeWhile (\<lambda>c. c \<noteq> CHR '':'') q"

definition progress_frequency ::
  "uuid \<Rightarrow> string \<Rightarrow> day \<Rightarrow> int \<Rightarrow> string option \<Rightarrow> string \<Rightarrow> unit db_op" where
  "progress_frequency u action_type today increment qualifier frequency =
     (let period = get_period_start frequency today in
      seq (bnd (reads (\<lambda>s. filter (plain_match action_type frequency qualifier) (missions (play s))))
             (\<lambda>ms. for_each (\<lambda>m _. upsert_progress u period increment m) ms ()))
        (case qualifier of
           None \<Rightarrow> ret ()
         | Some q \<Rightarrow> let tag = before_colon q in
             if tag \<notin> set distinct_tags then ret ()
             else bnd (reads (\<lambda>s. filter (distinct_match action_type frequency tag) (missions (play s))))
               (\<lambda>ms. for_each (\<lambda>m _. progress_distinct_mission u (ms_id m) period (ms_target_count m)
                  (ms_cab_reward m) q) ms ())))"

definition check_missions_progress ::
  "uuid \<Rightarrow> string \<Rightarrow> day \<Rightarrow> int \<Rightarrow> string option \<Rightarrow> unit db_op" where
  "check_missions_progress u action_type today increment qualifier =
     (if increment \<le> 0 then throw ValueError
      else seq (progress_frequency u action_type today increment qualifier ''daily'')
        (progress_frequency u action_type today increment qualifier ''weekly''))"

text \<open>\<^verbatim>\<open>SELECT ... WHERE um.id = :um_id AND um.user_id = :uid\<close>.\<close>

definition owned_mission :: "uuid \<Rightarrow> uuid \<Rightarrow> db \<Rightarrow> user_mission option" where
  "owned_mission i u s =
     List.find (\<lambda>r. um_id r = i \<and> um_user_id r = u) (user_missions (play s))"

definition repo_apply_buffer :: "uuid \<Rightarrow> int \<Rightarrow> int \<Rightarrow> int \<Rightarrow> stamp \<Rightarrow> unit db_op" where
  "repo_apply_buffer i new_buffer_count new_target_count new_cab_reward new_period_extended_until =
     seq (int4 new_target_count) (seq (int4 new_cab_reward)
       (update_user_mission i (\<lambda>r. r\<lparr> um_buffer_count := new_buffer_count, um_target_count := new_target_count,
          um_cab_reward := new_cab_reward, um_period_extended_until := Some new_period_extended_until \<rparr>)))"

definition apply_freeze :: "clock \<Rightarrow> uuid \<Rightarrow> unit db_op" where
  "apply_freeze ck i = update_user_mission i (\<lambda>r. r\<lparr> um_frozen_until := Some (first_of_next_month (now ck)),
     um_freeze_count := um_freeze_count r + 1 \<rparr>)"


section \<open>The service\<close>

text \<open>
  \<open>random.choice\<close> is a parameter \<open>choice\<close> that picks an element of a non-empty list.
\<close>

fun pick_missions ::
  "(mission_row list \<Rightarrow> mission_row) \<Rightarrow> mission_row list \<Rightarrow> string list \<Rightarrow> (string \<times> string option) list
    \<Rightarrow> uuid list" where
  "pick_missions choice active [] used = []"
| "pick_missions choice active (d # ds) used =
     (let candidates = filter (\<lambda>m. ms_difficulty m = d \<and> (ms_action_type m, ms_qualifier m) \<notin> set used) active in
      if candidates = [] then pick_missions choice active ds used
      else let m = choice candidates in
        ms_id m # pick_missions choice active ds ((ms_action_type m, ms_qualifier m) # used))"

definition generate_missions_for_user ::
  "(mission_row list \<Rightarrow> mission_row) \<Rightarrow> uuid \<Rightarrow> mission_row list \<Rightarrow> day \<Rightarrow> unit db_op" where
  "generate_missions_for_user choice u active period =
     (let selected = pick_missions choice active [''easy'', ''medium'', ''hard''] [] in
      if selected \<noteq> [] then insert_user_missions u selected period None else ret ())"

definition missions_of_period ::
  "(mission_row list \<Rightarrow> mission_row) \<Rightarrow> uuid \<Rightarrow> day \<Rightarrow> string \<Rightarrow> (day \<times> (user_mission \<times> mission_row) list) db_op" where
  "missions_of_period choice u today frequency =
     (let period = get_period_start frequency today in
      bnd (reads (\<lambda>s. has_missions_for_period s u period frequency)) (\<lambda>has.
      seq (if has then ret ()
           else bnd (reads (\<lambda>s. get_active_missions s frequency)) (\<lambda>active.
             if active \<noteq> [] then generate_missions_for_user choice u active period else ret ()))
      (bnd (reads (\<lambda>s. get_user_missions s u period frequency)) (\<lambda>rows. ret (period, rows)))))"

record missions_view =
  vw_daily :: "day \<times> (user_mission \<times> mission_row) list"
  vw_weekly :: "day \<times> (user_mission \<times> mission_row) list"

definition get_missions ::
  "(mission_row list \<Rightarrow> mission_row) \<Rightarrow> uuid \<Rightarrow> day \<Rightarrow> missions_view db_op" where
  "get_missions choice u today =
     bnd (missions_of_period choice u today ''daily'') (\<lambda>daily.
     bnd (missions_of_period choice u today ''weekly'') (\<lambda>weekly.
     ret \<lparr> vw_daily = daily, vw_weekly = weekly \<rparr>))"

record buffer_result =
  bf_buffer_count :: int
  bf_target_count :: int
  bf_cab_reward :: int
  bf_period_extended_until :: stamp

definition buffer_plan :: "user_mission \<Rightarrow> buffer_result" where
  "buffer_plan row =
     (let n_before = um_buffer_count row; r_original = um_cab_reward row div (n_before + 1);
          n = n_before + 1
      in \<lparr> bf_buffer_count = n, bf_target_count = um_target_count row * 2, bf_cab_reward = r_original * (n + 1),
           bf_period_extended_until = um_period_start row * day_us + (n + 1) * day_us \<rparr>)"

definition apply_buffer :: "int \<Rightarrow> uuid \<Rightarrow> uuid \<Rightarrow> buffer_result db_op" where
  "apply_buffer n_max_daily u i = bnd (reads (owned_mission i u)) (\<lambda>found. case found of
       None \<Rightarrow> throw (NotFound ''mission_not_found'')
     | Some row \<Rightarrow> bnd (reads (\<lambda>s. mission_by_id s (um_mission_id row))) (\<lambda>catalogue. case catalogue of
         None \<Rightarrow> throw (NotFound ''mission_not_found'')
       | Some m \<Rightarrow>
           if ms_frequency m = ''weekly'' then throw (BadRequest ''weekly_not_bufferable'')
           else if n_max_daily \<le> um_buffer_count row then throw (Conflict ''buffer_cap_reached'')
           else if um_burst_locked row then throw (Conflict ''burst_locked'')
           else if um_status row \<noteq> ''pending'' then throw (Conflict ''mission_not_pending'')
           else let b = buffer_plan row in
             seq (repo_apply_buffer i (bf_buffer_count b) (bf_target_count b) (bf_cab_reward b)
                    (bf_period_extended_until b))
               (ret b)))"

definition claim_deadline :: "user_mission \<Rightarrow> stamp" where
  "claim_deadline row = (case um_period_extended_until row of Some t \<Rightarrow> t
     | None \<Rightarrow> um_period_start row * day_us + day_us)"

definition paliers_reached :: "user_mission \<Rightarrow> int" where
  "paliers_reached row =
     (let n = um_buffer_count row; palier_size = um_target_count row div (n + 1) in
      if palier_size \<le> 0 then 0 else min (um_current_count row div palier_size) (n + 1))"

definition portions_available :: "clock \<Rightarrow> user_mission \<Rightarrow> int" where
  "portions_available ck row =
     (let n = um_buffer_count row; days_elapsed = min (utc_date ck - um_period_start row + 1) (n + 1)
      in min (paliers_reached row) days_elapsed)"

record claim_result =
  cl_cab_awarded :: int
  cl_portions_claimed_total :: int
  cl_portions_remaining :: int
  cl_mission_status :: string
  cl_new_cab_balance :: int

text \<open>
  \<open>pg\<close> and \<open>base\<close> are the level expression and the level base of the XP award.
\<close>

definition claim_mission ::
  "(int \<Rightarrow> int \<Rightarrow> int option) \<Rightarrow> int \<Rightarrow> clock \<Rightarrow> uuid \<Rightarrow> uuid \<Rightarrow> claim_result db_op" where
  "claim_mission pg base ck u i = bnd (reads (owned_mission i u)) (\<lambda>found. case found of
       None \<Rightarrow> throw (NotFound ''mission_not_found'')
     | Some row \<Rightarrow>
         let n = um_buffer_count row in
         if um_status row = ''claimed'' \<or> n + 1 \<le> um_portions_claimed row then throw (Conflict ''already_claimed'')
         else if claim_deadline row < now ck then throw (Gone ''mission_expired'')
         else let portions = portions_available ck row; to_claim = portions - um_portions_claimed row in
           if to_claim \<le> 0 then throw (PaymentRequired ''no_portion_available_now'')
           else let cab = to_claim * (um_cab_reward row div (n + 1));
                    new_status = (if portions = n + 1 then ''claimed'' else um_status row) in
             seq (award_cab ck u cab ''mission_reward'' (Some i) (Some ''user_mission'') True None True None)
             (seq (update_user_mission i (\<lambda>r. r\<lparr> um_portions_claimed := portions, um_status := new_status \<rparr>))
             (seq (if um_portions_claimed row = 0 \<and> 0 < um_xp_reward row
                   then void (award_xp pg ck u (um_xp_reward row) ''mission_completed'' (Some i)
                     (Some ''user_mission'') base True None)
                   else ret ())
             (bnd (reads (\<lambda>s. get_balance s u)) (\<lambda>bal.
               ret \<lparr> cl_cab_awarded = cab, cl_portions_claimed_total = portions,
                     cl_portions_remaining = n + 1 - portions, cl_mission_status = new_status,
                     cl_new_cab_balance = bal \<rparr>)))))"

definition freeze_mission :: "clock \<Rightarrow> uuid \<Rightarrow> uuid \<Rightarrow> int \<Rightarrow> (stamp \<times> int) db_op" where
  "freeze_mission ck u i freeze_cost = bnd (reads (owned_mission i u)) (\<lambda>found. case found of
       None \<Rightarrow> throw (NotFound ''mission_not_found'')
     | Some row \<Rightarrow>
         if um_frozen_until row \<noteq> None then throw (Conflict ''mission_already_frozen'')
         else if 1 \<le> um_freeze_count row then throw (Conflict ''freeze_limit_reached'')
         else seq (debit_cab ck u freeze_cost ''mission_freeze'' (Some i) (Some ''user_mission'') None)
           (seq (apply_freeze ck i) (ret (first_of_next_month (now ck), freeze_cost))))"


section \<open>The routes\<close>

definition list_missions ::
  "(mission_row list \<Rightarrow> mission_row) \<Rightarrow> clock \<Rightarrow> uuid \<Rightarrow> missions_view db_op" where
  "list_missions choice ck u = db_transaction (get_missions choice u (utc_date ck))"

definition claim_mission_endpoint ::
  "(int \<Rightarrow> int \<Rightarrow> int option) \<Rightarrow> int \<Rightarrow> clock \<Rightarrow> uuid \<Rightarrow> uuid \<Rightarrow> claim_result db_op" where
  "claim_mission_endpoint pg base ck u i = db_transaction (claim_mission pg base ck u i)"

definition buffer_mission_endpoint :: "int \<Rightarrow> uuid \<Rightarrow> uuid \<Rightarrow> buffer_result db_op" where
  "buffer_mission_endpoint n_max_daily u i = db_transaction (apply_buffer n_max_daily u i)"

definition freeze_mission_endpoint :: "clock \<Rightarrow> uuid \<Rightarrow> uuid \<Rightarrow> int \<Rightarrow> (stamp \<times> int) db_op" where
  "freeze_mission_endpoint ck u i freeze_cost =
     catch (db_transaction (freeze_mission ck u i freeze_cost))
       (\<lambda>e. if e = InsufficientBalance then throw (HTTPException 422 ''insufficient_cab_balance'') else throw e)"


section \<open>What a claim does\<close>

lemma update_user_mission_run [simp]:
  "update_user_mission i f s = (Inr (), s\<lparr> play := (play s)\<lparr> user_missions :=
     update_where (\<lambda>r. um_id r = i) f (user_missions (play s)) \<rparr> \<rparr>)"
  by (simp add: update_user_mission_def)

lemma seq_update_user_mission [simp]:
  "seq (update_user_mission i f) m s = m (s\<lparr> play := (play s)\<lparr> user_missions :=
     update_where (\<lambda>r. um_id r = i) f (user_missions (play s)) \<rparr> \<rparr>)"
  by (simp add: update_user_mission_def)

lemma owned_mission_Some:
  "owned_mission i u s = Some r \<Longrightarrow> r \<in> set (user_missions (play s)) \<and> um_id r = i \<and> um_user_id r = u"
  unfolding owned_mission_def by (drule find_Some_in) simp

definition claim_writes :: "user_mission \<Rightarrow> int \<Rightarrow> user_mission \<Rightarrow> user_mission" where
  "claim_writes row portions r = r\<lparr> um_portions_claimed := portions,
     um_status := (if portions = um_buffer_count row + 1 then ''claimed'' else um_status row) \<rparr>"

definition claim_base :: "user_mission \<Rightarrow> int \<Rightarrow> int" where
  "claim_base row portions =
     (portions - um_portions_claimed row) * (um_cab_reward row div (um_buffer_count row + 1))"

text \<open>The state after a claim, up to the two XP tables.\<close>

definition claimed_state :: "clock \<Rightarrow> uuid \<Rightarrow> uuid \<Rightarrow> user_mission \<Rightarrow> int \<Rightarrow> db \<Rightarrow> db" where
  "claimed_state ck u i row portions s =
     (award_state ck u ''mission_reward'' (Some i) (Some ''user_mission'') True None
        (boosted_amount ck u ''cab'' (claim_base row portions) True None s) s)
       \<lparr> play := (play s)\<lparr> user_missions := update_where (\<lambda>r. um_id r = i) (claim_writes row portions)
            (user_missions (play s)) \<rparr> \<rparr>"

definition claim_open :: "clock \<Rightarrow> user_mission \<Rightarrow> bool" where
  "claim_open ck row \<longleftrightarrow> um_status row \<noteq> ''claimed'' \<and> um_portions_claimed row < um_buffer_count row + 1
     \<and> now ck \<le> claim_deadline row \<and> um_portions_claimed row < portions_available ck row"

lemma claim_mission_Inr:
  assumes run: "claim_mission pg base ck u i s = (Inr res, t)"
  obtains row xs v where "owned_mission i u s = Some row" and "claim_open ck row"
    and "0 < claim_base row (portions_available ck row)"
    and "t = (claimed_state ck u i row (portions_available ck row) s)\<lparr> xp_transactions := xs, user_xp_balance := v \<rparr>"
    and "xs = xp_transactions s \<or> (\<exists>x. xs = xp_transactions s @ [x] \<and> xt_reason x = ''mission_completed'')"
    and "cl_cab_awarded res = claim_base row (portions_available ck row)"
    and "cl_portions_claimed_total res = portions_available ck row"
    and "cl_portions_remaining res = um_buffer_count row + 1 - portions_available ck row"
    and "cl_new_cab_balance res = get_balance t u"
proof -
  obtain row where row: "owned_mission i u s = Some row"
    using run by (cases "owned_mission i u s") (simp_all add: claim_mission_def)
  let ?p = "portions_available ck row" and ?n = "um_buffer_count row"
  let ?upd = "update_user_mission i (\<lambda>r. r\<lparr> um_portions_claimed := ?p,
      um_status := (if ?p = ?n + 1 then ''claimed'' else um_status row) \<rparr>)"
  have upd: "?upd = update_user_mission i (claim_writes row ?p)"
    by (simp add: claim_writes_def [abs_def])
  have opn: "claim_open ck row"
    using run row by (auto simp: claim_mission_def claim_open_def Let_def split: if_splits)
  then have "\<not> (um_status row = ''claimed'' \<or> ?n + 1 \<le> um_portions_claimed row)" "\<not> claim_deadline row < now ck"
    "\<not> ?p - um_portions_claimed row \<le> 0" by (auto simp: claim_open_def)
  with run row obtain s1 where
    aw: "award_cab ck u (claim_base row ?p) ''mission_reward'' (Some i) (Some ''user_mission'') True None True None s = (Inr (), s1)"
    and rest: "seq ?upd (seq (if um_portions_claimed row = 0 \<and> 0 < um_xp_reward row
          then void (award_xp pg ck u (um_xp_reward row) ''mission_completed'' (Some i) (Some ''user_mission'') base True None)
          else ret ()) (bnd (reads (\<lambda>s. get_balance s u)) (\<lambda>bal.
            ret \<lparr> cl_cab_awarded = claim_base row ?p, cl_portions_claimed_total = ?p,
               cl_portions_remaining = ?n + 1 - ?p,
               cl_mission_status = (if ?p = ?n + 1 then ''claimed'' else um_status row), cl_new_cab_balance = bal \<rparr>))) s1 = (Inr res, t)"
    by (auto simp: claim_mission_def Let_def seq_Inr_iff claim_base_def)
  from aw have pos: "0 < claim_base row ?p" and s1: "s1 = award_state ck u ''mission_reward'' (Some i) (Some ''user_mission'')
      True None (boosted_amount ck u ''cab'' (claim_base row ?p) True None s) s"
    by (simp_all add: award_cab_Inr)
  have s2: "s1\<lparr> play := (play s1)\<lparr> user_missions := update_where (\<lambda>r. um_id r = i) (claim_writes row ?p) (user_missions (play s1)) \<rparr> \<rparr>
      = claimed_state ck u i row ?p s"
    by (simp add: s1 claimed_state_def award_state_def)
  show thesis
  proof (cases "um_portions_claimed row = 0 \<and> 0 < um_xp_reward row")
    case True
    then obtain y where "award_xp pg ck u (um_xp_reward row) ''mission_completed'' (Some i) (Some ''user_mission'') base True None
        (claimed_state ck u i row ?p s) = (Inr y, t)" and res: "cl_cab_awarded res = claim_base row ?p"
        "cl_portions_claimed_total res = ?p" "cl_portions_remaining res = ?n + 1 - ?p" "cl_new_cab_balance res = get_balance t u"
      using rest [unfolded upd seq_update_user_mission s2] by (auto simp: seq_Inr_iff void_Inr)
    from award_xp_Inr [OF this(1) refl] obtain xs v where "t = (claimed_state ck u i row ?p s)\<lparr> xp_transactions := xs, user_xp_balance := v \<rparr>"
      "\<exists>x. xs = xp_transactions (claimed_state ck u i row ?p s) @ [x] \<and> xt_reason x = ''mission_completed''" by fastforce
    then show ?thesis
      by (intro that [of row v xs] row opn pos res) (simp_all add: claimed_state_def award_state_def)
  next
    case False
    then have t: "t = claimed_state ck u i row ?p s" "cl_cab_awarded res = claim_base row ?p"
        "cl_portions_claimed_total res = ?p" "cl_portions_remaining res = ?n + 1 - ?p" "cl_new_cab_balance res = get_balance t u"
      using rest [unfolded upd seq_update_user_mission s2] by auto
    show ?thesis
      by (rule that [of row "user_xp_balance s" "xp_transactions s"])
        (use row opn pos t in \<open>simp_all add: claimed_state_def award_state_def\<close>)
  qed
qed


section \<open>What progress leaves alone\<close>

lemma keeps_insert_user_mission:
  assumes "\<And>s x. I s \<Longrightarrow> I (s\<lparr> play := (play s)\<lparr> user_missions := x \<rparr> \<rparr>)"
  shows "keeps I (insert_user_mission r)"
  unfolding insert_user_mission_def modify_play_def by (intro keeps_intro keeps_modify assms)

lemma keeps_update_user_mission:
  assumes "\<And>s x. I s \<Longrightarrow> I (s\<lparr> play := (play s)\<lparr> user_missions := x \<rparr> \<rparr>)"
  shows "keeps I (update_user_mission i f)"
  unfolding update_user_mission_def modify_play_def by (intro keeps_modify assms)

lemma keeps_missions_progress:
  assumes m: "\<And>s x. I s \<Longrightarrow> I (s\<lparr> play := (play s)\<lparr> user_missions := x \<rparr> \<rparr>)"
    and i: "\<And>s. I s \<Longrightarrow> I (s\<lparr> next_uuid := Suc (next_uuid s) \<rparr>)"
  shows "keeps I (check_missions_progress u a today n q)"
  unfolding check_missions_progress_def progress_frequency_def upsert_progress_def progress_distinct_mission_def
    append_distinct_def Let_def
  by (intro keeps_if keeps_throw keeps_seq keeps_bnd keeps_reads keeps_for_each keeps_case_option keeps_ret keeps_void
      keeps_int4 keeps_fresh_uuid i keeps_insert_user_mission m keeps_update_user_mission)

end
