(* ===== verification/Ratis_MissionAdmin.thy ===== *)
theory Ratis_MissionAdmin
  imports Ratis_Missions
begin

text \<open>
  The mission catalogue as the admin pages edit it (\<open>admin_list_missions\<close>, \<open>admin_create_mission\<close>,
  \<open>admin_update_mission\<close> of \<open>repositories/missions_repository.py\<close> and the routes of
  \<open>routes/admin/missions.py\<close>).
\<close>

section \<open>Operations\<close>

definition mission_action_types :: "string list" where
  "mission_action_types = [''receipt_scan'', ''label_scan'', ''barcode_scan'', ''product_identification'',
     ''price_compared'', ''fill_product_field'', ''scan_distinct'', ''promo_found'']"

definition template_action_types :: "string list" where
  "template_action_types = [''receipt_scan'', ''label_scan'', ''barcode_scan'', ''price_compared'']"

definition frequencies :: "string list" where
  "frequencies = [''daily'', ''weekly'']"

definition difficulties :: "string list" where
  "difficulties = [''easy'', ''medium'', ''hard'']"

text \<open>\<open>uq_mission\<close> is declared \<open>NULLS NOT DISTINCT\<close>: null qualifiers are equal.\<close>

definition mission_key :: "mission_row \<Rightarrow> string \<times> string option \<times> string \<times> string" where
  "mission_key m = (ms_action_type m, ms_qualifier m, ms_frequency m, ms_difficulty m)"

definition mission_checks :: "mission_row \<Rightarrow> unit db_op" where
  "mission_checks m =
     seq (int4 (ms_target_count m)) (seq (int4 (ms_cab_reward m))
     (seq (constr (ms_action_type m \<in> set mission_action_types) ''missions_action_type_check'')
     (seq (constr (ms_frequency m \<in> set frequencies) ''missions_frequency_check'')
       (constr (ms_difficulty m \<in> set difficulties) ''missions_difficulty_check''))))"

definition insert_mission :: "mission_row \<Rightarrow> unit db_op" where
  "insert_mission m = seq (mission_checks m) (bnd (reads (\<lambda>s. missions (play s))) (\<lambda>rows.
     seq (constr (ms_id m \<notin> ms_id ` set rows) ''missions_pkey'')
     (seq (constr (mission_key m \<notin> mission_key ` set rows) ''uq_mission'')
       (modify_play (\<lambda>p. p\<lparr> missions := missions p @ [m] \<rparr>)))))"

definition update_mission :: "uuid \<Rightarrow> (mission_row \<Rightarrow> mission_row) \<Rightarrow> unit db_op" where
  "update_mission mid f = bnd (reads (\<lambda>s. mission_by_id s mid)) (\<lambda>row. case row of
       None \<Rightarrow> ret ()
     | Some m \<Rightarrow> seq (mission_checks (f m)) (bnd (reads (\<lambda>s. missions (play s))) (\<lambda>rows.
         seq (constr (mission_key (f m) \<notin> mission_key ` set (filter (\<lambda>r. ms_id r \<noteq> mid) rows)) ''uq_mission'')
           (modify_play (\<lambda>p. p\<lparr> missions := update_where (\<lambda>r. ms_id r = mid) f (missions p) \<rparr>)))))"

text \<open>
  \<^verbatim>\<open>ORDER BY frequency, difficulty, action_type\<close> compares texts; \<open>collation\<close>, a parameter, ranks them in the
  order of the database's collation.
\<close>

definition admin_list_missions ::
  "(string \<times> string \<times> string \<Rightarrow> nat) \<Rightarrow> db \<Rightarrow> string option \<Rightarrow> bool option \<Rightarrow> nat \<Rightarrow> nat
    \<Rightarrow> mission_row list \<times> nat" where
  "admin_list_missions collation s frequency is_active limit offset =
     (let rows = filter (\<lambda>m. (case frequency of None \<Rightarrow> True | Some f \<Rightarrow> ms_frequency m = f)
            \<and> (case is_active of None \<Rightarrow> True | Some b \<Rightarrow> ms_is_active m = b)) (missions (play s))
      in (take limit (drop offset (sort_key (\<lambda>m. collation (ms_frequency m, ms_difficulty m, ms_action_type m)) rows)),
          length rows))"

record template_body =
  tb_action_type :: string
  tb_frequency :: string
  tb_difficulty :: string
  tb_target_count :: int
  tb_cab_reward :: int
  tb_is_active :: bool
  tb_is_boostable :: bool

definition template_row :: "uuid \<Rightarrow> template_body \<Rightarrow> mission_row" where
  "template_row i b = \<lparr> ms_id = i, ms_action_type = tb_action_type b, ms_qualifier = None,
     ms_frequency = tb_frequency b, ms_difficulty = tb_difficulty b, ms_target_count = tb_target_count b,
     ms_cab_reward = tb_cab_reward b, ms_is_active = tb_is_active b, ms_is_boostable = tb_is_boostable b \<rparr>"

definition admin_create_mission :: "template_body \<Rightarrow> uuid db_op" where
  "admin_create_mission b = bnd fresh_uuid (\<lambda>i.
     seq (catch (insert_mission (template_row i b))
            (\<lambda>e. if is_integrity_error e then throw MissionUniquenessConflict else throw e))
       (ret i))"

text \<open>
  A patch holds the fields of the body that are set; each may be set to \<open>None\<close> explicitly.
\<close>

record template_patch =
  tp_action_type :: "string option option"
  tp_frequency :: "string option option"
  tp_difficulty :: "string option option"
  tp_target_count :: "int option option"
  tp_cab_reward :: "int option option"
  tp_is_active :: "bool option option"
  tp_is_boostable :: "bool option option"

definition empty_patch :: template_patch where
  "empty_patch = \<lparr> tp_action_type = None, tp_frequency = None, tp_difficulty = None, tp_target_count = None,
     tp_cab_reward = None, tp_is_active = None, tp_is_boostable = None \<rparr>"

text \<open>\<^verbatim>\<open>fields.get(k, current)\<close> and \<^verbatim>\<open>COALESCE(fields.get(k), current)\<close>.\<close>

definition get_or :: "'a option option \<Rightarrow> 'a \<Rightarrow> 'a option" where
  "get_or f current = (case f of None \<Rightarrow> Some current | Some v \<Rightarrow> v)"

definition coalesce :: "'a option option \<Rightarrow> 'a \<Rightarrow> 'a" where
  "coalesce f current = (case f of Some (Some v) \<Rightarrow> v | _ \<Rightarrow> current)"

definition patched_mission :: "template_patch \<Rightarrow> mission_row \<Rightarrow> mission_row" where
  "patched_mission p m = m\<lparr> ms_action_type := coalesce (tp_action_type p) (ms_action_type m),
     ms_frequency := coalesce (tp_frequency p) (ms_frequency m),
     ms_difficulty := coalesce (tp_difficulty p) (ms_difficulty m),
     ms_target_count := coalesce (tp_target_count p) (ms_target_count m),
     ms_cab_reward := coalesce (tp_cab_reward p) (ms_cab_reward m),
     ms_is_active := coalesce (tp_is_active p) (ms_is_active m),
     ms_is_boostable := coalesce (tp_is_boostable p) (ms_is_boostable m) \<rparr>"

definition triple_taken :: "uuid \<Rightarrow> string option \<times> string option \<times> string option \<Rightarrow> db \<Rightarrow> bool" where
  "triple_taken mid t s \<longleftrightarrow> list_ex (\<lambda>r. (Some (ms_action_type r), Some (ms_frequency r), Some (ms_difficulty r)) = t
     \<and> ms_id r \<noteq> mid) (missions (play s))"

definition admin_update_mission :: "uuid \<Rightarrow> template_patch \<Rightarrow> unit db_op" where
  "admin_update_mission mid p = bnd (reads (\<lambda>s. mission_by_id s mid)) (\<lambda>row. case row of
       None \<Rightarrow> throw MissionNotFound
     | Some m \<Rightarrow>
         if p = empty_patch then ret ()
         else let t = (get_or (tp_action_type p) (ms_action_type m), get_or (tp_frequency p) (ms_frequency m),
                       get_or (tp_difficulty p) (ms_difficulty m)) in
           bnd (reads (triple_taken mid t)) (\<lambda>taken.
           if t \<noteq> (Some (ms_action_type m), Some (ms_frequency m), Some (ms_difficulty m)) \<and> taken
           then throw MissionUniquenessConflict
           else update_mission mid (patched_mission p)))"

text \<open>The body constraints of the two routes.\<close>

definition opt_ok :: "('a \<Rightarrow> bool) \<Rightarrow> 'a option option \<Rightarrow> bool" where
  "opt_ok q f = (case f of Some (Some v) \<Rightarrow> q v | _ \<Rightarrow> True)"

definition template_ok :: "template_body \<Rightarrow> bool" where
  "template_ok b \<longleftrightarrow> tb_action_type b \<in> set template_action_types \<and> tb_frequency b \<in> set frequencies
     \<and> tb_difficulty b \<in> set difficulties \<and> 1 \<le> tb_target_count b \<and> tb_target_count b \<le> 10000
     \<and> 0 \<le> tb_cab_reward b \<and> tb_cab_reward b \<le> 1000000"

definition patch_ok :: "template_patch \<Rightarrow> bool" where
  "patch_ok p \<longleftrightarrow> opt_ok (\<lambda>a. a \<in> set template_action_types) (tp_action_type p)
     \<and> opt_ok (\<lambda>f. f \<in> set frequencies) (tp_frequency p) \<and> opt_ok (\<lambda>d. d \<in> set difficulties) (tp_difficulty p)
     \<and> opt_ok (\<lambda>n. 1 \<le> n \<and> n \<le> 10000) (tp_target_count p)
     \<and> opt_ok (\<lambda>n. 0 \<le> n \<and> n \<le> 1000000) (tp_cab_reward p)"

definition catalogue_error :: "error \<Rightarrow> error" where
  "catalogue_error e = (if e = MissionNotFound then HTTPException 404 ''mission_not_found''
     else if e = MissionUniquenessConflict then HTTPException 409 ''mission_uniqueness_conflict'' else e)"

definition admin_create_mission_template :: "template_body \<Rightarrow> mission_row option db_op" where
  "admin_create_mission_template b =
     (if \<not> template_ok b then throw (HTTPException 422 ''validation_error'')
      else bnd (catch (db_transaction (admin_create_mission b)) (\<lambda>e. throw (catalogue_error e)))
        (\<lambda>i. reads (\<lambda>s. mission_by_id s i)))"

definition admin_patch_mission_template :: "uuid \<Rightarrow> template_patch \<Rightarrow> mission_row option db_op" where
  "admin_patch_mission_template mid p =
     (if \<not> patch_ok p then throw (HTTPException 422 ''validation_error'')
      else seq (catch (db_transaction (admin_update_mission mid p)) (\<lambda>e. throw (catalogue_error e)))
        (reads (\<lambda>s. mission_by_id s mid)))"

definition admin_list_mission_templates ::
  "(string \<times> string \<times> string \<Rightarrow> nat) \<Rightarrow> string option \<Rightarrow> bool option \<Rightarrow> nat \<Rightarrow> nat
    \<Rightarrow> (mission_row list \<times> nat) db_op" where
  "admin_list_mission_templates collation frequency active limit offset =
     (if limit < 1 \<or> 500 < limit \<or> (frequency \<noteq> None \<and> the frequency \<notin> set frequencies)
      then throw (HTTPException 422 ''validation_error'')
      else reads (\<lambda>s. admin_list_missions collation s frequency active limit offset))"


section \<open>The catalogue stays unique\<close>

definition catalogue_ok :: "db \<Rightarrow> bool" where
  "catalogue_ok s \<longleftrightarrow> distinct (map ms_id (missions (play s))) \<and> distinct (map mission_key (missions (play s)))"

end
