(* ===== verification/Ratis_Burst.thy ===== *)
theory Ratis_Burst
  imports Ratis_Missions
begin

text \<open>
  Bursts (\<open>services/burst_service.py\<close>, the burst half of \<open>repositories/missions_repository.py\<close> and the
  route): XP for running past the target of a mission. The lemmas show that the double division and the
  logarithm of \<open>compute_burst_paliers\<close> find the exact power of two for every pair of \<open>INTEGER\<close> counts.
\<close>

section \<open>Operations\<close>

abbreviation "BURST_PALIER_HARD_CAP \<equiv> 30 :: int"

text \<open>
  \<^verbatim>\<open>int(math.log2(x))\<close> for a double \<open>x >= 2\<close>: the logarithm of a double that is not a power of two and
  lies within \<open>INTEGER\<close> range differs from a whole number by far more than an ulp, so its integer part is
  that of the integer part of \<open>x\<close>.
\<close>

function int_log2 :: "int \<Rightarrow> nat" where
  "int_log2 q = (if q < 2 then 0 else Suc (int_log2 (q div 2)))"
  by auto
termination by (relation "measure nat") auto

declare int_log2.simps [simp del]

definition compute_burst_paliers :: "int \<Rightarrow> int \<Rightarrow> int \<Rightarrow> int" where
  "compute_burst_paliers count target current_burst_count =
     (if target \<le> 0 \<or> count < target * 2
      then min current_burst_count BURST_PALIER_HARD_CAP
      else let ratio = dbl_of_frac count target; palier = int (int_log2 (dtrunc ratio))
           in min (max palier current_burst_count) BURST_PALIER_HARD_CAP)"

definition update_burst_state :: "uuid \<Rightarrow> int \<Rightarrow> unit db_op" where
  "update_burst_state i new_burst_count =
     update_user_mission i (\<lambda>r. r\<lparr> um_burst_count := new_burst_count, um_burst_locked := True \<rparr>)"

definition upsert_mission_xp_record ::
  "clock \<Rightarrow> uuid \<Rightarrow> uuid \<Rightarrow> uuid \<Rightarrow> int \<Rightarrow> int \<Rightarrow> int \<Rightarrow> unit db_op" where
  "upsert_mission_xp_record ck u mid umid xp_earned burst_count buffer_count =
     seq (constr (0 < xp_earned) ''mission_xp_records_xp_earned_pos'')
     (bnd fresh_uuid (\<lambda>i. bnd (reads (\<lambda>s. list_ex (\<lambda>x. mx_user_mission_id x = umid) (mission_xp_records (play s)))) (\<lambda>present.
       if present then modify_play (\<lambda>p. p\<lparr> mission_xp_records := update_where (\<lambda>x. mx_user_mission_id x = umid)
         (\<lambda>x. x\<lparr> mx_xp_earned := mx_xp_earned x + xp_earned, mx_burst_count := max burst_count (mx_burst_count x),
                 mx_buffer_count := buffer_count \<rparr>) (mission_xp_records p) \<rparr>)
       else modify_play (\<lambda>p. p\<lparr> mission_xp_records := mission_xp_records p @
         [\<lparr> mx_id = i, mx_user_id = u, mx_mission_id = mid, mx_user_mission_id = umid, mx_xp_earned = xp_earned,
            mx_burst_count = burst_count, mx_buffer_count = buffer_count, mx_recorded_at = now ck \<rparr>] \<rparr>))))"

record burst_result =
  bu_xp_awarded :: int
  bu_burst_count_total :: int
  bu_burst_locked :: bool
  bu_leaderboard_record_updated :: bool

definition claim_burst ::
  "(int \<Rightarrow> int \<Rightarrow> int option) \<Rightarrow> int \<Rightarrow> clock \<Rightarrow> uuid \<Rightarrow> uuid \<Rightarrow> burst_result db_op" where
  "claim_burst pg base ck u i = bnd (reads (owned_mission i u)) (\<lambda>found. case found of
       None \<Rightarrow> throw (NotFound ''mission_not_found'')
     | Some row \<Rightarrow>
         let paliers = compute_burst_paliers (um_current_count row) (um_target_count row) (um_burst_count row) in
         if paliers \<le> um_burst_count row then throw (PaymentRequired ''no_burst_palier_unlocked'')
         else if um_xp_reward row \<le> 0
         then seq (update_burst_state i paliers)
           (ret \<lparr> bu_xp_awarded = 0, bu_burst_count_total = paliers, bu_burst_locked = True,
                  bu_leaderboard_record_updated = False \<rparr>)
         else let xp = um_xp_reward row * (push_bit (nat paliers) 1 - push_bit (nat (um_burst_count row)) 1) in
           seq (award_xp pg ck u xp ''mission_burst'' (Some i) (Some ''user_mission'') base False None)
           (seq (update_burst_state i paliers)
           (seq (upsert_mission_xp_record ck u (um_mission_id row) i xp paliers (um_buffer_count row))
           (ret \<lparr> bu_xp_awarded = xp, bu_burst_count_total = paliers, bu_burst_locked = True,
                  bu_leaderboard_record_updated = True \<rparr>))))"

definition burst_claim_endpoint ::
  "(int \<Rightarrow> int \<Rightarrow> int option) \<Rightarrow> int \<Rightarrow> clock \<Rightarrow> uuid \<Rightarrow> uuid \<Rightarrow> burst_result db_op" where
  "burst_claim_endpoint pg base ck u i = db_transaction (claim_burst pg base ck u i)"


section \<open>The palier of a count\<close>

lemma int_log2_bounds: "1 \<le> q \<Longrightarrow> 2 ^ int_log2 q \<le> q \<and> q < 2 ^ Suc (int_log2 q)"
proof (induction q rule: int_log2.induct)
  case (1 q)
  show ?case
  proof (cases "q < 2")
    case True
    with 1 show ?thesis by (simp add: int_log2.simps)
  next
    case False
    then have "1 \<le> q div 2" by simp
    from "1.IH" [OF False this]
    have "2 * 2 ^ int_log2 (q div 2) \<le> 2 * (q div 2)" "2 * (q div 2) + 2 \<le> 2 * 2 ^ Suc (int_log2 (q div 2))"
      by simp_all
    moreover have "2 * (q div 2) \<le> q" "q < 2 * (q div 2) + 2" by presburger+
    moreover have "int_log2 q = Suc (int_log2 (q div 2))" using False by (simp add: int_log2.simps)
    ultimately show ?thesis by simp
  qed
qed

lemma int_log2_ge_iff: assumes "1 \<le> q" shows "n \<le> int_log2 q \<longleftrightarrow> 2 ^ n \<le> q"
proof
  assume "n \<le> int_log2 q"
  then have "(2::int) ^ n \<le> 2 ^ int_log2 q" by (rule power_increasing) simp
  with int_log2_bounds [OF assms] show "2 ^ n \<le> q" by linarith
next
  assume "2 ^ n \<le> q"
  show "n \<le> int_log2 q"
  proof (rule ccontr)
    assume "\<not> n \<le> int_log2 q"
    then have "(2::int) ^ Suc (int_log2 q) \<le> 2 ^ n" by (intro power_increasing) simp_all
    with int_log2_bounds [OF assms] \<open>2 ^ n \<le> q\<close> show False by linarith
  qed
qed

text \<open>The rounded quotient of two counts has the integer part of the exact one.\<close>

lemma rnd_le_fraction:
  assumes "m \<le> n * 2 ^ j" and "\<bar>n\<bar> \<le> 2 ^ 53" and "rnd (Dbl m k) = Dbl m' k"
  shows "m' \<le> n * 2 ^ j"
proof (cases "bitlen (nat \<bar>m\<bar>) \<le> 53")
  case True
  with assms show ?thesis by (simp add: Let_def)
next
  case False
  then have "m' = rhe m (2 ^ (bitlen (nat \<bar>m\<bar>) - 53)) * 2 ^ (bitlen (nat \<bar>m\<bar>) - 53)"
    using assms(3) by (simp add: Let_def)
  with rnd_num_le [OF assms(1,2) _ refl] False show ?thesis by simp
qed

lemma rnd_ge_fraction:
  assumes "n * 2 ^ j \<le> m" and "\<bar>n\<bar> \<le> 2 ^ 53" and "rnd (Dbl m k) = Dbl m' k"
  shows "n * 2 ^ j \<le> m'"
proof (cases "bitlen (nat \<bar>m\<bar>) \<le> 53")
  case True
  with assms show ?thesis by (simp add: Let_def)
next
  case False
  then have "m' = rhe m (2 ^ (bitlen (nat \<bar>m\<bar>) - 53)) * 2 ^ (bitlen (nat \<bar>m\<bar>) - 53)"
    using assms(3) by (simp add: Let_def)
  with rnd_num_ge [OF assms(1,2) _ refl] False show ?thesis by simp
qed

lemma rnd_exponent: "\<exists>m'. rnd (Dbl m k) = Dbl m' k"
  by (simp add: Let_def)

lemma dtrunc_between:
  assumes "0 \<le> q" and "q * 2 ^ k \<le> m" and "m < (q + 1) * 2 ^ k"
  shows "dtrunc (Dbl m k) = q"
proof -
  have m: "0 \<le> m" using assms(1,2) by (meson mult_nonneg_nonneg order_trans zero_le_numeral zero_le_power)
  have "m div 2 ^ k = q"
  proof (rule antisym)
    have "m \<le> ((q + 1) * 2 ^ k - 1)" using assms(3) by simp
    then have "m div 2 ^ k \<le> ((q + 1) * 2 ^ k - 1) div 2 ^ k" by (rule zdiv_mono1) simp
    also have "\<dots> = q" using div_mult_self3 [of "2 ^ k" "q" "2 ^ k - 1 :: int"]
      by (simp add: algebra_simps)
    finally show "m div 2 ^ k \<le> q" .
    have "q * 2 ^ k div 2 ^ k \<le> m div 2 ^ k" using assms(2) by (rule zdiv_mono1) simp
    then show "q \<le> m div 2 ^ k" by simp
  qed
  with m show ?thesis by (cases "m = 0") (auto simp: sgn_if)
qed

lemma sticky_bound:
  assumes "(x::int) \<le> z * t" and "0 < t"
  shows "2 * (x div t) + (if x mod t = 0 then 0 else 1) \<le> 2 * z"
proof (cases "x mod t = 0")
  case True
  have "x div t \<le> z * t div t" using assms by (rule zdiv_mono1)
  then have "x div t \<le> z" using assms(2) by simp
  with True show ?thesis by simp
next
  case False
  with assms(2) have "0 < x mod t" by (simp add: order_less_le)
  moreover have "x div t * t + x mod t = x" by simp
  ultimately have "x div t * t < z * t" using assms(1) by linarith
  with assms(2) have "x div t < z" by simp
  then show ?thesis by simp
qed

lemma dtrunc_dbl_of_frac:
  assumes "0 \<le> c" and "c < 2 ^ 32" and "0 < t" and "t < 2 ^ 32"
  shows "dtrunc (dbl_of_frac c t) = c div t"
proof -
  define b where "b = bitlen (nat t)"
  define k where "k = 60 + b"
  define m where "m = 2 * (c * 2 ^ k div t) + (if c * 2 ^ k mod t = 0 then 0 else 1)"
  obtain m' where r: "rnd (Dbl m (k + 1)) = Dbl m' (k + 1)" using rnd_exponent by blast
  then have frac: "dbl_of_frac c t = Dbl m' (k + 1)"
    unfolding dbl_of_frac_def Let_def b_def [symmetric] k_def [symmetric] m_def [symmetric] by simp
  have "0 < nat t" using assms(3) by simp
  from bitlen_bounds [OF this] have "int (2 ^ (b - 1)) \<le> int (nat t)" "int (nat t) < int (2 ^ b)"
    unfolding b_def by (simp_all only: of_nat_le_iff of_nat_less_iff)
  then have tb: "2 ^ (b - 1) \<le> t" "t < 2 ^ b" using assms(3) by simp_all
  then have "b \<noteq> 0" using assms(3) by (cases b) auto
  then have b2: "2 ^ b \<le> 2 * t" using tb(1) by (cases b) auto
  define q where "q = c div t"
  have "q * t + c mod t = c" "0 \<le> c mod t" "c mod t < t" using assms by (simp_all add: q_def)
  then have qt: "q * t \<le> c" "c + 1 \<le> (q + 1) * t" by (simp_all add: distrib_right)
  have q: "0 \<le> q" using assms by (simp add: q_def pos_imp_zdiv_nonneg_iff)
  have "q * 1 \<le> q * t" using q assms(3) by (intro mult_left_mono) auto
  then have qc: "q \<le> c" using qt(1) by simp
  have lower: "q * 2 ^ (k + 1) \<le> m'"
  proof (rule rnd_ge_fraction [OF _ _ r])
    have "q * 2 ^ k * t \<le> c * 2 ^ k" using qt(1) by (simp add: mult.commute mult.left_commute)
    then have "q * 2 ^ k * t div t \<le> c * 2 ^ k div t" using assms(3) by (rule zdiv_mono1)
    then have "q * 2 ^ k \<le> c * 2 ^ k div t" using assms(3) by simp
    then show "q * 2 ^ (k + 1) \<le> m" by (simp add: m_def)
    show "\<bar>q\<bar> \<le> 2 ^ 53" using qc q assms(2) by simp
  qed
  define z where "z = (q + 1) * 2 ^ b - 1"
  have upper: "m' \<le> z * 2 ^ 61"
  proof (rule rnd_le_fraction [OF _ _ r])
    have "c * 2 ^ b + 2 ^ b \<le> (q + 1) * t * 2 ^ b" using qt(2) by (metis distrib_right mult.left_neutral mult_right_mono zero_le_numeral zero_le_power)
    then have "c * 2 ^ b \<le> z * t" using tb(2) by (simp add: z_def algebra_simps)
    then have "c * 2 ^ b * 2 ^ 60 \<le> z * t * 2 ^ 60" by (rule mult_right_mono) simp
    then have "c * 2 ^ k \<le> (z * 2 ^ 60) * t" by (simp add: k_def power_add algebra_simps)
    from sticky_bound [OF this assms(3)] show "m \<le> z * 2 ^ 61" by (simp add: m_def)
    have "(q + 1) * 2 ^ b \<le> (q + 1) * (2 * t)" using b2 q by (intro mult_left_mono) auto
    also have "\<dots> \<le> 2 * c + 2 * t" using qt(1) by (simp add: algebra_simps)
    finally have "(q + 1) * 2 ^ b \<le> 2 * c + 2 * t" .
    moreover have "0 < (q + 1) * 2 ^ b" using q by (simp add: add_nonneg_pos)
    ultimately show "\<bar>z\<bar> \<le> 2 ^ 53" using assms unfolding z_def by simp
  qed
  have "z * 2 ^ 61 < (q + 1) * 2 ^ b * 2 ^ 61" by (simp add: z_def)
  also have "\<dots> = (q + 1) * 2 ^ (k + 1)" by (simp add: k_def power_add)
  finally have "m' < (q + 1) * 2 ^ (k + 1)" using upper by simp
  from dtrunc_between [OF q lower this] show ?thesis by (simp add: frac q_def)
qed

lemma palier_reached:
  assumes "0 \<le> c" and "c \<le> int4_max" and "0 < t" and "t \<le> int4_max"
    and "t * 2 \<le> c"
  shows "n \<le> int_log2 (dtrunc (dbl_of_frac c t)) \<longleftrightarrow> t * 2 ^ n \<le> c"
proof -
  have q: "dtrunc (dbl_of_frac c t) = c div t" using assms by (intro dtrunc_dbl_of_frac) simp_all
  have "1 * t div t \<le> c div t" using assms by (intro zdiv_mono1) simp_all
  then have "1 \<le> c div t" using assms(3) by simp
  moreover have "2 ^ n \<le> c div t \<longleftrightarrow> t * 2 ^ n \<le> c"
  proof
    assume "2 ^ n \<le> c div t"
    then have "t * 2 ^ n \<le> t * (c div t)" using assms(3) by (intro mult_left_mono) simp_all
    also have "\<dots> \<le> c" using assms(3) by (metis add.commute le_add_same_cancel1 less_imp_le mult_div_mod_eq pos_mod_sign)
    finally show "t * 2 ^ n \<le> c" .
  next
    assume "t * 2 ^ n \<le> c"
    then have "t * 2 ^ n div t \<le> c div t" using assms(3) by (rule zdiv_mono1)
    with assms(3) show "2 ^ n \<le> c div t" by simp
  qed
  ultimately show ?thesis by (simp add: q int_log2_ge_iff)
qed



end
