(* ===== verification/Ratis_MissionSafety.thy ===== *)
theory Ratis_MissionSafety
  imports Ratis_Burst
begin

text \<open>
  What the missions of a user and the two reward ledgers owe each other, whatever requests are served: a
  mission stays of the form the buffers give it, each of its portions is paid at most once, and the XP of
  its bursts is a geometric sum that the ledger and the leaderboard agree on.
\<close>

section \<open>The invariant\<close>

definition um_key :: "user_mission \<Rightarrow> uuid \<times> uuid \<times> day" where
  "um_key r = (um_user_id r, um_mission_id r, um_period_start r)"

definition mission_credits :: "uuid \<Rightarrow> cab_tx list \<Rightarrow> nat" where
  "mission_credits i = count_where (\<lambda>x. ct_direction x = ''credit'' \<and> ct_reference_type x = Some ''user_mission''
     \<and> ct_reference_id x = Some i)"

definition burst_xp :: "uuid \<Rightarrow> xp_tx list \<Rightarrow> int" where
  "burst_xp i = sum_where (\<lambda>x. xt_reason x = ''mission_burst'' \<and> xt_reference_id x = Some i) xt_amount"

text \<open>The form of a mission that was buffered \<open>n\<close> times, at most \<open>nmax\<close>.\<close>

definition buffer_form :: "int \<Rightarrow> user_mission \<Rightarrow> bool" where
  "buffer_form nmax r \<longleftrightarrow> (let n = um_buffer_count r in
     0 \<le> n \<and> n \<le> max nmax 0 \<and> (n + 1) dvd um_cab_reward r \<and> 2 ^ nat n dvd um_target_count r
     \<and> um_period_extended_until r = (if n = 0 then None else Some (um_period_start r * day_us + (n + 1) * day_us))
     \<and> 0 \<le> um_portions_claimed r \<and> um_portions_claimed r \<le> n + 1
     \<and> (um_portions_claimed r = n + 1 \<longrightarrow> um_status r = ''claimed'')
     \<and> 0 \<le> um_burst_count r)"

definition burst_form :: "mission_xp_record list \<Rightarrow> xp_tx list \<Rightarrow> user_mission \<Rightarrow> bool" where
  "burst_form recs xps r \<longleftrightarrow>
     burst_xp (um_id r) xps = max 0 (um_xp_reward r) * (2 ^ nat (um_burst_count r) - 1)
     \<and> (case List.find (\<lambda>x. mx_user_mission_id x = um_id r) recs of
          None \<Rightarrow> burst_xp (um_id r) xps = 0
        | Some x \<Rightarrow> mx_xp_earned x = burst_xp (um_id r) xps \<and> 0 < mx_xp_earned x
            \<and> mx_burst_count x = um_burst_count r)"

definition row_form ::
  "int \<Rightarrow> cab_tx list \<Rightarrow> xp_tx list \<Rightarrow> mission_xp_record list \<Rightarrow> user_mission \<Rightarrow> bool" where
  "row_form nmax txs xps recs r \<longleftrightarrow> buffer_form nmax r \<and> burst_form recs xps r
     \<and> int (mission_credits (um_id r) txs) \<le> um_portions_claimed r"

text \<open>References point to identifiers that were given out.\<close>

definition refs_below :: "uuid \<Rightarrow> cab_tx list \<Rightarrow> xp_tx list \<Rightarrow> mission_xp_record list \<Rightarrow> bool" where
  "refs_below n txs xps recs \<longleftrightarrow>
     (\<forall>x \<in> set txs. \<forall>i. ct_reference_type x = Some ''user_mission'' \<longrightarrow> ct_reference_id x = Some i \<longrightarrow> i < n)
     \<and> (\<forall>x \<in> set xps. \<forall>i. xt_reason x = ''mission_burst'' \<longrightarrow> xt_reference_id x = Some i \<longrightarrow> i < n)
     \<and> (\<forall>x \<in> set recs. mx_user_mission_id x < n)"

definition missions_ok :: "int \<Rightarrow> db \<Rightarrow> bool" where
  "missions_ok nmax s \<longleftrightarrow>
     distinct (map um_id (user_missions (play s))) \<and> distinct (map um_key (user_missions (play s)))
     \<and> (\<forall>r \<in> set (user_missions (play s)). um_id r < next_uuid s
          \<and> row_form nmax (cabecoin_transactions s) (xp_transactions s) (mission_xp_records (play s)) r)
     \<and> refs_below (next_uuid s) (cabecoin_transactions s) (xp_transactions s) (mission_xp_records (play s))"

lemma mission_credits_append [simp]:
  "mission_credits i (xs @ ys) = mission_credits i xs + mission_credits i ys"
  by (simp add: mission_credits_def)

lemma mission_credits_award [simp]:
  "mission_credits i [award_row ck j u n reason rid rt] = (if rt = Some ''user_mission'' \<and> rid = Some i then 1 else 0)"
  by (simp add: mission_credits_def count_where_def award_row_def)

lemma burst_xp_append [simp]: "burst_xp i (xs @ ys) = burst_xp i xs + burst_xp i ys"
  by (simp add: burst_xp_def)

lemma burst_xp_single [simp]:
  "burst_xp i [x] = (if xt_reason x = ''mission_burst'' \<and> xt_reference_id x = Some i then xt_amount x else 0)"
  by (simp add: burst_xp_def)

lemma fresh_no_credits: "refs_below n txs xps recs \<Longrightarrow> n \<le> i \<Longrightarrow> mission_credits i txs = 0"
  unfolding mission_credits_def count_where_0_iff refs_below_def by fastforce

lemma fresh_no_burst: "refs_below n txs xps recs \<Longrightarrow> n \<le> i \<Longrightarrow> burst_xp i xps = 0"
  unfolding burst_xp_def sum_where_def refs_below_def
  by (subst filter_False) auto

lemma fresh_no_record:
  "refs_below n txs xps recs \<Longrightarrow> n \<le> i \<Longrightarrow> List.find (\<lambda>x. mx_user_mission_id x = i) recs = None"
  by (auto simp: refs_below_def find_None_iff)

lemma refs_below_mono: "refs_below n txs xps recs \<Longrightarrow> n \<le> m \<Longrightarrow> refs_below m txs xps recs"
  unfolding refs_below_def by (meson less_le_trans)


section \<open>Two ways to change the table\<close>

text \<open>One row changes, and the ledgers only where they refer to it.\<close>

lemma missions_ok_touch:
  assumes ok: "missions_ok nmax s" and r: "r \<in> set (user_missions (play s))"
    and rows: "user_missions (play t) = update_where (\<lambda>q. um_id q = um_id r) f (user_missions (play s))"
    and same: "\<And>q. um_id (f q) = um_id q" "\<And>q. um_key (f q) = um_key q"
    and form: "row_form nmax (cabecoin_transactions t) (xp_transactions t) (mission_xp_records (play t)) (f r)"
    and others: "\<And>i. i \<noteq> um_id r \<Longrightarrow> mission_credits i (cabecoin_transactions t) = mission_credits i (cabecoin_transactions s)
       \<and> burst_xp i (xp_transactions t) = burst_xp i (xp_transactions s)
       \<and> List.find (\<lambda>x. mx_user_mission_id x = i) (mission_xp_records (play t))
         = List.find (\<lambda>x. mx_user_mission_id x = i) (mission_xp_records (play s))"
    and next_id: "next_uuid s \<le> next_uuid t"
    and refs: "refs_below (next_uuid t) (cabecoin_transactions t) (xp_transactions t) (mission_xp_records (play t))"
  shows "missions_ok nmax t"
proof -
  have dist: "distinct (map um_id (user_missions (play s)))" using ok by (simp add: missions_ok_def)
  have "row_form nmax (cabecoin_transactions t) (xp_transactions t) (mission_xp_records (play t)) q'
      \<and> um_id q' < next_uuid t" if "q' \<in> set (user_missions (play t))" for q'
  proof -
    from that rows obtain q where q: "q \<in> set (user_missions (play s))"
      and q': "q' = (if um_id q = um_id r then f q else q)" by (auto simp: set_update_where)
    have old: "um_id q < next_uuid s"
      "row_form nmax (cabecoin_transactions s) (xp_transactions s) (mission_xp_records (play s)) q"
      using ok q by (simp_all add: missions_ok_def)
    show ?thesis
    proof (cases "um_id q = um_id r")
      case True
      with dist q r have "q = r" by (auto simp: distinct_map inj_on_def)
      with True q' form same old(1) next_id show ?thesis by simp
    next
      case False
      note e = others [OF this, THEN conjunct1] others [OF this, THEN conjunct2, THEN conjunct1]
        others [OF this, THEN conjunct2, THEN conjunct2]
      have "row_form nmax (cabecoin_transactions t) (xp_transactions t) (mission_xp_records (play t)) q"
        using old(2) unfolding row_form_def burst_form_def e .
      with False q' old(1) next_id show ?thesis by simp
    qed
  qed
  moreover have "distinct (map um_id (user_missions (play t)))" "distinct (map um_key (user_missions (play t)))"
    using ok by (simp_all add: missions_ok_def rows map_update_where same)
  ultimately show ?thesis using refs by (simp add: missions_ok_def)
qed

text \<open>A fresh row is added.\<close>

lemma missions_ok_insert:
  assumes ok: "missions_ok nmax s" and id: "um_id r = next_uuid s"
    and key: "um_key r \<notin> um_key ` set (user_missions (play s))"
    and form: "buffer_form nmax r" "um_burst_count r = 0"
  shows "missions_ok nmax (s\<lparr> next_uuid := Suc (next_uuid s),
     play := (play s)\<lparr> user_missions := user_missions (play s) @ [r] \<rparr> \<rparr>)"
proof -
  have refs: "refs_below (next_uuid s) (cabecoin_transactions s) (xp_transactions s) (mission_xp_records (play s))"
    using ok by (simp add: missions_ok_def)
  have zero: "mission_credits (um_id r) (cabecoin_transactions s) = 0" "burst_xp (um_id r) (xp_transactions s) = 0"
    "List.find (\<lambda>x. mx_user_mission_id x = um_id r) (mission_xp_records (play s)) = None"
    using fresh_no_credits [OF refs, of "um_id r"] fresh_no_burst [OF refs, of "um_id r"]
      fresh_no_record [OF refs, of "um_id r"] id by simp_all
  have "row_form nmax (cabecoin_transactions s) (xp_transactions s) (mission_xp_records (play s)) r"
    using form zero by (simp add: row_form_def burst_form_def buffer_form_def Let_def)
  moreover have "um_id r \<notin> um_id ` set (user_missions (play s))"
    using ok id by (auto simp: missions_ok_def)
  ultimately show ?thesis using ok key id refs_below_mono [OF refs, of "Suc (next_uuid s)"]
    by (auto simp: missions_ok_def less_Suc_eq)
qed

lemma missions_ok_next:
  assumes "missions_ok nmax s" shows "missions_ok nmax (s\<lparr> next_uuid := Suc (next_uuid s) \<rparr>)"
  using assms refs_below_mono [of "next_uuid s" "cabecoin_transactions s" "xp_transactions s"
      "mission_xp_records (play s)" "Suc (next_uuid s)"]
  by (auto simp: missions_ok_def less_Suc_eq)


text \<open>Only the row changes.\<close>

lemma missions_ok_update:
  assumes ok: "missions_ok nmax s" and r: "r \<in> set (user_missions (play s))"
    and same: "\<And>q. um_id (f q) = um_id q" "\<And>q. um_key (f q) = um_key q"
    and form: "buffer_form nmax (f r)" "um_portions_claimed r \<le> um_portions_claimed (f r)"
      "um_burst_count (f r) = um_burst_count r" "um_xp_reward (f r) = um_xp_reward r"
  shows "missions_ok nmax (s\<lparr> play := (play s)\<lparr> user_missions :=
     update_where (\<lambda>q. um_id q = um_id r) f (user_missions (play s)) \<rparr> \<rparr>)"
proof (rule missions_ok_touch [OF ok r])
  have old: "row_form nmax (cabecoin_transactions s) (xp_transactions s) (mission_xp_records (play s)) r"
    using ok r by (simp add: missions_ok_def)
  then have "burst_form (mission_xp_records (play s)) (xp_transactions s) (f r)"
    unfolding row_form_def burst_form_def same form(3,4) by blast
  moreover have "int (mission_credits (um_id (f r)) (cabecoin_transactions s)) \<le> um_portions_claimed (f r)"
    using old form(2) by (simp add: row_form_def same)
  ultimately show "row_form nmax (cabecoin_transactions (s\<lparr> play := (play s)\<lparr> user_missions :=
       update_where (\<lambda>q. um_id q = um_id r) f (user_missions (play s)) \<rparr> \<rparr>))
     (xp_transactions (s\<lparr> play := (play s)\<lparr> user_missions := update_where (\<lambda>q. um_id q = um_id r) f (user_missions (play s)) \<rparr> \<rparr>))
     (mission_xp_records (play (s\<lparr> play := (play s)\<lparr> user_missions :=
       update_where (\<lambda>q. um_id q = um_id r) f (user_missions (play s)) \<rparr> \<rparr>))) (f r)"
    using form(1) by (simp add: row_form_def)
qed (use ok same in \<open>simp_all add: missions_ok_def\<close>)

lemma missions_ok_rows:
  assumes "missions_ok nmax s" and "r \<in> set (user_missions (play s))"
  shows "buffer_form nmax r" and "um_id r < next_uuid s"
    and "burst_form (mission_xp_records (play s)) (xp_transactions s) r"
    and "int (mission_credits (um_id r) (cabecoin_transactions s)) \<le> um_portions_claimed r"
  using assms by (simp_all add: missions_ok_def row_form_def)


section \<open>Every request keeps it\<close>

lemma portions_available_le: "0 \<le> um_buffer_count r \<Longrightarrow> portions_available ck r \<le> um_buffer_count r + 1"
  by (simp add: portions_available_def Let_def)

lemma claim_writes_columns:
  "um_id (claim_writes row p r) = um_id r" "um_burst_count (claim_writes row p r) = um_burst_count r"
  "um_xp_reward (claim_writes row p r) = um_xp_reward r" "um_key (claim_writes row p r) = um_key r"
  by (simp_all add: claim_writes_def um_key_def)

lemma preserves_claim_missions: "preserves (missions_ok nmax) (claim_mission pg base ck u i)"
proof (rule preservesI)
  fix s res t assume ok: "missions_ok nmax s" and run: "claim_mission pg base ck u i s = (Inr res, t)"
  from run obtain row xs v where row: "owned_mission i u s = Some row" and opn: "claim_open ck row"
    and t: "t = (claimed_state ck u i row (portions_available ck row) s)\<lparr> xp_transactions := xs, user_xp_balance := v \<rparr>"
    and xs: "xs = xp_transactions s \<or> (\<exists>x. xs = xp_transactions s @ [x] \<and> xt_reason x = ''mission_completed'')"
    by (rule claim_mission_Inr)
  let ?p = "portions_available ck row"
  have r: "row \<in> set (user_missions (play s))" "um_id row = i" using owned_mission_Some [OF row] by simp_all
  note old = missions_ok_rows [OF ok r(1)]
  have p: "um_portions_claimed row < ?p" "?p \<le> um_buffer_count row + 1"
    using opn old(1) portions_available_le by (auto simp: claim_open_def buffer_form_def Let_def)
  have bxp: "burst_xp j xs = burst_xp j (xp_transactions s)" for j
    using xs by (auto simp: burst_xp_def)
  have refs: "refs_below (next_uuid s) (cabecoin_transactions s) (xp_transactions s) (mission_xp_records (play s))"
    using ok by (simp add: missions_ok_def)
  show "missions_ok nmax t"
  proof (rule missions_ok_touch [OF ok r(1), where f = "claim_writes row ?p"])
    show "user_missions (play t) = update_where (\<lambda>q. um_id q = um_id row) (claim_writes row ?p) (user_missions (play s))"
      by (simp add: t claimed_state_def r(2))
    show "row_form nmax (cabecoin_transactions t) (xp_transactions t) (mission_xp_records (play t)) (claim_writes row ?p row)"
    proof -
      have "burst_form (mission_xp_records (play s)) xs (claim_writes row ?p row)"
        using old(3) unfolding burst_form_def bxp claim_writes_columns .
      moreover have "buffer_form nmax (claim_writes row ?p row)"
        using old(1) p by (auto simp: buffer_form_def claim_writes_def Let_def)
      ultimately show ?thesis
        using old(4) p by (simp add: t claimed_state_def award_state_def row_form_def claim_writes_def r(2))
    qed
    show "refs_below (next_uuid t) (cabecoin_transactions t) (xp_transactions t) (mission_xp_records (play t))"
      using refs xs old(2) r(2) by (fastforce simp: t claimed_state_def award_state_def refs_below_def award_row_def less_Suc_eq)
  qed (simp_all add: t claimed_state_def award_state_def claim_writes_def um_key_def bxp r(2))
qed

lemma buffer_plan_form:
  assumes "buffer_form nmax r" and "um_buffer_count r < nmax" and "um_status r \<noteq> ''claimed''"
  shows "buffer_form nmax (r\<lparr> um_buffer_count := bf_buffer_count (buffer_plan r),
     um_target_count := bf_target_count (buffer_plan r), um_cab_reward := bf_cab_reward (buffer_plan r),
     um_period_extended_until := Some (bf_period_extended_until (buffer_plan r)) \<rparr>)"
proof -
  obtain n where n: "um_buffer_count r = int n" using assms(1) by (metis buffer_form_def nonneg_int_cases)
  have "(2::int) ^ nat (int n + 1) = 2 ^ n * 2" by (simp add: nat_add_distrib)
  then have "2 ^ nat (int n + 1) dvd um_target_count r * 2"
    using assms(1) n by (auto simp: buffer_form_def Let_def intro: mult_dvd_mono)
  then show ?thesis
    using assms n by (auto simp: buffer_form_def buffer_plan_def Let_def)
qed

lemma preserves_buffer_missions: "preserves (missions_ok nmax) (apply_buffer nmax u i)"
proof (rule preservesI)
  fix s b t assume ok: "missions_ok nmax s" and run: "apply_buffer nmax u i s = (Inr b, t)"
  from run obtain row where row: "owned_mission i u s = Some row" and st: "um_buffer_count row < nmax" "um_status row = ''pending''"
    and t: "t = s\<lparr> play := (play s)\<lparr> user_missions := update_where (\<lambda>q. um_id q = i)
      (\<lambda>r. r\<lparr> um_buffer_count := bf_buffer_count (buffer_plan row), um_target_count := bf_target_count (buffer_plan row),
        um_cab_reward := bf_cab_reward (buffer_plan row),
        um_period_extended_until := Some (bf_period_extended_until (buffer_plan row)) \<rparr>) (user_missions (play s)) \<rparr> \<rparr>"
    by (auto simp: apply_buffer_def repo_apply_buffer_def Let_def split: option.splits if_splits)
  have r: "row \<in> set (user_missions (play s))" "um_id row = i" using owned_mission_Some [OF row] by simp_all
  have "buffer_form nmax row" using missions_ok_rows [OF ok r(1)] by simp
  from buffer_plan_form [OF this st(1)] st(2) show "missions_ok nmax t"
    unfolding t r(2) [symmetric] by (intro missions_ok_update [OF ok r(1)]) (simp_all add: um_key_def)
qed

lemma missions_ok_debit:
  assumes ok: "missions_ok nmax s" and "debit_cab ck u n reason rid rt txo s = (Inr j, t)"
    and rid: "rt = Some ''user_mission'' \<Longrightarrow> rid = Some i \<and> i < next_uuid s"
  shows "missions_ok nmax t"
proof -
  from assms(2) obtain x where t: "next_uuid s \<le> next_uuid t" "cabecoin_transactions t = cabecoin_transactions s @ [x]"
      "xp_transactions t = xp_transactions s" "play t = play s" "ct_direction x = ''debit''" "ct_reference_type x = rt"
      "ct_reference_id x = rid"
    by (auto simp: debit_cab_Inr award_row_def split: option.splits)
  have "mission_credits k (cabecoin_transactions t) = mission_credits k (cabecoin_transactions s)" for k
    by (simp add: t mission_credits_def count_where_def)
  moreover have "refs_below (next_uuid t) (cabecoin_transactions t) (xp_transactions t) (mission_xp_records (play t))"
    using ok t(1) rid unfolding missions_ok_def refs_below_def t(2-7)
    by (auto simp: t(6,7) intro: less_le_trans)
  ultimately show ?thesis using ok t(1) by (auto simp: missions_ok_def row_form_def t(3,4) intro: less_le_trans)
qed

lemma preserves_freeze_missions: "preserves (missions_ok nmax) (freeze_mission ck u i cost)"
proof (rule preservesI)
  fix s x t assume ok: "missions_ok nmax s" and run: "freeze_mission ck u i cost s = (Inr x, t)"
  from run obtain row j s1 where row: "owned_mission i u s = Some row"
    and d: "debit_cab ck u cost ''mission_freeze'' (Some i) (Some ''user_mission'') None s = (Inr j, s1)"
    and t: "t = snd (apply_freeze ck i s1)"
    by (auto simp: freeze_mission_def seq_Inr_iff apply_freeze_def split: option.splits if_splits)
  have r: "row \<in> set (user_missions (play s))" "um_id row = i" using owned_mission_Some [OF row] by simp_all
  have ok1: "missions_ok nmax s1"
    using missions_ok_debit [OF ok d, of i] missions_ok_rows(2) [OF ok r(1)] r(2) by simp
  have "play s1 = play s" using d by (auto simp: debit_cab_Inr)
  with r have r1: "row \<in> set (user_missions (play s1))" by simp
  have "buffer_form nmax row" using missions_ok_rows [OF ok r(1)] by simp
  then show "missions_ok nmax t"
    unfolding t apply_freeze_def update_user_mission_run snd_conv r(2) [symmetric]
    by (intro missions_ok_update [OF ok1 r1]) (simp_all add: um_key_def buffer_form_def Let_def)
qed


text \<open>Progress and generation only insert fresh rows and move counts.\<close>

lemma missions_ok_insert_fresh:
  assumes ok: "missions_ok nmax s"
    and run: "insert_user_mission (fresh_user_mission (next_uuid s) u mid p c st tg cab xp tr)
      (s\<lparr> next_uuid := Suc (next_uuid s) \<rparr>) = (Inr b, t)"
  shows "missions_ok nmax t"
proof -
  let ?r = "fresh_user_mission (next_uuid s) u mid p c st tg cab xp tr"
  show ?thesis
  proof (cases "list_ex (same_period u mid p) (user_missions (play s))")
    case True
    then have "t = s\<lparr> next_uuid := Suc (next_uuid s) \<rparr>"
      using run by (auto simp: insert_user_mission_def fresh_user_mission_def split: if_splits)
    with missions_ok_next [OF ok] show ?thesis by simp
  next
    case False
    then have t: "t = s\<lparr> next_uuid := Suc (next_uuid s), play := (play s)\<lparr> user_missions := user_missions (play s) @ [?r] \<rparr> \<rparr>"
      using run by (auto simp: insert_user_mission_def fresh_user_mission_def split: if_splits)
    have "um_key ?r \<notin> um_key ` set (user_missions (play s))"
      using False by (auto simp: um_key_def fresh_user_mission_def list_ex_iff same_period_def)
    moreover have "buffer_form nmax ?r" by (simp add: buffer_form_def fresh_user_mission_def Let_def)
    ultimately show ?thesis unfolding t
      by (intro missions_ok_insert [OF ok]) (simp_all add: fresh_user_mission_def)
  qed
qed

lemma preserves_insert_fresh:
  "preserves (missions_ok nmax) (bnd fresh_uuid (\<lambda>i. bnd (insert_user_mission
     (fresh_user_mission i u mid p c st tg cab xp tr)) (\<lambda>b. if b then ret () else ret ())))"
  "preserves (missions_ok nmax) (bnd fresh_uuid (\<lambda>i. void (insert_user_mission
     (fresh_user_mission i u mid p c st tg cab xp tr))))"
  by (auto intro!: preservesI simp: bnd_Inr_iff void_Inr dest: missions_ok_insert_fresh)

lemma period_row_Some: "period_row u mid p s = Some r \<Longrightarrow> r \<in> set (user_missions (play s)) \<and> same_period u mid p r"
  unfolding period_row_def by (rule find_Some_in)

lemma missions_ok_count:
  assumes ok: "missions_ok nmax s" and r: "r \<in> set (user_missions (play s))" and "um_status r \<noteq> ''claimed''"
    and f: "\<And>q. um_id (f q) = um_id q \<and> um_key (f q) = um_key q \<and> um_buffer_count (f q) = um_buffer_count q
      \<and> um_cab_reward (f q) = um_cab_reward q \<and> um_target_count (f q) = um_target_count q
      \<and> um_period_extended_until (f q) = um_period_extended_until q \<and> um_portions_claimed (f q) = um_portions_claimed q
      \<and> um_burst_count (f q) = um_burst_count q \<and> um_xp_reward (f q) = um_xp_reward q"
  shows "missions_ok nmax (s\<lparr> play := (play s)\<lparr> user_missions :=
     update_where (\<lambda>q. um_id q = um_id r) f (user_missions (play s)) \<rparr> \<rparr>)"
proof (rule missions_ok_update [OF ok r])
  have "um_period_start (f r) = um_period_start r" using f [of r] by (simp add: um_key_def)
  then show "buffer_form nmax (f r)"
    using missions_ok_rows(1) [OF ok r] assms(3) f [of r] by (simp add: buffer_form_def Let_def)
qed (simp_all add: f)

lemma preserves_upsert_progress: "preserves (missions_ok nmax) (upsert_progress u p n m)"
proof (rule preservesI)
  fix s x t assume ok: "missions_ok nmax s" and run: "upsert_progress u p n m s = (Inr x, t)"
  show "missions_ok nmax t"
  proof (cases "period_row u (ms_id m) p s")
    case None
    with ok run show ?thesis
      by (auto simp: upsert_progress_def void_Inr dest: missions_ok_insert_fresh)
  next
    case (Some r)
    then have r: "r \<in> set (user_missions (play s))" using period_row_Some by blast
    show ?thesis
    proof (cases "um_status r = ''claimed''")
      case True
      with Some ok run show ?thesis by (simp add: upsert_progress_def)
    next
      case False
      then have t: "t = snd (update_user_mission (um_id r) (\<lambda>r. r\<lparr> um_current_count := um_current_count r + n,
           um_status := progress_status (um_current_count r + n) (um_target_count r) (um_status r) \<rparr>) s)"
        using Some run by (auto simp: upsert_progress_def split: if_splits)
      show ?thesis unfolding t update_user_mission_run snd_conv
        by (rule missions_ok_count [OF ok r False]) (simp add: um_key_def)
    qed
  qed
qed

lemma preserves_append_distinct:
  assumes ok: "missions_ok nmax s" and r: "r \<in> set (user_missions (play s))"
    and run: "append_distinct r tg v s = (Inr x, t)"
  shows "missions_ok nmax t"
proof (cases "um_status r = ''claimed'' \<or> v \<in> set (case um_tracked_values r of None \<Rightarrow> [] | Some b \<Rightarrow> b)")
  case True
  with ok run show ?thesis by (cases "um_tracked_values r") (auto simp: append_distinct_def Let_def split: if_splits)
next
  case False
  then obtain c b st where t: "t = snd (update_user_mission (um_id r) (\<lambda>r. r\<lparr> um_tracked_values := b, um_current_count := c,
       um_status := st \<rparr>) s)"
    using run by (auto simp: append_distinct_def Let_def simp del: update_where_Cons split: option.splits if_splits)
  show ?thesis unfolding t update_user_mission_run snd_conv
    by (rule missions_ok_count [OF ok r]) (use False in \<open>simp_all add: um_key_def\<close>)
qed

lemma preserves_progress_distinct: "preserves (missions_ok nmax) (progress_distinct_mission u mid p tg cab v)"
proof (rule preservesI)
  fix s x t assume ok: "missions_ok nmax s" and run: "progress_distinct_mission u mid p tg cab v s = (Inr x, t)"
  let ?r = "fresh_user_mission (next_uuid s) u mid p 1 (progress_status 1 tg ''pending'') tg cab 0 (Some [v])"
  from run obtain b s1 where ins: "insert_user_mission ?r (s\<lparr> next_uuid := Suc (next_uuid s) \<rparr>) = (Inr b, s1)"
    and rest: "(if b then ret () else bnd (reads (period_row u mid p)) (\<lambda>existing. case existing of
        None \<Rightarrow> ret () | Some r \<Rightarrow> append_distinct r tg v)) s1 = (Inr x, t)"
    by (auto simp: progress_distinct_mission_def bnd_Inr_iff)
  have ok1: "missions_ok nmax s1" by (rule missions_ok_insert_fresh [OF ok ins])
  show "missions_ok nmax t"
  proof (cases "b \<or> period_row u mid p s1 = None")
    case True
    with rest ok1 show ?thesis by (cases b) auto
  next
    case False
    then obtain r where r: "period_row u mid p s1 = Some r" and nb: "\<not> b" by auto
    with rest have "append_distinct r tg v s1 = (Inr x, t)" by simp
    with ok1 period_row_Some [OF r] show ?thesis by (blast intro: preserves_append_distinct)
  qed
qed

lemma preserves_progress_missions: "preserves (missions_ok nmax) (check_missions_progress u a today n q)"
  unfolding check_missions_progress_def progress_frequency_def Let_def
  by (intro preserves_if preserves_throw preserves_seq preserves_bnd preserves_reads preserves_for_each
      preserves_case_option preserves_ret preserves_upsert_progress preserves_progress_distinct)

lemma preserves_insert_missions: "preserves (missions_ok nmax) (insert_user_missions u ids p xps)"
  unfolding insert_user_missions_def Let_def
  by (intro preserves_for_each preserves_bnd preserves_reads preserves_case_option preserves_ret preserves_insert_fresh)

lemma preserves_get_missions: "preserves (missions_ok nmax) (get_missions choice u today)"
  unfolding get_missions_def missions_of_period_def generate_missions_for_user_def Let_def
  by (intro preserves_bnd preserves_seq preserves_if preserves_ret preserves_reads preserves_insert_missions)

lemma upsert_record_Inr:
  assumes run: "upsert_mission_xp_record ck u mid i xp b bf s = (Inr w, t)"
  shows "0 < xp" "next_uuid t = Suc (next_uuid s)" "xp_transactions t = xp_transactions s"
    "cabecoin_transactions t = cabecoin_transactions s" "user_missions (play t) = user_missions (play s)"
    "List.find (\<lambda>x. mx_user_mission_id x = j) (mission_xp_records (play t)) =
      (if j = i then Some (case List.find (\<lambda>x. mx_user_mission_id x = i) (mission_xp_records (play s)) of
          None \<Rightarrow> \<lparr> mx_id = next_uuid s, mx_user_id = u, mx_mission_id = mid, mx_user_mission_id = i,
            mx_xp_earned = xp, mx_burst_count = b, mx_buffer_count = bf, mx_recorded_at = now ck \<rparr>
        | Some x \<Rightarrow> x\<lparr> mx_xp_earned := mx_xp_earned x + xp, mx_burst_count := max b (mx_burst_count x), mx_buffer_count := bf \<rparr>)
       else List.find (\<lambda>x. mx_user_mission_id x = j) (mission_xp_records (play s)))"
    "\<forall>x \<in> set (mission_xp_records (play t)). mx_user_mission_id x = i
       \<or> (\<exists>y \<in> set (mission_xp_records (play s)). mx_user_mission_id x = mx_user_mission_id y)"
proof (goal_cases)
  case 6
  show ?case
  proof (cases "List.find (\<lambda>x. mx_user_mission_id x = i) (mission_xp_records (play s))")
    case None
    then have "\<not> list_ex (\<lambda>x. mx_user_mission_id x = i) (mission_xp_records (play s))"
      by (auto simp: find_None_iff list_ex_iff)
    with run None show ?thesis
      by (auto simp: upsert_mission_xp_record_def find_append split: if_splits option.splits)
  next
    case (Some x)
    then have "list_ex (\<lambda>x. mx_user_mission_id x = i) (mission_xp_records (play s))"
      using find_Some_in [OF Some] by (auto simp: list_ex_iff)
    with run Some show ?thesis
      by (auto simp: upsert_mission_xp_record_def find_update_where_key split: if_splits)
  qed
qed (use run in \<open>auto simp: upsert_mission_xp_record_def set_update_where split: if_splits\<close>)

lemma preserves_burst_missions: "preserves (missions_ok nmax) (claim_burst pg base ck u i)"
proof (rule preservesI)
  fix s res t assume ok: "missions_ok nmax s" and run: "claim_burst pg base ck u i s = (Inr res, t)"
  then obtain row where row: "owned_mission i u s = Some row"
    by (cases "owned_mission i u s") (simp_all add: claim_burst_def)
  define p where "p = compute_burst_paliers (um_current_count row) (um_target_count row) (um_burst_count row)"
  have p: "um_burst_count row < p" using run row by (auto simp: claim_burst_def p_def Let_def split: if_splits)
  have r: "row \<in> set (user_missions (play s))" "um_id row = i" using owned_mission_Some [OF row] by simp_all
  note old = missions_ok_rows [OF ok r(1)]
  have b0: "0 \<le> um_burst_count row" using old(1) by (simp add: buffer_form_def Let_def)
  have form: "buffer_form nmax (row\<lparr> um_burst_count := p, um_burst_locked := True \<rparr>)"
    using old(1) p b0 by (auto simp: buffer_form_def Let_def)
  let ?f = "\<lambda>r. r\<lparr> um_burst_count := p, um_burst_locked := True \<rparr>"
  have refs: "refs_below (next_uuid s) (cabecoin_transactions s) (xp_transactions s) (mission_xp_records (play s))"
    using ok by (simp add: missions_ok_def)
  show "missions_ok nmax t"
  proof (cases "um_xp_reward row \<le> 0")
    case True
    then have t: "t = s\<lparr> play := (play s)\<lparr> user_missions := update_where (\<lambda>q. um_id q = i) ?f (user_missions (play s)) \<rparr> \<rparr>"
      using run row p by (simp add: claim_burst_def Let_def update_burst_state_def p_def [symmetric])
    have "burst_form (mission_xp_records (play s)) (xp_transactions s) (?f row)"
      using old(3) True by (auto simp: burst_form_def max_def split: option.splits if_splits)
    then show ?thesis using old form refs
      by (intro missions_ok_touch [OF ok r(1), where f = ?f]) (simp_all add: t r(2) row_form_def um_key_def)
  next
    case False
    define xp where "xp = um_xp_reward row * (2 ^ nat p - 2 ^ nat (um_burst_count row))"
    let ?tx = "\<lparr> xt_user_id = u, xt_amount = xp, xt_reason = ''mission_burst'', xt_reference_id = Some i,
        xt_reference_type = Some ''user_mission'' \<rparr>"
    have run2: "seq (award_xp pg ck u xp ''mission_burst'' (Some i) (Some ''user_mission'') base False None)
        (seq (update_burst_state i p) (seq (upsert_mission_xp_record ck u (um_mission_id row) i xp p (um_buffer_count row))
        (ret res))) s = (Inr res, t)"
      using run row p False
      by (auto simp: claim_burst_def Let_def p_def [symmetric] xp_def push_bit_eq_mult seq_Inr_iff)
    then obtain y s1 where aw: "award_xp pg ck u xp ''mission_burst'' (Some i) (Some ''user_mission'') base False None s = (Inr y, s1)"
      and up: "seq (upsert_mission_xp_record ck u (um_mission_id row) i xp p (um_buffer_count row)) (ret res)
        (snd (update_burst_state i p s1)) = (Inr res, t)"
      by (auto simp: seq_Inr_iff [of "award_xp _ _ _ _ _ _ _ _ _ _"] update_burst_state_def)
    obtain v where s1: "s1 = s\<lparr> xp_transactions := xp_transactions s @ [?tx], user_xp_balance := v \<rparr>"
      using award_xp_Inr [OF aw refl] by auto
    let ?recs = "mission_xp_records (play s)" and ?s2 = "snd (update_burst_state i p s1)"
    obtain w where rec: "upsert_mission_xp_record ck u (um_mission_id row) i xp p (um_buffer_count row) ?s2 = (Inr w, t)"
      using up by (auto simp: seq_Inr_iff)
    note up = upsert_record_Inr [OF rec]
    have s2: "next_uuid ?s2 = next_uuid s" "mission_xp_records (play ?s2) = ?recs"
        "xp_transactions ?s2 = xp_transactions s @ [?tx]" "cabecoin_transactions ?s2 = cabecoin_transactions s"
        "user_missions (play ?s2) = update_where (\<lambda>q. um_id q = i) ?f (user_missions (play s))"
      by (simp_all add: s1 update_burst_state_def)
    have bxp: "burst_xp j (xp_transactions t) = burst_xp j (xp_transactions s) + (if j = i then xp else 0)" for j
      by (simp add: up(3) s2 burst_xp_def)
    have total: "burst_xp i (xp_transactions t) = max 0 (um_xp_reward row) * (2 ^ nat p - 1)"
      using old(3) False r(2) by (simp add: bxp burst_form_def xp_def algebra_simps)
    have "burst_form (mission_xp_records (play t)) (xp_transactions t) (?f row)"
      using old(3) total up(1) r(2) p unfolding burst_form_def
      by (auto simp: up(6) s2 bxp split: option.splits)
    moreover have "refs_below (next_uuid t) (cabecoin_transactions t) (xp_transactions t) (mission_xp_records (play t))"
      using refs old(2) r(2) up(7) unfolding refs_below_def up(2-4) s2 by (force simp: less_Suc_eq)
    ultimately show ?thesis using old form
      by (intro missions_ok_touch [OF ok r(1), where f = ?f])
        (simp_all add: up s2 r(2) row_form_def um_key_def bxp)
  qed
qed


section \<open>Sequences of mission requests\<close>

datatype mission_cmd =
    ListMissions "mission_row list \<Rightarrow> mission_row" clock uuid
  | Progress uuid string day int "string option"
  | Buffer uuid uuid
  | ClaimPortions clock uuid uuid
  | ClaimBurst clock uuid uuid
  | Freeze clock uuid uuid int

fun mission_step :: "(int \<Rightarrow> int \<Rightarrow> int option) \<Rightarrow> int \<Rightarrow> int \<Rightarrow> mission_cmd \<Rightarrow> unit db_op" where
  "mission_step pg base nmax (ListMissions choice ck u) = void (list_missions choice ck u)"
| "mission_step pg base nmax (Progress u a today n q) = db_transaction (check_missions_progress u a today n q)"
| "mission_step pg base nmax (Buffer u i) = void (buffer_mission_endpoint nmax u i)"
| "mission_step pg base nmax (ClaimPortions ck u i) = void (claim_mission_endpoint pg base ck u i)"
| "mission_step pg base nmax (ClaimBurst ck u i) = void (burst_claim_endpoint pg base ck u i)"
| "mission_step pg base nmax (Freeze ck u i cost) = void (freeze_mission_endpoint ck u i cost)"

lemma keeps_mission_step: "keeps (missions_ok nmax) (mission_step pg base nmax c)"
  by (cases c)
    (auto simp: list_missions_def buffer_mission_endpoint_def claim_mission_endpoint_def burst_claim_endpoint_def
      freeze_mission_endpoint_def
      intro!: keeps_void keeps_catch keeps_if keeps_throw preserves_transaction preserves_get_missions preserves_progress_missions
        preserves_buffer_missions preserves_claim_missions preserves_burst_missions preserves_freeze_missions)

interpretation mission_inv: kept_invariant "mission_step pg base nmax" "missions_ok nmax" for pg base nmax
  by unfold_locales (rule keeps_snd [OF keeps_mission_step])


definition mission_demo :: db where
  "mission_demo = (cab_demo 80)\<lparr> next_uuid := 10, play := empty_play\<lparr>
     missions := [\<lparr> ms_id = 2, ms_action_type = ''label_scan'', ms_qualifier = None, ms_frequency = ''daily'',
        ms_difficulty = ''easy'', ms_target_count = 3, ms_cab_reward = 10, ms_is_active = True, ms_is_boostable = True \<rparr>],
     user_missions := [(fresh_user_mission 3 7 2 20000 9 ''completed'' 3 10 40 None)] \<rparr> \<rparr>"

lemma mission_demo_ok: "missions_ok 3 mission_demo"
  by (auto simp: missions_ok_def row_form_def burst_form_def buffer_form_def refs_below_def mission_demo_def cab_demo_def
      fresh_user_mission_def mission_credits_def count_where_def burst_xp_def)




end
