(* ===== verification/Ratis_MissionRules.thy ===== *)
theory Ratis_MissionRules
  imports Ratis_MissionSafety
begin

text \<open>
  The rules a single mission request follows: what a claim pays on its branches, when a weekly mission can
  be claimed, and that a distinct-value mission counts the values it has seen.
\<close>

section \<open>Claims\<close>

lemma claim_mission_None: "owned_mission i u s = None \<Longrightarrow> claim_mission pg base ck u i s = (Inl (NotFound ''mission_not_found''), s)"
  by (simp add: claim_mission_def)

lemma paliers_reached_bound:
  assumes "0 \<le> um_buffer_count r" and "0 \<le> um_current_count r"
  shows "paliers_reached r * (um_target_count r div (um_buffer_count r + 1)) \<le> um_current_count r"
proof (cases "um_target_count r div (um_buffer_count r + 1) \<le> 0")
  case True
  with assms show ?thesis by (simp add: paliers_reached_def Let_def)
next
  case False
  let ?q = "um_target_count r div (um_buffer_count r + 1)"
  have "paliers_reached r \<le> um_current_count r div ?q" using False by (simp add: paliers_reached_def Let_def)
  then have "paliers_reached r * ?q \<le> um_current_count r div ?q * ?q" using False by (intro mult_right_mono) simp_all
  also have "\<dots> \<le> um_current_count r" using False by (simp add: div_times_less_eq_dividend minus_mod_eq_div_mult [symmetric])
  finally show ?thesis .
qed

text \<open>
  A claim that returns pays for the portions that are new, each a full share of the reward: the total
  of claimed portions rises to a number the progress and the days elapsed both cover, the deadline has not passed, one
  ledger row credits the share times the new portions (with the streak bonus), and the answer reports the
  portions left.
\<close>

theorem claim_pays_new_portions:
  assumes "missions_ok nmax s" and "claim_mission_endpoint pg base ck u i s = (Inr res, t)"
  shows "\<exists>r. owned_mission i u s = Some r \<and> now ck \<le> claim_deadline r
     \<and> um_portions_claimed r < cl_portions_claimed_total res
     \<and> cl_portions_claimed_total res + cl_portions_remaining res = um_buffer_count r + 1
     \<and> 0 \<le> cl_portions_remaining res
     \<and> cl_portions_claimed_total res \<le> utc_date ck - um_period_start r + 1
     \<and> (0 \<le> um_current_count r \<longrightarrow> cl_portions_claimed_total res * (um_target_count r div (um_buffer_count r + 1)) \<le> um_current_count r)
     \<and> cl_cab_awarded res * (um_buffer_count r + 1) = (cl_portions_claimed_total res - um_portions_claimed r) * um_cab_reward r
     \<and> cabecoin_transactions t = cabecoin_transactions s @ [award_row ck (next_uuid s) u
          (boosted_amount ck u ''cab'' (cl_cab_awarded res) True None s) ''mission_reward'' (Some i) (Some ''user_mission'')]"
proof -
  from assms(2) have run: "claim_mission pg base ck u i s = (Inr res, t)"
    by (simp add: claim_mission_endpoint_def db_transaction_Inr_iff)
  obtain r xs v where r: "owned_mission i u s = Some r" and opn: "claim_open ck r"
    and t: "t = (claimed_state ck u i r (portions_available ck r) s)\<lparr> xp_transactions := xs, user_xp_balance := v \<rparr>"
    and res: "cl_cab_awarded res = claim_base r (portions_available ck r)"
      "cl_portions_claimed_total res = portions_available ck r"
      "cl_portions_remaining res = um_buffer_count r + 1 - portions_available ck r"
    by (rule claim_mission_Inr [OF run])
  have form: "buffer_form nmax r" using missions_ok_rows(1) [OF assms(1)] owned_mission_Some [OF r] by blast
  then have n: "0 \<le> um_buffer_count r" and d: "(um_buffer_count r + 1) dvd um_cab_reward r" "0 \<le> um_portions_claimed r"
    by (simp_all add: buffer_form_def Let_def)
  have le: "portions_available ck r \<le> paliers_reached r" "portions_available ck r \<le> utc_date ck - um_period_start r + 1"
    "portions_available ck r \<le> um_buffer_count r + 1"
    using portions_available_le [OF n] by (simp_all add: portions_available_def Let_def)
  have progress: "portions_available ck r * (um_target_count r div (um_buffer_count r + 1)) \<le> um_current_count r"
    if "0 \<le> um_current_count r"
  proof (cases "0 \<le> um_target_count r div (um_buffer_count r + 1)")
    case True
    then have "portions_available ck r * (um_target_count r div (um_buffer_count r + 1))
        \<le> paliers_reached r * (um_target_count r div (um_buffer_count r + 1))"
      using le(1) by (rule mult_right_mono [rotated])
    also have "\<dots> \<le> um_current_count r" by (rule paliers_reached_bound [OF n that])
    finally show ?thesis .
  next
    case False
    then have "paliers_reached r = 0" by (simp add: paliers_reached_def Let_def)
    then show ?thesis using opn le(1) d(2) by (simp add: claim_open_def)
  qed
  have "um_cab_reward r div (um_buffer_count r + 1) * (um_buffer_count r + 1) = um_cab_reward r" using d(1) by simp
  then have "claim_base r (portions_available ck r) * (um_buffer_count r + 1) = (portions_available ck r - um_portions_claimed r) * um_cab_reward r"
    by (simp add: claim_base_def mult.assoc)
  with r opn le progress show ?thesis
    by (intro exI [of _ r]) (simp add: res claim_open_def t claimed_state_def award_state_def)
qed

lemma boosted_no_bonus:
  "user_streaks s u = None \<Longrightarrow> community_multipliers s = [] \<Longrightarrow> boosted_amount ck u sc n True None s = n"
  by (simp add: boosted_amount_def get_streak_multiplier_def get_active_community_multiplier_def bitlen.simps)

lemma mission_demo_award:
  "award_cab demo_clock 7 10 ''mission_reward'' (Some 3) (Some ''user_mission'') True None True None mission_demo =
     (Inr (), award_state demo_clock 7 ''mission_reward'' (Some 3) (Some ''user_mission'') True None 10 mission_demo)"
proof -
  have "boosted_amount demo_clock 7 ''cab'' 10 True None mission_demo = 10"
    by (rule boosted_no_bonus) (simp_all add: mission_demo_def cab_demo_def)
  then show ?thesis
    unfolding award_cab_Inr
    by (simp add: awardable_def cab_insertable_def award_row_def mission_demo_def cab_demo_def CAB_REASONS_def
        cab_reference_types_def ref_type_allowed_def cab_row_ok_def fits_int4_def credit_ref_taken_def active_season_id_def)
qed

lemma mission_demo_claim:
  "\<exists>res t. claim_mission_endpoint (\<lambda>_ _. Some 1) 100 demo_clock 7 3 mission_demo = (Inr res, t)"
proof -
  let ?r = "fresh_user_mission 3 7 2 20000 9 ''completed'' 3 10 40 None"
  have own: "owned_mission 3 7 mission_demo = Some ?r"
    by (simp add: owned_mission_def mission_demo_def fresh_user_mission_def)
  have p: "portions_available demo_clock ?r = 1" "claim_deadline ?r = 20001 * day_us" "now demo_clock = 20000 * day_us"
    by (simp_all add: portions_available_def paliers_reached_def fresh_user_mission_def utc_date_def demo_clock_def
        Let_def claim_deadline_def)
  have x: "\<exists>y t. award_xp (\<lambda>_ _. Some 1) demo_clock 7 40 ''mission_completed'' (Some 3) (Some ''user_mission'') 100 True None
      ((award_state demo_clock 7 ''mission_reward'' (Some 3) (Some ''user_mission'') True None 10 mission_demo)
        \<lparr> play := q \<rparr>) = (Inr y, t)" for q
  proof -
    have "boosted_amount demo_clock 7 ''xp'' 40 True None ((award_state demo_clock 7 ''mission_reward'' (Some 3) (Some ''user_mission'')
        True None 10 mission_demo)\<lparr> play := q \<rparr>) = 40"
      by (rule boosted_no_bonus) (simp_all add: award_state_def mission_demo_def cab_demo_def)
    then show ?thesis
      by (simp add: award_xp_def insert_xp_tx_def upsert_xp_balance_def VALID_XP_REASONS_def XP_REASONS_def
          ref_type_allowed_def cab_reference_types_def fits_int4_def get_xp_balance_def award_state_def mission_demo_def cab_demo_def)
  qed
  obtain y t where xp: "award_xp (\<lambda>_ _. Some 1) demo_clock 7 40 ''mission_completed'' (Some 3) (Some ''user_mission'') 100 True None
      (claimed_state demo_clock 7 3 ?r 1 mission_demo) = (Inr y, t)"
    using x by (fastforce simp: claimed_state_def claim_base_def fresh_user_mission_def boosted_no_bonus mission_demo_def cab_demo_def)
  have f: "um_status ?r = ''completed''" "um_buffer_count ?r = 0" "um_portions_claimed ?r = 0" "um_cab_reward ?r = 10"
      "um_xp_reward ?r = 40"
    by (simp_all add: fresh_user_mission_def)
  let ?A = "award_cab demo_clock 7 10 ''mission_reward'' (Some 3) (Some ''user_mission'') True None True None"
  let ?U = "update_user_mission 3 (\<lambda>r. r\<lparr> um_portions_claimed := 1, um_status := ''claimed'' \<rparr>)"
  let ?X = "award_xp (\<lambda>_ _. Some 1) demo_clock 7 40 ''mission_completed'' (Some 3) (Some ''user_mission'') 100 True None"
  let ?K = "bnd (reads (\<lambda>s. get_balance s 7)) (\<lambda>bal. ret \<lparr> cl_cab_awarded = 10, cl_portions_claimed_total = 1,
      cl_portions_remaining = 0, cl_mission_status = ''claimed'', cl_new_cab_balance = bal \<rparr>)"
  have "claim_mission (\<lambda>_ _. Some 1) 100 demo_clock 7 3 mission_demo = seq ?A (seq ?U (seq (void ?X) ?K)) mission_demo"
    by (simp add: claim_mission_def own p f Let_def)
  also have "\<dots> = seq (void ?X) ?K (snd (?U (award_state demo_clock 7 ''mission_reward'' (Some 3) (Some ''user_mission'') True None 10 mission_demo)))"
    by (simp add: seq_run_Inr [of ?A mission_demo, OF mission_demo_award])
  also have "snd (?U (award_state demo_clock 7 ''mission_reward'' (Some 3) (Some ''user_mission'') True None 10 mission_demo))
      = claimed_state demo_clock 7 3 ?r 1 mission_demo"
    by (simp add: claimed_state_def claim_base_def fresh_user_mission_def boosted_no_bonus mission_demo_def cab_demo_def
        claim_writes_def [abs_def] award_state_def)
  also have "seq (void ?X) ?K (claimed_state demo_clock 7 3 ?r 1 mission_demo) = ?K t"
    by (rule seq_run_Inr [of "void ?X" _ "()"]) (simp add: void_def seq_run_Inr [of ?X, OF xp])
  finally show ?thesis by (simp add: claim_mission_endpoint_def db_transaction_def)
qed

theorem claim_pays_new_portions_witness:
  "\<exists>res t. claim_mission_endpoint (\<lambda>_ _. Some 1) 100 demo_clock 7 3 mission_demo = (Inr res, t) \<and> cl_cab_awarded res = 10
     \<and> length (cabecoin_transactions t) = 2"
proof -
  obtain res t where run: "claim_mission_endpoint (\<lambda>_ _. Some 1) 100 demo_clock 7 3 mission_demo = (Inr res, t)"
    using mission_demo_claim by blast
  have own: "owned_mission 3 7 mission_demo = Some (fresh_user_mission 3 7 2 20000 9 ''completed'' 3 10 40 None)"
    by (simp add: owned_mission_def mission_demo_def fresh_user_mission_def)
  have one: "cabecoin_transactions mission_demo = cabecoin_transactions (cab_demo 80)" by (simp add: mission_demo_def)
  from claim_pays_new_portions [OF mission_demo_ok run] own show ?thesis
    by (intro exI [of _ res] exI [of _ t] conjI run) (auto simp: fresh_user_mission_def one cab_demo_def)
qed

text \<open>
  A weekly mission cannot be claimed after its first day: buffers are refused for it, so its deadline
  stays one day after the Monday it began, although its week is not over; from then on every claim answers that the
  mission has expired and changes nothing.
\<close>

theorem weekly_mission_expires:
  assumes "missions_ok nmax s" and "owned_mission i u s = Some r" and "um_period_start r = get_period_start ''weekly'' d"
    and "mission_by_id s (um_mission_id r) = Some m" and "ms_frequency m = ''weekly''"
    and "um_buffer_count r = 0" and "um_status r \<noteq> ''claimed''"
  shows "buffer_mission_endpoint nmax u i s = (Inl (BadRequest ''weekly_not_bufferable''), s)
     \<and> ((um_period_start r + 1) * day_us < now ck \<longrightarrow>
          claim_mission_endpoint pg base ck u i s = (Inl (Gone ''mission_expired''), s))"
proof -
  have "buffer_form nmax r" using missions_ok_rows(1) [OF assms(1)] owned_mission_Some [OF assms(2)] by blast
  then have "um_portions_claimed r < 1" "claim_deadline r = (um_period_start r + 1) * day_us"
    using assms(6,7) by (auto simp: buffer_form_def Let_def claim_deadline_def algebra_simps)
  with assms show ?thesis
    by (simp add: buffer_mission_endpoint_def apply_buffer_def claim_mission_endpoint_def claim_mission_def db_transaction_def)
qed

text \<open>On a Wednesday (day 20005), a weekly mission that was completed since Monday (day 20003).\<close>

definition weekly_demo :: db where
  "weekly_demo = mission_demo\<lparr> play := empty_play\<lparr>
     missions := [\<lparr> ms_id = 2, ms_action_type = ''label_scan'', ms_qualifier = None, ms_frequency = ''weekly'',
        ms_difficulty = ''easy'', ms_target_count = 3, ms_cab_reward = 10, ms_is_active = True, ms_is_boostable = True \<rparr>],
     user_missions := [fresh_user_mission 3 7 2 20000 9 ''completed'' 3 10 0 None\<lparr> um_period_start := get_period_start ''weekly'' 20005 \<rparr>] \<rparr> \<rparr>"

theorem weekly_mission_expires_witness:
  "claim_mission_endpoint (\<lambda>_ _. Some 1) 100 (demo_clock\<lparr> now := 20005 * day_us \<rparr>) 7 3 weekly_demo
     = (Inl (Gone ''mission_expired''), weekly_demo) \<and> get_period_start ''weekly'' 20005 = 20003"
proof -
  have p: "get_period_start ''weekly'' 20005 = 20003" by (simp add: get_period_start_def weekday_def)
  let ?r = "fresh_user_mission 3 7 2 20000 9 ''completed'' 3 10 0 None\<lparr> um_period_start := get_period_start ''weekly'' 20005 \<rparr>"
  have ok: "missions_ok 3 weekly_demo"
    by (auto simp: missions_ok_def row_form_def burst_form_def buffer_form_def refs_below_def weekly_demo_def mission_demo_def cab_demo_def
      fresh_user_mission_def mission_credits_def count_where_def burst_xp_def)
  have own: "owned_mission 3 7 weekly_demo = Some ?r"
    by (simp add: owned_mission_def weekly_demo_def fresh_user_mission_def)
  obtain m where m: "mission_by_id weekly_demo (um_mission_id ?r) = Some m" "ms_frequency m = ''weekly''"
    by (simp add: mission_by_id_def weekly_demo_def fresh_user_mission_def)
  have "(um_period_start ?r + 1) * day_us < now (demo_clock\<lparr> now := 20005 * day_us \<rparr>)" by (simp add: p)
  with weekly_mission_expires [OF ok own _ m, where d = 20005 and ck = "demo_clock\<lparr> now := 20005 * day_us \<rparr>"] p
  show ?thesis by (simp add: fresh_user_mission_def)
qed

text \<open>
  The shares of a mission that was buffered twice are thirds of a number that is four times the catalogue target, so
  the comment that the division is exact does not hold: when the catalogue target is no multiple of three, all
  three portions are within reach one action before the target.
\<close>

lemma buffered_twice_paid_early:
  assumes "um_buffer_count r = 2" and "um_target_count r = 4 * base" and "0 < base" and "\<not> 3 dvd base"
    and "um_current_count r = um_target_count r - 1"
  shows "paliers_reached r = 3"
proof -
  have "\<not> 3 dvd 4 * base" using assms(4) by presburger
  then have "4 * base mod 3 \<noteq> 0" by auto
  then have le: "3 * (4 * base div 3) \<le> 4 * base - 1" by presburger
  have pos: "0 < 4 * base div 3" using assms(3) by presburger
  have "3 * (4 * base div 3) div (4 * base div 3) \<le> (4 * base - 1) div (4 * base div 3)"
    using le pos by (rule zdiv_mono1)
  then show ?thesis using assms pos by (simp add: paliers_reached_def Let_def)
qed


section \<open>Distinct values\<close>

definition counts_values :: "uuid \<Rightarrow> uuid \<Rightarrow> day \<Rightarrow> int \<Rightarrow> string set \<Rightarrow> db \<Rightarrow> bool" where
  "counts_values u mid p target vs s \<longleftrightarrow> (\<exists>r b. period_row u mid p s = Some r \<and> um_tracked_values r = Some b
     \<and> distinct b \<and> set b = vs \<and> um_current_count r = int (length b)
     \<and> um_status r = progress_status (int (length b)) target ''pending'')"

lemma first_value:
  assumes "period_row u mid p s = None" and "progress_distinct_mission u mid p target cab v s = (Inr x, t)"
  shows "counts_values u mid p target {v} t"
proof -
  let ?r = "fresh_user_mission (next_uuid s) u mid p 1 (progress_status 1 target ''pending'') target cab 0 (Some [v])"
  have none: "\<not> list_ex (same_period u mid p) (user_missions (play s))"
    using assms(1) by (auto simp: period_row_def find_None_iff list_ex_iff)
  with assms(2) have t: "user_missions (play t) = user_missions (play s) @ [?r]"
    by (auto simp: progress_distinct_mission_def insert_user_mission_def fresh_user_mission_def split: if_splits)
  have "same_period u mid p ?r" by (simp add: same_period_def fresh_user_mission_def)
  with assms(1) have "period_row u mid p t = Some ?r" by (simp add: period_row_def t find_append)
  then show ?thesis by (auto simp: counts_values_def fresh_user_mission_def)
qed

lemma next_value:
  assumes "counts_values u mid p target vs s" and "progress_distinct_mission u mid p target cab v s = (Inr x, t)"
  shows "counts_values u mid p target (insert v vs) t"
proof -
  obtain r b where r: "period_row u mid p s = Some r" and b: "um_tracked_values r = Some b" "distinct b" "set b = vs"
      "um_current_count r = int (length b)" "um_status r = progress_status (int (length b)) target ''pending''"
    using assms(1) by (auto simp: counts_values_def)
  have same: "same_period u mid p r" "r \<in> set (user_missions (play s))" using period_row_Some [OF r] by simp_all
  then have "list_ex (same_period u mid p) (user_missions (play s))" by (auto simp: list_ex_iff)
  with assms(2) have run: "append_distinct r target v (s\<lparr> next_uuid := Suc (next_uuid s) \<rparr>) = (Inr x, t)"
    using r by (auto simp: progress_distinct_mission_def insert_user_mission_def fresh_user_mission_def period_row_def split: if_splits)
  have st: "um_status r \<noteq> ''claimed''" using b(5) by (simp add: progress_status_def)
  show ?thesis
  proof (cases "v \<in> vs")
    case True
    with run st b have "t = s\<lparr> next_uuid := Suc (next_uuid s) \<rparr>" by (simp add: append_distinct_def)
    with r b True show ?thesis by (auto simp: counts_values_def period_row_def insert_absorb)
  next
    case False
    let ?f = "\<lambda>r'. r'\<lparr> um_tracked_values := Some (b @ [v]), um_current_count := int (length (b @ [v])),
        um_status := (if target \<le> int (length (b @ [v])) then ''completed'' else um_status r) \<rparr>"
    have t: "user_missions (play t) = update_where (\<lambda>q. um_id q = um_id r) ?f (user_missions (play s))"
      using run st b False by (auto simp: append_distinct_def Let_def)
    have "period_row u mid p t = map_option (\<lambda>q. if um_id q = um_id r then ?f q else q) (period_row u mid p s)"
      unfolding period_row_def t by (rule find_update_where_any) (simp add: same_period_def)
    then have "period_row u mid p t = Some (?f r)" using r by simp
    with b False show ?thesis by (auto simp: counts_values_def progress_status_def)
  qed
qed

lemma all_values:
  "counts_values u mid p target vs s \<Longrightarrow>
   for_each (\<lambda>v _. progress_distinct_mission u mid p target cab v) ws () s = (Inr x, t) \<Longrightarrow>
   counts_values u mid p target (vs \<union> set ws) t"
proof (induction ws arbitrary: vs s)
  case (Cons w ws)
  then obtain s1 where 1: "progress_distinct_mission u mid p target cab w s = (Inr (), s1)"
    and 2: "for_each (\<lambda>v _. progress_distinct_mission u mid p target cab v) ws () s1 = (Inr x, t)"
    by (auto simp: bnd_Inr_iff)
  from Cons.IH [OF next_value [OF Cons.prems(1) 1] 2] show ?case by simp
qed simp

text \<open>
  The progress of a distinct-value mission (categories, stores) is the number of different values
  seen, however often and in whatever order they come: after any non-empty series of events in a period that had no row,
  the count is the size of the set of values, and the mission is completed exactly when it reaches the target.
\<close>

theorem distinct_mission_counts_values:
  assumes "period_row u mid p s = None" and "vs \<noteq> []"
    and "for_each (\<lambda>v _. progress_distinct_mission u mid p target cab v) vs () s = (Inr x, t)"
  shows "\<exists>r. period_row u mid p t = Some r \<and> um_current_count r = int (card (set vs))
     \<and> um_status r = (if target \<le> int (card (set vs)) then ''completed'' else ''pending'')"
proof -
  obtain w ws where vs: "vs = w # ws" using assms(2) by (cases vs) auto
  with assms(3) obtain s1 where 1: "progress_distinct_mission u mid p target cab w s = (Inr (), s1)"
    and 2: "for_each (\<lambda>v _. progress_distinct_mission u mid p target cab v) ws () s1 = (Inr x, t)"
    by (auto simp: bnd_Inr_iff)
  from all_values [OF first_value [OF assms(1) 1] 2] obtain r b where "period_row u mid p t = Some r" "distinct b"
    "set b = set vs" "um_current_count r = int (length b)" "um_status r = progress_status (int (length b)) target ''pending''"
    unfolding counts_values_def vs by auto
  then show ?thesis by (auto simp: distinct_card [symmetric] progress_status_def)
qed

theorem distinct_mission_counts_values_witness:
  "\<exists>r t. for_each (\<lambda>v _. progress_distinct_mission 7 2 20000 2 10 v) [''store:a'', ''store:b'', ''store:a''] () empty_db = (Inr (), t)
     \<and> period_row 7 2 20000 t = Some r \<and> um_current_count r = 2 \<and> um_status r = ''completed''"
proof -
  have "\<exists>t. for_each (\<lambda>v _. progress_distinct_mission 7 2 20000 2 10 v) [''store:a'', ''store:b'', ''store:a''] () empty_db = (Inr (), t)"
    by (simp add: progress_distinct_mission_def insert_user_mission_def fresh_user_mission_def append_distinct_def period_row_def
        same_period_def fits_int4_def progress_status_def bnd_def)
  then obtain t where run: "for_each (\<lambda>v _. progress_distinct_mission 7 2 20000 2 10 v) [''store:a'', ''store:b'', ''store:a''] () empty_db = (Inr (), t)"
    by blast
  have "period_row 7 2 20000 empty_db = None" by (simp add: period_row_def)
  moreover have "card {''store:a'', ''store:b'', ''store:a''} = 2" by (simp add: card_insert_if)
  ultimately obtain r where "period_row 7 2 20000 t = Some r" "um_current_count r = 2" "um_status r = ''completed''"
    using distinct_mission_counts_values [OF _ _ run] by auto
  with run show ?thesis by blast
qed

end
