(* ===== verification/Ratis_Mystery.thy ===== *)
theory Ratis_Mystery
  imports Ratis_Play
begin

text \<open>
  The mystery product (\<open>repositories/mystery_repository.py\<close>, \<open>services/mystery_service.py\<close>, the routes of
  \<open>routes/gamification/mystery.py\<close> and \<open>routes/admin/mystery.py\<close>) and its nightly batch
  (\<open>ratis_batch_mystery_announce\<close>). A challenge is scheduled, active, frozen and revealed in that order. The
  lemmas show that at most one is active, that the finds of a challenge have the ranks 1, 2, ... with one find per
  user, and when the batch activates the next challenge.
\<close>

section \<open>Reading\<close>

fun resolve_cab_tier :: "reward_tier list \<Rightarrow> int \<Rightarrow> int" where
  "resolve_cab_tier [] rank = 0"
| "resolve_cab_tier (t # ts) rank =
     (if tier_min_rank t \<le> rank \<and> (case tier_max_rank t of None \<Rightarrow> True | Some m \<Rightarrow> rank \<le> m) then tier_cab t
      else resolve_cab_tier ts rank)"

definition mystery_by_id :: "db \<Rightarrow> uuid \<Rightarrow> mystery_row option" where
  "mystery_by_id s i = List.find (\<lambda>c. mc_id c = i) (mystery_challenges (play s))"

definition get_active_challenge :: "db \<Rightarrow> mystery_row option" where
  "get_active_challenge s =
     (case sort_key (\<lambda>c. - mc_starts_at c)
        (filter (\<lambda>c. mc_status c \<in> {''active'', ''frozen''}) (mystery_challenges (play s))) of
        [] \<Rightarrow> None | c # _ \<Rightarrow> Some c)"

text \<open>A clue as it is shown: its day, its text (\<open>None\<close> while it is hidden) and whether it is revealed.\<close>

record clue_view =
  cv_reveal_day :: int
  cv_clue_text :: "string option"
  cv_revealed :: bool

definition get_challenge_clues :: "db \<Rightarrow> uuid \<Rightarrow> bool \<Rightarrow> clue_view list" where
  "get_challenge_clues s i include_unrevealed =
     (let rows = sort_key ce_reveal_day (filter (\<lambda>c. ce_challenge_id c = i) (mystery_challenge_clues (play s))) in
      if include_unrevealed
      then map (\<lambda>c. \<lparr> cv_reveal_day = ce_reveal_day c,
             cv_clue_text = (if ce_revealed_at c \<noteq> None then Some (ce_text c) else None),
             cv_revealed = (ce_revealed_at c \<noteq> None) \<rparr>) rows
      else map (\<lambda>c. \<lparr> cv_reveal_day = ce_reveal_day c, cv_clue_text = Some (ce_text c), cv_revealed = True \<rparr>)
             (filter (\<lambda>c. ce_revealed_at c \<noteq> None) rows))"

definition get_user_find :: "db \<Rightarrow> uuid \<Rightarrow> uuid \<Rightarrow> find_row option" where
  "get_user_find s i u = List.find (\<lambda>f. fi_challenge_id f = i \<and> fi_user_id f = u) (mystery_challenge_finds (play s))"

text \<open>\<^verbatim>\<open>SPLIT_PART(email, '@', 1)\<close>; \<open>None\<close> when the user is gone (the join is a left join).\<close>

definition username_of :: "db \<Rightarrow> uuid \<Rightarrow> string option" where
  "username_of s u = map_option (\<lambda>r. takeWhile (\<lambda>c. c \<noteq> CHR ''@'') (email r)) (users s u)"

record leaderboard_entry =
  le_rank :: int
  le_cab_awarded :: int
  le_found_at :: stamp
  le_found_at_day :: int
  le_username :: "string option"

text \<open>\<^verbatim>\<open>EXTRACT(DAY FROM (found_at - starts_at)) + 1\<close>: whole days, truncated towards zero.\<close>

definition elapsed_days :: "stamp \<Rightarrow> stamp \<Rightarrow> int" where
  "elapsed_days from until = sgn (until - from) * (\<bar>until - from\<bar> div day_us)"

definition get_leaderboard :: "db \<Rightarrow> uuid \<Rightarrow> leaderboard_entry list" where
  "get_leaderboard s i = (case mystery_by_id s i of None \<Rightarrow> [] | Some c \<Rightarrow>
     map (\<lambda>f. \<lparr> le_rank = fi_rank f, le_cab_awarded = fi_cab_awarded f, le_found_at = fi_found_at f,
            le_found_at_day = elapsed_days (mc_starts_at c) (fi_found_at f) + 1,
            le_username = username_of s (fi_user_id f) \<rparr>)
       (sort_key fi_rank (filter (\<lambda>f. fi_challenge_id f = i \<and> fi_announced_at f \<noteq> None) (mystery_challenge_finds (play s)))))"

definition finds_count :: "db \<Rightarrow> uuid \<Rightarrow> nat" where
  "finds_count s i = count_where (\<lambda>f. fi_challenge_id f = i) (mystery_challenge_finds (play s))"

definition list_challenges :: "db \<Rightarrow> (mystery_row \<times> nat) list" where
  "list_challenges s = map (\<lambda>c. (c, finds_count s (mc_id c))) (sort_key (\<lambda>c. - mc_starts_at c) (mystery_challenges (play s)))"

text \<open>
  \<^verbatim>\<open>ORDER BY random() LIMIT 1\<close> is a parameter \<open>draw\<close> that picks an element of a non-empty list.
\<close>

definition eligible_eans :: "clock \<Rightarrow> db \<Rightarrow> string option \<Rightarrow> string list" where
  "eligible_eans ck s category_filter = concat (map (\<lambda>pc. map (\<lambda>p. pc_product_ean pc)
       (filter (\<lambda>p. pr_ean p = pc_product_ean pc
          \<and> (case category_filter of None \<Rightarrow> True
             | Some n \<Rightarrow> Option.bind (pr_category_id p) (category_names (play s)) = Some n)) (products s)))
     (filter (\<lambda>pc. now ck - 90 * day_us < pc_last_seen_at pc
          \<and> pc_product_ean pc \<notin> fst ` set (mystery_challenge_exclusions (play s))) (price_consensus (play s))))"

definition draw_random_product :: "(string list \<Rightarrow> string) \<Rightarrow> clock \<Rightarrow> string option \<Rightarrow> string db_op" where
  "draw_random_product draw ck category_filter = bnd (reads (\<lambda>s. eligible_eans ck s category_filter)) (\<lambda>eans.
     if eans = [] then throw NoEligibleProduct else ret (draw eans))"


section \<open>Writing\<close>

definition insert_clue :: "uuid \<Rightarrow> int \<times> string \<Rightarrow> unit db_op" where
  "insert_clue i clue = bnd fresh_uuid (\<lambda>k. bnd (reads (\<lambda>s. mystery_challenge_clues (play s))) (\<lambda>rows.
     seq (int4 (fst clue))
     (seq (constr (1 \<le> fst clue \<and> fst clue \<le> 3) ''mystery_challenge_clues_reveal_day_check'')
     (seq (constr (\<not> list_ex (\<lambda>c. ce_challenge_id c = i \<and> ce_reveal_day c = fst clue) rows)
             ''mystery_challenge_clues_challenge_id_reveal_day_key'')
     (modify_play (\<lambda>p. p\<lparr> mystery_challenge_clues := mystery_challenge_clues p @
        [\<lparr> ce_id = k, ce_challenge_id = i, ce_reveal_day = fst clue, ce_text = snd clue, ce_revealed_at = None \<rparr>] \<rparr>))))))"

definition insert_clues :: "uuid \<Rightarrow> (int \<times> string) list \<Rightarrow> unit db_op" where
  "insert_clues i clues = for_each (\<lambda>c _. insert_clue i c) clues ()"

definition product_exists :: "string \<Rightarrow> db \<Rightarrow> bool" where
  "product_exists ean s \<longleftrightarrow> list_ex (\<lambda>p. pr_ean p = ean) (products s)"

definition overlapping :: "stamp \<Rightarrow> stamp \<Rightarrow> db \<Rightarrow> bool" where
  "overlapping starts ends s \<longleftrightarrow> list_ex (\<lambda>c. mc_status c \<in> {''scheduled'', ''active'', ''frozen''}
     \<and> mc_starts_at c < ends \<and> starts < mc_ends_at c) (mystery_challenges (play s))"

text \<open>The upsert of the exclusion, and the delete that keeps the five latest.\<close>

definition upsert_exclusion :: "string \<Rightarrow> stamp \<Rightarrow> (string \<times> stamp) list \<Rightarrow> (string \<times> stamp) list" where
  "upsert_exclusion ean until xs =
     (if ean \<in> fst ` set xs then map (\<lambda>(e, t). if e = ean then (e, until) else (e, t)) xs else xs @ [(ean, until)])"

definition prune_exclusions :: "(string \<times> stamp) list \<Rightarrow> (string \<times> stamp) list" where
  "prune_exclusions xs = filter (\<lambda>x. fst x \<in> fst ` set (take 5 (sort_key (\<lambda>x. - snd x) xs))) xs"

definition create_mystery_challenge ::
  "(string list \<Rightarrow> string) \<Rightarrow> clock \<Rightarrow> stamp \<Rightarrow> string option \<Rightarrow> reward_tier list \<Rightarrow> (int \<times> string) list
    \<Rightarrow> string option \<Rightarrow> uuid db_op" where
  "create_mystery_challenge draw ck starts_at product_ean reward_tiers clues category_filter =
     (let ends_at = starts_at + 7 * day_us in
      bnd (reads (overlapping starts_at ends_at)) (\<lambda>overlap.
      if overlap then throw ChallengeOverlap
      else bnd (case product_ean of Some e \<Rightarrow> ret e | None \<Rightarrow> draw_random_product draw ck category_filter) (\<lambda>ean.
        bnd (reads (product_exists ean)) (\<lambda>exists_ean.
        if \<not> exists_ean then throw ValueError
        else bnd fresh_uuid (\<lambda>i.
          seq (modify_play (\<lambda>p. p\<lparr> mystery_challenges := mystery_challenges p @
             [\<lparr> mc_id = i, mc_product_ean = ean, mc_starts_at = starts_at, mc_ends_at = ends_at,
                mc_status = ''scheduled'', mc_reward_tiers = reward_tiers \<rparr>] \<rparr>))
          (seq (insert_clues i clues)
          (seq (modify_play (\<lambda>p. p\<lparr> mystery_challenge_exclusions :=
             prune_exclusions (upsert_exclusion ean ends_at (mystery_challenge_exclusions p)) \<rparr>))
          (ret i))))))))"

definition set_challenge :: "uuid \<Rightarrow> (mystery_row \<Rightarrow> mystery_row) \<Rightarrow> unit db_op" where
  "set_challenge i f = modify_play (\<lambda>p. p\<lparr> mystery_challenges := update_where (\<lambda>c. mc_id c = i) f (mystery_challenges p) \<rparr>)"

definition require_scheduled :: "uuid \<Rightarrow> unit db_op" where
  "require_scheduled i = bnd (reads (\<lambda>s. mystery_by_id s i)) (\<lambda>row.
     case row of None \<Rightarrow> throw ChallengeNotModifiable
     | Some c \<Rightarrow> if mc_status c \<noteq> ''scheduled'' then throw ChallengeNotModifiable else ret ())"

definition update_mystery_challenge ::
  "uuid \<Rightarrow> stamp option \<Rightarrow> string option \<Rightarrow> reward_tier list option \<Rightarrow> (int \<times> string) list option \<Rightarrow> unit db_op" where
  "update_mystery_challenge i starts_at product_ean reward_tiers clues =
     seq (require_scheduled i)
     (seq (case starts_at of None \<Rightarrow> ret ()
           | Some t \<Rightarrow> set_challenge i (\<lambda>c. c\<lparr> mc_starts_at := t, mc_ends_at := t + 7 * day_us \<rparr>))
     (seq (case product_ean of None \<Rightarrow> ret ()
           | Some e \<Rightarrow> seq (bnd (reads (product_exists e)) (\<lambda>ok. constr ok ''mystery_challenges_product_ean_fkey''))
               (set_challenge i (\<lambda>c. c\<lparr> mc_product_ean := e \<rparr>)))
     (seq (case reward_tiers of None \<Rightarrow> ret () | Some ts \<Rightarrow> set_challenge i (\<lambda>c. c\<lparr> mc_reward_tiers := ts \<rparr>))
     (case clues of None \<Rightarrow> ret ()
      | Some cs \<Rightarrow> seq (modify_play (\<lambda>p. p\<lparr> mystery_challenge_clues :=
            filter (\<lambda>c. ce_challenge_id c \<noteq> i) (mystery_challenge_clues p) \<rparr>)) (insert_clues i cs)))))"

text \<open>The clues go with the challenge (\<open>ON DELETE CASCADE\<close>); a find would forbid the deletion.\<close>

definition delete_mystery_challenge :: "uuid \<Rightarrow> unit db_op" where
  "delete_mystery_challenge i = seq (require_scheduled i)
     (bnd (reads (\<lambda>s. finds_count s i)) (\<lambda>n.
      seq (constr (n = 0) ''mystery_challenge_finds_challenge_id_fkey'')
        (modify_play (\<lambda>p. p\<lparr> mystery_challenges := filter (\<lambda>c. mc_id c \<noteq> i) (mystery_challenges p),
           mystery_challenge_clues := filter (\<lambda>c. ce_challenge_id c \<noteq> i) (mystery_challenge_clues p) \<rparr>))))"

definition insert_find :: "find_row \<Rightarrow> unit db_op" where
  "insert_find f = bnd (reads (\<lambda>s. mystery_challenge_finds (play s))) (\<lambda>rows.
     seq (int4 (fi_rank f)) (seq (int4 (fi_cab_awarded f))
     (seq (constr (\<not> list_ex (\<lambda>g. fi_challenge_id g = fi_challenge_id f \<and> fi_user_id g = fi_user_id f) rows)
             ''mystery_challenge_finds_challenge_id_user_id_key'')
     (modify_play (\<lambda>p. p\<lparr> mystery_challenge_finds := mystery_challenge_finds p @ [f] \<rparr>)))))"

text \<open>The challenge a scan may find: active, for the scanned product, not found by the user yet.\<close>

definition findable :: "db \<Rightarrow> uuid \<Rightarrow> uuid \<Rightarrow> mystery_row option" where
  "findable s u scan_id =
     (case List.find (\<lambda>r. sc_id r = scan_id) (scans s) of None \<Rightarrow> None
      | Some scan \<Rightarrow> (case sc_product_ean scan of None \<Rightarrow> None
        | Some ean \<Rightarrow> if ean = '''' then None
            else (case List.find (\<lambda>c. mc_status c = ''active'' \<and> mc_product_ean c = ean) (mystery_challenges (play s)) of
                None \<Rightarrow> None
              | Some c \<Rightarrow> if get_user_find s (mc_id c) u \<noteq> None then None else Some c)))"

definition check_mystery_find :: "clock \<Rightarrow> uuid \<Rightarrow> uuid \<Rightarrow> (int \<times> int) option db_op" where
  "check_mystery_find ck u scan_id = bnd (reads (\<lambda>s. findable s u scan_id)) (\<lambda>found. case found of
       None \<Rightarrow> ret None
     | Some c \<Rightarrow> bnd (reads (\<lambda>s. finds_count s (mc_id c))) (\<lambda>n.
         let rank = int n + 1; cab = resolve_cab_tier (mc_reward_tiers c) rank in
         bnd fresh_uuid (\<lambda>i. seq (insert_find
             \<lparr> fi_id = i, fi_challenge_id = mc_id c, fi_user_id = u, fi_scan_id = scan_id, fi_rank = rank,
               fi_cab_awarded = cab, fi_found_at = now ck, fi_announced_at = None \<rparr>)
           (ret (Some (rank, cab))))))"

definition process_mystery_find :: "clock \<Rightarrow> uuid \<Rightarrow> uuid \<Rightarrow> unit db_op" where
  "process_mystery_find ck u scan_id = bnd (check_mystery_find ck u scan_id) (\<lambda>result. case result of
       None \<Rightarrow> ret ()
     | Some (rank, cab) \<Rightarrow>
         seq (if 0 < cab then award_cab ck u cab ''mystery_product'' (Some scan_id) (Some ''scan'') True None True None
              else ret ())
         (enqueue_notification ck u ''mystery_product_found'' (JObj [(''rank'', JInt rank), (''cab'', JInt cab)])))"


section \<open>The routes\<close>

record mystery_view =
  mv_id :: uuid
  mv_status :: string
  mv_starts_at :: stamp
  mv_ends_at :: stamp
  mv_reward_tiers :: "reward_tier list"
  mv_clues :: "clue_view list"
  mv_announced_winner :: "(string option \<times> int) option"
  mv_user_find :: "find_row option"
  mv_product_ean :: "string option"

definition get_mystery :: "uuid \<Rightarrow> mystery_view db_op" where
  "get_mystery u = bnd (reads get_active_challenge) (\<lambda>found. case found of
       None \<Rightarrow> throw (HTTPException 404 ''mystery_not_found'')
     | Some c \<Rightarrow> reads (\<lambda>s. \<lparr> mv_id = mc_id c, mv_status = mc_status c, mv_starts_at = mc_starts_at c,
         mv_ends_at = mc_ends_at c, mv_reward_tiers = mc_reward_tiers c, mv_clues = get_challenge_clues s (mc_id c) False,
         mv_announced_winner = (case get_leaderboard s (mc_id c) of [] \<Rightarrow> None
            | e # _ \<Rightarrow> Some (le_username e, le_found_at_day e)),
         mv_user_find = get_user_find s (mc_id c) u,
         mv_product_ean = (if mc_status c = ''revealed'' then Some (mc_product_ean c) else None) \<rparr>))"

definition get_mystery_leaderboard :: "uuid \<Rightarrow> (uuid \<times> string \<times> leaderboard_entry list \<times> int option) db_op" where
  "get_mystery_leaderboard u = bnd (reads get_active_challenge) (\<lambda>found. case found of
       None \<Rightarrow> throw (HTTPException 404 ''mystery_not_found'')
     | Some c \<Rightarrow> reads (\<lambda>s. (mc_id c, mc_status c, get_leaderboard s (mc_id c),
         map_option fi_rank (get_user_find s (mc_id c) u))))"

record history_entry =
  hy_id :: uuid
  hy_product_ean :: string
  hy_product_name :: string
  hy_winner_username :: "string option"
  hy_finds_count :: nat

definition get_mystery_history :: "db \<Rightarrow> history_entry list" where
  "get_mystery_history s = take 10 (concat (map (\<lambda>c. map (\<lambda>p.
       \<lparr> hy_id = mc_id c, hy_product_ean = mc_product_ean c, hy_product_name = pr_name p,
         hy_winner_username = Option.bind (List.find (\<lambda>f. fi_challenge_id f = mc_id c \<and> fi_rank f = 1)
            (mystery_challenge_finds (play s))) (\<lambda>f. username_of s (fi_user_id f)),
         hy_finds_count = finds_count s (mc_id c) \<rparr>) (filter (\<lambda>p. pr_ean p = mc_product_ean c) (products s)))
     (sort_key (\<lambda>c. - mc_starts_at c) (filter (\<lambda>c. mc_status c = ''revealed'') (mystery_challenges (play s))))))"

definition admin_create_mystery ::
  "(string list \<Rightarrow> string) \<Rightarrow> clock \<Rightarrow> stamp \<Rightarrow> string option \<Rightarrow> reward_tier list \<Rightarrow> (int \<times> string) list
    \<Rightarrow> string option \<Rightarrow> uuid db_op" where
  "admin_create_mystery draw ck starts_at product_ean reward_tiers clues category_filter =
     bnd (reads (\<lambda>s. case product_ean of None \<Rightarrow> True | Some e \<Rightarrow> product_exists e s)) (\<lambda>known.
     if \<not> known then throw (HTTPException 404 ''product_not_found'')
     else catch (db_transaction (create_mystery_challenge draw ck starts_at product_ean reward_tiers clues category_filter))
       (\<lambda>e. if e = ChallengeOverlap then throw (HTTPException 409 ''challenge_overlap'')
            else if e = NoEligibleProduct then throw (HTTPException 422 ''no_eligible_product'') else throw e))"

definition if_known :: "uuid \<Rightarrow> 'a db_op \<Rightarrow> 'a db_op" where
  "if_known i m = bnd (reads (\<lambda>s. mystery_by_id s i)) (\<lambda>row.
     if row = None then throw (HTTPException 404 ''mystery_not_found'')
     else catch (db_transaction m)
       (\<lambda>e. if e = ChallengeNotModifiable then throw (HTTPException 409 ''challenge_not_modifiable'') else throw e))"

definition admin_update_mystery ::
  "uuid \<Rightarrow> stamp option \<Rightarrow> string option \<Rightarrow> reward_tier list option \<Rightarrow> (int \<times> string) list option \<Rightarrow> unit db_op" where
  "admin_update_mystery i starts_at product_ean reward_tiers clues =
     if_known i (update_mystery_challenge i starts_at product_ean reward_tiers clues)"

definition admin_delete_mystery :: "uuid \<Rightarrow> unit db_op" where
  "admin_delete_mystery i = if_known i (delete_mystery_challenge i)"

record drawn_product =
  dp_ean :: string
  dp_name :: "string option"
  dp_category :: "string option"
  dp_last_consensus_at :: "stamp option"

text \<open>\<^verbatim>\<open>MAX(pc.last_seen_at)\<close> of the joined rows, \<open>None\<close> without one.\<close>

definition last_consensus :: "db \<Rightarrow> string \<Rightarrow> stamp option" where
  "last_consensus s ean = fold (\<lambda>pc acc. case acc of None \<Rightarrow> Some (pc_last_seen_at pc)
       | Some t \<Rightarrow> Some (max t (pc_last_seen_at pc)))
     (filter (\<lambda>pc. pc_product_ean pc = ean) (price_consensus (play s))) None"

definition admin_draw_product :: "(string list \<Rightarrow> string) \<Rightarrow> clock \<Rightarrow> string option \<Rightarrow> drawn_product db_op" where
  "admin_draw_product draw ck category =
     bnd (catch (draw_random_product draw ck category)
            (\<lambda>e. if e = NoEligibleProduct then throw (HTTPException 422 ''no_eligible_product'') else throw e)) (\<lambda>ean.
     reads (\<lambda>s. case List.find (\<lambda>p. pr_ean p = ean) (products s) of
         None \<Rightarrow> \<lparr> dp_ean = ean, dp_name = None, dp_category = None, dp_last_consensus_at = None \<rparr>
       | Some p \<Rightarrow> \<lparr> dp_ean = ean, dp_name = Some (pr_name p),
           dp_category = Option.bind (pr_category_id p) (category_names (play s)),
           dp_last_consensus_at = last_consensus s ean \<rparr>))"


section \<open>The nightly batch\<close>

definition active_mystery :: "db \<Rightarrow> mystery_row option" where
  "active_mystery s = List.find (\<lambda>c. mc_status c = ''active'') (mystery_challenges (play s))"

definition reveal_clues :: "clock \<Rightarrow> unit db_op" where
  "reveal_clues ck = bnd (reads active_mystery) (\<lambda>found. case found of
       None \<Rightarrow> ret ()
     | Some c \<Rightarrow> modify_play (\<lambda>p. p\<lparr> mystery_challenge_clues := update_where
         (\<lambda>x. ce_challenge_id x = mc_id c \<and> ce_reveal_day x \<le> elapsed_days (mc_starts_at c) (now ck) + 1
            \<and> ce_revealed_at x = None)
         (\<lambda>x. x\<lparr> ce_revealed_at := Some (now ck) \<rparr>) (mystery_challenge_clues p) \<rparr>))"

definition announce_finds :: "clock \<Rightarrow> unit db_op" where
  "announce_finds ck = modify_play (\<lambda>p. p\<lparr> mystery_challenge_finds := update_where
     (\<lambda>f. fi_announced_at f = None \<and> fi_found_at f < now ck div day_us * day_us)
     (\<lambda>f. f\<lparr> fi_announced_at := Some (now ck) \<rparr>) (mystery_challenge_finds p) \<rparr>)"

definition next_scheduled :: "clock \<Rightarrow> db \<Rightarrow> mystery_row option" where
  "next_scheduled ck s =
     (case sort_key mc_starts_at (filter (\<lambda>c. mc_status c = ''scheduled'' \<and> mc_starts_at c \<le> now ck)
             (mystery_challenges (play s))) of [] \<Rightarrow> None | c # _ \<Rightarrow> Some c)"

definition activate_next :: "clock \<Rightarrow> unit db_op" where
  "activate_next ck = bnd (reads (\<lambda>s. (next_scheduled ck s, active_mystery s))) (\<lambda>(candidate, active).
     case candidate of None \<Rightarrow> ret ()
     | Some c \<Rightarrow> if active \<noteq> None then ret () else set_challenge (mc_id c) (\<lambda>c. c\<lparr> mc_status := ''active'' \<rparr>))"

definition aged :: "clock \<Rightarrow> mystery_row \<Rightarrow> mystery_row" where
  "aged ck c = c\<lparr> mc_status := (if mc_status c = ''active'' \<and> mc_ends_at c \<le> now ck then ''frozen''
     else if mc_status c = ''frozen'' \<and> mc_ends_at c \<le> now ck - day_us then ''revealed'' else mc_status c) \<rparr>"

definition freeze_and_reveal :: "clock \<Rightarrow> unit db_op" where
  "freeze_and_reveal ck = modify_play (\<lambda>p. p\<lparr> mystery_challenges := update_where
     (\<lambda>c. mc_status c \<in> {''active'', ''frozen''} \<and> mc_ends_at c \<le> now ck) (aged ck) (mystery_challenges p) \<rparr>)"

text \<open>Each step is a transaction of its own; a failed one is logged and the next one runs.\<close>

definition mystery_announce :: "clock \<Rightarrow> unit db_op" where
  "mystery_announce ck =
     for_each (\<lambda>m _. catch (db_transaction m) (\<lambda>_. ret ()))
       [reveal_clues ck, announce_finds ck, activate_next ck, freeze_and_reveal ck] ()"


section \<open>The invariant\<close>

definition mystery_statuses :: "string list" where
  "mystery_statuses = [''scheduled'', ''active'', ''frozen'', ''revealed'']"

definition ranks_ok :: "find_row list \<Rightarrow> bool" where
  "ranks_ok fs \<longleftrightarrow> (\<forall>i. map fi_rank (filter (\<lambda>f. fi_challenge_id f = i) fs) =
     map int [1..<Suc (count_where (\<lambda>f. fi_challenge_id f = i) fs)])"

definition mystery_ok :: "db \<Rightarrow> bool" where
  "mystery_ok s \<longleftrightarrow>
     distinct (map mc_id (mystery_challenges (play s)))
     \<and> (\<forall>c \<in> set (mystery_challenges (play s)). mc_id c < next_uuid s \<and> mc_status c \<in> set mystery_statuses)
     \<and> count_where (\<lambda>c. mc_status c = ''active'') (mystery_challenges (play s)) \<le> 1
     \<and> ranks_ok (mystery_challenge_finds (play s))
     \<and> distinct (map (\<lambda>f. (fi_challenge_id f, fi_user_id f)) (mystery_challenge_finds (play s)))"

text \<open>The invariant depends on the challenges, the finds and a bound on the identifiers.\<close>

lemma mystery_ok_mono:
  assumes "mystery_ok s" and "mystery_challenges (play t) = mystery_challenges (play s)"
    and "mystery_challenge_finds (play t) = mystery_challenge_finds (play s)" and "next_uuid s \<le> next_uuid t"
  shows "mystery_ok t"
  using assms by (auto simp: mystery_ok_def)

lemma ranks_ok_append:
  assumes "ranks_ok fs" and "fi_rank f = int (count_where (\<lambda>g. fi_challenge_id g = fi_challenge_id f) fs) + 1"
  shows "ranks_ok (fs @ [f])"
  using assms by (auto simp: ranks_ok_def count_where_def)

lemma count_where_update_le:
  "(\<And>r. r \<in> set xs \<Longrightarrow> q r \<Longrightarrow> p (f r) \<Longrightarrow> p r) \<Longrightarrow> count_where p (update_where q f xs) \<le> count_where p xs"
  by (induction xs) (auto simp: count_where_def intro: le_SucI)

lemma count_where_filter_le: "count_where p (filter q xs) \<le> count_where p xs"
  by (induction xs) (auto simp: count_where_def intro: le_SucI)

text \<open>Rows change without a new activation.\<close>

lemma mystery_ok_rows:
  assumes ok: "mystery_ok s"
    and "mystery_challenges (play t) = update_where q f (mystery_challenges (play s))"
    and "\<And>c. mc_id (f c) = mc_id c"
    and st: "\<And>c. c \<in> set (mystery_challenges (play s)) \<Longrightarrow> q c \<Longrightarrow> mc_status (f c) \<in> set mystery_statuses
      \<and> (mc_status (f c) = ''active'' \<longrightarrow> mc_status c = ''active'')"
    and "mystery_challenge_finds (play t) = mystery_challenge_finds (play s)" and "next_uuid s \<le> next_uuid t"
  shows "mystery_ok t"
proof -
  have "count_where (\<lambda>c. mc_status c = ''active'') (mystery_challenges (play t)) \<le> 1"
    using ok count_where_update_le [of "mystery_challenges (play s)" q "\<lambda>c. mc_status c = ''active''" f] st assms(2)
    by (auto simp: mystery_ok_def)
  moreover have "\<forall>c \<in> set (mystery_challenges (play t)). mc_id c < next_uuid t \<and> mc_status c \<in> set mystery_statuses"
    using ok st assms(2,3,6) by (auto simp: mystery_ok_def set_update_where intro: less_le_trans)
  ultimately show ?thesis using ok assms(2,3,5) by (simp add: mystery_ok_def map_update_where)
qed

lemma keeps_insert_clue: "keeps mystery_ok (insert_clue i c)"
  by (rule keepsI) (auto simp: insert_clue_def intro: mystery_ok_mono split: if_splits)

lemma keeps_insert_clues: "keeps mystery_ok (insert_clues i cs)"
  unfolding insert_clues_def by (intro keeps_for_each keeps_insert_clue)

lemma keeps_draw: "keeps mystery_ok (draw_random_product draw ck c)"
  unfolding draw_random_product_def by (intro keeps_intro)

lemma keeps_set_challenge:
  assumes "\<And>c. mc_id (f c) = mc_id c" and "\<And>c. mc_status (f c) = mc_status c"
  shows "keeps mystery_ok (set_challenge i f)"
proof (rule keepsI, goal_cases)
  case (1 s r t)
  show ?case
    by (rule mystery_ok_rows [OF 1(1), where f = f and q = "\<lambda>c. mc_id c = i"])
      (use 1 assms in \<open>auto simp: set_challenge_def mystery_ok_def\<close>)
qed

lemma keeps_exclude: "keeps mystery_ok (modify_play (\<lambda>p. p\<lparr> mystery_challenge_exclusions := g p \<rparr>))"
  by (rule keepsI) (auto intro: mystery_ok_mono)

lemma keeps_drop_clues: "keeps mystery_ok (modify_play (\<lambda>p. p\<lparr> mystery_challenge_clues := g p \<rparr>))"
  by (rule keepsI) (auto intro: mystery_ok_mono)

lemma keeps_schedule:
  "keeps mystery_ok (bnd fresh_uuid (\<lambda>i. seq (modify_play (\<lambda>p. p\<lparr> mystery_challenges := mystery_challenges p @
     [\<lparr> mc_id = i, mc_product_ean = e, mc_starts_at = a, mc_ends_at = b, mc_status = ''scheduled'', mc_reward_tiers = ts \<rparr>] \<rparr>))
     (seq (insert_clues i cs) (seq (modify_play (\<lambda>p. p\<lparr> mystery_challenge_exclusions := g p \<rparr>)) (ret i)))))"
proof (rule keepsI, goal_cases)
  case (1 s r t)
  define s1 where "s1 = s\<lparr> next_uuid := Suc (next_uuid s), play := (play s)\<lparr> mystery_challenges := mystery_challenges (play s) @
     [\<lparr> mc_id = next_uuid s, mc_product_ean = e, mc_starts_at = a, mc_ends_at = b, mc_status = ''scheduled'', mc_reward_tiers = ts \<rparr>] \<rparr> \<rparr>"
  have ok: "mystery_ok s1"
    using 1(1) by (auto simp: mystery_ok_def s1_def mystery_statuses_def count_where_def less_Suc_eq)
  have "keeps mystery_ok (seq (insert_clues (next_uuid s) cs) (seq (modify_play (\<lambda>p. p\<lparr> mystery_challenge_exclusions := g p \<rparr>)) (ret (next_uuid s))))"
    by (intro keeps_seq keeps_insert_clues keeps_exclude keeps_ret)
  from keepsD [OF this ok] 1(2) show ?case by (simp add: s1_def)
qed

lemma keeps_create: "keeps mystery_ok (create_mystery_challenge draw ck a e ts cs cat)"
  unfolding create_mystery_challenge_def Let_def
  by (intro keeps_bnd keeps_if keeps_throw keeps_reads keeps_case_option keeps_ret keeps_draw keeps_schedule)

lemma keeps_update: "keeps mystery_ok (update_mystery_challenge i a e ts cs)"
  unfolding update_mystery_challenge_def require_scheduled_def
  by (intro keeps_seq keeps_bnd keeps_reads keeps_case_option keeps_ret keeps_if keeps_throw keeps_constr keeps_set_challenge
      keeps_insert_clues keeps_drop_clues) simp_all

lemma keeps_delete: "keeps mystery_ok (delete_mystery_challenge i)"
proof -
  have "keeps mystery_ok (modify_play (\<lambda>p. p\<lparr> mystery_challenges := filter (\<lambda>c. mc_id c \<noteq> i) (mystery_challenges p),
     mystery_challenge_clues := filter (\<lambda>c. ce_challenge_id c \<noteq> i) (mystery_challenge_clues p) \<rparr>))"
    by (rule keepsI)
      (auto simp: mystery_ok_def distinct_map inj_on_def intro: order_trans [OF count_where_filter_le])
  then show ?thesis
    unfolding delete_mystery_challenge_def require_scheduled_def
    by (intro keeps_seq keeps_bnd keeps_reads keeps_case_option keeps_ret keeps_if keeps_throw keeps_constr)
qed

lemma check_find_Inr:
  assumes "check_mystery_find ck u scan_id s = (Inr res, t)"
  shows "res = None \<and> t = s \<and> findable s u scan_id = None \<or>
    (\<exists>c f. findable s u scan_id = Some c \<and> fi_challenge_id f = mc_id c \<and> fi_user_id f = u
       \<and> fi_rank f = int (finds_count s (mc_id c)) + 1 \<and> fi_cab_awarded f = resolve_cab_tier (mc_reward_tiers c) (fi_rank f)
       \<and> get_user_find s (mc_id c) u = None \<and> res = Some (fi_rank f, fi_cab_awarded f)
       \<and> t = s\<lparr> next_uuid := Suc (next_uuid s), play := (play s)\<lparr> mystery_challenge_finds := mystery_challenge_finds (play s) @ [f] \<rparr> \<rparr>)"
proof (cases "findable s u scan_id")
  case None
  with assms show ?thesis by (simp add: check_mystery_find_def)
next
  case (Some c)
  let ?n = "int (finds_count s (mc_id c)) + 1"
  let ?f = "\<lparr> fi_id = next_uuid s, fi_challenge_id = mc_id c, fi_user_id = u, fi_scan_id = scan_id, fi_rank = ?n,
      fi_cab_awarded = resolve_cab_tier (mc_reward_tiers c) ?n, fi_found_at = now ck, fi_announced_at = None \<rparr>"
  have g: "get_user_find s (mc_id c) u = None"
    using Some by (auto simp: findable_def split: option.splits if_splits)
  have "res = Some (?n, fi_cab_awarded ?f)" "t = s\<lparr> next_uuid := Suc (next_uuid s),
      play := (play s)\<lparr> mystery_challenge_finds := mystery_challenge_finds (play s) @ [?f] \<rparr> \<rparr>"
    using assms Some by (auto simp: check_mystery_find_def insert_find_def Let_def split: if_splits)
  with Some g show ?thesis by (intro disjI2 exI [of _ c] exI [of _ ?f]) simp
qed

lemma preserves_check_find: "preserves mystery_ok (check_mystery_find ck u scan_id)"
proof (rule preservesI)
  fix s res t assume ok: "mystery_ok s" and run: "check_mystery_find ck u scan_id s = (Inr res, t)"
  from check_find_Inr [OF run] show "mystery_ok t"
  proof (elim disjE exE conjE)
    fix c f assume f: "fi_challenge_id f = mc_id c" "fi_user_id f = u" "fi_rank f = int (finds_count s (mc_id c)) + 1"
      "get_user_find s (mc_id c) u = None"
      and t: "t = s\<lparr> next_uuid := Suc (next_uuid s), play := (play s)\<lparr> mystery_challenge_finds := mystery_challenge_finds (play s) @ [f] \<rparr> \<rparr>"
    have "ranks_ok (mystery_challenge_finds (play s) @ [f])"
      using ok f by (intro ranks_ok_append) (simp_all add: mystery_ok_def finds_count_def)
    moreover have "(fi_challenge_id f, fi_user_id f) \<notin> (\<lambda>f. (fi_challenge_id f, fi_user_id f)) ` set (mystery_challenge_finds (play s))"
      using f(4) by (auto simp: get_user_find_def find_None_iff f(1,2))
    ultimately show ?thesis using ok by (auto simp: t mystery_ok_def less_Suc_eq)
  qed (use ok in simp)
qed

lemma preserves_award_mystery: "preserves mystery_ok (award_cab ck u n reason rid rt ap cm bp season)"
  by (rule preservesI) (auto simp: award_cab_Inr award_state_def intro: mystery_ok_mono)

lemma keeps_enqueue_mystery: "keeps mystery_ok (enqueue_notification ck u ty d)"
  by (rule keepsI) (auto simp: enqueue_notification_def intro: mystery_ok_mono)

lemma preserves_process_find: "preserves mystery_ok (process_mystery_find ck u scan_id)"
  unfolding process_mystery_find_def split_def
  by (intro preserves_bnd preserves_case_option preserves_ret preserves_seq preserves_if preserves_check_find
      preserves_award_mystery keeps_preserves [OF keeps_enqueue_mystery])

lemma keeps_reveal: "keeps mystery_ok (reveal_clues ck)"
  unfolding reveal_clues_def by (intro keeps_bnd keeps_reads keeps_case_option keeps_ret keeps_drop_clues)

lemma keeps_announce: "keeps mystery_ok (announce_finds ck)"
proof (rule keepsI, goal_cases)
  case (1 s r t)
  let ?g = "update_where (\<lambda>f. fi_announced_at f = None \<and> fi_found_at f < now ck div day_us * day_us)
     (\<lambda>f. f\<lparr> fi_announced_at := Some (now ck) \<rparr>) (mystery_challenge_finds (play s))"
  have "map fi_rank (filter (\<lambda>f. fi_challenge_id f = i) (update_where q (\<lambda>f. f\<lparr> fi_announced_at := a \<rparr>) fs))
      = map fi_rank (filter (\<lambda>f. fi_challenge_id f = i) fs)"
    "count_where (\<lambda>f. fi_challenge_id f = i) (update_where q (\<lambda>f. f\<lparr> fi_announced_at := a \<rparr>) fs)
      = count_where (\<lambda>f. fi_challenge_id f = i) fs" for i q a and fs :: "find_row list"
    by (induction fs) (simp_all add: count_where_def)
  with 1 show ?case by (auto simp: announce_finds_def mystery_ok_def ranks_ok_def map_update_where simp del: upt_Suc)
qed

lemma keeps_freeze: "keeps mystery_ok (freeze_and_reveal ck)"
proof (rule keepsI, goal_cases)
  case (1 s r t)
  show ?case
    by (rule mystery_ok_rows [OF 1(1), where f = "aged ck"
          and q = "\<lambda>c. mc_status c \<in> {''active'', ''frozen''} \<and> mc_ends_at c \<le> now ck"])
      (use 1 in \<open>auto simp: freeze_and_reveal_def aged_def mystery_ok_def mystery_statuses_def\<close>)
qed

lemma next_scheduled_in: "next_scheduled ck s = Some c \<Longrightarrow> c \<in> set (mystery_challenges (play s)) \<and> mc_status c = ''scheduled''"
  by (auto simp: next_scheduled_def split: list.splits dest: sort_key_hd_min)

lemma keeps_activate: "keeps mystery_ok (activate_next ck)"
proof (rule keepsI, goal_cases)
  case (1 s r t)
  show ?case
  proof (cases "next_scheduled ck s = None \<or> active_mystery s \<noteq> None")
    case True
    with 1 show ?thesis by (cases "next_scheduled ck s") (auto simp: activate_next_def)
  next
    case False
    then obtain c where c: "next_scheduled ck s = Some c" and none: "active_mystery s = None" by auto
    let ?f = "\<lambda>c. c\<lparr> mc_status := ''active'' \<rparr>"
    have t: "mystery_challenges (play t) = update_where (\<lambda>x. mc_id x = mc_id c) ?f (mystery_challenges (play s))"
      "mystery_challenge_finds (play t) = mystery_challenge_finds (play s)" "next_uuid t = next_uuid s"
      using 1(2) c none by (auto simp: activate_next_def set_challenge_def)
    have no: "\<forall>x \<in> set (mystery_challenges (play s)). mc_status x \<noteq> ''active''"
      using none by (auto simp: active_mystery_def find_None_iff)
    have "count_where (\<lambda>x. mc_status x = ''active'') (update_where (\<lambda>x. mc_id x = j) ?f xs) \<le> 1"
      if "distinct (map mc_id xs)" "\<forall>x \<in> set xs. mc_status x \<noteq> ''active''" for j xs
      using that
    proof (induction xs)
      case (Cons x xs)
      have "count_where (\<lambda>x. mc_status x = ''active'') (update_where (\<lambda>x. mc_id x = j) ?f xs) = 0" if "mc_id x = j"
      proof -
        have "update_where (\<lambda>x. mc_id x = j) ?f xs = xs" using Cons.prems(1) that by (intro update_where_none) (auto simp: image_iff)
        with Cons.prems(2) show ?thesis by (simp add: count_where_0_iff)
      qed
      with Cons show ?case by (auto simp: count_where_def)
    qed (simp add: count_where_def)
    from this [OF _ no] 1(1) show ?thesis
      by (auto simp: mystery_ok_def t map_update_where set_update_where mystery_statuses_def)
  qed
qed


section \<open>Sequences of requests and batch runs\<close>

datatype mystery_cmd =
    CreateMystery "string list \<Rightarrow> string" clock stamp "string option" "reward_tier list" "(int \<times> string) list" "string option"
  | UpdateMystery uuid "stamp option" "string option" "reward_tier list option" "(int \<times> string) list option"
  | DeleteMystery uuid
  | FindMystery clock uuid uuid
  | Announce clock

fun mystery_step :: "mystery_cmd \<Rightarrow> unit db_op" where
  "mystery_step (CreateMystery draw ck a e ts cs cat) = void (admin_create_mystery draw ck a e ts cs cat)"
| "mystery_step (UpdateMystery i a e ts cs) = admin_update_mystery i a e ts cs"
| "mystery_step (DeleteMystery i) = admin_delete_mystery i"
| "mystery_step (FindMystery ck u scan) = db_transaction (process_mystery_find ck u scan)"
| "mystery_step (Announce ck) = mystery_announce ck"

lemma keeps_each: "(\<And>m acc. m \<in> set ms \<Longrightarrow> keeps I (f m acc)) \<Longrightarrow> keeps I (for_each f ms acc)"
  by (induction ms arbitrary: acc) (simp_all add: keeps_bnd)

lemma keeps_mystery_step: "keeps mystery_ok (mystery_step c)"
proof (cases c)
  case (Announce ck)
  show ?thesis
    unfolding Announce mystery_step.simps mystery_announce_def
    by (intro keeps_each) (auto intro!: keeps_catch keeps_transaction keeps_ret keeps_reveal keeps_announce keeps_activate keeps_freeze)
next
  case (FindMystery ck u scan)
  then show ?thesis by (simp add: preserves_transaction preserves_process_find)
qed (auto simp: admin_create_mystery_def admin_update_mystery_def admin_delete_mystery_def if_known_def
    intro!: keeps_void keeps_bnd keeps_reads keeps_if keeps_throw keeps_catch keeps_transaction keeps_create keeps_update keeps_delete)

interpretation mystery_inv: kept_invariant mystery_step mystery_ok
  by unfold_locales (rule keeps_snd [OF keeps_mystery_step])

lemma sole_row: "count_where p xs \<le> 1 \<Longrightarrow> x \<in> set xs \<Longrightarrow> p x \<Longrightarrow> y \<in> set xs \<Longrightarrow> p y \<Longrightarrow> x = y"
proof (induction xs)
  case (Cons z zs)
  have "count_where p zs = 0" if "p z" using Cons.prems(1) that by (simp add: count_where_def)
  with Cons show ?case by (auto simp: count_where_0_iff) (simp add: count_where_def split: if_splits)
qed simp

lemma one_find_per_pair:
  "distinct (map (\<lambda>f. (fi_challenge_id f, fi_user_id f)) fs) \<Longrightarrow>
   count_where (\<lambda>f. fi_challenge_id f = i \<and> fi_user_id f = u) fs \<le> 1"
proof (induction fs)
  case (Cons f fs)
  have "count_where (\<lambda>g. fi_challenge_id g = i \<and> fi_user_id g = u) fs = 0" if "fi_challenge_id f = i" "fi_user_id f = u"
    using Cons.prems that by (auto simp: count_where_0_iff image_iff)
  with Cons show ?case by (auto simp: count_where_def)
qed (simp add: count_where_def)

text \<open>
  C33 (invariant). Whatever the administrators, the scanning users and the nightly batch do in which order, at most one
  challenge is active, the finds of a challenge were ranked 1, 2, 3, ... without gaps in the order they came, and a user
  has at most one find per challenge.
\<close>

theorem mystery_ranks_consecutive:
  assumes "mystery_ok s" and "exec_all mystery_step cmds s = (rs, t)"
  shows "count_where (\<lambda>c. mc_status c = ''active'') (mystery_challenges (play t)) \<le> 1
     \<and> map fi_rank (filter (\<lambda>f. fi_challenge_id f = i) (mystery_challenge_finds (play t))) = map int [1..<Suc (finds_count t i)]
     \<and> count_where (\<lambda>f. fi_challenge_id f = i \<and> fi_user_id f = u) (mystery_challenge_finds (play t)) \<le> 1"
  using mystery_inv.exec_all_keeps [OF assms] one_find_per_pair [of "mystery_challenge_finds (play t)" i u]
  unfolding mystery_ok_def ranks_ok_def finds_count_def by blast

definition mystery_demo :: db where
  "mystery_demo = (cab_demo 80)\<lparr> next_uuid := 20,
     scans := [\<lparr> sc_id = 5, sc_user_id = 7, sc_store_id = None, sc_product_ean = Some ''301'', sc_price = 100, sc_receipt_id = None,
        sc_status = ''accepted'', sc_scanned_at = 0, sc_scan_type = ''label'', sc_status_updated_at = 0 \<rparr>],
     play := empty_play\<lparr> mystery_challenges := [\<lparr> mc_id = 9, mc_product_ean = ''301'', mc_starts_at = 19994 * day_us,
        mc_ends_at = 20001 * day_us, mc_status = ''active'',
        mc_reward_tiers = [\<lparr> tier_min_rank = 1, tier_max_rank = Some 1, tier_cab = 200 \<rparr>, \<lparr> tier_min_rank = 2, tier_max_rank = None, tier_cab = 20 \<rparr>] \<rparr>,
       \<lparr> mc_id = 10, mc_product_ean = ''302'', mc_starts_at = 20001 * day_us, mc_ends_at = 20008 * day_us, mc_status = ''scheduled'',
        mc_reward_tiers = [] \<rparr>] \<rparr> \<rparr>"

lemma mystery_demo_ok: "mystery_ok mystery_demo"
  by (simp add: mystery_ok_def mystery_demo_def cab_demo_def count_where_def ranks_ok_def mystery_statuses_def)

theorem mystery_ranks_consecutive_witness:
  "map fi_rank (filter (\<lambda>f. fi_challenge_id f = 9) (mystery_challenge_finds (play (snd (exec_all mystery_step
       [FindMystery demo_clock 7 5, FindMystery demo_clock 7 5] mystery_demo))))) =
     map int [1..<Suc (finds_count (snd (exec_all mystery_step [FindMystery demo_clock 7 5, FindMystery demo_clock 7 5] mystery_demo)) 9)]
   \<and> findable mystery_demo 7 5 \<noteq> None"
proof
  show "findable mystery_demo 7 5 \<noteq> None"
    by (simp add: findable_def mystery_demo_def get_user_find_def)
qed (use mystery_ranks_consecutive [OF mystery_demo_ok prod.collapse [symmetric]] in blast)

text \<open>
  The batch activates before it freezes, so when the active challenge has reached its end, the run that
  freezes it activates nothing, even if the next challenge (which may start at that very instant) is due: its first day
  passes without an active challenge.
\<close>

theorem next_challenge_waits_a_day:
  assumes "mystery_ok s" and "active_mystery s = Some c" and "mc_ends_at c \<le> now ck"
  shows "active_mystery (snd (mystery_announce ck s)) = None"
proof -
  let ?ch = "\<lambda>s. mystery_challenges (play s)"
  have c: "c \<in> set (?ch s)" "mc_status c = ''active''"
    using find_Some_in [OF assms(2) [unfolded active_mystery_def]] by simp_all
  have only: "x = c" if "x \<in> set (?ch s)" "mc_status x = ''active''" for x
    using assms(1) that c by (intro sole_row [of "\<lambda>c. mc_status c = ''active''" "?ch s"]) (simp_all add: mystery_ok_def)
  obtain s1 where 1: "reveal_clues ck s = (Inr (), s1)" "?ch s1 = ?ch s"
    using assms(2) by (simp add: reveal_clues_def)
  obtain s2 where 2: "announce_finds ck s1 = (Inr (), s2)" "?ch s2 = ?ch s"
    using 1(2) by (simp add: announce_finds_def)
  have "active_mystery s2 = Some c" using assms(2) by (simp add: active_mystery_def 2(2))
  then have 3: "activate_next ck s2 = (Inr (), s2)" by (simp add: activate_next_def split: option.split)
  have "?ch (snd (mystery_announce ck s)) = update_where (\<lambda>c. mc_status c \<in> {''active'', ''frozen''} \<and> mc_ends_at c \<le> now ck)
      (aged ck) (?ch s)"
    by (simp add: mystery_announce_def bnd_def catch_def db_transaction_def 1(1) 2 3 freeze_and_reveal_def)
  moreover have "mc_status x \<noteq> ''active''" if "x \<in> set (update_where (\<lambda>c. mc_status c \<in> {''active'', ''frozen''} \<and> mc_ends_at c \<le> now ck)
      (aged ck) (?ch s))" for x
    using that only assms(3) by (auto simp: set_update_where aged_def split: if_splits)
  ultimately show ?thesis by (auto simp: active_mystery_def find_None_iff)
qed

theorem next_challenge_waits_a_day_witness:
  "active_mystery (snd (mystery_announce (demo_clock\<lparr> now := 20001 * day_us \<rparr>) mystery_demo)) = None
   \<and> map mc_starts_at (filter (\<lambda>c. mc_status c = ''scheduled'') (mystery_challenges (play mystery_demo))) = [20001 * day_us]"
proof
  obtain c where c: "active_mystery mystery_demo = Some c" "mc_ends_at c = 20001 * day_us"
    by (simp add: active_mystery_def mystery_demo_def)
  then have "mc_ends_at c \<le> now (demo_clock\<lparr> now := 20001 * day_us \<rparr>)" by simp
  with mystery_demo_ok c(1) show "active_mystery (snd (mystery_announce (demo_clock\<lparr> now := 20001 * day_us \<rparr>) mystery_demo)) = None"
    by (rule next_challenge_waits_a_day)
qed (simp add: mystery_demo_def)

end
