(* ===== verification/Ratis_Events.thy ===== *)
theory Ratis_Events
  imports Ratis_MissionSafety Ratis_Mystery Ratis_Battlepass
begin

text \<open>
  The event engine (\<open>services/events_service.py\<close>, \<open>routes/rewards/events.py\<close>): one call records an event
  under its idempotency key and pays CAB and XP, advances missions, challenges and the battle pass, checks the
  mystery product and the achievements. The lemmas show that a key is rewarded once, that the daily
  diminishing returns stay between the full and the reduced rate, and what the engine and the mystery product do
  to each other.
\<close>

section \<open>Operations\<close>

definition KNOWN_ACTION_TYPES :: "string list" where
  "KNOWN_ACTION_TYPES = [''receipt_scan'', ''label_scan'', ''product_identification'', ''fill_product_field'',
     ''scan_distinct'', ''promo_found'', ''price_compared'']"

definition scan_actions :: "string list" where
  "scan_actions = [''receipt_scan'', ''label_scan'', ''product_identification'']"

text \<open>
  The settings the engine reads: CAB and XP per action (absent keys count 0), the thresholds of the diminishing
  returns with the double that multiplies what exceeds them, the level base and expression of XP, and
  \<open>uuid.UUID(text)\<close>.
\<close>

record events_cfg =
  ec_cab_per :: "string \<Rightarrow> int"
  ec_xp_per :: "(string \<Rightarrow> int) option"
  ec_diminishing :: "string \<Rightarrow> (int \<times> dbl) option"
  ec_level_base :: int
  ec_pg_log2 :: "int \<Rightarrow> int \<Rightarrow> int option"
  ec_parse_uuid :: "string \<Rightarrow> uuid option"

definition is_shadow_banned_user :: "uuid \<Rightarrow> db \<Rightarrow> bool" where
  "is_shadow_banned_user u s = (case users s u of None \<Rightarrow> False | Some r \<Rightarrow> is_shadow_banned r)"

text \<open>\<^verbatim>\<open>str(context.get("scan_id") or context.get("ean") or "")\<close>; empty texts are falsy.\<close>

definition truthy :: "string option \<Rightarrow> string option" where
  "truthy x = (if x = Some '''' then None else x)"

definition scan_ref :: "action_context option \<Rightarrow> string" where
  "scan_ref context = (case context of None \<Rightarrow> ''''
     | Some c \<Rightarrow> (case truthy (cx_scan_id c) of Some x \<Rightarrow> x
        | None \<Rightarrow> (case truthy (cx_ean c) of Some x \<Rightarrow> x | None \<Rightarrow> '''')))"

definition synth_idempotency_key :: "clock \<Rightarrow> uuid \<Rightarrow> string \<Rightarrow> string option \<Rightarrow> action_context option \<Rightarrow> event_key" where
  "synth_idempotency_key ck u action_type qualifier context =
     SynthKey u action_type ((case qualifier of None \<Rightarrow> '''' | Some q \<Rightarrow> q) @ ''|'' @ scan_ref context)
       (now ck div (60 * second_us))"

definition insert_event :: "reward_event \<Rightarrow> bool db_op" where
  "insert_event e = seq (int4 (ev_quantity e)) (seq (constr (0 < ev_quantity e) ''reward_events_quantity_positive'')
     (bnd (reads (\<lambda>s. reward_events (play s))) (\<lambda>rows.
       if ev_idempotency_key e \<in> ev_idempotency_key ` set rows then ret False
       else seq (modify_play (\<lambda>p. p\<lparr> reward_events := reward_events p @ [e] \<rparr>)) (ret True))))"

definition event_row ::
  "clock \<Rightarrow> uuid \<Rightarrow> uuid \<Rightarrow> string \<Rightarrow> string option \<Rightarrow> int \<Rightarrow> event_key \<Rightarrow> string \<Rightarrow> action_context option
    \<Rightarrow> stamp option \<Rightarrow> reward_event" where
  "event_row ck i u action_type qualifier quantity key status payload processed_at =
     \<lparr> ev_id = i, ev_user_id = u, ev_action_type = action_type, ev_qualifier = qualifier, ev_quantity = quantity,
       ev_idempotency_key = key, ev_status = status, ev_payload = payload, ev_processed_at = processed_at,
       ev_created_at = now ck \<rparr>"

text \<open>\<open>None\<close> stands for the pair \<open>(None, True)\<close> of a duplicate, whose log row must not collide.\<close>

definition insert_event_row ::
  "clock \<Rightarrow> uuid \<Rightarrow> string \<Rightarrow> string option \<Rightarrow> int \<Rightarrow> event_key \<Rightarrow> action_context option \<Rightarrow> uuid option db_op" where
  "insert_event_row ck u action_type qualifier quantity key context =
     bnd fresh_uuid (\<lambda>fresh_id.
     bnd (insert_event (event_row ck fresh_id u action_type qualifier quantity key ''pending'' context None)) (\<lambda>inserted.
     if inserted then ret (Some fresh_id)
     else bnd fresh_uuid (\<lambda>k. bnd fresh_uuid (\<lambda>i.
       bnd (insert_event (event_row ck i u action_type qualifier quantity (DupKey key k) ''duplicate'' context (Some (now ck))))
         (\<lambda>ok. seq (constr ok ''uq_reward_events_idempotency_key'') (ret None))))))"

definition mark_processed :: "clock \<Rightarrow> uuid \<Rightarrow> unit db_op" where
  "mark_processed ck i = modify_play (\<lambda>p. p\<lparr> reward_events := update_where (\<lambda>e. ev_id e = i)
     (\<lambda>e. e\<lparr> ev_status := ''processed'', ev_processed_at := Some (now ck) \<rparr>) (reward_events p) \<rparr>)"

definition count_today_actions :: "db \<Rightarrow> uuid \<Rightarrow> string \<Rightarrow> day \<Rightarrow> uuid \<Rightarrow> int" where
  "count_today_actions s u action_type today exclude_event_id =
     sum_where (\<lambda>e. ev_user_id e = u \<and> ev_action_type e = action_type \<and> ev_status e \<noteq> ''duplicate''
        \<and> ev_id e \<noteq> exclude_event_id \<and> today * day_us \<le> ev_created_at e) ev_quantity (reward_events (play s))"

definition apply_diminishing_returns :: "int \<Rightarrow> int \<Rightarrow> int \<Rightarrow> int \<Rightarrow> int \<Rightarrow> dbl \<Rightarrow> int" where
  "apply_diminishing_returns cab_amount_base cab_per_unit quantity actions_done_today threshold_per_day multiplier_after =
     (let units_under = max 0 (min quantity (threshold_per_day - actions_done_today));
          units_over = quantity - units_under
      in if units_over \<le> 0 then cab_amount_base
         else units_under * cab_per_unit + dround (dmul (dbl_of_int (units_over * cab_per_unit)) multiplier_after))"

text \<open>The CAB of an event before its bonuses.\<close>

definition event_cab :: "events_cfg \<Rightarrow> uuid \<Rightarrow> string \<Rightarrow> int \<Rightarrow> day \<Rightarrow> uuid \<Rightarrow> db \<Rightarrow> int" where
  "event_cab cfg u action_type quantity today event_id s =
     (let cab_per_unit = ec_cab_per cfg action_type; base = cab_per_unit * quantity in
      case ec_diminishing cfg action_type of
        None \<Rightarrow> base
      | Some (threshold, mult) \<Rightarrow>
          if 0 < base then apply_diminishing_returns base cab_per_unit quantity
             (count_today_actions s u action_type today event_id) threshold mult
          else base)"

definition event_xp :: "events_cfg \<Rightarrow> string \<Rightarrow> int \<Rightarrow> int" where
  "event_xp cfg action_type quantity = (case ec_xp_per cfg of None \<Rightarrow> 0 | Some f \<Rightarrow> f action_type * quantity)"

definition event_scan :: "events_cfg \<Rightarrow> string \<Rightarrow> action_context option \<Rightarrow> uuid option" where
  "event_scan cfg action_type context =
     (if action_type \<in> set scan_actions
      then Option.bind (Option.bind context (\<lambda>c. truthy (cx_scan_id c))) (ec_parse_uuid cfg) else None)"

text \<open>
  The rewards of an event: amounts, multipliers and season are read first; \<open>scan\<close> is the scan the credit refers to.
\<close>

definition pay_event ::
  "events_cfg \<Rightarrow> clock \<Rightarrow> uuid \<Rightarrow> string \<Rightarrow> int \<Rightarrow> int \<Rightarrow> uuid option \<Rightarrow> season_row option \<Rightarrow> unit db_op" where
  "pay_event cfg ck u action_type cab xp scan season =
     bnd (reads (get_active_community_multipliers ck u)) (\<lambda>(cab_mult, xp_mult).
     seq (if 0 < cab then award_cab ck u cab action_type scan (map_option (\<lambda>_. ''scan'') scan) True (Some cab_mult) True
            (map_option se_id season) else ret ())
     (if 0 < xp then void (award_xp (ec_pg_log2 cfg) ck u xp action_type scan (map_option (\<lambda>_. ''scan'') scan)
            (ec_level_base cfg) True (Some xp_mult)) else ret ()))"

definition announce_milestones :: "clock \<Rightarrow> uuid \<Rightarrow> season_row option \<Rightarrow> int \<Rightarrow> unit db_op" where
  "announce_milestones ck u season cab_before = (case season of
       None \<Rightarrow> ret ()
     | Some se \<Rightarrow> bnd (reads (get_newly_unlocked_bp_milestones u (se_id se) cab_before)) (\<lambda>ms.
         for_each (\<lambda>m _. enqueue_notification ck u ''battlepass_milestone_unlocked''
            (JObj [(''milestone_number'', JInt (fst m))])) ms ()))"

definition reward_new_event ::
  "events_cfg \<Rightarrow> clock \<Rightarrow> uuid \<Rightarrow> string \<Rightarrow> int \<Rightarrow> string option \<Rightarrow> action_context option \<Rightarrow> day \<Rightarrow> uuid \<Rightarrow> unit db_op" where
  "reward_new_event cfg ck u action_type quantity qualifier context today event_id =
     bnd (reads (event_cab cfg u action_type quantity today event_id)) (\<lambda>cab.
     bnd (reads get_active_season) (\<lambda>season.
     bnd (reads (\<lambda>s. case season of None \<Rightarrow> 0 | Some se \<Rightarrow> get_cab_earned_season s u (se_id se))) (\<lambda>cab_before.
     let scan = event_scan cfg action_type context in
     seq (pay_event cfg ck u action_type cab (event_xp cfg action_type quantity) scan season)
     (seq (check_missions_progress u action_type today quantity qualifier)
     (seq (if action_type \<in> set scan_actions then maybe_increment_challenge ck u action_type None else ret ())
     (seq (announce_milestones ck u season cab_before)
     (seq (case scan of None \<Rightarrow> ret () | Some i \<Rightarrow> process_mystery_find ck u i)
     (seq (mark_processed ck event_id)
     (seq (if action_type \<in> set scan_actions then achievement_hook ck u ''scan_accepted'' else ret ())
       (if season \<noteq> None \<and> 0 < cab \<and> cab_before = 0 then achievement_hook ck u ''battlepass_season_participated''
        else ret ())))))))))) "

record action_result =
  ar_event_id :: "uuid option"
  ar_duplicate :: bool
  ar_status :: string

definition handle_action ::
  "events_cfg \<Rightarrow> clock \<Rightarrow> uuid \<Rightarrow> string \<Rightarrow> int \<Rightarrow> string option \<Rightarrow> event_key option \<Rightarrow> action_context option
    \<Rightarrow> day option \<Rightarrow> action_result db_op" where
  "handle_action cfg ck u action_type quantity qualifier idempotency_key context today_opt =
     (let today = (case today_opt of Some d \<Rightarrow> d | None \<Rightarrow> utc_date ck) in
      if action_type \<notin> set KNOWN_ACTION_TYPES then throw ValueError
      else let key = (case idempotency_key of Some k \<Rightarrow> k
                      | None \<Rightarrow> synth_idempotency_key ck u action_type qualifier context) in
        bnd (insert_event_row ck u action_type qualifier quantity key context) (\<lambda>event. case event of
            None \<Rightarrow> ret \<lparr> ar_event_id = None, ar_duplicate = True, ar_status = ''duplicate'' \<rparr>
          | Some event_id \<Rightarrow>
              bnd (reads (is_shadow_banned_user u)) (\<lambda>banned.
              seq (if banned then mark_processed ck event_id
                   else reward_new_event cfg ck u action_type quantity qualifier context today event_id)
              (ret \<lparr> ar_event_id = Some event_id, ar_duplicate = False, ar_status = ''processed'' \<rparr>))))"

definition trigger_action_endpoint ::
  "events_cfg \<Rightarrow> clock \<Rightarrow> uuid \<Rightarrow> string \<Rightarrow> int \<Rightarrow> string option \<Rightarrow> string option \<Rightarrow> action_context option
    \<Rightarrow> action_result db_op" where
  "trigger_action_endpoint cfg ck u action_type quantity qualifier idempotency_key context =
     (if action_type \<notin> set KNOWN_ACTION_TYPES \<or> quantity < 1 \<or> 100 < quantity
      then throw (HTTPException 422 ''validation_error'')
      else db_transaction (handle_action cfg ck u action_type quantity qualifier (map_option CallerKey idempotency_key)
             context None))"


section \<open>A key is rewarded once\<close>

definition key_seen :: "event_key \<Rightarrow> reward_event list \<Rightarrow> bool" where
  "key_seen k rows \<longleftrightarrow> k \<in> ev_idempotency_key ` set rows"

text \<open>What happens to the ledger of events outside the engine: nothing.\<close>

lemma keeps_events_process_find: "keeps (\<lambda>s. I (reward_events (play s))) (process_mystery_find ck u i)"
  unfolding process_mystery_find_def check_mystery_find_def insert_find_def modify_play_def split_def Let_def
  by (intro keeps_bnd keeps_reads keeps_case_option keeps_ret keeps_seq keeps_if keeps_int4 keeps_constr keeps_modify
      keeps_fresh_uuid engine_frame.keeps_award [of "\<lambda>p. I (reward_events p)"]
      keeps_engine_enqueue [of "\<lambda>p. I (reward_events p)"]) simp_all

lemma keeps_events_progress: "keeps (\<lambda>s. I (reward_events (play s))) (check_missions_progress u a today n q)"
  by (rule keeps_missions_progress) simp_all

lemma keeps_events_pay: "keeps (\<lambda>s. I (reward_events (play s))) (pay_event cfg ck u a cab xp scan season)"
  unfolding pay_event_def split_def
  by (intro keeps_bnd keeps_reads keeps_seq keeps_if keeps_ret keeps_void
      engine_frame.keeps_award [of "\<lambda>p. I (reward_events p)"] keeps_engine_xp [of "\<lambda>p. I (reward_events p)"])

lemma keeps_events_milestones: "keeps (\<lambda>s. I (reward_events (play s))) (announce_milestones ck u season b)"
  unfolding announce_milestones_def
  by (intro keeps_case_option keeps_bnd keeps_reads keeps_ret keeps_for_each keeps_engine_enqueue [of "\<lambda>p. I (reward_events p)"])

lemma key_seen_update: "key_seen k (update_where p (\<lambda>e. e\<lparr> ev_status := x, ev_processed_at := y \<rparr>) rows) = key_seen k rows"
  unfolding key_seen_def set_map [symmetric] by (subst map_update_where) simp_all

lemma keeps_seen_processed: "keeps (\<lambda>s. key_seen k (reward_events (play s))) (mark_processed ck i)"
  unfolding mark_processed_def modify_play_def by (rule keeps_modify) (simp add: key_seen_update)

lemma keeps_seen_reward: "keeps (\<lambda>s. key_seen k (reward_events (play s))) (reward_new_event cfg ck u a n q cx today i)"
  unfolding reward_new_event_def Let_def
  by (intro keeps_bnd keeps_reads keeps_seq keeps_if keeps_ret keeps_case_option keeps_events_pay [of "key_seen k"]
      keeps_events_progress [of "key_seen k"] keeps_engine_increment [of "\<lambda>p. key_seen k (reward_events p)"]
      keeps_events_milestones [of "key_seen k"] keeps_events_process_find [of "key_seen k"] keeps_seen_processed
      keeps_engine_hook [of "\<lambda>p. key_seen k (reward_events p)"])

lemma insert_event_Inr:
  "insert_event e s = (Inr b, t) \<longleftrightarrow> fits_int4 (ev_quantity e) \<and> 0 < ev_quantity e
     \<and> (if key_seen (ev_idempotency_key e) (reward_events (play s)) then \<not> b \<and> t = s
        else b \<and> t = s\<lparr> play := (play s)\<lparr> reward_events := reward_events (play s) @ [e] \<rparr> \<rparr>)"
  by (auto simp: insert_event_def key_seen_def split: if_splits)

lemma key_seen_append [simp]: "key_seen k (rows @ [e]) \<longleftrightarrow> key_seen k rows \<or> ev_idempotency_key e = k"
  by (auto simp: key_seen_def)

lemma event_row_key [simp]: "ev_idempotency_key (event_row ck i u a q n k st p pr) = k"
  by (simp add: event_row_def)

lemma keeps_seen_insert: "keeps (\<lambda>s. key_seen k (reward_events (play s))) (insert_event e)"
  unfolding insert_event_def modify_play_def
  by (intro keeps_seq keeps_int4 keeps_constr keeps_bnd keeps_reads keeps_if keeps_ret keeps_modify) simp

lemma keeps_seen_insert_row: "keeps (\<lambda>s. key_seen k (reward_events (play s))) (insert_event_row ck u a q n key cx)"
  unfolding insert_event_row_def
  by (intro keeps_bnd keeps_fresh_uuid keeps_seen_insert keeps_if keeps_ret keeps_seq keeps_constr) simp_all

lemma keeps_seen_action: "keeps (\<lambda>s. key_seen k (reward_events (play s))) (handle_action cfg ck u a n q key cx td)"
  unfolding handle_action_def Let_def
  by (intro keeps_if keeps_throw keeps_bnd keeps_case_option keeps_ret keeps_reads keeps_seq keeps_seen_insert_row
      keeps_seen_processed keeps_seen_reward)

lemma insert_event_row_Some:
  "insert_event_row ck u a q n key cx s = (Inr (Some i), t) \<Longrightarrow>
     \<not> key_seen key (reward_events (play s)) \<and> key_seen key (reward_events (play t))"
  by (auto simp: insert_event_row_def bnd_Inr_iff seq_Inr_iff insert_event_Inr split: if_splits)

lemma handle_action_fresh:
  assumes "handle_action cfg ck u a n q (Some key) cx td s = (Inr res, t)" and "\<not> ar_duplicate res"
  shows "\<not> key_seen key (reward_events (play s)) \<and> key_seen key (reward_events (play t))"
proof -
  from assms obtain i s1 where row: "insert_event_row ck u a q n key cx s = (Inr (Some i), s1)"
    and rest: "bnd (reads (is_shadow_banned_user u)) (\<lambda>banned. seq (if banned then mark_processed ck i
       else reward_new_event cfg ck u a n q cx (case td of Some d \<Rightarrow> d | None \<Rightarrow> utc_date ck) i)
       (ret \<lparr> ar_event_id = Some i, ar_duplicate = False, ar_status = ''processed'' \<rparr>)) s1 = (Inr res, t)"
    by (auto simp: handle_action_def Let_def bnd_Inr_iff [of "insert_event_row _ _ _ _ _ _ _"] split: if_splits option.splits)
  have "keeps (\<lambda>s. key_seen key (reward_events (play s))) (bnd (reads (is_shadow_banned_user u)) (\<lambda>banned. seq (if banned then mark_processed ck i
       else reward_new_event cfg ck u a n q cx (case td of Some d \<Rightarrow> d | None \<Rightarrow> utc_date ck) i)
       (ret \<lparr> ar_event_id = Some i, ar_duplicate = False, ar_status = ''processed'' \<rparr>)))"
    by (intro keeps_bnd keeps_reads keeps_seq keeps_if keeps_ret keeps_seen_processed keeps_seen_reward)
  from keepsD [OF this _ rest] insert_event_row_Some [OF row] show ?thesis by blast
qed


text \<open>
  A request whose effect happens at most once, although it may be answered many times: the target's effective
  answers need \<open>fired\<close> to be false and make it true.
\<close>

locale effective_once =
  fixes step :: "'c \<Rightarrow> ('s, 'e, 'a) op"
    and target :: "'c \<Rightarrow> bool"
    and effective :: "'a \<Rightarrow> bool"
    and fired :: "'s \<Rightarrow> bool"
  assumes fired_stays: "fired s \<Longrightarrow> fired (snd (step c s))"
    and target_fires: "target c \<Longrightarrow> step c s = (Inr x, t) \<Longrightarrow> effective x \<Longrightarrow> \<not> fired s \<and> fired t"
begin

definition effects :: "'c list \<Rightarrow> ('e + 'a) list \<Rightarrow> nat" where
  "effects cs rs = count_where (\<lambda>(c, r). target c \<and> \<not> isl r \<and> effective (projr r)) (zip cs rs)"

lemma effects_Cons:
  "effects (c # cs) (r # rs) = (if target c \<and> \<not> isl r \<and> effective (projr r) then 1 else 0) + effects cs rs"
  by (simp add: effects_def count_where_def)

lemma no_more: "fired s \<Longrightarrow> exec_all step cs s = (rs, t) \<Longrightarrow> effects cs rs = 0"
proof (induction cs arbitrary: s rs t)
  case (Cons c cs)
  obtain r s' where c: "step c s = (r, s')" by force
  obtain rs' t' where cs: "exec_all step cs s' = (rs', t')" by force
  from c fired_stays [OF Cons.prems(1), of c] have "fired s'" by simp
  from Cons.IH [OF this cs] have "effects cs rs' = 0" .
  moreover have "\<not> (target c \<and> \<not> isl r \<and> effective (projr r))"
    using Cons.prems(1) c target_fires [of c s "projr r" s'] by (cases r) auto
  ultimately show ?case using Cons.prems(2) c cs by (auto simp: effects_Cons)
qed (simp add: effects_def count_where_def)

lemma at_most_one_effect: "exec_all step cs s = (rs, t) \<Longrightarrow> effects cs rs \<le> 1"
proof (induction cs arbitrary: s rs t)
  case (Cons c cs)
  obtain r s' where c: "step c s = (r, s')" by force
  obtain rs' t' where cs: "exec_all step cs s' = (rs', t')" by force
  show ?case
  proof (cases "target c \<and> \<not> isl r \<and> effective (projr r)")
    case True
    with c target_fires [of c s "projr r" s'] have "fired s'" by (cases r) auto
    from no_more [OF this cs] Cons.prems c cs True show ?thesis by (auto simp: effects_Cons)
  next
    case False
    with Cons.IH [OF cs] Cons.prems c cs show ?thesis by (auto simp: effects_Cons)
  qed
qed (simp add: effects_def count_where_def)

end

record event_cmd =
  ey_clock :: clock
  ey_user :: uuid
  ey_action :: string
  ey_quantity :: int
  ey_qualifier :: "string option"
  ey_key :: "string option"
  ey_context :: "action_context option"

definition event_step :: "events_cfg \<Rightarrow> event_cmd \<Rightarrow> action_result db_op" where
  "event_step cfg c = trigger_action_endpoint cfg (ey_clock c) (ey_user c) (ey_action c) (ey_quantity c) (ey_qualifier c)
     (ey_key c) (ey_context c)"

interpretation event_key: effective_once "event_step cfg" "\<lambda>c. ey_key c = Some k" "\<lambda>r. \<not> ar_duplicate r"
  "\<lambda>s. key_seen (CallerKey k) (reward_events (play s))" for cfg k
proof unfold_locales
  fix s :: db and c :: event_cmd assume "key_seen (CallerKey k) (reward_events (play s))"
  moreover have "keeps (\<lambda>s. key_seen (CallerKey k) (reward_events (play s))) (event_step cfg c)"
    unfolding event_step_def trigger_action_endpoint_def
    by (intro keeps_if keeps_throw keeps_transaction keeps_seen_action)
  ultimately show "key_seen (CallerKey k) (reward_events (play (snd (event_step cfg c s))))"
    by (rule keeps_snd [where I = "\<lambda>s. key_seen (CallerKey k) (reward_events (play s))", rotated])
next
  fix c :: event_cmd and s x t
  assume "ey_key c = Some k" and "event_step cfg c s = (Inr x, t)" and "\<not> ar_duplicate x"
  then show "\<not> key_seen (CallerKey k) (reward_events (play s)) \<and> key_seen (CallerKey k) (reward_events (play t))"
    by (intro handle_action_fresh)
      (auto simp: event_step_def trigger_action_endpoint_def db_transaction_Inr_iff split: if_splits)
qed

text \<open>
  C28 (safety). However often and by whom an event is sent with the same idempotency key, in whatever order with other
  events, at most one of the answers says that the event was processed; all the others are errors or duplicates.
\<close>

theorem event_rewarded_once:
  assumes "exec_all (event_step cfg) cmds s = (rs, t)"
  shows "count_where (\<lambda>(c, r). ey_key c = Some k \<and> \<not> isl r \<and> \<not> ar_duplicate (projr r)) (zip cmds rs) \<le> 1"
  using event_key.at_most_one_effect [OF assms] unfolding event_key.effects_def .

definition demo_event :: event_cmd where
  "demo_event = \<lparr> ey_clock = demo_clock, ey_user = 7, ey_action = ''promo_found'', ey_quantity = 1, ey_qualifier = None,
     ey_key = Some ''k1'', ey_context = None \<rparr>"

definition demo_events_cfg :: events_cfg where
  "demo_events_cfg = \<lparr> ec_cab_per = (\<lambda>a. if a = ''price_compared'' then 0 else 5), ec_xp_per = Some (\<lambda>_. 0),
     ec_diminishing = (\<lambda>_. None), ec_level_base = 100, ec_pg_log2 = (\<lambda>_ _. Some 1),
     ec_parse_uuid = (\<lambda>t. if t = ''scan-5'' then Some 5 else None) \<rparr>"

theorem event_rewarded_once_witness:
  "count_where (\<lambda>(c, r). ey_key c = Some ''k1'' \<and> \<not> isl r \<and> \<not> ar_duplicate (projr r))
     (zip [demo_event, demo_event, demo_event] (fst (exec_all (event_step demo_events_cfg) [demo_event, demo_event, demo_event] mystery_demo))) \<le> 1"
  by (rule event_rewarded_once [OF prod.collapse [symmetric]])


section \<open>Diminishing returns\<close>

lemma dround_le: "dval x \<le> of_int n \<Longrightarrow> dround x \<le> n"
  by (cases x) (simp only: dval_le_int dround.simps rhe_le zero_less_numeral zero_less_power)

lemma dround_ge: "of_int n \<le> dval x \<Longrightarrow> n \<le> dround x"
  by (cases x) (simp only: dval_ge_int dround.simps rhe_ge zero_less_numeral zero_less_power)

text \<open>
  The daily diminishing returns never pay more than the full rate and never take anything from the actions
  below the threshold: with a reduction factor between 0 and 1 the CAB of an event lies between the full rate of its
  actions below the threshold and the full rate of all of them, and equals it while the threshold is not passed.
\<close>

theorem diminishing_returns_bounds:
  assumes "0 < q" and "0 \<le> c" and "q * c \<le> 2 ^ 53" and "0 \<le> dval m" and "dval m \<le> 1" and "0 \<le> n" and "0 \<le> limit"
  shows "min q (max 0 (limit - n)) * c \<le> apply_diminishing_returns (c * q) c q n limit m
     \<and> apply_diminishing_returns (c * q) c q n limit m \<le> q * c
     \<and> (n + q \<le> limit \<longrightarrow> apply_diminishing_returns (c * q) c q n limit m = q * c)"
proof -
  define under over where "under = max 0 (min q (limit - n))" and "over = q - under"
  have u: "0 \<le> under" "under \<le> q" "min q (max 0 (limit - n)) = under" using assms(1) by (auto simp: under_def)
  show ?thesis
  proof (cases "over \<le> 0")
    case True
    then have "under = q" using u by (simp add: over_def)
    with True u show ?thesis
      by (simp add: apply_diminishing_returns_def Let_def under_def [symmetric] over_def [symmetric] mult.commute)
  next
    case False
    define x where "x = over * c"
    have "over * c \<le> q * c" using u assms(2) by (intro mult_right_mono) (simp_all add: over_def)
    then have x: "0 \<le> x" "x \<le> 2 ^ 53" using False assms(2,3) by (simp_all add: x_def)
    then have d: "dval (dbl_of_int x) = of_int x" by (intro dval_dbl_of_int) simp
    have "of_int x * dval m \<le> of_int x * 1" using x(1) assms(5) by (intro mult_left_mono) simp_all
    then have "dval (dmul (dbl_of_int x) m) \<le> of_int x" using x by (intro dmul_le) (simp_all add: d)
    moreover have "of_int 0 \<le> dval (dmul (dbl_of_int x) m)" using x assms(4) by (intro dmul_ge) (simp_all add: d)
    ultimately have "0 \<le> dround (dmul (dbl_of_int x) m)" "dround (dmul (dbl_of_int x) m) \<le> x"
      using dround_le dround_ge by blast+
    moreover have "under * c + x = q * c" by (simp add: x_def over_def algebra_simps)
    moreover have "\<not> n + q \<le> limit" using False u assms(1) by (auto simp: over_def under_def)
    ultimately show ?thesis using False u
      by (simp add: apply_diminishing_returns_def Let_def under_def [symmetric] over_def [symmetric] x_def [symmetric])
  qed
qed

theorem diminishing_returns_bounds_witness:
  "2 * 5 \<le> apply_diminishing_returns (5 * 4) 5 4 8 10 (Dbl 1 1) \<and> apply_diminishing_returns (5 * 4) 5 4 8 10 (Dbl 1 1) \<le> 4 * 5"
  using diminishing_returns_bounds [of 4 5 "Dbl 1 1" 8 10] by simp


section \<open>The mystery product and the engine\<close>

text \<open>The credit of an event and the credit of a find refer to the same scan, and the ledger takes one per scan.\<close>

definition find_pending :: "uuid \<Rightarrow> uuid \<Rightarrow> mystery_row \<Rightarrow> nat \<Rightarrow> db \<Rightarrow> bool" where
  "find_pending u i c n s \<longleftrightarrow> findable s u i = Some c \<and> finds_count s (mc_id c) = n"

lemma find_pending_cong:
  assumes "scans s = scans t" and "mystery_challenges (play s) = mystery_challenges (play t)"
    and "mystery_challenge_finds (play s) = mystery_challenge_finds (play t)"
  shows "find_pending u i c n s = find_pending u i c n t"
  unfolding find_pending_def findable_def get_user_find_def finds_count_def assms ..

lemma find_pending_frame [simp]:
  "find_pending u i c n (s\<lparr> next_uuid := x0 \<rparr>) = find_pending u i c n s"
  "find_pending u i c n (s\<lparr> user_cab_balance := x2 \<rparr>) = find_pending u i c n s"
  "find_pending u i c n (s\<lparr> cabecoin_transactions := x4 \<rparr>) = find_pending u i c n s"
  "find_pending u i c n (s\<lparr> user_xp_balance := x6 \<rparr>) = find_pending u i c n s"
  "find_pending u i c n (s\<lparr> xp_transactions := x7 \<rparr>) = find_pending u i c n s"
  "find_pending u i c n (s\<lparr> user_battlepass_progress := x10 \<rparr>) = find_pending u i c n s"
  "find_pending u i c n (s\<lparr> community_challenge_progress := x14 \<rparr>) = find_pending u i c n s"
  "find_pending u i c n (s\<lparr> notification_outbox := x17 \<rparr>) = find_pending u i c n s"
  "find_pending u i c n (s\<lparr> play := (play s)\<lparr> user_missions := x \<rparr> \<rparr>) = find_pending u i c n s"
  "find_pending u i c n (s\<lparr> play := (play s)\<lparr> reward_events := y \<rparr> \<rparr>) = find_pending u i c n s"
  by (rule find_pending_cong, simp_all)+

definition scan_paid :: "uuid \<Rightarrow> db \<Rightarrow> bool" where
  "scan_paid i s \<longleftrightarrow> credit_ref_taken ''scan'' (Some i) (cabecoin_transactions s)"

lemma scan_paid_frame [simp]:
  "scan_paid i (s\<lparr> next_uuid := x0 \<rparr>) = scan_paid i s"
  "scan_paid i (s\<lparr> user_xp_balance := x6 \<rparr>) = scan_paid i s"
  "scan_paid i (s\<lparr> xp_transactions := x7 \<rparr>) = scan_paid i s"
  "scan_paid i (s\<lparr> community_challenge_progress := x14 \<rparr>) = scan_paid i s"
  "scan_paid i (s\<lparr> notification_outbox := x17 \<rparr>) = scan_paid i s"
  "scan_paid i (s\<lparr> play := p \<rparr>) = scan_paid i s"
  by (simp_all add: scan_paid_def)

lemma award_pays_scan:
  assumes "award_cab ck u n reason (Some i) (Some ''scan'') ap cm bp season s = (Inr x, t)"
  shows "\<not> scan_paid i s \<and> scan_paid i t"
  using assms by (auto simp: award_cab_Inr awardable_def cab_insertable_def award_state_def award_row_def scan_paid_def
      credit_ref_taken_def)

lemma find_of_paid_scan_fails:
  assumes "find_pending u i c n s" and "scan_paid i s" and "0 < resolve_cab_tier (mc_reward_tiers c) (int n + 1)"
  shows "\<exists>e. fst (process_mystery_find ck u i s) = Inl e"
proof (rule ccontr)
  assume "\<not> ?thesis"
  then obtain y t where "process_mystery_find ck u i s = (Inr y, t)" by (metis sumE prod.collapse)
  then obtain res s1 where 1: "check_mystery_find ck u i s = (Inr res, s1)"
    and 2: "(case res of None \<Rightarrow> ret () | Some (rank, cab) \<Rightarrow> seq (if 0 < cab then award_cab ck u cab ''mystery_product'' (Some i) (Some ''scan'')
       True None True None else ret ()) (enqueue_notification ck u ''mystery_product_found'' (JObj [(''rank'', JInt rank), (''cab'', JInt cab)]))) s1 = (Inr y, t)"
    by (auto simp: process_mystery_find_def bnd_Inr_iff)
  have found: "findable s u i = Some c" "int (finds_count s (mc_id c)) = int n"
    using assms(1) by (simp_all add: find_pending_def)
  have "\<exists>f. res = Some (fi_rank f, fi_cab_awarded f) \<and> fi_cab_awarded f = resolve_cab_tier (mc_reward_tiers c) (fi_rank f)
      \<and> fi_rank f = int (finds_count s (mc_id c)) + 1
      \<and> s1 = s\<lparr> next_uuid := Suc (next_uuid s), play := (play s)\<lparr> mystery_challenge_finds := mystery_challenge_finds (play s) @ [f] \<rparr> \<rparr>"
    using check_find_Inr [OF 1] unfolding found(1) option.inject by (elim disjE exE conjE) (simp, hypsubst, blast)
  then obtain f where f: "res = Some (fi_rank f, fi_cab_awarded f)"
    "fi_cab_awarded f = resolve_cab_tier (mc_reward_tiers c) (fi_rank f)" "fi_rank f = int n + 1"
    and s1: "s1 = s\<lparr> next_uuid := Suc (next_uuid s), play := (play s)\<lparr> mystery_challenge_finds := mystery_challenge_finds (play s) @ [f] \<rparr> \<rparr>"
    unfolding found(2) by blast
  have cab: "0 < fi_cab_awarded f" using assms(3) by (simp add: f(2,3))
  obtain x t1 where "award_cab ck u (fi_cab_awarded f) ''mystery_product'' (Some i) (Some ''scan'') True None True None s1 = (Inr x, t1)"
    using 2 cab unfolding f(1) by (auto simp: seq_Inr_iff)
  from award_pays_scan [OF this] assms(2) s1 show False by simp
qed

text \<open>Between the credit of the event and the check of the mystery product nothing changes either.\<close>

definition paid_and_pending :: "uuid \<Rightarrow> uuid \<Rightarrow> mystery_row \<Rightarrow> nat \<Rightarrow> db \<Rightarrow> bool" where
  "paid_and_pending u i c n s \<longleftrightarrow> find_pending u i c n s \<and> scan_paid i s"

interpretation pending_frame: cab_frame "find_pending u i c n" for u i c n
  by unfold_locales simp_all

lemma pending_after_pay:
  assumes "pay_event cfg ck u a cab xp (Some i) season s = (Inr x, t)" and "0 < cab" and "find_pending u i c n s"
  shows "paid_and_pending u i c n t"
proof -
  from assms(1,2) obtain cm xm y s1 where cab: "award_cab ck u cab a (Some i) (Some ''scan'') True (Some cm) True
        (map_option se_id season) s = (Inr y, s1)"
    and xp: "(if 0 < xp then void (award_xp (ec_pg_log2 cfg) ck u xp a (Some i) (Some ''scan'') (ec_level_base cfg) True (Some xm))
        else ret ()) s1 = (Inr x, t)"
    unfolding pay_event_def option.map(2) by (auto simp: bnd_Inr_iff seq_Inr_iff split: prod.splits)
  from keepsD [OF pending_frame.keeps_award assms(3) cab] award_pays_scan [OF cab]
  have "paid_and_pending u i c n s1" by (simp add: paid_and_pending_def)
  moreover have "keeps (paid_and_pending u i c n) (if 0 < xp then void (award_xp (ec_pg_log2 cfg) ck u xp a (Some i) (Some ''scan'')
      (ec_level_base cfg) True (Some xm)) else ret ())"
    by (intro keeps_if keeps_void keeps_ret keeps_award_xp) (simp_all add: paid_and_pending_def)
  ultimately show ?thesis using xp by (blast dest: keepsD)
qed

lemma keeps_paid_progress: "keeps (paid_and_pending u i c n) (check_missions_progress u a today k q)"
  by (rule keeps_missions_progress) (simp_all add: paid_and_pending_def)

lemma keeps_paid_increment: "keeps (paid_and_pending u i c n) (maybe_increment_challenge ck u a cx)"
  by (rule keeps_maybe_increment) (simp_all add: paid_and_pending_def)

lemma keeps_paid_milestones: "keeps (paid_and_pending u i c n) (announce_milestones ck u season b)"
  unfolding announce_milestones_def
  by (intro keeps_case_option keeps_bnd keeps_reads keeps_ret keeps_for_each keeps_enqueue_notification)
    (simp_all add: paid_and_pending_def)

lemma reward_fails:
  assumes "find_pending u i c n s" and "0 < resolve_cab_tier (mc_reward_tiers c) (int n + 1)"
    and "event_scan cfg a cx = Some i" and "0 < event_cab cfg u a q today e s"
  shows "\<exists>x. fst (reward_new_event cfg ck u a q qual cx today e s) = Inl x"
proof (rule ccontr)
  assume "\<not> ?thesis"
  then obtain y t where "reward_new_event cfg ck u a q qual cx today e s = (Inr y, t)" by (metis sumE prod.collapse)
  then obtain season b x1 s1 x2 s2 x3 s3 x4 s4 x5 s5 where
      1: "pay_event cfg ck u a (event_cab cfg u a q today e s) (event_xp cfg a q) (Some i) season s = (Inr x1, s1)"
    and 2: "check_missions_progress u a today q qual s1 = (Inr x2, s2)"
    and 3: "(if a \<in> set scan_actions then maybe_increment_challenge ck u a None else ret ()) s2 = (Inr x3, s3)"
    and 4: "announce_milestones ck u season b s3 = (Inr x4, s4)"
    and 5: "process_mystery_find ck u i s4 = (Inr x5, s5)"
    unfolding reward_new_event_def Let_def assms(3) bnd_reads option.case seq_Inr_iff by blast
  have "paid_and_pending u i c n s2"
    using keepsD [OF keeps_paid_progress pending_after_pay [OF 1 assms(4,1)] 2] .
  moreover have "keeps (paid_and_pending u i c n) (if a \<in> set scan_actions then maybe_increment_challenge ck u a None else ret ())"
    by (intro keeps_if keeps_paid_increment keeps_ret)
  ultimately have "paid_and_pending u i c n s3" using 3 by (blast dest: keepsD)
  from keepsD [OF keeps_paid_milestones this 4] have "find_pending u i c n s4" "scan_paid i s4"
    by (simp_all add: paid_and_pending_def)
  from find_of_paid_scan_fails [OF this assms(2)] 5 show False by (metis fst_conv sum.distinct(2))
qed

lemma insert_event_row_new:
  assumes "insert_event_row ck u a q n key cx s = (Inr r, t)" and "\<not> key_seen key (reward_events (play s))"
  defines "row \<equiv> event_row ck (next_uuid s) u a q n key ''pending'' cx None"
  shows "r = Some (next_uuid s)"
    and "t = s\<lparr> next_uuid := Suc (next_uuid s), play := (play s)\<lparr> reward_events := reward_events (play s) @ [row] \<rparr> \<rparr>"
  using assms(1,2) by (auto simp: insert_event_row_def bnd_Inr_iff seq_Inr_iff insert_event_Inr row_def split: if_splits)

text \<open>
  C29 (error). A scan that would find the mystery product is never rewarded when its rank is paid in CAB: the credit of
  the event already refers to the scan, the ledger takes one credit per scan, so the credit of the find breaks the
  unique index and the whole request rolls back, the find and the reward of the event with it. The request leaves the
  database as it was, so sending it again fails again as long as the product is to be found.
\<close>

theorem mystery_find_blocks_event:
  assumes find: "findable s u i = Some c" and tier: "0 < resolve_cab_tier (mc_reward_tiers c) (int (finds_count s (mc_id c)) + 1)"
    and scan: "event_scan cfg a cx = Some i" and cab: "0 < event_cab cfg u a n (utc_date ck) (next_uuid s) s"
    and free: "\<not> is_shadow_banned_user u s" "\<not> key_seen (CallerKey k) (reward_events (play s))"
  shows "\<exists>e. trigger_action_endpoint cfg ck u a n q (Some k) cx s = (Inl e, s)"
proof (rule ccontr)
  assume "\<not> ?thesis"
  then obtain x t where "trigger_action_endpoint cfg ck u a n q (Some k) cx s = (Inr x, t)"
    by (cases "fst (handle_action cfg ck u a n q (Some (CallerKey k)) cx None s)")
      (auto simp: trigger_action_endpoint_def db_transaction_def split: if_splits prod.splits sum.splits)
  then have "handle_action cfg ck u a n q (Some (CallerKey k)) cx None s = (Inr x, t)"
    by (auto simp: trigger_action_endpoint_def db_transaction_Inr_iff split: if_splits)
  then obtain r s1 where row: "insert_event_row ck u a q n (CallerKey k) cx s = (Inr r, s1)"
    and rest: "(case r of None \<Rightarrow> ret \<lparr> ar_event_id = None, ar_duplicate = True, ar_status = ''duplicate'' \<rparr>
      | Some e \<Rightarrow> bnd (reads (is_shadow_banned_user u)) (\<lambda>banned. seq (if banned then mark_processed ck e
           else reward_new_event cfg ck u a n q cx (utc_date ck) e)
           (ret \<lparr> ar_event_id = Some e, ar_duplicate = False, ar_status = ''processed'' \<rparr>))) s1 = (Inr x, t)"
    by (auto simp: handle_action_def Let_def bnd_Inr_iff [of "insert_event_row _ _ _ _ _ _ _"] split: if_splits)
  define ev where "ev = event_row ck (next_uuid s) u a q n (CallerKey k) ''pending'' cx None"
  from insert_event_row_new [OF row free(2)] have r: "r = Some (next_uuid s)"
    and s1: "s1 = s\<lparr> next_uuid := Suc (next_uuid s), play := (play s)\<lparr> reward_events := reward_events (play s) @ [ev] \<rparr> \<rparr>"
    by (simp_all add: ev_def)
  have "find_pending u i c (finds_count s (mc_id c)) s1"
    using find by (subst find_pending_cong [where t = s]) (simp_all add: s1 find_pending_def)
  moreover have "count_today_actions s1 u a (utc_date ck) (next_uuid s) = count_today_actions s u a (utc_date ck) (next_uuid s)"
    by (simp add: s1 count_today_actions_def ev_def event_row_def)
  then have "event_cab cfg u a n (utc_date ck) (next_uuid s) s1 = event_cab cfg u a n (utc_date ck) (next_uuid s) s"
    unfolding event_cab_def by (rule arg_cong)
  ultimately have "\<exists>y. fst (reward_new_event cfg ck u a n q cx (utc_date ck) (next_uuid s) s1) = Inl y"
    using reward_fails [OF _ tier scan] cab by simp
  moreover have "\<not> is_shadow_banned_user u s1" using free(1) by (simp add: is_shadow_banned_user_def s1)
  ultimately show False using rest by (auto simp: r seq_Inr_iff)
qed

definition scan_context :: action_context where
  "scan_context = \<lparr> cx_scan_id = Some ''scan-5'', cx_ean = None \<rparr>"

theorem mystery_find_blocks_event_witness:
  "\<exists>e. trigger_action_endpoint demo_events_cfg demo_clock 7 ''label_scan'' 1 None (Some ''k1'') (Some scan_context) mystery_demo
     = (Inl e, mystery_demo)"
proof (rule mystery_find_blocks_event [of _ _ 5 "hd (mystery_challenges (play mystery_demo))"])
  show "findable mystery_demo 7 5 = Some (hd (mystery_challenges (play mystery_demo)))"
    by (simp add: findable_def mystery_demo_def get_user_find_def active_mystery_def)
  show "event_scan demo_events_cfg ''label_scan'' (Some scan_context) = Some 5"
    by (simp add: event_scan_def scan_context_def demo_events_cfg_def scan_actions_def truthy_def)
  show "\<not> is_shadow_banned_user 7 mystery_demo"
    by (simp add: is_shadow_banned_user_def mystery_demo_def cab_demo_def)
qed (simp_all add: mystery_demo_def finds_count_def count_where_def event_cab_def demo_events_cfg_def
    key_seen_def cab_demo_def)

end
