(* ===== verification/Ratis_Economy.thy ===== *)
theory Ratis_Economy
  imports Ratis_Events Ratis_Integrity Ratis_Battlepass Ratis_MissionAdmin
begin

text \<open>
  The rewards service as a whole: one step is one request of any component or one run of a batch, in any order. The lemmas
  carry the CAB invariant through the components that pay or charge CAB but have an invariant of their own (missions, the
  mystery product, the event engine), and then along every history.
\<close>

section \<open>Missions, mystery product and events keep the ledger in step\<close>

lemma keeps_progress_cab: "keeps cab_ok (check_missions_progress u a today n q)"
  by (rule keeps_missions_progress) simp_all

lemma preserves_update_user_mission_cab: "preserves cab_ok (update_user_mission i f)"
  by (rule keeps_preserves [OF keeps_update_user_mission]) simp

lemma preserves_claim_mission_cab: "preserves cab_ok (claim_mission pg base ck u i)"
  unfolding claim_mission_def Let_def
  by (intro preserves_intro preserves_update_user_mission_cab keeps_preserves [OF keeps_void] keeps_award_xp_cab)

lemma preserves_buffer_cab: "preserves cab_ok (apply_buffer nmax u i)"
  unfolding apply_buffer_def repo_apply_buffer_def Let_def
  by (intro preserves_intro preserves_update_user_mission_cab keeps_preserves [OF keeps_int4])

lemma preserves_freeze_cab: "preserves cab_ok (freeze_mission ck u i cost)"
  unfolding freeze_mission_def apply_freeze_def
  by (intro preserves_intro preserves_update_user_mission_cab)

lemma keeps_get_missions_cab: "keeps cab_ok (get_missions choice u today)"
  unfolding get_missions_def missions_of_period_def generate_missions_for_user_def insert_user_missions_def Let_def
  by (intro keeps_bnd keeps_reads keeps_seq keeps_if keeps_ret keeps_for_each keeps_case_option keeps_void keeps_fresh_uuid
      keeps_insert_user_mission) simp_all

lemma keeps_burst_cab: "keeps cab_ok (claim_burst pg base ck u i)"
  unfolding claim_burst_def update_burst_state_def upsert_mission_xp_record_def modify_play_def Let_def
  by (intro keeps_bnd keeps_reads keeps_seq keeps_if keeps_ret keeps_throw keeps_case_option keeps_void keeps_award_xp_cab keeps_int4
      keeps_update_user_mission keeps_modify keeps_constr keeps_fresh_uuid) simp_all

lemma keeps_mission_step_cab: "keeps cab_ok (mission_step pg base nmax c)"
  by (cases c)
    (auto simp: list_missions_def buffer_mission_endpoint_def claim_mission_endpoint_def burst_claim_endpoint_def freeze_mission_endpoint_def
      intro!: keeps_void keeps_catch keeps_if keeps_throw preserves_transaction keeps_preserves keeps_get_missions_cab keeps_progress_cab
        preserves_buffer_cab preserves_claim_mission_cab keeps_burst_cab preserves_freeze_cab)

lemma preserves_process_find_cab: "preserves cab_ok (process_mystery_find ck u i)"
  unfolding process_mystery_find_def check_mystery_find_def insert_find_def modify_play_def split_def Let_def
  by (intro preserves_intro keeps_preserves [OF keeps_modify] keeps_preserves [OF keeps_int4] keeps_preserves [OF keeps_constr]
      keeps_preserves [OF keeps_fresh_uuid] keeps_preserves [OF keeps_enqueue_notification]) simp_all

lemma keeps_play_cab: "keeps cab_ok (modify_play f)"
  by (simp add: modify_play_def keeps_modify)

lemma keeps_fresh_cab: "keeps cab_ok fresh_uuid"
  by (simp add: keeps_fresh_uuid)

lemma keeps_insert_clues_cab: "keeps cab_ok (insert_clues i cs)"
  unfolding insert_clues_def insert_clue_def by (intro keeps_intro keeps_play_cab keeps_fresh_cab)

lemma keeps_create_mystery_cab: "keeps cab_ok (create_mystery_challenge draw ck a e ts cs cat)"
  unfolding create_mystery_challenge_def draw_random_product_def Let_def
  by (intro keeps_intro keeps_play_cab keeps_fresh_cab keeps_insert_clues_cab)

lemma keeps_update_mystery_cab: "keeps cab_ok (update_mystery_challenge i a e ts cs)"
  unfolding update_mystery_challenge_def require_scheduled_def set_challenge_def
  by (intro keeps_intro keeps_play_cab keeps_insert_clues_cab)

lemma keeps_delete_mystery_cab: "keeps cab_ok (delete_mystery_challenge i)"
  unfolding delete_mystery_challenge_def require_scheduled_def by (intro keeps_intro keeps_play_cab)

lemma keeps_mystery_announce_cab: "keeps cab_ok (mystery_announce ck)"
proof -
  have "keeps cab_ok (reveal_clues ck)" "keeps cab_ok (announce_finds ck)" "keeps cab_ok (activate_next ck)" "keeps cab_ok (freeze_and_reveal ck)"
    unfolding reveal_clues_def announce_finds_def activate_next_def freeze_and_reveal_def set_challenge_def split_def
    by (intro keeps_intro keeps_play_cab)+
  then show ?thesis unfolding mystery_announce_def for_each.simps by (intro keeps_intro)
qed

lemma keeps_mystery_step_cab: "keeps cab_ok (mystery_step c)"
  by (cases c)
    (auto simp: admin_create_mystery_def admin_update_mystery_def admin_delete_mystery_def if_known_def
      intro!: keeps_void keeps_bnd keeps_reads keeps_catch keeps_if keeps_throw keeps_transaction [OF keeps_create_mystery_cab]
        keeps_transaction [OF keeps_update_mystery_cab] keeps_transaction [OF keeps_delete_mystery_cab] keeps_mystery_announce_cab
        preserves_transaction [OF preserves_process_find_cab])

lemma keeps_template_cab:
  "keeps cab_ok (admin_create_mission_template b)" "keeps cab_ok (admin_patch_mission_template i p)"
proof -
  have rows: "keeps cab_ok (insert_mission m)" "keeps cab_ok (update_mission i f)" for m f
    unfolding insert_mission_def update_mission_def mission_checks_def by (intro keeps_intro keeps_play_cab)+
  show "keeps cab_ok (admin_create_mission_template b)" "keeps cab_ok (admin_patch_mission_template i p)"
    unfolding admin_create_mission_template_def admin_patch_mission_template_def admin_create_mission_def admin_update_mission_def Let_def
    by (intro keeps_intro keeps_fresh_cab rows)+
qed

lemma preserves_reward_event_cab: "preserves cab_ok (reward_new_event cfg ck u a n q cx today i)"
proof -
  have pay: "preserves cab_ok (pay_event cfg ck u a cab xp scan season)" for cab xp scan season
    unfolding pay_event_def split_def
    by (intro preserves_intro keeps_preserves [OF keeps_void] keeps_award_xp_cab)
  have milestones: "keeps cab_ok (announce_milestones ck u season b)" for season b
    unfolding announce_milestones_def by (intro keeps_intro keeps_enqueue_notification) simp_all
  have processed: "keeps cab_ok (mark_processed ck i)"
    unfolding mark_processed_def by (rule keeps_play_cab)
  show ?thesis unfolding reward_new_event_def Let_def
    by (intro preserves_intro pay preserves_process_find_cab keeps_preserves [OF milestones] keeps_preserves [OF processed]
        keeps_preserves [OF keeps_progress_cab] keeps_preserves [OF keeps_maybe_increment_cab] keeps_preserves [OF keeps_achievement_hook_cab])
qed

lemma keeps_event_step_cab: "keeps cab_ok (event_step cfg c)"
proof -
  have row: "keeps cab_ok (insert_event_row ck u a q n key cx)" for ck u a q n key cx
    unfolding insert_event_row_def insert_event_def by (intro keeps_intro keeps_play_cab keeps_fresh_cab)
  have processed: "keeps cab_ok (mark_processed ck i)" for ck i
    unfolding mark_processed_def by (rule keeps_play_cab)
  have "preserves cab_ok (handle_action cfg ck u a n q key cx td)" for ck u a n q key cx td
    unfolding handle_action_def Let_def
    by (intro preserves_intro preserves_reward_event_cab keeps_preserves [OF row] keeps_preserves [OF processed])
  then show ?thesis unfolding event_step_def trigger_action_endpoint_def
    by (intro keeps_if keeps_throw preserves_transaction)
qed

lemma preserves_challenge_body_cab: "preserves cab_ok (challenge_body c)"
proof -
  have rows: "keeps cab_ok (create_challenge t d a f ob st en g)" "keeps cab_ok (create_challenge_milestone cid th rt rv l so)"
    "keeps cab_ok (activate_challenge cid)" "keeps cab_ok (deactivate_challenge cid)" for t d a f ob st en g cid th rt rv l so
    unfolding create_challenge_def create_challenge_milestone_def activate_challenge_def deactivate_challenge_def
    by (intro keeps_intro keeps_modify keeps_fresh_cab; simp)+
  show ?thesis
    by (cases c) (auto intro: preserves_intro keeps_preserves rows keeps_maybe_increment_cab)
qed

lemma keeps_challenge_step_cab: "keeps cab_ok (challenge_step c)"
  unfolding challenge_step_def by (rule preserves_transaction [OF preserves_challenge_body_cab])

lemma keeps_payout_cab: "keeps cab_ok (payout_run http ck dry)"
  unfolding payout_run_def payout_order_def mark_churned_def is_still_subscribed_def split_def
  by (intro keeps_intro keeps_cab_notify keeps_cab_orders)

lemma keeps_ytd_reset_cab: "keeps cab_ok (reset_gift_card_ytd dry us)"
  unfolding reset_gift_card_ytd_def by (intro keeps_intro keeps_modify) simp

section \<open>Every history\<close>

inductive economy_step :: "db \<Rightarrow> db \<Rightarrow> bool" where
  cab: "economy_step s (snd (cab_step cab s))"
| feed: "economy_step s (snd (feed_jack_endpoint pg ck u xp tz s))"
| repair: "economy_step s (snd (repair_streak_endpoint ck u cost s))"
| reserve: "economy_step s (snd (purchase_reserve_endpoint ck u q cost mx s))"
| challenge: "economy_step s (snd (challenge_step ch s))"
| community_reward: "economy_step s (snd (claim_challenge_milestone pg ck u mid s))"
| cashback: "economy_step s (snd (cashback_step cb s))"
| battlepass: "economy_step s (snd (bp_step bp s))"
| referral: "economy_step s (snd (ref_step rf s))"
| boutique: "economy_step s (snd (create_boutique_order bcfg ck u brand denom s))"
| card: "economy_step s (snd (issue_gift_card_bg runa cap ck order s))"
| nightly: "economy_step s (snd (reconciliation_main scfg http ck us dry s))"
| payout: "economy_step s (snd (payout_run http ck dry s))"
| year_end: "economy_step s (snd (reset_gift_card_ytd dry us s))"
| mission: "economy_step s (snd (mission_step pg base nmax mi s))"
| create_template: "economy_step s (snd (admin_create_mission_template body s))"
| patch_template: "economy_step s (snd (admin_patch_mission_template mid patch s))"
| mystery: "economy_step s (snd (mystery_step my s))"
| event: "economy_step s (snd (event_step ecfg ev s))"

lemmas keeps_economy = keeps_cab_step keeps_streak_routes_cab keeps_challenge_step_cab keeps_cashback_step_cab keeps_bp_step_cab keeps_ref_step_cab
  keeps_cab_boutique keeps_cab_issue_bg keeps_main_ledgers(1) keeps_payout_cab keeps_ytd_reset_cab keeps_mission_step_cab keeps_template_cab
  keeps_mystery_step_cab keeps_event_step_cab

lemma economy_step_keeps: "economy_step s t \<Longrightarrow> cab_ok s \<Longrightarrow> cab_ok t"
  by (induction rule: economy_step.induct) (rule keeps_snd, rule keeps_economy, assumption)+

text \<open>
  C1 (invariant). Whatever requests of any component and whatever batches run, in any order and however they end, every CAB
  balance is the sum of its user's ledger, is never negative and fits its column, so that the nightly check reports nothing.
\<close>

theorem economy_ledger:
  assumes "economy_step\<^sup>*\<^sup>* s t" and "cab_ok s"
  shows "(user_cab_balance t u = Some b \<longrightarrow> b = cab_ledger t u \<and> 0 \<le> b \<and> b \<le> int4_max)
    \<and> check_cab_balance_integrity us t = (Inr [], t)"
proof -
  from assms have "cab_ok t" by (induction rule: rtranclp_induct) (auto intro: economy_step_keeps)
  then show ?thesis by (auto dest: cab_ok_balance cab_check_ok)
qed

definition economy_demo :: db where
  "economy_demo = snd (reset_gift_card_ytd False [7] (snd (cab_step (Debit demo_clock 7 30 ''shop_purchase'' None None None) (cab_demo 80))))"

theorem economy_ledger_witness:
  "economy_step\<^sup>*\<^sup>* (cab_demo 80) economy_demo \<and> user_cab_balance economy_demo 7 = Some 50 \<and> cab_ledger economy_demo 7 = 50
    \<and> check_cab_balance_integrity [7] economy_demo = (Inr [], economy_demo)"
proof -
  have steps: "economy_step\<^sup>*\<^sup>* (cab_demo 80) economy_demo"
    unfolding economy_demo_def
    by (rule rtranclp.rtrancl_into_rtrancl, rule r_into_rtranclp, rule economy_step.cab, rule economy_step.year_end)
  have "user_cab_balance economy_demo 7 = Some 50"
    by (simp add: economy_demo_def reset_gift_card_ytd_def cab_step_def debit_cab_def update_cab_minus_def insert_cab_tx_def cab_demo_def
        VALID_REASONS_def CAB_REASONS_def fits_int4_def db_transaction_def)
  with steps economy_ledger [OF steps cab_demo_ok(1), of 7 50 "[7]"] show ?thesis by simp
qed

end
