(* ===== verification/Ratis_Optimiser.thy ===== *)
theory Ratis_Optimiser
  imports Ratis_Schema "HOL-Library.While_Combinator" "HOL-Library.AList"
begin

text \<open>
  The engine of the list optimiser (\<open>ratis_list_optimiser/services/optimization_engine.py\<close>): every item of a
  shopping list goes to the store that sells it cheapest, then stores with too few items hand theirs over, then the
  number of stores is capped. A dictionary is an association list in insertion order; the order in which Python walks
  over a set is a parameter \<open>iter\<close> of which only the elements matter. The lemmas decide when the redistribution loop
  ends, what it returns then, and what the cap guarantees.
\<close>

section \<open>Operations\<close>

text \<open>A \<open>Decimal\<close> price is its value.\<close>

record item_price =
  ip_price :: "rat option"
  ip_source :: string
  ip_trust_score :: "rat option"

record store_assignment =
  sa_store_id :: uuid
  sa_price :: "rat option"
  sa_source :: string
  sa_trust_score :: "rat option"

type_synonym price_matrix = "uuid \<times> string \<Rightarrow> item_price option"
type_synonym assignments = "(string \<times> store_assignment) list"

text \<open>The loop that looks for the cheapest of some stores; the first of equal prices wins.\<close>

definition cheaper :: "price_matrix \<Rightarrow> string \<Rightarrow> uuid \<Rightarrow> (uuid \<times> item_price \<times> rat) option \<Rightarrow> (uuid \<times> item_price \<times> rat) option" where
  "cheaper prices ean s best = (case prices (s, ean) of
       None \<Rightarrow> best
     | Some d \<Rightarrow> (case ip_price d of
         None \<Rightarrow> best
       | Some p \<Rightarrow> (case best of
           None \<Rightarrow> Some (s, d, p)
         | Some (_, _, b) \<Rightarrow> if p < b then Some (s, d, p) else best)))"

definition cheapest :: "price_matrix \<Rightarrow> string \<Rightarrow> uuid list \<Rightarrow> (uuid \<times> item_price \<times> rat) option" where
  "cheapest prices ean stores = fold (cheaper prices ean) stores None"

definition priced_at :: "uuid \<times> item_price \<times> rat \<Rightarrow> store_assignment" where
  "priced_at b = (case b of (s, d, p) \<Rightarrow>
     \<lparr> sa_store_id = s, sa_price = Some p, sa_source = ip_source d, sa_trust_score = ip_trust_score d \<rparr>)"

definition unpriced_at :: "uuid \<Rightarrow> store_assignment" where
  "unpriced_at s = \<lparr> sa_store_id = s, sa_price = None, sa_source = ''unknown'', sa_trust_score = None \<rparr>"

definition assign_item :: "price_matrix \<Rightarrow> uuid list \<Rightarrow> string \<Rightarrow> assignments \<Rightarrow> assignments" where
  "assign_item prices stores ean acc = (case cheapest prices ean stores of
       Some b \<Rightarrow> AList.update ean (priced_at b) acc
     | None \<Rightarrow> (case stores of [] \<Rightarrow> acc | s # _ \<Rightarrow> AList.update ean (unpriced_at s) acc))"

definition initial_assignments :: "price_matrix \<Rightarrow> uuid list \<Rightarrow> string list \<Rightarrow> assignments" where
  "initial_assignments prices stores items = fold (assign_item prices stores) items []"

text \<open>The keys of \<open>store_counts\<close> in insertion order, and its values.\<close>

definition counted_stores :: "assignments \<Rightarrow> uuid list" where
  "counted_stores asg = rev (remdups (rev (map (\<lambda>(e, a). sa_store_id a) asg)))"

definition store_count :: "assignments \<Rightarrow> uuid \<Rightarrow> nat" where
  "store_count asg s = count_where (\<lambda>(e, a). sa_store_id a = s) asg"

definition qualifying :: "int \<Rightarrow> assignments \<Rightarrow> uuid list" where
  "qualifying min_items asg = filter (\<lambda>s. min_items \<le> int (store_count asg s)) (counted_stores asg)"

definition under_threshold :: "int \<Rightarrow> assignments \<Rightarrow> uuid list" where
  "under_threshold min_items asg = filter (\<lambda>s. int (store_count asg s) < min_items) (counted_stores asg)"

definition reassign :: "price_matrix \<Rightarrow> uuid list \<Rightarrow> string \<Rightarrow> store_assignment \<Rightarrow> store_assignment" where
  "reassign prices stores ean a = (case cheapest prices ean stores of Some b \<Rightarrow> priced_at b | None \<Rightarrow> a)"

text \<open>One round of the loop: the store with the fewest items hands over what it can.\<close>

definition redistribute_round :: "(uuid list \<Rightarrow> uuid list) \<Rightarrow> price_matrix \<Rightarrow> int \<Rightarrow> assignments \<Rightarrow> assignments" where
  "redistribute_round iter prices min_items asg =
     (let stores = iter (qualifying min_items asg);
          worst = arg_min_list (store_count asg) (iter (under_threshold min_items asg))
      in map (\<lambda>(e, a). (e, if sa_store_id a = worst then reassign prices stores e a else a)) asg)"

text \<open>\<open>changed\<close> is always set, so the loop ends at its two breaks only; \<open>None\<close> means that it does not end.\<close>

definition redistribute_under_threshold ::
  "(uuid list \<Rightarrow> uuid list) \<Rightarrow> price_matrix \<Rightarrow> int \<Rightarrow> assignments \<Rightarrow> assignments option" where
  "redistribute_under_threshold iter prices min_items =
     while_option (\<lambda>asg. under_threshold min_items asg \<noteq> [] \<and> qualifying min_items asg \<noteq> [])
       (redistribute_round iter prices min_items)"

definition assign_items_to_stores ::
  "(uuid list \<Rightarrow> uuid list) \<Rightarrow> string list \<Rightarrow> uuid list \<Rightarrow> price_matrix \<Rightarrow> int \<Rightarrow> assignments option" where
  "assign_items_to_stores iter items stores prices min_items =
     (if items = [] then Some []
      else redistribute_under_threshold iter prices min_items (initial_assignments prices stores items))"

text \<open>\<^verbatim>\<open>xs[:n]\<close>.\<close>

definition slice_to :: "int \<Rightarrow> 'a list \<Rightarrow> 'a list" where
  "slice_to n xs = (if 0 \<le> n then take (nat n) xs else take (length xs - nat (- n)) xs)"

text \<open>
  \<^verbatim>\<open>sorted(store_counts.items(), key=lambda kv: (-kv[1], str(kv[0])))\<close>: the texts of UUIDs are ordered like their values.
\<close>

definition ranked_stores :: "assignments \<Rightarrow> uuid list" where
  "ranked_stores asg = sort_key (\<lambda>s. - int (store_count asg s)) (sort (counted_stores asg))"

definition cap_to_max_stores :: "(uuid list \<Rightarrow> uuid list) \<Rightarrow> assignments \<Rightarrow> price_matrix \<Rightarrow> int \<Rightarrow> assignments" where
  "cap_to_max_stores iter asg prices max_stores =
     (if int (length (counted_stores asg)) \<le> max_stores then asg
      else let ranked = ranked_stores asg; kept = slice_to max_stores ranked; fallback = hd ranked
        in map (\<lambda>(e, a). (e, if sa_store_id a \<in> set kept then a
             else reassign prices (iter kept) e (unpriced_at fallback))) asg)"


section \<open>The cheapest store\<close>

definition store_price :: "price_matrix \<Rightarrow> string \<Rightarrow> uuid \<Rightarrow> rat option" where
  "store_price prices ean s = Option.bind (prices (s, ean)) ip_price"

lemma cheaper_None: "store_price prices ean s = None \<Longrightarrow> cheaper prices ean s best = best"
  by (auto simp: cheaper_def store_price_def split: option.splits bind_splits)

lemma cheaper_Some:
  "store_price prices ean s = Some p \<Longrightarrow> \<exists>d. prices (s, ean) = Some d \<and> ip_price d = Some p \<and> cheaper prices ean s best =
     (case best of None \<Rightarrow> Some (s, d, p) | Some (_, _, b) \<Rightarrow> if p < b then Some (s, d, p) else best)"
  by (auto simp: cheaper_def store_price_def split: option.splits bind_splits)

text \<open>What the search has found after some stores.\<close>

definition best_of :: "price_matrix \<Rightarrow> string \<Rightarrow> uuid list \<Rightarrow> (uuid \<times> item_price \<times> rat) option \<Rightarrow> bool" where
  "best_of prices ean stores best \<longleftrightarrow> (case best of
       None \<Rightarrow> \<forall>s \<in> set stores. store_price prices ean s = None
     | Some (s, d, p) \<Rightarrow> s \<in> set stores \<and> prices (s, ean) = Some d \<and> ip_price d = Some p
         \<and> (\<forall>t \<in> set stores. \<forall>q. store_price prices ean t = Some q \<longrightarrow> p \<le> q))"

lemma best_of_step: "best_of prices ean stores best \<Longrightarrow> best_of prices ean (stores @ [s]) (cheaper prices ean s best)"
proof (cases "store_price prices ean s")
  case None
  then show "best_of prices ean stores best \<Longrightarrow> ?thesis" by (auto simp: best_of_def cheaper_None split: option.splits)
next
  case (Some p)
  from cheaper_Some [OF Some, of best] obtain d where d: "prices (s, ean) = Some d" "ip_price d = Some p"
    and c: "cheaper prices ean s best =
     (case best of None \<Rightarrow> Some (s, d, p) | Some (_, _, b) \<Rightarrow> if p < b then Some (s, d, p) else best)" by blast
  show "best_of prices ean stores best \<Longrightarrow> ?thesis"
    using d Some by (auto simp: best_of_def c split: option.splits prod.splits)
qed

lemma best_of_fold: "best_of prices ean seen best \<Longrightarrow> best_of prices ean (seen @ stores) (fold (cheaper prices ean) stores best)"
proof (induction stores arbitrary: seen best)
  case (Cons s stores)
  from Cons.IH [OF best_of_step [OF Cons.prems]] show ?case by simp
qed simp

lemma cheapest_best: "best_of prices ean stores (cheapest prices ean stores)"
  unfolding cheapest_def using best_of_fold [of prices ean "[]" None stores] by (simp add: best_of_def)

lemma cheapest_None_iff: "cheapest prices ean stores = None \<longleftrightarrow> (\<forall>s \<in> set stores. store_price prices ean s = None)"
proof
  assume "cheapest prices ean stores = None"
  with cheapest_best [of prices ean stores] show "\<forall>s \<in> set stores. store_price prices ean s = None"
    by (simp add: best_of_def)
next
  assume "\<forall>s \<in> set stores. store_price prices ean s = None"
  with cheapest_best [of prices ean stores] show "cheapest prices ean stores = None"
    by (auto simp: best_of_def store_price_def split: option.splits)
qed

lemma cheapest_SomeD:
  assumes "cheapest prices ean stores = Some b"
  shows "sa_store_id (priced_at b) \<in> set stores"
    and "store_price prices ean (sa_store_id (priced_at b)) = sa_price (priced_at b)"
    and "t \<in> set stores \<Longrightarrow> store_price prices ean t = Some q \<Longrightarrow> the (sa_price (priced_at b)) \<le> q"
    and "sa_price (priced_at b) \<noteq> None"
  using cheapest_best [of prices ean stores] assms
  by (auto simp: best_of_def priced_at_def store_price_def split: prod.splits)


section \<open>One round\<close>

lemma counted_iff: "s \<in> set (counted_stores asg) \<longleftrightarrow> 0 < store_count asg s"
  by (force simp: counted_stores_def store_count_def count_where_def filter_empty_conv)

lemma distinct_counted [simp]: "distinct (counted_stores asg)"
  by (simp add: counted_stores_def)

lemma qualifying_iff: "s \<in> set (qualifying m asg) \<longleftrightarrow> 0 < store_count asg s \<and> m \<le> int (store_count asg s)"
  by (auto simp: qualifying_def counted_iff)

lemma under_iff: "s \<in> set (under_threshold m asg) \<longleftrightarrow> 0 < store_count asg s \<and> int (store_count asg s) < m"
  by (auto simp: under_threshold_def counted_iff)

lemma in_asg_counted: "(e, a) \<in> set asg \<Longrightarrow> 0 < store_count asg (sa_store_id a)"
  by (force simp: store_count_def count_where_def filter_empty_conv)

lemma count_where_map_mono:
  "(\<And>x. x \<in> set xs \<Longrightarrow> p x \<Longrightarrow> q (f x)) \<Longrightarrow> count_where p xs \<le> count_where q (map f xs)"
  by (induction xs) (auto simp: count_where_def intro: le_SucI)

lemma count_where_map_le:
  "(\<And>x. x \<in> set xs \<Longrightarrow> q (f x) \<Longrightarrow> p x) \<Longrightarrow> count_where q (map f xs) \<le> count_where p xs"
  by (induction xs) (auto simp: count_where_def intro: le_SucI)

lemma count_where_map_less:
  assumes "\<And>x. x \<in> set xs \<Longrightarrow> q (f x) \<Longrightarrow> p x" and "y \<in> set xs" and "p y" and "\<not> q (f y)"
  shows "count_where q (map f xs) < count_where p xs"
  using assms
proof (induction xs)
  case (Cons x xs)
  have le: "count_where q (map f xs) \<le> count_where p xs" using Cons.prems(1) by (intro count_where_map_le) simp
  show ?case
  proof (cases "y = x")
    case True
    then show ?thesis using Cons.prems le by (auto simp: count_where_def)
  next
    case False
    then have "count_where q (map f xs) < count_where p xs" using Cons by simp
    then show ?thesis using Cons.prems(1) by (auto simp: count_where_def)
  qed
qed simp

text \<open>The condition of the loop.\<close>

definition loops :: "int \<Rightarrow> assignments \<Rightarrow> bool" where
  "loops m asg \<longleftrightarrow> under_threshold m asg \<noteq> [] \<and> qualifying m asg \<noteq> []"

definition worst_store :: "(uuid list \<Rightarrow> uuid list) \<Rightarrow> int \<Rightarrow> assignments \<Rightarrow> uuid" where
  "worst_store iter m asg = arg_min_list (store_count asg) (iter (under_threshold m asg))"

definition moved :: "(uuid list \<Rightarrow> uuid list) \<Rightarrow> price_matrix \<Rightarrow> int \<Rightarrow> assignments \<Rightarrow> string \<times> store_assignment \<Rightarrow> string \<times> store_assignment" where
  "moved iter prices m asg = (\<lambda>(e, a). (e, if sa_store_id a = worst_store iter m asg
     then reassign prices (iter (qualifying m asg)) e a else a))"

lemma round_moved: "redistribute_round iter prices m asg = map (moved iter prices m asg) asg"
  by (simp add: redistribute_round_def moved_def worst_store_def Let_def)

text \<open>An item that has found its place: the cheapest of the stores \<open>Q\<close> that price it.\<close>

definition settled :: "price_matrix \<Rightarrow> uuid set \<Rightarrow> string \<Rightarrow> store_assignment \<Rightarrow> bool" where
  "settled prices Q e a \<longleftrightarrow> sa_store_id a \<in> Q \<and> sa_price a \<noteq> None \<and> store_price prices e (sa_store_id a) = sa_price a
     \<and> (\<forall>t \<in> Q. \<forall>q. store_price prices e t = Some q \<longrightarrow> the (sa_price a) \<le> q)"

definition follows :: "price_matrix \<Rightarrow> uuid set \<Rightarrow> string \<times> store_assignment \<Rightarrow> string \<times> store_assignment \<Rightarrow> bool" where
  "follows prices Q x y \<longleftrightarrow> fst y = fst x
     \<and> (snd y = snd x \<or> sa_store_id (snd x) \<notin> Q \<and> settled prices Q (fst x) (snd y))"

text \<open>An item of a store below the threshold that no qualifying store prices.\<close>

definition stranded :: "price_matrix \<Rightarrow> int \<Rightarrow> assignments \<Rightarrow> string \<times> store_assignment \<Rightarrow> bool" where
  "stranded prices m asg = (\<lambda>(e, a). int (store_count asg (sa_store_id a)) < m
     \<and> list_all (\<lambda>s. store_price prices e s = None) (qualifying m asg))"

locale set_order =
  fixes iter :: "uuid list \<Rightarrow> uuid list"
  assumes set_iter [simp]: "set (iter xs) = set xs"
begin

lemma iter_Nil [simp]: "iter xs = [] \<longleftrightarrow> xs = []"
  using set_iter [of xs] by (metis set_empty)

lemma worst_under: "loops m asg \<Longrightarrow> worst_store iter m asg \<in> set (under_threshold m asg)"
  unfolding worst_store_def loops_def using arg_min_list_in [of "iter (under_threshold m asg)"] by simp

lemma worst_not_qualifying: "loops m asg \<Longrightarrow> worst_store iter m asg \<notin> set (qualifying m asg)"
  using worst_under [of m asg] by (auto simp: qualifying_iff under_iff)

text \<open>An item stays, or it leaves the worst store for the cheapest qualifying one.\<close>

lemma moved_cases:
  assumes "moved iter prices m asg (e, a) = (e', a')"
  shows "e' = e \<and> (a' = a \<and> (sa_store_id a = worst_store iter m asg \<longrightarrow> (\<forall>s \<in> set (qualifying m asg). store_price prices e s = None))
     \<or> sa_store_id a = worst_store iter m asg \<and> settled prices (set (qualifying m asg)) e a')"
  using assms
  by (auto simp: moved_def reassign_def settled_def cheapest_None_iff dest: cheapest_SomeD split: if_splits option.splits)

lemma count_qualifying:
  assumes "loops m asg" and "q \<in> set (qualifying m asg)"
  shows "store_count asg q \<le> store_count (redistribute_round iter prices m asg) q"
  unfolding store_count_def round_moved
proof (rule count_where_map_mono)
  fix x :: "string \<times> store_assignment" assume "case x of (e, a) \<Rightarrow> sa_store_id a = q"
  then show "case moved iter prices m asg x of (e, a) \<Rightarrow> sa_store_id a = q"
    using assms worst_not_qualifying by (auto simp: moved_def split: prod.splits)
qed

lemma count_other:
  assumes "loops m asg" and "s \<notin> set (qualifying m asg)"
  shows "store_count (redistribute_round iter prices m asg) s \<le> store_count asg s"
  unfolding store_count_def round_moved
proof (rule count_where_map_le)
  fix x :: "string \<times> store_assignment" assume x: "case moved iter prices m asg x of (e, a) \<Rightarrow> sa_store_id a = s"
  obtain e a e' a' where "x = (e, a)" "moved iter prices m asg (e, a) = (e', a')" by force
  with x assms(2) moved_cases [of prices m asg e a e' a'] show "case x of (e, a) \<Rightarrow> sa_store_id a = s"
    by (auto simp: settled_def)
qed

lemma same_qualifying:
  assumes "loops m asg"
  shows "set (qualifying m (redistribute_round iter prices m asg)) = set (qualifying m asg)"
proof (intro set_eqI iffI)
  fix s assume "s \<in> set (qualifying m asg)"
  with count_qualifying [OF assms this, of prices] show "s \<in> set (qualifying m (redistribute_round iter prices m asg))"
    by (auto simp: qualifying_iff)
next
  fix s assume s: "s \<in> set (qualifying m (redistribute_round iter prices m asg))"
  show "s \<in> set (qualifying m asg)"
  proof (rule ccontr)
    assume no: "s \<notin> set (qualifying m asg)"
    with count_other [OF assms no, of prices] s show False by (auto simp: qualifying_iff)
  qed
qed

lemma follows_moved:
  assumes l: "loops m asg" and Q: "set (qualifying m asg) = Q" and y: "follows prices Q x y"
  shows "follows prices Q x (moved iter prices m asg y)"
proof -
  obtain e a e' a' where mv: "y = (e, a)" "moved iter prices m asg (e, a) = (e', a')" by (metis prod.exhaust)
  have "sa_store_id a \<notin> Q" if "sa_store_id a = worst_store iter m asg"
    using worst_not_qualifying [OF l] that Q by simp
  moreover have "sa_store_id a \<in> Q" if "settled prices Q (fst x) a" using that by (simp add: settled_def)
  moreover have "e = fst x" "a = snd x \<or> sa_store_id (snd x) \<notin> Q \<and> settled prices Q (fst x) a"
    using y by (simp_all add: mv(1) follows_def)
  ultimately have "follows prices Q x (e', a')"
    using moved_cases [OF mv(2), unfolded Q] unfolding follows_def fst_conv snd_conv by blast
  then show ?thesis by (simp add: mv)
qed

text \<open>An item that can never leave its store.\<close>

lemma stranded_stays:
  assumes "loops m asg" and "(e, a) \<in> set asg" and "sa_store_id a \<notin> set (qualifying m asg)"
    and "\<forall>s \<in> set (qualifying m asg). store_price prices e s = None"
  shows "(e, a) \<in> set (redistribute_round iter prices m asg)"
proof -
  have "cheapest prices e (iter (qualifying m asg)) = None" using assms(4) by (simp add: cheapest_None_iff)
  then have "moved iter prices m asg (e, a) = (e, a)" by (simp add: moved_def reassign_def)
  with assms(2) show ?thesis unfolding round_moved by (metis image_eqI list.set_map)
qed

lemma never_ends:
  assumes Q: "qualifying m asg \<noteq> []" and e: "(e, a) \<in> set asg" "int (store_count asg (sa_store_id a)) < m"
    and no: "\<forall>s \<in> set (qualifying m asg). store_price prices e s = None"
  shows "redistribute_under_threshold iter prices m asg = None"
proof (rule ccontr)
  assume "\<not> ?thesis"
  then obtain r where r: "while_option (loops m) (redistribute_round iter prices m) asg = Some r"
    by (auto simp: redistribute_under_threshold_def loops_def [abs_def])
  let ?P = "\<lambda>x. set (qualifying m x) = set (qualifying m asg) \<and> (e, a) \<in> set x"
  have out: "sa_store_id a \<notin> set (qualifying m asg)" using e(2) by (simp add: qualifying_iff)
  have "?P r"
  proof (rule while_option_rule [where P = ?P, OF _ r])
    fix x assume "?P x" and "loops m x"
    then show "?P (redistribute_round iter prices m x)"
      using same_qualifying [of m x prices] stranded_stays [of m x e a prices] out no by simp
  qed (use e in simp)
  then have "qualifying m r \<noteq> []" and "sa_store_id a \<notin> set (qualifying m r)" and "(e, a) \<in> set r"
    using Q out by auto
  then have "sa_store_id a \<in> set (under_threshold m r)" using in_asg_counted by (auto simp: qualifying_iff under_iff)
  with \<open>qualifying m r \<noteq> []\<close> have "loops m r" by (auto simp: loops_def)
  with while_option_stop [OF r] show False ..
qed

text \<open>Every round empties a store when its items can go somewhere.\<close>

definition misplaced :: "int \<Rightarrow> assignments \<Rightarrow> assignments \<Rightarrow> nat" where
  "misplaced m start asg = count_where (\<lambda>(e, a). sa_store_id a \<notin> set (qualifying m start)) asg"

lemma round_progress:
  assumes "loops m asg" and Q: "set (qualifying m asg) = set (qualifying m start)"
    and all: "\<forall>z \<in> set asg. sa_store_id (snd z) \<notin> set (qualifying m start) \<longrightarrow> (\<exists>s \<in> set (qualifying m start). store_price prices (fst z) s \<noteq> None)"
  shows "misplaced m start (redistribute_round iter prices m asg) < misplaced m start asg"
proof -
  have "worst_store iter m asg \<in> set (counted_stores asg)" using worst_under [OF assms(1)] by (simp add: under_iff counted_iff)
  then obtain e a where ea: "(e, a) \<in> set asg" "sa_store_id a = worst_store iter m asg"
    by (auto simp: counted_stores_def)
  have out: "sa_store_id a \<notin> set (qualifying m start)" using worst_not_qualifying [OF assms(1)] ea(2) Q by simp
  obtain e' a' where mv: "moved iter prices m asg (e, a) = (e', a')" by force
  with moved_cases [OF mv] all ea out Q have "sa_store_id a' \<in> set (qualifying m start)"
    by (force simp: settled_def)
  then show ?thesis
    unfolding misplaced_def round_moved
  proof (intro count_where_map_less [where y = "(e, a)"])
    fix x :: "string \<times> store_assignment" assume x: "case moved iter prices m asg x of (e, a) \<Rightarrow> sa_store_id a \<notin> set (qualifying m start)"
    obtain d b d' b' where "x = (d, b)" "moved iter prices m asg (d, b) = (d', b')" by force
    with x Q moved_cases [of prices m asg d b d' b'] show "case x of (e, a) \<Rightarrow> sa_store_id a \<notin> set (qualifying m start)"
      by (auto simp: settled_def)
  qed (use ea out mv in simp_all)
qed

lemma round_reachable:
  assumes "loops m asg" and Q: "set (qualifying m asg) = set (qualifying m start)"
    and all: "\<forall>z \<in> set asg. sa_store_id (snd z) \<notin> set (qualifying m start) \<longrightarrow> (\<exists>s \<in> set (qualifying m start). store_price prices (fst z) s \<noteq> None)"
  shows "\<forall>z \<in> set (redistribute_round iter prices m asg). sa_store_id (snd z) \<notin> set (qualifying m start) \<longrightarrow>
     (\<exists>s \<in> set (qualifying m start). store_price prices (fst z) s \<noteq> None)"
proof (intro ballI impI)
  fix z assume "z \<in> set (redistribute_round iter prices m asg)" and out: "sa_store_id (snd z) \<notin> set (qualifying m start)"
  then obtain d b where db: "(d, b) \<in> set asg" "moved iter prices m asg (d, b) = (fst z, snd z)" by (auto simp: round_moved)
  with moved_cases [OF db(2)] out Q have "(d, b) = z" by (auto simp: settled_def)
  with db(1) all out show "\<exists>s \<in> set (qualifying m start). store_price prices (fst z) s \<noteq> None" by auto
qed

lemma ends:
  assumes "qualifying m asg = [] \<or> (\<forall>z \<in> set asg. sa_store_id (snd z) \<notin> set (qualifying m asg) \<longrightarrow>
     (\<exists>s \<in> set (qualifying m asg). store_price prices (fst z) s \<noteq> None))"
  shows "\<exists>r. redistribute_under_threshold iter prices m asg = Some r"
proof (cases "qualifying m asg = []")
  case True
  then show ?thesis by (simp add: redistribute_under_threshold_def while_option_unfold)
next
  case False
  let ?P = "\<lambda>x. set (qualifying m x) = set (qualifying m asg) \<and> (\<forall>z \<in> set x. sa_store_id (snd z) \<notin> set (qualifying m asg) \<longrightarrow>
     (\<exists>s \<in> set (qualifying m asg). store_price prices (fst z) s \<noteq> None))"
  have "\<exists>r. while_option (loops m) (redistribute_round iter prices m) asg = Some r"
  proof (rule measure_while_option_Some [of ?P _ _ "misplaced m asg"])
    fix x assume "?P x" and "loops m x"
    then show "?P (redistribute_round iter prices m x) \<and> misplaced m asg (redistribute_round iter prices m x) < misplaced m asg x"
      using same_qualifying round_reachable round_progress by auto
  qed (use assms False in simp)
  then show ?thesis by (simp add: redistribute_under_threshold_def loops_def [abs_def])
qed

lemma never_ends_iff:
  "redistribute_under_threshold iter prices m asg = None \<longleftrightarrow> qualifying m asg \<noteq> [] \<and> list_ex (stranded prices m asg) asg"
proof
  assume "redistribute_under_threshold iter prices m asg = None"
  then have "\<not> (qualifying m asg = [] \<or> (\<forall>z \<in> set asg. sa_store_id (snd z) \<notin> set (qualifying m asg) \<longrightarrow>
     (\<exists>s \<in> set (qualifying m asg). store_price prices (fst z) s \<noteq> None)))" using ends [of m asg prices] by fastforce
  then obtain e a where "qualifying m asg \<noteq> []" "(e, a) \<in> set asg" "sa_store_id a \<notin> set (qualifying m asg)"
    "\<forall>s \<in> set (qualifying m asg). store_price prices e s = None" by auto
  then show "qualifying m asg \<noteq> [] \<and> list_ex (stranded prices m asg) asg"
    using in_asg_counted [of e a asg] by (force simp: stranded_def list_ex_iff list_all_iff qualifying_iff)
next
  assume "qualifying m asg \<noteq> [] \<and> list_ex (stranded prices m asg) asg"
  then show "redistribute_under_threshold iter prices m asg = None"
    using never_ends by (force simp: stranded_def list_ex_iff list_all_iff)
qed

end


interpretation ascending: set_order sort
  by unfold_locales simp


section \<open>When the redistribution ends, and with what\<close>

text \<open>
  C39 (termination). The redistribution loop ends exactly when nobody qualifies or every item of a store below the
  threshold has a price at a store that qualifies. Otherwise it runs for ever: the store that keeps the item is chosen
  again and again while nothing changes. The order in which Python walks over its sets does not matter.
\<close>

theorem redistribution_ends_iff:
  assumes "\<And>xs. set (iter xs) = set xs"
  shows "redistribute_under_threshold iter prices m asg = None \<longleftrightarrow> qualifying m asg \<noteq> [] \<and> list_ex (stranded prices m asg) asg"
  by (rule set_order.never_ends_iff [OF set_order.intro, OF assms])

definition demo_matrix :: price_matrix where
  "demo_matrix = (\<lambda>(s, e). if s = 1 \<and> e \<noteq> ''100'' then Some \<lparr> ip_price = Some 2, ip_source = ''consensus_local'', ip_trust_score = Some 1 \<rparr>
     else None)"

definition demo_assignments :: assignments where
  "demo_assignments = (''100'', unpriced_at 2) # map (\<lambda>e. (e, priced_at (1, \<lparr> ip_price = Some 2, ip_source = ''consensus_local'',
     ip_trust_score = Some 1 \<rparr>, 2))) [''201'', ''202'', ''203'']"

lemma demo_qualifying: "qualifying 3 demo_assignments = [1]"
  by (simp add: qualifying_def counted_stores_def demo_assignments_def store_count_def count_where_def unpriced_at_def priced_at_def)

theorem redistribution_ends_iff_witness: "redistribute_under_threshold sort demo_matrix 3 demo_assignments = None"
proof -
  have "list_ex (stranded demo_matrix 3 demo_assignments) demo_assignments"
    by (simp add: stranded_def demo_qualifying)
      (simp add: demo_assignments_def demo_matrix_def store_price_def store_count_def count_where_def unpriced_at_def priced_at_def)
  then show ?thesis using redistribution_ends_iff [of sort demo_matrix 3 demo_assignments] by (simp add: demo_qualifying)
qed

text \<open>
  When the redistribution returns, it has kept the items of the stores that qualified, and every other
  item has gone to the qualifying store that sells it cheapest, with that store's price; when no store qualified it has
  changed nothing.
\<close>

theorem redistribution_settles:
  assumes iter: "\<And>xs. set (iter xs) = set xs" and run: "redistribute_under_threshold iter prices m asg = Some r"
  shows "map fst r = map fst asg \<and> list_all2 (\<lambda>(e, a) (_, a').
     if qualifying m asg = [] \<or> sa_store_id a \<in> set (qualifying m asg) then a' = a
     else settled prices (set (qualifying m asg)) e a') asg r"
proof (cases "qualifying m asg = []")
  case True
  with run have "r = asg" by (simp add: redistribute_under_threshold_def while_option_unfold)
  with True show ?thesis by (simp add: list_all2_same split_beta)
next
  case False
  let ?Q = "set (qualifying m asg)"
  let ?P = "\<lambda>x. set (qualifying m x) = ?Q \<and> list_all2 (follows prices ?Q) asg x"
  from run have run': "while_option (loops m) (redistribute_round iter prices m) asg = Some r"
    by (simp add: redistribute_under_threshold_def loops_def [abs_def])
  have P: "?P r"
  proof (rule while_option_rule [where P = ?P, OF _ run'])
    fix x assume P: "?P x" and l: "loops m x"
    then have "list_all2 (follows prices ?Q) asg (redistribute_round iter prices m x)"
      using set_order.follows_moved [OF set_order.intro, OF iter, OF l] unfolding round_moved by (auto simp: list_all2_conv_all_nth)
    with set_order.same_qualifying [OF set_order.intro, OF iter, OF l, of prices] P show "?P (redistribute_round iter prices m x)" by simp
  qed (simp add: list_all2_same follows_def)
  with False have "qualifying m r \<noteq> []" by auto
  then have under: "under_threshold m r = []" using while_option_stop [OF run'] by (auto simp: loops_def)
  have in_Q: "sa_store_id (snd z) \<in> ?Q" if z: "z \<in> set r" for z
  proof -
    have "0 < store_count r (sa_store_id (snd z))" using in_asg_counted [of "fst z" "snd z" r] z by simp
    moreover have "sa_store_id (snd z) \<notin> set (under_threshold m r)" using under by simp
    ultimately show ?thesis unfolding P [THEN conjunct1, symmetric] by (auto simp: under_iff qualifying_iff)
  qed
  have len: "length r = length asg" using P by (auto dest: list_all2_lengthD)
  have nth: "follows prices ?Q (asg ! k) (r ! k)" "sa_store_id (snd (r ! k)) \<in> ?Q" if "k < length asg" for k
    using P in_Q that len by (auto simp: list_all2_conv_all_nth)
  have "map fst r = map fst asg" using nth(1) len by (intro nth_equalityI) (auto simp: follows_def)
  moreover have "list_all2 (\<lambda>(e, a) (_, a'). if qualifying m asg = [] \<or> sa_store_id a \<in> ?Q then a' = a else settled prices ?Q e a') asg r"
    unfolding list_all2_conv_all_nth
  proof (intro conjI allI impI)
    fix k assume "k < length asg"
    from nth [OF this] False show "(\<lambda>(e, a) (_, a'). if qualifying m asg = [] \<or> sa_store_id a \<in> ?Q then a' = a
        else settled prices ?Q e a') (asg ! k) (r ! k)"
      by (auto simp: follows_def split: prod.splits)
  qed (simp add: len)
  ultimately show ?thesis ..
qed

theorem redistribution_settles_witness:
  "\<exists>r. redistribute_under_threshold sort demo_matrix 3 (tl demo_assignments @ [(''204'', unpriced_at 2)]) = Some r
     \<and> map fst r = [''201'', ''202'', ''203'', ''204''] \<and> sa_store_id (snd (r ! 3)) = 1"
proof -
  let ?asg = "tl demo_assignments @ [(''204'', unpriced_at 2)]"
  have Q: "qualifying 3 ?asg = [1]"
    by (simp add: qualifying_def counted_stores_def demo_assignments_def store_count_def count_where_def unpriced_at_def priced_at_def)
  have "\<forall>z \<in> set ?asg. store_price demo_matrix (fst z) 1 \<noteq> None"
    by (simp add: demo_assignments_def demo_matrix_def store_price_def)
  then obtain r where r: "redistribute_under_threshold sort demo_matrix 3 ?asg = Some r"
    using ascending.ends [of 3 ?asg demo_matrix] unfolding Q by auto
  have keys: "map fst r = map fst ?asg \<and> list_all2 (\<lambda>(e, a) (_, a'). if qualifying 3 ?asg = [] \<or> sa_store_id a \<in> set (qualifying 3 ?asg) then a' = a
      else settled demo_matrix (set (qualifying 3 ?asg)) e a') ?asg r"
    by (rule redistribution_settles [OF _ r]) simp
  have "?asg ! 3 = (''204'', unpriced_at 2)" "3 < length ?asg" by (simp_all add: demo_assignments_def)
  with list_all2_nthD [OF keys [THEN conjunct2], of 3] have "case (r ! 3) of (_, a') \<Rightarrow> settled demo_matrix {1} ''204'' a'"
    unfolding Q by (simp add: unpriced_at_def)
  then have "sa_store_id (snd (r ! 3)) = 1" by (auto simp: settled_def split: prod.splits)
  moreover have "map fst ?asg = [''201'', ''202'', ''203'', ''204'']" by (simp add: demo_assignments_def)
  with keys [THEN conjunct1] have "map fst r = [''201'', ''202'', ''203'', ''204'']" by (rule trans)
  ultimately show ?thesis using r by (intro exI [of _ r] conjI)
qed


section \<open>The first assignment\<close>

definition target :: "price_matrix \<Rightarrow> uuid list \<Rightarrow> string \<Rightarrow> store_assignment" where
  "target prices stores ean = (case cheapest prices ean stores of Some b \<Rightarrow> priced_at b | None \<Rightarrow> unpriced_at (hd stores))"

lemma assign_item_target: "stores \<noteq> [] \<Longrightarrow> assign_item prices stores ean acc = AList.update ean (target prices stores ean) acc"
  by (auto simp: assign_item_def target_def split: option.splits list.splits)

lemma target_store: "stores \<noteq> [] \<Longrightarrow> sa_store_id (target prices stores ean) \<in> set stores"
  by (auto simp: target_def unpriced_at_def dest: cheapest_SomeD split: option.splits)

lemma initial_map_of:
  "stores \<noteq> [] \<Longrightarrow> map_of (fold (assign_item prices stores) items acc) e =
     (if e \<in> set items then Some (target prices stores e) else map_of acc e)"
  by (induction items arbitrary: acc) (auto simp: assign_item_target update_conv)

lemma distinct_initial: "distinct (map fst acc) \<Longrightarrow> distinct (map fst (fold (assign_item prices stores) items acc))"
  by (induction items arbitrary: acc) (auto simp: assign_item_def distinct_update split: option.splits list.splits)

lemma in_initial_iff:
  assumes "stores \<noteq> []"
  shows "(e, a) \<in> set (initial_assignments prices stores items) \<longleftrightarrow> e \<in> set items \<and> a = target prices stores e"
proof -
  have "distinct (map fst (initial_assignments prices stores items))"
    unfolding initial_assignments_def by (rule distinct_initial) simp
  then have "(e, a) \<in> set (initial_assignments prices stores items) \<longleftrightarrow> map_of (initial_assignments prices stores items) e = Some a"
    by (rule map_of_eq_Some_iff [symmetric])
  with assms show ?thesis by (auto simp: initial_assignments_def initial_map_of)
qed

text \<open>
  One item that no nearby store prices can stop the optimisation of a list for ever: it is parked at the
  first store, and when that store stays below the threshold while another one reaches it, the assignment never
  returns.
\<close>

theorem unpriced_item_hangs:
  assumes iter: "\<And>xs. set (iter xs) = set xs" and item: "ean \<in> set items"
    and unknown: "list_all (\<lambda>s. store_price prices ean s = None) (s # stores)"
    and under: "int (store_count (initial_assignments prices (s # stores) items) s) < m"
    and other: "qualifying m (initial_assignments prices (s # stores) items) \<noteq> []"
  shows "assign_items_to_stores iter items (s # stores) prices m = None"
proof -
  let ?asg = "initial_assignments prices (s # stores) items"
  have "cheapest prices ean (s # stores) = None" using unknown by (simp add: cheapest_None_iff list_all_iff)
  then have here: "(ean, unpriced_at s) \<in> set ?asg" using item by (simp add: in_initial_iff target_def)
  have "set (qualifying m ?asg) \<subseteq> set (s # stores)"
    using target_store [of "s # stores" prices] by (fastforce simp: qualifying_def counted_stores_def in_initial_iff)
  then have "\<forall>q \<in> set (qualifying m ?asg). store_price prices ean q = None" using unknown by (auto simp: list_all_iff)
  with set_order.never_ends [OF set_order.intro, OF iter, OF other here] under
  have "redistribute_under_threshold iter prices m ?asg = None" by (simp add: unpriced_at_def)
  moreover have "items \<noteq> []" using item by auto
  ultimately show ?thesis by (simp add: assign_items_to_stores_def)
qed

theorem unpriced_item_hangs_witness:
  "assign_items_to_stores sort [''100'', ''201'', ''202'', ''203''] [2, 1] demo_matrix 3 = None"
proof (rule unpriced_item_hangs [of _ "''100''"])
  have "initial_assignments demo_matrix [2, 1] [''100'', ''201'', ''202'', ''203''] = demo_assignments"
    by (simp add: initial_assignments_def assign_item_def cheapest_def cheaper_def demo_matrix_def demo_assignments_def)
  then show "qualifying 3 (initial_assignments demo_matrix [2, 1] [''100'', ''201'', ''202'', ''203'']) \<noteq> []"
    "int (store_count (initial_assignments demo_matrix [2, 1] [''100'', ''201'', ''202'', ''203'']) 2) < 3"
    by (simp_all add: demo_qualifying) (simp add: demo_assignments_def store_count_def count_where_def unpriced_at_def priced_at_def)
qed (simp_all add: demo_matrix_def store_price_def)


section \<open>The cap\<close>

lemma set_ranked [simp]: "set (ranked_stores asg) = set (counted_stores asg)"
  by (simp add: ranked_stores_def)

lemma length_ranked [simp]: "length (ranked_stores asg) = length (counted_stores asg)"
  by (simp add: ranked_stores_def)

lemma distinct_ranked: "distinct (ranked_stores asg)"
  by (simp add: ranked_stores_def distinct_sort)

lemma ranked_sorted:
  assumes "i \<le> j" and "j < length (ranked_stores asg)"
  shows "store_count asg (ranked_stores asg ! j) \<le> store_count asg (ranked_stores asg ! i)"
proof -
  have "sorted (map (\<lambda>s. - int (store_count asg s)) (ranked_stores asg))" by (simp add: ranked_stores_def)
  from sorted_nth_mono [OF this assms(1)] assms show ?thesis by simp
qed

text \<open>A store of the prefix has at least as many items as one that is left out.\<close>

lemma kept_are_largest:
  assumes "s \<in> set (take n (ranked_stores asg))" and "t \<in> set (ranked_stores asg)" and "t \<notin> set (take n (ranked_stores asg))"
  shows "store_count asg t \<le> store_count asg s"
proof -
  from assms(1) obtain i where i: "i < n" "i < length (ranked_stores asg)" "s = ranked_stores asg ! i"
    by (auto simp: in_set_conv_nth)
  from assms(2) obtain j where j: "j < length (ranked_stores asg)" "t = ranked_stores asg ! j"
    unfolding in_set_conv_nth by blast
  have "n \<le> j"
  proof (rule ccontr)
    assume "\<not> n \<le> j"
    then have "t \<in> set (take n (ranked_stores asg))" using j by (force simp: in_set_conv_nth)
    with assms(3) show False ..
  qed
  with i j ranked_sorted [of i j asg] show ?thesis by simp
qed

lemma reassign_unpriced:
  "settled prices (set ss) e (reassign prices ss e (unpriced_at f))
     \<or> reassign prices ss e (unpriced_at f) = unpriced_at f \<and> (\<forall>s \<in> set ss. store_price prices e s = None)"
proof (cases "cheapest prices e ss")
  case None
  then show ?thesis using cheapest_None_iff [of prices e ss] by (simp add: reassign_def)
next
  case (Some b)
  then show ?thesis by (auto simp: reassign_def settled_def dest: cheapest_SomeD)
qed

text \<open>
  The capped route visits at most the allowed number of stores (at least one), the ones with the most items; the
  items of a store that stays are left alone, every other item goes to the cheapest store that stays, and is
  without a price only if none of them prices it.
\<close>

theorem cap_keeps_largest:
  fixes asg :: assignments and prices :: price_matrix
  assumes iter: "\<And>xs. set (iter xs) = set xs" and n: "1 \<le> n"
  defines "r \<equiv> cap_to_max_stores iter asg prices n"
  shows "int (length (counted_stores r)) \<le> n \<and> set (counted_stores r) \<subseteq> set (counted_stores asg) \<and> map fst r = map fst asg
     \<and> (\<forall>s \<in> set (counted_stores r). \<forall>t \<in> set (counted_stores asg) - set (counted_stores r). store_count asg t \<le> store_count asg s)
     \<and> list_all2 (\<lambda>(e, a) (_, a'). if sa_store_id a \<in> set (counted_stores r) then a' = a
          else settled prices (set (counted_stores r)) e a'
            \<or> sa_price a' = None \<and> list_all (\<lambda>s. store_price prices e s = None) (counted_stores r)) asg r"
proof (cases "int (length (counted_stores asg)) \<le> n")
  case True
  then have r: "r = asg" by (simp add: r_def cap_to_max_stores_def)
  have "sa_store_id a \<in> set (counted_stores asg)" if "(e, a) \<in> set asg" for e a
    using in_asg_counted [OF that] by (simp add: counted_iff)
  then show ?thesis using True by (auto simp: r list_all2_same)
next
  case False
  define kept where "kept = take (nat n) (ranked_stores asg)"
  define fallback where "fallback = hd (ranked_stores asg)"
  let ?f = "\<lambda>(e, a). (e, if sa_store_id a \<in> set kept then a else reassign prices (iter kept) e (unpriced_at fallback))"
  have r: "r = map ?f asg"
    using False n by (simp add: r_def cap_to_max_stores_def Let_def slice_to_def cong: if_cong flip: kept_def fallback_def)
  have len: "length kept = nat n" "distinct kept" using False n distinct_ranked by (auto simp: kept_def)
  have sub: "set kept \<subseteq> set (counted_stores asg)" using set_take_subset [of "nat n" "ranked_stores asg"] by (simp add: kept_def)
  have "ranked_stores asg \<noteq> []" using False n by (auto simp flip: length_0_conv)
  then have fallback: "fallback \<in> set kept" using n by (cases "ranked_stores asg") (auto simp: kept_def fallback_def take_Cons')
  have into: "sa_store_id (reassign prices (iter kept) e (unpriced_at fallback)) \<in> set kept" for e
    using fallback iter by (auto simp: reassign_def unpriced_at_def dest: cheapest_SomeD split: option.splits)
  have stores: "set (counted_stores r) = set kept"
  proof (intro set_eqI iffI)
    fix s assume "s \<in> set (counted_stores r)"
    then show "s \<in> set kept" using into by (auto simp: counted_stores_def r split: if_splits)
  next
    fix s assume s: "s \<in> set kept"
    with sub obtain e a where "(e, a) \<in> set asg" "sa_store_id a = s" by (force simp: counted_stores_def)
    then have "(e, a) \<in> set r" using s by (force simp: r image_iff)
    from in_asg_counted [OF this] show "s \<in> set (counted_stores r)" using \<open>sa_store_id a = s\<close> by (simp add: counted_iff)
  qed
  have "length (counted_stores r) = length kept"
    using stores len(2) distinct_counted [of r] by (metis distinct_card)
  moreover have "settled prices (set kept) e (reassign prices (iter kept) e (unpriced_at fallback))
      \<or> sa_price (reassign prices (iter kept) e (unpriced_at fallback)) = None \<and> (\<forall>s \<in> set kept. store_price prices e s = None)" for e
    using reassign_unpriced [of prices "iter kept" e fallback] iter by (auto simp: unpriced_at_def)
  then have "list_all2 (\<lambda>(e, a) (_, a'). if sa_store_id a \<in> set kept then a' = a
          else settled prices (set kept) e a' \<or> sa_price a' = None \<and> list_all (\<lambda>s. store_price prices e s = None) (counted_stores r)) asg r"
    unfolding r list_all_iff stores [unfolded r] by (simp add: list_all2_map2 list_all2_same split_beta)
  moreover have "store_count asg t \<le> store_count asg s" if "s \<in> set kept" "t \<in> set (counted_stores asg) - set kept" for s t
    using kept_are_largest [of s "nat n" asg t] that by (simp add: kept_def)
  moreover have "map fst r = map fst asg" by (simp add: r split_beta)
  ultimately show ?thesis using len(1) n sub unfolding stores by auto
qed

theorem cap_keeps_largest_witness:
  "int (length (counted_stores (cap_to_max_stores sort demo_assignments demo_matrix 1))) \<le> 1"
  using cap_keeps_largest [of sort 1 demo_assignments demo_matrix] by simp

end
