(* ===== verification/Ratis_Lists.thy ===== *)
theory Ratis_Lists
  imports Ratis_Schema
begin

text \<open>
  Shopping lists (\<open>ratis_list_optimiser\<close>: \<open>repositories/shopping_list_repository.py\<close>,
  \<open>services/shopping_list_service.py\<close>, \<open>services/suggestion_service.py\<close>, \<open>services/category_mapper.py\<close>,
  \<open>routes/shopping_lists.py\<close>, \<open>routes/suggestions.py\<close>; the rows of \<open>ratis_core/models/shopping.py\<close>). The service works
  on tables of its own, so it has its own state and exceptions. The lemmas show that a list never holds an item twice
  nor more items than allowed, that an item has a time of checking exactly when it is checked, that nobody touches the list of someone
  else, and that a template gives back the items it was made from.
\<close>

section \<open>The tables\<close>

record list_row =
  li_id :: uuid
  li_user_id :: uuid
  li_name :: string
  li_has_default_name :: bool
  li_is_template :: bool
  li_created_at :: stamp
  li_updated_at :: stamp

text \<open>\<open>quantity\<close> is \<open>NUMERIC(10, 3)\<close>: thousandths.\<close>

record item_row =
  it_id :: uuid
  it_list_id :: uuid
  it_product_ean :: string
  it_quantity :: int
  it_checked :: bool
  it_checked_at :: "stamp option"

text \<open>The route of a list, as its JSON document; prices are the decimals the JSON numbers show.\<close>

record route_item =
  ri_item_id :: uuid
  ri_product_ean :: string
  ri_product_name :: string
  ri_quantity :: int
  ri_price :: "rat option"
  ri_price_source :: string
  ri_trust_score :: "rat option"

record route_store =
  rs_store_id :: uuid
  rs_store_name :: string
  rs_lat :: rat
  rs_lng :: rat
  rs_order :: int
  rs_items :: "route_item list"
  rs_subtotal :: rat

datatype route_warning = RoutingUnavailable | PriceWarning string string

record route_steps =
  rt_stores :: "route_store list"
  rt_polyline :: "string option"
  rt_total_stores :: int
  rt_total_items :: int
  rt_warnings :: "route_warning list"

record route_row =
  ro_id :: uuid
  ro_user_id :: uuid
  ro_list_id :: uuid
  ro_status :: string
  ro_total_price :: rat
  ro_total_savings :: rat
  ro_distance_km :: "rat option"
  ro_steps :: route_steps
  ro_computed_at :: stamp
  ro_expires_at :: stamp

record list_product =
  lp_ean :: string
  lp_name :: string
  lp_categories_tags :: "string list option"
  lp_storage_type :: "string option"
  lp_source :: string
  lp_unit :: "string option"

record list_store =
  ls_id :: uuid
  ls_name :: string
  ls_lat :: rat
  ls_lng :: rat
  ls_is_disabled :: bool

record price_row =
  pw_store_id :: uuid
  pw_product_ean :: string
  pw_price :: int
  pw_trust_score :: rat

record receipt_scan =
  rc_user_id :: uuid
  rc_receipt_id :: "uuid option"
  rc_product_ean :: "string option"
  rc_scan_type :: string
  rc_status :: string

record list_db =
  next_id :: uuid
  shopping_lists :: "list_row list"
  shopping_list_items :: "item_row list"
  optimized_routes :: "route_row list"
  catalogue :: "list_product list"
  store_table :: "list_store list"
  consensus :: "price_row list"
  receipt_scans :: "receipt_scan list"
  user_preferences :: "uuid \<Rightarrow> (rat \<times> string) option"
  excluded_stores :: "(uuid \<times> uuid) list"
  reference_points :: "uuid \<Rightarrow> (rat \<times> rat) option"

datatype list_error =
    ListNotFound | ItemNotFound | ProductNotFound | ItemAlreadyInList | ListFull | QuantityTooHigh
  | MaxTemplatesReached | NotATemplate | AlreadyATemplate | NotEligible
  | EmptyList | NoPosition | NoStoresNearby
  | ItemNotFoundInRoute | StoreNotFound | StoreUnavailable | CannotRemoveLastStore
  | HttpError int string | Integrity string | Numeric_Overflow | Index_Error

type_synonym 'a list_op = "(list_db, list_error, 'a) op"

record optimiser_cfg =
  oc_min_items_per_store :: int
  oc_suggestion_min_receipts :: int
  oc_suggestion_threshold :: rat
  oc_route_expiry_hours :: int
  oc_national_avg_min :: int
  oc_max_items_per_list :: int
  oc_max_stores_in_route :: int
  oc_max_quantity :: rat
  oc_max_templates :: int
  oc_default_radius :: rat
  oc_default_transport :: string
  oc_stuck_minutes :: int


section \<open>The repository\<close>

definition new_id :: "uuid list_op" where
  "new_id = bnd (reads next_id) (\<lambda>i. seq (modify (\<lambda>s. s\<lparr> next_id := Suc i \<rparr>)) (ret i))"

text \<open>\<^verbatim>\<open>db.get\<close> and the owner check; the one who asks for the list of someone else gets a 403.\<close>

definition get_list :: "list_db \<Rightarrow> uuid \<Rightarrow> list_row option" where
  "get_list s i = List.find (\<lambda>r. li_id r = i) (shopping_lists s)"

definition assert_owner :: "uuid \<Rightarrow> uuid \<Rightarrow> unit list_op" where
  "assert_owner owner u = guard (owner = u) (HttpError 403 ''forbidden'')"

definition owned_list :: "uuid \<Rightarrow> uuid \<Rightarrow> list_row list_op" where
  "owned_list i u = bnd (reads (\<lambda>s. get_list s i)) (\<lambda>row. case row of
       None \<Rightarrow> throw ListNotFound
     | Some sl \<Rightarrow> seq (assert_owner (li_user_id sl) u) (ret sl))"

definition items_of :: "list_db \<Rightarrow> uuid \<Rightarrow> item_row list" where
  "items_of s i = filter (\<lambda>r. it_list_id r = i) (shopping_list_items s)"

definition insert_list :: "list_row \<Rightarrow> unit list_op" where
  "insert_list r = modify (\<lambda>s. s\<lparr> shopping_lists := shopping_lists s @ [r] \<rparr>)"

definition create_list :: "clock \<Rightarrow> uuid \<Rightarrow> string option \<Rightarrow> uuid list_op" where
  "create_list ck u name = bnd new_id (\<lambda>i. seq (insert_list
       \<lparr> li_id = i, li_user_id = u, li_name = (case name of None \<Rightarrow> '''' | Some n \<Rightarrow> n),
         li_has_default_name = (name = None \<or> name = Some ''''), li_is_template = False,
         li_created_at = now ck, li_updated_at = now ck \<rparr>) (ret i))"

text \<open>Each list of a user with the number of its items and of those not yet checked.\<close>

definition get_lists_by_user :: "list_db \<Rightarrow> uuid \<Rightarrow> (list_row \<times> nat \<times> nat) list" where
  "get_lists_by_user s u = map (\<lambda>r. (r, length (items_of s (li_id r)), count_where (\<lambda>x. \<not> it_checked x) (items_of s (li_id r))))
     (sort_key (\<lambda>r. - li_created_at r) (filter (\<lambda>r. li_user_id r = u) (shopping_lists s)))"

text \<open>The trigger \<open>trg_shopping_lists_updated_at\<close> dates every update of the row.\<close>

definition set_list :: "clock \<Rightarrow> uuid \<Rightarrow> (list_row \<Rightarrow> list_row) \<Rightarrow> unit list_op" where
  "set_list ck i f = modify (\<lambda>s. s\<lparr> shopping_lists := update_where (\<lambda>r. li_id r = i)
     (\<lambda>r. (f r)\<lparr> li_updated_at := now ck \<rparr>) (shopping_lists s) \<rparr>)"

definition repo_update_list :: "clock \<Rightarrow> uuid \<Rightarrow> string \<Rightarrow> unit list_op" where
  "repo_update_list ck i name = set_list ck i (\<lambda>r. r\<lparr> li_name := name, li_has_default_name := False \<rparr>)"

text \<open>
  \<^verbatim>\<open>db.delete(sl)\<close>: the relationships \<open>items\<close> and \<open>optimized_routes\<close> declare no cascade, so SQLAlchemy first sets the
  foreign key of the children to null, which their \<open>NOT NULL\<close> columns refuse.
\<close>

definition repo_delete_list :: "uuid \<Rightarrow> unit list_op" where
  "repo_delete_list i =
     seq (bnd (reads (\<lambda>s. items_of s i)) (\<lambda>xs. guard (xs = []) (Integrity ''shopping_list_items.list_id'')))
     (seq (bnd (reads (\<lambda>s. filter (\<lambda>r. ro_list_id r = i) (optimized_routes s)))
             (\<lambda>rs. guard (rs = []) (Integrity ''optimized_routes.list_id'')))
     (modify (\<lambda>s. s\<lparr> shopping_lists := filter (\<lambda>r. li_id r \<noteq> i) (shopping_lists s) \<rparr>)))"

text \<open>A request's quantity in a \<open>NUMERIC(10, 3)\<close> column: rounded half up (it is positive).\<close>

definition numeric_10_3 :: "rat \<Rightarrow> int" where
  "numeric_10_3 q = \<lfloor>1000 * q + 1 / 2\<rfloor>"

definition fits_numeric_10_3 :: "int \<Rightarrow> unit list_op" where
  "fits_numeric_10_3 n = guard (\<bar>n\<bar> < 10 ^ 10) Numeric_Overflow"

definition insert_item :: "item_row \<Rightarrow> unit list_op" where
  "insert_item r = seq (fits_numeric_10_3 (it_quantity r))
     (seq (guard (0 < it_quantity r) (Integrity ''quantity_pos''))
     (bnd (reads shopping_list_items) (\<lambda>rows.
       seq (guard (\<not> list_ex (\<lambda>x. it_list_id x = it_list_id r \<and> it_product_ean x = it_product_ean r) rows)
              (Integrity ''shopping_list_items_list_id_product_ean_key''))
         (modify (\<lambda>s. s\<lparr> shopping_list_items := shopping_list_items s @ [r] \<rparr>)))))"

definition add_item :: "uuid \<Rightarrow> string \<Rightarrow> int \<Rightarrow> uuid list_op" where
  "add_item i ean quantity = bnd new_id (\<lambda>k. seq (insert_item
     \<lparr> it_id = k, it_list_id = i, it_product_ean = ean, it_quantity = quantity, it_checked = False, it_checked_at = None \<rparr>) (ret k))"

definition get_item :: "list_db \<Rightarrow> uuid \<Rightarrow> item_row option" where
  "get_item s k = List.find (\<lambda>r. it_id r = k) (shopping_list_items s)"

definition item_exists :: "list_db \<Rightarrow> uuid \<Rightarrow> string \<Rightarrow> bool" where
  "item_exists s i ean = list_ex (\<lambda>r. it_product_ean r = ean) (items_of s i)"

definition count_items :: "list_db \<Rightarrow> uuid \<Rightarrow> int" where
  "count_items s i = int (length (items_of s i))"

definition repo_delete_item :: "uuid \<Rightarrow> unit list_op" where
  "repo_delete_item k = modify (\<lambda>s. s\<lparr> shopping_list_items := filter (\<lambda>r. it_id r \<noteq> k) (shopping_list_items s) \<rparr>)"

definition count_templates_by_user :: "list_db \<Rightarrow> uuid \<Rightarrow> int" where
  "count_templates_by_user s u = int (count_where (\<lambda>r. li_user_id r = u \<and> li_is_template r) (shopping_lists s))"

definition clear_items :: "uuid \<Rightarrow> unit list_op" where
  "clear_items i = modify (\<lambda>s. s\<lparr> shopping_list_items := filter (\<lambda>r. it_list_id r \<noteq> i) (shopping_list_items s) \<rparr>)"

definition find_item_by_ean :: "list_db \<Rightarrow> uuid \<Rightarrow> string \<Rightarrow> item_row option" where
  "find_item_by_ean s i ean = List.find (\<lambda>r. it_list_id r = i \<and> it_product_ean r = ean) (shopping_list_items s)"

definition get_product :: "list_db \<Rightarrow> string \<Rightarrow> list_product option" where
  "get_product s ean = List.find (\<lambda>p. lp_ean p = ean) (catalogue s)"


section \<open>The service\<close>

definition touch_list :: "clock \<Rightarrow> uuid \<Rightarrow> unit list_op" where
  "touch_list ck i = set_list ck i id"

definition validate_quantity :: "optimiser_cfg \<Rightarrow> rat \<Rightarrow> unit list_op" where
  "validate_quantity cfg q = guard (q \<le> oc_max_quantity cfg) QuantityTooHigh"

definition get_shopping_list :: "uuid \<Rightarrow> uuid \<Rightarrow> (list_row \<times> item_row list) list_op" where
  "get_shopping_list i u = bnd (owned_list i u) (\<lambda>sl. reads (\<lambda>s. (sl, items_of s i)))"

definition update_shopping_list :: "clock \<Rightarrow> uuid \<Rightarrow> uuid \<Rightarrow> string \<Rightarrow> unit list_op" where
  "update_shopping_list ck i u name = seq (owned_list i u) (repo_update_list ck i name)"

definition delete_shopping_list :: "uuid \<Rightarrow> uuid \<Rightarrow> unit list_op" where
  "delete_shopping_list i u = seq (owned_list i u) (repo_delete_list i)"

definition add_item_to_list :: "optimiser_cfg \<Rightarrow> clock \<Rightarrow> uuid \<Rightarrow> uuid \<Rightarrow> string \<Rightarrow> rat \<Rightarrow> uuid list_op" where
  "add_item_to_list cfg ck i u ean quantity =
     seq (validate_quantity cfg quantity)
     (seq (owned_list i u)
     (bnd (reads (\<lambda>s. (get_product s ean, item_exists s i ean, count_items s i))) (\<lambda>(product, present, n).
       if product = None then throw ProductNotFound
       else if present then throw ItemAlreadyInList
       else if oc_max_items_per_list cfg \<le> n then throw ListFull
       else bnd (add_item i ean (numeric_10_3 quantity)) (\<lambda>k. seq (touch_list ck i) (ret k)))))"

text \<open>The columns an update sets; \<open>checked_at\<close> follows \<open>checked\<close>.\<close>

definition set_item :: "clock \<Rightarrow> rat option \<Rightarrow> bool option \<Rightarrow> item_row \<Rightarrow> item_row" where
  "set_item ck quantity checked r =
     (let r' = (case quantity of None \<Rightarrow> r | Some q \<Rightarrow> r\<lparr> it_quantity := numeric_10_3 q \<rparr>) in
      case checked of None \<Rightarrow> r'
      | Some b \<Rightarrow> r'\<lparr> it_checked := b, it_checked_at := (if b then Some (now ck) else None) \<rparr>)"

definition update_item :: "optimiser_cfg \<Rightarrow> clock \<Rightarrow> uuid \<Rightarrow> uuid \<Rightarrow> uuid \<Rightarrow> rat option \<Rightarrow> bool option \<Rightarrow> item_row list_op" where
  "update_item cfg ck i k u quantity checked =
     seq (owned_list i u)
     (bnd (reads (\<lambda>s. get_item s k)) (\<lambda>row. case row of
         None \<Rightarrow> throw ItemNotFound
       | Some r \<Rightarrow>
           if it_list_id r \<noteq> i then throw ItemNotFound
           else seq (case quantity of None \<Rightarrow> ret () | Some q \<Rightarrow> validate_quantity cfg q)
             (let r' = set_item ck quantity checked r in
              seq (touch_list ck i)
              (seq (fits_numeric_10_3 (it_quantity r'))
              (seq (guard (0 < it_quantity r') (Integrity ''quantity_pos''))
              (seq (modify (\<lambda>s. s\<lparr> shopping_list_items := update_where (\<lambda>x. it_id x = k) (set_item ck quantity checked)
                     (shopping_list_items s) \<rparr>))
                (ret r')))))))"

definition delete_item :: "clock \<Rightarrow> uuid \<Rightarrow> uuid \<Rightarrow> uuid \<Rightarrow> unit list_op" where
  "delete_item ck i k u =
     seq (owned_list i u)
     (bnd (reads (\<lambda>s. get_item s k)) (\<lambda>row. case row of
         None \<Rightarrow> throw ItemNotFound
       | Some r \<Rightarrow> if it_list_id r \<noteq> i then throw ItemNotFound
           else seq (repo_delete_item k) (touch_list ck i)))"

text \<open>The copies of some items, unchecked, in a list.\<close>

definition copy_items :: "uuid \<Rightarrow> item_row list \<Rightarrow> unit list_op" where
  "copy_items i items = for_each (\<lambda>r _. void (add_item i (it_product_ean r) (it_quantity r))) items ()"

definition save_as_template :: "optimiser_cfg \<Rightarrow> clock \<Rightarrow> uuid \<Rightarrow> uuid \<Rightarrow> uuid list_op" where
  "save_as_template cfg ck i u =
     bnd (get_shopping_list i u) (\<lambda>(sl, items).
     if li_is_template sl then throw AlreadyATemplate
     else bnd (reads (\<lambda>s. count_templates_by_user s u)) (\<lambda>n.
       if oc_max_templates cfg \<le> n then throw MaxTemplatesReached
       else bnd new_id (\<lambda>t.
         seq (insert_list \<lparr> li_id = t, li_user_id = u, li_name = li_name sl, li_has_default_name = li_has_default_name sl,
                li_is_template = True, li_created_at = now ck, li_updated_at = now ck \<rparr>)
         (seq (copy_items t items) (ret t)))))"

definition create_from_template :: "clock \<Rightarrow> uuid \<Rightarrow> uuid \<Rightarrow> string option \<Rightarrow> uuid list_op" where
  "create_from_template ck t u name =
     bnd (get_shopping_list t u) (\<lambda>(tpl, items).
     if \<not> li_is_template tpl then throw NotATemplate
     else bnd (create_list ck u name) (\<lambda>i. seq (copy_items i items) (ret i)))"

definition clear_list :: "clock \<Rightarrow> uuid \<Rightarrow> uuid \<Rightarrow> unit list_op" where
  "clear_list ck i u = seq (owned_list i u) (seq (clear_items i) (touch_list ck i))"

datatype scan_check_result = Checked item_row | AlreadyChecked item_row | NotInList "list_product option"

definition scan_check :: "clock \<Rightarrow> uuid \<Rightarrow> uuid \<Rightarrow> string \<Rightarrow> scan_check_result list_op" where
  "scan_check ck i u ean =
     seq (owned_list i u)
     (bnd (reads (\<lambda>s. find_item_by_ean s i ean)) (\<lambda>row. case row of
         None \<Rightarrow> reads (\<lambda>s. NotInList (get_product s ean))
       | Some r \<Rightarrow> if it_checked r then ret (AlreadyChecked r)
           else seq (modify (\<lambda>s. s\<lparr> shopping_list_items := update_where (\<lambda>x. it_id x = it_id r) (set_item ck None (Some True))
                    (shopping_list_items s) \<rparr>))
             (seq (touch_list ck i) (ret (Checked (set_item ck None (Some True) r))))))"

section \<open>Categories\<close>

text \<open>\<^verbatim>\<open>kw in text\<close>.\<close>

fun contains :: "string \<Rightarrow> string \<Rightarrow> bool" where
  "contains kw [] \<longleftrightarrow> kw = []"
| "contains kw (c # cs) \<longleftrightarrow> take (length kw) (c # cs) = kw \<or> contains kw cs"

definition bakery_keywords :: "string list" where
  "bakery_keywords = [''bread'', ''pain'', ''boulanger'', ''viennoiserie'', ''patisserie'', ''pastr'', ''baguette'', ''brioche'',
     ''croissant'']"

definition beverage_keywords :: "string list" where
  "beverage_keywords = [''beverage'', ''boisson'', ''drink'', ''soda'', ''juice'', ''jus'', ''water'', ''eau'', ''tea'', ''the'',
     ''coffee'', ''cafe'', ''wine'', ''vin'', ''beer'', ''biere'']"

definition strip_lang_prefix :: "string \<Rightarrow> string" where
  "strip_lang_prefix tag = (if CHR '':'' \<in> set tag then tl (dropWhile (\<lambda>c. c \<noteq> CHR '':'') tag) else tag)"

definition any_keyword :: "string list \<Rightarrow> string list \<Rightarrow> bool" where
  "any_keyword tags keywords \<longleftrightarrow>
     list_ex (\<lambda>t. t \<noteq> [] \<and> list_ex (\<lambda>kw. contains kw (strip_lang_prefix (lower t))) keywords) tags"

definition resolve_category :: "list_product \<Rightarrow> string" where
  "resolve_category p =
     (let tags = (case lp_categories_tags p of None \<Rightarrow> [] | Some ts \<Rightarrow> ts) in
      if any_keyword tags bakery_keywords then ''boulangerie''
      else if any_keyword tags beverage_keywords then ''boissons''
      else if lp_storage_type p \<in> {Some ''frozen'', Some ''fresh''} then ''frais''
      else if lp_source p = ''internal'' \<and> lp_unit p \<noteq> None then ''vrac''
      else if lp_storage_type p = Some ''ambient'' \<or> tags \<noteq> [] then ''epicerie''
      else ''autres'')"


section \<open>Suggestions\<close>

definition accepted_receipts :: "list_db \<Rightarrow> uuid \<Rightarrow> receipt_scan list" where
  "accepted_receipts s u = filter (\<lambda>r. rc_user_id r = u \<and> rc_scan_type r = ''receipt'' \<and> rc_status r = ''accepted''
     \<and> rc_receipt_id r \<noteq> None) (receipt_scans s)"

definition count_user_receipts :: "list_db \<Rightarrow> uuid \<Rightarrow> int" where
  "count_user_receipts s u = int (card (rc_receipt_id ` set (accepted_receipts s u)))"

definition check_eligibility :: "optimiser_cfg \<Rightarrow> list_db \<Rightarrow> uuid \<Rightarrow> bool \<times> int \<times> int" where
  "check_eligibility cfg s u = (oc_suggestion_min_receipts cfg \<le> count_user_receipts s u, count_user_receipts s u,
     oc_suggestion_min_receipts cfg)"

text \<open>The rows of the query: the products with the number of receipts they are on.\<close>

definition appearances :: "list_db \<Rightarrow> uuid \<Rightarrow> (string \<times> int) list" where
  "appearances s u = map (\<lambda>e. (e, int (card (rc_receipt_id ` set (filter (\<lambda>r. rc_product_ean r = Some e) (accepted_receipts s u))))))
     (remdups (List.map_filter rc_product_ean (accepted_receipts s u)))"

record suggestion =
  sg_product_ean :: string
  sg_product_name :: string
  sg_frequency :: int
  sg_appearances :: int
  sg_total_receipts :: int

text \<open>\<^verbatim>\<open>round(freq, 2)\<close> of a double, in hundredths: the exact value is rounded, ties to even.\<close>

fun hundredths :: "dbl \<Rightarrow> int" where
  "hundredths (Dbl m k) = rhe (100 * m) (2 ^ k)"

definition suggest_products :: "optimiser_cfg \<Rightarrow> dbl \<Rightarrow> uuid \<Rightarrow> suggestion list list_op" where
  "suggest_products cfg threshold u = bnd (reads (\<lambda>s. (count_user_receipts s u, appearances s u, catalogue s))) (\<lambda>(total, rows, products).
     if total < oc_suggestion_min_receipts cfg then throw NotEligible
     else ret (sort_key (\<lambda>g. - sg_frequency g) (List.map_filter (\<lambda>(ean, n).
       let freq = dbl_of_frac n total in
       if dless freq threshold then None
       else Some \<lparr> sg_product_ean = ean,
              sg_product_name = (case List.find (\<lambda>p. lp_ean p = ean) products of None \<Rightarrow> ean | Some p \<Rightarrow> lp_name p),
              sg_frequency = hundredths freq, sg_appearances = n, sg_total_receipts = total \<rparr>) rows)))"

text \<open>The loop over the suggestions: a product that is there is passed over, a full list ends it.\<close>

fun add_suggestions :: "optimiser_cfg \<Rightarrow> clock \<Rightarrow> uuid \<Rightarrow> uuid \<Rightarrow> suggestion list \<Rightarrow> int \<Rightarrow> int list_op" where
  "add_suggestions cfg ck i u [] added = ret added"
| "add_suggestions cfg ck i u (g # gs) added =
     (\<lambda>s. case add_item_to_list cfg ck i u (sg_product_ean g) 1 s of
        (Inr _, t) \<Rightarrow> add_suggestions cfg ck i u gs (added + 1) t
      | (Inl e, t) \<Rightarrow> if e = ItemAlreadyInList then add_suggestions cfg ck i u gs added t
                    else if e = ListFull then (Inr added, t) else (Inl e, t))"

definition generate_and_add_to_list :: "optimiser_cfg \<Rightarrow> dbl \<Rightarrow> clock \<Rightarrow> uuid \<Rightarrow> uuid \<Rightarrow> (suggestion list \<times> int) list_op" where
  "generate_and_add_to_list cfg threshold ck u i =
     seq (owned_list i u) (bnd (suggest_products cfg threshold u) (\<lambda>gs.
       bnd (add_suggestions cfg ck i u gs 0) (\<lambda>added. ret (gs, added))))"


section \<open>The routes\<close>

text \<open>A request commits at its end; an exception before that discards the session.\<close>

definition list_http :: "list_error \<Rightarrow> list_error" where
  "list_http e = (case e of
       ListNotFound \<Rightarrow> HttpError 404 ''list_not_found''
     | ItemNotFound \<Rightarrow> HttpError 404 ''item_not_found''
     | ProductNotFound \<Rightarrow> HttpError 404 ''product_not_found''
     | ItemAlreadyInList \<Rightarrow> HttpError 409 ''item_already_in_list''
     | ListFull \<Rightarrow> HttpError 422 ''list_full''
     | QuantityTooHigh \<Rightarrow> HttpError 422 ''quantity_too_high''
     | AlreadyATemplate \<Rightarrow> HttpError 422 ''already_a_template''
     | MaxTemplatesReached \<Rightarrow> HttpError 422 ''max_templates_reached''
     | NotATemplate \<Rightarrow> HttpError 422 ''not_a_template''
     | _ \<Rightarrow> e)"

definition list_request :: "'a list_op \<Rightarrow> 'a list_op" where
  "list_request m = catch (db_transaction m) (\<lambda>e. throw (list_http e))"

definition list_name_ok :: "string option \<Rightarrow> bool" where
  "list_name_ok name \<longleftrightarrow> (case name of None \<Rightarrow> True | Some n \<Rightarrow> 1 \<le> length n \<and> length n \<le> 120)"

definition ean_ok :: "string \<Rightarrow> bool" where
  "ean_ok e \<longleftrightarrow> 8 \<le> length e \<and> length e \<le> 14 \<and> list_all (\<lambda>c. c \<in> set ''0123456789'') e"

definition valid :: "bool \<Rightarrow> unit list_op" where
  "valid b = guard b (HttpError 422 ''validation_error'')"

definition route_create_list :: "clock \<Rightarrow> uuid \<Rightarrow> string option \<Rightarrow> uuid list_op" where
  "route_create_list ck u name = seq (valid (list_name_ok name)) (list_request (create_list ck u name))"

definition route_get_list :: "uuid \<Rightarrow> uuid \<Rightarrow> (list_row \<times> item_row list) list_op" where
  "route_get_list i u = list_request (get_shopping_list i u)"

definition route_update_list :: "clock \<Rightarrow> uuid \<Rightarrow> uuid \<Rightarrow> string \<Rightarrow> unit list_op" where
  "route_update_list ck i u name = seq (valid (list_name_ok (Some name))) (list_request (update_shopping_list ck i u name))"

definition route_delete_list :: "uuid \<Rightarrow> uuid \<Rightarrow> unit list_op" where
  "route_delete_list i u = list_request (delete_shopping_list i u)"

definition route_add_item :: "optimiser_cfg \<Rightarrow> clock \<Rightarrow> uuid \<Rightarrow> uuid \<Rightarrow> string \<Rightarrow> rat \<Rightarrow> uuid list_op" where
  "route_add_item cfg ck i u ean quantity =
     seq (valid (ean_ok ean \<and> 0 < quantity)) (list_request (add_item_to_list cfg ck i u ean quantity))"

definition route_update_item :: "optimiser_cfg \<Rightarrow> clock \<Rightarrow> uuid \<Rightarrow> uuid \<Rightarrow> uuid \<Rightarrow> rat option \<Rightarrow> bool option \<Rightarrow> item_row list_op" where
  "route_update_item cfg ck i k u quantity checked =
     seq (valid (case quantity of None \<Rightarrow> True | Some q \<Rightarrow> 0 < q)) (list_request (update_item cfg ck i k u quantity checked))"

definition route_delete_item :: "clock \<Rightarrow> uuid \<Rightarrow> uuid \<Rightarrow> uuid \<Rightarrow> unit list_op" where
  "route_delete_item ck i k u = list_request (delete_item ck i k u)"

definition route_save_as_template :: "optimiser_cfg \<Rightarrow> clock \<Rightarrow> uuid \<Rightarrow> uuid \<Rightarrow> uuid list_op" where
  "route_save_as_template cfg ck i u = list_request (save_as_template cfg ck i u)"

definition route_from_template :: "clock \<Rightarrow> uuid \<Rightarrow> uuid \<Rightarrow> string option \<Rightarrow> uuid list_op" where
  "route_from_template ck t u name = seq (valid (list_name_ok name)) (list_request (create_from_template ck t u name))"

definition route_clear_list :: "clock \<Rightarrow> uuid \<Rightarrow> uuid \<Rightarrow> unit list_op" where
  "route_clear_list ck i u = list_request (clear_list ck i u)"

definition route_scan_check :: "clock \<Rightarrow> uuid \<Rightarrow> uuid \<Rightarrow> string \<Rightarrow> scan_check_result list_op" where
  "route_scan_check ck i u ean = seq (valid (ean_ok ean)) (list_request (scan_check ck i u ean))"

definition generate_suggestions :: "optimiser_cfg \<Rightarrow> dbl \<Rightarrow> clock \<Rightarrow> uuid \<Rightarrow> uuid \<Rightarrow> (suggestion list \<times> int) list_op" where
  "generate_suggestions cfg threshold ck u i = catch (db_transaction (generate_and_add_to_list cfg threshold ck u i))
     (\<lambda>e. throw (if e = NotEligible then HttpError 422 ''not_eligible''
        else if e = ListNotFound then HttpError 404 ''list_not_found'' else e))"

end
