(* ===== verification/Ratis_ListSafety.thy ===== *)
theory Ratis_ListSafety
  imports Ratis_Lists
begin

text \<open>
  What the list service guarantees: the invariant of its tables, along any sequence of requests; that requests of one user never
  change the lists of another; the round trip through a template; and when a list can be deleted.
\<close>

section \<open>The invariant\<close>

definition item_ok :: "uuid \<Rightarrow> item_row \<Rightarrow> bool" where
  "item_ok n r \<longleftrightarrow> it_id r < n \<and> it_list_id r < n \<and> 0 < it_quantity r \<and> it_quantity r < 10 ^ 10
     \<and> (it_checked r \<longleftrightarrow> it_checked_at r \<noteq> None)"

definition lists_ok :: "int \<Rightarrow> list_db \<Rightarrow> bool" where
  "lists_ok nmax s \<longleftrightarrow>
     distinct (map li_id (shopping_lists s)) \<and> (\<forall>l \<in> set (shopping_lists s). li_id l < next_id s)
     \<and> distinct (map it_id (shopping_list_items s)) \<and> (\<forall>r \<in> set (shopping_list_items s). item_ok (next_id s) r)
     \<and> distinct (map (\<lambda>r. (it_list_id r, it_product_ean r)) (shopping_list_items s))
     \<and> (\<forall>i. int (length (items_of s i)) \<le> nmax)"

lemma new_id_run [simp]: "new_id s = (Inr (next_id s), s\<lparr> next_id := Suc (next_id s) \<rparr>)"
  by (simp add: new_id_def bnd_def seq_def)

lemma bnd_new_id [simp]: "bnd new_id f s = f (next_id s) (s\<lparr> next_id := Suc (next_id s) \<rparr>)"
  by (simp add: bnd_def)

lemma owned_list_Inr:
  "owned_list i u s = (Inr sl, t) \<longleftrightarrow> get_list s i = Some sl \<and> li_user_id sl = u \<and> t = s"
  by (auto simp: owned_list_def assert_owner_def split: option.splits if_splits)

lemma get_list_in: "get_list s i = Some sl \<Longrightarrow> sl \<in> set (shopping_lists s) \<and> li_id sl = i"
  unfolding get_list_def by (rule find_Some_in)

lemma get_item_in: "get_item s k = Some r \<Longrightarrow> r \<in> set (shopping_list_items s) \<and> it_id r = k"
  unfolding get_item_def by (rule find_Some_in)

definition new_item :: "uuid \<Rightarrow> uuid \<Rightarrow> string \<Rightarrow> int \<Rightarrow> item_row" where
  "new_item k i ean q = \<lparr> it_id = k, it_list_id = i, it_product_ean = ean, it_quantity = q, it_checked = False, it_checked_at = None \<rparr>"

lemma new_item_sel [simp]: "it_id (new_item k i e q) = k" "it_list_id (new_item k i e q) = i" "it_product_ean (new_item k i e q) = e"
    "it_quantity (new_item k i e q) = q" "it_checked (new_item k i e q) = False" "it_checked_at (new_item k i e q) = None"
  by (simp_all add: new_item_def)

lemma add_item_Inr:
  "add_item i ean q s = (Inr k, t) \<longleftrightarrow> 0 < q \<and> q < 10 ^ 10 \<and> \<not> item_exists s i ean \<and> k = next_id s
     \<and> t = s\<lparr> next_id := Suc (next_id s), shopping_list_items := shopping_list_items s @ [new_item (next_id s) i ean q] \<rparr>"
  by (auto simp: add_item_def insert_item_def fits_numeric_10_3_def item_exists_def items_of_def list_ex_iff new_item_def
      seq_Inr_iff bnd_Inr_iff split: if_splits)

lemma items_of_append [simp]:
  "items_of (s\<lparr> next_id := n, shopping_list_items := xs @ ys \<rparr>) j = filter (\<lambda>r. it_list_id r = j) xs @ filter (\<lambda>r. it_list_id r = j) ys"
  by (simp add: items_of_def)

lemma lists_ok_add:
  assumes "lists_ok nmax s" and "i < next_id s" and "count_items s i < nmax" and "add_item i ean q s = (Inr k, t)"
  shows "lists_ok nmax t"
  using assms by (auto simp: add_item_Inr lists_ok_def item_ok_def item_exists_def items_of_def list_ex_iff count_items_def less_Suc_eq)

text \<open>Rows of lists change their other columns only.\<close>

lemma lists_ok_set_list:
  assumes "lists_ok nmax s" and "\<And>r. li_id (f r) = li_id r"
  shows "lists_ok nmax (s\<lparr> shopping_lists := update_where p f (shopping_lists s) \<rparr>)"
  using assms by (auto simp: lists_ok_def items_of_def set_update_where map_update_where)

lemma preserves_set_list: "(\<And>r. li_id (f r) = li_id r) \<Longrightarrow> keeps (lists_ok nmax) (set_list ck i f)"
  unfolding set_list_def by (intro keeps_modify lists_ok_set_list) simp_all

lemma keeps_touch: "keeps (lists_ok nmax) (touch_list ck i)"
  unfolding touch_list_def by (intro preserves_set_list) simp

lemma lists_ok_set_items:
  assumes "lists_ok nmax s" and "\<And>r. it_id (f r) = it_id r \<and> it_list_id (f r) = it_list_id r \<and> it_product_ean (f r) = it_product_ean r"
    and "\<And>r. r \<in> set (shopping_list_items s) \<Longrightarrow> p r \<Longrightarrow> item_ok (next_id s) (f r)"
  shows "lists_ok nmax (s\<lparr> shopping_list_items := update_where p f (shopping_list_items s) \<rparr>)"
proof -
  have "filter (\<lambda>r. it_list_id r = i) (update_where p f xs) = update_where p f (filter (\<lambda>r. it_list_id r = i) xs)" for i xs
    by (induction xs) (auto simp: assms(2))
  then show ?thesis using assms by (auto simp: lists_ok_def items_of_def set_update_where map_update_where)
qed

lemma lists_ok_filter_items:
  assumes "lists_ok nmax s"
  shows "lists_ok nmax (s\<lparr> shopping_list_items := filter p (shopping_list_items s) \<rparr>)"
proof -
  have "length (filter (\<lambda>r. it_list_id r = i) (filter p xs)) \<le> length (filter (\<lambda>r. it_list_id r = i) xs)" for i and xs :: "item_row list"
    by (induction xs) (auto intro: le_SucI)
  moreover have "int (length (filter (\<lambda>r. it_list_id r = i) (shopping_list_items s))) \<le> nmax" for i
    using assms by (simp add: lists_ok_def items_of_def)
  ultimately have "int (length (items_of (s\<lparr> shopping_list_items := filter p (shopping_list_items s) \<rparr>) i)) \<le> nmax" for i
    unfolding items_of_def by (simp del: filter_filter) (meson of_nat_mono order_trans)
  then show ?thesis using assms by (auto simp: lists_ok_def distinct_map inj_on_def)
qed


section \<open>Copies\<close>

fun copies :: "uuid \<Rightarrow> uuid \<Rightarrow> item_row list \<Rightarrow> item_row list" where
  "copies i n [] = []"
| "copies i n (r # rs) = new_item n i (it_product_ean r) (it_quantity r) # copies i (Suc n) rs"

definition copied :: "uuid \<Rightarrow> item_row list \<Rightarrow> list_db \<Rightarrow> list_db" where
  "copied i xs s = s\<lparr> next_id := next_id s + length xs, shopping_list_items := shopping_list_items s @ copies i (next_id s) xs \<rparr>"

lemma copy_items_run:
  "distinct (map it_product_ean xs) \<Longrightarrow> (\<And>r. r \<in> set xs \<Longrightarrow> 0 < it_quantity r \<and> it_quantity r < 10 ^ 10) \<Longrightarrow>
     (\<And>r. r \<in> set xs \<Longrightarrow> \<not> item_exists s i (it_product_ean r)) \<Longrightarrow> copy_items i xs s = (Inr (), copied i xs s)"
proof (induction xs arbitrary: s)
  case Nil
  then show ?case by (simp add: copy_items_def copied_def)
next
  case (Cons r xs)
  let ?s = "s\<lparr> next_id := Suc (next_id s), shopping_list_items := shopping_list_items s @
      [new_item (next_id s) i (it_product_ean r) (it_quantity r)] \<rparr>"
  have add: "add_item i (it_product_ean r) (it_quantity r) s = (Inr (next_id s), ?s)"
    using Cons.prems by (simp add: add_item_Inr)
  have "copy_items i xs ?s = (Inr (), copied i xs ?s)"
  proof (rule Cons.IH)
    fix x assume "x \<in> set xs"
    with Cons.prems show "\<not> item_exists ?s i (it_product_ean x)"
      by (force simp: item_exists_def items_of_def list_ex_iff)
  qed (use Cons.prems in simp_all)
  then show ?case using add by (simp add: copy_items_def bnd_def void_def seq_def copied_def)
qed

lemma copies_facts:
  "map it_product_ean (copies i n xs) = map it_product_ean xs" "map it_quantity (copies i n xs) = map it_quantity xs"
  "length (copies i n xs) = length xs" "r \<in> set (copies i n xs) \<Longrightarrow> it_list_id r = i \<and> \<not> it_checked r \<and> it_checked_at r = None"
  "map it_id (copies i n xs) = [n..<n + length xs]"
  by (induction xs arbitrary: n) (auto simp: upt_rec)

lemma items_of_copied: "items_of (copied i xs s) j = items_of s j @ (if j = i then copies i (next_id s) xs else [])"
proof -
  have "filter (\<lambda>r. it_list_id r = j) (copies i n xs) = (if j = i then copies i n xs else [])" for n
    using copies_facts(4) [of _ i n xs] by (auto simp: filter_empty_conv intro: filter_True)
  then show ?thesis by (simp add: copied_def items_of_def)
qed

section \<open>Every operation keeps the invariant\<close>

lemma lists_ok_fresh: "lists_ok nmax s \<Longrightarrow> lists_ok nmax (s\<lparr> next_id := Suc (next_id s) \<rparr>)"
  by (auto simp: lists_ok_def item_ok_def items_of_def less_Suc_eq)

lemma preserves_create_list: "preserves (lists_ok nmax) (create_list ck u name)"
  by (rule preservesI) (auto simp: create_list_def insert_list_def lists_ok_def item_ok_def items_of_def less_Suc_eq)

lemma preserves_add: "preserves (lists_ok (oc_max_items_per_list cfg)) (add_item_to_list cfg ck i u ean q)"
proof (rule preservesI)
  fix s k t assume ok: "lists_ok (oc_max_items_per_list cfg) s" and run: "add_item_to_list cfg ck i u ean q s = (Inr k, t)"
  then obtain sl s1 where sl: "get_list s i = Some sl" and n: "count_items s i < oc_max_items_per_list cfg"
    and add: "add_item i ean (numeric_10_3 q) s = (Inr k, s1)" and touch: "touch_list ck i s1 = (Inr (), t)"
    by (auto simp: add_item_to_list_def validate_quantity_def seq_Inr_iff bnd_Inr_iff owned_list_Inr split: if_splits)
  have "i < next_id s" using get_list_in [OF sl] ok by (auto simp: lists_ok_def)
  from keepsD [OF keeps_touch lists_ok_add [OF ok this n add] touch] show "lists_ok (oc_max_items_per_list cfg) t" .
qed

lemma preserves_update_item: "preserves (lists_ok nmax) (update_item cfg ck i k u q c)"
proof (rule preservesI)
  fix s res t assume ok: "lists_ok nmax s" and run: "update_item cfg ck i k u q c s = (Inr res, t)"
  then obtain r s1 where r: "get_item s k = Some r" and touch: "touch_list ck i s = (Inr (), s1)"
    and q: "0 < it_quantity (set_item ck q c r)" "it_quantity (set_item ck q c r) < 10 ^ 10"
    and t: "t = s1\<lparr> shopping_list_items := update_where (\<lambda>x. it_id x = k) (set_item ck q c) (shopping_list_items s1) \<rparr>"
    by (auto simp: update_item_def validate_quantity_def fits_numeric_10_3_def Let_def seq_Inr_iff bnd_Inr_iff owned_list_Inr split: option.splits if_splits)
  have s1: "lists_ok nmax s1" "shopping_list_items s1 = shopping_list_items s" "next_id s1 = next_id s"
    using keepsD [OF keeps_touch ok touch] touch by (auto simp: touch_list_def set_list_def)
  show "lists_ok nmax t" unfolding t
  proof (rule lists_ok_set_items [OF s1(1)])
    fix x assume "x \<in> set (shopping_list_items s1)" "it_id x = k"
    then have "x = r" using ok get_item_in [OF r] s1(2) by (auto simp: lists_ok_def distinct_map inj_on_def)
    then show "item_ok (next_id s1) (set_item ck q c x)"
      using ok q get_item_in [OF r] s1(3) by (auto simp: lists_ok_def item_ok_def set_item_def Let_def split: option.splits)
  qed (auto simp: set_item_def Let_def split: option.splits)
qed

lemma keeps_delete_item: "keeps (lists_ok nmax) (delete_item ck i k u)"
  unfolding delete_item_def repo_delete_item_def owned_list_def assert_owner_def
  by (intro keeps_intro keeps_modify lists_ok_filter_items keeps_touch)

lemma keeps_clear_list: "keeps (lists_ok nmax) (clear_list ck i u)"
  unfolding clear_list_def clear_items_def owned_list_def assert_owner_def
  by (intro keeps_intro keeps_modify lists_ok_filter_items keeps_touch)

lemma keeps_update_list: "keeps (lists_ok nmax) (update_shopping_list ck i u name)"
  unfolding update_shopping_list_def repo_update_list_def owned_list_def assert_owner_def
  by (intro keeps_intro preserves_set_list) simp

lemma keeps_delete_list: "keeps (lists_ok nmax) (delete_shopping_list i u)"
proof -
  have "lists_ok nmax s \<Longrightarrow> lists_ok nmax (s\<lparr> shopping_lists := filter (\<lambda>r. li_id r \<noteq> i) (shopping_lists s) \<rparr>)" for s
    by (auto simp: lists_ok_def items_of_def distinct_map inj_on_def)
  then show ?thesis unfolding delete_shopping_list_def repo_delete_list_def owned_list_def assert_owner_def
    by (intro keeps_intro keeps_modify)
qed

lemma keeps_scan_check: "keeps (lists_ok nmax) (scan_check ck i u ean)"
proof -
  have "lists_ok nmax s \<Longrightarrow> lists_ok nmax (s\<lparr> shopping_list_items := update_where (\<lambda>x. it_id x = k) (set_item ck None (Some True))
      (shopping_list_items s) \<rparr>)" for s k
    by (rule lists_ok_set_items) (auto simp: lists_ok_def item_ok_def set_item_def)
  then show ?thesis unfolding scan_check_def owned_list_def assert_owner_def
    by (intro keeps_intro keeps_modify keeps_touch)
qed

text \<open>Copying the items of a list into a new one returns, and keeps the invariant.\<close>

lemma lists_ok_source:
  assumes "lists_ok nmax s"
  shows "int (length (items_of s i)) \<le> nmax" and "distinct (map it_product_ean (items_of s i))" and "\<And>r. r \<in> set (items_of s i) \<Longrightarrow> 0 < it_quantity r \<and> it_quantity r < 10 ^ 10"
  using assms by (auto simp: lists_ok_def items_of_def item_ok_def distinct_map inj_on_def)

lemma lists_ok_items_below: "lists_ok nmax s \<Longrightarrow> next_id s \<le> i \<Longrightarrow> items_of s i = []"
  by (auto simp: lists_ok_def items_of_def item_ok_def filter_empty_conv)

lemma copy_into_new:
  assumes ok: "lists_ok nmax s" and l: "li_id l = next_id s"
  defines "s1 \<equiv> s\<lparr> next_id := Suc (next_id s), shopping_lists := shopping_lists s @ [l] \<rparr>"
  shows "copy_items (next_id s) (items_of s i) s1 = (Inr (), copied (next_id s) (items_of s i) s1)"
    and "lists_ok nmax (copied (next_id s) (items_of s i) s1)"
proof -
  note src = lists_ok_source(2,3,1) [OF ok, where i = i]
  have none: "items_of s1 (next_id s) = []" using lists_ok_items_below [OF ok, of "next_id s"] by (simp add: items_of_def s1_def)
  then have "\<not> item_exists s1 (next_id s) e" for e by (simp add: item_exists_def)
  then show "copy_items (next_id s) (items_of s i) s1 = (Inr (), copied (next_id s) (items_of s i) s1)"
    using src by (intro copy_items_run) simp_all
  let ?c = "copies (next_id s) (Suc (next_id s)) (items_of s i)" and ?n = "Suc (next_id s) + length (items_of s i)"
  have below: "item_ok (next_id s) r" if "r \<in> set (shopping_list_items s)" for r using ok that by (simp add: lists_ok_def)
  have c_ok: "item_ok ?n r" if "r \<in> set ?c" for r
  proof -
    have "it_quantity r \<in> it_quantity ` set (items_of s i)" using that copies_facts(2) [of "next_id s" "Suc (next_id s)"] by (metis list.set_map image_eqI)
    then have "0 < it_quantity r \<and> it_quantity r < 10 ^ 10" using src(2) by auto
    moreover have "it_id r \<in> set (map it_id ?c)" using that by simp
    then have "it_id r < ?n" unfolding copies_facts(5) by auto
    ultimately show ?thesis using copies_facts(4) [OF that] by (simp add: item_ok_def)
  qed
  have ids: "distinct (map it_id (shopping_list_items s @ ?c))"
  proof -
    have "it_id r \<notin> set (map it_id ?c)" if "r \<in> set (shopping_list_items s)" for r
      unfolding copies_facts(5) using below [OF that] by (simp add: item_ok_def)
    then show ?thesis using ok unfolding map_append distinct_append copies_facts(5) by (auto simp: lists_ok_def)
  qed
  have keys: "distinct (map (\<lambda>r. (it_list_id r, it_product_ean r)) (shopping_list_items s @ ?c))"
  proof -
    have "map (\<lambda>r. (it_list_id r, it_product_ean r)) ?c = map (Pair (next_id s)) (map it_product_ean ?c)"
      using copies_facts(4) [of _ "next_id s"] by (auto intro!: map_cong)
    then have "distinct (map (\<lambda>r. (it_list_id r, it_product_ean r)) ?c)"
      using src(1) by (simp add: copies_facts(1) distinct_map inj_on_def)
    moreover have "it_list_id r \<noteq> it_list_id x" if "r \<in> set (shopping_list_items s)" "x \<in> set ?c" for r x
      using below [OF that(1)] copies_facts(4) [OF that(2)] by (simp add: item_ok_def)
    ultimately show ?thesis using ok by (auto simp: lists_ok_def)
  qed
  have size: "int (length (items_of (copied (next_id s) (items_of s i) s1) j)) \<le> nmax" for j
    using none src(3) lists_ok_source(1) [OF ok, where i = j]
    by (simp add: items_of_copied copies_facts(3)) (simp add: items_of_def s1_def)
  have "item_ok ?n r" if "r \<in> set (shopping_list_items s)" for r using below [OF that] by (simp add: item_ok_def)
  with c_ok ids keys size ok l show "lists_ok nmax (copied (next_id s) (items_of s i) s1)"
    by (auto simp: lists_ok_def copied_def s1_def less_Suc_eq)
qed

lemma save_as_template_Inr:
  assumes ok: "lists_ok nmax s" and run: "save_as_template cfg ck i u s = (Inr j, t)"
  obtains l where "li_id l = next_id s" and "li_user_id l = u" and "li_is_template l" and "j = next_id s"
    and "t = copied (next_id s) (items_of s i) (s\<lparr> next_id := Suc (next_id s), shopping_lists := shopping_lists s @ [l] \<rparr>)"
    and "get_list s i \<noteq> None" and "lists_ok nmax t"
proof -
  from run obtain sl where sl: "get_list s i = Some sl" "\<not> li_is_template sl"
    and copy: "copy_items (next_id s) (items_of s i) (s\<lparr> next_id := Suc (next_id s), shopping_lists := shopping_lists s @
       [\<lparr> li_id = next_id s, li_user_id = u, li_name = li_name sl, li_has_default_name = li_has_default_name sl,
          li_is_template = True, li_created_at = now ck, li_updated_at = now ck \<rparr>] \<rparr>) = (Inr (), t)" and j: "j = next_id s"
    by (auto simp: save_as_template_def get_shopping_list_def bnd_Inr_iff owned_list_Inr seq_Inr_iff insert_list_def split: if_splits)
  let ?l = "\<lparr> li_id = next_id s, li_user_id = u, li_name = li_name sl, li_has_default_name = li_has_default_name sl,
          li_is_template = True, li_created_at = now ck, li_updated_at = now ck \<rparr>"
  from copy_into_new [OF ok, of ?l i] copy sl(1) j show thesis by (intro that [of ?l]) simp_all
qed

lemma create_from_template_run:
  assumes ok: "lists_ok nmax s" and sl: "get_list s i = Some sl" "li_user_id sl = u" "li_is_template sl"
  obtains l where "li_id l = next_id s" and "create_from_template ck i u name s = (Inr (next_id s),
       copied (next_id s) (items_of s i) (s\<lparr> next_id := Suc (next_id s), shopping_lists := shopping_lists s @ [l] \<rparr>))"
    and "lists_ok nmax (copied (next_id s) (items_of s i) (s\<lparr> next_id := Suc (next_id s), shopping_lists := shopping_lists s @ [l] \<rparr>))"
proof -
  let ?l = "\<lparr> li_id = next_id s, li_user_id = u, li_name = (case name of None \<Rightarrow> '''' | Some n \<Rightarrow> n),
         li_has_default_name = (name = None \<or> name = Some ''''), li_is_template = False,
         li_created_at = now ck, li_updated_at = now ck \<rparr>"
  let ?s = "s\<lparr> next_id := Suc (next_id s), shopping_lists := shopping_lists s @ [?l] \<rparr>"
  have l: "li_id ?l = next_id s" by simp
  note c = copy_into_new [OF ok l, of i]
  have "owned_list i u s = (Inr sl, s)" using sl by (simp add: owned_list_Inr)
  then have "create_from_template ck i u name s = seq (copy_items (next_id s) (items_of s i)) (ret (next_id s))
      (s\<lparr> next_id := Suc (next_id s), shopping_lists := shopping_lists s @ [?l] \<rparr>)"
    using sl(3) by (simp add: create_from_template_def get_shopping_list_def create_list_def insert_list_def bnd_run_Inr [of "owned_list i u"])
  also have "\<dots> = ret (next_id s) (copied (next_id s) (items_of s i) ?s)"
    by (rule seq_run_Inr [of "copy_items (next_id s) (items_of s i)" ?s, OF c(1)])
  finally show thesis using c(2) l by (intro that [of ?l]) simp_all
qed

lemma preserves_save_as_template: "preserves (lists_ok nmax) (save_as_template cfg ck i u)"
  by (rule preservesI) (erule (1) save_as_template_Inr)

lemma preserves_create_from_template: "preserves (lists_ok nmax) (create_from_template ck i u name)"
proof (rule preservesI)
  fix s j t assume ok: "lists_ok nmax s" and run: "create_from_template ck i u name s = (Inr j, t)"
  then obtain sl where sl: "get_list s i = Some sl" "li_user_id sl = u" "li_is_template sl"
    by (auto simp: create_from_template_def get_shopping_list_def bnd_Inr_iff owned_list_Inr split: if_splits)
  from create_from_template_run [OF ok sl, of ck name] run show "lists_ok nmax t" by (metis prod.inject)
qed

lemma preserves_suggestions: "preserves (lists_ok (oc_max_items_per_list cfg)) (add_suggestions cfg ck i u gs n)"
proof (induction gs arbitrary: n)
  case (Cons g gs)
  have *: "add_item_to_list cfg ck i u e q s = (Inl x, t) \<Longrightarrow> x = ItemAlreadyInList \<or> x = ListFull \<Longrightarrow> t = s" for e q s x t
    by (auto simp: add_item_to_list_def add_item_def insert_item_def fits_numeric_10_3_def validate_quantity_def owned_list_def assert_owner_def
        touch_list_def set_list_def bnd_Inl_iff seq_Inl_iff split: if_splits option.splits)
  show ?case
  proof (rule preservesI)
    fix s m t assume ok: "lists_ok (oc_max_items_per_list cfg) s" and run: "add_suggestions cfg ck i u (g # gs) n s = (Inr m, t)"
    obtain x s1 where add: "add_item_to_list cfg ck i u (sg_product_ean g) 1 s = (x, s1)" by force
    show "lists_ok (oc_max_items_per_list cfg) t"
    proof (cases x)
      case (Inl e)
      with run add * [of "sg_product_ean g" 1 s e s1] ok Cons show ?thesis by (auto split: if_splits dest: preservesD)
    next
      case (Inr k)
      with preservesD [OF preserves_add ok] add have "lists_ok (oc_max_items_per_list cfg) s1" by blast
      with run add Inr Cons show ?thesis by (auto dest: preservesD)
    qed
  qed
qed simp

text \<open>The requests of the service.\<close>

datatype list_cmd =
    CreateList clock uuid "string option" | UpdateList clock uuid uuid string | DeleteList uuid uuid
  | AddItem clock uuid uuid string rat | UpdateItem clock uuid uuid uuid "rat option" "bool option"
  | DeleteItem clock uuid uuid uuid | SaveTemplate clock uuid uuid | FromTemplate clock uuid uuid "string option"
  | ClearList clock uuid uuid | ScanCheck clock uuid uuid string | Suggest clock uuid uuid

fun list_step :: "optimiser_cfg \<Rightarrow> dbl \<Rightarrow> list_cmd \<Rightarrow> unit list_op" where
  "list_step cfg th (CreateList ck u name) = void (route_create_list ck u name)"
| "list_step cfg th (UpdateList ck i u name) = route_update_list ck i u name"
| "list_step cfg th (DeleteList i u) = route_delete_list i u"
| "list_step cfg th (AddItem ck i u ean q) = void (route_add_item cfg ck i u ean q)"
| "list_step cfg th (UpdateItem ck i k u q c) = void (route_update_item cfg ck i k u q c)"
| "list_step cfg th (DeleteItem ck i k u) = route_delete_item ck i k u"
| "list_step cfg th (SaveTemplate ck i u) = void (route_save_as_template cfg ck i u)"
| "list_step cfg th (FromTemplate ck t u name) = void (route_from_template ck t u name)"
| "list_step cfg th (ClearList ck i u) = route_clear_list ck i u"
| "list_step cfg th (ScanCheck ck i u ean) = void (route_scan_check ck i u ean)"
| "list_step cfg th (Suggest ck u i) = void (generate_suggestions cfg th ck u i)"

lemma keeps_request: "preserves I m \<Longrightarrow> keeps I (list_request m)"
  unfolding list_request_def by (intro keeps_catch preserves_transaction keeps_throw)

lemma keeps_valid: "keeps I (valid b)"
  by (simp add: valid_def)

lemmas list_routes = route_create_list_def route_update_list_def route_delete_list_def route_add_item_def route_update_item_def
  route_delete_item_def route_save_as_template_def route_from_template_def route_clear_list_def route_scan_check_def

lemma keeps_generate: "keeps (lists_ok (oc_max_items_per_list cfg)) (generate_suggestions cfg th ck u i)"
  unfolding generate_suggestions_def
proof (intro keeps_catch preserves_transaction keeps_throw)
  show "preserves (lists_ok (oc_max_items_per_list cfg)) (generate_and_add_to_list cfg th ck u i)"
    unfolding generate_and_add_to_list_def suggest_products_def owned_list_def assert_owner_def split_def
    by (intro preserves_intro preserves_suggestions)
qed

lemma keeps_list_step: "keeps (lists_ok (oc_max_items_per_list cfg)) (list_step cfg th c)"
  by (cases c)
    (simp_all add: list_routes keeps_void keeps_seq keeps_valid keeps_request keeps_generate preserves_create_list preserves_add
      preserves_update_item preserves_save_as_template preserves_create_from_template keeps_preserves keeps_update_list
      keeps_delete_list keeps_delete_item keeps_clear_list keeps_scan_check)

interpretation list_service: kept_invariant "list_step cfg th" "lists_ok (oc_max_items_per_list cfg)" for cfg th
  by unfold_locales (rule keeps_snd [OF keeps_list_step])


definition list_demo_cfg :: optimiser_cfg where
  "list_demo_cfg = \<lparr> oc_min_items_per_store = 3, oc_suggestion_min_receipts = 3, oc_suggestion_threshold = 1 / 2,
     oc_route_expiry_hours = 48, oc_national_avg_min = 5, oc_max_items_per_list = 100, oc_max_stores_in_route = 4,
     oc_max_quantity = 30, oc_max_templates = 3, oc_default_radius = 5, oc_default_transport = ''driving'', oc_stuck_minutes = 10 \<rparr>"

definition list_clock :: clock where
  "list_clock = \<lparr> now = 20000 * day_us, tzdb = (\<lambda>_. None), paris = id \<rparr>"

definition list_demo :: list_db where
  "list_demo = \<lparr> next_id = 10, shopping_lists = [\<lparr> li_id = 1, li_user_id = 7, li_name = ''week'', li_has_default_name = False,
       li_is_template = False, li_created_at = 0, li_updated_at = 0 \<rparr>],
     shopping_list_items = [new_item 2 1 ''30000001'' 2500, new_item 3 1 ''30000002'' 1000],
     optimized_routes = [], catalogue = [\<lparr> lp_ean = ''30000003'', lp_name = ''tea'', lp_categories_tags = None, lp_storage_type = None,
       lp_source = ''off'', lp_unit = None \<rparr>], store_table = [], consensus = [], receipt_scans = [],
     user_preferences = (\<lambda>_. None), excluded_stores = [], reference_points = (\<lambda>_. None) \<rparr>"

lemma list_demo_ok: "lists_ok (oc_max_items_per_list list_demo_cfg) list_demo"
  by (simp add: lists_ok_def list_demo_def list_demo_cfg_def item_ok_def items_of_def)



section \<open>Lists of other users\<close>

fun cmd_user :: "list_cmd \<Rightarrow> uuid" where
  "cmd_user (CreateList ck u name) = u"
| "cmd_user (UpdateList ck i u name) = u"
| "cmd_user (DeleteList i u) = u"
| "cmd_user (AddItem ck i u ean q) = u"
| "cmd_user (UpdateItem ck i k u q c) = u"
| "cmd_user (DeleteItem ck i k u) = u"
| "cmd_user (SaveTemplate ck i u) = u"
| "cmd_user (FromTemplate ck t u name) = u"
| "cmd_user (ClearList ck i u) = u"
| "cmd_user (ScanCheck ck i u ean) = u"
| "cmd_user (Suggest ck u i) = u"

text \<open>A list as its owner sees it.\<close>

definition shows_list :: "uuid \<Rightarrow> list_row \<Rightarrow> item_row list \<Rightarrow> list_db \<Rightarrow> bool" where
  "shows_list i l xs s \<longleftrightarrow> get_list s i = Some l \<and> items_of s i = xs"

lemma request_untouched:
  assumes "P s" and "\<And>x t. m s = (Inr x, t) \<Longrightarrow> P t"
  shows "P (snd (list_request m s))"
  using assms by (auto simp: list_request_def catch_def db_transaction_def split: prod.splits sum.splits)

lemma snd_valid: "snd (seq (valid b) m s) = (if b then snd (m s) else s)"
  by (simp add: valid_def)

lemma owned_other:
  "owned_list j u s = (Inr sl, t) \<Longrightarrow> shows_list i l xs s \<Longrightarrow> li_user_id l \<noteq> u \<Longrightarrow> t = s \<and> j \<noteq> i"
  by (auto simp: owned_list_Inr shows_list_def)

lemma other_set_list: "j \<noteq> i \<Longrightarrow> (\<And>r. li_id (f r) = li_id r) \<Longrightarrow> keeps (shows_list i l xs) (set_list ck j f)"
  unfolding set_list_def by (rule keeps_modify) (auto simp: shows_list_def get_list_def find_update_where_key items_of_def)

lemma other_touch: "j \<noteq> i \<Longrightarrow> keeps (shows_list i l xs) (touch_list ck j)"
  unfolding touch_list_def by (rule other_set_list) simp_all

lemma other_add: "j \<noteq> i \<Longrightarrow> preserves (shows_list i l xs) (add_item j ean q)"
  by (rule preservesI) (auto simp: add_item_Inr shows_list_def get_list_def items_of_def)

lemma other_copy: "j \<noteq> i \<Longrightarrow> shows_list i l xs s \<Longrightarrow> shows_list i l xs (copied j ys s)"
  by (simp add: shows_list_def items_of_copied) (simp add: copied_def get_list_def)

lemma other_new_list:
  assumes "shows_list i l xs s"
  shows "shows_list i l xs (s\<lparr> next_id := n, shopping_lists := shopping_lists s @ [r] \<rparr>)"
  using assms by (simp add: shows_list_def get_list_def find_append items_of_def)

lemma other_items:
  assumes ok: "lists_ok nmax s" and r: "get_item s k = Some r" "it_list_id r = j" "j \<noteq> i"
  shows "shows_list i l xs (s\<lparr> shopping_list_items := filter (\<lambda>x. it_id x \<noteq> k) (shopping_list_items s) \<rparr>) = shows_list i l xs s"
    and "(\<And>x. it_list_id (f x) = it_list_id x) \<Longrightarrow>
      shows_list i l xs (s\<lparr> shopping_list_items := update_where (\<lambda>x. it_id x = k) f (shopping_list_items s) \<rparr>) = shows_list i l xs s"
proof -
  have only: "it_list_id x = j" if "x \<in> set (shopping_list_items s)" "it_id x = k" for x
    using ok get_item_in [OF r(1)] r(2) that by (auto simp: lists_ok_def distinct_map inj_on_def)
  have "filter (\<lambda>x. it_list_id x = i) (filter (\<lambda>x. it_id x \<noteq> k) (shopping_list_items s)) = filter (\<lambda>x. it_list_id x = i) (shopping_list_items s)"
    using only r(3) by (auto intro!: filter_cong)
  then show "shows_list i l xs (s\<lparr> shopping_list_items := filter (\<lambda>x. it_id x \<noteq> k) (shopping_list_items s) \<rparr>) = shows_list i l xs s"
    by (simp add: shows_list_def get_list_def items_of_def)
  assume f: "\<And>x. it_list_id (f x) = it_list_id x"
  have "filter (\<lambda>x. it_list_id x = i) (update_where (\<lambda>x. it_id x = k) f ys) = filter (\<lambda>x. it_list_id x = i) ys"
    if "set ys \<subseteq> set (shopping_list_items s)" for ys
    using that by (induction ys) (use only r(3) f in auto)
  then show "shows_list i l xs (s\<lparr> shopping_list_items := update_where (\<lambda>x. it_id x = k) f (shopping_list_items s) \<rparr>) = shows_list i l xs s"
    by (simp add: shows_list_def get_list_def items_of_def)
qed

lemma other_add_to_list:
  assumes "shows_list i l xs s" and "li_user_id l \<noteq> u" and "add_item_to_list cfg ck j u e q s = (Inr k, t)"
  shows "shows_list i l xs t"
proof -
  from assms(3) obtain sl s1 where j: "owned_list j u s = (Inr sl, s)" and add: "add_item j e (numeric_10_3 q) s = (Inr k, s1)"
    and touch: "touch_list ck j s1 = (Inr (), t)"
    by (auto simp: add_item_to_list_def validate_quantity_def seq_Inr_iff bnd_Inr_iff owned_list_Inr split: if_splits)
  from owned_other [OF j assms(1,2)] have "j \<noteq> i" by simp
  from keepsD [OF other_touch [OF this] preservesD [OF other_add [OF this] assms(1) add] touch] show ?thesis .
qed

lemma other_suggestions:
  "shows_list i l xs s \<Longrightarrow> li_user_id l \<noteq> u \<Longrightarrow> add_suggestions cfg ck j u gs n s = (Inr m, t) \<Longrightarrow> shows_list i l xs t"
proof (induction gs arbitrary: n s)
  case (Cons g gs)
  have *: "add_item_to_list cfg ck j u e q s = (Inl x, t) \<Longrightarrow> x = ItemAlreadyInList \<or> x = ListFull \<Longrightarrow> t = s" for e q s x t
    by (auto simp: add_item_to_list_def add_item_def insert_item_def fits_numeric_10_3_def validate_quantity_def owned_list_def assert_owner_def
        touch_list_def set_list_def bnd_Inl_iff seq_Inl_iff split: if_splits option.splits)
  obtain x s1 where add: "add_item_to_list cfg ck j u (sg_product_ean g) 1 s = (x, s1)" by force
  show ?case
  proof (cases x)
    case (Inl e)
    with Cons add * [of "sg_product_ean g" 1 s e s1] show ?thesis by (auto split: if_splits)
  next
    case (Inr k)
    with other_add_to_list [OF Cons.prems(1,2)] add have "shows_list i l xs s1" by blast
    with Cons add Inr show ?thesis by auto
  qed
qed simp

lemma other_owned_op:
  assumes "shows_list i l xs s" and "li_user_id l \<noteq> u" and "seq (owned_list j u) m s = (Inr x, t)"
    and "j \<noteq> i \<Longrightarrow> m s = (Inr x, t) \<Longrightarrow> shows_list i l xs t"
  shows "shows_list i l xs t"
proof -
  from assms(3) obtain sl s1 where o1: "owned_list j u s = (Inr sl, s1)" and m: "m s1 = (Inr x, t)" by (auto simp: seq_Inr_iff)
  from owned_other [OF o1 assms(1,2)] m assms(4) show ?thesis by simp
qed

lemma other_delete_list:
  assumes "shows_list i l xs s" and "li_user_id l \<noteq> u" and "delete_shopping_list j u s = (Inr x, t)"
  shows "shows_list i l xs t"
proof (rule other_owned_op [OF assms(1,2) assms(3) [unfolded delete_shopping_list_def]])
  assume "j \<noteq> i" and "repo_delete_list j s = (Inr x, t)"
  then have t: "t = s\<lparr> shopping_lists := filter (\<lambda>r. li_id r \<noteq> j) (shopping_lists s) \<rparr>"
    by (auto simp: repo_delete_list_def seq_Inr_iff split: if_splits)
  have "List.find (\<lambda>r. li_id r = i) (filter (\<lambda>r. li_id r \<noteq> j) ys) = List.find (\<lambda>r. li_id r = i) ys" for ys :: "list_row list"
    using \<open>j \<noteq> i\<close> by (induction ys) auto
  with assms(1) show "shows_list i l xs t" by (simp add: t shows_list_def get_list_def items_of_def)
qed

lemma other_update_item:
  assumes ok: "lists_ok nmax s" and "shows_list i l xs s" and "li_user_id l \<noteq> u" and "update_item cfg ck j k u q c s = (Inr x, t)"
  shows "shows_list i l xs t"
proof -
  from assms(4) obtain sl r where j: "owned_list j u s = (Inr sl, s)" and r: "get_item s k = Some r" "it_list_id r = j"
    and t: "t = (snd (touch_list ck j s))\<lparr> shopping_list_items := update_where (\<lambda>x. it_id x = k) (set_item ck q c) (shopping_list_items s) \<rparr>"
    by (auto simp: update_item_def validate_quantity_def fits_numeric_10_3_def Let_def touch_list_def set_list_def
        seq_Inr_iff bnd_Inr_iff owned_list_Inr split: option.splits if_splits)
  from owned_other [OF j assms(2,3)] have ji: "j \<noteq> i" by simp
  let ?s = "snd (touch_list ck j s)"
  have s: "shopping_list_items ?s = shopping_list_items s" by (simp add: touch_list_def set_list_def)
  have "shows_list i l xs ?s" by (rule keeps_snd [OF other_touch [OF ji] assms(2)])
  moreover have "lists_ok nmax ?s" by (rule keeps_snd [OF keeps_touch ok])
  moreover have "get_item ?s k = Some r" using r(1) by (simp add: get_item_def s)
  moreover have "it_list_id (set_item ck q c x) = it_list_id x" for x by (simp add: set_item_def Let_def split: option.splits)
  ultimately show ?thesis using other_items(2) [of nmax ?s k r j i "set_item ck q c"] r(2) ji by (simp add: t s)
qed

lemma other_delete_item:
  assumes ok: "lists_ok nmax s" and "shows_list i l xs s" and "li_user_id l \<noteq> u" and "delete_item ck j k u s = (Inr x, t)"
  shows "shows_list i l xs t"
proof -
  from assms(4) obtain sl r s1 where j: "owned_list j u s = (Inr sl, s)" and r: "get_item s k = Some r" "it_list_id r = j"
    and s1: "s1 = s\<lparr> shopping_list_items := filter (\<lambda>x. it_id x \<noteq> k) (shopping_list_items s) \<rparr>" and touch: "touch_list ck j s1 = (Inr x, t)"
    by (auto simp: delete_item_def repo_delete_item_def seq_Inr_iff owned_list_Inr split: option.splits if_splits)
  from owned_other [OF j assms(2,3)] have ji: "j \<noteq> i" by simp
  from keepsD [OF other_touch [OF ji] _ touch] show ?thesis using other_items(1) [OF ok r ji] assms(2) by (simp add: s1)
qed

lemma other_scan_check:
  assumes ok: "lists_ok nmax s" and "shows_list i l xs s" and "li_user_id l \<noteq> u" and "scan_check ck j u e s = (Inr x, t)"
  shows "shows_list i l xs t"
proof (rule other_owned_op [OF assms(2,3) assms(4) [unfolded scan_check_def]])
  assume ji: "j \<noteq> i" and run: "bnd (reads (\<lambda>s. find_item_by_ean s j e)) (\<lambda>row. case row of
         None \<Rightarrow> reads (\<lambda>s. NotInList (get_product s e))
       | Some r \<Rightarrow> if it_checked r then ret (AlreadyChecked r)
           else seq (modify (\<lambda>s. s\<lparr> shopping_list_items := update_where (\<lambda>x. it_id x = it_id r) (set_item ck None (Some True))
                    (shopping_list_items s) \<rparr>))
             (seq (touch_list ck j) (ret (Checked (set_item ck None (Some True) r))))) s = (Inr x, t)"
  show "shows_list i l xs t"
  proof (cases "find_item_by_ean s j e")
    case None
    with run assms(2) show ?thesis by simp
  next
    case (Some r)
    then have r: "r \<in> set (shopping_list_items s)" "it_list_id r = j" unfolding find_item_by_ean_def by (auto dest: find_Some_in)
    have g: "get_item s (it_id r) = Some r"
      unfolding get_item_def using ok r(1) by (intro find_distinct_key) (simp_all add: lists_ok_def)
    have f: "it_list_id (set_item ck None (Some True) x) = it_list_id x" for x by (simp add: set_item_def)
    from run Some other_items(2) [OF ok g r(2) ji, of "set_item ck None (Some True)", OF f] assms(2) show ?thesis
      by (auto simp: seq_Inr_iff split: if_splits dest: keepsD [OF other_touch [OF ji], rotated])
  qed
qed

text \<open>
  A request of one user never changes a list of another user: its row, its items and their order stay as they are,
  whichever operation is asked for and with whatever identifiers.
\<close>

theorem lists_of_others_untouched:
  assumes ok: "lists_ok nmax s" and l: "get_list s i = Some l" "li_user_id l \<noteq> cmd_user c"
  shows "get_list (snd (list_step cfg th c s)) i = Some l \<and> items_of (snd (list_step cfg th c s)) i = items_of s i"
proof -
  let ?I = "shows_list i l (items_of s i)"
  have s: "?I s" using l(1) by (simp add: shows_list_def)
  have below: "i < next_id s" using get_list_in [OF l(1)] ok by (auto simp: lists_ok_def)
  note other = request_untouched [where P = ?I, OF s]
  have "?I (snd (list_step cfg th c s))"
  proof (cases c)
    case (CreateList ck u name)
    have "?I t" if "create_list ck u name s = (Inr x, t)" for x t
      using that other_new_list [OF s] by (auto simp: create_list_def insert_list_def)
    then show ?thesis by (auto simp: CreateList snd_void snd_valid route_create_list_def s intro!: other)
  next
    case (UpdateList ck j u name)
    have "?I t" if "update_shopping_list ck j u name s = (Inr x, t)" for x t
    proof (rule other_owned_op [OF s _ that [unfolded update_shopping_list_def]])
      assume "j \<noteq> i" and "repo_update_list ck j name s = (Inr x, t)"
      then show "?I t" unfolding repo_update_list_def by (intro keepsD [OF other_set_list s]) simp_all
    qed (use l(2) UpdateList in simp)
    then show ?thesis by (auto simp: UpdateList snd_valid route_update_list_def s intro!: other)
  next
    case (DeleteList j u)
    then show ?thesis using l(2) by (auto simp: route_delete_list_def intro!: other other_delete_list [OF s])
  next
    case (AddItem ck j u e q)
    then show ?thesis using l(2) s by (auto simp: snd_void snd_valid route_add_item_def intro!: other intro: other_add_to_list [OF s])
  next
    case (UpdateItem ck j k u q cc)
    then show ?thesis using l(2) s by (auto simp: snd_void snd_valid route_update_item_def intro!: other intro: other_update_item [OF ok s])
  next
    case (DeleteItem ck j k u)
    then show ?thesis using l(2) by (auto simp: route_delete_item_def intro!: other intro: other_delete_item [OF ok s])
  next
    case (SaveTemplate ck j u)
    have "?I t" if "save_as_template cfg ck j u s = (Inr x, t)" for x t
      using save_as_template_Inr [OF ok that] other_copy [OF _ other_new_list [OF s]] below by (metis less_irrefl)
    then show ?thesis by (auto simp: SaveTemplate snd_void route_save_as_template_def intro!: other)
  next
    case (FromTemplate ck j u name)
    have "?I t" if run: "create_from_template ck j u name s = (Inr x, t)" for x t
    proof -
      from run obtain sl where sl: "get_list s j = Some sl" "li_user_id sl = u" "li_is_template sl"
        by (auto simp: create_from_template_def get_shopping_list_def bnd_Inr_iff owned_list_Inr split: if_splits)
      from create_from_template_run [OF ok sl, of ck name] obtain r where
        "t = copied (next_id s) (items_of s j) (s\<lparr> next_id := Suc (next_id s), shopping_lists := shopping_lists s @ [r] \<rparr>)"
        using run by (metis prod.inject)
      then show ?thesis using other_copy [OF _ other_new_list [OF s]] below by simp
    qed
    then show ?thesis by (auto simp: FromTemplate snd_void snd_valid route_from_template_def s intro!: other)
  next
    case (ClearList ck j u)
    have "?I t" if "clear_list ck j u s = (Inr x, t)" for x t
    proof (rule other_owned_op [OF s _ that [unfolded clear_list_def]])
      assume ji: "j \<noteq> i" and run: "seq (clear_items j) (touch_list ck j) s = (Inr x, t)"
      have "filter (\<lambda>r. it_list_id r = i) (filter (\<lambda>r. it_list_id r \<noteq> j) ys) = filter (\<lambda>r. it_list_id r = i) ys" for ys
        using ji by (induction ys) auto
      then have "?I (s\<lparr> shopping_list_items := filter (\<lambda>r. it_list_id r \<noteq> j) (shopping_list_items s) \<rparr>)"
        using s by (simp add: shows_list_def get_list_def items_of_def)
      from keepsD [OF other_touch [OF ji] this] run show "?I t" by (simp add: clear_items_def)
    qed (use l(2) ClearList in simp)
    then show ?thesis by (auto simp: ClearList route_clear_list_def intro!: other)
  next
    case (ScanCheck ck j u e)
    then show ?thesis using l(2) s by (auto simp: snd_void snd_valid route_scan_check_def intro!: other intro: other_scan_check [OF ok s])
  next
    case (Suggest ck u j)
    have "?I t" if "generate_and_add_to_list cfg th ck u j s = (Inr x, t)" for x t
      using that l(2) other_suggestions [OF s] unfolding Suggest cmd_user.simps
      by (auto simp: generate_and_add_to_list_def suggest_products_def seq_Inr_iff bnd_Inr_iff owned_list_Inr split: if_splits)
    then show ?thesis using s
      by (auto simp: Suggest snd_void generate_suggestions_def catch_def db_transaction_def split: prod.splits sum.splits)
  qed
  then show ?thesis by (simp add: shows_list_def)
qed

theorem lists_of_others_untouched_witness:
  "items_of (snd (list_step list_demo_cfg (Dbl 1 1) (ClearList list_clock 1 8) list_demo)) 1 = items_of list_demo 1"
  using lists_of_others_untouched [OF list_demo_ok, of 1 "hd (shopping_lists list_demo)" "ClearList list_clock 1 8" list_demo_cfg "Dbl 1 1"]
  by (simp add: list_demo_def get_list_def)

section \<open>Templates and deletion\<close>

definition contents :: "list_db \<Rightarrow> uuid \<Rightarrow> (string \<times> int) list" where
  "contents s i = map (\<lambda>r. (it_product_ean r, it_quantity r)) (items_of s i)"

lemma contents_copies: "map (\<lambda>r. (it_product_ean r, it_quantity r)) (copies i n xs) = map (\<lambda>r. (it_product_ean r, it_quantity r)) xs"
  by (induction xs arbitrary: n) simp_all

lemma contents_copied:
  assumes "lists_ok nmax s"
  shows "items_of (copied (next_id s) xs (s\<lparr> next_id := Suc (next_id s), shopping_lists := ls \<rparr>)) j =
    (if j = next_id s then copies j (Suc j) xs else items_of s j)"
  using lists_ok_items_below [OF assms, of "next_id s"] by (simp add: items_of_copied) (simp add: items_of_def)

lemma get_list_fresh:
  assumes "lists_ok nmax s" and "li_id l = next_id s"
  shows "get_list (copied j xs (s\<lparr> next_id := n, shopping_lists := shopping_lists s @ [l] \<rparr>)) (next_id s) = Some l"
proof -
  have "List.find (\<lambda>r. li_id r = next_id s) (shopping_lists s) = None"
    using assms(1) by (auto simp: find_None_iff lists_ok_def)
  with assms(2) show ?thesis by (simp add: get_list_def copied_def find_append)
qed

text \<open>
  A list saved as a template and instantiated again by its owner gives a new list with the same products in the same
  order and quantities, all of them unchecked; instantiating cannot fail, and the list it started from is as it was.
\<close>

theorem template_roundtrip:
  assumes ok: "lists_ok nmax s" and save: "save_as_template cfg ck i u s = (Inr j, t)"
  shows "\<exists>k t'. create_from_template ck' j u name t = (Inr k, t') \<and> contents t' k = contents s i
    \<and> list_all (\<lambda>r. \<not> it_checked r) (items_of t' k) \<and> items_of t' i = items_of s i \<and> get_list s k = None"
proof -
  from save_as_template_Inr [OF ok save] obtain l where l: "li_id l = next_id s" "li_user_id l = u" "li_is_template l"
    and j: "j = next_id s" and src: "get_list s i \<noteq> None" and tok: "lists_ok nmax t"
    and t: "t = copied (next_id s) (items_of s i) (s\<lparr> next_id := Suc (next_id s), shopping_lists := shopping_lists s @ [l] \<rparr>)" .
  have below: "i < next_id s" using src ok by (auto simp: lists_ok_def dest: get_list_in)
  have tpl: "get_list t j = Some l" unfolding t j by (rule get_list_fresh [OF ok l(1)])
  have n: "next_id s < next_id t" by (simp add: t copied_def)
  obtain k t' ls where run: "create_from_template ck' j u name t = (Inr k, t')" and k: "k = next_id t"
    and t': "t' = copied (next_id t) (items_of t j) (t\<lparr> next_id := Suc (next_id t), shopping_lists := ls \<rparr>)"
    by (rule create_from_template_run [OF tok tpl l(2,3), of ck' name]) blast
  have tj: "items_of t j = copies j (Suc j) (items_of s i)" and ti: "items_of t i = items_of s i"
    using contents_copied [OF ok] below by (simp_all add: t j)
  have k': "items_of t' k = copies k (Suc k) (items_of t j)" and i': "items_of t' i = items_of s i"
    using contents_copied [OF tok] below n ti by (simp_all add: t' k)
  have "get_list s k = None" using ok n by (auto simp: get_list_def find_None_iff lists_ok_def k)
  moreover have "contents t' k = contents s i" by (simp add: contents_def k' tj contents_copies)
  moreover have "list_all (\<lambda>r. \<not> it_checked r) (items_of t' k)" using copies_facts(4) by (auto simp: k' list_all_iff)
  ultimately show ?thesis using run i' by blast
qed

theorem template_roundtrip_witness:
  "\<exists>k t'. create_from_template list_clock 10 7 None (snd (save_as_template list_demo_cfg list_clock 1 7 list_demo)) = (Inr k, t')
    \<and> contents t' k = contents list_demo 1 \<and> list_all (\<lambda>r. \<not> it_checked r) (items_of t' k)"
proof -
  have "save_as_template list_demo_cfg list_clock 1 7 list_demo =
      (Inr 10, snd (save_as_template list_demo_cfg list_clock 1 7 list_demo))"
    by (rule prod_eqI) (simp_all, code_simp)
  from template_roundtrip [OF list_demo_ok this, of list_clock None] show ?thesis by blast
qed

lemma repo_delete_list_blocked:
  assumes "contents s i \<noteq> [] \<or> filter (\<lambda>r. ro_list_id r = i) (optimized_routes s) \<noteq> []"
  shows "\<exists>c. repo_delete_list i s = (Inl (Integrity c), s)"
  using assms by (cases "items_of s i = []") (simp_all add: repo_delete_list_def contents_def seq_def bnd_def)

text \<open>
  The owner of a list that still holds an item, or for which a route was ever computed, cannot delete it: the request
  ends in a constraint violation of the database (no documented answer) and the list stays. An empty list with no route goes.
\<close>

theorem delete_needs_unused_list:
  assumes "get_list s i = Some l"
  shows "if contents s i = [] \<and> filter (\<lambda>r. ro_list_id r = i) (optimized_routes s) = []
    then fst (route_delete_list i (li_user_id l) s) = Inr () \<and> get_list (snd (route_delete_list i (li_user_id l) s)) i = None
    else \<exists>c. route_delete_list i (li_user_id l) s = (Inl (Integrity c), s)"
proof -
  have o: "owned_list i (li_user_id l) s = (Inr l, s)" using assms by (simp add: owned_list_Inr)
  then have run: "delete_shopping_list i (li_user_id l) s = repo_delete_list i s"
    by (simp add: delete_shopping_list_def seq_run_Inr [of "owned_list i (li_user_id l)"])
  show ?thesis
  proof (cases "contents s i = [] \<and> filter (\<lambda>r. ro_list_id r = i) (optimized_routes s) = []")
    case True
    then have "repo_delete_list i s = (Inr (), s\<lparr> shopping_lists := filter (\<lambda>r. li_id r \<noteq> i) (shopping_lists s) \<rparr>)"
      by (simp add: repo_delete_list_def contents_def seq_def bnd_def)
    then show ?thesis using True run
      by (auto simp: route_delete_list_def list_request_def catch_def db_transaction_def get_list_def find_None_iff)
  next
    case False
    with repo_delete_list_blocked [of s i] run obtain c where "delete_shopping_list i (li_user_id l) s = (Inl (Integrity c), s)" by auto
    then show ?thesis unfolding if_not_P [OF False]
      by (auto simp: route_delete_list_def list_request_def catch_def db_transaction_def list_http_def)
  qed
qed

theorem delete_needs_unused_list_witness: "\<exists>c. route_delete_list 1 7 list_demo = (Inl (Integrity c), list_demo)"
  using delete_needs_unused_list [of list_demo 1 "hd (shopping_lists list_demo)"]
  by (simp add: list_demo_def get_list_def contents_def items_of_def)

end
