(* ===== verification/Ratis_Routes.thy ===== *)
theory Ratis_Routes
  imports Ratis_Optimiser Ratis_ListSafety Ratis_Float
begin

text \<open>
  Routes through the stores (\<open>ratis_list_optimiser\<close>: \<open>repositories/route_repository.py\<close>,
  \<open>repositories/price_repository.py\<close>, \<open>services/price_service.py\<close>, \<open>services/optimization_service.py\<close>,
  \<open>services/route_mutation_service.py\<close>, \<open>worker/tasks.py\<close>, \<open>routes/optimization.py\<close>, and the step of
  \<open>ratis_batch_purge\<close> that removes expired routes). The engine works on the tables of the lists here. Numbers in the JSON
  document of a route are the decimals it shows; sums of cents stay far below \<open>2 ^ 53\<close>, so the two decimals written for them
  are exact.
\<close>

section \<open>What the service relies on\<close>

text \<open>
  PostGIS distances in metres, the SQL \<open>AVG\<close>, the decimal that a double shows, the order in which Python walks over a set,
  the answers of OSRM (none when it fails) with its distance as a double, and whether the Celery broker takes a task.
\<close>

record route_env =
  re_clock :: clock
  re_distance :: "rat \<Rightarrow> rat \<Rightarrow> list_store \<Rightarrow> rat"
  re_avg :: "int list \<Rightarrow> rat"
  re_shown :: "rat \<Rightarrow> rat"
  re_iter :: "uuid list \<Rightarrow> uuid list"
  re_trip :: "string \<Rightarrow> (rat \<times> rat) list \<Rightarrow> (string \<times> dbl \<times> int list) option"
  re_osrm_route :: "string \<Rightarrow> rat \<times> rat \<Rightarrow> rat \<times> rat \<Rightarrow> (string \<times> dbl) option"
  re_enqueued :: bool

definition round_rat :: "rat \<Rightarrow> int" where
  "round_rat x = (case quotient_of x of (n, d) \<Rightarrow> rhe n d)"

fun dbl_div_int :: "dbl \<Rightarrow> int \<Rightarrow> dbl" where
  "dbl_div_int (Dbl m k) n = dbl_of_frac m (n * 2 ^ k)"

definition cents :: "int \<Rightarrow> rat" where
  "cents n = of_int n / 100"


section \<open>The repositories\<close>

definition get_route :: "list_db \<Rightarrow> uuid \<Rightarrow> route_row option" where
  "get_route s i = List.find (\<lambda>r. ro_id r = i) (optimized_routes s)"

definition latest :: "route_row list \<Rightarrow> route_row option" where
  "latest rs = (case sort_key (\<lambda>r. - ro_computed_at r) rs of [] \<Rightarrow> None | r # _ \<Rightarrow> Some r)"

definition get_latest_route :: "clock \<Rightarrow> list_db \<Rightarrow> uuid \<Rightarrow> route_row option" where
  "get_latest_route ck s i = latest (filter (\<lambda>r. ro_list_id r = i \<and> now ck < ro_expires_at r) (optimized_routes s))"

definition get_computing_route :: "clock \<Rightarrow> list_db \<Rightarrow> uuid \<Rightarrow> route_row option" where
  "get_computing_route ck s i = latest (filter (\<lambda>r. ro_list_id r = i \<and> ro_status r = ''computing'' \<and> now ck < ro_expires_at r)
     (optimized_routes s))"

definition is_expired :: "clock \<Rightarrow> route_row \<Rightarrow> bool" where
  "is_expired ck r \<longleftrightarrow> ro_expires_at r \<le> now ck"

definition set_route :: "(route_row \<Rightarrow> bool) \<Rightarrow> (route_row \<Rightarrow> route_row) \<Rightarrow> unit list_op" where
  "set_route p f = modify (\<lambda>s. s\<lparr> optimized_routes := update_where p f (optimized_routes s) \<rparr>)"

text \<open>The number of rows that were still computing.\<close>

definition mark_route_failed :: "uuid \<Rightarrow> nat list_op" where
  "mark_route_failed i = bnd (reads (\<lambda>s. count_where (\<lambda>r. ro_id r = i \<and> ro_status r = ''computing'') (optimized_routes s))) (\<lambda>n.
     seq (set_route (\<lambda>r. ro_id r = i \<and> ro_status r = ''computing'') (\<lambda>r. r\<lparr> ro_status := ''failed'' \<rparr>)) (ret n))"

text \<open>
  The insert, with the partial unique index \<open>uq_optimized_routes_one_computing_per_list\<close> and the check that the expiry
  lies ahead.
\<close>

definition insert_route :: "route_row \<Rightarrow> unit list_op" where
  "insert_route r = bnd (reads optimized_routes) (\<lambda>rows.
     seq (guard (ro_computed_at r < ro_expires_at r) (Integrity ''expires_after_computed''))
     (seq (guard (\<not> (ro_status r = ''computing'' \<and> list_ex (\<lambda>x. ro_list_id x = ro_list_id r \<and> ro_status x = ''computing'') rows))
            (Integrity ''uq_optimized_routes_one_computing_per_list''))
       (modify (\<lambda>s. s\<lparr> optimized_routes := optimized_routes s @ [r] \<rparr>))))"

definition get_store :: "list_db \<Rightarrow> uuid \<Rightarrow> list_store option" where
  "get_store s i = List.find (\<lambda>x. ls_id x = i) (store_table s)"

definition get_local_price :: "list_db \<Rightarrow> uuid \<Rightarrow> string \<Rightarrow> (int \<times> rat) option" where
  "get_local_price s i ean = map_option (\<lambda>r. (pw_price r, pw_trust_score r))
     (List.find (\<lambda>r. pw_store_id r = i \<and> pw_product_ean r = ean) (consensus s))"

definition get_national_average :: "route_env \<Rightarrow> list_db \<Rightarrow> string \<Rightarrow> (rat \<times> int) option" where
  "get_national_average E s ean = (case map pw_price (filter (\<lambda>r. pw_product_ean r = ean) (consensus s)) of
       [] \<Rightarrow> None | p # ps \<Rightarrow> Some (re_avg E (p # ps), 1 + int (length ps)))"

record price_result =
  pr_price :: "rat option"
  pr_price_source :: string
  pr_trust_score :: "rat option"
  pr_warning :: "string option"

definition resolve_price :: "route_env \<Rightarrow> optimiser_cfg \<Rightarrow> list_db \<Rightarrow> string \<Rightarrow> uuid \<Rightarrow> price_result" where
  "resolve_price E cfg s ean i =
     (let unknown = \<lparr> pr_price = None, pr_price_source = ''unknown'', pr_trust_score = None,
            pr_warning = Some ''price_unknown_insufficient_data'' \<rparr> in
      case get_local_price s i ean of
        Some (c, t) \<Rightarrow> \<lparr> pr_price = Some (cents c), pr_price_source = ''consensus_local'', pr_trust_score = Some (cents (round_rat (100 * t))),
          pr_warning = None \<rparr>
      | None \<Rightarrow> (case get_national_average E s ean of
          None \<Rightarrow> unknown
        | Some (avg, n) \<Rightarrow> if oc_national_avg_min cfg \<le> n
            then \<lparr> pr_price = Some (cents (round_rat avg)), pr_price_source = ''national_average'', pr_trust_score = None,
                   pr_warning = Some ''price_not_reliable'' \<rparr>
            else unknown))"

section \<open>Computing a route\<close>

definition unchecked_items :: "list_db \<Rightarrow> uuid \<Rightarrow> item_row list" where
  "unchecked_items s i = filter (\<lambda>r. \<not> it_checked r) (items_of s i)"

definition validate_for_optimization :: "uuid \<Rightarrow> uuid \<Rightarrow> rat option \<Rightarrow> rat option \<Rightarrow> (rat \<times> rat) list_op" where
  "validate_for_optimization u i lat lng =
     bnd (reads (\<lambda>s. (unchecked_items s i, reference_points s u))) (\<lambda>(items, ref).
     seq (guard (items \<noteq> []) EmptyList)
     (case (lat, lng) of
        (Some x, Some y) \<Rightarrow> ret (x, y)
      | _ \<Rightarrow> (case ref of None \<Rightarrow> throw NoPosition | Some p \<Rightarrow> ret p)))"

definition create_pending_route :: "optimiser_cfg \<Rightarrow> clock \<Rightarrow> uuid \<Rightarrow> uuid \<Rightarrow> uuid list_op" where
  "create_pending_route cfg ck u i = bnd new_id (\<lambda>k. seq (insert_route
     \<lparr> ro_id = k, ro_user_id = u, ro_list_id = i, ro_status = ''computing'', ro_total_price = 1 / 100, ro_total_savings = 0,
       ro_distance_km = None,
       ro_steps = \<lparr> rt_stores = [], rt_polyline = None, rt_total_stores = 0, rt_total_items = 0, rt_warnings = [] \<rparr>,
       ro_computed_at = now ck, ro_expires_at = now ck + oc_route_expiry_hours cfg * hour_us \<rparr>) (ret k))"

text \<open>\<^verbatim>\<open>geo.stores_within_radius\<close>; a store at 0, 0 has no geography.\<close>

definition nearby_stores :: "route_env \<Rightarrow> list_db \<Rightarrow> rat \<Rightarrow> rat \<Rightarrow> rat \<Rightarrow> uuid set \<Rightarrow> list_store list" where
  "nearby_stores E s lat lng radius_km excluded = sort_key (re_distance E lat lng)
     (filter (\<lambda>x. \<not> (ls_lat x = 0 \<and> ls_lng x = 0) \<and> re_distance E lat lng x \<le> 1000 * radius_km \<and> \<not> ls_is_disabled x
        \<and> ls_id x \<notin> excluded) (store_table s))"

definition excluded_ids :: "list_db \<Rightarrow> uuid \<Rightarrow> uuid set" where
  "excluded_ids s u = set (map snd (filter (\<lambda>(v, i). v = u) (excluded_stores s)))"

definition local_entry :: "list_db \<Rightarrow> uuid \<Rightarrow> string \<Rightarrow> item_price option" where
  "local_entry s i ean = (case get_local_price s i ean of
       Some (c, t) \<Rightarrow> if 0 < c then Some \<lparr> ip_price = Some (cents c), ip_source = ''consensus_local'', ip_trust_score = Some t \<rparr> else None
     | None \<Rightarrow> None)"

definition national_entry :: "route_env \<Rightarrow> optimiser_cfg \<Rightarrow> list_db \<Rightarrow> string \<Rightarrow> item_price option" where
  "national_entry E cfg s ean = (case get_national_average E s ean of
       Some (avg, n) \<Rightarrow> if oc_national_avg_min cfg \<le> n \<and> 0 < avg
         then Some \<lparr> ip_price = Some (avg / 100), ip_source = ''national_average'', ip_trust_score = None \<rparr> else None
     | None \<Rightarrow> None)"

definition route_prices :: "route_env \<Rightarrow> optimiser_cfg \<Rightarrow> list_db \<Rightarrow> uuid list \<Rightarrow> string list \<Rightarrow> price_matrix" where
  "route_prices E cfg s stores eans = (\<lambda>(i, ean).
     if i \<notin> set stores \<or> ean \<notin> set eans then None
     else if list_ex (\<lambda>j. local_entry s j ean \<noteq> None) stores then local_entry s i ean
     else national_entry E cfg s ean)"

definition map_transport_mode :: "string \<Rightarrow> string" where
  "map_transport_mode mode = (if mode = ''walking'' then ''foot'' else if mode = ''cycling'' then ''bike'' else ''car'')"

definition store_in :: "list_store list \<Rightarrow> uuid \<Rightarrow> list_store option" where
  "store_in stores i = List.find (\<lambda>x. ls_id x = i) stores"

record route_leg =
  lg_order :: "uuid list"
  lg_polyline :: "string option"
  lg_distance_km :: "rat option"
  lg_warnings :: "route_warning list"

definition leg_distance :: "dbl \<Rightarrow> rat" where
  "leg_distance metres = cents (hundredths (dbl_div_int metres 1000))"

text \<open>
  The calls of OSRM: a trip through several stores, which also orders them, or the way to a single one. More waypoints than
  stores would be an \<^verbatim>\<open>IndexError\<close>.
\<close>

definition plan_leg :: "route_env \<Rightarrow> rat \<Rightarrow> rat \<Rightarrow> string \<Rightarrow> list_store list \<Rightarrow> uuid list \<Rightarrow> list_error + route_leg" where
  "plan_leg E lat lng mode stores assigned =
     (let failed = Inr \<lparr> lg_order = assigned, lg_polyline = None, lg_distance_km = None, lg_warnings = [RoutingUnavailable] \<rparr> in
      case those (map (store_in stores) assigned) of
        None \<Rightarrow> Inl Index_Error
      | Some xs \<Rightarrow> (case map (\<lambda>x. (ls_lng x, ls_lat x)) xs of
          [] \<Rightarrow> Inr \<lparr> lg_order = assigned, lg_polyline = None, lg_distance_km = None, lg_warnings = [] \<rparr>
        | [q] \<Rightarrow> (case re_osrm_route E (map_transport_mode mode) (lng, lat) q of
            None \<Rightarrow> failed
          | Some (g, d) \<Rightarrow> Inr \<lparr> lg_order = assigned, lg_polyline = Some g, lg_distance_km = Some (leg_distance d), lg_warnings = [] \<rparr>)
        | qs \<Rightarrow> (case re_trip E (map_transport_mode mode) ((lng, lat) # qs) of
            None \<Rightarrow> failed
          | Some (g, d, wp) \<Rightarrow> if length assigned < length (tl wp) then Inl Index_Error
              else Inr \<lparr> lg_order = map snd (sort_key fst (zip (tl wp) assigned)), lg_polyline = Some g,
                     lg_distance_km = Some (leg_distance d), lg_warnings = [] \<rparr>)))"

definition item_entry :: "route_env \<Rightarrow> list_db \<Rightarrow> item_row \<Rightarrow> store_assignment \<Rightarrow> route_item" where
  "item_entry E s r a =
     \<lparr> ri_item_id = it_id r, ri_product_ean = it_product_ean r,
       ri_product_name = (case get_product s (it_product_ean r) of Some p \<Rightarrow> lp_name p | None \<Rightarrow> it_product_ean r),
       ri_quantity = it_quantity r, ri_price = map_option (re_shown E) (sa_price a), ri_price_source = sa_source a,
       ri_trust_score = map_option (re_shown E) (sa_trust_score a) \<rparr>"

text \<open>\<^verbatim>\<open>round(assignment_price_cents * float(item_obj.quantity))\<close>: a product of doubles.\<close>

definition item_cents :: "item_row \<Rightarrow> store_assignment \<Rightarrow> int" where
  "item_cents r a = (case sa_price a of
       None \<Rightarrow> 0
     | Some p \<Rightarrow> dround (dmul (dbl_of_int (round_rat (100 * p))) (dbl_of_frac (it_quantity r) 1000)))"

text \<open>The items of a store with their rows; every assignment is of an item of the list.\<close>

definition assigned_rows :: "item_row list \<Rightarrow> assignments \<Rightarrow> uuid \<Rightarrow> (item_row \<times> store_assignment) list" where
  "assigned_rows items asg i = List.map_filter (\<lambda>(e, a). if sa_store_id a = i
       then map_option (\<lambda>r. (r, a)) (List.find (\<lambda>r. it_product_ean r = e) items) else None) asg"

definition store_entry :: "route_env \<Rightarrow> list_db \<Rightarrow> item_row list \<Rightarrow> assignments \<Rightarrow> int \<times> list_store \<Rightarrow> route_store" where
  "store_entry E s items asg = (\<lambda>(n, x).
     \<lparr> rs_store_id = ls_id x, rs_store_name = ls_name x, rs_lat = ls_lat x, rs_lng = ls_lng x, rs_order = n,
       rs_items = map (\<lambda>(r, a). item_entry E s r a) (assigned_rows items asg (ls_id x)),
       rs_subtotal = cents (sum_list (map (\<lambda>(r, a). item_cents r a) (assigned_rows items asg (ls_id x)))) \<rparr>)"

definition price_warnings :: "item_row list \<Rightarrow> assignments \<Rightarrow> uuid \<Rightarrow> route_warning list" where
  "price_warnings items asg i = List.map_filter (\<lambda>(r, a). if sa_source a \<in> {''national_average'', ''unknown''}
       then Some (PriceWarning (it_product_ean r) (sa_source a)) else None) (assigned_rows items asg i)"

definition numbered_stores :: "list_store list \<Rightarrow> uuid list \<Rightarrow> (int \<times> list_store) list" where
  "numbered_stores stores order = List.map_filter (\<lambda>(n, i). map_option (Pair n) (store_in stores i)) (zip [1..int (length order)] order)"

record route_data =
  rd_total_price :: rat
  rd_distance_km :: "rat option"
  rd_steps :: route_steps

definition build_route :: "route_env \<Rightarrow> list_db \<Rightarrow> item_row list \<Rightarrow> list_store list \<Rightarrow> assignments \<Rightarrow> route_leg \<Rightarrow> route_data" where
  "build_route E s items stores asg leg =
     (let ns = numbered_stores stores (lg_order leg); entries = map (store_entry E s items asg) ns in
      \<lparr> rd_total_price = max (sum_list (map rs_subtotal entries)) (1 / 100),
        rd_distance_km = (if lg_distance_km leg = Some 0 then None else lg_distance_km leg),
        rd_steps = \<lparr> rt_stores = entries, rt_polyline = lg_polyline leg, rt_total_stores = int (length entries),
          rt_total_items = int (length items),
          rt_warnings = lg_warnings leg @ concat (map (\<lambda>(n, x). price_warnings items asg (ls_id x)) ns) \<rparr> \<rparr>)"

text \<open>\<open>None\<close>: the computation does not end.\<close>

definition compute_route_data :: "route_env \<Rightarrow> optimiser_cfg \<Rightarrow> uuid \<Rightarrow> uuid \<Rightarrow> rat \<Rightarrow> rat \<Rightarrow> list_db \<Rightarrow> (list_error + route_data) option" where
  "compute_route_data E cfg u i lat lng s =
     (let items = unchecked_items s i;
          (radius_km, transport) = (case user_preferences s u of Some p \<Rightarrow> p | None \<Rightarrow> (oc_default_radius cfg, oc_default_transport cfg));
          stores = nearby_stores E s lat lng radius_km (excluded_ids s u);
          ids = map ls_id stores; eans = map it_product_ean items; prices = route_prices E cfg s ids eans in
      if items = [] then Some (Inl EmptyList)
      else if stores = [] then Some (Inl NoStoresNearby)
      else case assign_items_to_stores (re_iter E) eans ids prices (oc_min_items_per_store cfg) of
        None \<Rightarrow> None
      | Some asg0 \<Rightarrow>
          (let asg = cap_to_max_stores (re_iter E) asg0 prices (oc_max_stores_in_route cfg) in
           Some (case plan_leg E lat lng transport stores (re_iter E (counted_stores asg)) of
             Inl e \<Rightarrow> Inl e | Inr leg \<Rightarrow> Inr (build_route E s items stores asg leg))))"

definition finalize_route :: "uuid \<Rightarrow> route_data \<Rightarrow> unit list_op" where
  "finalize_route k d =
     seq (guard (rd_total_price d < 10 ^ 8 \<and> (\<forall>x \<in> set_option (rd_distance_km d). x < 10 ^ 6)) Numeric_Overflow)
       (set_route (\<lambda>r. ro_id r = k) (\<lambda>r. r\<lparr> ro_total_price := rd_total_price d, ro_total_savings := 0,
          ro_distance_km := rd_distance_km d, ro_steps := rd_steps d, ro_status := ''ready'' \<rparr>))"

definition run_optimize_route :: "route_env \<Rightarrow> optimiser_cfg \<Rightarrow> uuid \<Rightarrow> rat \<Rightarrow> rat \<Rightarrow> list_db \<Rightarrow> ((list_error + unit) \<times> list_db) option" where
  "run_optimize_route E cfg k lat lng s = (case get_route s k of
       None \<Rightarrow> Some (Inr (), s)
     | Some r \<Rightarrow> (case compute_route_data E cfg (ro_user_id r) (ro_list_id r) lat lng s of
         None \<Rightarrow> None
       | Some (Inr d) \<Rightarrow> Some (finalize_route k d s)
       | Some (Inl e) \<Rightarrow> Some (if e \<in> {EmptyList, NoPosition, NoStoresNearby}
             then set_route (\<lambda>x. ro_id x = k) (\<lambda>x. x\<lparr> ro_status := ''failed'' \<rparr>) s else (Inl e, s))))"

text \<open>
  The Celery task: a failure of the database or the network before the commit (\<open>fault\<close>) or an unexpected exception asks for
  another attempt while attempts are left and the broker takes it, and gives the route up otherwise. The result says whether
  another attempt follows.
\<close>

definition task_optimize_route ::
  "route_env \<Rightarrow> optimiser_cfg \<Rightarrow> bool \<Rightarrow> nat \<Rightarrow> uuid \<Rightarrow> rat \<Rightarrow> rat \<Rightarrow> list_db \<Rightarrow> (bool \<times> list_db) option" where
  "task_optimize_route E cfg fault retries k lat lng s =
     (case (if fault then Some (Inl (HttpError 500 ''transient''), s) else run_optimize_route E cfg k lat lng s) of
        None \<Rightarrow> None
      | Some (Inr _, t) \<Rightarrow> Some (False, t)
      | Some (Inl _, _) \<Rightarrow> if retries < 3 \<and> re_enqueued E then Some (True, s) else Some (False, snd (mark_route_failed k s)))"

section \<open>Changing a route\<close>

text \<open>The first store that has the item, without it, and the item.\<close>

fun take_item :: "uuid \<Rightarrow> route_store list \<Rightarrow> (route_item \<times> route_store list) option" where
  "take_item k [] = None"
| "take_item k (x # xs) = (case List.find (\<lambda>y. ri_item_id y = k) (rs_items x) of
       Some y \<Rightarrow> Some (y, x\<lparr> rs_items := filter (\<lambda>z. ri_item_id z \<noteq> k) (rs_items x) \<rparr> # xs)
     | None \<Rightarrow> map_option (\<lambda>(y, ys). (y, x # ys)) (take_item k xs))"

fun put_item :: "uuid \<Rightarrow> route_item \<Rightarrow> route_store list \<Rightarrow> route_store list" where
  "put_item i y [] = []"
| "put_item i y (x # xs) = (if rs_store_id x = i then x\<lparr> rs_items := rs_items x @ [y] \<rparr> # xs else x # put_item i y xs)"

definition priced_item :: "price_result \<Rightarrow> route_item \<Rightarrow> route_item" where
  "priced_item p y = y\<lparr> ri_price := pr_price p, ri_price_source := pr_price_source p, ri_trust_score := pr_trust_score p \<rparr>"

definition line_cents :: "route_item \<Rightarrow> int" where
  "line_cents y = (case ri_price y of None \<Rightarrow> 0 | Some p \<Rightarrow> round_rat (p * (of_int (ri_quantity y) / 1000) * 100))"

definition recalculated :: "route_store \<Rightarrow> route_store" where
  "recalculated x = x\<lparr> rs_subtotal := cents (sum_list (map line_cents (rs_items x))) \<rparr>"

text \<open>The row with other stores: the counter and, by \<^verbatim>\<open>_recalculate_totals\<close>, the sums.\<close>

definition with_stores :: "route_store list \<Rightarrow> route_warning list \<Rightarrow> route_row \<Rightarrow> route_row" where
  "with_stores xs ws r = r\<lparr> ro_steps := (ro_steps r)\<lparr> rt_stores := map recalculated xs, rt_total_stores := int (length xs), rt_warnings := ws \<rparr>,
     ro_total_price := max (sum_list (map (rs_subtotal \<circ> recalculated) xs)) (1 / 100) \<rparr>"

definition assert_store_usable :: "list_store \<Rightarrow> list_error option" where
  "assert_store_usable x = (if ls_is_disabled x \<or> ls_lat x = 0 \<and> ls_lng x = 0 then Some StoreUnavailable else None)"

definition new_route_store :: "list_store \<Rightarrow> int \<Rightarrow> route_store" where
  "new_route_store x n = \<lparr> rs_store_id = ls_id x, rs_store_name = ls_name x, rs_lat = ls_lat x, rs_lng = ls_lng x, rs_order = n,
     rs_items = [], rs_subtotal = 0 \<rparr>"

definition move_item_in_route :: "route_env \<Rightarrow> optimiser_cfg \<Rightarrow> uuid \<Rightarrow> uuid \<Rightarrow> list_db \<Rightarrow> route_row \<Rightarrow> list_error + route_row" where
  "move_item_in_route E cfg k i s r = (case take_item k (rt_stores (ro_steps r)) of
       None \<Rightarrow> Inl ItemNotFoundInRoute
     | Some (y, rest) \<Rightarrow> (case get_store s i of
         None \<Rightarrow> Inl StoreNotFound
       | Some x \<Rightarrow> (case assert_store_usable x of
           Some e \<Rightarrow> Inl e
         | None \<Rightarrow>
            (let stores = (if list_ex (\<lambda>z. rs_store_id z = i) rest then rest
                    else rest @ [new_route_store x (int (length rest) + 1)]);
                 placed = put_item i (priced_item (resolve_price E cfg s (ri_product_ean y) i) y) stores in
             Inr (with_stores (filter (\<lambda>z. rs_items z \<noteq> []) placed) (rt_warnings (ro_steps r)) r)))))"

text \<open>The remaining store that sells the product cheapest; the first of equal prices wins.\<close>

definition best_remaining ::
  "route_env \<Rightarrow> optimiser_cfg \<Rightarrow> list_db \<Rightarrow> string \<Rightarrow> route_store list \<Rightarrow> (uuid \<times> price_result \<times> rat) option" where
  "best_remaining E cfg s ean stores = fold (\<lambda>x best.
     (let p = resolve_price E cfg s ean (rs_store_id x) in
      case pr_price p of
        None \<Rightarrow> best
      | Some c \<Rightarrow> (case best of
          None \<Rightarrow> Some (rs_store_id x, p, c)
        | Some (_, _, b) \<Rightarrow> if c < b then Some (rs_store_id x, p, c) else best))) stores None"

definition place_item :: "route_env \<Rightarrow> optimiser_cfg \<Rightarrow> list_db \<Rightarrow> route_item \<Rightarrow> route_store list \<times> route_warning list \<Rightarrow> route_store list \<times> route_warning list" where
  "place_item E cfg s y = (\<lambda>(stores, ws).
     (let (i, p) = (case best_remaining E cfg s (ri_product_ean y) stores of
            Some (i, p, _) \<Rightarrow> (i, p)
          | None \<Rightarrow> (rs_store_id (hd stores), resolve_price E cfg s (ri_product_ean y) (rs_store_id (hd stores)))) in
      (put_item i (priced_item p y) stores,
       if pr_price p = None then ws @ [PriceWarning (ri_product_ean y) ''unknown''] else ws)))"

definition renumbered :: "route_store list \<Rightarrow> route_store list" where
  "renumbered xs = map (\<lambda>(n, x). x\<lparr> rs_order := n \<rparr>) (zip [1..int (length xs)] xs)"

definition remove_store_from_route :: "route_env \<Rightarrow> optimiser_cfg \<Rightarrow> uuid \<Rightarrow> list_db \<Rightarrow> route_row \<Rightarrow> list_error + route_row" where
  "remove_store_from_route E cfg i s r =
     (let stores = rt_stores (ro_steps r) in
      if length stores \<le> 1 then Inl CannotRemoveLastStore
      else case List.find (\<lambda>x. rs_store_id x = i) stores of
        None \<Rightarrow> Inl StoreNotFound
      | Some x \<Rightarrow>
          (let remaining = filter (\<lambda>z. rs_store_id z \<noteq> i) stores in
           if remaining = [] \<and> rs_items x \<noteq> [] then Inl Index_Error
           else case fold (place_item E cfg s) (rs_items x) (remaining, rt_warnings (ro_steps r)) of
             (placed, ws) \<Rightarrow> Inr (with_stores (renumbered placed) ws r)))"


section \<open>The requests\<close>

definition load_owned_route :: "clock \<Rightarrow> uuid \<Rightarrow> uuid \<Rightarrow> route_row list_op" where
  "load_owned_route ck k u = bnd (reads (\<lambda>s. get_route s k)) (\<lambda>row. case row of
       None \<Rightarrow> throw (HttpError 404 ''route_not_found'')
     | Some r \<Rightarrow> seq (assert_owner (ro_user_id r) u) (seq (guard (\<not> is_expired ck r) (HttpError 410 ''route_expired'')) (ret r)))"

definition load_owned_list :: "uuid \<Rightarrow> uuid \<Rightarrow> list_row list_op" where
  "load_owned_list i u = catch (owned_list i u) (\<lambda>e. throw (list_http e))"

definition get_price :: "route_env \<Rightarrow> optimiser_cfg \<Rightarrow> string \<Rightarrow> uuid \<Rightarrow> price_result list_op" where
  "get_price E cfg ean i = bnd (reads (\<lambda>s. get_store s i)) (\<lambda>x.
     if x = None then throw (HttpError 404 ''store_not_found'') else reads (\<lambda>s. resolve_price E cfg s ean i))"

text \<open>The insert of a fresh route; when a concurrent request was faster, its route is the answer.\<close>

definition start_route :: "route_env \<Rightarrow> optimiser_cfg \<Rightarrow> uuid \<Rightarrow> uuid \<Rightarrow> uuid list_op" where
  "start_route E cfg u i = (\<lambda>s. case db_transaction (create_pending_route cfg (re_clock E) u i) s of
       (Inl e, _) \<Rightarrow> (case get_computing_route (re_clock E) s i of Some r \<Rightarrow> (Inr (ro_id r), s) | None \<Rightarrow> (Inl e, s))
     | (Inr k, t) \<Rightarrow> if re_enqueued E then (Inr k, t)
         else seq (set_route (\<lambda>r. ro_id r = k) (\<lambda>r. r\<lparr> ro_status := ''failed'' \<rparr>)) (ret k) t)"

definition trigger_optimization :: "route_env \<Rightarrow> optimiser_cfg \<Rightarrow> uuid \<Rightarrow> uuid \<Rightarrow> rat option \<Rightarrow> rat option \<Rightarrow> uuid list_op" where
  "trigger_optimization E cfg u i lat lng =
     bnd (load_owned_list i u) (\<lambda>sl.
     seq (guard (\<not> li_is_template sl) (HttpError 422 ''cannot_optimize_template''))
     (bnd (reads (\<lambda>s. count_items s i)) (\<lambda>n.
     seq (guard (n \<le> oc_max_items_per_list cfg) (HttpError 422 ''list_too_large''))
     (seq (catch (validate_for_optimization u i lat lng) (\<lambda>e. throw (if e = EmptyList then HttpError 422 ''empty_list''
          else if e = NoPosition then HttpError 422 ''no_position'' else e)))
     (bnd (reads (\<lambda>s. get_computing_route (re_clock E) s i)) (\<lambda>existing. case existing of
         None \<Rightarrow> start_route E cfg u i
       | Some r \<Rightarrow>
           if ro_computed_at r < now (re_clock E) - oc_stuck_minutes cfg * 60000000 then
             bnd (mark_route_failed (ro_id r)) (\<lambda>marked.
               if marked = 0 then bnd (reads (\<lambda>s. get_computing_route (re_clock E) s i)) (\<lambda>refreshed. case refreshed of
                   Some r' \<Rightarrow> if ro_id r' \<noteq> ro_id r then ret (ro_id r') else start_route E cfg u i
                 | None \<Rightarrow> start_route E cfg u i)
               else start_route E cfg u i)
           else ret (ro_id r)))))))"

datatype route_response = Slim uuid uuid string | Full route_row

definition route_response_of :: "route_row \<Rightarrow> route_response" where
  "route_response_of r = (if ro_status r = ''ready'' then Full r else Slim (ro_id r) (ro_list_id r) (ro_status r))"

definition get_route_detail :: "clock \<Rightarrow> uuid \<Rightarrow> uuid \<Rightarrow> route_response list_op" where
  "get_route_detail ck k u = bnd (load_owned_route ck k u) (\<lambda>r. ret (route_response_of r))"

definition get_latest_route_endpoint :: "clock \<Rightarrow> uuid \<Rightarrow> uuid \<Rightarrow> route_response list_op" where
  "get_latest_route_endpoint ck i u = seq (load_owned_list i u) (bnd (reads (\<lambda>s. get_latest_route ck s i)) (\<lambda>row. case row of
       None \<Rightarrow> throw (HttpError 404 ''no_active_route'') | Some r \<Rightarrow> ret (route_response_of r)))"

definition route_http :: "list_error \<Rightarrow> list_error" where
  "route_http e = (case e of
       ItemNotFoundInRoute \<Rightarrow> HttpError 404 ''item_not_found_in_route''
     | StoreNotFound \<Rightarrow> HttpError 404 ''store_not_found''
     | StoreUnavailable \<Rightarrow> HttpError 422 ''store_unavailable''
     | CannotRemoveLastStore \<Rightarrow> HttpError 422 ''cannot_remove_last_store''
     | _ \<Rightarrow> e)"

definition change_route :: "clock \<Rightarrow> uuid \<Rightarrow> uuid \<Rightarrow> (list_db \<Rightarrow> route_row \<Rightarrow> list_error + route_row) \<Rightarrow> route_row list_op" where
  "change_route ck k u f =
     bnd (load_owned_route ck k u) (\<lambda>r.
     seq (guard (ro_status r = ''ready'') (HttpError 409 ''route_not_ready''))
     (bnd (reads (\<lambda>s. f s r)) (\<lambda>res. case res of
         Inl e \<Rightarrow> throw (route_http e)
       | Inr r' \<Rightarrow> seq (guard (ro_total_price r' < 10 ^ 8) Numeric_Overflow)
           (seq (set_route (\<lambda>x. ro_id x = k) (\<lambda>_. r')) (ret r')))))"

definition move_item :: "route_env \<Rightarrow> optimiser_cfg \<Rightarrow> uuid \<Rightarrow> uuid \<Rightarrow> uuid \<Rightarrow> uuid \<Rightarrow> route_row list_op" where
  "move_item E cfg k u item store = change_route (re_clock E) k u (move_item_in_route E cfg item store)"

definition remove_store :: "route_env \<Rightarrow> optimiser_cfg \<Rightarrow> uuid \<Rightarrow> uuid \<Rightarrow> uuid \<Rightarrow> route_row list_op" where
  "remove_store E cfg k u store = change_route (re_clock E) k u (remove_store_from_route E cfg store)"

definition purge_optimized_routes :: "clock \<Rightarrow> unit list_op" where
  "purge_optimized_routes ck = modify (\<lambda>s. s\<lparr> optimized_routes := filter (\<lambda>r. \<not> ro_expires_at r < now ck) (optimized_routes s) \<rparr>)"

end
