(* ===== verification/Ratis_RouteSafety.thy ===== *)
theory Ratis_RouteSafety
  imports Ratis_Routes "HOL-Library.Multiset"
begin

text \<open>
  What the routes guarantee: moving an item or dropping a store loses none, a computed route covers the whole list, a task
  leaves no route computing unless it tries again or never ends, and what an expired computing route blocks.
\<close>

section \<open>The items of a route\<close>

definition line_of :: "route_item \<Rightarrow> uuid \<times> string \<times> int" where
  "line_of y = (ri_item_id y, ri_product_ean y, ri_quantity y)"

definition lines_of :: "route_store list \<Rightarrow> (uuid \<times> string \<times> int) list" where
  "lines_of xs = concat (map (\<lambda>x. map line_of (rs_items x)) xs)"

definition route_lines :: "route_row \<Rightarrow> (uuid \<times> string \<times> int) list" where
  "route_lines r = lines_of (rt_stores (ro_steps r))"

definition totals_ok :: "route_row \<Rightarrow> bool" where
  "totals_ok r \<longleftrightarrow> rt_total_stores (ro_steps r) = int (length (rt_stores (ro_steps r)))
     \<and> ro_total_price r = max (sum_list (map rs_subtotal (rt_stores (ro_steps r)))) (1 / 100)"

lemma lines_of_simps [simp]: "lines_of [] = []" "lines_of (x # xs) = map line_of (rs_items x) @ lines_of xs"
    "lines_of (xs @ ys) = lines_of xs @ lines_of ys"
  by (simp_all add: lines_of_def)

lemma lines_of_map: "(\<And>x. rs_items (f x) = rs_items x) \<Longrightarrow> lines_of (map f xs) = lines_of xs"
  by (induction xs) simp_all

lemma lines_of_nonempty [simp]: "lines_of (filter (\<lambda>x. rs_items x \<noteq> []) xs) = lines_of xs"
  by (induction xs) simp_all

lemma line_of_priced [simp]: "line_of (priced_item p y) = line_of y" "ri_item_id (priced_item p y) = ri_item_id y"
    "ri_price (priced_item p y) = pr_price p" "ri_product_ean (priced_item p y) = ri_product_ean y"
  by (simp_all add: line_of_def priced_item_def)

lemma recalculated_sel [simp]: "rs_items (recalculated x) = rs_items x" "rs_store_id (recalculated x) = rs_store_id x"
    "rs_order (recalculated x) = rs_order x"
  by (simp_all add: recalculated_def)

lemma with_stores_sel [simp]: "rt_stores (ro_steps (with_stores xs ws r)) = map recalculated xs" "ro_id (with_stores xs ws r) = ro_id r"
    "ro_status (with_stores xs ws r) = ro_status r" "ro_list_id (with_stores xs ws r) = ro_list_id r"
    "ro_computed_at (with_stores xs ws r) = ro_computed_at r" "ro_expires_at (with_stores xs ws r) = ro_expires_at r"
    "0 < ro_total_price (with_stores xs ws r)" "totals_ok (with_stores xs ws r)" "route_lines (with_stores xs ws r) = lines_of xs"
  by (simp_all add: with_stores_def totals_ok_def route_lines_def lines_of_map o_def less_max_iff_disj)

lemma lines_of_recalculated [simp]: "lines_of (map recalculated xs) = lines_of xs"
  by (rule lines_of_map) simp

lemma remove_by_id:
  assumes "distinct (map ri_item_id ys)" and "List.find (\<lambda>y. ri_item_id y = k) ys = Some y"
  shows "mset ys = add_mset y (mset (filter (\<lambda>z. ri_item_id z \<noteq> k) ys))"
  using assms
proof (induction ys)
  case (Cons z zs)
  then have "ri_item_id z = k \<Longrightarrow> filter (\<lambda>z. ri_item_id z \<noteq> k) zs = zs" by (intro filter_True) (auto simp: image_iff)
  with Cons show ?case by (auto split: if_splits)
qed simp

lemma take_item_Some:
  assumes "take_item k xs = Some (y, ys)" and "distinct (map fst (lines_of xs))"
  shows "ri_item_id y = k \<and> mset (lines_of xs) = add_mset (line_of y) (mset (lines_of ys))"
  using assms
proof (induction xs arbitrary: ys)
  case (Cons x xs)
  then have d: "distinct (map ri_item_id (rs_items x))" by (simp add: line_of_def o_def)
  show ?case
  proof (cases "List.find (\<lambda>y. ri_item_id y = k) (rs_items x)")
    case (Some z)
    with Cons.prems have z: "z = y" and ys: "ys = x\<lparr> rs_items := filter (\<lambda>z. ri_item_id z \<noteq> k) (rs_items x) \<rparr> # xs" by simp_all
    have "mset (map line_of (rs_items x)) = image_mset line_of (add_mset y (mset (filter (\<lambda>z. ri_item_id z \<noteq> k) (rs_items x))))"
      using remove_by_id [OF d Some] z by simp
    moreover have "ri_item_id y = k" using find_Some_in [OF Some] z by simp
    ultimately show ?thesis by (simp add: ys)
  next
    case None
    with Cons show ?thesis by auto
  qed
qed simp

lemma put_item_lines: "list_ex (\<lambda>x. rs_store_id x = i) xs \<Longrightarrow> mset (lines_of (put_item i y xs)) = add_mset (line_of y) (mset (lines_of xs))"
  by (induction xs) auto

lemma put_item_ids [simp]: "map rs_store_id (put_item i y xs) = map rs_store_id xs"
  by (induction xs) auto

lemma put_item_there: "list_ex (\<lambda>x. rs_store_id x = i) xs \<Longrightarrow> \<exists>x \<in> set (put_item i y xs). rs_store_id x = i \<and> y \<in> set (rs_items x)"
  by (induction xs) auto

lemma put_item_keeps: "x \<in> set xs \<Longrightarrow> \<exists>z \<in> set (put_item i y xs). rs_store_id z = rs_store_id x \<and> set (rs_items x) \<subseteq> set (rs_items z)"
  by (induction xs) auto

lemma change_route_Inr:
  assumes "change_route ck k u f s = (Inr r', t)"
  obtains r where "get_route s k = Some r" "ro_user_id r = u" "now ck < ro_expires_at r" "ro_status r = ''ready''" "f s r = Inr r'"
    "ro_total_price r' < 10 ^ 8" "t = s\<lparr> optimized_routes := update_where (\<lambda>x. ro_id x = k) (\<lambda>_. r') (optimized_routes s) \<rparr>"
  using assms
  by (auto simp: change_route_def load_owned_route_def assert_owner_def is_expired_def set_route_def bnd_Inr_iff seq_Inr_iff
      split: option.splits if_splits sum.splits)

lemma get_route_in: "get_route s k = Some r \<Longrightarrow> r \<in> set (optimized_routes s) \<and> ro_id r = k"
  unfolding get_route_def by (rule find_Some_in)

lemma get_changed_route:
  assumes "get_route s k = Some r" and "ro_id r' = k"
  shows "get_route (s\<lparr> optimized_routes := update_where (\<lambda>x. ro_id x = k) (\<lambda>_. r') (optimized_routes s) \<rparr>) k = Some r'"
proof -
  have "List.find (\<lambda>x. ro_id x = k) rs = Some r \<Longrightarrow> List.find (\<lambda>x. ro_id x = k) (update_where (\<lambda>x. ro_id x = k) (\<lambda>_. r') rs) = Some r'"
    for rs :: "route_row list" using assms(2) by (induction rs) (auto split: if_splits)
  with assms(1) show ?thesis by (simp add: get_route_def)
qed

text \<open>
  C38 (safety). Moving an item to another store loses and doubles nothing: the items of the route with their quantities are the same,
  the item is at the target store with the price of that store, no store is left empty, the counter and the total agree with the
  stores, and the target is a usable store of the table.
\<close>

theorem move_item_conserves:
  assumes run: "move_item E cfg k u item i s = (Inr r', t)" and old: "get_route s k = Some r"
    and ids: "distinct (map fst (route_lines r))"
  shows "get_route t k = Some r' \<and> mset (route_lines r') = mset (route_lines r) \<and> totals_ok r'
    \<and> list_all (\<lambda>x. rs_items x \<noteq> []) (rt_stores (ro_steps r'))
    \<and> list_ex (\<lambda>x. rs_store_id x = i \<and> list_ex (\<lambda>y. ri_item_id y = item
        \<and> ri_price y = pr_price (resolve_price E cfg s (ri_product_ean y) i)) (rs_items x)) (rt_stores (ro_steps r'))
    \<and> (\<exists>x. get_store s i = Some x \<and> assert_store_usable x = None)"
proof -
  from run old have move: "move_item_in_route E cfg item i s r = Inr r'"
    and t: "t = s\<lparr> optimized_routes := update_where (\<lambda>x. ro_id x = k) (\<lambda>_. r') (optimized_routes s) \<rparr>"
    unfolding move_item_def by (auto elim: change_route_Inr)
  from move obtain y rest x where take: "take_item item (rt_stores (ro_steps r)) = Some (y, rest)"
    and x: "get_store s i = Some x" "assert_store_usable x = None"
    and r': "r' = with_stores (filter (\<lambda>z. rs_items z \<noteq> []) (put_item i (priced_item (resolve_price E cfg s (ri_product_ean y) i) y)
      (if list_ex (\<lambda>z. rs_store_id z = i) rest then rest else rest @ [new_route_store x (int (length rest) + 1)])))
      (rt_warnings (ro_steps r)) r"
    by (auto simp: move_item_in_route_def Let_def split: option.splits)
  define stores where "stores = (if list_ex (\<lambda>z. rs_store_id z = i) rest then rest else rest @ [new_route_store x (int (length rest) + 1)])"
  note r' = r' [folded stores_def]
  let ?y = "priced_item (resolve_price E cfg s (ri_product_ean y) i) y"
  from take_item_Some [OF take] ids have y: "ri_item_id y = item"
    and lines: "mset (lines_of (rt_stores (ro_steps r))) = add_mset (line_of y) (mset (lines_of rest))" by (simp_all add: route_lines_def)
  have "ls_id x = i" using x(1) unfolding get_store_def by (auto dest: find_Some_in)
  then have there: "list_ex (\<lambda>z. rs_store_id z = i) stores" by (auto simp: stores_def list_ex_iff new_route_store_def)
  have "lines_of stores = lines_of rest" by (simp add: stores_def new_route_store_def)
  with put_item_lines [OF there, of ?y] lines have "mset (route_lines r') = mset (route_lines r)" by (simp add: r' route_lines_def)
  moreover obtain w where w: "w \<in> set (put_item i ?y stores)" "rs_store_id w = i" "?y \<in> set (rs_items w)"
    using put_item_there [OF there, of ?y] by blast
  then have "recalculated w \<in> set (rt_stores (ro_steps r'))" by (auto simp: r')
  then have "list_ex (\<lambda>x. rs_store_id x = i \<and> list_ex (\<lambda>y. ri_item_id y = item
        \<and> ri_price y = pr_price (resolve_price E cfg s (ri_product_ean y) i)) (rs_items x)) (rt_stores (ro_steps r'))"
    unfolding list_ex_iff using w y by (intro bexI [of _ "recalculated w"] conjI bexI [of _ ?y]) simp_all
  moreover have "list_all (\<lambda>x. rs_items x \<noteq> []) (rt_stores (ro_steps r'))" by (simp add: r' list_all_iff)
  moreover have "get_route t k = Some r'" unfolding t using get_route_in [OF old] by (intro get_changed_route [OF old]) (simp add: r')
  ultimately show ?thesis using x by (simp add: r')
qed

section \<open>Dropping a store\<close>

abbreviation price_at :: "route_env \<Rightarrow> optimiser_cfg \<Rightarrow> list_db \<Rightarrow> string \<Rightarrow> uuid \<Rightarrow> rat option" where
  "price_at E cfg s ean i \<equiv> pr_price (resolve_price E cfg s ean i)"

definition cheapest_there :: "route_env \<Rightarrow> optimiser_cfg \<Rightarrow> list_db \<Rightarrow> string \<Rightarrow> uuid set \<Rightarrow> uuid \<Rightarrow> bool" where
  "cheapest_there E cfg s ean ids i \<longleftrightarrow> (case price_at E cfg s ean i of
       None \<Rightarrow> \<forall>j \<in> ids. price_at E cfg s ean j = None
     | Some c \<Rightarrow> \<forall>j \<in> ids. \<forall>b. price_at E cfg s ean j = Some b \<longrightarrow> c \<le> b)"

definition placed_well :: "route_env \<Rightarrow> optimiser_cfg \<Rightarrow> list_db \<Rightarrow> route_store list \<Rightarrow> route_item \<Rightarrow> bool" where
  "placed_well E cfg s xs y \<longleftrightarrow> list_ex (\<lambda>x. list_ex (\<lambda>z. line_of z = line_of y
       \<and> ri_price z = price_at E cfg s (ri_product_ean y) (rs_store_id x)) (rs_items x)
     \<and> cheapest_there E cfg s (ri_product_ean y) (set (map rs_store_id xs)) (rs_store_id x)) xs"

lemma best_remaining_spec:
  "case best_remaining E cfg s ean xs of
     None \<Rightarrow> \<forall>j \<in> set (map rs_store_id xs). price_at E cfg s ean j = None
   | Some (i, p, c) \<Rightarrow> i \<in> set (map rs_store_id xs) \<and> p = resolve_price E cfg s ean i \<and> pr_price p = Some c
       \<and> (\<forall>j \<in> set (map rs_store_id xs). \<forall>b. price_at E cfg s ean j = Some b \<longrightarrow> c \<le> b)"
proof (induction xs rule: rev_induct)
  case Nil
  show ?case by (simp add: best_remaining_def)
next
  case (snoc x xs)
  let ?f = "\<lambda>x best. (let p = resolve_price E cfg s ean (rs_store_id x) in
      case pr_price p of
        None \<Rightarrow> best
      | Some c \<Rightarrow> (case best of
          None \<Rightarrow> Some (rs_store_id x, p, c)
        | Some (_, _, b) \<Rightarrow> if c < b then Some (rs_store_id x, p, c) else best))"
  have step: "best_remaining E cfg s ean (xs @ [x]) = ?f x (best_remaining E cfg s ean xs)"
    unfolding best_remaining_def by simp
  show ?case using snoc.IH unfolding step Let_def by (auto split: option.splits)
qed

lemma place_item_spec:
  assumes "xs \<noteq> []"
  obtains i where "i \<in> set (map rs_store_id xs)" and "cheapest_there E cfg s (ri_product_ean y) (set (map rs_store_id xs)) i"
    and "fst (place_item E cfg s y (xs, ws)) = put_item i (priced_item (resolve_price E cfg s (ri_product_ean y) i) y) xs"
proof (cases "best_remaining E cfg s (ri_product_ean y) xs")
  case None
  with best_remaining_spec [where E = E and cfg = cfg and s = s and ean = "ri_product_ean y" and xs = xs]
  have none: "\<forall>j \<in> set (map rs_store_id xs). price_at E cfg s (ri_product_ean y) j = None" by simp
  show thesis
  proof (rule that [of "rs_store_id (hd xs)"])
    show "rs_store_id (hd xs) \<in> set (map rs_store_id xs)" using assms by (cases xs) simp_all
    then have "price_at E cfg s (ri_product_ean y) (rs_store_id (hd xs)) = None" using none by blast
    then show "cheapest_there E cfg s (ri_product_ean y) (set (map rs_store_id xs)) (rs_store_id (hd xs))"
      using none by (simp add: cheapest_there_def)
  qed (simp add: place_item_def None)
next
  case (Some b)
  obtain i p c where b: "b = (i, p, c)" by (cases b)
  with Some best_remaining_spec [where E = E and cfg = cfg and s = s and ean = "ri_product_ean y" and xs = xs]
  have "i \<in> set (map rs_store_id xs)" "p = resolve_price E cfg s (ri_product_ean y) i" "pr_price p = Some c"
    "\<forall>j \<in> set (map rs_store_id xs). \<forall>b. price_at E cfg s (ri_product_ean y) j = Some b \<longrightarrow> c \<le> b" by auto
  then show thesis by (intro that [of i]) (simp_all add: cheapest_there_def place_item_def Some b)
qed

lemma placed_well_put:
  assumes "placed_well E cfg s xs y"
  shows "placed_well E cfg s (put_item i z xs) y"
proof -
  from assms obtain x y' where x: "x \<in> set xs" "y' \<in> set (rs_items x)" "line_of y' = line_of y"
      "ri_price y' = price_at E cfg s (ri_product_ean y) (rs_store_id x)"
      "cheapest_there E cfg s (ri_product_ean y) (set (map rs_store_id xs)) (rs_store_id x)"
    by (auto simp: placed_well_def list_ex_iff)
  from put_item_keeps [OF x(1), of i z] obtain w where "w \<in> set (put_item i z xs)" "rs_store_id w = rs_store_id x"
    "set (rs_items x) \<subseteq> set (rs_items w)" by blast
  with x show ?thesis unfolding placed_well_def list_ex_iff put_item_ids by (metis subsetD)
qed

lemma place_items:
  assumes "xs \<noteq> []" and "fold (place_item E cfg s) ys (xs, ws) = (zs, ws')"
  shows "mset (lines_of zs) = mset (lines_of xs) + mset (map line_of ys) \<and> map rs_store_id zs = map rs_store_id xs
    \<and> (\<forall>y. y \<in> set ys \<or> placed_well E cfg s xs y \<longrightarrow> placed_well E cfg s zs y)"
  using assms
proof (induction ys arbitrary: xs ws)
  case (Cons y ys)
  obtain i where i: "i \<in> set (map rs_store_id xs)" "cheapest_there E cfg s (ri_product_ean y) (set (map rs_store_id xs)) i"
    and put: "fst (place_item E cfg s y (xs, ws)) = put_item i (priced_item (resolve_price E cfg s (ri_product_ean y) i) y) xs"
    by (rule place_item_spec [OF Cons.prems(1)])
  let ?y = "priced_item (resolve_price E cfg s (ri_product_ean y) i) y"
  let ?xs = "put_item i ?y xs"
  obtain ws1 where place: "place_item E cfg s y (xs, ws) = (?xs, ws1)" using put by (metis prod.collapse)
  have there: "list_ex (\<lambda>x. rs_store_id x = i) xs" using i(1) by (auto simp: list_ex_iff)
  have ids: "map rs_store_id ?xs = map rs_store_id xs" by simp
  have "?xs \<noteq> []" using Cons.prems(1) ids by (metis map_is_Nil_conv)
  from Cons.IH [OF this, of ws1] Cons.prems(2) place
  have IH: "mset (lines_of zs) = mset (lines_of ?xs) + mset (map line_of ys)" "map rs_store_id zs = map rs_store_id xs"
    "\<And>z. z \<in> set ys \<or> placed_well E cfg s ?xs z \<Longrightarrow> placed_well E cfg s zs z" by auto
  from put_item_there [OF there, of ?y] obtain w where "w \<in> set ?xs" "rs_store_id w = i" "?y \<in> set (rs_items w)" by blast
  with i(2) have "placed_well E cfg s ?xs y"
    unfolding placed_well_def list_ex_iff put_item_ids by (intro bexI [of _ w] conjI bexI [of _ ?y]) simp_all
  with IH put_item_lines [OF there, of ?y] placed_well_put [of E cfg s xs _ i ?y] show ?case by auto
qed simp

lemma renumbered_facts:
  "lines_of (renumbered xs) = lines_of xs" "map rs_store_id (renumbered xs) = map rs_store_id xs"
  "map rs_order (renumbered xs) = [1..int (length xs)]" "map rs_items (renumbered xs) = map rs_items xs"
proof -
  have same: "map f (map (\<lambda>(n, x). x\<lparr> rs_order := n \<rparr>) (zip ns xs)) = map f xs"
    if "length ns = length xs" "\<And>x n. f (x\<lparr> rs_order := n \<rparr>) = f x" for f :: "route_store \<Rightarrow> 'a" and ns
    using that(1) by (induction ns xs rule: list_induct2) (simp_all add: that(2))
  show "map rs_store_id (renumbered xs) = map rs_store_id xs" and items: "map rs_items (renumbered xs) = map rs_items xs"
    unfolding renumbered_def by (rule same; simp)+
  have "map (map line_of) (map rs_items (renumbered xs)) = map (map line_of) (map rs_items xs)" unfolding items ..
  then show "lines_of (renumbered xs) = lines_of xs" by (simp add: lines_of_def o_def)
  have "map rs_order (map (\<lambda>(n, x). x\<lparr> rs_order := n \<rparr>) (zip ns xs)) = ns" if "length ns = length xs" for ns
    using that by (induction ns xs rule: list_induct2) simp_all
  then show "map rs_order (renumbered xs) = [1..int (length xs)]" by (simp add: renumbered_def)
qed

lemma placed_well_same:
  assumes "placed_well E cfg s xs y" and "map rs_store_id zs = map rs_store_id xs"
    and "\<And>x. x \<in> set xs \<Longrightarrow> \<exists>z \<in> set zs. rs_store_id z = rs_store_id x \<and> rs_items z = rs_items x"
  shows "placed_well E cfg s zs y"
proof -
  from assms(1) obtain x where x: "x \<in> set xs" "list_ex (\<lambda>z. line_of z = line_of y \<and> ri_price z = price_at E cfg s (ri_product_ean y) (rs_store_id x)) (rs_items x)"
    "cheapest_there E cfg s (ri_product_ean y) (set (map rs_store_id xs)) (rs_store_id x)" by (auto simp: placed_well_def list_ex_iff)
  from assms(3) [OF x(1)] obtain z where "z \<in> set zs" "rs_store_id z = rs_store_id x" "rs_items z = rs_items x" by blast
  with x show ?thesis unfolding placed_well_def assms(2) list_ex_iff [of _ zs] by (intro bexI [of _ z]) simp_all
qed

lemma renumbered_same: "x \<in> set xs \<Longrightarrow> \<exists>z \<in> set (renumbered xs). rs_store_id z = rs_store_id x \<and> rs_items z = rs_items x"
proof -
  have "x \<in> set xs \<Longrightarrow> \<exists>z \<in> set (map (\<lambda>(n, x). x\<lparr> rs_order := n \<rparr>) (zip ns xs)). rs_store_id z = rs_store_id x \<and> rs_items z = rs_items x"
    if "length ns = length xs" for ns
    using that by (induction ns xs rule: list_induct2) auto
  then show "x \<in> set xs \<Longrightarrow> ?thesis" by (simp add: renumbered_def)
qed

lemma drop_store:
  assumes "distinct (map rs_store_id xs)" and "x \<in> set xs"
  shows "mset (lines_of xs) = mset (lines_of (filter (\<lambda>z. rs_store_id z \<noteq> rs_store_id x) xs)) + mset (map line_of (rs_items x))
    \<and> length xs = Suc (length (filter (\<lambda>z. rs_store_id z \<noteq> rs_store_id x) xs))"
  using assms
proof (induction xs)
  case (Cons a xs)
  have "a = x \<Longrightarrow> filter (\<lambda>z. rs_store_id z \<noteq> rs_store_id x) xs = xs"
    using Cons.prems(1) by (intro filter_True) (auto simp: image_iff)
  with Cons show ?case by (auto simp: image_iff)
qed simp

text \<open>
  Dropping a store keeps every item of the route with its quantity: the remaining stores are the others in their
  order, numbered from one, every item of the dropped store is at the remaining store that sells it cheapest, with that price (none
  at all only when no remaining store has one), and the counter and the total agree with the stores.
\<close>

theorem remove_store_redistributes:
  assumes run: "remove_store E cfg k u i s = (Inr r', t)" and old: "get_route s k = Some r"
    and ids: "distinct (map rs_store_id (rt_stores (ro_steps r)))"
    and x: "x \<in> set (rt_stores (ro_steps r))" "rs_store_id x = i"
  shows "get_route t k = Some r' \<and> mset (route_lines r') = mset (route_lines r) \<and> totals_ok r'
    \<and> map rs_store_id (rt_stores (ro_steps r')) = filter (\<lambda>j. j \<noteq> i) (map rs_store_id (rt_stores (ro_steps r)))
    \<and> map rs_order (rt_stores (ro_steps r')) = [1..rt_total_stores (ro_steps r')]
    \<and> list_all (placed_well E cfg s (rt_stores (ro_steps r'))) (rs_items x)"
proof -
  let ?xs = "rt_stores (ro_steps r)" and ?rest = "filter (\<lambda>z. rs_store_id z \<noteq> i) (rt_stores (ro_steps r))"
  from run old have drop: "remove_store_from_route E cfg i s r = Inr r'"
    and t: "t = s\<lparr> optimized_routes := update_where (\<lambda>x. ro_id x = k) (\<lambda>_. r') (optimized_routes s) \<rparr>"
    unfolding remove_store_def by (auto elim: change_route_Inr)
  have find: "List.find (\<lambda>z. rs_store_id z = i) ?xs = Some x" using find_distinct_key [OF ids x(1)] x(2) by simp
  obtain zs ws where fold: "fold (place_item E cfg s) (rs_items x) (?rest, rt_warnings (ro_steps r)) = (zs, ws)" by force
  from drop find fold have r': "r' = with_stores (renumbered zs) ws r" and len: "1 < length ?xs"
    by (auto simp: remove_store_from_route_def Let_def split: if_splits)
  have split: "mset (lines_of ?xs) = mset (lines_of ?rest) + mset (map line_of (rs_items x))"
    and size: "length ?xs = Suc (length ?rest)" using drop_store [OF ids x(1)] x(2) by simp_all
  then have "?rest \<noteq> []" using len by auto
  from place_items [OF this fold] have placed: "mset (lines_of zs) = mset (lines_of ?rest) + mset (map line_of (rs_items x))"
    "map rs_store_id zs = map rs_store_id ?rest" "\<And>y. y \<in> set (rs_items x) \<Longrightarrow> placed_well E cfg s zs y" by auto
  have n: "rt_total_stores (ro_steps r') = int (length zs)" using renumbered_facts(2) [of zs]
    by (simp add: r' with_stores_def) (metis length_map)
  have "placed_well E cfg s (rt_stores (ro_steps r')) y" if "y \<in> set (rs_items x)" for y
  proof -
    have "placed_well E cfg s (renumbered zs) y"
      by (rule placed_well_same [OF placed(3) [OF that] renumbered_facts(2) renumbered_same])
    then have "placed_well E cfg s (map recalculated (renumbered zs)) y"
      by (rule placed_well_same) (auto simp: o_def)
    then show ?thesis by (simp add: r')
  qed
  moreover have "map rs_order (rt_stores (ro_steps r')) = [1..rt_total_stores (ro_steps r')]"
    unfolding n using renumbered_facts(3) [of zs] by (simp add: r' o_def)
  moreover have "map rs_store_id (rt_stores (ro_steps r')) = filter (\<lambda>j. j \<noteq> i) (map rs_store_id ?xs)"
    using placed(2) renumbered_facts(2) [of zs] by (simp add: r' o_def filter_map)
  moreover have "mset (route_lines r') = mset (route_lines r)" using placed(1) split by (simp add: r' renumbered_facts(1) route_lines_def)
  moreover have "get_route t k = Some r'" unfolding t using get_route_in [OF old] by (intro get_changed_route [OF old]) (simp add: r')
  ultimately show ?thesis by (simp add: r' list_all_iff)
qed

section \<open>The task\<close>

lemma mark_route_failed_snd:
  "snd (mark_route_failed k s) = s\<lparr> optimized_routes := update_where (\<lambda>r. ro_id r = k \<and> ro_status r = ''computing'')
     (\<lambda>r. r\<lparr> ro_status := ''failed'' \<rparr>) (optimized_routes s) \<rparr>"
  by (simp add: mark_route_failed_def set_route_def bnd_def seq_def)

lemma get_route_marked:
  assumes "\<And>r. ro_id (f r) = ro_id r"
  shows "get_route (s\<lparr> optimized_routes := update_where p f (optimized_routes s) \<rparr>) k = map_option (\<lambda>r. if p r then f r else r) (get_route s k)"
  using assms by (simp add: get_route_def find_update_where_any)

text \<open>When the computation never ends.\<close>

definition route_hangs :: "route_env \<Rightarrow> optimiser_cfg \<Rightarrow> uuid \<Rightarrow> uuid \<Rightarrow> rat \<Rightarrow> rat \<Rightarrow> list_db \<Rightarrow> bool" where
  "route_hangs E cfg u i lat lng s =
     (let radius_km = (case user_preferences s u of Some p \<Rightarrow> fst p | None \<Rightarrow> oc_default_radius cfg);
          ids = map ls_id (nearby_stores E s lat lng radius_km (excluded_ids s u)); eans = map it_product_ean (unchecked_items s i);
          prices = route_prices E cfg s ids eans; asg = initial_assignments prices ids eans; m = oc_min_items_per_store cfg in
      eans \<noteq> [] \<and> ids \<noteq> [] \<and> qualifying m asg \<noteq> [] \<and> list_ex (stranded prices m asg) asg)"

lemma case_Some_None: "(case x of None \<Rightarrow> None | Some y \<Rightarrow> Some (f y)) = None \<longleftrightarrow> x = None"
  by (cases x) simp_all

lemma compute_route_None:
  assumes "\<And>xs. set (re_iter E xs) = set xs"
  shows "compute_route_data E cfg u i lat lng s = None \<longleftrightarrow> route_hangs E cfg u i lat lng s"
  unfolding compute_route_data_def route_hangs_def Let_def assign_items_to_stores_def split_def
  by (cases "user_preferences s u"; cases "unchecked_items s i = []") (simp_all add: case_Some_None set_order.never_ends_iff [OF set_order.intro, OF assms])


section \<open>An expired route that is still computing\<close>

lemma latest_None: "latest rs = None \<longleftrightarrow> rs = []"
  by (auto simp: latest_def split: list.splits dest: arg_cong [where f = length])

lemma latest_in: "latest rs = Some r \<Longrightarrow> r \<in> set rs"
proof -
  assume "latest rs = Some r"
  then obtain xs where "sort_key (\<lambda>r. - ro_computed_at r) rs = r # xs" by (auto simp: latest_def split: list.splits)
  then have "r \<in> set (sort_key (\<lambda>r. - ro_computed_at r) rs)" by simp
  then show ?thesis by simp
qed

lemma trigger_without_route:
  assumes l: "get_list s i = Some l" "\<not> li_is_template l" and size: "count_items s i \<le> oc_max_items_per_list cfg"
    and items: "unchecked_items s i \<noteq> []" and none: "get_computing_route (re_clock E) s i = None"
  shows "trigger_optimization E cfg (li_user_id l) i (Some lat) (Some lng) s = start_route E cfg (li_user_id l) i s"
proof -
  have "load_owned_list i (li_user_id l) s = (Inr l, s)" using l by (simp add: load_owned_list_def catch_def owned_list_Inr [THEN iffD2])
  moreover have "validate_for_optimization (li_user_id l) i (Some lat) (Some lng) s = (Inr (lat, lng), s)"
    using items by (simp add: validate_for_optimization_def)
  ultimately show ?thesis using l size none
    by (simp add: trigger_optimization_def bnd_run_Inr [of "load_owned_list i (li_user_id l)"] catch_def seq_def bnd_def)
qed

lemma create_pending_run:
  assumes "0 < oc_route_expiry_hours cfg"
  shows "list_ex (\<lambda>x. ro_list_id x = i \<and> ro_status x = ''computing'') (optimized_routes s) \<Longrightarrow>
      create_pending_route cfg ck u i s = (Inl (Integrity ''uq_optimized_routes_one_computing_per_list''), s\<lparr> next_id := Suc (next_id s) \<rparr>)"
    and "\<not> list_ex (\<lambda>x. ro_list_id x = i \<and> ro_status x = ''computing'') (optimized_routes s) \<Longrightarrow>
      \<exists>t. create_pending_route cfg ck u i s = (Inr (next_id s), t)"
  using assms by (simp_all add: create_pending_route_def insert_route_def seq_def bnd_def)

text \<open>
  C37 (error). A route that is still computing when it expires blocks its list: the ghost reset only looks at routes that have not
  expired, but the unique index counts them all, so every further optimisation of the list ends in an integrity error (a 500) and
  changes nothing, until the daily purge removes the route.
\<close>

theorem expired_route_blocks:
  assumes l: "get_list s i = Some l" "\<not> li_is_template l" and size: "count_items s i \<le> oc_max_items_per_list cfg"
    and items: "unchecked_items s i \<noteq> []" and hours: "0 < oc_route_expiry_hours cfg"
    and stuck: "list_ex (\<lambda>r. ro_list_id r = i \<and> ro_status r = ''computing'') (optimized_routes s)"
    and expired: "list_all (\<lambda>r. ro_list_id r = i \<and> ro_status r = ''computing'' \<longrightarrow> ro_expires_at r < now (re_clock E)) (optimized_routes s)"
  shows "trigger_optimization E cfg (li_user_id l) i (Some lat) (Some lng) s =
      (Inl (Integrity ''uq_optimized_routes_one_computing_per_list''), s)
    \<and> (\<exists>k t. trigger_optimization E cfg (li_user_id l) i (Some lat) (Some lng) (snd (purge_optimized_routes (re_clock E) s)) = (Inr k, t))"
proof
  have none: "get_computing_route (re_clock E) s i = None"
    using expired by (auto simp: get_computing_route_def latest_None filter_empty_conv list_all_iff)
  have "start_route E cfg (li_user_id l) i s = (Inl (Integrity ''uq_optimized_routes_one_computing_per_list''), s)"
    using none by (simp add: start_route_def db_transaction_def create_pending_run(1) [OF hours stuck])
  then show "trigger_optimization E cfg (li_user_id l) i (Some lat) (Some lng) s =
      (Inl (Integrity ''uq_optimized_routes_one_computing_per_list''), s)"
    using trigger_without_route [OF l size items none] by simp
next
  let ?s = "snd (purge_optimized_routes (re_clock E) s)"
  have same: "get_list ?s i = Some l" "count_items ?s i \<le> oc_max_items_per_list cfg" "unchecked_items ?s i \<noteq> []"
    using l size items by (simp_all add: purge_optimized_routes_def get_list_def count_items_def unchecked_items_def items_of_def)
  have gone: "\<not> list_ex (\<lambda>r. ro_list_id r = i \<and> ro_status r = ''computing'') (optimized_routes ?s)"
    using expired by (auto simp: purge_optimized_routes_def list_ex_iff list_all_iff)
  then have none: "get_computing_route (re_clock E) ?s i = None"
    by (auto simp: get_computing_route_def latest_None filter_empty_conv list_ex_iff)
  obtain t where "create_pending_route cfg (re_clock E) (li_user_id l) i ?s = (Inr (next_id ?s), t)"
    using create_pending_run(2) [OF hours gone] by blast
  then have "\<exists>k t. start_route E cfg (li_user_id l) i ?s = (Inr k, t)"
    by (simp add: start_route_def db_transaction_def set_route_def seq_def)
  then show "\<exists>k t. trigger_optimization E cfg (li_user_id l) i (Some lat) (Some lng) ?s = (Inr k, t)"
    using trigger_without_route [OF same(1) l(2) same(2,3) none] by simp
qed

section \<open>A computed route covers the list\<close>

text \<open>The engine keeps the products, in their order, and only uses the stores it was given.\<close>

definition uses :: "string list \<Rightarrow> uuid set \<Rightarrow> assignments \<Rightarrow> bool" where
  "uses eans S asg \<longleftrightarrow> map fst asg = eans \<and> (\<forall>(e, a) \<in> set asg. sa_store_id a \<in> S)"

lemma uses_counted: "uses eans S asg \<Longrightarrow> set (counted_stores asg) \<subseteq> S"
  by (auto simp: uses_def counted_stores_def)

lemma reassign_store: "sa_store_id (reassign prices ss e a) \<in> insert (sa_store_id a) (set ss)"
  by (auto simp: reassign_def dest: cheapest_SomeD split: option.splits)

lemma uses_map:
  assumes "uses eans S asg" and "\<And>e a. (e, a) \<in> set asg \<Longrightarrow> sa_store_id (f e a) \<in> S"
  shows "uses eans S (map (\<lambda>(e, a). (e, f e a)) asg)"
proof -
  have "map fst (map (\<lambda>(e, a). (e, f e a)) asg) = map fst asg" by (simp add: split_def o_def)
  with assms show ?thesis by (auto simp: uses_def)
qed

lemma uses_redistribute:
  assumes iter: "\<And>xs. set (iter xs) = set xs" and "uses eans S asg" and "redistribute_under_threshold iter prices m asg = Some r"
  shows "uses eans S r"
proof (rule while_option_rule [where P = "uses eans S", OF _ assms(3) [unfolded redistribute_under_threshold_def] assms(2)])
  fix x assume x: "uses eans S x"
  have "set (qualifying m x) \<subseteq> S" using uses_counted [OF x] by (auto simp: qualifying_def)
  then have "sa_store_id (if sa_store_id a = w then reassign prices (iter (qualifying m x)) e a else a) \<in> S" if "(e, a) \<in> set x" for e a w
    using reassign_store [of prices "iter (qualifying m x)" e a] x that by (auto simp: uses_def iter)
  then show "uses eans S (redistribute_round iter prices m x)" unfolding redistribute_round_def Let_def by (intro uses_map [OF x])
qed

lemma uses_cap:
  assumes iter: "\<And>xs. set (iter xs) = set xs" and u: "uses eans S asg"
  shows "uses eans S (cap_to_max_stores iter asg prices n)"
proof -
  have "set (slice_to n (ranked_stores asg)) \<subseteq> set (ranked_stores asg)" by (auto simp: slice_to_def dest: in_set_takeD)
  then have kept: "set (slice_to n (ranked_stores asg)) \<subseteq> S" using uses_counted [OF u] by simp
  have "sa_store_id (if sa_store_id a \<in> set (slice_to n (ranked_stores asg)) then a
      else reassign prices (iter (slice_to n (ranked_stores asg))) e (unpriced_at (hd (ranked_stores asg)))) \<in> S"
    if "(e, a) \<in> set asg" for e a
  proof -
    have "ranked_stores asg \<noteq> []" using in_asg_counted [OF that] by (metis counted_iff set_ranked empty_iff list.set(1))
    then have "hd (ranked_stores asg) \<in> set (counted_stores asg)" by (metis hd_in_set set_ranked)
    then have "hd (ranked_stores asg) \<in> S" using uses_counted [OF u] by blast
    then show ?thesis
      using reassign_store [of prices "iter (slice_to n (ranked_stores asg))" e "unpriced_at (hd (ranked_stores asg))"] kept u that
      by (auto simp: uses_def iter unpriced_at_def)
  qed
  with u show ?thesis unfolding cap_to_max_stores_def Let_def by (auto intro!: uses_map)
qed

lemma uses_initial:
  assumes "stores \<noteq> []" and "distinct eans"
  shows "uses eans (set stores) (initial_assignments prices stores eans)"
proof -
  have "map fst (fold (assign_item prices stores) eans acc) = map fst acc @ eans"
    if "distinct (map fst acc @ eans)" for acc
    using that
  proof (induction eans arbitrary: acc)
    case (Cons e eans)
    then have "map fst (assign_item prices stores e acc) = map fst acc @ [e]"
      by (simp add: assign_item_target [OF assms(1)] update_keys)
    with Cons.IH [of "assign_item prices stores e acc"] Cons.prems show ?case by simp
  qed simp
  from this [of "[]"] assms target_store [OF assms(1)] show ?thesis
    by (auto simp: uses_def initial_assignments_def dest!: in_initial_iff [OF assms(1), unfolded initial_assignments_def, THEN iffD1])
qed

text \<open>Collecting a list by keys, each key once.\<close>

lemma sum_by_key:
  assumes "distinct ks" and "\<And>x. x \<in> set xs \<Longrightarrow> key x \<in> set ks"
  shows "sum_list (map (\<lambda>k. mset (map g (filter (\<lambda>x. key x = k) xs))) ks) = mset (map g xs)"
  using assms(2)
proof (induction xs)
  case Nil
  then show ?case by (induction ks) simp_all
next
  case (Cons x xs)
  have "sum_list (map (\<lambda>k. mset (map g (filter (\<lambda>x. key x = k) (x # xs)))) ks) =
      sum_list (map (\<lambda>k. (if key x = k then {#g x#} else {#}) + mset (map g (filter (\<lambda>x. key x = k) xs))) ks)"
    by (intro arg_cong [where f = sum_list] map_cong) simp_all
  also have "\<dots> = sum_list (map (\<lambda>k. if key x = k then {#g x#} else {#}) ks) + mset (map g xs)"
    using Cons by (simp add: sum_list_addf)
  also have "sum_list (map (\<lambda>k. if key x = k then {#g x#} else {#}) ks) = {#g x#}"
    using assms(1) Cons.prems by (simp add: sum_list_distinct_conv_sum_set)
  finally show ?case by simp
qed

lemma lines_of_sum: "mset (lines_of xs) = sum_list (map (\<lambda>x. mset (map line_of (rs_items x))) xs)"
  by (induction xs) simp_all

lemma plan_leg_order:
  assumes osrm: "\<And>p cs g d wp. re_trip E p cs = Some (g, d, wp) \<Longrightarrow> length wp = length cs"
    and leg: "plan_leg E lat lng mode stores assigned = Inr leg"
  shows "mset (lg_order leg) = mset assigned \<and> (\<forall>i \<in> set assigned. store_in stores i \<noteq> None)"
proof -
  from leg obtain xs where xs: "those (map (store_in stores) assigned) = Some xs"
    by (auto simp: plan_leg_def Let_def split: option.splits)
  have those: "those (map f ys) = Some zs \<Longrightarrow> (\<forall>y \<in> set ys. f y \<noteq> None) \<and> length zs = length ys" for f :: "uuid \<Rightarrow> list_store option" and ys zs
    by (induction ys arbitrary: zs) (auto split: option.splits)
  from those [OF xs] have len: "length xs = length assigned" and known: "\<forall>i \<in> set assigned. store_in stores i \<noteq> None" by simp_all
  have perm: "image_mset snd (mset (zip ns assigned)) = mset assigned" if "length ns = length assigned" for ns :: "int list"
    using that by (simp flip: mset_map)
  from leg xs len show ?thesis
    by (auto simp: plan_leg_def Let_def known perm osrm split: list.splits option.splits if_splits dest!: osrm)
qed

lemma numbered_all:
  assumes "\<forall>i \<in> set order. store_in stores i \<noteq> None"
  shows "map snd (numbered_stores stores order) = map (\<lambda>i. the (store_in stores i)) order"
proof -
  have "map snd (List.map_filter (\<lambda>(n, i). map_option (Pair n) (store_in stores i)) (zip ns order)) = map (\<lambda>i. the (store_in stores i)) order"
    if "length ns = length order" for ns :: "int list"
    using that assms by (induction ns order rule: list_induct2) (auto simp: List.map_filter_simps)
  then show ?thesis by (simp add: numbered_stores_def)
qed

definition row_line :: "item_row \<Rightarrow> uuid \<times> string \<times> int" where
  "row_line r = (it_id r, it_product_ean r, it_quantity r)"

lemma store_entry_sel:
  "rs_store_id (store_entry E s items asg (n, x)) = ls_id x"
  "map line_of (rs_items (store_entry E s items asg (n, x))) = map (\<lambda>(r, a). row_line r) (assigned_rows items asg (ls_id x))"
  by (simp_all add: store_entry_def item_entry_def line_of_def row_line_def split_def)

lemma assigned_rows_filter:
  assumes "\<forall>(e, a) \<in> set asg. e \<in> set (map it_product_ean items)"
  shows "map (\<lambda>(r, a). row_line r) (assigned_rows items asg i) =
    map (\<lambda>(e, a). row_line (the (List.find (\<lambda>r. it_product_ean r = e) items))) (filter (\<lambda>(e, a). sa_store_id a = i) asg)"
  using assms
proof (induction asg)
  case (Cons z asg)
  obtain e a where z: "z = (e, a)" by force
  with Cons.prems have "List.find (\<lambda>r. it_product_ean r = e) items \<noteq> None" by (auto simp: find_None_iff)
  with Cons z show ?case by (auto simp: assigned_rows_def List.map_filter_simps)
qed (simp add: assigned_rows_def List.map_filter_simps)

lemma build_route_lines:
  assumes u: "uses (map it_product_ean items) S asg" and eans: "distinct (map it_product_ean items)"
    and order: "mset (lg_order leg) = mset (counted_stores asg)" and known: "\<forall>i \<in> set (counted_stores asg). store_in stores i \<noteq> None"
  shows "mset (lines_of (rt_stores (rd_steps (build_route E s items stores asg leg)))) = mset (map row_line items)
    \<and> map rs_store_id (rt_stores (rd_steps (build_route E s items stores asg leg))) = lg_order leg"
proof -
  let ?ns = "numbered_stores stores (lg_order leg)" and ?row = "\<lambda>e. row_line (the (List.find (\<lambda>r. it_product_ean r = e) items))"
  have set: "set (lg_order leg) = set (counted_stores asg)" and dist: "distinct (lg_order leg)"
    using order mset_eq_setD mset_eq_imp_distinct_iff distinct_counted by blast+
  have ids: "map (ls_id \<circ> snd) ?ns = lg_order leg"
  proof -
    have "ls_id (the (store_in stores i)) = i" if "i \<in> set (lg_order leg)" for i
    proof -
      from known set that obtain x where x: "store_in stores i = Some x" by auto
      then show ?thesis unfolding store_in_def by (auto dest: find_Some_in)
    qed
    moreover have "map (ls_id \<circ> snd) ?ns = map ls_id (map snd ?ns)" by simp
    ultimately show ?thesis unfolding numbered_all [OF known [folded set]] by (simp add: map_idI)
  qed
  have entries: "rt_stores (rd_steps (build_route E s items stores asg leg)) = map (store_entry E s items asg) ?ns"
    by (simp add: build_route_def Let_def)
  have entry: "mset (map line_of (rs_items (store_entry E s items asg z))) =
      mset (map (\<lambda>(r, a). row_line r) (assigned_rows items asg ((ls_id \<circ> snd) z)))" for z
    by (cases z) (simp only: store_entry_sel(2) snd_conv o_apply)
  have keys: "\<forall>(e, a) \<in> set asg. e \<in> set (map it_product_ean items)"
  proof -
    have "map it_product_ean items = map fst asg" using u by (simp add: uses_def)
    then show ?thesis by (metis (no_types, lifting) case_prodI2 fst_conv image_eqI set_map)
  qed
  have "mset (lines_of (map (store_entry E s items asg) ?ns)) =
      sum_list (map (\<lambda>i. mset (map (\<lambda>(r, a). row_line r) (assigned_rows items asg i))) (map (ls_id \<circ> snd) ?ns))"
    unfolding lines_of_sum map_map by (simp only: o_apply entry cong: map_cong)
  also have "\<dots> = sum_list (map (\<lambda>i. mset (map (\<lambda>(e, a). ?row e) (filter (\<lambda>(e, a). sa_store_id a = i) asg))) (lg_order leg))"
    unfolding ids assigned_rows_filter [OF keys] ..
  also have "\<dots> = mset (map (\<lambda>(e, a). ?row e) asg)"
    using sum_by_key [OF dist, of asg "\<lambda>(e, a). sa_store_id a" "\<lambda>(e, a). ?row e"] in_asg_counted set
    by (simp add: split_def counted_iff) (metis prod.collapse)
  also have "map (\<lambda>(e, a). ?row e) asg = map ?row (map fst asg)" by (simp add: split_def)
  also have "\<dots> = map row_line items"
  proof -
    have "List.find (\<lambda>x. it_product_ean x = it_product_ean r) items = Some r" if "r \<in> set items" for r
      using find_distinct_key [OF eans that] .
    then show ?thesis using u by (simp add: uses_def)
  qed
  finally have "mset (lines_of (map (store_entry E s items asg) ?ns)) = mset (map row_line items)" .
  moreover have "map rs_store_id (map (store_entry E s items asg) ?ns) = map (ls_id \<circ> snd) ?ns" by (simp add: store_entry_def split_def)
  ultimately show ?thesis unfolding entries ids by simp
qed

lemma compute_route_Inr:
  assumes run: "compute_route_data E cfg u i lat lng s = Some (Inr d)"
  obtains stores asg0 leg mode where "unchecked_items s i \<noteq> []" and "stores \<noteq> []"
    and "assign_items_to_stores (re_iter E) (map it_product_ean (unchecked_items s i)) (map ls_id stores)
       (route_prices E cfg s (map ls_id stores) (map it_product_ean (unchecked_items s i))) (oc_min_items_per_store cfg) = Some asg0"
    and "plan_leg E lat lng mode stores (re_iter E (counted_stores (cap_to_max_stores (re_iter E) asg0
       (route_prices E cfg s (map ls_id stores) (map it_product_ean (unchecked_items s i))) (oc_max_stores_in_route cfg)))) = Inr leg"
    and "d = build_route E s (unchecked_items s i) stores (cap_to_max_stores (re_iter E) asg0
       (route_prices E cfg s (map ls_id stores) (map it_product_ean (unchecked_items s i))) (oc_max_stores_in_route cfg)) leg"
  using run unfolding compute_route_data_def Let_def
  by (auto split: prod.splits if_splits option.splits sum.splits)

text \<open>
  C35 (functional). When a route is computed, every unchecked item of the list is in it exactly once with its quantity, no store
  appears twice, and the counters and the total agree with the stores. This rests on OSRM answering a trip with one
  waypoint per coordinate.
\<close>

theorem route_covers_list:
  assumes ok: "lists_ok nmax s" and iter: "\<And>xs. mset (re_iter E xs) = mset xs"
    and osrm: "\<And>p cs g d wp. re_trip E p cs = Some (g, d, wp) \<Longrightarrow> length wp = length cs"
    and run: "compute_route_data E cfg u i lat lng s = Some (Inr d)"
  shows "mset (lines_of (rt_stores (rd_steps d))) = mset (map row_line (unchecked_items s i))
    \<and> distinct (map fst (lines_of (rt_stores (rd_steps d)))) \<and> distinct (map rs_store_id (rt_stores (rd_steps d)))
    \<and> rt_total_items (rd_steps d) = int (length (lines_of (rt_stores (rd_steps d))))
    \<and> rt_total_stores (rd_steps d) = int (length (rt_stores (rd_steps d)))
    \<and> rd_total_price d = max (sum_list (map rs_subtotal (rt_stores (rd_steps d)))) (1 / 100)"
proof -
  let ?items = "unchecked_items s i" and ?eans = "map it_product_ean (unchecked_items s i)"
  have iter': "set (re_iter E xs) = set xs" for xs using iter by (rule mset_eq_setD)
  from run obtain stores asg0 leg mode where "?items \<noteq> []" "stores \<noteq> []"
    and asg0: "assign_items_to_stores (re_iter E) ?eans (map ls_id stores) (route_prices E cfg s (map ls_id stores) ?eans)
        (oc_min_items_per_store cfg) = Some asg0"
    and leg: "plan_leg E lat lng mode stores (re_iter E (counted_stores (cap_to_max_stores (re_iter E) asg0
        (route_prices E cfg s (map ls_id stores) ?eans) (oc_max_stores_in_route cfg)))) = Inr leg"
    and d: "d = build_route E s ?items stores (cap_to_max_stores (re_iter E) asg0 (route_prices E cfg s (map ls_id stores) ?eans)
        (oc_max_stores_in_route cfg)) leg" by (rule compute_route_Inr)
  let ?prices = "route_prices E cfg s (map ls_id stores) ?eans"
  define asg where "asg = cap_to_max_stores (re_iter E) asg0 ?prices (oc_max_stores_in_route cfg)"
  have eans: "distinct ?eans" and its: "distinct (map it_id ?items)"
    using ok lists_ok_source(2) [OF ok, where i = i]
    by (auto simp: unchecked_items_def items_of_def lists_ok_def distinct_map inj_on_def)
  have init: "uses ?eans (set (map ls_id stores)) (initial_assignments ?prices (map ls_id stores) ?eans)"
    by (rule uses_initial [OF _ eans]) (simp add: \<open>stores \<noteq> []\<close>)
  from asg0 \<open>?items \<noteq> []\<close> have red: "redistribute_under_threshold (re_iter E) ?prices (oc_min_items_per_store cfg)
      (initial_assignments ?prices (map ls_id stores) ?eans) = Some asg0" by (simp add: assign_items_to_stores_def)
  have "uses ?eans (set (map ls_id stores)) asg0" by (rule uses_redistribute [OF iter' init red])
  then have u: "uses ?eans (set (map ls_id stores)) asg" unfolding asg_def by (rule uses_cap [OF iter'])
  from plan_leg_order [OF osrm leg] have order: "mset (lg_order leg) = mset (counted_stores asg)"
    and known: "\<forall>j \<in> set (counted_stores asg). store_in stores j \<noteq> None" by (simp_all add: iter iter' flip: asg_def)
  have d: "d = build_route E s ?items stores asg leg" by (simp add: d asg_def)
  from build_route_lines [OF u eans order known, of E s] have lines: "mset (lines_of (rt_stores (rd_steps d))) = mset (map row_line ?items)"
    and ids: "map rs_store_id (rt_stores (rd_steps d)) = lg_order leg" unfolding d by blast+
  have "mset (map fst (lines_of (rt_stores (rd_steps d)))) = mset (map it_id ?items)"
    using lines by (simp add: row_line_def multiset.map_comp o_def)
  then have "distinct (map fst (lines_of (rt_stores (rd_steps d))))" using its mset_eq_imp_distinct_iff by blast
  moreover have "distinct (map rs_store_id (rt_stores (rd_steps d)))"
    unfolding ids using order mset_eq_imp_distinct_iff distinct_counted by blast
  moreover have "length (lines_of (rt_stores (rd_steps d))) = length ?items" using mset_eq_length [OF lines] by simp
  ultimately show ?thesis using lines by (simp add: d build_route_def Let_def)
qed

section \<open>Examples\<close>

definition demo_env :: route_env where
  "demo_env = \<lparr> re_clock = list_clock, re_distance = (\<lambda>_ _ _. 500), re_avg = (\<lambda>_. 0), re_shown = id, re_iter = sort,
     re_trip = (\<lambda>_ cs. Some (''line'', Dbl 1500 0, [0..int (length cs) - 1])), re_osrm_route = (\<lambda>_ _ _. Some (''line'', Dbl 1500 0)),
     re_enqueued = True \<rparr>"

definition demo_line :: "uuid \<Rightarrow> string \<Rightarrow> route_item" where
  "demo_line k ean = \<lparr> ri_item_id = k, ri_product_ean = ean, ri_product_name = ean, ri_quantity = 2000, ri_price = None,
     ri_price_source = ''unknown'', ri_trust_score = None \<rparr>"

definition demo_store :: "uuid \<Rightarrow> route_item list \<Rightarrow> route_store" where
  "demo_store i ys = \<lparr> rs_store_id = i, rs_store_name = ''store'', rs_lat = 48, rs_lng = 2, rs_order = int i, rs_items = ys, rs_subtotal = 0 \<rparr>"

definition demo_route :: "string \<Rightarrow> stamp \<Rightarrow> route_row" where
  "demo_route status expires = \<lparr> ro_id = 5, ro_user_id = 7, ro_list_id = 1, ro_status = status, ro_total_price = 1 / 100, ro_total_savings = 0,
     ro_distance_km = None, ro_steps = \<lparr> rt_stores = [demo_store 1 [demo_line 2 ''30000001'', demo_line 3 ''30000002''], demo_store 2 [demo_line 4 ''30000003'']],
       rt_polyline = None, rt_total_stores = 2, rt_total_items = 3, rt_warnings = [] \<rparr>,
     ro_computed_at = 0, ro_expires_at = expires \<rparr>"

definition demo_db :: "string \<Rightarrow> stamp \<Rightarrow> list_db" where
  "demo_db status expires = list_demo\<lparr> optimized_routes := [demo_route status expires],
     store_table := map (\<lambda>i. \<lparr> ls_id = i, ls_name = ''store'', ls_lat = 48, ls_lng = 2, ls_is_disabled = i = 1 \<rparr>) [1, 2],
     consensus := [\<lparr> pw_store_id = 2, pw_product_ean = ''30000002'', pw_price = 150, pw_trust_score = 1 \<rparr>] \<rparr>"

lemmas demo_defs = demo_env_def demo_line_def demo_store_def demo_route_def demo_db_def list_clock_def list_demo_def list_demo_cfg_def new_item_def

lemma demo_change:
  assumes "f (demo_db ''ready'' 2000000000000000) (demo_route ''ready'' 2000000000000000) = Inr r'" and "ro_total_price r' < 10 ^ 8"
  shows "\<exists>t. change_route list_clock 5 7 f (demo_db ''ready'' 2000000000000000) = (Inr r', t)"
  using assms by (simp add: change_route_def load_owned_route_def assert_owner_def is_expired_def set_route_def get_route_def demo_db_def
      bnd_def seq_def) (simp add: demo_route_def list_clock_def)

lemma demo_price: "resolve_price demo_env list_demo_cfg (demo_db st ex) ''30000002'' 2 =
    \<lparr> pr_price = Some (3 / 2), pr_price_source = ''consensus_local'', pr_trust_score = Some 1, pr_warning = None \<rparr>"
  by (simp add: resolve_price_def get_local_price_def demo_db_def cents_def round_rat_def rhe_def)

theorem move_item_conserves_witness:
  "\<exists>r' t. move_item demo_env list_demo_cfg 5 7 3 2 (demo_db ''ready'' 2000000000000000) = (Inr r', t)
    \<and> mset (route_lines r') = {# (2, ''30000001'', 2000), (3, ''30000002'', 2000), (4, ''30000003'', 2000) #}
    \<and> ro_total_price r' = 3"
proof -
  let ?s = "demo_db ''ready'' 2000000000000000" and ?r = "demo_route ''ready'' 2000000000000000"
  let ?y = "priced_item \<lparr> pr_price = Some (3 / 2), pr_price_source = ''consensus_local'', pr_trust_score = Some 1, pr_warning = None \<rparr>
    (demo_line 3 ''30000002'')"
  let ?r' = "with_stores [demo_store 1 [demo_line 2 ''30000001''], demo_store 2 [demo_line 4 ''30000003'', ?y]] [] ?r"
  have "get_store ?s 2 = Some \<lparr> ls_id = 2, ls_name = ''store'', ls_lat = 48, ls_lng = 2, ls_is_disabled = False \<rparr>"
    by (simp add: get_store_def demo_db_def)
  then have move: "move_item_in_route demo_env list_demo_cfg 3 2 ?s ?r = Inr ?r'"
    using demo_price by (simp add: move_item_in_route_def assert_store_usable_def demo_route_def demo_store_def demo_line_def)
  have total: "ro_total_price ?r' = 3"
    by (simp add: with_stores_def recalculated_def line_cents_def priced_item_def demo_store_def demo_line_def cents_def round_rat_def rhe_def)
  with demo_change [of "move_item_in_route demo_env list_demo_cfg 3 2", OF move] obtain t where
    run: "move_item demo_env list_demo_cfg 5 7 3 2 ?s = (Inr ?r', t)" by (auto simp: move_item_def demo_env_def)
  have lines: "route_lines ?r = [(2, ''30000001'', 2000), (3, ''30000002'', 2000), (4, ''30000003'', 2000)]"
    by (simp add: route_lines_def demo_route_def demo_store_def demo_line_def line_of_def)
  have old: "get_route ?s 5 = Some ?r" by (simp add: get_route_def demo_db_def) (simp add: demo_route_def)
  have "mset (route_lines ?r') = mset (route_lines ?r)"
    by (rule move_item_conserves [OF run old, THEN conjunct2, THEN conjunct1]) (unfold lines, simp)
  then show ?thesis using run total unfolding lines by (intro exI [of _ ?r'] exI [of _ t] conjI) simp_all
qed

theorem remove_store_redistributes_witness:
  "\<exists>r' t. remove_store demo_env list_demo_cfg 5 7 1 (demo_db ''ready'' 2000000000000000) = (Inr r', t)
    \<and> map rs_store_id (rt_stores (ro_steps r')) = [2] \<and> map rs_order (rt_stores (ro_steps r')) = [1]
    \<and> mset (route_lines r') = {# (2, ''30000001'', 2000), (3, ''30000002'', 2000), (4, ''30000003'', 2000) #}"
proof -
  let ?s = "demo_db ''ready'' 2000000000000000" and ?r = "demo_route ''ready'' 2000000000000000"
  have none: "resolve_price demo_env list_demo_cfg ?s ''30000001'' 2 =
      \<lparr> pr_price = None, pr_price_source = ''unknown'', pr_trust_score = None, pr_warning = Some ''price_unknown_insufficient_data'' \<rparr>"
    by (simp add: resolve_price_def get_local_price_def get_national_average_def demo_db_def)
  obtain r' where drop: "remove_store_from_route demo_env list_demo_cfg 1 ?s ?r = Inr r'" and total: "ro_total_price r' = 3"
    using demo_price none by (simp add: remove_store_from_route_def demo_route_def demo_store_def demo_line_def place_item_def best_remaining_def
        renumbered_def with_stores_def recalculated_def line_cents_def priced_item_def cents_def round_rat_def rhe_def)
  with demo_change [of "remove_store_from_route demo_env list_demo_cfg 1", OF drop] obtain t where
    run: "remove_store demo_env list_demo_cfg 5 7 1 ?s = (Inr r', t)" by (auto simp: remove_store_def demo_env_def)
  have old: "get_route ?s 5 = Some ?r" by (simp add: get_route_def demo_db_def) (simp add: demo_route_def)
  have lines: "route_lines ?r = [(2, ''30000001'', 2000), (3, ''30000002'', 2000), (4, ''30000003'', 2000)]"
    by (simp add: route_lines_def demo_route_def demo_store_def demo_line_def line_of_def)
  have ids: "map rs_store_id (rt_stores (ro_steps ?r)) = [1, 2]" by (simp add: demo_route_def demo_store_def)
  from remove_store_redistributes [OF run old, of "hd (rt_stores (ro_steps ?r))"]
  have *: "mset (route_lines r') = mset (route_lines ?r) \<and> map rs_store_id (rt_stores (ro_steps r')) = [2]
      \<and> map rs_order (rt_stores (ro_steps r')) = [1..rt_total_stores (ro_steps r')] \<and> totals_ok r'"
    unfolding ids by (simp add: demo_route_def demo_store_def)
  then have "length (map rs_store_id (rt_stores (ro_steps r'))) = length [2 :: uuid]" by (elim conjE) (rule arg_cong [where f = length])
  then have "length (rt_stores (ro_steps r')) = 1" by simp
  with * have "map rs_order (rt_stores (ro_steps r')) = [1]" by (simp add: totals_ok_def)
  with * run show ?thesis unfolding lines by (intro exI [of _ r'] exI [of _ t] conjI) simp_all
qed

theorem expired_route_blocks_witness:
  "trigger_optimization demo_env list_demo_cfg 7 1 (Some 48) (Some 2) (demo_db ''computing'' 1) =
     (Inl (Integrity ''uq_optimized_routes_one_computing_per_list''), demo_db ''computing'' 1)"
proof -
  let ?s = "demo_db ''computing'' 1" and ?l = "hd (shopping_lists list_demo)"
  have l: "get_list ?s 1 = Some ?l" "\<not> li_is_template ?l" "li_user_id ?l = 7" by (simp_all add: get_list_def demo_db_def list_demo_def)
  have items: "count_items ?s 1 \<le> oc_max_items_per_list list_demo_cfg" "unchecked_items ?s 1 \<noteq> []"
    by (simp_all add: count_items_def unchecked_items_def items_of_def demo_db_def list_demo_def list_demo_cfg_def)
  have routes: "optimized_routes ?s = [demo_route ''computing'' 1]" by (simp add: demo_db_def)
  have "trigger_optimization demo_env list_demo_cfg (li_user_id ?l) 1 (Some 48) (Some 2) ?s =
     (Inl (Integrity ''uq_optimized_routes_one_computing_per_list''), ?s)"
  proof (rule expired_route_blocks [OF l(1,2) items, THEN conjunct1])
    show "0 < oc_route_expiry_hours list_demo_cfg" by (simp add: list_demo_cfg_def)
    show "list_ex (\<lambda>r. ro_list_id r = 1 \<and> ro_status r = ''computing'') (optimized_routes ?s)"
      unfolding routes by (simp add: demo_route_def)
    show "list_all (\<lambda>r. ro_list_id r = 1 \<and> ro_status r = ''computing'' \<longrightarrow> ro_expires_at r < now (re_clock demo_env)) (optimized_routes ?s)"
      unfolding routes by (simp add: demo_route_def demo_env_def list_clock_def)
  qed
  then show ?thesis by (simp only: l(3))
qed


theorem route_covers_list_witness:
  "\<exists>d. compute_route_data demo_env list_demo_cfg 7 1 48 2 (demo_db ''ready'' 1) = Some (Inr d)
    \<and> mset (lines_of (rt_stores (rd_steps d))) = {# (2, ''30000001'', 2500), (3, ''30000002'', 1000) #}"
proof -
  let ?s = "demo_db ''ready'' 1" and ?E = demo_env and ?cfg = list_demo_cfg
  have items: "unchecked_items ?s 1 = [new_item 2 1 ''30000001'' 2500, new_item 3 1 ''30000002'' 1000]"
    by (simp add: unchecked_items_def items_of_def demo_db_def list_demo_def)
  have near: "nearby_stores ?E ?s 48 2 5 {} = [\<lparr> ls_id = 2, ls_name = ''store'', ls_lat = 48, ls_lng = 2, ls_is_disabled = False \<rparr>]"
    by (simp add: nearby_stores_def demo_db_def demo_env_def)
  have prefs: "user_preferences ?s 7 = None" "excluded_ids ?s 7 = {}" by (simp_all add: demo_db_def list_demo_def excluded_ids_def)
  let ?P = "route_prices ?E ?cfg ?s [2] [''30000001'', ''30000002'']"
  obtain a b where asg: "initial_assignments ?P [2] [''30000001'', ''30000002''] = [(''30000001'', a), (''30000002'', b)]"
      "sa_store_id a = 2" "sa_store_id b = 2"
    using uses_initial [of "[2]" "[''30000001'', ''30000002'']" ?P] by (auto simp: uses_def map_eq_Cons_conv)
  have counted: "counted_stores [(''30000001'', a), (''30000002'', b)] = [2]" using asg(2,3) by (simp add: counted_stores_def)
  have "qualifying 3 [(''30000001'', a), (''30000002'', b)] = []"
    unfolding qualifying_def counted using asg(2,3) by (simp add: store_count_def count_where_def)
  then have ends: "assign_items_to_stores (re_iter ?E) [''30000001'', ''30000002''] [2] ?P 3 = Some [(''30000001'', a), (''30000002'', b)]"
    by (simp add: assign_items_to_stores_def asg(1) redistribute_under_threshold_def while_option_unfold)
  have cap: "cap_to_max_stores (re_iter ?E) [(''30000001'', a), (''30000002'', b)] ?P 4 = [(''30000001'', a), (''30000002'', b)]"
    by (simp add: cap_to_max_stores_def counted)
  have cfg: "oc_min_items_per_store ?cfg = 3" "oc_max_stores_in_route ?cfg = 4" "oc_default_radius ?cfg = 5"
    by (simp_all add: list_demo_cfg_def)
  obtain leg where leg: "plan_leg ?E 48 2 (oc_default_transport ?cfg) [\<lparr> ls_id = 2, ls_name = ''store'', ls_lat = 48, ls_lng = 2,
      ls_is_disabled = False \<rparr>] (re_iter ?E [2]) = Inr leg"
    by (simp add: plan_leg_def store_in_def demo_env_def)
  have "\<exists>d. compute_route_data ?E ?cfg 7 1 48 2 ?s = Some (Inr d)"
    unfolding compute_route_data_def Let_def split_def
    by (simp add: items near prefs cfg ends cap counted leg del: One_nat_def)
  then obtain d where run: "compute_route_data ?E ?cfg 7 1 48 2 ?s = Some (Inr d)" ..
  have "lists_ok (oc_max_items_per_list list_demo_cfg) ?s" using list_demo_ok by (simp add: demo_db_def lists_ok_def items_of_def)
  from route_covers_list [OF this _ _ run] have "mset (lines_of (rt_stores (rd_steps d))) = mset (map row_line (unchecked_items ?s 1))"
    by (simp add: demo_env_def)
  then have "mset (lines_of (rt_stores (rd_steps d))) = {# (2, ''30000001'', 2500), (3, ''30000002'', 1000) #}"
    unfolding items by (simp add: row_line_def)
  with run show ?thesis by blast
qed

end
