(* ===== verification/Ratis_OptimiserSafety.thy ===== *)
theory Ratis_OptimiserSafety
  imports Ratis_RouteSafety
begin

text \<open>
  The invariant of all the tables of the list optimiser, along every interleaving of list requests, optimisations, Celery tasks,
  changes of routes and purges: a step relation over the operations of \<open>Ratis_Lists\<close> and \<open>Ratis_Routes\<close>. The list requests leave the
  routes alone, and the route operations the lists.
\<close>

section \<open>The invariant of the tables\<close>

definition route_ok :: "uuid \<Rightarrow> route_row \<Rightarrow> bool" where
  "route_ok n r \<longleftrightarrow> ro_id r < n \<and> ro_status r \<in> {''computing'', ''ready'', ''failed''} \<and> ro_computed_at r < ro_expires_at r
     \<and> 0 < ro_total_price r \<and> (ro_status r = ''ready'' \<longrightarrow> totals_ok r)"

definition computing_for :: "uuid \<Rightarrow> route_row \<Rightarrow> bool" where
  "computing_for i r \<longleftrightarrow> ro_list_id r = i \<and> ro_status r = ''computing''"

definition routes_ok :: "list_db \<Rightarrow> bool" where
  "routes_ok s \<longleftrightarrow> distinct (map ro_id (optimized_routes s)) \<and> (\<forall>r \<in> set (optimized_routes s). route_ok (next_id s) r)
     \<and> (\<forall>i. count_where (computing_for i) (optimized_routes s) \<le> 1)"

text \<open>The requests on lists leave the routes alone.\<close>

definition same_routes :: "route_row list \<Rightarrow> uuid \<Rightarrow> list_db \<Rightarrow> bool" where
  "same_routes R n s \<longleftrightarrow> optimized_routes s = R \<and> n \<le> next_id s"

named_theorems same_intro

lemma same_modify: "(\<And>s. optimized_routes (f s) = optimized_routes s) \<Longrightarrow> (\<And>s. next_id s \<le> next_id (f s)) \<Longrightarrow> keeps (same_routes R n) (modify f)"
  by (rule keeps_modify) (auto simp: same_routes_def intro: order_trans)

lemma same_new_id [same_intro]: "keeps (same_routes R n) new_id"
  by (rule keepsI) (auto simp: same_routes_def)

lemma same_owned [same_intro]: "keeps (same_routes R n) (owned_list i u)"
  unfolding owned_list_def assert_owner_def by (intro keeps_intro)

lemma same_set_list [same_intro]: "keeps (same_routes R n) (set_list ck i f)"
  unfolding set_list_def by (rule same_modify) simp_all

lemma same_touch [same_intro]: "keeps (same_routes R n) (touch_list ck i)"
  unfolding touch_list_def by (rule same_set_list)

lemma same_add_item [same_intro]: "keeps (same_routes R n) (add_item i e q)"
  unfolding add_item_def insert_item_def fits_numeric_10_3_def by (intro keeps_intro same_intro same_modify) simp_all

lemma same_copy_items [same_intro]: "keeps (same_routes R n) (copy_items i xs)"
  unfolding copy_items_def by (intro keeps_intro same_intro)

lemma same_create_list [same_intro]: "keeps (same_routes R n) (create_list ck u name)"
  unfolding create_list_def insert_list_def by (intro keeps_intro same_intro same_modify) simp_all

lemma same_get_list [same_intro]: "keeps (same_routes R n) (get_shopping_list i u)"
  unfolding get_shopping_list_def by (intro keeps_intro same_intro)

lemma same_add_to_list [same_intro]: "keeps (same_routes R n) (add_item_to_list cfg ck i u e q)"
  unfolding add_item_to_list_def validate_quantity_def split_def by (intro keeps_intro same_intro)

lemma same_update_item [same_intro]: "keeps (same_routes R n) (update_item cfg ck i k u q c)"
  unfolding update_item_def validate_quantity_def fits_numeric_10_3_def Let_def by (intro keeps_intro same_intro same_modify) simp_all

lemma same_scan_check [same_intro]: "keeps (same_routes R n) (scan_check ck i u e)"
  unfolding scan_check_def by (intro keeps_intro same_intro same_modify) simp_all

lemma same_others [same_intro]:
  "keeps (same_routes R n) (update_shopping_list ck i u name0)" "keeps (same_routes R n) (delete_shopping_list i u)"
  "keeps (same_routes R n) (delete_item ck i k u)" "keeps (same_routes R n) (clear_list ck i u)"
  "keeps (same_routes R n) (save_as_template cfg ck i u)" "keeps (same_routes R n) (create_from_template ck i u name)"
  unfolding update_shopping_list_def repo_update_list_def delete_shopping_list_def repo_delete_list_def delete_item_def repo_delete_item_def
    clear_list_def clear_items_def save_as_template_def create_from_template_def insert_list_def split_def
  by ((intro keeps_intro same_intro same_modify; simp)+)

lemma same_suggestions [same_intro]: "keeps (same_routes R n) (add_suggestions cfg ck i u gs m)"
proof (induction gs arbitrary: m)
  case (Cons g gs)
  show ?case
  proof (rule keepsI)
    fix s r t assume s: "same_routes R n s" and run: "add_suggestions cfg ck i u (g # gs) m s = (r, t)"
    obtain x s1 where add: "add_item_to_list cfg ck i u (sg_product_ean g) 1 s = (x, s1)" by force
    from keepsD [OF same_add_to_list s add] have "same_routes R n s1" .
    then show "same_routes R n t" using run add keepsD [OF Cons.IH] by (auto split: sum.splits if_splits)
  qed
qed simp

lemma same_step: "keeps (same_routes R n) (list_step cfg th c)"
proof -
  have req: "keeps (same_routes R n) m \<Longrightarrow> keeps (same_routes R n) (list_request m)" for m :: "'a list_op"
    unfolding list_request_def by (intro keeps_intro)
  have gen: "keeps (same_routes R n) (generate_suggestions cfg th ck u i)" for ck u i
    unfolding generate_suggestions_def generate_and_add_to_list_def suggest_products_def split_def by (intro keeps_intro same_intro)
  show ?thesis
    by (cases c) (simp_all add: list_routes keeps_void keeps_seq keeps_valid keeps_request keeps_preserves same_intro gen)
qed

definition optimiser_ok :: "int \<Rightarrow> list_db \<Rightarrow> bool" where
  "optimiser_ok nmax s \<longleftrightarrow> lists_ok nmax s \<and> routes_ok s"

lemma lists_ok_routes [simp]: "lists_ok nmax (s\<lparr> optimized_routes := rs \<rparr>) = lists_ok nmax s"
  by (simp add: lists_ok_def items_of_def)

lemma route_ok_later: "route_ok n r \<Longrightarrow> n \<le> m \<Longrightarrow> route_ok m r"
  by (auto simp: route_ok_def)

lemma routes_ok_same: "routes_ok s \<Longrightarrow> same_routes (optimized_routes s) (next_id s) t \<Longrightarrow> routes_ok t"
  by (auto simp: routes_ok_def same_routes_def intro: route_ok_later)

lemma routes_ok_update:
  assumes ok: "routes_ok s" and f: "\<And>r. r \<in> set (optimized_routes s) \<Longrightarrow> p r \<Longrightarrow> ro_id (f r) = ro_id r \<and> ro_list_id (f r) = ro_list_id r
     \<and> route_ok (next_id s) (f r) \<and> (ro_status (f r) = ''computing'' \<longrightarrow> ro_status r = ''computing'')"
  shows "routes_ok (s\<lparr> optimized_routes := update_where p f (optimized_routes s) \<rparr>)"
proof -
  have "map ro_id (update_where p f (optimized_routes s)) = map ro_id (optimized_routes s)" using f by (simp add: update_where_def)
  moreover have "count_where (computing_for i) (update_where p f (optimized_routes s)) \<le> 1" for i
  proof -
    have "count_where (computing_for i) (update_where p f (optimized_routes s)) \<le> count_where (computing_for i) (optimized_routes s)"
      unfolding update_where_def using f by (intro count_where_map_le) (auto simp: computing_for_def split: if_splits)
    then show ?thesis using ok by (auto simp: routes_ok_def intro: order_trans)
  qed
  ultimately show ?thesis using ok f by (auto simp: routes_ok_def set_update_where)
qed

lemma routes_ok_fail:
  assumes "routes_ok s"
  shows "routes_ok (s\<lparr> optimized_routes := update_where p (\<lambda>r. r\<lparr> ro_status := ''failed'' \<rparr>) (optimized_routes s) \<rparr>)"
  using assms by (intro routes_ok_update) (auto simp: routes_ok_def route_ok_def)

lemma keeps_set_failed: "keeps (optimiser_ok nmax) (set_route p (\<lambda>r. r\<lparr> ro_status := ''failed'' \<rparr>))"
  unfolding set_route_def by (rule keeps_modify) (simp add: optimiser_ok_def routes_ok_fail)

lemma preserves_create_pending: "preserves (optimiser_ok nmax) (create_pending_route cfg ck u i)"
proof (rule preservesI)
  fix s k t assume ok: "optimiser_ok nmax s" and run: "create_pending_route cfg ck u i s = (Inr k, t)"
  then obtain r where t: "t = s\<lparr> next_id := Suc (next_id s), optimized_routes := optimized_routes s @ [r] \<rparr>"
    and r: "ro_id r = next_id s" "route_ok (Suc (next_id s)) r" "computing_for i r"
    and free: "\<not> list_ex (computing_for i) (optimized_routes s)"
    by (auto simp: create_pending_route_def insert_route_def computing_for_def [abs_def] route_ok_def seq_Inr_iff bnd_Inr_iff split: if_splits)
  have "count_where (computing_for j) (optimized_routes s @ [r]) \<le> 1" for j
  proof (cases "j = i")
    case True
    then have "count_where (computing_for j) (optimized_routes s) = 0" using free by (auto simp: count_where_0_iff list_ex_iff)
    then show ?thesis by (simp add: count_where_def)
  next
    case False
    then have "\<not> computing_for j r" using r(3) by (simp add: computing_for_def)
    then show ?thesis using ok by (simp add: optimiser_ok_def routes_ok_def count_where_def)
  qed
  moreover have "lists_ok nmax t" using lists_ok_fresh [of nmax s] ok by (simp add: t optimiser_ok_def)
  ultimately show "optimiser_ok nmax t"
    using ok r by (auto simp: t optimiser_ok_def routes_ok_def route_ok_def intro: route_ok_later)
qed

lemma keeps_start_route: "keeps (optimiser_ok nmax) (start_route E cfg u i)"
proof (rule keepsI)
  fix s x t assume ok: "optimiser_ok nmax s" and run: "start_route E cfg u i s = (x, t)"
  show "optimiser_ok nmax t"
  proof (cases "db_transaction (create_pending_route cfg (re_clock E) u i) s")
    case (Pair y s1)
    from keepsD [OF preserves_transaction [OF preserves_create_pending] ok Pair] have s1: "optimiser_ok nmax s1" .
    from keepsD [OF keeps_seq [OF keeps_set_failed keeps_ret] s1] run Pair s1 ok show ?thesis
      by (auto simp: start_route_def split: sum.splits option.splits if_splits)
  qed
qed

lemma keeps_trigger_request: "keeps (optimiser_ok nmax) (trigger_optimization E cfg u i lat lng)"
  unfolding trigger_optimization_def load_owned_list_def owned_list_def assert_owner_def validate_for_optimization_def
    mark_route_failed_def split_def
  by (intro keeps_intro keeps_start_route keeps_set_failed)

lemma computed_totals:
  "compute_route_data E cfg u i lat lng s = Some (Inr d) \<Longrightarrow> rt_total_stores (rd_steps d) = int (length (rt_stores (rd_steps d)))
     \<and> rd_total_price d = max (sum_list (map rs_subtotal (rt_stores (rd_steps d)))) (1 / 100)"
  by (erule compute_route_Inr) (simp add: build_route_def Let_def)

lemma optimiser_ok_task:
  assumes ok: "optimiser_ok nmax s" and run: "task_optimize_route E cfg fault n k lat lng s = Some (again, t)"
  shows "optimiser_ok nmax t"
proof -
  have marked: "optimiser_ok nmax (snd (mark_route_failed k s))"
    using ok by (simp add: mark_route_failed_snd optimiser_ok_def routes_ok_fail)
  have ready: "optimiser_ok nmax s1" if fin: "finalize_route k d s = (x, s1)" and d: "compute_route_data E cfg u i lat lng s = Some (Inr d)" for d x s1 u i
  proof -
    from computed_totals [OF d] have "0 < rd_total_price d" by simp
    then have "routes_ok (s\<lparr> optimized_routes := update_where (\<lambda>r. ro_id r = k) (\<lambda>r. r\<lparr> ro_total_price := rd_total_price d, ro_total_savings := 0,
        ro_distance_km := rd_distance_km d, ro_steps := rd_steps d, ro_status := ''ready'' \<rparr>) (optimized_routes s) \<rparr>)"
      using ok computed_totals [OF d] by (intro routes_ok_update) (auto simp: optimiser_ok_def routes_ok_def route_ok_def totals_ok_def)
    with fin ok show ?thesis by (auto simp: finalize_route_def set_route_def optimiser_ok_def seq_def split: if_splits)
  qed
  have failed: "optimiser_ok nmax (snd (set_route (\<lambda>x. ro_id x = k) (\<lambda>x. x\<lparr> ro_status := ''failed'' \<rparr>) s))"
    by (rule keeps_snd [OF keeps_set_failed ok])
  have opt: "optimiser_ok nmax s1" if "run_optimize_route E cfg k lat lng s = Some (x, s1)" for x s1
    using that ok ready failed by (auto simp: run_optimize_route_def split: option.splits sum.splits if_splits)
  show ?thesis using run ok marked opt by (auto simp: task_optimize_route_def split: option.splits sum.splits if_splits)
qed

text \<open>What both changes of a route leave alone.\<close>

definition same_row :: "route_row \<Rightarrow> route_row \<Rightarrow> bool" where
  "same_row r r' \<longleftrightarrow> ro_id r' = ro_id r \<and> ro_list_id r' = ro_list_id r \<and> ro_status r' = ro_status r \<and> ro_computed_at r' = ro_computed_at r
     \<and> ro_expires_at r' = ro_expires_at r \<and> 0 < ro_total_price r' \<and> totals_ok r'"

lemma same_row_with_stores: "same_row r (with_stores xs ws r)"
  by (simp add: same_row_def)

lemma keeps_change_route:
  assumes f: "\<And>s r r'. f s r = Inr r' \<Longrightarrow> same_row r r'"
  shows "keeps (optimiser_ok nmax) (change_route ck k u f)"
proof (rule keepsI)
  fix s x t assume ok: "optimiser_ok nmax s" and run: "change_route ck k u f s = (x, t)"
  show "optimiser_ok nmax t"
  proof (cases x)
    case (Inl e)
    with run have "t = s"
      by (auto simp: change_route_def load_owned_route_def assert_owner_def set_route_def bnd_Inl_iff seq_Inl_iff split: option.splits if_splits sum.splits)
    with ok show ?thesis by simp
  next
    case (Inr r')
    with run obtain r where r: "get_route s k = Some r" "f s r = Inr r'" "ro_status r = ''ready''"
      and t: "t = s\<lparr> optimized_routes := update_where (\<lambda>x. ro_id x = k) (\<lambda>_. r') (optimized_routes s) \<rparr>" by (auto elim: change_route_Inr)
    have row: "same_row r r'" using f r(2) .
    have only: "x = r" if "x \<in> set (optimized_routes s)" "ro_id x = k" for x
      using find_distinct_key [of ro_id "optimized_routes s" x] ok r(1) that by (simp add: optimiser_ok_def routes_ok_def get_route_def)
    have "route_ok (next_id s) r" using ok get_route_in [OF r(1)] by (simp add: optimiser_ok_def routes_ok_def)
    with row have "route_ok (next_id s) r'" by (auto simp: same_row_def route_ok_def)
    with row only have "routes_ok t" unfolding t using ok by (intro routes_ok_update) (auto simp: optimiser_ok_def same_row_def)
    with ok show ?thesis by (simp add: optimiser_ok_def t)
  qed
qed

lemma keeps_route_changes:
  "keeps (optimiser_ok nmax) (move_item E cfg k u item i)" "keeps (optimiser_ok nmax) (remove_store E cfg k u i)"
  unfolding move_item_def remove_store_def
  by (rule keeps_change_route,
      auto simp: move_item_in_route_def remove_store_from_route_def Let_def same_row_with_stores split: option.splits if_splits prod.splits)+

lemma keeps_purge: "keeps (optimiser_ok nmax) (purge_optimized_routes ck)"
  unfolding purge_optimized_routes_def
proof (rule keeps_modify)
  fix s assume ok: "optimiser_ok nmax s"
  have le: "count_where p (filter q xs) \<le> count_where p xs" for p q and xs :: "route_row list"
    by (induction xs) (auto simp: count_where_def)
  have "count_where (computing_for i) (filter (\<lambda>r. \<not> ro_expires_at r < now ck) (optimized_routes s)) \<le> 1" for i
    by (rule le_trans [OF le]) (use ok in \<open>simp add: optimiser_ok_def routes_ok_def\<close>)
  then show "optimiser_ok nmax (s\<lparr> optimized_routes := filter (\<lambda>r. \<not> ro_expires_at r < now ck) (optimized_routes s) \<rparr>)"
    using ok by (simp add: optimiser_ok_def routes_ok_def distinct_map_filter)
qed

section \<open>Every sequence of steps\<close>

text \<open>The web process, the Celery worker and the nightly purge, each with its own clock and answers.\<close>

inductive optimiser_step :: "optimiser_cfg \<Rightarrow> list_db \<Rightarrow> list_db \<Rightarrow> bool" for cfg where
  request: "list_step cfg th c s = (x, t) \<Longrightarrow> optimiser_step cfg s t"
| optimise: "trigger_optimization E cfg u i lat lng s = (y, t) \<Longrightarrow> optimiser_step cfg s t"
| work: "task_optimize_route E cfg fault n k lat lng s = Some (again, t) \<Longrightarrow> optimiser_step cfg s t"
| move: "move_item E cfg k u item i s = (z, t) \<Longrightarrow> optimiser_step cfg s t"
| drop: "remove_store E cfg k u i s = (z, t) \<Longrightarrow> optimiser_step cfg s t"
| purge: "purge_optimized_routes ck s = (x, t) \<Longrightarrow> optimiser_step cfg s t"

lemma optimiser_step_keeps:
  assumes "optimiser_step cfg s t" and "optimiser_ok (oc_max_items_per_list cfg) s"
  shows "optimiser_ok (oc_max_items_per_list cfg) t"
  using assms
proof cases
  case (request th c x)
  have "lists_ok (oc_max_items_per_list cfg) t"
    using keepsD [OF keeps_list_step _ request] assms(2) by (simp add: optimiser_ok_def)
  moreover have "same_routes (optimized_routes s) (next_id s) t"
    by (rule keepsD [OF same_step _ request]) (simp add: same_routes_def)
  ultimately show ?thesis using assms(2) by (auto simp: optimiser_ok_def intro: routes_ok_same)
next
  case (work E fault n k lat lng again)
  then show ?thesis using assms(2) optimiser_ok_task by blast
next
  case (optimise E u i lat lng y)
  show ?thesis by (rule keepsD [OF keeps_trigger_request assms(2) optimise])
next
  case (move E u k item i z)
  show ?thesis by (rule keepsD [OF keeps_route_changes(1) assms(2) move])
next
  case (drop E k u i z)
  show ?thesis by (rule keepsD [OF keeps_route_changes(2) assms(2) drop])
next
  case (purge ck x)
  show ?thesis by (rule keepsD [OF keeps_purge assms(2) purge])
qed

text \<open>
  C34 (invariant). However requests, tasks, changes of routes and purges interleave: the lists stay well formed, at most one route per
  list is computing, a route is computing, ready or failed and expires after it was computed, its price is positive, and the counter
  and the total of a ready route agree with its stores.
\<close>

theorem optimiser_invariant:
  assumes "(optimiser_step cfg)\<^sup>*\<^sup>* s t" and "optimiser_ok (oc_max_items_per_list cfg) s"
  shows "optimiser_ok (oc_max_items_per_list cfg) t"
  using assms by (induction rule: rtranclp_induct) (auto intro: optimiser_step_keeps)

theorem optimiser_invariant_witness:
  "optimiser_ok (oc_max_items_per_list list_demo_cfg) (snd (trigger_optimization demo_env list_demo_cfg 7 1 (Some 48) (Some 2) list_demo))"
proof (rule optimiser_invariant)
  show "(optimiser_step list_demo_cfg)\<^sup>*\<^sup>* list_demo (snd (trigger_optimization demo_env list_demo_cfg 7 1 (Some 48) (Some 2) list_demo))"
    by (rule r_into_rtranclp, rule optimiser_step.optimise, rule prod.collapse [symmetric])
  show "optimiser_ok (oc_max_items_per_list list_demo_cfg) list_demo"
    using list_demo_ok by (simp add: optimiser_ok_def routes_ok_def count_where_def list_demo_def)
qed

end
