(* ===== verification/Ratis_Account.thy ===== *)
theory Ratis_Account
  imports Ratis_Referral
begin

text \<open>
  The authentication service (\<open>src/webservices/ratis_auth\<close>: \<open>services/auth_service.py\<close>,
  \<open>services/account_service.py\<close>, \<open>services/rings_service.py\<close>, \<open>services/stats_service.py\<close>, their repositories and routes,
  with \<open>ratis_core/jwt.py\<close> and \<open>ratis_core/auth.py\<close>): accounts and their OAuth identities, tokens and their rotation,
  the profile, and the deletion of an account. Its tables sit beside those of the rewards service in one database; the
  columns of \<open>users\<close> that the rewards code reads are in \<open>core\<close>, the others in \<open>accounts\<close>.
\<close>

section \<open>The database and the environment\<close>

record account_row =
  ac_id :: uuid
  ac_account_type :: string
  ac_avatar_url :: "string option"
  ac_timezone :: string
  ac_support_id :: string
  ac_password_changed_at :: "stamp option"
  ac_created_at :: stamp

record identity_row =
  ui_user_id :: uuid
  ui_provider :: string
  ui_provider_id :: string
  ui_email :: "string option"
  ui_created_at :: stamp

record token_row =
  tk_jti :: uuid
  tk_user_id :: uuid
  tk_expires_at :: stamp
  tk_revoked_at :: "stamp option"

record preference_row =
  up_search_radius_km :: int
  up_transport_mode :: string

record snapshot_row =
  sn_lifetime_savings_cents :: int
  sn_rings_consumed :: int
  sn_last_computed_at :: stamp

text \<open>Prices of subscriptions and values of campaigns are \<open>NUMERIC(10, 2)\<close>: whole hundredths.\<close>

record sub_row =
  sb_id :: uuid
  sb_user_id :: uuid
  sb_status :: string
  sb_plan :: "string option"
  sb_stripe_session_id :: "string option"
  sb_price :: int
  sb_paid_with :: string
  sb_payment_ref :: "string option"
  sb_discount_campaign_code :: "string option"
  sb_discount_amount :: "int option"
  sb_started_at :: stamp
  sb_expires_at :: stamp
  sb_cancelled_at :: "stamp option"

record campaign_row =
  dc_code :: string
  dc_type :: string
  dc_value :: int
  dc_valid_from :: "stamp option"
  dc_valid_until :: "stamp option"
  dc_max_uses :: "int option"
  dc_uses_count :: int
  dc_is_public :: bool

record acct_db =
  core :: db
  accounts :: "account_row list"
  user_identities :: "identity_row list"
  token_table :: "token_row list"
  preferences :: "uuid \<rightharpoonup> preference_row"
  savings_snapshots :: "uuid \<rightharpoonup> snapshot_row"
  sub_rows :: "sub_row list"
  campaigns :: "campaign_row list"
  stripe_events :: "(string \<times> string) list"

datatype acct_error =
    Core error
  | Value_Error string
  | Permission_Error string
  | Lookup_Error string
  | Upstream_Error string
  | Registrations_Closed
  | Link_Conflict
  | Last_Identity
  | Identity_Not_Found
  | Sub_Not_Found
  | Sub_Already_Active
  | Sub_Extend_Invalid
  | Trigger_Raised
  | Stripe_Error
  | Type_Error
  | Runtime_Error
  | Http int string

type_synonym 'a acct_op = "(acct_db, acct_error, 'a) op"

text \<open>An operation of the rewards code on the shared tables.\<close>

definition on_core :: "'a db_op \<Rightarrow> 'a acct_op" where
  "on_core m = (\<lambda>s. case m (core s) of (r, t) \<Rightarrow> (case r of Inl e \<Rightarrow> Inl (Core e) | Inr x \<Rightarrow> Inr x, s\<lparr> core := t \<rparr>))"

definition check :: "bool \<Rightarrow> string \<Rightarrow> unit acct_op" where
  "check b name = guard b (Core (IntegrityError name))"

text \<open>
  What the service relies on: the JOSE library (a token is the encoding of its claims; decoding checks signature, audience and
  expiry at an instant), the verification of OAuth tokens by Google and the keys of Apple, the random tokens, the hash that
  anonymises an identifier, and the savings query over the shared tables. Times in a token are whole seconds.
\<close>

record jwt_claims =
  jw_sub :: uuid
  jw_type :: string
  jw_iat :: int
  jw_exp :: int
  jw_jti :: "uuid option"

datatype 'c verified = Verified 'c | Rejected | Unreachable

record google_claims =
  gc_sub :: string
  gc_email :: "string option"
  gc_email_verified :: bool
  gc_name :: "string option"
  gc_picture :: "string option"

record apple_claims =
  pc_sub :: string
  pc_email :: "string option"
  pc_email_verified :: string

record apple_keys =
  ak_first :: "string list option"
  ak_refreshed :: "string list option"
  ak_kid :: "string \<Rightarrow> string"
  ak_decode :: "string \<Rightarrow> string \<Rightarrow> apple_claims option"

record auth_env =
  ae_clock :: clock
  ae_encode :: "jwt_claims \<Rightarrow> string"
  ae_decode :: "stamp \<Rightarrow> string \<Rightarrow> jwt_claims option"
  ae_access_minutes :: int
  ae_refresh_days :: int
  ae_google :: "string \<Rightarrow> google_claims verified"
  ae_apple_client_id :: string
  ae_apple_keys :: apple_keys
  ae_registrations_open :: bool
  ae_support_id :: "nat \<Rightarrow> string"
  ae_token_hex :: "nat \<Rightarrow> string"
  ae_pseudonym :: string
  ae_anon :: "uuid \<Rightarrow> uuid"
  ae_salt :: string
  ae_savings :: "acct_db \<Rightarrow> uuid \<Rightarrow> stamp option \<Rightarrow> int"
  ae_subscription_price_cents :: int


section \<open>Tokens\<close>

definition create_token :: "auth_env \<Rightarrow> uuid \<Rightarrow> string \<Rightarrow> int \<Rightarrow> uuid option \<Rightarrow> string" where
  "create_token E u token_type delta jti = ae_encode E \<lparr> jw_sub = u, jw_type = token_type, jw_iat = now (ae_clock E) div second_us,
     jw_exp = (now (ae_clock E) + delta) div second_us, jw_jti = jti \<rparr>"

definition create_access_token :: "auth_env \<Rightarrow> uuid \<Rightarrow> string" where
  "create_access_token E u = create_token E u ''access'' (ae_access_minutes E * 60 * second_us) None"

definition get_by_jti :: "uuid \<Rightarrow> acct_db \<Rightarrow> token_row option" where
  "get_by_jti j s = List.find (\<lambda>r. tk_jti r = j) (token_table s)"

definition insert_token :: "token_row \<Rightarrow> unit acct_op" where
  "insert_token r = bnd (reads token_table) (\<lambda>rows. seq (check (tk_jti r \<notin> tk_jti ` set rows) ''refresh_tokens_jti_key'')
     (modify (\<lambda>s. s\<lparr> token_table := token_table s @ [r] \<rparr>)))"

definition create_refresh_token :: "auth_env \<Rightarrow> uuid \<Rightarrow> string acct_op" where
  "create_refresh_token E u = bnd (on_core fresh_uuid) (\<lambda>jti.
     let delta = ae_refresh_days E * day_us in
     seq (insert_token \<lparr> tk_jti = jti, tk_user_id = u, tk_expires_at = now (ae_clock E) + delta, tk_revoked_at = None \<rparr>)
       (ret (create_token E u ''refresh'' delta (Some jti))))"

definition revoke :: "clock \<Rightarrow> uuid \<Rightarrow> unit acct_op" where
  "revoke ck j = modify (\<lambda>s. s\<lparr> token_table := update_where (\<lambda>r. tk_jti r = j) (\<lambda>r. r\<lparr> tk_revoked_at := Some (now ck) \<rparr>) (token_table s) \<rparr>)"

definition revoke_all_for_user :: "clock \<Rightarrow> uuid \<Rightarrow> unit acct_op" where
  "revoke_all_for_user ck u = modify (\<lambda>s. s\<lparr> token_table := update_where (\<lambda>r. tk_user_id r = u \<and> tk_revoked_at r = None)
     (\<lambda>r. r\<lparr> tk_revoked_at := Some (now ck) \<rparr>) (token_table s) \<rparr>)"

definition decode_access_token :: "auth_env \<Rightarrow> string \<Rightarrow> (uuid \<times> stamp) option" where
  "decode_access_token E token = (case ae_decode E (now (ae_clock E)) token of
       None \<Rightarrow> None
     | Some c \<Rightarrow> if jw_type c = ''access'' then Some (jw_sub c, jw_iat c * second_us) else None)"

definition decode_refresh_token :: "auth_env \<Rightarrow> string \<Rightarrow> uuid option" where
  "decode_refresh_token E token = (case ae_decode E (now (ae_clock E)) token of
       None \<Rightarrow> None
     | Some c \<Rightarrow> if jw_type c = ''refresh'' then jw_jti c else None)"

text \<open>\<open>refresh_tokens\<close> is a validation, which only reads, and a rotation, which writes; the row is not locked in between.\<close>

definition validate_refresh :: "auth_env \<Rightarrow> string \<Rightarrow> token_row acct_op" where
  "validate_refresh E token = (case decode_refresh_token E token of
       None \<Rightarrow> throw (Permission_Error ''invalid_refresh_token'')
     | Some j \<Rightarrow> bnd (reads (get_by_jti j)) (\<lambda>row. case row of
         None \<Rightarrow> throw (Permission_Error ''invalid_refresh_token'')
       | Some r \<Rightarrow> seq (guard (tk_revoked_at r = None \<and> now (ae_clock E) \<le> tk_expires_at r) (Permission_Error ''invalid_refresh_token''))
           (ret r)))"

definition rotate :: "auth_env \<Rightarrow> token_row \<Rightarrow> (string \<times> string) acct_op" where
  "rotate E r = seq (revoke (ae_clock E) (tk_jti r))
     (bnd (create_refresh_token E (tk_user_id r)) (\<lambda>new_refresh. ret (create_access_token E (tk_user_id r), new_refresh)))"

definition refresh_tokens :: "auth_env \<Rightarrow> string \<Rightarrow> (string \<times> string) acct_op" where
  "refresh_tokens E token = db_transaction (bnd (validate_refresh E token) (rotate E))"

definition get_account :: "uuid \<Rightarrow> acct_db \<Rightarrow> (user_row \<times> account_row) option" where
  "get_account u s = (case (users (core s) u, List.find (\<lambda>a. ac_id a = u) (accounts s)) of
       (Some r, Some a) \<Rightarrow> Some (r, a) | _ \<Rightarrow> None)"

definition get_current_user :: "auth_env \<Rightarrow> string \<Rightarrow> uuid acct_op" where
  "get_current_user E token = (case decode_access_token E token of
       None \<Rightarrow> throw (Permission_Error ''invalid_token'')
     | Some (u, iat) \<Rightarrow> bnd (reads (get_account u)) (\<lambda>row. case row of
         None \<Rightarrow> throw (Permission_Error ''invalid_token'')
       | Some (r, a) \<Rightarrow>
           seq (guard (\<not> is_deleted r) (Permission_Error ''account_deleted''))
           (seq (guard (case ac_password_changed_at a of None \<Rightarrow> True | Some p \<Rightarrow> p \<le> iat) (Permission_Error ''token_revoked''))
             (ret u))))"

definition get_http_current_user :: "auth_env \<Rightarrow> string \<Rightarrow> uuid acct_op" where
  "get_http_current_user E token = catch (get_current_user E token) (\<lambda>e. case e of
       Permission_Error _ \<Rightarrow> throw (Http 401 ''unauthorized'') | _ \<Rightarrow> throw e)"

section \<open>Identities\<close>

definition get_by_provider :: "string \<Rightarrow> string \<Rightarrow> acct_db \<Rightarrow> identity_row option" where
  "get_by_provider p i s = List.find (\<lambda>r. ui_provider r = p \<and> ui_provider_id r = i) (user_identities s)"

definition get_by_provider_for_user :: "uuid \<Rightarrow> string \<Rightarrow> acct_db \<Rightarrow> identity_row option" where
  "get_by_provider_for_user u p s = List.find (\<lambda>r. ui_user_id r = u \<and> ui_provider r = p) (user_identities s)"

definition list_for_user :: "uuid \<Rightarrow> acct_db \<Rightarrow> identity_row list" where
  "list_for_user u s = sort_key ui_created_at (filter (\<lambda>r. ui_user_id r = u) (user_identities s))"

definition identity_count :: "uuid \<Rightarrow> acct_db \<Rightarrow> nat" where
  "identity_count u s = count_where (\<lambda>r. ui_user_id r = u) (user_identities s)"

definition create_identity :: "clock \<Rightarrow> uuid \<Rightarrow> string \<Rightarrow> string \<Rightarrow> string \<Rightarrow> unit acct_op" where
  "create_identity ck u p i mail = bnd (reads (get_by_provider p i)) (\<lambda>taken.
     seq (check (p \<in> {''google'', ''apple''}) ''user_identities_provider_check'')
     (seq (check (taken = None) ''user_identities_provider_provider_id_key'')
       (modify (\<lambda>s. s\<lparr> user_identities := user_identities s @ [\<lparr> ui_user_id = u, ui_provider = p, ui_provider_id = i,
          ui_email = Some mail, ui_created_at = now ck \<rparr>] \<rparr>))))"

definition delete_identity :: "uuid \<Rightarrow> string \<Rightarrow> unit acct_op" where
  "delete_identity u p = modify (\<lambda>s. s\<lparr> user_identities := filter (\<lambda>r. \<not> (ui_user_id r = u \<and> ui_provider r = p)) (user_identities s) \<rparr>)"


section \<open>Sign-in\<close>

text \<open>The constraint \<open>email_format\<close>: one @, no white space, a dot inside the part after it.\<close>

definition email_char :: "char \<Rightarrow> bool" where
  "email_char c \<longleftrightarrow> c \<noteq> CHR ''@'' \<and> c \<notin> {CHR '' '', CHR 0x09, CHR 0x0A, CHR 0x0B, CHR 0x0C, CHR 0x0D}"

definition email_format :: "string \<Rightarrow> bool" where
  "email_format e = (case dropWhile email_char e of
       c # host \<Rightarrow> c = CHR ''@'' \<and> takeWhile email_char e \<noteq> [] \<and> list_all email_char host
          \<and> CHR ''.'' \<in> set (butlast (tl host))
     | [] \<Rightarrow> False)"

definition account_types :: "string list" where
  "account_types = [''oauth'', ''internal'', ''deleted'', ''dev'']"

definition insert_user :: "clock \<Rightarrow> string \<Rightarrow> string \<Rightarrow> string \<Rightarrow> string option \<Rightarrow> string \<Rightarrow> string \<Rightarrow> uuid acct_op" where
  "insert_user ck mail account_type name avatar tz support = bnd (on_core fresh_uuid) (\<lambda>u. bnd (reads accounts) (\<lambda>rows.
     seq (check (email_format mail) ''email_format'')
     (seq (check (account_type \<in> set account_types) ''account_type_check'')
     (seq (check (support \<notin> ac_support_id ` set rows) ''uq_users_support_id'')
     (seq (modify (\<lambda>s. s\<lparr> core := (core s)\<lparr> users := (users (core s))(u \<mapsto> \<lparr> is_deleted = False, is_shadow_banned = False,
             gift_card_redeemed_ytd_cents = 0, display_name = Some name, email = mail \<rparr>) \<rparr>,
           accounts := accounts s @ [\<lparr> ac_id = u, ac_account_type = account_type, ac_avatar_url = avatar, ac_timezone = tz,
             ac_support_id = support, ac_password_changed_at = None, ac_created_at = now ck \<rparr>] \<rparr>))
       (ret u))))))"

text \<open>\<open>create_user\<close>: five attempts in a savepoint each, another one only after a collision of the support identifier.\<close>

fun create_user_loop :: "auth_env \<Rightarrow> string \<Rightarrow> string \<Rightarrow> string \<Rightarrow> string option \<Rightarrow> string \<Rightarrow> nat \<Rightarrow> nat \<Rightarrow> uuid acct_op" where
  "create_user_loop E mail account_type name avatar tz n 0 = throw (Core (IntegrityError ''uq_users_support_id''))"
| "create_user_loop E mail account_type name avatar tz n (Suc tries) =
     catch (db_transaction (insert_user (ae_clock E) mail account_type name avatar tz (ae_support_id E n)))
       (\<lambda>e. if e = Core (IntegrityError ''uq_users_support_id'')
            then create_user_loop E mail account_type name avatar tz (Suc n) tries else throw e)"

definition create_user :: "auth_env \<Rightarrow> string \<Rightarrow> string \<Rightarrow> string \<Rightarrow> string option \<Rightarrow> string \<Rightarrow> uuid acct_op" where
  "create_user E mail account_type name avatar tz = create_user_loop E mail account_type name avatar tz 0 5"

definition get_or_create_prefs :: "uuid \<Rightarrow> preference_row acct_op" where
  "get_or_create_prefs u = bnd (reads (\<lambda>s. preferences s u)) (\<lambda>row. case row of
       Some p \<Rightarrow> ret p
     | None \<Rightarrow> let p = \<lparr> up_search_radius_km = 5, up_transport_mode = ''driving'' \<rparr> in
         seq (modify (\<lambda>s. s\<lparr> preferences := (preferences s)(u \<mapsto> p) \<rparr>)) (ret p))"

definition create_cab_balance :: "uuid \<Rightarrow> unit acct_op" where
  "create_cab_balance u = bnd (reads (\<lambda>s. user_cab_balance (core s) u)) (\<lambda>old. seq (check (old = None) ''user_cab_balance_pkey'')
     (modify (\<lambda>s. s\<lparr> core := (core s)\<lparr> user_cab_balance := (user_cab_balance (core s))(u \<mapsto> 0) \<rparr> \<rparr>)))"

definition create_cashback_balance :: "uuid \<Rightarrow> unit acct_op" where
  "create_cashback_balance u = bnd (reads (\<lambda>s. user_cashback_balance (core s) u)) (\<lambda>old. seq (check (old = None) ''user_cashback_balance_pkey'')
     (modify (\<lambda>s. s\<lparr> core := (core s)\<lparr> user_cashback_balance := (user_cashback_balance (core s))(u \<mapsto> 0) \<rparr> \<rparr>)))"

definition resolve_or_create_oauth_user ::
  "auth_env \<Rightarrow> string \<Rightarrow> string \<Rightarrow> string \<Rightarrow> string \<Rightarrow> string option \<Rightarrow> string \<Rightarrow> uuid acct_op" where
  "resolve_or_create_oauth_user E p i mail name avatar tz = bnd (reads (get_by_provider p i)) (\<lambda>identity. case identity of
       Some r \<Rightarrow> ret (ui_user_id r)
     | None \<Rightarrow> if \<not> ae_registrations_open E then throw Registrations_Closed
         else bnd (create_user E mail ''oauth'' name avatar tz) (\<lambda>u.
           seq (create_identity (ae_clock E) u p i mail)
           (seq (get_or_create_prefs u)
           (seq (on_core (create_code_for_user (ae_clock E) (ae_token_hex E) u))
           (seq (create_cab_balance u) (seq (create_cashback_balance u) (ret u)))))))"

definition token_pair :: "auth_env \<Rightarrow> uuid \<Rightarrow> (string \<times> string) acct_op" where
  "token_pair E u = bnd (create_refresh_token E u) (\<lambda>r. ret (create_access_token E u, r))"

definition or_empty :: "string option \<Rightarrow> string" where
  "or_empty x = (case x of None \<Rightarrow> '''' | Some y \<Rightarrow> y)"

definition strip_name :: "string \<Rightarrow> string" where
  "strip_name x = (let ws = (\<lambda>c. c \<in> {CHR '' '', CHR 0x09, CHR 0x0A, CHR 0x0B, CHR 0x0C, CHR 0x0D}) in
     rev (dropWhile ws (rev (dropWhile ws x))))"

definition oauth_google :: "auth_env \<Rightarrow> string \<Rightarrow> string \<Rightarrow> (string \<times> string) acct_op" where
  "oauth_google E token tz = (case ae_google E token of
       Rejected \<Rightarrow> throw (Value_Error ''invalid_google_token'')
     | Unreachable \<Rightarrow> throw (Upstream_Error ''google_auth_unavailable'')
     | Verified c \<Rightarrow>
         seq (guard (or_empty (gc_email c) \<noteq> '''') (Value_Error ''google_missing_email''))
         (seq (guard (gc_email_verified c) (Value_Error ''google_email_not_verified''))
         (let given = strip_name (or_empty (gc_name c)) in
          db_transaction (bnd (resolve_or_create_oauth_user E ''google'' (gc_sub c) (or_empty (gc_email c))
            (if given = '''' then ae_pseudonym E else given) (gc_picture c) tz) (token_pair E)))))"

text \<open>The key of the token's \<open>kid\<close>, refreshing the cached key set once when it is missing.\<close>

definition verify_apple_token :: "apple_keys \<Rightarrow> string \<Rightarrow> apple_claims verified" where
  "verify_apple_token K token =
     (let decoded = (case ak_decode K (ak_kid K token) token of Some c \<Rightarrow> Verified c | None \<Rightarrow> Rejected) in
      case ak_first K of
        None \<Rightarrow> Unreachable
      | Some keys \<Rightarrow> if ak_kid K token \<in> set keys then decoded
          else (case ak_refreshed K of
            None \<Rightarrow> Unreachable
          | Some fresh \<Rightarrow> if ak_kid K token \<in> set fresh then decoded else Rejected))"

definition apple_email_verified :: "apple_claims \<Rightarrow> bool" where
  "apple_email_verified c \<longleftrightarrow> upper (pc_email_verified c) = ''TRUE''"

definition oauth_apple :: "auth_env \<Rightarrow> string \<Rightarrow> string \<Rightarrow> (string \<times> string) acct_op" where
  "oauth_apple E token tz =
     (if ae_apple_client_id E = '''' then throw (Upstream_Error ''apple_disabled'')
      else case verify_apple_token (ae_apple_keys E) token of
        Rejected \<Rightarrow> throw (Value_Error ''invalid_apple_token'')
      | Unreachable \<Rightarrow> throw (Upstream_Error ''apple_auth_unavailable'')
      | Verified c \<Rightarrow>
          seq (guard (or_empty (pc_email c) = '''' \<or> apple_email_verified c) (Value_Error ''apple_email_not_verified''))
          (bnd (reads (get_by_provider ''apple'' (pc_sub c))) (\<lambda>existing.
           seq (guard (existing \<noteq> None \<or> or_empty (pc_email c) \<noteq> '''') (Value_Error ''apple_missing_email''))
           (db_transaction (bnd (resolve_or_create_oauth_user E ''apple'' (pc_sub c) (or_empty (pc_email c)) (ae_pseudonym E) None tz)
              (token_pair E))))))"

definition verify_oauth_identity :: "auth_env \<Rightarrow> string \<Rightarrow> string \<Rightarrow> (string \<times> string) acct_op" where
  "verify_oauth_identity E p token =
     (if p = ''google'' then (case ae_google E token of
         Rejected \<Rightarrow> throw (Value_Error ''invalid_oauth_token'')
       | Unreachable \<Rightarrow> throw (Upstream_Error ''google_auth_unavailable'')
       | Verified c \<Rightarrow> if or_empty (gc_email c) = '''' \<or> \<not> gc_email_verified c then throw (Value_Error ''invalid_oauth_token'')
           else ret (gc_sub c, or_empty (gc_email c)))
      else if ae_apple_client_id E = '''' then throw (Upstream_Error ''apple_disabled'')
      else (case verify_apple_token (ae_apple_keys E) token of
         Rejected \<Rightarrow> throw (Value_Error ''invalid_oauth_token'')
       | Unreachable \<Rightarrow> throw (Upstream_Error ''apple_auth_unavailable'')
       | Verified c \<Rightarrow> if or_empty (pc_email c) \<noteq> '''' \<and> \<not> apple_email_verified c then throw (Value_Error ''invalid_oauth_token'')
           else ret (pc_sub c, or_empty (pc_email c))))"

definition link_provider :: "auth_env \<Rightarrow> uuid \<Rightarrow> string \<Rightarrow> string \<Rightarrow> unit acct_op" where
  "link_provider E u p token = bnd (verify_oauth_identity E p token) (\<lambda>(i, mail).
     bnd (reads (get_by_provider p i)) (\<lambda>existing. case existing of
         Some r \<Rightarrow> if ui_user_id r = u then ret () else throw Link_Conflict
       | None \<Rightarrow> db_transaction (create_identity (ae_clock E) u p i mail)))"

text \<open>\<open>unlink_provider\<close>: the checks only read, the deletion follows.\<close>

definition may_unlink :: "uuid \<Rightarrow> string \<Rightarrow> unit acct_op" where
  "may_unlink u p = bnd (reads (\<lambda>s. (get_by_provider_for_user u p s, identity_count u s))) (\<lambda>(found, n).
     seq (guard (found \<noteq> None) Identity_Not_Found) (guard (1 < n) Last_Identity))"

definition unlink_provider :: "uuid \<Rightarrow> string \<Rightarrow> unit acct_op" where
  "unlink_provider u p = seq (may_unlink u p) (delete_identity u p)"

definition oauth :: "auth_env \<Rightarrow> string \<Rightarrow> string \<Rightarrow> string \<Rightarrow> (string \<times> string) acct_op" where
  "oauth E p token tz =
     (if p \<notin> {''google'', ''apple''} \<or> tzdb (ae_clock E) tz = None then throw (Http 422 ''validation_error'')
      else catch (if p = ''google'' then oauth_google E token tz else oauth_apple E token tz) (\<lambda>e. case e of
          Registrations_Closed \<Rightarrow> throw (Http 503 ''registrations_closed'')
        | Value_Error _ \<Rightarrow> throw (Http 401 ''invalid_oauth_token'')
        | Upstream_Error _ \<Rightarrow> throw (Http 503 ''upstream_service_error'')
        | _ \<Rightarrow> throw e))"

definition refresh :: "auth_env \<Rightarrow> string \<Rightarrow> (string \<times> string) acct_op" where
  "refresh E token = catch (refresh_tokens E token) (\<lambda>e. case e of
       Permission_Error _ \<Rightarrow> throw (Http 401 ''invalid_refresh_token'') | _ \<Rightarrow> throw e)"


section \<open>The account\<close>

text \<open>The fields of the body that are set; an avatar may be set to null.\<close>

definition update_profile :: "uuid \<Rightarrow> string option \<Rightarrow> string option option \<Rightarrow> string option \<Rightarrow> unit acct_op" where
  "update_profile u name avatar tz =
     seq (case name of None \<Rightarrow> ret () | Some n \<Rightarrow> modify (\<lambda>s. s\<lparr> core := (core s)\<lparr> users :=
            (users (core s))(u := map_option (\<lambda>r. r\<lparr> display_name := Some n \<rparr>) (users (core s) u)) \<rparr> \<rparr>))
     (seq (case avatar of None \<Rightarrow> ret () | Some a \<Rightarrow> modify (\<lambda>s. s\<lparr> accounts := update_where (\<lambda>r. ac_id r = u)
            (\<lambda>r. r\<lparr> ac_avatar_url := a \<rparr>) (accounts s) \<rparr>))
     (case tz of None \<Rightarrow> ret () | Some z \<Rightarrow> modify (\<lambda>s. s\<lparr> accounts := update_where (\<lambda>r. ac_id r = u)
            (\<lambda>r. r\<lparr> ac_timezone := z \<rparr>) (accounts s) \<rparr>)))"

definition patch_profile :: "auth_env \<Rightarrow> string \<Rightarrow> string option \<Rightarrow> string option option \<Rightarrow> string option \<Rightarrow> unit acct_op" where
  "patch_profile E access name avatar tz = bnd (get_http_current_user E access) (\<lambda>u. update_profile u name avatar tz)"

text \<open>A GET does not commit: the row it may create is rolled back with the session.\<close>

definition get_preferences :: "auth_env \<Rightarrow> string \<Rightarrow> preference_row acct_op" where
  "get_preferences E access = bnd (get_http_current_user E access) (\<lambda>u. reads (\<lambda>s. case preferences s u of
       Some p \<Rightarrow> p | None \<Rightarrow> \<lparr> up_search_radius_km = 5, up_transport_mode = ''driving'' \<rparr>))"

definition update_preferences :: "uuid \<Rightarrow> int option \<Rightarrow> string option \<Rightarrow> preference_row acct_op" where
  "update_preferences u radius mode =
     (if radius = None \<and> mode = None then reads (\<lambda>s. case preferences s u of
         Some p \<Rightarrow> p | None \<Rightarrow> \<lparr> up_search_radius_km = 5, up_transport_mode = ''driving'' \<rparr>)
      else bnd (get_or_create_prefs u) (\<lambda>p.
        let q = \<lparr> up_search_radius_km = (case radius of None \<Rightarrow> up_search_radius_km p | Some n \<Rightarrow> n),
                  up_transport_mode = (case mode of None \<Rightarrow> up_transport_mode p | Some m \<Rightarrow> m) \<rparr> in
        seq (check (0 < up_search_radius_km q \<and> up_search_radius_km q \<le> 50) ''radius_range'')
        (seq (check (up_transport_mode q \<in> {''driving'', ''walking'', ''cycling''}) ''transport_check'')
        (seq (modify (\<lambda>s. s\<lparr> preferences := (preferences s)(u \<mapsto> q) \<rparr>)) (ret q)))))"

definition patch_preferences :: "auth_env \<Rightarrow> string \<Rightarrow> int option \<Rightarrow> string option \<Rightarrow> preference_row acct_op" where
  "patch_preferences E access radius mode = bnd (get_http_current_user E access) (\<lambda>u.
     if (case radius of None \<Rightarrow> False | Some n \<Rightarrow> n \<le> 0 \<or> 50 < n)
        \<or> (case mode of None \<Rightarrow> False | Some m \<Rightarrow> m \<notin> {''driving'', ''walking'', ''cycling''})
     then throw (Http 422 ''validation_error'') else db_transaction (update_preferences u radius mode))"

definition get_identities :: "auth_env \<Rightarrow> string \<Rightarrow> identity_row list acct_op" where
  "get_identities E access = bnd (get_http_current_user E access) (\<lambda>u. reads (list_for_user u))"

definition link_provider_endpoint :: "auth_env \<Rightarrow> string \<Rightarrow> string \<Rightarrow> string \<Rightarrow> unit acct_op" where
  "link_provider_endpoint E access p token = bnd (get_http_current_user E access) (\<lambda>u.
     if p \<notin> {''google'', ''apple''} then throw (Http 422 ''validation_error'')
     else catch (link_provider E u p token) (\<lambda>e. case e of
         Value_Error _ \<Rightarrow> throw (Http 401 ''invalid_oauth_token'')
       | Upstream_Error _ \<Rightarrow> throw (Http 503 ''upstream_service_error'')
       | Link_Conflict \<Rightarrow> throw (Http 409 ''identity_already_linked'')
       | _ \<Rightarrow> throw e))"

definition delete_identity_endpoint :: "auth_env \<Rightarrow> string \<Rightarrow> string \<Rightarrow> unit acct_op" where
  "delete_identity_endpoint E access p = bnd (get_http_current_user E access) (\<lambda>u.
     if p \<notin> {''google'', ''apple''} then throw (Http 422 ''validation_error'')
     else catch (unlink_provider u p) (\<lambda>e. case e of
         Identity_Not_Found \<Rightarrow> throw (Http 404 ''identity_not_found'')
       | Last_Identity \<Rightarrow> throw (Http 409 ''cannot_unlink_last_identity'')
       | _ \<Rightarrow> throw e))"

definition logout :: "auth_env \<Rightarrow> string \<Rightarrow> string \<Rightarrow> unit acct_op" where
  "logout E access token = bnd (get_http_current_user E access) (\<lambda>u. case decode_refresh_token E token of
       None \<Rightarrow> ret ()
     | Some j \<Rightarrow> bnd (reads (get_by_jti j)) (\<lambda>row. case row of
         None \<Rightarrow> ret ()
       | Some r \<Rightarrow> if tk_revoked_at r \<noteq> None \<or> tk_user_id r \<noteq> u then ret () else revoke (ae_clock E) j))"

definition logout_all :: "auth_env \<Rightarrow> string \<Rightarrow> unit acct_op" where
  "logout_all E access = bnd (get_http_current_user E access) (\<lambda>u. revoke_all_for_user (ae_clock E) u)"

text \<open>
  Rings of the dashboard: the snapshot is created and committed on the first access, a claim raises the counter while it is
  below the number of rings the savings are worth.
\<close>

definition ensure_snapshot :: "auth_env \<Rightarrow> uuid \<Rightarrow> snapshot_row acct_op" where
  "ensure_snapshot E u = bnd (reads (\<lambda>s. savings_snapshots s u)) (\<lambda>row. case row of
       Some r \<Rightarrow> ret r
     | None \<Rightarrow> bnd (reads (\<lambda>s. ae_savings E s u None)) (\<lambda>lifetime.
         let r = \<lparr> sn_lifetime_savings_cents = lifetime, sn_rings_consumed = 0, sn_last_computed_at = now (ae_clock E) \<rparr> in
         seq (modify (\<lambda>s. s\<lparr> savings_snapshots := (savings_snapshots s)(u \<mapsto> r) \<rparr>)) (ret r)))"

text \<open>The part of \<open>compute_account_stats\<close> that the rings need: rings consumed and pending.\<close>

definition ring_stats :: "auth_env \<Rightarrow> uuid \<Rightarrow> (int \<times> int) acct_op" where
  "ring_stats E u = bnd (ensure_snapshot E u) (\<lambda>snap.
     bnd (reads (\<lambda>s. ae_savings E s u (Some (sn_last_computed_at snap)))) (\<lambda>fresh.
     seq (guard (0 < ae_subscription_price_cents E) Runtime_Error)
     (let eligible = (sn_lifetime_savings_cents snap + fresh) div ae_subscription_price_cents E in
      ret (sn_rings_consumed snap, max 0 (eligible - sn_rings_consumed snap)))))"

definition claim_ring :: "auth_env \<Rightarrow> uuid \<Rightarrow> (bool \<times> int \<times> int) acct_op" where
  "claim_ring E u = bnd (ring_stats E u) (\<lambda>(consumed, pending).
     if pending \<le> 0 then ret (False, consumed, pending)
     else let eligible = consumed + pending in
       bnd (reads (\<lambda>s. savings_snapshots s u)) (\<lambda>row. case row of
           Some r \<Rightarrow> if sn_rings_consumed r < eligible
             then let m = sn_rings_consumed r + 1 in
               seq (modify (\<lambda>s. s\<lparr> savings_snapshots := (savings_snapshots s)(u \<mapsto> r\<lparr> sn_rings_consumed := m \<rparr>) \<rparr>))
                 (ret (True, m, max 0 (eligible - m)))
             else ret (False, consumed, pending)
         | None \<Rightarrow> ret (False, consumed, pending)))"

definition post_rings_claim :: "auth_env \<Rightarrow> string \<Rightarrow> (bool \<times> int \<times> int) acct_op" where
  "post_rings_claim E access = bnd (get_http_current_user E access) (claim_ring E)"


section \<open>Deletion of an account\<close>

text \<open>
  Two identifiers are reserved: the sentinel that owns the financial rows of deleted accounts, and \<open>null_user\<close>, which stands
  for a \<open>NULL\<close> in a \<open>user_id\<close> column that a deletion clears.
\<close>

definition ANON_SENTINEL_USER_ID :: uuid where
  "ANON_SENTINEL_USER_ID = 1"

definition null_user :: uuid where
  "null_user = 0"

definition anonymize_user_id :: "auth_env \<Rightarrow> uuid \<Rightarrow> uuid acct_op" where
  "anonymize_user_id E u = seq (guard (strip_name (ae_salt E) \<noteq> '''') Runtime_Error) (ret (ae_anon E u))"

definition renamed :: "uuid \<Rightarrow> uuid \<Rightarrow> uuid \<Rightarrow> uuid" where
  "renamed u v x = (if x = u then v else x)"

definition rekey_progress :: "uuid \<Rightarrow> uuid \<Rightarrow> (uuid \<times> uuid \<rightharpoonup> int) \<Rightarrow> uuid \<times> uuid \<rightharpoonup> int" where
  "rekey_progress u v m = (\<lambda>(x, season). if x = u then None else if x = v \<and> m (u, season) \<noteq> None then m (u, season) else m (x, season))"

text \<open>Tier 1: rows that go.\<close>

definition drop_rows :: "uuid \<Rightarrow> db \<Rightarrow> db" where
  "drop_rows u s = s\<lparr> user_streaks := (user_streaks s)(u := None), user_cab_balance := (user_cab_balance s)(u := None),
     notification_outbox := filter (\<lambda>r. ob_user_id r \<noteq> u) (notification_outbox s), user_xp_balance := (user_xp_balance s)(u := None) \<rparr>"

text \<open>Tier 2: rows whose user becomes \<open>NULL\<close>.\<close>

definition clear_rows :: "uuid \<Rightarrow> db \<Rightarrow> db" where
  "clear_rows u s = s\<lparr>
     referral_codes := map (\<lambda>r. if rc_user_id r = Some u then r\<lparr> rc_user_id := None \<rparr> else r) (referral_codes s),
     scans := map (\<lambda>r. r\<lparr> sc_user_id := renamed u null_user (sc_user_id r) \<rparr>) (scans s),
     receipts := map (\<lambda>r. r\<lparr> re_user_id := renamed u null_user (re_user_id r) \<rparr>) (receipts s) \<rparr>"

text \<open>Tier 3: rows that keep an anonymous identifier of their own.\<close>

definition anonymise_rows :: "uuid \<Rightarrow> uuid \<Rightarrow> db \<Rightarrow> db" where
  "anonymise_rows u v s = s\<lparr>
     user_achievements := map (\<lambda>r. r\<lparr> ua_user_id := renamed u v (ua_user_id r) \<rparr>) (user_achievements s),
     user_battlepass_progress := rekey_progress u v (user_battlepass_progress s),
     user_battlepass_claims := map (\<lambda>r. r\<lparr> bc_user_id := renamed u v (bc_user_id r) \<rparr>) (user_battlepass_claims s),
     community_challenge_claims := map (\<lambda>r. r\<lparr> cc_user_id := renamed u v (cc_user_id r) \<rparr>) (community_challenge_claims s),
     community_multipliers := map (\<lambda>r. r\<lparr> mu_user_id := renamed u v (mu_user_id r) \<rparr>) (community_multipliers s),
     xp_transactions := map (\<lambda>r. r\<lparr> xt_user_id := renamed u v (xt_user_id r) \<rparr>) (xp_transactions s),
     referral_uses := map (\<lambda>r. r\<lparr> ru_referred_user_id := map_option (renamed u v) (ru_referred_user_id r) \<rparr>) (referral_uses s),
     play := (play s)\<lparr>
       reward_events := map (\<lambda>r. r\<lparr> ev_user_id := renamed u v (ev_user_id r) \<rparr>) (reward_events (play s)),
       user_missions := map (\<lambda>r. r\<lparr> um_user_id := renamed u v (um_user_id r) \<rparr>) (user_missions (play s)),
       mystery_challenge_finds := map (\<lambda>r. r\<lparr> fi_user_id := renamed u v (fi_user_id r) \<rparr>) (mystery_challenge_finds (play s)),
       mission_xp_records := map (\<lambda>r. r\<lparr> mx_user_id := renamed u v (mx_user_id r) \<rparr>) (mission_xp_records (play s)) \<rparr> \<rparr>"

text \<open>Tier 4: financial rows go to the sentinel; the row of the user becomes a tombstone.\<close>

definition sentinel_rows :: "uuid \<Rightarrow> db \<Rightarrow> db" where
  "sentinel_rows u s = (let v = ANON_SENTINEL_USER_ID in s\<lparr>
     cabecoin_transactions := map (\<lambda>r. r\<lparr> ct_user_id := renamed u v (ct_user_id r) \<rparr>) (cabecoin_transactions s),
     cashback_transactions := map (\<lambda>r. r\<lparr> cb_user_id := renamed u v (cb_user_id r) \<rparr>) (cashback_transactions s),
     cashback_withdrawals := map (\<lambda>r. r\<lparr> wd_user_id := renamed u v (wd_user_id r) \<rparr>) (cashback_withdrawals s),
     gift_card_orders := map (\<lambda>r. r\<lparr> go_user_id := renamed u v (go_user_id r) \<rparr>) (gift_card_orders s) \<rparr>)"

definition tombstone :: "(uuid \<Rightarrow> string) \<Rightarrow> uuid \<Rightarrow> db \<Rightarrow> db" where
  "tombstone mail u s = s\<lparr> users := (users s)(u := map_option (\<lambda>r. r\<lparr> email := mail u, display_name := None, is_deleted := True \<rparr>) (users s u)) \<rparr>"

text \<open>\<open>mail u\<close> is \<^verbatim>\<open>deleted_<user_id>@deleted.invalid\<close>.\<close>

definition delete_account :: "auth_env \<Rightarrow> (uuid \<Rightarrow> string) \<Rightarrow> uuid \<Rightarrow> unit acct_op" where
  "delete_account E mail u = bnd (anonymize_user_id E u) (\<lambda>v.
     modify (\<lambda>s. s\<lparr> token_table := filter (\<lambda>r. tk_user_id r \<noteq> u) (token_table s),
       user_identities := filter (\<lambda>r. ui_user_id r \<noteq> u) (user_identities s),
       savings_snapshots := (savings_snapshots s)(u := None),
       accounts := update_where (\<lambda>r. ac_id r = u) (\<lambda>r. r\<lparr> ac_account_type := ''deleted'', ac_avatar_url := None \<rparr>) (accounts s),
       core := tombstone mail u (sentinel_rows u (anonymise_rows u v (clear_rows u (drop_rows u (core s))))) \<rparr>))"

definition delete_account_endpoint :: "auth_env \<Rightarrow> (uuid \<Rightarrow> string) \<Rightarrow> string \<Rightarrow> unit acct_op" where
  "delete_account_endpoint E mail access = bnd (get_http_current_user E access) (delete_account E mail)"

end
