(* ===== verification/Ratis_Subscription.thy ===== *)
theory Ratis_Subscription
  imports Ratis_Account
begin

text \<open>
  Subscriptions paid through Stripe (\<open>ratis_auth\<close>: \<open>services/subscription_service.py\<close>,
  \<open>services/subscription_admin_service.py\<close>, \<open>repositories/subscription_repository.py\<close>, \<open>routes/subscription.py\<close>,
  \<open>routes/webhooks.py\<close>, \<open>routes/admin/subscription.py\<close>), with the constraints and the discount trigger of the table and the call
  of the rewards service that a completed checkout triggers (\<open>ratis_core/rewards_client.py\<close>). Prices are whole cents; the
  settings give them with two decimals.
\<close>

section \<open>The table\<close>

text \<open>Stripe's answers, calendar months and years (\<open>relativedelta\<close>) and the prices of the settings.\<close>

datatype cancel_answer = Cancelled | Invalid_Request | Stripe_Down

record stripe_env =
  st_clock :: clock
  st_create :: "int \<Rightarrow> string \<Rightarrow> uuid \<Rightarrow> (string \<times> string option) option"
  st_cancel :: "string \<Rightarrow> cancel_answer"
  st_plus_month :: "stamp \<Rightarrow> stamp"
  st_plus_year :: "stamp \<Rightarrow> stamp"
  st_price_monthly :: int
  st_price_annual :: int

definition sub_statuses :: "string list" where
  "sub_statuses = [''pending'', ''active'', ''cancelled'', ''expired'']"

text \<open>The view of the row that the rewards service reads.\<close>

definition sub_view :: "sub_row \<Rightarrow> subscription_row" where
  "sub_view r = \<lparr> su_user_id = sb_user_id r, su_status = sb_status r, su_plan = sb_plan r, su_started_at = sb_started_at r,
     su_expires_at = sb_expires_at r \<rparr>"

definition set_subs :: "sub_row list \<Rightarrow> unit acct_op" where
  "set_subs rows = modify (\<lambda>s. s\<lparr> sub_rows := rows, core := (core s)\<lparr> subscriptions := map sub_view rows \<rparr> \<rparr>)"

definition sub_checks :: "sub_row \<Rightarrow> unit acct_op" where
  "sub_checks r = seq (guard (sb_price r < 10 ^ 10) (Core DataError))
     (seq (check (sb_status r \<in> set sub_statuses) ''subscriptions_status_check'')
     (seq (check (0 < sb_price r) ''price_pos'')
     (seq (check (sb_paid_with r = ''cashback'' \<or> sb_payment_ref r \<noteq> None \<or> sb_status r \<notin> {''active'', ''expired''}) ''payment_ref_coherence'')
     (seq (check (sb_status r = ''cancelled'' \<longleftrightarrow> sb_cancelled_at r \<noteq> None) ''cancelled_check'')
     (seq (check (sb_discount_campaign_code r = None \<longleftrightarrow> sb_discount_amount r = None) ''discount_coherence'')
     (seq (check (case sb_discount_amount r of None \<Rightarrow> True | Some d \<Rightarrow> 0 < d) ''discount_amount_pos'')
     (seq (check (case sb_discount_amount r of None \<Rightarrow> True | Some d \<Rightarrow> d < sb_price r) ''discount_not_exceed_price'')
       (check (sb_started_at r < sb_expires_at r) ''expires_after_start'')))))))) "

text \<open>The partial unique indexes: one active and one pending row per user.\<close>

definition sub_unique :: "sub_row list \<Rightarrow> sub_row \<Rightarrow> unit acct_op" where
  "sub_unique others r = seq (check (\<not> (sb_status r = ''active''
        \<and> list_ex (\<lambda>x. sb_user_id x = sb_user_id r \<and> sb_status x = ''active'') others)) ''idx_one_active_subscription'')
     (check (\<not> (sb_status r = ''pending''
        \<and> list_ex (\<lambda>x. sb_user_id x = sb_user_id r \<and> sb_status x = ''pending'') others)) ''idx_one_pending_subscription'')"

text \<open>The trigger \<open>fn_increment_discount_uses\<close>: a row that becomes active uses its discount code.\<close>

definition code_usable :: "clock \<Rightarrow> campaign_row \<Rightarrow> bool" where
  "code_usable ck c \<longleftrightarrow> (case dc_max_uses c of None \<Rightarrow> True | Some m \<Rightarrow> dc_uses_count c < m)
     \<and> (case dc_valid_from c of None \<Rightarrow> True | Some t \<Rightarrow> t \<le> now ck) \<and> (case dc_valid_until c of None \<Rightarrow> True | Some t \<Rightarrow> now ck \<le> t)"

definition increment_discount_uses :: "clock \<Rightarrow> string option \<Rightarrow> sub_row \<Rightarrow> unit acct_op" where
  "increment_discount_uses ck old_status r =
     (if sb_status r \<noteq> ''active'' \<or> old_status = Some ''active'' then ret ()
      else case sb_discount_campaign_code r of
        None \<Rightarrow> ret ()
      | Some code \<Rightarrow> bnd (reads (\<lambda>s. list_ex (\<lambda>c. dc_code c = code \<and> code_usable ck c) (campaigns s))) (\<lambda>found.
          seq (guard found Trigger_Raised)
            (modify (\<lambda>s. s\<lparr> campaigns := update_where (\<lambda>c. dc_code c = code \<and> code_usable ck c)
               (\<lambda>c. c\<lparr> dc_uses_count := dc_uses_count c + 1 \<rparr>) (campaigns s) \<rparr>))))"

definition insert_sub :: "clock \<Rightarrow> sub_row \<Rightarrow> unit acct_op" where
  "insert_sub ck r = seq (increment_discount_uses ck None r) (seq (sub_checks r) (bnd (reads sub_rows) (\<lambda>rows.
     seq (check (sb_id r \<notin> sb_id ` set rows) ''subscriptions_pkey'') (seq (sub_unique rows r) (set_subs (rows @ [r]))))))"

definition sub_by_id :: "uuid \<Rightarrow> acct_db \<Rightarrow> sub_row option" where
  "sub_by_id i s = List.find (\<lambda>r. sb_id r = i) (sub_rows s)"

definition update_sub :: "clock \<Rightarrow> uuid \<Rightarrow> (sub_row \<Rightarrow> sub_row) \<Rightarrow> unit acct_op" where
  "update_sub ck i f = bnd (reads (sub_by_id i)) (\<lambda>row. case row of
       None \<Rightarrow> ret ()
     | Some r \<Rightarrow> seq (increment_discount_uses ck (Some (sb_status r)) (f r)) (seq (sub_checks (f r)) (bnd (reads sub_rows) (\<lambda>rows.
         seq (sub_unique (filter (\<lambda>x. sb_id x \<noteq> i) rows) (f r)) (set_subs (update_where (\<lambda>x. sb_id x = i) f rows))))))"


section \<open>The repository\<close>

definition sub_active :: "uuid \<Rightarrow> acct_db \<Rightarrow> sub_row option" where
  "sub_active u s = List.find (\<lambda>r. sb_user_id r = u \<and> sb_status r = ''active'') (sub_rows s)"

definition get_by_stripe_session :: "string \<Rightarrow> acct_db \<Rightarrow> sub_row option" where
  "get_by_stripe_session i s = List.find (\<lambda>r. sb_stripe_session_id r = Some i) (sub_rows s)"

definition get_discount_campaign :: "string \<Rightarrow> acct_db \<Rightarrow> campaign_row option" where
  "get_discount_campaign code s = List.find (\<lambda>c. dc_code c = code) (campaigns s)"

definition sub_create_pending :: "clock \<Rightarrow> uuid \<Rightarrow> uuid \<Rightarrow> string \<Rightarrow> string \<Rightarrow> int \<Rightarrow> (string \<times> int) option \<Rightarrow> stamp \<Rightarrow> unit acct_op" where
  "sub_create_pending ck i u plan session price discount until = insert_sub ck
     \<lparr> sb_id = i, sb_user_id = u, sb_status = ''pending'', sb_plan = Some plan, sb_stripe_session_id = Some session, sb_price = price,
       sb_paid_with = ''stripe'', sb_payment_ref = None, sb_discount_campaign_code = map_option fst discount,
       sb_discount_amount = map_option snd discount, sb_started_at = now ck, sb_expires_at = until, sb_cancelled_at = None \<rparr>"

definition activated :: "string option \<Rightarrow> stamp \<Rightarrow> stamp \<Rightarrow> int \<Rightarrow> sub_row \<Rightarrow> sub_row" where
  "activated ref started until amount r = r\<lparr> sb_status := ''active'', sb_payment_ref := ref, sb_started_at := started,
     sb_expires_at := until, sb_price := amount, sb_paid_with := ''stripe'' \<rparr>"

definition sub_cancel :: "clock \<Rightarrow> uuid \<Rightarrow> unit acct_op" where
  "sub_cancel ck i = update_sub ck i (\<lambda>r. r\<lparr> sb_status := ''cancelled'', sb_cancelled_at := Some (now ck) \<rparr>)"

definition cancel_by_stripe_session :: "clock \<Rightarrow> string \<Rightarrow> bool acct_op" where
  "cancel_by_stripe_session ck session = bnd (reads (get_by_stripe_session session)) (\<lambda>row. case row of
       None \<Rightarrow> ret False
     | Some r \<Rightarrow> if sb_status r = ''pending'' then seq (sub_cancel ck (sb_id r)) (ret True) else ret False)"


section \<open>Checkout\<close>

definition validate_discount :: "clock \<Rightarrow> campaign_row \<Rightarrow> unit acct_op" where
  "validate_discount ck c =
     seq (guard (dc_is_public c) (Value_Error ''discount_code_invalid''))
     (seq (guard (case dc_valid_from c of None \<Rightarrow> True | Some t \<Rightarrow> t \<le> now ck) (Value_Error ''discount_code_expired''))
     (seq (guard (case dc_valid_until c of None \<Rightarrow> True | Some t \<Rightarrow> now ck \<le> t) (Value_Error ''discount_code_expired''))
       (guard (case dc_max_uses c of None \<Rightarrow> True | Some m \<Rightarrow> dc_uses_count c < m) (Value_Error ''discount_code_exhausted''))))"

text \<open>A percentage is rounded half up to the cent; the price stays at least a cent.\<close>

definition compute_discount_amount :: "int \<Rightarrow> campaign_row \<Rightarrow> int" where
  "compute_discount_amount price c =
     min (if dc_type c = ''percentage'' then (price * dc_value c + 5000) div 10000 else dc_value c) (price - 1)"

definition plan_price :: "stripe_env \<Rightarrow> string \<Rightarrow> int" where
  "plan_price E plan = (if plan = ''monthly'' then st_price_monthly E else st_price_annual E)"

definition plan_end :: "stripe_env \<Rightarrow> string option \<Rightarrow> stamp" where
  "plan_end E plan = (if plan = Some ''monthly'' then st_plus_month E (now (st_clock E)) else st_plus_year E (now (st_clock E)))"

definition checked_discount :: "stripe_env \<Rightarrow> int \<Rightarrow> string option \<Rightarrow> (string \<times> int) option acct_op" where
  "checked_discount E price code = (case code of
       None \<Rightarrow> ret None
     | Some c \<Rightarrow> if c = '''' then ret None else bnd (reads (get_discount_campaign c)) (\<lambda>row. case row of
         None \<Rightarrow> throw (Value_Error ''discount_code_invalid'')
       | Some d \<Rightarrow> seq (validate_discount (st_clock E) d) (ret (Some (c, compute_discount_amount price d)))))"

definition final_price :: "int \<Rightarrow> (string \<times> int) option \<Rightarrow> int" where
  "final_price price discount = (case discount of None \<Rightarrow> price | Some (_, d) \<Rightarrow> price - d)"

definition create_checkout :: "stripe_env \<Rightarrow> uuid \<Rightarrow> string \<Rightarrow> string option \<Rightarrow> string \<Rightarrow> string acct_op" where
  "create_checkout E u plan code currency =
     bnd (reads (sub_active u)) (\<lambda>active. seq (guard (active = None) (Value_Error ''already_subscribed''))
     (let price = plan_price E plan in
      seq (guard (0 < price) (Value_Error ''invalid_catalog_price''))
     (bnd (checked_discount E price code) (\<lambda>discount.
      bnd (on_core fresh_uuid) (\<lambda>i. case st_create E (final_price price discount) currency i of
          None \<Rightarrow> throw Stripe_Error
        | Some (session, url) \<Rightarrow>
            seq (db_transaction (sub_create_pending (st_clock E) i u plan session price discount (plan_end E (Some plan))))
              (case url of None \<Rightarrow> throw (Value_Error ''stripe_session_missing_url'') | Some x \<Rightarrow> ret x))))))"

definition cancel_active :: "stripe_env \<Rightarrow> uuid \<Rightarrow> unit acct_op" where
  "cancel_active E u = bnd (reads (sub_active u)) (\<lambda>row. case row of
       None \<Rightarrow> throw (Lookup_Error ''no_active_subscription'')
     | Some r \<Rightarrow> seq (guard (case sb_payment_ref r of None \<Rightarrow> True | Some ref \<Rightarrow> ref = '''' \<or> st_cancel E ref \<noteq> Stripe_Down) Stripe_Error)
         (db_transaction (sub_cancel (st_clock E) (sb_id r))))"


section \<open>The webhook\<close>

record checkout_session =
  cs_id :: string
  cs_subscription_id :: "ref_text option"
  cs_payment_intent :: "string option"
  cs_amount_total :: "int option"

record stripe_event =
  we_id :: string
  we_type :: string
  we_session :: checkout_session

definition claim_stripe_event :: "string \<Rightarrow> string \<Rightarrow> bool acct_op" where
  "claim_stripe_event i ty = bnd (reads stripe_events) (\<lambda>rows. if i \<in> fst ` set rows then ret False
     else seq (modify (\<lambda>s. s\<lparr> stripe_events := stripe_events s @ [(i, ty)] \<rparr>)) (ret True))"

text \<open>The first link of the user without a plan gets the plan.\<close>

definition set_referral_plan :: "uuid \<Rightarrow> string option \<Rightarrow> db \<Rightarrow> db" where
  "set_referral_plan u plan s = (case List.find (\<lambda>r. ru_referred_user_id r = Some u \<and> ru_plan r = None) (referral_uses s) of
       None \<Rightarrow> s
     | Some x \<Rightarrow> s\<lparr> referral_uses := update_where (\<lambda>r. ru_id r = ru_id x) (\<lambda>r. r\<lparr> ru_plan := plan \<rparr>) (referral_uses s) \<rparr>)"

definition handle_checkout_completed :: "stripe_env \<Rightarrow> checkout_session \<Rightarrow> unit acct_op" where
  "handle_checkout_completed E cs = (case cs_subscription_id cs of
       None \<Rightarrow> ret ()
     | Some (OtherText x) \<Rightarrow> if x = '''' then ret () else throw (Core ValueError)
     | Some (UuidText i) \<Rightarrow> bnd (reads (sub_by_id i)) (\<lambda>row. case row of
         None \<Rightarrow> ret ()
       | Some r \<Rightarrow> if sb_status r \<noteq> ''pending'' then ret ()
           else (case cs_amount_total cs of
               None \<Rightarrow> throw Type_Error
             | Some amount \<Rightarrow>
                 seq (update_sub (st_clock E) i (activated (cs_payment_intent cs) (now (st_clock E)) (plan_end E (sb_plan r)) amount))
                   (modify (\<lambda>s. s\<lparr> core := set_referral_plan (sb_user_id r) (sb_plan r) (core s) \<rparr>)))))"

definition handle_checkout_expired :: "stripe_env \<Rightarrow> checkout_session \<Rightarrow> unit acct_op" where
  "handle_checkout_expired E cs = void (cancel_by_stripe_session (st_clock E) (cs_id cs))"

datatype background_task = Referral_Reward uuid string | Annual_Gift_Card uuid string

definition session_sub :: "checkout_session \<Rightarrow> acct_db \<Rightarrow> sub_row option" where
  "session_sub cs s = (case cs_subscription_id cs of Some (UuidText i) \<Rightarrow> sub_by_id i s | _ \<Rightarrow> None)"

text \<open>The link is marked as rewarded before the rewards service is asked to reward it.\<close>

definition maybe_trigger_referral :: "stripe_env \<Rightarrow> checkout_session \<Rightarrow> background_task list acct_op" where
  "maybe_trigger_referral E cs = bnd (reads (session_sub cs)) (\<lambda>row. case row of
       None \<Rightarrow> ret []
     | Some r \<Rightarrow> (case sb_plan r of
         None \<Rightarrow> ret []
       | Some plan \<Rightarrow> if plan = '''' then ret [] else
           bnd (reads (\<lambda>s. List.find (\<lambda>x. ru_referred_user_id x = Some (sb_user_id r) \<and> ru_plan x = Some plan \<and> ru_rewarded_at x = None)
             (referral_uses (core s)))) (\<lambda>found. case found of
               None \<Rightarrow> ret []
             | Some x \<Rightarrow> seq (modify (\<lambda>s. s\<lparr> core := (core s)\<lparr> referral_uses := update_where (\<lambda>y. ru_id y = ru_id x)
                   (\<lambda>y. y\<lparr> ru_rewarded_at := Some (now (st_clock E)) \<rparr>) (referral_uses (core s)) \<rparr> \<rparr>))
                 (ret [Referral_Reward (sb_user_id r) plan]))))"

definition maybe_trigger_annual_gift_card :: "checkout_session \<Rightarrow> background_task list acct_op" where
  "maybe_trigger_annual_gift_card cs = reads (\<lambda>s. case session_sub cs s of
       None \<Rightarrow> [] | Some r \<Rightarrow> if sb_plan r = Some ''annual'' then [Annual_Gift_Card (sb_user_id r) (cs_id cs)] else [])"

text \<open>\<open>None\<close> is a request whose signature Stripe's library rejects. The claim of the event is committed on its own.\<close>

definition stripe_webhook :: "stripe_env \<Rightarrow> stripe_event option \<Rightarrow> background_task list acct_op" where
  "stripe_webhook E event = (case event of
       None \<Rightarrow> throw (Http 400 ''invalid_stripe_signature'')
     | Some ev \<Rightarrow> bnd (claim_stripe_event (we_id ev) (we_type ev)) (\<lambda>first.
         if \<not> first then ret []
         else if we_type ev = ''checkout.session.completed'' then
           seq (db_transaction (handle_checkout_completed E (we_session ev)))
             (bnd (maybe_trigger_referral E (we_session ev)) (\<lambda>xs.
              bnd (maybe_trigger_annual_gift_card (we_session ev)) (\<lambda>ys. ret (xs @ ys))))
         else if we_type ev = ''checkout.session.expired'' then
           seq (db_transaction (handle_checkout_expired E (we_session ev))) (ret [])
         else ret []))"

text \<open>
  \<open>trigger_referral_reward\<close> and \<open>trigger_annual_gift_card\<close>: whatever fails is logged and swallowed. The rewards service
  answers with the settings of \<open>task_cfg\<close>.
\<close>

record task_cfg =
  tc_pg :: "int \<Rightarrow> int \<Rightarrow> int option"
  tc_referral :: referral_settings
  tc_annual_brand :: "ref_text option"
  tc_annual_denomination :: int
  tc_issue :: "uuid \<Rightarrow> unit db_op"

definition trigger_referral_reward :: "bool \<Rightarrow> task_cfg \<Rightarrow> clock \<Rightarrow> uuid \<Rightarrow> string \<Rightarrow> unit acct_op" where
  "trigger_referral_reward reachable T ck u plan =
     (if reachable then catch (on_core (referral_trigger (tc_pg T) ck (tc_referral T) u plan)) (\<lambda>_. ret ()) else ret ())"

definition trigger_annual_gift_card :: "bool \<Rightarrow> task_cfg \<Rightarrow> clock \<Rightarrow> uuid \<Rightarrow> string \<Rightarrow> unit acct_op" where
  "trigger_annual_gift_card reachable T ck u session =
     (if reachable then catch (on_core (bnd (create_annual_gift_card ck (tc_annual_brand T) (tc_annual_denomination T) u (OtherText session))
        (\<lambda>order. case order of None \<Rightarrow> ret () | Some i \<Rightarrow> tc_issue T i))) (\<lambda>_. ret ()) else ret ())"

definition run_task :: "bool \<Rightarrow> task_cfg \<Rightarrow> clock \<Rightarrow> background_task \<Rightarrow> unit acct_op" where
  "run_task reachable T ck t = (case t of
       Referral_Reward u plan \<Rightarrow> trigger_referral_reward reachable T ck u plan
     | Annual_Gift_Card u session \<Rightarrow> trigger_annual_gift_card reachable T ck u session)"


section \<open>Routes\<close>

definition ALLOWED_CURRENCIES :: "string list" where
  "ALLOWED_CURRENCIES = [''eur'', ''usd'', ''gbp'', ''chf'', ''cad'', ''aud'', ''jpy'', ''nok'', ''sek'', ''dkk'', ''pln'', ''czk'', ''huf'',
     ''ron'', ''bgn'', ''hrk'', ''ils'', ''mxn'', ''brl'', ''sgd'', ''hkd'', ''nzd'', ''zar'', ''myr'', ''thb'', ''inr'']"

definition subscribe :: "auth_env \<Rightarrow> stripe_env \<Rightarrow> string \<Rightarrow> string \<Rightarrow> string option \<Rightarrow> string \<Rightarrow> string acct_op" where
  "subscribe A E access plan code currency = bnd (get_http_current_user A access) (\<lambda>u.
     if plan \<notin> {''monthly'', ''annual''} \<or> lower currency \<notin> set ALLOWED_CURRENCIES then throw (Http 422 ''validation_error'')
     else catch (create_checkout E u plan code (lower currency)) (\<lambda>e. case e of
         Value_Error x \<Rightarrow> throw (Http 400 (if x \<in> {''discount_code_invalid'', ''discount_code_expired'', ''discount_code_exhausted'',
             ''already_subscribed'', ''invalid_catalog_price''} then x else ''subscription_error''))
       | _ \<Rightarrow> throw (Http 503 ''upstream_service_error'')))"

definition get_subscription_endpoint :: "auth_env \<Rightarrow> string \<Rightarrow> sub_row acct_op" where
  "get_subscription_endpoint A access = bnd (get_http_current_user A access) (\<lambda>u. bnd (reads (sub_active u)) (\<lambda>row. case row of
       None \<Rightarrow> throw (Http 404 ''no_active_subscription'') | Some r \<Rightarrow> ret r))"

definition cancel_subscription :: "auth_env \<Rightarrow> stripe_env \<Rightarrow> string \<Rightarrow> unit acct_op" where
  "cancel_subscription A E access = bnd (get_http_current_user A access) (\<lambda>u. catch (cancel_active E u) (\<lambda>e. case e of
       Lookup_Error x \<Rightarrow> throw (Http 404 x) | _ \<Rightarrow> throw (Http 503 ''upstream_service_error'')))"


section \<open>Administration\<close>

definition latest_sub :: "uuid \<Rightarrow> acct_db \<Rightarrow> sub_row option" where
  "latest_sub u s = (case sort_key (\<lambda>r. - sb_started_at r) (filter (\<lambda>r. sb_user_id r = u) (sub_rows s)) of [] \<Rightarrow> None | r # _ \<Rightarrow> Some r)"

definition get_subscription :: "uuid \<Rightarrow> sub_row acct_op" where
  "get_subscription u = bnd (reads (latest_sub u)) (\<lambda>row. case row of None \<Rightarrow> throw Sub_Not_Found | Some r \<Rightarrow> ret r)"

definition manual_grant :: "clock \<Rightarrow> string \<Rightarrow> stamp \<Rightarrow> sub_row \<Rightarrow> sub_row" where
  "manual_grant ck ref until r = r\<lparr> sb_status := ''active'', sb_paid_with := ''manual_admin'', sb_payment_ref := Some ref,
     sb_started_at := now ck, sb_expires_at := until, sb_cancelled_at := None \<rparr>"

text \<open>\<open>ref\<close> is the payment reference made of the operator and a random suffix.\<close>

definition activate_subscription :: "clock \<Rightarrow> string \<Rightarrow> uuid \<Rightarrow> stamp option \<Rightarrow> unit acct_op" where
  "activate_subscription ck ref u until_date =
     (let until = (case until_date of Some t \<Rightarrow> t | None \<Rightarrow> now ck + 365 * day_us) in
      bnd (reads (latest_sub u)) (\<lambda>row. case row of
        None \<Rightarrow> bnd (on_core fresh_uuid) (\<lambda>i. insert_sub ck
          \<lparr> sb_id = i, sb_user_id = u, sb_status = ''active'', sb_plan = None, sb_stripe_session_id = None, sb_price = 1199,
            sb_paid_with = ''manual_admin'', sb_payment_ref = Some ref, sb_discount_campaign_code = None, sb_discount_amount = None,
            sb_started_at = now ck, sb_expires_at = until, sb_cancelled_at = None \<rparr>)
      | Some r \<Rightarrow> seq (guard (\<not> (sb_status r = ''active'' \<and> now ck < sb_expires_at r)) Sub_Already_Active)
          (update_sub ck (sb_id r) (manual_grant ck ref until))))"

definition deactivate_subscription :: "clock \<Rightarrow> uuid \<Rightarrow> string \<Rightarrow> unit acct_op" where
  "deactivate_subscription ck u effective = bnd (get_subscription u) (\<lambda>r.
     if effective = ''immediate'' then update_sub ck (sb_id r)
       (\<lambda>r. r\<lparr> sb_status := ''cancelled'', sb_cancelled_at := Some (now ck), sb_expires_at := now ck \<rparr>)
     else ret ())"

definition extend_subscription :: "clock \<Rightarrow> uuid \<Rightarrow> stamp \<Rightarrow> unit acct_op" where
  "extend_subscription ck u until = bnd (get_subscription u) (\<lambda>r.
     seq (guard (sb_expires_at r < until \<and> now ck < until) Sub_Extend_Invalid)
       (update_sub ck (sb_id r) (\<lambda>r. r\<lparr> sb_expires_at := until \<rparr>)))"

text \<open>A date runs until its last second.\<close>

definition date_to_eod :: "day \<Rightarrow> stamp" where
  "date_to_eod d = d * day_us + 86399 * second_us"

definition admin_get_subscription :: "uuid \<Rightarrow> sub_row acct_op" where
  "admin_get_subscription u = catch (get_subscription u) (\<lambda>e. case e of
       Sub_Not_Found \<Rightarrow> throw (Http 404 ''subscription_not_found'') | _ \<Rightarrow> throw e)"

definition admin_activate_subscription :: "clock \<Rightarrow> string \<Rightarrow> uuid \<Rightarrow> day option \<Rightarrow> unit acct_op" where
  "admin_activate_subscription ck ref u until_date = catch (db_transaction (activate_subscription ck ref u (map_option date_to_eod until_date)))
     (\<lambda>e. case e of Sub_Already_Active \<Rightarrow> throw (Http 409 ''already_active'') | _ \<Rightarrow> throw e)"

definition admin_deactivate_subscription :: "clock \<Rightarrow> uuid \<Rightarrow> string \<Rightarrow> unit acct_op" where
  "admin_deactivate_subscription ck u effective =
     (if effective \<notin> {''immediate'', ''end_of_period''} then throw (Http 422 ''validation_error'')
      else catch (db_transaction (deactivate_subscription ck u effective))
        (\<lambda>e. case e of Sub_Not_Found \<Rightarrow> throw (Http 404 ''subscription_not_found'') | _ \<Rightarrow> throw e))"

definition admin_extend_subscription :: "clock \<Rightarrow> uuid \<Rightarrow> day \<Rightarrow> unit acct_op" where
  "admin_extend_subscription ck u until = catch (db_transaction (extend_subscription ck u (date_to_eod until)))
     (\<lambda>e. case e of Sub_Not_Found \<Rightarrow> throw (Http 404 ''subscription_not_found'')
       | Sub_Extend_Invalid \<Rightarrow> throw (Http 422 ''invalid_extension_date'') | _ \<Rightarrow> throw e)"

end
