(* ===== verification/Ratis_AccountSafety.thy ===== *)
theory Ratis_AccountSafety
  imports Ratis_Account Ratis_Integrity
begin

text \<open>
  What the authentication service promises: a refresh token opens one new session when requests are served one after another,
  and two when they overlap; a sign-in leads to a session of the identity's owner; a deletion leaves nothing of the user
  behind but a tombstone, keeps the CAB ledgers in step and loses the cashback one.
\<close>

section \<open>Operations on the shared tables\<close>

lemma check_run [simp]: "check b x s = (if b then Inr () else Inl (Core (IntegrityError x)), s)"
  by (simp add: check_def)

lemma seq_check [simp]: "seq (check b x) n s = (if b then n s else (Inl (Core (IntegrityError x)), s))"
  by (simp add: check_def)

lemma keeps_check [keeps_intro, simp]: "keeps I (check b x)"
  by (simp add: check_def)

lemma preserves_check [preserves_intro, simp]: "preserves I (check b x)"
  by (simp add: check_def)

lemma on_core_Inr: "on_core m s = (Inr x, t) \<longleftrightarrow> (\<exists>c. m (core s) = (Inr x, c) \<and> t = s\<lparr> core := c \<rparr>)"
  by (auto simp: on_core_def split: prod.splits sum.splits)

lemma on_core_fresh [simp]: "on_core fresh_uuid s = (Inr (next_uuid (core s)), s\<lparr> core := (core s)\<lparr> next_uuid := Suc (next_uuid (core s)) \<rparr> \<rparr>)"
  by (simp add: on_core_def)

lemma bnd_on_core_fresh [simp]:
  "bnd (on_core fresh_uuid) f s = f (next_uuid (core s)) (s\<lparr> core := (core s)\<lparr> next_uuid := Suc (next_uuid (core s)) \<rparr> \<rparr>)"
  by (simp add: bnd_def)

lemma keeps_on_core:
  assumes "keeps J m" and "\<And>s. I s \<Longrightarrow> J (core s)" and "\<And>s c. I s \<Longrightarrow> J c \<Longrightarrow> I (s\<lparr> core := c \<rparr>)"
  shows "keeps I (on_core m)"
proof (rule keepsI)
  fix s r t assume I: "I s" and run: "on_core m s = (r, t)"
  obtain q c where m: "m (core s) = (q, c)" by force
  from keepsD [OF assms(1) assms(2) [OF I] m] have "J c" .
  with run m assms(3) [OF I] show "I t" by (auto simp: on_core_def split: sum.splits)
qed

text \<open>A handler whose branches all raise.\<close>

lemma keeps_catch_throws: "keeps I m \<Longrightarrow> (\<And>e. \<exists>d. h e = throw d) \<Longrightarrow> keeps I (catch m h)"
  by (metis keeps_catch keeps_throw)

lemma catch_throws_Inr: "(\<And>e. \<exists>d. h e = throw d) \<Longrightarrow> catch m h s = (Inr x, t) \<longleftrightarrow> m s = (Inr x, t)"
  unfolding catch_Inr_iff by (metis Pair_inject sum.distinct(1) throw_run)

lemma catch_returns:
  "catch m h s = (Inr x, t) \<Longrightarrow> (\<And>e. \<exists>d. h e = throw d) \<Longrightarrow> (m s = (Inr x, t) \<Longrightarrow> P) \<Longrightarrow> P"
  by (simp add: catch_throws_Inr)

lemma keeps_auth [keeps_intro]: "keeps I (get_http_current_user E a)"
proof -
  have "keeps I (get_current_user E a)"
    unfolding get_current_user_def by (cases "decode_access_token E a") (auto intro!: keeps_intro split: prod.splits)
  then show ?thesis unfolding get_http_current_user_def
    by (rule keeps_catch_throws) (auto split: acct_error.split)
qed

lemma auth_state: "get_http_current_user E a s = (r, t) \<Longrightarrow> t = s"
  using keepsD [OF keeps_auth [of "\<lambda>x. x = s"] refl] by simp

lemma create_code_up: "keeps (\<lambda>c. N \<le> next_uuid c) (create_code_for_user ck tok u)"
proof -
  have row: "keeps (\<lambda>c. N \<le> next_uuid c) (insert_referral_code ck u code)" for code
    unfolding insert_referral_code_def Let_def by (intro keeps_intro keeps_fresh_uuid keeps_constr keeps_modify) simp_all
  have "keeps (\<lambda>c. N \<le> next_uuid c) (create_code_loop ck tok u n k)" for n k
    by (induction k arbitrary: n) (auto intro!: keeps_catch keeps_if keeps_transaction row)
  then show ?thesis by (simp add: create_code_for_user_def)
qed


section \<open>Requests of the service\<close>

datatype account_request =
    Sign_In string string string
  | Refresh string
  | Patch_Profile string "string option" "string option option" "string option"
  | Patch_Preferences string "int option" "string option"
  | Link_Identity string string string
  | Unlink_Identity string string
  | Logout string string
  | Logout_All string
  | Claim_Ring string
  | Delete_Account "uuid \<Rightarrow> string" string

text \<open>Each request comes with what the service sees of the world when it is served.\<close>

fun account_step :: "auth_env \<times> account_request \<Rightarrow> unit acct_op" where
  "account_step (E, Sign_In p token tz) = void (oauth E p token tz)"
| "account_step (E, Refresh token) = void (refresh E token)"
| "account_step (E, Patch_Profile access name avatar tz) = patch_profile E access name avatar tz"
| "account_step (E, Patch_Preferences access radius mode) = void (patch_preferences E access radius mode)"
| "account_step (E, Link_Identity access p token) = link_provider_endpoint E access p token"
| "account_step (E, Unlink_Identity access p) = delete_identity_endpoint E access p"
| "account_step (E, Logout access token) = logout E access token"
| "account_step (E, Logout_All access) = logout_all E access"
| "account_step (E, Claim_Ring access) = void (post_rings_claim E access)"
| "account_step (E, Delete_Account mail access) = delete_account_endpoint E mail access"

text \<open>
  A predicate on the token table that issuing a token with a fresh identifier, revoking tokens and erasing tokens keep is
  kept by every request.
\<close>

locale token_predicate =
  fixes I :: "acct_db \<Rightarrow> bool"
  assumes other: "I s \<Longrightarrow> token_table t = token_table s \<Longrightarrow> next_uuid (core s) \<le> next_uuid (core t) \<Longrightarrow> I t"
    and issue: "I s \<Longrightarrow> tk_jti r = next_uuid (core s) \<Longrightarrow> I (s\<lparr> core := (core s)\<lparr> next_uuid := Suc (next_uuid (core s)) \<rparr>,
       token_table := token_table s @ [r] \<rparr>)"
    and withdraw: "I s \<Longrightarrow> I (s\<lparr> token_table := update_where p (\<lambda>r. r\<lparr> tk_revoked_at := Some n \<rparr>) (token_table s) \<rparr>)"
    and erase: "I s \<Longrightarrow> I (s\<lparr> token_table := filter p (token_table s) \<rparr>)"
begin

lemma keeps_other: "(\<And>s. token_table (f s) = token_table s \<and> next_uuid (core s) \<le> next_uuid (core (f s))) \<Longrightarrow> keeps I (modify f)"
  using other by (intro keeps_modify) blast

lemma keeps_core: "(\<And>N. keeps (\<lambda>c. N \<le> next_uuid c) m) \<Longrightarrow> keeps I (on_core m)"
proof (rule keepsI)
  fix s r t assume m: "\<And>N. keeps (\<lambda>c. N \<le> next_uuid c) m" and I: "I s" and run: "on_core m s = (r, t)"
  obtain q c where q: "m (core s) = (q, c)" by force
  from keepsD [OF m [of "next_uuid (core s)"] _ q] have "next_uuid (core s) \<le> next_uuid c" by simp
  with other [OF I, of "s\<lparr> core := c \<rparr>"] run q show "I t" by (auto simp: on_core_def split: sum.splits)
qed

lemma keeps_issue: "keeps I (create_refresh_token E u)"
proof (rule keepsI)
  fix s r t assume I: "I s" and run: "create_refresh_token E u s = (r, t)"
  have "I (s\<lparr> core := (core s)\<lparr> next_uuid := Suc (next_uuid (core s)) \<rparr> \<rparr>)" by (rule other [OF I]) simp_all
  with run issue [OF I, of "\<lparr> tk_jti = next_uuid (core s), tk_user_id = u, tk_expires_at = now (ae_clock E) + ae_refresh_days E * day_us,
      tk_revoked_at = None \<rparr>"]
  show "I t" by (auto simp: create_refresh_token_def insert_token_def Let_def split: if_splits)
qed

lemma keeps_revoke: "keeps I (revoke ck j)" "keeps I (revoke_all_for_user ck u)"
  unfolding revoke_def revoke_all_for_user_def by (intro keeps_modify withdraw; assumption)+

lemma keeps_sign_up: "keeps I (resolve_or_create_oauth_user E p i mail name avatar tz)"
proof -
  have loop: "keeps I (create_user_loop E mail' ty name' avatar' tz' n k)" for mail' ty name' avatar' tz' n k
  proof (induction k arbitrary: n)
    case (Suc k)
    have "keeps I (insert_user ck mail' ty name' avatar' tz' support)" for ck support
      unfolding insert_user_def by (intro keeps_bnd keeps_reads keeps_seq keeps_check keeps_ret keeps_core keeps_fresh_uuid keeps_other) simp_all
    with Suc show ?case by (auto intro!: keeps_catch keeps_if keeps_transaction)
  qed simp
  show ?thesis
    unfolding resolve_or_create_oauth_user_def create_user_def create_identity_def get_or_create_prefs_def create_cab_balance_def
      create_cashback_balance_def Let_def
    by (intro keeps_intro keeps_core create_code_up keeps_other loop) simp_all
qed

lemma keeps_pair: "keeps I (token_pair E u)"
  unfolding token_pair_def by (intro keeps_intro keeps_issue)

lemma keeps_sign_in: "keeps I (oauth E p token tz)"
proof -
  have "keeps I (oauth_google E token tz)"
    unfolding oauth_google_def Let_def
    by (cases "ae_google E token") (auto intro!: keeps_throw keeps_transaction keeps_bnd keeps_seq keeps_guard keeps_reads keeps_sign_up keeps_pair)
  moreover have "keeps I (oauth_apple E token tz)"
    unfolding oauth_apple_def
    by (cases "verify_apple_token (ae_apple_keys E) token") (auto intro!: keeps_throw keeps_transaction keeps_bnd keeps_seq keeps_guard keeps_reads keeps_sign_up keeps_pair)
  ultimately show ?thesis unfolding oauth_def
    by (intro keeps_if keeps_throw keeps_catch_throws) (auto split: acct_error.split)
qed

lemma keeps_refresh_tokens: "keeps I (refresh_tokens E token)"
  unfolding refresh_tokens_def validate_refresh_def rotate_def
  by (intro keeps_intro keeps_revoke keeps_issue)

lemma keeps_link: "keeps I (link_provider E u p token)"
proof -
  have "keeps I (verify_oauth_identity E p token)"
    unfolding verify_oauth_identity_def
    by (cases "ae_google E token"; cases "verify_apple_token (ae_apple_keys E) token") (auto intro!: keeps_intro)
  then show ?thesis unfolding link_provider_def create_identity_def split_def
    by (intro keeps_intro keeps_other) simp_all
qed

lemma keeps_delete_account: "keeps I (delete_account E mail u)"
proof -
  have "I (s\<lparr> token_table := filter (\<lambda>r. tk_user_id r \<noteq> u) (token_table s), user_identities := ids, savings_snapshots := sn, accounts := ac,
      core := tombstone mail u (sentinel_rows u (anonymise_rows u v (clear_rows u (drop_rows u (core s))))) \<rparr>)"
    if "I s" for s ids sn ac v
    by (rule other [OF erase [OF that]])
      (simp_all add: tombstone_def sentinel_rows_def anonymise_rows_def clear_rows_def drop_rows_def Let_def)
  then show ?thesis unfolding delete_account_def anonymize_user_id_def
    by (intro keeps_intro keeps_modify)
qed

lemma keeps_profile: "keeps I (update_profile u name avatar tz)" "keeps I (update_preferences u radius mode)"
  unfolding update_profile_def update_preferences_def get_or_create_prefs_def Let_def
  by (intro keeps_intro keeps_other; simp)+

lemma keeps_ring: "keeps I (claim_ring E u)"
  unfolding claim_ring_def ring_stats_def ensure_snapshot_def Let_def split_def
  by (intro keeps_intro keeps_other; simp)

lemma account_step_keeps: "keeps I (account_step c)"
proof (cases c)
  case (Pair E r)
  show ?thesis
  proof (cases r)
    case (Link_Identity access p token)
    show ?thesis unfolding Pair Link_Identity account_step.simps link_provider_endpoint_def
      by (intro keeps_intro keeps_catch_throws keeps_link) (auto split: acct_error.split)
  next
    case (Unlink_Identity access p)
    show ?thesis unfolding Pair Unlink_Identity account_step.simps delete_identity_endpoint_def unlink_provider_def may_unlink_def
        delete_identity_def split_def
      by (intro keeps_intro keeps_catch_throws keeps_other) (auto split: acct_error.split)
  next
    case (Refresh token)
    show ?thesis unfolding Pair Refresh account_step.simps refresh_def
      by (intro keeps_intro keeps_catch_throws keeps_refresh_tokens) (auto split: acct_error.split)
  qed (simp only: Pair account_step.simps patch_profile_def patch_preferences_def logout_def logout_all_def post_rings_claim_def
      delete_account_endpoint_def, intro keeps_void keeps_bnd keeps_if keeps_throw keeps_ret keeps_reads keeps_case_option keeps_transaction
      keeps_auth keeps_sign_in keeps_profile keeps_revoke keeps_ring keeps_delete_account)+
qed

end
section \<open>Refresh tokens\<close>

text \<open>Identifiers of tokens are unique and below the counter; a dead identifier can no longer be refreshed.\<close>

definition tokens_ok :: "acct_db \<Rightarrow> bool" where
  "tokens_ok s \<longleftrightarrow> distinct (map tk_jti (token_table s)) \<and> list_all (\<lambda>r. tk_jti r < next_uuid (core s)) (token_table s)"

definition token_dead :: "uuid \<Rightarrow> acct_db \<Rightarrow> bool" where
  "token_dead j s \<longleftrightarrow> j < next_uuid (core s) \<and> list_all (\<lambda>r. tk_jti r = j \<longrightarrow> tk_revoked_at r \<noteq> None) (token_table s)"

lemma distinct_map_filter_key: "distinct (map k xs) \<Longrightarrow> distinct (map k (filter p xs))"
  by (induction xs) auto

lemma jti_update: "map tk_jti (update_where p (\<lambda>r. r\<lparr> tk_revoked_at := n \<rparr>) rows) = map tk_jti rows"
  by (rule map_update_where) simp

interpretation tok: token_predicate tokens_ok
proof
  fix s and r :: token_row and p :: "token_row \<Rightarrow> bool" and n
  assume ok: "tokens_ok s"
  show "tokens_ok t" if "token_table t = token_table s" "next_uuid (core s) \<le> next_uuid (core t)" for t
    using ok that by (auto simp: tokens_ok_def list_all_iff)
  show "tokens_ok (s\<lparr> core := (core s)\<lparr> next_uuid := Suc (next_uuid (core s)) \<rparr>, token_table := token_table s @ [r] \<rparr>)"
    if "tk_jti r = next_uuid (core s)"
    using ok that by (force simp: tokens_ok_def list_all_iff)
  show "tokens_ok (s\<lparr> token_table := update_where p (\<lambda>r. r\<lparr> tk_revoked_at := Some n \<rparr>) (token_table s) \<rparr>)"
    using ok by (auto simp: tokens_ok_def jti_update list_all_iff set_update_where)
  show "tokens_ok (s\<lparr> token_table := filter p (token_table s) \<rparr>)"
    using ok by (auto simp: tokens_ok_def list_all_iff distinct_map_filter_key)
qed

interpretation dead: token_predicate "token_dead j" for j
  by unfold_locales (auto simp: token_dead_def list_all_iff set_update_where)

text \<open>A request that can succeed only once from the states of an invariant.\<close>

locale one_shot_under = kept_invariant step inv
  for step :: "'c \<Rightarrow> ('s, 'e, 'a) op" and inv :: "'s \<Rightarrow> bool" +
  fixes target :: "'c \<Rightarrow> bool" and fired :: "'s \<Rightarrow> bool"
  assumes fired_stays: "inv s \<Longrightarrow> fired s \<Longrightarrow> fired (snd (step c s))"
    and target_fires: "inv s \<Longrightarrow> target c \<Longrightarrow> step c s = (Inr x, t) \<Longrightarrow> \<not> fired s \<and> fired t"
begin

lemma success_bound: "inv s \<Longrightarrow> exec_all step cs s = (rs, t) \<Longrightarrow> successes target cs rs \<le> (if fired s then 0 else 1)"
proof (induction cs arbitrary: s rs t)
  case (Cons c cs)
  obtain r s' where c: "step c s = (r, s')" by force
  obtain rs' t' where cs: "exec_all step cs s' = (rs', t')" by force
  from step_keeps [OF Cons.prems(1), of c] c have "inv s'" by simp
  note IH = Cons.IH [OF this cs]
  have "fired s \<Longrightarrow> fired s'" using fired_stays [OF Cons.prems(1), of c] c by simp
  moreover have "target c \<Longrightarrow> \<not> isl r \<Longrightarrow> \<not> fired s \<and> fired s'"
    using target_fires [OF Cons.prems(1), of c "projr r" s'] c by (cases r) auto
  ultimately show ?case using IH Cons.prems(2) c cs by (cases "isl r"; cases "target c"; cases "fired s"; cases "fired s'") auto
qed simp

end

text \<open>The request presents the token with identifier \<open>j\<close>.\<close>

fun refreshes :: "uuid \<Rightarrow> auth_env \<times> account_request \<Rightarrow> bool" where
  "refreshes j (E, Refresh token) \<longleftrightarrow> decode_refresh_token E token = Some j"
| "refreshes j _ \<longleftrightarrow> False"

lemma refresh_Inr: "refresh E token s = (Inr pair, t) \<longleftrightarrow> bnd (validate_refresh E token) (rotate E) s = (Inr pair, t)"
  unfolding refresh_def refresh_tokens_def
  by (subst catch_throws_Inr) (auto simp: db_transaction_Inr_iff split: acct_error.split)

lemma validate_Inr:
  assumes "validate_refresh E token s = (Inr r, t)"
  shows "t = s \<and> r \<in> set (token_table s) \<and> decode_refresh_token E token = Some (tk_jti r) \<and> tk_revoked_at r = None
    \<and> now (ae_clock E) \<le> tk_expires_at r"
  using assms
  by (auto simp: validate_refresh_def get_by_jti_def find_Some_iff split: option.splits if_splits)

lemma revoke_dead:
  assumes "tokens_ok s" and "r \<in> set (token_table s)" and "revoke ck (tk_jti r) s = (Inr z, t)"
  shows "token_dead (tk_jti r) t"
  using assms by (auto simp: revoke_def token_dead_def tokens_ok_def list_all_iff set_update_where)

lemma refresh_fires:
  assumes ok: "tokens_ok s" and run: "refresh E token s = (Inr pair, t)" and j: "decode_refresh_token E token = Some j"
  shows "\<not> token_dead j s \<and> token_dead j t"
proof -
  from run [unfolded refresh_Inr bnd_Inr_iff] obtain r where v: "validate_refresh E token s = (Inr r, s)"
    and rot: "rotate E r s = (Inr pair, t)" using validate_Inr by metis
  from validate_Inr [OF v] j have r: "r \<in> set (token_table s)" "tk_jti r = j" "tk_revoked_at r = None" by auto
  obtain s1 where rev: "revoke (ae_clock E) j s = (Inr (), s1)" by (simp add: revoke_def)
  from revoke_dead [OF ok r(1)] rev r(2) have "token_dead j s1" by simp
  moreover from rot rev r(2) obtain z where "create_refresh_token E (tk_user_id r) s1 = (Inr z, t)"
    by (auto simp: rotate_def seq_Inr_iff bnd_Inr_iff)
  ultimately have "token_dead j t" using keepsD [OF dead.keeps_issue] by blast
  with r show ?thesis by (auto simp: token_dead_def list_all_iff)
qed

interpretation refresh_once: one_shot_under account_step tokens_ok "refreshes j" "token_dead j" for j
proof
  fix s c and z :: unit and t assume ok: "tokens_ok s"
  show "tokens_ok (snd (account_step c s))" by (rule keeps_snd [OF tok.account_step_keeps ok])
  show "token_dead j (snd (account_step c s))" if "token_dead j s" by (rule keeps_snd [OF dead.account_step_keeps that])
  show "\<not> token_dead j s \<and> token_dead j t" if "refreshes j c" "account_step c s = (Inr z, t)"
  proof (cases "(j, c)" rule: refreshes.cases)
    case (1 i E token)
    with that ok show ?thesis using refresh_fires [of s E token _ t j] by (auto simp: void_Inr)
  qed (use that in auto)
qed

text \<open>
  C18 (safety). A refresh token opens at most one new session, whatever requests of whatever users come between, at whatever
  times and with whatever settings, when the requests are served one after another.
\<close>

theorem refresh_token_used_once:
  assumes "tokens_ok s" and "exec_all account_step cs s = (rs, t)"
  shows "successes (refreshes j) cs rs \<le> 1"
  using refresh_once.success_bound [OF assms, of j] by (simp split: if_splits)

text \<open>An environment with a signature that is the identity: claims are written in unary and read back until they expire.\<close>

definition unary :: "nat \<Rightarrow> string" where
  "unary n = replicate n CHR ''x'' @ ''.''"

definition unary_int :: "int \<Rightarrow> string" where
  "unary_int i = unary (nat i) @ unary (nat (- i))"

definition demo_encode :: "jwt_claims \<Rightarrow> string" where
  "demo_encode c = (if jw_type c = ''access'' then ''A'' else ''R'') @ unary (jw_sub c) @ unary_int (jw_iat c) @ unary_int (jw_exp c)
     @ unary (case jw_jti c of None \<Rightarrow> 0 | Some j \<Rightarrow> Suc j)"

fun read_unary :: "nat \<Rightarrow> string \<Rightarrow> nat list" where
  "read_unary n [] = []"
| "read_unary n (c # cs) = (if c = CHR ''x'' then read_unary (Suc n) cs else n # read_unary 0 cs)"

lemma read_unary_append: "read_unary k (unary n @ cs) = (k + n) # read_unary 0 cs"
  by (induction n arbitrary: k) (simp_all add: unary_def)

definition demo_decode :: "stamp \<Rightarrow> string \<Rightarrow> jwt_claims option" where
  "demo_decode n token = (case read_unary 0 (tl token) of
       [sub, i1, i2, e1, e2, j] \<Rightarrow> if (int e1 - int e2) * second_us \<le> n then None
         else Some \<lparr> jw_sub = sub, jw_type = (if hd token = CHR ''A'' then ''access'' else ''refresh''), jw_iat = int i1 - int i2,
           jw_exp = int e1 - int e2, jw_jti = (case j of 0 \<Rightarrow> None | Suc i \<Rightarrow> Some i) \<rparr>
     | _ \<Rightarrow> None)"

text \<open>What the JOSE library promises of a token the service has signed.\<close>

definition jose_law :: "auth_env \<Rightarrow> bool" where
  "jose_law E \<longleftrightarrow> (\<forall>c n. jw_type c \<in> {''access'', ''refresh''} \<longrightarrow> n < jw_exp c * second_us \<longrightarrow> ae_decode E n (ae_encode E c) = Some c)"

lemma demo_decode_encode:
  "jw_type c \<in> {''access'', ''refresh''} \<Longrightarrow> n < jw_exp c * second_us \<Longrightarrow> demo_decode n (demo_encode c) = Some c"
  using read_unary_append [of 0 "case jw_jti c of None \<Rightarrow> 0 | Some j \<Rightarrow> Suc j" "[]"]
  by (cases c) (auto simp: demo_encode_def demo_decode_def read_unary_append unary_int_def split: option.splits)

definition demo_auth :: "stamp \<Rightarrow> auth_env" where
  "demo_auth n = \<lparr> ae_clock = demo_clock\<lparr> now := n \<rparr>, ae_encode = demo_encode, ae_decode = demo_decode, ae_access_minutes = 15,
     ae_refresh_days = 30,
     ae_google = (\<lambda>tk. if tk = ''bad'' then Rejected else Verified \<lparr> gc_sub = tk, gc_email = Some ''a@b.eu'', gc_email_verified = True,
        gc_name = Some '' Ann '', gc_picture = None \<rparr>),
     ae_apple_client_id = '''', ae_apple_keys = \<lparr> ak_first = None, ak_refreshed = None, ak_kid = id, ak_decode = (\<lambda>_ _. None) \<rparr>,
     ae_registrations_open = True, ae_support_id = unary, ae_token_hex = unary, ae_pseudonym = ''Shopper'', ae_anon = (\<lambda>u. u + 1000),
     ae_salt = ''salt'', ae_savings = (\<lambda>_ _ _. 0), ae_subscription_price_cents = 1199 \<rparr>"

lemma demo_jose: "jose_law (demo_auth n)"
  by (simp add: jose_law_def demo_auth_def demo_decode_encode)

definition empty_acct :: acct_db where
  "empty_acct = \<lparr> core = empty_db\<lparr> next_uuid := 10 \<rparr>, accounts = [], user_identities = [], token_table = [], preferences = Map.empty,
     savings_snapshots = Map.empty, sub_rows = [], campaigns = [], stripe_events = [] \<rparr>"

lemma rotate_run:
  assumes "tokens_ok s"
  shows "rotate E r s = (Inr (create_access_token E (tk_user_id r),
       create_token E (tk_user_id r) ''refresh'' (ae_refresh_days E * day_us) (Some (next_uuid (core s)))),
     s\<lparr> core := (core s)\<lparr> next_uuid := Suc (next_uuid (core s)) \<rparr>,
        token_table := update_where (\<lambda>x. tk_jti x = tk_jti r) (\<lambda>x. x\<lparr> tk_revoked_at := Some (now (ae_clock E)) \<rparr>) (token_table s)
          @ [\<lparr> tk_jti = next_uuid (core s), tk_user_id = tk_user_id r, tk_expires_at = now (ae_clock E) + ae_refresh_days E * day_us,
               tk_revoked_at = None \<rparr>] \<rparr>)"
proof -
  have "next_uuid (core s) \<notin> tk_jti ` set (token_table s)" using assms by (auto simp: tokens_ok_def list_all_iff)
  moreover have "tk_jti ` set (update_where (\<lambda>x. tk_jti x = tk_jti r) (\<lambda>x. x\<lparr> tk_revoked_at := Some (now (ae_clock E)) \<rparr>) (token_table s))
      = tk_jti ` set (token_table s)"
    by (metis jti_update list.set_map)
  ultimately show ?thesis
    by (simp add: rotate_def revoke_def create_refresh_token_def insert_token_def Let_def bnd_def seq_def check_def guard_def)
qed

definition demo_token :: string where
  "demo_token = demo_encode \<lparr> jw_sub = 7, jw_type = ''refresh'', jw_iat = 0, jw_exp = 1, jw_jti = Some 3 \<rparr>"

definition session_demo :: acct_db where
  "session_demo = empty_acct\<lparr> token_table := [\<lparr> tk_jti = 3, tk_user_id = 7, tk_expires_at = 100, tk_revoked_at = None \<rparr>] \<rparr>"

lemma session_demo_ok: "tokens_ok session_demo"
  by (simp add: session_demo_def empty_acct_def tokens_ok_def)

lemma demo_token_read: "n < second_us \<Longrightarrow> decode_refresh_token (demo_auth n) demo_token = Some 3"
  by (simp add: decode_refresh_token_def demo_auth_def demo_token_def demo_decode_encode)

definition demo_row :: token_row where
  "demo_row = \<lparr> tk_jti = 3, tk_user_id = 7, tk_expires_at = 100, tk_revoked_at = None \<rparr>"

lemma demo_validate: "validate_refresh (demo_auth 5) demo_token session_demo = (Inr demo_row, session_demo)"
  by (simp add: validate_refresh_def demo_token_read get_by_jti_def session_demo_def demo_row_def)
    (simp add: demo_auth_def)

text \<open>
  The same service with several workers: a worker validates a token, later it rotates the row it has read. A configuration
  is the database, the rows workers hold and the number of pairs handed out.
\<close>

inductive refresh_worker :: "auth_env \<Rightarrow> string \<Rightarrow> acct_db \<times> token_row list \<times> nat \<Rightarrow> acct_db \<times> token_row list \<times> nat \<Rightarrow> bool"
  for E :: auth_env and token :: string where
  validates: "validate_refresh E token s = (Inr r, t) \<Longrightarrow> refresh_worker E token (s, held, n) (t, r # held, n)"
| rotates: "rotate E r s = (Inr pair, t) \<Longrightarrow> refresh_worker E token (s, r # held, n) (t, held, Suc n)"

definition live_token :: "uuid \<Rightarrow> token_row \<Rightarrow> bool" where
  "live_token u x \<longleftrightarrow> tk_user_id x = u \<and> tk_revoked_at x = None"

text \<open>
  C19 (error). Rotation is not atomic with the validation: two workers that both validate a token before one of them rotates
  it hand out two pairs, and two new live refresh tokens descend from one, although served in turn the second is refused.
\<close>

theorem overlapping_refresh_forks:
  assumes ok: "tokens_ok s" and v: "validate_refresh E token s = (Inr r, s)"
  shows "(\<exists>t. (refresh_worker E token)\<^sup>*\<^sup>* (s, [], 0) (t, [], 2)
      \<and> 2 \<le> length (filter (\<lambda>x. live_token (tk_user_id r) x \<and> tk_jti x \<notin> tk_jti ` set (token_table s)) (token_table t)))
    \<and> fst (bnd (rotate E r) (\<lambda>_. refresh E token) s) = Inl (Http 401 ''invalid_refresh_token'')"
proof -
  let ?new = "\<lambda>j. \<lparr> tk_jti = j, tk_user_id = tk_user_id r, tk_expires_at = now (ae_clock E) + ae_refresh_days E * day_us, tk_revoked_at = None \<rparr>"
  let ?mark = "update_where (\<lambda>x. tk_jti x = tk_jti r) (\<lambda>x. x\<lparr> tk_revoked_at := Some (now (ae_clock E)) \<rparr>)"
  from validate_Inr [OF v] have r: "r \<in> set (token_table s)" "decode_refresh_token E token = Some (tk_jti r)" by auto
  obtain p s1 where one: "rotate E r s = (Inr p, s1)" using rotate_run [OF ok] by blast
  have s1: "token_table s1 = ?mark (token_table s) @ [?new (next_uuid (core s))]" "next_uuid (core s1) = Suc (next_uuid (core s))"
    using one by (auto simp: rotate_run [OF ok])
  have "keeps tokens_ok (rotate E r)" unfolding rotate_def by (intro keeps_intro tok.keeps_revoke tok.keeps_issue)
  from keepsD [OF this ok one] have ok1: "tokens_ok s1" .
  obtain q t where two: "rotate E r s1 = (Inr q, t)" using rotate_run [OF ok1] by blast
  have below: "tk_jti x < next_uuid (core s)" if "x \<in> set (token_table s)" for x
    using ok that by (simp add: tokens_ok_def list_all_iff)
  have old: "next_uuid (core s) \<notin> tk_jti ` set (token_table s)" "Suc (next_uuid (core s)) \<notin> tk_jti ` set (token_table s)"
    using below by force+
  have t: "token_table t = ?mark (?mark (token_table s)) @ [?new (next_uuid (core s)), ?new (Suc (next_uuid (core s)))]"
    using two below [OF r(1)] by (auto simp: rotate_run [OF ok1] s1 update_where_def)
  have "(refresh_worker E token)\<^sup>*\<^sup>* (s, [], 0) (t, [], Suc (Suc 0))"
    by (rule rtranclp.rtrancl_into_rtrancl, rule rtranclp.rtrancl_into_rtrancl, rule rtranclp.rtrancl_into_rtrancl, rule r_into_rtranclp,
        rule validates, rule v, rule validates, rule v, rule rotates, rule one, rule rotates, rule two)
  moreover have "2 \<le> length (filter (\<lambda>x. live_token (tk_user_id r) x \<and> tk_jti x \<notin> tk_jti ` set (token_table s)) (token_table t))"
    using old by (auto simp: t live_token_def)
  moreover have "token_dead (tk_jti r) s1"
    using below [OF r(1)] by (auto simp: token_dead_def s1 list_all_iff set_update_where)
  then have "fst (refresh E token s1) = Inl (Http 401 ''invalid_refresh_token'')"
    using r(2) by (auto simp: refresh_def refresh_tokens_def validate_refresh_def get_by_jti_def catch_def db_transaction_def bnd_def seq_def
        guard_def token_dead_def list_all_iff ret_def throw_def reads_def split: option.splits dest: find_Some_in)
  then have "fst (bnd (rotate E r) (\<lambda>_. refresh E token) s) = Inl (Http 401 ''invalid_refresh_token'')"
    by (simp add: bnd_run_Inr [of "rotate E r", OF one])
  ultimately show ?thesis by (auto simp: numeral_2_eq_2)
qed

theorem overlapping_refresh_forks_witness:
  "\<exists>t. (refresh_worker (demo_auth 5) demo_token)\<^sup>*\<^sup>* (session_demo, [], 0) (t, [], 2)
     \<and> 2 \<le> length (filter (\<lambda>x. live_token 7 x \<and> tk_jti x \<notin> {3}) (token_table t))"
  using overlapping_refresh_forks [OF session_demo_ok demo_validate] by (auto simp: session_demo_def demo_row_def)

theorem refresh_token_used_once_witness:
  "successes (refreshes 3) [(demo_auth 5, Refresh demo_token), (demo_auth 6, Refresh demo_token)]
     (fst (exec_all account_step [(demo_auth 5, Refresh demo_token), (demo_auth 6, Refresh demo_token)] session_demo)) = 1"
proof -
  let ?cs = "[(demo_auth 5, Refresh demo_token), (demo_auth 6, Refresh demo_token)]"
  obtain p t where "rotate (demo_auth 5) demo_row session_demo = (Inr p, t)" using rotate_run [OF session_demo_ok] by blast
  then have "refresh (demo_auth 5) demo_token session_demo = (Inr p, t)"
    by (auto simp: refresh_Inr bnd_Inr_iff demo_validate)
  moreover obtain rs w where run: "exec_all account_step ?cs session_demo = (rs, w)" by force
  ultimately have "1 \<le> successes (refreshes 3) ?cs rs"
    by (auto simp: void_def seq_def bnd_run_Inr demo_token_read split: prod.splits)
  with refresh_token_used_once [OF session_demo_ok run, of 3] run show ?thesis by simp
qed

section \<open>Sign-in\<close>

text \<open>Accounts have their own identifiers; every identity belongs to a live account and is unique at its provider.\<close>

definition live_account :: "uuid \<Rightarrow> acct_db \<Rightarrow> bool" where
  "live_account u s \<longleftrightarrow> (case get_account u s of None \<Rightarrow> False | Some (r, a) \<Rightarrow> \<not> is_deleted r \<and> ac_password_changed_at a = None)"

definition identities_ok :: "acct_db \<Rightarrow> bool" where
  "identities_ok s \<longleftrightarrow> list_all (\<lambda>i. live_account (ui_user_id i) s) (user_identities s)
     \<and> distinct (map (\<lambda>i. (ui_provider i, ui_provider_id i)) (user_identities s))
     \<and> list_all (\<lambda>a. ac_id a < next_uuid (core s) \<and> ac_password_changed_at a = None) (accounts s)"

lemma create_code_Inr:
  assumes "create_code_for_user ck tok u c = (Inr r, d)"
  shows "\<exists>n. rc_user_id r = Some u \<and> next_uuid c \<le> n \<and> d = c\<lparr> next_uuid := n, referral_codes := referral_codes c @ [r] \<rparr>"
proof -
  have "rc_user_id r = Some u \<and> d = c\<lparr> next_uuid := Suc (next_uuid c), referral_codes := referral_codes c @ [r] \<rparr>"
    if "create_code_loop ck tok u n k c = (Inr r, d)" for n k
    using that
    by (induction k arbitrary: n)
      (auto simp: catch_Inr_iff db_transaction_Inr_iff db_transaction_Inl_iff insert_referral_code_def Let_def constr_def seq_Inr_iff
        split: if_splits)
  then show ?thesis using assms unfolding create_code_for_user_def by (metis lessI less_imp_le)
qed

definition new_user :: "string \<Rightarrow> string \<Rightarrow> user_row" where
  "new_user mail name = \<lparr> is_deleted = False, is_shadow_banned = False, gift_card_redeemed_ytd_cents = 0, display_name = Some name, email = mail \<rparr>"

lemma insert_user_Inr:
  assumes "insert_user ck mail ty name avatar tz support s = (Inr u, t)"
  shows "u = next_uuid (core s)"
    "\<exists>a. ac_id a = next_uuid (core s) \<and> ac_password_changed_at a = None
    \<and> t = s\<lparr> core := (core s)\<lparr> next_uuid := Suc (next_uuid (core s)), users := (users (core s))(next_uuid (core s) \<mapsto> new_user mail name) \<rparr>,
       accounts := accounts s @ [a] \<rparr>"
  using assms unfolding insert_user_def new_user_def
  by (simp_all split: if_splits)
    (rule exI [of _ "\<lparr> ac_id = next_uuid (core s), ac_account_type = ty, ac_avatar_url = avatar, ac_timezone = tz, ac_support_id = support,
      ac_password_changed_at = None, ac_created_at = now ck \<rparr>"], clarsimp)

lemma create_user_Inr:
  assumes "create_user E mail ty name avatar tz s = (Inr u, t)"
  shows "\<exists>a. u = next_uuid (core s) \<and> ac_id a = u \<and> ac_password_changed_at a = None
    \<and> t = s\<lparr> core := (core s)\<lparr> next_uuid := Suc u, users := (users (core s))(u \<mapsto> new_user mail name) \<rparr>, accounts := accounts s @ [a] \<rparr>"
proof -
  have "\<exists>a. u = next_uuid (core s) \<and> ac_id a = u \<and> ac_password_changed_at a = None
    \<and> t = s\<lparr> core := (core s)\<lparr> next_uuid := Suc u, users := (users (core s))(u \<mapsto> new_user mail name) \<rparr>, accounts := accounts s @ [a] \<rparr>"
    if "create_user_loop E mail ty name avatar tz n k s = (Inr u, t)" for n k
    using that
  proof (induction k arbitrary: n)
    case (Suc k)
    then consider "insert_user (ae_clock E) mail ty name avatar tz (ae_support_id E n) s = (Inr u, t)"
      | "create_user_loop E mail ty name avatar tz (Suc n) k s = (Inr u, t)"
      by (auto simp: catch_Inr_iff db_transaction_Inr_iff db_transaction_Inl_iff split: if_splits)
    then show ?case
    proof cases
      case 1
      then show ?thesis
        unfolding insert_user_Inr(1) [OF 1] using insert_user_Inr(2) [OF 1] by blast
    next
      case 2
      then show ?thesis by (rule Suc.IH)
    qed
  qed simp
  then show ?thesis using assms unfolding create_user_def by blast
qed

text \<open>What a first sign-in leaves: the account, one identity, the code, two empty balances and the preferences.\<close>

definition signed_up :: "string \<Rightarrow> string \<Rightarrow> string \<Rightarrow> string \<Rightarrow> acct_db \<Rightarrow> uuid \<Rightarrow> acct_db \<Rightarrow> bool" where
  "signed_up p i mail name s u t \<longleftrightarrow> u = next_uuid (core s) \<and> next_uuid (core s) < next_uuid (core t)
     \<and> users (core t) = (users (core s))(u \<mapsto> new_user mail name)
     \<and> (\<exists>a. ac_id a = u \<and> ac_password_changed_at a = None \<and> accounts t = accounts s @ [a])
     \<and> (\<exists>x. ui_user_id x = u \<and> ui_provider x = p \<and> ui_provider_id x = i \<and> user_identities t = user_identities s @ [x])
     \<and> preferences t u \<noteq> None \<and> (\<exists>c. rc_user_id c = Some u \<and> referral_codes (core t) = referral_codes (core s) @ [c])
     \<and> user_cab_balance (core t) = (user_cab_balance (core s))(u \<mapsto> 0)
     \<and> user_cashback_balance (core t) = (user_cashback_balance (core s))(u \<mapsto> 0)
     \<and> cabecoin_transactions (core t) = cabecoin_transactions (core s) \<and> token_table t = token_table s"

lemma resolve_Inr:
  assumes "resolve_or_create_oauth_user E p i mail name avatar tz s = (Inr u, t)"
  shows "(\<exists>x. get_by_provider p i s = Some x \<and> u = ui_user_id x \<and> t = s)
    \<or> get_by_provider p i s = None \<and> signed_up p i mail name s u t"
proof (cases "get_by_provider p i s")
  case None
  with assms obtain s1 s2 p1 s3 c s4 s5 where
    user: "create_user E mail ''oauth'' name avatar tz s = (Inr u, s1)"
    and ident: "create_identity (ae_clock E) u p i mail s1 = (Inr (), s2)"
    and prefs: "get_or_create_prefs u s2 = (Inr p1, s3)"
    and code: "on_core (create_code_for_user (ae_clock E) (ae_token_hex E) u) s3 = (Inr c, s4)"
    and cab: "create_cab_balance u s4 = (Inr (), s5)" and cash: "create_cashback_balance u s5 = (Inr (), t)"
    unfolding resolve_or_create_oauth_user_def by (auto simp: bnd_Inr_iff seq_Inr_iff split: if_splits)
  from create_user_Inr [OF user] obtain a where u: "u = next_uuid (core s)" and a: "ac_id a = u" "ac_password_changed_at a = None"
    and s1: "s1 = s\<lparr> core := (core s)\<lparr> next_uuid := Suc u, users := (users (core s))(u \<mapsto> new_user mail name) \<rparr>, accounts := accounts s @ [a] \<rparr>"
    by blast
  have s2: "s2 = s1\<lparr> user_identities := user_identities s1 @ [\<lparr> ui_user_id = u, ui_provider = p, ui_provider_id = i, ui_email = Some mail,
      ui_created_at = now (ae_clock E) \<rparr>] \<rparr>"
    using ident by (auto simp: create_identity_def split: if_splits)
  from prefs obtain q where s3: "s3 = s2\<lparr> preferences := q \<rparr>" and q: "q u \<noteq> None"
    by (auto simp: get_or_create_prefs_def Let_def split: option.splits intro: that [of "preferences s2"])
  from code [unfolded on_core_Inr] obtain d where d: "create_code_for_user (ae_clock E) (ae_token_hex E) u (core s3) = (Inr c, d)"
    and s4: "s4 = s3\<lparr> core := d \<rparr>" by blast
  from create_code_Inr [OF d] obtain n where c: "rc_user_id c = Some u" and n: "next_uuid (core s3) \<le> n"
    and d: "d = (core s3)\<lparr> next_uuid := n, referral_codes := referral_codes (core s3) @ [c] \<rparr>" by blast
  have s5: "s5 = s4\<lparr> core := (core s4)\<lparr> user_cab_balance := (user_cab_balance (core s4))(u \<mapsto> 0) \<rparr> \<rparr>"
    and t: "t = s5\<lparr> core := (core s5)\<lparr> user_cashback_balance := (user_cashback_balance (core s5))(u \<mapsto> 0) \<rparr> \<rparr>"
    using cab cash by (auto simp: create_cab_balance_def create_cashback_balance_def split: if_splits)
  have "signed_up p i mail name s u t"
    unfolding signed_up_def using a c q n by (auto simp: u t s5 s4 s3 s2 s1 d)
  with None show ?thesis by simp
qed (use assms in \<open>auto simp: resolve_or_create_oauth_user_def\<close>)

text \<open>Identities stay good when rows of other tables change, identities are removed and identifiers are handed out.\<close>

lemma identities_frame:
  assumes "identities_ok s" and "users (core t) = users (core s)" and "accounts t = accounts s"
    and "user_identities t = user_identities s" and "next_uuid (core s) \<le> next_uuid (core t)"
  shows "identities_ok t"
  using assms by (auto simp: identities_ok_def list_all_iff live_account_def get_account_def)

lemma keeps_identities_frame:
  "(\<And>s. users (core (f s)) = users (core s) \<and> accounts (f s) = accounts s \<and> user_identities (f s) = user_identities s
     \<and> next_uuid (core s) \<le> next_uuid (core (f s))) \<Longrightarrow> keeps identities_ok (modify f)"
  using identities_frame by (intro keeps_modify) blast

lemma keeps_identities_fresh: "keeps identities_ok (on_core fresh_uuid)"
  by (rule keepsI) (auto intro: identities_frame)

lemma keeps_identities_tokens: "keeps identities_ok (create_refresh_token E u)" "keeps identities_ok (revoke ck j)"
    "keeps identities_ok (revoke_all_for_user ck u)" "keeps identities_ok (token_pair E u)"
proof -
  show issue: "keeps identities_ok (create_refresh_token E u)" for u
    unfolding create_refresh_token_def insert_token_def Let_def
    by (intro keeps_bnd keeps_seq keeps_check keeps_reads keeps_ret keeps_identities_frame keeps_identities_fresh) simp_all
  show "keeps identities_ok (revoke ck j)" "keeps identities_ok (revoke_all_for_user ck u)"
    unfolding revoke_def revoke_all_for_user_def by (intro keeps_identities_frame; simp)+
  show "keeps identities_ok (token_pair E u)" unfolding token_pair_def by (intro keeps_bnd keeps_ret issue)
qed

lemma find_above: "list_all (\<lambda>a. ac_id a < n \<and> P a) as \<Longrightarrow> List.find (\<lambda>a. ac_id a = n) as = None"
  by (induction as) auto

lemma find_append_other: "ac_id a \<noteq> v \<Longrightarrow> List.find (\<lambda>a. ac_id a = v) (as @ [a]) = List.find (\<lambda>a. ac_id a = v) as"
  by (induction as) auto

lemma signed_up_accounts:
  assumes ok: "identities_ok s" and up: "signed_up p i mail name s u t"
  shows "live_account u t" "live_account v s \<Longrightarrow> live_account v t"
proof -
  from up obtain a where u: "u = next_uuid (core s)" and a: "ac_id a = u" "ac_password_changed_at a = None" "accounts t = accounts s @ [a]"
    and users: "users (core t) = (users (core s))(u \<mapsto> new_user mail name)" by (auto simp: signed_up_def)
  from ok have none: "List.find (\<lambda>a. ac_id a = u) (accounts s) = None" unfolding identities_ok_def u by (elim conjE) (rule find_above)
  from a none show "live_account u t"
    by (simp add: live_account_def get_account_def users find_append new_user_def)
  assume v: "live_account v s"
  with none have "v \<noteq> u" by (auto simp: live_account_def get_account_def split: option.splits)
  with v a show "live_account v t" by (simp add: live_account_def get_account_def users find_append_other)
qed

lemma signed_up_identities:
  assumes ok: "identities_ok s" and free: "get_by_provider p i s = None" and up: "signed_up p i mail name s u t"
  shows "identities_ok t"
proof -
  from up obtain x where x: "ui_user_id x = u" "ui_provider x = p" "ui_provider_id x = i" "user_identities t = user_identities s @ [x]"
    by (auto simp: signed_up_def)
  from free have "(p, i) \<notin> (\<lambda>i. (ui_provider i, ui_provider_id i)) ` set (user_identities s)"
    by (auto simp: get_by_provider_def find_None_iff)
  then have "distinct (map (\<lambda>i. (ui_provider i, ui_provider_id i)) (user_identities t))"
    using ok by (simp add: x identities_ok_def)
  moreover have "list_all (\<lambda>i. live_account (ui_user_id i) t) (user_identities t)"
    using ok signed_up_accounts [OF ok up] by (auto simp: x identities_ok_def list_all_iff)
  moreover have "list_all (\<lambda>a. ac_id a < next_uuid (core t) \<and> ac_password_changed_at a = None) (accounts t)"
    using ok up by (fastforce simp: signed_up_def identities_ok_def list_all_iff)
  ultimately show ?thesis by (simp add: identities_ok_def)
qed

lemma preserves_sign_up: "preserves identities_ok (resolve_or_create_oauth_user E p i mail name avatar tz)"
  by (rule preservesI) (metis resolve_Inr signed_up_identities)

lemma keeps_identities_sign_in: "keeps identities_ok (oauth E p token tz)"
proof -
  note session = preserves_bnd [OF preserves_sign_up keeps_preserves [OF keeps_identities_tokens(4)]]
  have "keeps identities_ok (oauth_google E token tz)"
    unfolding oauth_google_def Let_def
    by (cases "ae_google E token") (auto intro!: keeps_throw preserves_transaction keeps_seq keeps_guard session)
  moreover have "keeps identities_ok (oauth_apple E token tz)"
    unfolding oauth_apple_def
    by (cases "verify_apple_token (ae_apple_keys E) token")
      (auto intro!: keeps_throw preserves_transaction keeps_bnd keeps_seq keeps_guard keeps_reads session)
  ultimately show ?thesis unfolding oauth_def
    by (intro keeps_if keeps_throw keeps_catch_throws) (auto split: acct_error.split)
qed

text \<open>An authenticated user has a live account.\<close>

lemma auth_live:
  assumes "identities_ok s" and "get_http_current_user E a s = (Inr u, t)"
  shows "live_account u s"
proof -
  have "get_current_user E a s = (Inr u, t)"
    using assms(2) unfolding get_http_current_user_def by (subst (asm) catch_throws_Inr) (auto split: acct_error.split)
  then obtain r c where "get_account u s = Some (r, c)" "\<not> is_deleted r"
    by (auto simp: get_current_user_def split: option.splits prod.splits if_splits)
  moreover from this have "c \<in> set (accounts s)" by (auto simp: get_account_def find_Some_iff split: option.splits)
  ultimately show ?thesis using assms(1) by (auto simp: live_account_def identities_ok_def list_all_iff)
qed

lemma live_identities [simp]: "live_account v (s\<lparr> user_identities := xs \<rparr>) = live_account v s"
  by (simp add: live_account_def get_account_def)

lemma identities_link:
  assumes ok: "identities_ok s" and live: "live_account u s" and run: "create_identity ck u p i mail s = (r, t)"
  shows "identities_ok t"
proof (cases "get_by_provider p i s")
  case None
  then have free: "(p, i) \<notin> (\<lambda>x. (ui_provider x, ui_provider_id x)) ` set (user_identities s)"
    by (auto simp: get_by_provider_def find_None_iff)
  from run have "t = s \<or> t = s\<lparr> user_identities := user_identities s
      @ [\<lparr> ui_user_id = u, ui_provider = p, ui_provider_id = i, ui_email = Some mail, ui_created_at = now ck \<rparr>] \<rparr>"
    by (auto simp: create_identity_def split: if_splits)
  with ok live free show ?thesis by (auto simp: identities_ok_def)
qed (use run ok in \<open>auto simp: create_identity_def split: if_splits\<close>)

lemma keeps_link_identities: "keeps identities_ok (link_provider_endpoint E access p token)"
proof (rule keepsI)
  fix s r t assume ok: "identities_ok s" and run: "link_provider_endpoint E access p token s = (r, t)"
  obtain q s1 where auth: "get_http_current_user E access s = (q, s1)" by force
  then have s1: "s1 = s" by (rule auth_state)
  show "identities_ok t"
  proof (cases q)
    case (Inr u)
    from auth_live [OF ok auth [unfolded Inr]] have live: "live_account u s" .
    have verify: "snd (verify_oauth_identity E p token s) = s"
      by (auto simp: verify_oauth_identity_def split: verified.split)
    have "snd (link_provider E u p token s) = s \<or> (\<exists>i mail r. create_identity (ae_clock E) u p i mail s = (r, snd (link_provider E u p token s)))"
      using verify by (cases "verify_oauth_identity E p token s"; cases "fst (verify_oauth_identity E p token s)")
        (auto simp: link_provider_def bnd_def db_transaction_def reads_def split: option.splits sum.splits prod.splits)
    with ok identities_link [OF ok live] have "identities_ok (snd (link_provider E u p token s))" by metis
    moreover have "t = s \<or> t = snd (link_provider E u p token s)"
      using run auth Inr s1
      by (auto simp: link_provider_endpoint_def bnd_def catch_def split: if_splits prod.splits sum.splits acct_error.splits)
    ultimately show ?thesis using ok by auto
  qed (use run auth ok s1 in \<open>auto simp: link_provider_endpoint_def bnd_def\<close>)
qed

lemma identities_unlink: "keeps identities_ok (delete_identity u p)"
  unfolding delete_identity_def
  by (intro keeps_modify)
    (auto simp: identities_ok_def list_all_iff live_account_def get_account_def distinct_map_filter_key)

lemma find_update_account:
  "(\<And>r. ac_id (f r) = ac_id r) \<Longrightarrow>
    List.find (\<lambda>a. ac_id a = v) (update_where (\<lambda>r. ac_id r = u) f as) =
      (if v = u then map_option f (List.find (\<lambda>a. ac_id a = v) as) else List.find (\<lambda>a. ac_id a = v) as)"
  by (rule find_update_where_key)

lemma keeps_profile_identities: "keeps identities_ok (update_profile u name avatar tz)"
proof -
  have live: "live_account v (s\<lparr> core := (core s)\<lparr> users := (users (core s))(u := map_option (\<lambda>r. r\<lparr> display_name := Some n \<rparr>) (users (core s) u)) \<rparr> \<rparr>)
      = live_account v s" for v n s
    by (auto simp: live_account_def get_account_def split: option.splits)
  have row: "live_account v (s\<lparr> accounts := update_where (\<lambda>r. ac_id r = u) f (accounts s) \<rparr>) = live_account v s"
    if "\<And>r. ac_id (f r) = ac_id r \<and> ac_password_changed_at (f r) = ac_password_changed_at r" for v f s
    using that by (auto simp: live_account_def get_account_def find_update_account split: option.splits)
  have name: "keeps identities_ok (modify (\<lambda>s. s\<lparr> core := (core s)\<lparr> users :=
      (users (core s))(u := map_option (\<lambda>r. r\<lparr> display_name := Some n \<rparr>) (users (core s) u)) \<rparr> \<rparr>))" for n
    by (rule keeps_modify) (simp add: identities_ok_def live)
  have account: "keeps identities_ok (modify (\<lambda>s. s\<lparr> accounts := update_where (\<lambda>r. ac_id r = u) f (accounts s) \<rparr>))"
    if "\<And>r. ac_id (f r) = ac_id r \<and> ac_password_changed_at (f r) = ac_password_changed_at r" for f
    by (rule keeps_modify) (use that in \<open>auto simp: identities_ok_def row list_all_iff set_update_where\<close>)
  show ?thesis unfolding update_profile_def
    by (intro keeps_seq keeps_case_option keeps_ret name account) simp_all
qed

lemma delete_account_run:
  assumes "delete_account E mail u s = (Inr (), t)"
  shows "strip_name (ae_salt E) \<noteq> ''''"
    "t = s\<lparr> token_table := filter (\<lambda>r. tk_user_id r \<noteq> u) (token_table s),
       user_identities := filter (\<lambda>r. ui_user_id r \<noteq> u) (user_identities s),
       savings_snapshots := (savings_snapshots s)(u := None),
       accounts := update_where (\<lambda>r. ac_id r = u) (\<lambda>r. r\<lparr> ac_account_type := ''deleted'', ac_avatar_url := None \<rparr>) (accounts s),
       core := tombstone mail u (sentinel_rows u (anonymise_rows u (ae_anon E u) (clear_rows u (drop_rows u (core s))))) \<rparr>"
  using assms by (auto simp: delete_account_def anonymize_user_id_def split: if_splits)

lemma deletion_core [simp]:
  "next_uuid (tombstone mail u (sentinel_rows u (anonymise_rows u v (clear_rows u (drop_rows u c))))) = next_uuid c"
  "users (tombstone mail u (sentinel_rows u (anonymise_rows u v (clear_rows u (drop_rows u c)))))
     = (users c)(u := map_option (\<lambda>r. r\<lparr> email := mail u, display_name := None, is_deleted := True \<rparr>) (users c u))"
  by (simp_all add: tombstone_def sentinel_rows_def anonymise_rows_def clear_rows_def drop_rows_def Let_def)

lemma keeps_delete_identities: "keeps identities_ok (delete_account E mail u)"
proof (rule keepsI)
  fix s t and r :: "acct_error + unit" assume ok: "identities_ok s" and run: "delete_account E mail u s = (r, t)"
  show "identities_ok t"
  proof (cases r)
    case (Inr z)
    with run have "delete_account E mail u s = (Inr (), t)" by simp
    note t = delete_account_run(2) [OF this]
    have "live_account v t" if "live_account v s" "v \<noteq> u" for v
      using that by (auto simp: t live_account_def get_account_def find_update_account split: option.splits)
    with ok show ?thesis
      by (auto simp: identities_ok_def t list_all_iff set_update_where distinct_map_filter_key)
  qed (use run ok in \<open>auto simp: delete_account_def anonymize_user_id_def split: if_splits\<close>)
qed

lemma keeps_identities_step: "keeps identities_ok (account_step c)"
proof (cases c)
  case (Pair E r)
  show ?thesis
  proof (cases r)
    case (Refresh token)
    show ?thesis unfolding Pair Refresh account_step.simps refresh_def refresh_tokens_def validate_refresh_def rotate_def
      by (intro keeps_void keeps_catch_throws keeps_transaction keeps_bnd keeps_case_option keeps_throw keeps_reads keeps_seq keeps_guard keeps_ret
          keeps_identities_tokens) (auto split: acct_error.split)
  next
    case (Unlink_Identity access p)
    show ?thesis unfolding Pair Unlink_Identity account_step.simps delete_identity_endpoint_def unlink_provider_def may_unlink_def split_def
      by (intro keeps_bnd keeps_auth keeps_if keeps_throw keeps_seq keeps_guard keeps_reads keeps_catch_throws identities_unlink)
        (auto split: acct_error.split)
  next
    case (Patch_Preferences access radius mode)
    show ?thesis unfolding Pair Patch_Preferences account_step.simps patch_preferences_def update_preferences_def get_or_create_prefs_def Let_def
      by (intro keeps_void keeps_bnd keeps_auth keeps_if keeps_throw keeps_transaction keeps_reads keeps_case_option keeps_ret keeps_seq keeps_check
          keeps_identities_frame) simp_all
  next
    case (Claim_Ring access)
    show ?thesis unfolding Pair Claim_Ring account_step.simps post_rings_claim_def claim_ring_def ring_stats_def ensure_snapshot_def Let_def split_def
      by (intro keeps_void keeps_bnd keeps_auth keeps_if keeps_throw keeps_guard keeps_reads keeps_case_option keeps_ret keeps_seq
          keeps_identities_frame) simp_all
  qed (simp only: Pair account_step.simps patch_profile_def logout_def logout_all_def delete_account_endpoint_def,
      intro keeps_void keeps_bnd keeps_if keeps_throw keeps_ret keeps_reads keeps_case_option keeps_auth keeps_identities_sign_in
        keeps_profile_identities keeps_identities_tokens keeps_link_identities keeps_delete_identities)+
qed

interpretation acct: kept_invariant account_step "\<lambda>s. tokens_ok s \<and> identities_ok s"
  by unfold_locales (auto intro: keeps_snd [OF tok.account_step_keeps] keeps_snd [OF keeps_identities_step])

text \<open>The subject of a verified token of a provider.\<close>

definition token_subject :: "auth_env \<Rightarrow> string \<Rightarrow> string \<Rightarrow> string option" where
  "token_subject E p token = (if p = ''google'' then (case ae_google E token of Verified c \<Rightarrow> Some (gc_sub c) | _ \<Rightarrow> None)
     else (case verify_apple_token (ae_apple_keys E) token of Verified c \<Rightarrow> Some (pc_sub c) | _ \<Rightarrow> None))"

lemma oauth_Inr:
  assumes "oauth E p token tz s = (Inr pair, t)"
  shows "\<exists>i mail name avatar u s1. token_subject E p token = Some i
    \<and> resolve_or_create_oauth_user E p i mail name avatar tz s = (Inr u, s1) \<and> token_pair E u s1 = (Inr pair, t)"
proof -
  have "p \<in> {''google'', ''apple''}" using assms unfolding oauth_def by (auto split: if_splits)
  moreover have "(if p = ''google'' then oauth_google E token tz else oauth_apple E token tz) s = (Inr pair, t)"
    using assms unfolding oauth_def
    by (auto split: if_splits acct_error.split elim!: catch_returns)
  ultimately have "(if p = ''google'' then oauth_google E token tz else oauth_apple E token tz) s = (Inr pair, t)" "p \<in> {''google'', ''apple''}"
    by simp_all
  then show ?thesis
    by (auto simp: oauth_google_def oauth_apple_def Let_def token_subject_def db_transaction_Inr_iff bnd_Inr_iff
        split: verified.splits if_splits) blast+
qed

lemma resolve_keeps:
  assumes "resolve_or_create_oauth_user E p i mail name avatar tz s = (Inr u, t)" and "tokens_ok s" and "identities_ok s"
  shows "tokens_ok t" "identities_ok t" "live_account u t"
    "\<exists>x \<in> set (user_identities t). ui_provider x = p \<and> ui_provider_id x = i \<and> ui_user_id x = u"
proof -
  show "tokens_ok t" by (rule keepsD [OF tok.keeps_sign_up assms(2,1)])
  show "identities_ok t" by (rule preservesD [OF preserves_sign_up assms(3,1)])
  from resolve_Inr [OF assms(1)] show "live_account u t"
  proof (elim disjE conjE exE)
    fix x assume "get_by_provider p i s = Some x" "u = ui_user_id x" "t = s"
    with assms(3) show ?thesis by (auto simp: get_by_provider_def identities_ok_def list_all_iff dest: find_Some_in)
  qed (rule signed_up_accounts(1) [OF assms(3)])
  from resolve_Inr [OF assms(1)] show "\<exists>x \<in> set (user_identities t). ui_provider x = p \<and> ui_provider_id x = i \<and> ui_user_id x = u"
    by (fastforce simp: get_by_provider_def signed_up_def dest: find_Some_in)
qed

lemma token_pair_run:
  assumes "tokens_ok s"
  shows "token_pair E u s = (Inr (create_access_token E u, create_token E u ''refresh'' (ae_refresh_days E * day_us) (Some (next_uuid (core s)))),
     s\<lparr> core := (core s)\<lparr> next_uuid := Suc (next_uuid (core s)) \<rparr>, token_table := token_table s @
       [\<lparr> tk_jti = next_uuid (core s), tk_user_id = u, tk_expires_at = now (ae_clock E) + ae_refresh_days E * day_us, tk_revoked_at = None \<rparr>] \<rparr>)"
proof -
  have "next_uuid (core s) \<notin> tk_jti ` set (token_table s)" using assms by (auto simp: tokens_ok_def list_all_iff)
  then show ?thesis
    by (simp add: token_pair_def create_refresh_token_def insert_token_def Let_def bnd_def seq_def check_def guard_def)
qed

text \<open>A token made now is valid now: whole seconds are added before the division.\<close>

lemma fresh_exp: "0 < k \<Longrightarrow> n < (n + k * second_us) div second_us * second_us"
  using div_mult_mod_eq [of n second_us] pos_mod_bound [of second_us n] by (simp add: algebra_simps)

lemma access_token_opens:
  assumes law: "jose_law E" and minutes: "0 < ae_access_minutes E" and live: "live_account u s"
  shows "get_http_current_user E (create_access_token E u) s = (Inr u, s)"
proof -
  have "now (ae_clock E) < (now (ae_clock E) + (ae_access_minutes E * 60) * second_us) div second_us * second_us"
    by (rule fresh_exp) (use minutes in simp)
  then have "decode_access_token E (create_access_token E u) = Some (u, now (ae_clock E) div second_us * second_us)"
    using law by (simp add: decode_access_token_def create_access_token_def create_token_def jose_law_def)
  then show ?thesis using live
    by (auto simp: get_http_current_user_def get_current_user_def catch_def live_account_def split: option.splits)
qed

lemma refresh_token_opens:
  assumes law: "jose_law E" and days: "0 < ae_refresh_days E" and ok: "tokens_ok s" and run: "token_pair E u s = (Inr (a, r), t)"
  shows "\<exists>pair w. refresh E r t = (Inr pair, w)"
proof -
  let ?j = "next_uuid (core s)"
  have t: "tokens_ok t" by (rule keepsD [OF tok.keeps_pair ok run])
  have "now (ae_clock E) < (now (ae_clock E) + (ae_refresh_days E * 86400) * second_us) div second_us * second_us"
    by (rule fresh_exp) (use days in simp)
  moreover have "(ae_refresh_days E * 86400) * second_us = ae_refresh_days E * day_us" by simp
  ultimately have "now (ae_clock E) < (now (ae_clock E) + ae_refresh_days E * day_us) div second_us * second_us" by (simp only:)
  then have dec: "decode_refresh_token E r = Some ?j"
    using law run by (auto simp: token_pair_run [OF ok] decode_refresh_token_def create_token_def jose_law_def)
  have "List.find (\<lambda>x. tk_jti x = ?j) (token_table s) = None"
    using ok by (auto simp: tokens_ok_def list_all_iff find_None_iff)
  then have "\<exists>x. get_by_jti ?j t = Some x \<and> tk_revoked_at x = None \<and> now (ae_clock E) \<le> tk_expires_at x"
    using run days by (auto simp: token_pair_run [OF ok] get_by_jti_def find_append)
  then obtain x where "validate_refresh E r t = (Inr x, t)" by (auto simp: validate_refresh_def dec)
  then show ?thesis using rotate_run [OF t] by (auto simp: refresh_Inr bnd_Inr_iff)
qed

text \<open>
  C4 (liveness). After any history of requests, a sign-in that is answered hands out a pair that works: the access token
  authenticates the live account that owns the verified subject at the provider, the refresh token can be exchanged; a subject
  seen for the first time gets a new account with two empty balances, preferences and a referral code of its own.
\<close>

theorem sign_in_opens_session:
  assumes law: "jose_law E" and lives: "0 < ae_access_minutes E" "0 < ae_refresh_days E"
    and start: "tokens_ok s0" "identities_ok s0" and past: "exec_all account_step cs s0 = (rs, s)"
    and run: "oauth E p token tz s = (Inr (access, refr), t)"
  shows "\<exists>u i. token_subject E p token = Some i
    \<and> get_http_current_user E access t = (Inr u, t) \<and> (\<exists>pair w. refresh E refr t = (Inr pair, w))
    \<and> (\<exists>x \<in> set (user_identities t). ui_provider x = p \<and> ui_provider_id x = i \<and> ui_user_id x = u)
    \<and> (if get_by_provider p i s = None
       then get_account u s = None \<and> user_cab_balance (core t) u = Some 0 \<and> user_cashback_balance (core t) u = Some 0
         \<and> preferences t u \<noteq> None \<and> get_code_for_user u (core t) \<noteq> None
       else accounts t = accounts s \<and> user_cab_balance (core t) = user_cab_balance (core s))"
proof -
  from acct.exec_all_keeps [OF _ past] start have ok: "tokens_ok s" "identities_ok s" by auto
  from oauth_Inr [OF run] obtain i mail name avatar u s1 where i: "token_subject E p token = Some i"
    and res: "resolve_or_create_oauth_user E p i mail name avatar tz s = (Inr u, s1)" and pair: "token_pair E u s1 = (Inr (access, refr), t)" by blast
  note s1 = resolve_keeps [OF res ok]
  have access: "access = create_access_token E u" and t: "core t = (core s1)\<lparr> next_uuid := Suc (next_uuid (core s1)) \<rparr>"
      "user_identities t = user_identities s1" "accounts t = accounts s1" "preferences t = preferences s1"
    using pair by (auto simp: token_pair_run [OF s1(1)])
  from s1(3) have live: "live_account u t" by (simp add: live_account_def get_account_def t)
  have "get_account u s = None \<and> user_cab_balance (core t) u = Some 0 \<and> user_cashback_balance (core t) u = Some 0
      \<and> preferences t u \<noteq> None \<and> get_code_for_user u (core t) \<noteq> None" if "get_by_provider p i s = None"
  proof -
    from resolve_Inr [OF res] that have up: "signed_up p i mail name s u s1" by auto
    then have "u = next_uuid (core s)" by (simp add: signed_up_def)
    then have "List.find (\<lambda>a. ac_id a = u) (accounts s) = None"
      using ok(2) unfolding identities_ok_def by (elim conjE) (simp only:, rule find_above)
    then have "get_account u s = None" by (simp add: get_account_def split: option.splits)
    with up show ?thesis by (auto simp: signed_up_def t get_code_for_user_def find_append split: option.splits)
  qed
  moreover have "accounts t = accounts s \<and> user_cab_balance (core t) = user_cab_balance (core s)" if "get_by_provider p i s \<noteq> None"
    using resolve_Inr [OF res] that by (auto simp: t)
  ultimately show ?thesis
    using i s1(4) access_token_opens [OF law lives(1) live] refresh_token_opens [OF law lives(2) s1(1) pair]
    by (intro exI [of _ u] exI [of _ i]) (simp add: access t(2))
qed

lemma demo_sign_up: "\<exists>u t. resolve_or_create_oauth_user (demo_auth 5) ''google'' ''ann'' ''a@b.eu'' ''Ann'' None ''Europe/Paris'' empty_acct = (Inr u, t)"
  by (simp add: resolve_or_create_oauth_user_def get_by_provider_def create_user_def demo_auth_def empty_acct_def eval_nat_numeral
      insert_user_def email_format_def email_char_def account_types_def catch_def db_transaction_def bnd_def seq_def check_def guard_def
      reads_def modify_def ret_def create_identity_def get_or_create_prefs_def Let_def create_cab_balance_def create_cashback_balance_def
      create_code_for_user_def insert_referral_code_def constr_def on_core_def unary_def upper_def)

lemma empty_acct_ok: "tokens_ok empty_acct" "identities_ok empty_acct"
  by (simp_all add: tokens_ok_def identities_ok_def empty_acct_def)

lemma demo_oauth: "\<exists>a r t. oauth (demo_auth 5) ''google'' ''ann'' ''Europe/Paris'' empty_acct = (Inr (a, r), t)"
proof -
  obtain u s1 where res: "resolve_or_create_oauth_user (demo_auth 5) ''google'' ''ann'' ''a@b.eu'' ''Ann'' None ''Europe/Paris'' empty_acct = (Inr u, s1)"
    using demo_sign_up by blast
  from token_pair_run [OF keepsD [OF tok.keeps_sign_up empty_acct_ok(1) res]] obtain p t where "token_pair (demo_auth 5) u s1 = (Inr p, t)" by blast
  with res have run: "db_transaction (bnd (resolve_or_create_oauth_user (demo_auth 5) ''google'' ''ann'' ''a@b.eu'' ''Ann'' None ''Europe/Paris'')
      (token_pair (demo_auth 5))) empty_acct = (Inr p, t)"
    by (auto simp: db_transaction_Inr_iff bnd_Inr_iff)
  have "strip_name '' Ann '' = ''Ann''" by (simp add: strip_name_def)
  then have "oauth_google (demo_auth 5) ''ann'' ''Europe/Paris'' empty_acct = (Inr p, t)"
    using run by (simp add: oauth_google_def or_empty_def demo_auth_def)
  then have "oauth (demo_auth 5) ''google'' ''ann'' ''Europe/Paris'' empty_acct = (Inr p, t)"
    by (simp add: oauth_def catch_def) (simp add: demo_auth_def demo_clock_def)
  then show ?thesis by (cases p) auto
qed

theorem sign_in_opens_session_witness:
  "\<exists>access refr t u. oauth (demo_auth 5) ''google'' ''ann'' ''Europe/Paris'' empty_acct = (Inr (access, refr), t)
     \<and> get_http_current_user (demo_auth 5) access t = (Inr u, t) \<and> (\<exists>pair w. refresh (demo_auth 5) refr t = (Inr pair, w))
     \<and> user_cab_balance (core t) u = Some 0"
proof -
  obtain access refr t where run: "oauth (demo_auth 5) ''google'' ''ann'' ''Europe/Paris'' empty_acct = (Inr (access, refr), t)"
    using demo_oauth by blast
  have lives: "0 < ae_access_minutes (demo_auth 5)" "0 < ae_refresh_days (demo_auth 5)" by (simp_all add: demo_auth_def)
  from sign_in_opens_session [OF demo_jose lives empty_acct_ok _ run, of "[]" "[]"]
  show ?thesis using run by (auto simp: get_by_provider_def empty_acct_def)
qed

section \<open>Unlinking a provider\<close>

lemma unlink_Inr:
  assumes auth: "get_http_current_user E access s = (Inr u, s)" and run: "delete_identity_endpoint E access p s = (Inr (), t)"
  shows "2 \<le> identity_count u s" "t = s\<lparr> user_identities := filter (\<lambda>r. \<not> (ui_user_id r = u \<and> ui_provider r = p)) (user_identities s) \<rparr>"
proof -
  from run auth have "unlink_provider u p s = (Inr (), t)"
    unfolding delete_identity_endpoint_def
    by (auto simp: bnd_run_Inr [of "get_http_current_user E access"] split: if_splits acct_error.split elim!: catch_returns)
  then show "2 \<le> identity_count u s"
      "t = s\<lparr> user_identities := filter (\<lambda>r. \<not> (ui_user_id r = u \<and> ui_provider r = p)) (user_identities s) \<rparr>"
    by (auto simp: unlink_provider_def may_unlink_def delete_identity_def split: if_splits)
qed

text \<open>
  An answered unlinking removes exactly the identities of the user at the provider. The check that keeps the last
  identity counts identities and not providers: a user whose identities, two at least, are all at that provider is left with
  none, and then no subject of any provider leads to the account.
\<close>

theorem unlink_locks_out_iff:
  assumes ok: "identities_ok s" and auth: "get_http_current_user E access s = (Inr u, s)" and run: "delete_identity_endpoint E access p s = (Inr (), t)"
  shows "list_for_user u t = filter (\<lambda>r. ui_provider r \<noteq> p) (list_for_user u s)
    \<and> (\<forall>v. v \<noteq> u \<longrightarrow> list_for_user v t = list_for_user v s)
    \<and> 2 \<le> length (list_for_user u s)
    \<and> ((\<forall>q i x. get_by_provider q i t = Some x \<longrightarrow> ui_user_id x \<noteq> u) \<longleftrightarrow> (\<forall>r \<in> set (list_for_user u s). ui_provider r = p))"
proof (intro conjI allI impI)
  note t = unlink_Inr [OF auth run]
  have sub: "filter (\<lambda>r. ui_user_id r = v) (user_identities t)
      = filter (\<lambda>r. v \<noteq> u \<or> ui_provider r \<noteq> p) (filter (\<lambda>r. ui_user_id r = v) (user_identities s))" for v
    by (auto simp: t(2) intro!: filter_cong)
  show "list_for_user u t = filter (\<lambda>r. ui_provider r \<noteq> p) (list_for_user u s)"
    unfolding list_for_user_def sub by (simp add: filter_sort)
  show "list_for_user v t = list_for_user v s" if "v \<noteq> u" for v
    unfolding list_for_user_def sub using that by simp
  show "2 \<le> length (list_for_user u s)" using t(1) by (simp add: list_for_user_def identity_count_def count_where_def)
  show "(\<forall>q i x. get_by_provider q i t = Some x \<longrightarrow> ui_user_id x \<noteq> u) \<longleftrightarrow> (\<forall>r \<in> set (list_for_user u s). ui_provider r = p)"
  proof
    assume none: "\<forall>q i x. get_by_provider q i t = Some x \<longrightarrow> ui_user_id x \<noteq> u"
    show "\<forall>r \<in> set (list_for_user u s). ui_provider r = p"
    proof (rule ccontr)
      assume "\<not> (\<forall>r \<in> set (list_for_user u s). ui_provider r = p)"
      then obtain r where r: "r \<in> set (user_identities t)" "ui_user_id r = u" by (auto simp: list_for_user_def t(2))
      have "distinct (map (\<lambda>i. (ui_provider i, ui_provider_id i)) (user_identities t))"
        using ok by (simp add: t(2) identities_ok_def distinct_map_filter_key)
      from find_distinct_key [OF this r(1)] have "get_by_provider (ui_provider r) (ui_provider_id r) t = Some r"
        by (simp add: get_by_provider_def)
      with none r(2) show False by blast
    qed
  qed (auto simp: list_for_user_def t(2) get_by_provider_def dest!: find_Some_in)
qed

text \<open>A user whom two Google accounts open, and a token of that user.\<close>

definition two_google :: acct_db where
  "two_google = empty_acct\<lparr> core := empty_db\<lparr> next_uuid := 10, users := [7 \<mapsto> new_user ''a@b.eu'' ''Ann''], user_cashback_balance := [7 \<mapsto> 250],
       user_cab_balance := [7 \<mapsto> 0] \<rparr>,
     accounts := [\<lparr> ac_id = 7, ac_account_type = ''oauth'', ac_avatar_url = None, ac_timezone = ''Europe/Paris'', ac_support_id = ''S'',
       ac_password_changed_at = None, ac_created_at = 0 \<rparr>],
     user_identities := [\<lparr> ui_user_id = 7, ui_provider = ''google'', ui_provider_id = ''ann'', ui_email = None, ui_created_at = 0 \<rparr>,
       \<lparr> ui_user_id = 7, ui_provider = ''google'', ui_provider_id = ''work'', ui_email = None, ui_created_at = 1 \<rparr>],
     token_table := [demo_row] \<rparr>"

definition demo_access :: string where
  "demo_access = demo_encode \<lparr> jw_sub = 7, jw_type = ''access'', jw_iat = 0, jw_exp = 1, jw_jti = None \<rparr>"

lemma two_google_ok: "identities_ok two_google" "tokens_ok two_google"
  by (simp_all add: identities_ok_def tokens_ok_def two_google_def live_account_def get_account_def empty_acct_def new_user_def demo_row_def)

lemma two_google_auth: "get_http_current_user (demo_auth 5) demo_access two_google = (Inr 7, two_google)"
proof -
  have "decode_access_token (demo_auth 5) demo_access = Some (7, 0)"
    by (simp add: decode_access_token_def demo_auth_def demo_access_def demo_decode_encode)
  moreover have "live_account 7 two_google" using two_google_ok(1) by (simp add: identities_ok_def two_google_def)
  ultimately show ?thesis
    by (auto simp: get_http_current_user_def get_current_user_def catch_def live_account_def split: option.splits)
qed

theorem unlink_locks_out_iff_witness:
  "\<exists>t. delete_identity_endpoint (demo_auth 5) demo_access ''google'' two_google = (Inr (), t) \<and> list_for_user 7 t = []
     \<and> get_by_provider ''google'' ''ann'' t = None \<and> get_by_provider ''google'' ''work'' t = None"
proof -
  have run: "\<exists>t. delete_identity_endpoint (demo_auth 5) demo_access ''google'' two_google = (Inr (), t) \<and> user_identities t = []"
    by (simp add: delete_identity_endpoint_def bnd_run_Inr [of "get_http_current_user (demo_auth 5) demo_access", OF two_google_auth])
      (simp add: catch_def unlink_provider_def may_unlink_def delete_identity_def get_by_provider_for_user_def identity_count_def
        count_where_def two_google_def empty_acct_def)
  then obtain t where t: "delete_identity_endpoint (demo_auth 5) demo_access ''google'' two_google = (Inr (), t)" "user_identities t = []" by blast
  have "set (list_for_user 7 two_google) = set (user_identities two_google)" by (auto simp: list_for_user_def two_google_def empty_acct_def)
  with unlink_locks_out_iff [OF two_google_ok(1) two_google_auth t(1)] t show ?thesis
    by (auto simp: list_for_user_def get_by_provider_def two_google_def empty_acct_def)
qed


section \<open>Deletion\<close>

text \<open>No row that the deletion covers carries the user's identifier, and what is left of the account is a tombstone.\<close>

definition erased :: "uuid \<Rightarrow> (uuid \<Rightarrow> string) \<Rightarrow> acct_db \<Rightarrow> bool" where
  "erased u mail t \<longleftrightarrow> list_all (\<lambda>r. tk_user_id r \<noteq> u) (token_table t) \<and> list_all (\<lambda>r. ui_user_id r \<noteq> u) (user_identities t)
     \<and> savings_snapshots t u = None
     \<and> (let c = core t in
       user_streaks c u = None \<and> user_cab_balance c u = None \<and> user_xp_balance c u = None
       \<and> (\<forall>n. user_battlepass_progress c (u, n) = None)
       \<and> list_all (\<lambda>r. ob_user_id r \<noteq> u) (notification_outbox c) \<and> list_all (\<lambda>r. rc_user_id r \<noteq> Some u) (referral_codes c)
       \<and> list_all (\<lambda>r. sc_user_id r \<noteq> u) (scans c) \<and> list_all (\<lambda>r. re_user_id r \<noteq> u) (receipts c)
       \<and> list_all (\<lambda>r. ua_user_id r \<noteq> u) (user_achievements c) \<and> list_all (\<lambda>r. bc_user_id r \<noteq> u) (user_battlepass_claims c)
       \<and> list_all (\<lambda>r. cc_user_id r \<noteq> u) (community_challenge_claims c) \<and> list_all (\<lambda>r. mu_user_id r \<noteq> u) (community_multipliers c)
       \<and> list_all (\<lambda>r. xt_user_id r \<noteq> u) (xp_transactions c) \<and> list_all (\<lambda>r. ru_referred_user_id r \<noteq> Some u) (referral_uses c)
       \<and> list_all (\<lambda>r. ev_user_id r \<noteq> u) (reward_events (play c)) \<and> list_all (\<lambda>r. um_user_id r \<noteq> u) (user_missions (play c))
       \<and> list_all (\<lambda>r. fi_user_id r \<noteq> u) (mystery_challenge_finds (play c)) \<and> list_all (\<lambda>r. mx_user_id r \<noteq> u) (mission_xp_records (play c))
       \<and> list_all (\<lambda>r. ct_user_id r \<noteq> u) (cabecoin_transactions c) \<and> list_all (\<lambda>r. cb_user_id r \<noteq> u) (cashback_transactions c)
       \<and> list_all (\<lambda>r. wd_user_id r \<noteq> u) (cashback_withdrawals c) \<and> list_all (\<lambda>r. go_user_id r \<noteq> u) (gift_card_orders c)
       \<and> (case users c u of None \<Rightarrow> True | Some r \<Rightarrow> is_deleted r \<and> display_name r = None \<and> email r = mail u))"

text \<open>What the tables hold of a user.\<close>

definition same_money :: "uuid \<Rightarrow> db \<Rightarrow> db \<Rightarrow> bool" where
  "same_money v c d \<longleftrightarrow> users d v = users c v \<and> user_cab_balance d v = user_cab_balance c v \<and> user_cashback_balance d v = user_cashback_balance c v
     \<and> filter (\<lambda>r. ct_user_id r = v) (cabecoin_transactions d) = filter (\<lambda>r. ct_user_id r = v) (cabecoin_transactions c)
     \<and> filter (\<lambda>r. cb_user_id r = v) (cashback_transactions d) = filter (\<lambda>r. cb_user_id r = v) (cashback_transactions c)
     \<and> filter (\<lambda>r. wd_user_id r = v) (cashback_withdrawals d) = filter (\<lambda>r. wd_user_id r = v) (cashback_withdrawals c)
     \<and> filter (\<lambda>r. go_user_id r = v) (gift_card_orders d) = filter (\<lambda>r. go_user_id r = v) (gift_card_orders c)"

definition same_progress :: "uuid \<Rightarrow> db \<Rightarrow> db \<Rightarrow> bool" where
  "same_progress v c d \<longleftrightarrow> user_streaks d v = user_streaks c v \<and> user_xp_balance d v = user_xp_balance c v
     \<and> (\<forall>n. user_battlepass_progress d (v, n) = user_battlepass_progress c (v, n))
     \<and> filter (\<lambda>r. xt_user_id r = v) (xp_transactions d) = filter (\<lambda>r. xt_user_id r = v) (xp_transactions c)
     \<and> filter (\<lambda>r. bc_user_id r = v) (user_battlepass_claims d) = filter (\<lambda>r. bc_user_id r = v) (user_battlepass_claims c)
     \<and> filter (\<lambda>r. ua_user_id r = v) (user_achievements d) = filter (\<lambda>r. ua_user_id r = v) (user_achievements c)
     \<and> filter (\<lambda>r. ev_user_id r = v) (reward_events (play d)) = filter (\<lambda>r. ev_user_id r = v) (reward_events (play c))
     \<and> filter (\<lambda>r. um_user_id r = v) (user_missions (play d)) = filter (\<lambda>r. um_user_id r = v) (user_missions (play c))"

definition deleted_core :: "(uuid \<Rightarrow> string) \<Rightarrow> uuid \<Rightarrow> uuid \<Rightarrow> db \<Rightarrow> db" where
  "deleted_core mail u v c = tombstone mail u (sentinel_rows u (anonymise_rows u v (clear_rows u (drop_rows u c))))"

lemma deleted_fields:
  "user_achievements (deleted_core mail u v c) = map (\<lambda>r. r\<lparr> ua_user_id := renamed u v (ua_user_id r) \<rparr>) (user_achievements c)"
  "user_battlepass_claims (deleted_core mail u v c) = map (\<lambda>r. r\<lparr> bc_user_id := renamed u v (bc_user_id r) \<rparr>) (user_battlepass_claims c)"
  "community_challenge_claims (deleted_core mail u v c) = map (\<lambda>r. r\<lparr> cc_user_id := renamed u v (cc_user_id r) \<rparr>) (community_challenge_claims c)"
  "community_multipliers (deleted_core mail u v c) = map (\<lambda>r. r\<lparr> mu_user_id := renamed u v (mu_user_id r) \<rparr>) (community_multipliers c)"
  "xp_transactions (deleted_core mail u v c) = map (\<lambda>r. r\<lparr> xt_user_id := renamed u v (xt_user_id r) \<rparr>) (xp_transactions c)"
  "scans (deleted_core mail u v c) = map (\<lambda>r. r\<lparr> sc_user_id := renamed u null_user (sc_user_id r) \<rparr>) (scans c)"
  "receipts (deleted_core mail u v c) = map (\<lambda>r. r\<lparr> re_user_id := renamed u null_user (re_user_id r) \<rparr>) (receipts c)"
  "cabecoin_transactions (deleted_core mail u v c) = map (\<lambda>r. r\<lparr> ct_user_id := renamed u ANON_SENTINEL_USER_ID (ct_user_id r) \<rparr>) (cabecoin_transactions c)"
  "cashback_transactions (deleted_core mail u v c) = map (\<lambda>r. r\<lparr> cb_user_id := renamed u ANON_SENTINEL_USER_ID (cb_user_id r) \<rparr>) (cashback_transactions c)"
  "cashback_withdrawals (deleted_core mail u v c) = map (\<lambda>r. r\<lparr> wd_user_id := renamed u ANON_SENTINEL_USER_ID (wd_user_id r) \<rparr>) (cashback_withdrawals c)"
  "gift_card_orders (deleted_core mail u v c) = map (\<lambda>r. r\<lparr> go_user_id := renamed u ANON_SENTINEL_USER_ID (go_user_id r) \<rparr>) (gift_card_orders c)"
  "reward_events (play (deleted_core mail u v c)) = map (\<lambda>r. r\<lparr> ev_user_id := renamed u v (ev_user_id r) \<rparr>) (reward_events (play c))"
  "user_missions (play (deleted_core mail u v c)) = map (\<lambda>r. r\<lparr> um_user_id := renamed u v (um_user_id r) \<rparr>) (user_missions (play c))"
  "mystery_challenge_finds (play (deleted_core mail u v c)) = map (\<lambda>r. r\<lparr> fi_user_id := renamed u v (fi_user_id r) \<rparr>) (mystery_challenge_finds (play c))"
  "mission_xp_records (play (deleted_core mail u v c)) = map (\<lambda>r. r\<lparr> mx_user_id := renamed u v (mx_user_id r) \<rparr>) (mission_xp_records (play c))"
  "user_streaks (deleted_core mail u v c) = (user_streaks c)(u := None)"
  "user_cab_balance (deleted_core mail u v c) = (user_cab_balance c)(u := None)"
  "user_xp_balance (deleted_core mail u v c) = (user_xp_balance c)(u := None)"
  "user_cashback_balance (deleted_core mail u v c) = user_cashback_balance c"
  "notification_outbox (deleted_core mail u v c) = filter (\<lambda>r. ob_user_id r \<noteq> u) (notification_outbox c)"
  "referral_codes (deleted_core mail u v c) = map (\<lambda>r. if rc_user_id r = Some u then r\<lparr> rc_user_id := None \<rparr> else r) (referral_codes c)"
  "referral_uses (deleted_core mail u v c) = map (\<lambda>r. r\<lparr> ru_referred_user_id := map_option (renamed u v) (ru_referred_user_id r) \<rparr>) (referral_uses c)"
  "user_battlepass_progress (deleted_core mail u v c) = rekey_progress u v (user_battlepass_progress c)"
  "users (deleted_core mail u v c) = (users c)(u := map_option (\<lambda>r. r\<lparr> email := mail u, display_name := None, is_deleted := True \<rparr>) (users c u))"
  "next_uuid (deleted_core mail u v c) = next_uuid c"
  by (simp_all add: deleted_core_def tombstone_def sentinel_rows_def anonymise_rows_def clear_rows_def drop_rows_def Let_def)

lemma filter_moved:
  assumes "\<And>r. f (g r) = renamed u w (f r)" and "\<And>r. f r \<noteq> u \<Longrightarrow> g r = r" and "v \<noteq> u" and "v \<noteq> w"
  shows "filter (\<lambda>r. f r = v) (map g rows) = filter (\<lambda>r. f r = v) rows"
  using assms(3,4) by (induction rows) (auto simp: assms(1) renamed_def, metis assms(2))

lemma moved_none: "w \<noteq> u \<Longrightarrow> renamed u w x \<noteq> u"
  by (simp add: renamed_def)

lemma moved_out: "w \<noteq> u \<Longrightarrow> (\<And>r. f (g r) = renamed u w (f r)) \<Longrightarrow> list_all (\<lambda>r. f r \<noteq> u) (map g rows)"
  by (auto simp: list_all_iff renamed_def)

lemma same_money_deleted:
  assumes "v \<noteq> u" "v \<noteq> ANON_SENTINEL_USER_ID"
  shows "same_money v c (deleted_core mail u w c)"
  unfolding same_money_def deleted_fields
  by (intro conjI filter_moved [where u = u and w = ANON_SENTINEL_USER_ID]) (use assms in \<open>simp_all add: renamed_def\<close>)

lemma same_progress_deleted:
  assumes "v \<noteq> u" "v \<noteq> w"
  shows "same_progress v c (deleted_core mail u w c)"
  unfolding same_progress_def deleted_fields
  by (intro conjI allI filter_moved [where u = u and w = w]) (use assms in \<open>simp_all add: renamed_def rekey_progress_def\<close>)

lemma deletion_state:
  assumes "delete_account E mail u s = (Inr (), t)"
  shows "core t = deleted_core mail u (ae_anon E u) (core s)" "token_table t = filter (\<lambda>r. tk_user_id r \<noteq> u) (token_table s)"
    "user_identities t = filter (\<lambda>r. ui_user_id r \<noteq> u) (user_identities s)" "savings_snapshots t u = None"
  unfolding delete_account_run(2) [OF assms] deleted_core_def by simp_all

lemma deletion_erased:
  assumes run: "delete_account E mail u s = (Inr (), t)" and u: "u \<noteq> ANON_SENTINEL_USER_ID" "u \<noteq> null_user" "ae_anon E u \<noteq> u"
  shows "erased u mail t"
proof -
  have kept: "list_all (\<lambda>r. f r \<noteq> u) (filter (\<lambda>r. f r \<noteq> u) rows)" for f :: "'r \<Rightarrow> uuid" and rows
    by (auto simp: list_all_iff)
  have codes: "list_all (\<lambda>r. rc_user_id r \<noteq> Some u) (map (\<lambda>r. if rc_user_id r = Some u then r\<lparr> rc_user_id := None \<rparr> else r) rows)" for rows
    by (auto simp: list_all_iff)
  have out: "list_all (\<lambda>x. renamed u w (f x) \<noteq> u) rows" if "w \<noteq> u" for f :: "'r \<Rightarrow> uuid" and rows w
    using that by (simp add: renamed_def list_all_iff)
  have links: "list_all (\<lambda>x. \<forall>z. ru_referred_user_id x = Some z \<longrightarrow> renamed u (ae_anon E u) z \<noteq> u) rows" for rows
    using moved_none [OF u(3)] by (simp add: list_all_iff)
  have "list_all (\<lambda>r. ob_user_id r \<noteq> u) (notification_outbox (core t))" unfolding deletion_state [OF run] deleted_fields by (rule kept)
  moreover have "list_all (\<lambda>r. rc_user_id r \<noteq> Some u) (referral_codes (core t))" unfolding deletion_state [OF run] deleted_fields by (rule codes)
  moreover have "list_all (\<lambda>r. tk_user_id r \<noteq> u) (token_table t)" "list_all (\<lambda>r. ui_user_id r \<noteq> u) (user_identities t)"
    unfolding deletion_state [OF run] by (rule kept)+
  moreover have "case users (core t) u of None \<Rightarrow> True | Some r \<Rightarrow> is_deleted r \<and> display_name r = None \<and> email r = mail u"
    unfolding deletion_state [OF run] deleted_fields by (simp split: option.split)
  ultimately show ?thesis
    using u unfolding erased_def Let_def
    by (simp add: deletion_state [OF run] deleted_fields list.pred_map comp_def out links rekey_progress_def not_sym)
qed

lemma deletion_run:
  assumes auth: "get_http_current_user E access s = (Inr u, s)" and run: "delete_account_endpoint E mail access s = (Inr (), t)"
  shows "delete_account E mail u s = (Inr (), t)"
  using run by (simp add: delete_account_endpoint_def bnd_run_Inr [of "get_http_current_user E access", OF auth])

lemma deleted_not_live:
  assumes "delete_account E mail u s = (Inr (), t)" and "get_account u s = Some (r, a)"
  shows "get_http_current_user F token t \<noteq> (Inr u, t)"
proof
  assume "get_http_current_user F token t = (Inr u, t)"
  then have "get_current_user F token t = (Inr u, t)"
    unfolding get_http_current_user_def by (auto split: acct_error.split elim!: catch_returns)
  then obtain q b where "get_account u t = Some (q, b)" "\<not> is_deleted q"
    by (auto simp: get_current_user_def split: option.splits prod.splits if_splits)
  with assms(2) show False
    by (auto simp: get_account_def deletion_state(1) [OF assms(1)] deleted_fields split: option.splits)
qed

text \<open>
  C3 (safety). Deleting an account leaves no row of the user in any table the deletion covers and a tombstone without a name:
  no access token of whatever age or environment authenticates the user again, no refresh token of the user can be exchanged,
  no subject of a provider leads to the account; the money and the progress of every other user are untouched.
\<close>

theorem deletion_erases:
  assumes auth: "get_http_current_user E access s = (Inr u, s)" and run: "delete_account_endpoint E mail access s = (Inr (), t)"
    and u: "u \<noteq> ANON_SENTINEL_USER_ID" "u \<noteq> null_user" "ae_anon E u \<noteq> u"
    and v: "v \<noteq> u" "v \<noteq> ANON_SENTINEL_USER_ID" "v \<noteq> ae_anon E u"
  shows "erased u mail t \<and> get_http_current_user F token t \<noteq> (Inr u, t)
    \<and> (validate_refresh F token t = (Inr r, w) \<longrightarrow> tk_user_id r \<noteq> u)
    \<and> (get_by_provider p i t = Some x \<longrightarrow> ui_user_id x \<noteq> u)
    \<and> same_money v (core s) (core t) \<and> same_progress v (core s) (core t)"
proof -
  note del = deletion_run [OF auth run]
  from auth have "get_current_user E access s = (Inr u, s)"
    unfolding get_http_current_user_def by (auto split: acct_error.split elim!: catch_returns)
  then obtain q a where "get_account u s = Some (q, a)"
    by (auto simp: get_current_user_def split: option.splits prod.splits if_splits)
  note gone = deleted_not_live [OF del this]
  have er: "erased u mail t" by (rule deletion_erased [OF del u])
  then show ?thesis
    using gone same_money_deleted [OF v(1,2)] same_progress_deleted [OF v(1,3)] validate_Inr [of F token t r w]
    by (auto simp: deletion_state(1) [OF del] erased_def list_all_iff get_by_provider_def dest!: find_Some_in)
qed

lemma demo_deletion: "\<exists>t. delete_account_endpoint (demo_auth 5) mail demo_access two_google = (Inr (), t)"
  by (simp add: delete_account_endpoint_def bnd_run_Inr [of "get_http_current_user (demo_auth 5) demo_access", OF two_google_auth]
      delete_account_def anonymize_user_id_def)
    (simp add: demo_auth_def strip_name_def)

theorem deletion_erases_witness:
  "\<exists>t. delete_account_endpoint (demo_auth 5) (\<lambda>_. ''x'') demo_access two_google = (Inr (), t) \<and> erased 7 (\<lambda>_. ''x'') t
     \<and> get_http_current_user (demo_auth 5) demo_access t \<noteq> (Inr 7, t) \<and> same_money 8 (core two_google) (core t)"
proof -
  obtain t where t: "delete_account_endpoint (demo_auth 5) (\<lambda>_. ''x'') demo_access two_google = (Inr (), t)" using demo_deletion by blast
  from deletion_erases [OF two_google_auth t, of 8 "demo_auth 5" demo_access undefined undefined undefined undefined undefined] t
  show ?thesis by (auto simp: demo_auth_def ANON_SENTINEL_USER_ID_def null_user_def)
qed



end
