(* ===== verification/Ratis_SubscriptionSafety.thy ===== *)
theory Ratis_SubscriptionSafety
  imports Ratis_Subscription Ratis_AccountSafety
begin

text \<open>
  What the subscriptions promise: the rows stay well formed and a user has one active and one pending row at most, whatever
  requests and events arrive; a paid checkout activates its row, unless its discount is half of the price or more; a
  repeated event of Stripe is ignored; and a referred user's payment marks the link as rewarded before the reward is asked for, so that the
  reward is never paid.
\<close>

section \<open>Rows\<close>

definition sub_row_ok :: "sub_row \<Rightarrow> bool" where
  "sub_row_ok r \<longleftrightarrow> sb_price r < 10 ^ 10 \<and> sb_status r \<in> set sub_statuses \<and> 0 < sb_price r
     \<and> (sb_paid_with r = ''cashback'' \<or> sb_payment_ref r \<noteq> None \<or> sb_status r \<notin> {''active'', ''expired''})
     \<and> (sb_status r = ''cancelled'' \<longleftrightarrow> sb_cancelled_at r \<noteq> None)
     \<and> (sb_discount_campaign_code r = None \<longleftrightarrow> sb_discount_amount r = None)
     \<and> (case sb_discount_amount r of None \<Rightarrow> True | Some d \<Rightarrow> 0 < d \<and> d < sb_price r)
     \<and> sb_started_at r < sb_expires_at r"

lemma sub_checks_ok: "sub_checks r s = (Inr (), t) \<longleftrightarrow> sub_row_ok r \<and> t = s"
  by (auto simp: sub_checks_def sub_row_ok_def split: option.splits)

lemma sub_checks_state: "snd (sub_checks r s) = s"
  by (simp add: sub_checks_def)

definition taken_by :: "string \<Rightarrow> sub_row list \<Rightarrow> sub_row \<Rightarrow> bool" where
  "taken_by status others r \<longleftrightarrow> sb_status r = status \<and> list_ex (\<lambda>x. sb_user_id x = sb_user_id r \<and> sb_status x = status) others"

lemma sub_unique_ok: "sub_unique others r s = (Inr (), t) \<longleftrightarrow> \<not> taken_by ''active'' others r \<and> \<not> taken_by ''pending'' others r \<and> t = s"
  by (auto simp: sub_unique_def taken_by_def)

definition used_code :: "clock \<Rightarrow> string \<Rightarrow> campaign_row list \<Rightarrow> campaign_row list" where
  "used_code ck code = update_where (\<lambda>c. dc_code c = code \<and> code_usable ck c) (\<lambda>c. c\<lparr> dc_uses_count := dc_uses_count c + 1 \<rparr>)"

text \<open>The row that becomes active uses its code, any other change none.\<close>

definition code_of_change :: "string option \<Rightarrow> sub_row \<Rightarrow> string option" where
  "code_of_change old r = (if sb_status r \<noteq> ''active'' \<or> old = Some ''active'' then None else sb_discount_campaign_code r)"

definition campaigns_after :: "clock \<Rightarrow> string option \<Rightarrow> campaign_row list \<Rightarrow> campaign_row list" where
  "campaigns_after ck code cs = (case code of None \<Rightarrow> cs | Some c \<Rightarrow> used_code ck c cs)"

lemma increment_Inr:
  "increment_discount_uses ck old r s = (Inr (), t) \<longleftrightarrow>
     (case code_of_change old r of None \<Rightarrow> True | Some c \<Rightarrow> list_ex (\<lambda>x. dc_code x = c \<and> code_usable ck x) (campaigns s))
     \<and> t = s\<lparr> campaigns := campaigns_after ck (code_of_change old r) (campaigns s) \<rparr>"
  by (auto simp: increment_discount_uses_def code_of_change_def campaigns_after_def used_code_def split: option.splits)

definition with_subs :: "sub_row list \<Rightarrow> acct_db \<Rightarrow> acct_db" where
  "with_subs rows s = s\<lparr> sub_rows := rows, core := (core s)\<lparr> subscriptions := map sub_view rows \<rparr> \<rparr>"

lemma set_subs_run [simp]: "set_subs rows s = (Inr (), with_subs rows s)"
  by (simp add: set_subs_def with_subs_def)

lemma with_subs_simps [simp]:
  "sub_rows (with_subs rows s) = rows" "subscriptions (core (with_subs rows s)) = map sub_view rows"
  "campaigns (with_subs rows s) = campaigns s" "stripe_events (with_subs rows s) = stripe_events s"
  "referral_uses (core (with_subs rows s)) = referral_uses (core s)" "next_uuid (core (with_subs rows s)) = next_uuid (core s)"
  by (simp_all add: with_subs_def)

lemma insert_sub_Inr:
  "insert_sub ck r s = (Inr (), t) \<longleftrightarrow>
     (case code_of_change None r of None \<Rightarrow> True | Some c \<Rightarrow> list_ex (\<lambda>x. dc_code x = c \<and> code_usable ck x) (campaigns s))
     \<and> sub_row_ok r \<and> sb_id r \<notin> sb_id ` set (sub_rows s)
     \<and> \<not> taken_by ''active'' (sub_rows s) r \<and> \<not> taken_by ''pending'' (sub_rows s) r
     \<and> t = with_subs (sub_rows s @ [r]) (s\<lparr> campaigns := campaigns_after ck (code_of_change None r) (campaigns s) \<rparr>)"
  unfolding insert_sub_def seq_Inr_iff bnd_Inr_iff
  by (auto simp: increment_Inr sub_checks_ok sub_unique_ok split: if_splits)

lemma update_sub_Inr:
  assumes "sub_by_id i s = Some r"
  shows "update_sub ck i f s = (Inr (), t) \<longleftrightarrow>
     (case code_of_change (Some (sb_status r)) (f r) of None \<Rightarrow> True
        | Some c \<Rightarrow> list_ex (\<lambda>x. dc_code x = c \<and> code_usable ck x) (campaigns s))
     \<and> sub_row_ok (f r) \<and> \<not> taken_by ''active'' (filter (\<lambda>x. sb_id x \<noteq> i) (sub_rows s)) (f r)
     \<and> \<not> taken_by ''pending'' (filter (\<lambda>x. sb_id x \<noteq> i) (sub_rows s)) (f r)
     \<and> t = with_subs (update_where (\<lambda>x. sb_id x = i) f (sub_rows s))
         (s\<lparr> campaigns := campaigns_after ck (code_of_change (Some (sb_status r)) (f r)) (campaigns s) \<rparr>)"
  using assms unfolding update_sub_def
  by (auto simp: seq_Inr_iff bnd_Inr_iff increment_Inr sub_checks_ok sub_unique_ok)


section \<open>The invariant\<close>

definition one_per_user :: "string \<Rightarrow> sub_row list \<Rightarrow> bool" where
  "one_per_user status rows \<longleftrightarrow> distinct (map sb_user_id (filter (\<lambda>r. sb_status r = status) rows))"

definition campaign_ok :: "campaign_row \<Rightarrow> bool" where
  "campaign_ok c \<longleftrightarrow> (case dc_max_uses c of None \<Rightarrow> True | Some m \<Rightarrow> dc_uses_count c \<le> m)"

definition subs_ok :: "acct_db \<Rightarrow> bool" where
  "subs_ok s \<longleftrightarrow> distinct (map sb_id (sub_rows s)) \<and> list_all sub_row_ok (sub_rows s)
     \<and> one_per_user ''active'' (sub_rows s) \<and> one_per_user ''pending'' (sub_rows s)
     \<and> subscriptions (core s) = map sub_view (sub_rows s) \<and> list_all campaign_ok (campaigns s)"

lemma campaigns_after_ok: "list_all campaign_ok cs \<Longrightarrow> list_all campaign_ok (campaigns_after ck code cs)"
  by (auto simp: campaigns_after_def used_code_def list_all_iff set_update_where campaign_ok_def code_usable_def split: option.splits)

lemma one_per_user_append: "one_per_user st rows \<Longrightarrow> \<not> taken_by st rows r \<Longrightarrow> one_per_user st (rows @ [r])"
  by (auto simp: one_per_user_def taken_by_def list_ex_iff)

lemma one_per_user_update:
  assumes "distinct (map sb_id rows)" and "r \<in> set rows" and "one_per_user st rows"
    and "\<not> taken_by st (filter (\<lambda>x. sb_id x \<noteq> sb_id r) rows) (f r)" and "\<And>x. sb_id (f x) = sb_id x"
  shows "one_per_user st (update_where (\<lambda>x. sb_id x = sb_id r) f rows)"
  using assms
proof (induction rows)
  case (Cons x rows)
  show ?case
  proof (cases "sb_id x = sb_id r")
    case True
    with Cons.prems have "x = r" "\<And>y. y \<in> set rows \<Longrightarrow> sb_id y \<noteq> sb_id r" by (auto simp: rev_image_eqI)
    then have "update_where (\<lambda>y. sb_id y = sb_id r) f rows = rows" "filter (\<lambda>x. sb_id x \<noteq> sb_id r) rows = rows"
      by (auto intro!: update_where_none filter_True)
    with Cons.prems \<open>x = r\<close> show ?thesis by (auto simp: one_per_user_def taken_by_def list_ex_iff split: if_splits)
  next
    case False
    let ?up = "update_where (\<lambda>y. sb_id y = sb_id r) f rows"
    from Cons.prems False have rest: "distinct (map sb_id rows)" "r \<in> set rows" "one_per_user st rows"
      "\<not> taken_by st (filter (\<lambda>x. sb_id x \<noteq> sb_id r) rows) (f r)"
      by (auto simp: one_per_user_def taken_by_def split: if_splits)
    note IH = Cons.IH [OF rest Cons.prems(5)]
    have "sb_user_id x \<notin> sb_user_id ` set (filter (\<lambda>r. sb_status r = st) ?up)" if "sb_status x = st"
    proof
      assume "sb_user_id x \<in> sb_user_id ` set (filter (\<lambda>r. sb_status r = st) ?up)"
      then obtain y where y: "y \<in> set rows" "sb_status (if sb_id y = sb_id r then f y else y) = st"
        "sb_user_id x = sb_user_id (if sb_id y = sb_id r then f y else y)" by (auto simp: set_update_where)
      show False
      proof (cases "sb_id y = sb_id r")
        case True
        with rest y(1) have "y = r" using eq_key_imp_eq_value [of _ rows] by (metis distinct_map inj_on_eq_iff)
        with y True Cons.prems(4) False that show ?thesis by (auto simp: taken_by_def)
      next
        case False
        with y that Cons.prems(3) show ?thesis by (auto simp: one_per_user_def)
      qed
    qed
    with IH False show ?thesis by (auto simp: one_per_user_def)
  qed
qed simp

lemma preserves_insert_sub: "preserves subs_ok (insert_sub ck r)"
proof (rule preservesI)
  fix s z t assume "subs_ok s" and "insert_sub ck r s = (Inr z, t)"
  then show "subs_ok t"
    by (cases z) (auto simp: insert_sub_Inr subs_ok_def campaigns_after_ok one_per_user_append)
qed

lemma preserves_update_sub:
  assumes f: "\<And>x. sb_id (f x) = sb_id x"
  shows "preserves subs_ok (update_sub ck i f)"
proof (rule preservesI)
  fix s z t assume ok: "subs_ok s" and run: "update_sub ck i f s = (Inr z, t)"
  show "subs_ok t"
  proof (cases "sub_by_id i s")
    case None
    with run ok show ?thesis by (simp add: update_sub_def)
  next
    case (Some r)
    then have r: "r \<in> set (sub_rows s)" "sb_id r = i" by (auto simp: sub_by_id_def dest: find_Some_in)
    from run have "update_sub ck i f s = (Inr (), t)" by (cases z) simp
    note t = this [unfolded update_sub_Inr [OF Some]]
    have ids: "map sb_id (update_where (\<lambda>x. sb_id x = i) f (sub_rows s)) = map sb_id (sub_rows s)"
      by (rule map_update_where) (rule f)
    have same: "x = r" if "x \<in> set (sub_rows s)" "sb_id x = i" for x
      using ok that r unfolding subs_ok_def by (metis distinct_map inj_on_eq_iff)
    have rows: "list_all sub_row_ok (update_where (\<lambda>x. sb_id x = i) f (sub_rows s))"
      using ok t same by (auto simp: subs_ok_def list_all_iff set_update_where)
    have one: "one_per_user st (update_where (\<lambda>x. sb_id x = i) f (sub_rows s))" if "st \<in> {''active'', ''pending''}" for st
      using one_per_user_update [of "sub_rows s" r st f] ok r t f that by (auto simp: subs_ok_def)
    from t ok ids rows one show ?thesis
      by (auto simp: subs_ok_def campaigns_after_ok)
  qed
qed

datatype sub_request =
    Subscribe auth_env stripe_env string string "string option" string
  | Cancel_Subscription auth_env stripe_env string
  | Stripe_Event stripe_env "stripe_event option"
  | Admin_Activate clock string uuid "day option"
  | Admin_Deactivate clock uuid string
  | Admin_Extend clock uuid day

text \<open>The answer of a request, as far as it matters here, is the list of background tasks it starts.\<close>

fun sub_step :: "sub_request \<Rightarrow> background_task list acct_op" where
  "sub_step (Subscribe A E access plan code currency) = seq (subscribe A E access plan code currency) (ret [])"
| "sub_step (Cancel_Subscription A E access) = seq (cancel_subscription A E access) (ret [])"
| "sub_step (Stripe_Event E event) = stripe_webhook E event"
| "sub_step (Admin_Activate ck ref u d) = seq (admin_activate_subscription ck ref u d) (ret [])"
| "sub_step (Admin_Deactivate ck u effective) = seq (admin_deactivate_subscription ck u effective) (ret [])"
| "sub_step (Admin_Extend ck u d) = seq (admin_extend_subscription ck u d) (ret [])"

lemma keeps_fresh_subs: "keeps subs_ok (on_core fresh_uuid)"
  by (rule keepsI) (auto simp: subs_ok_def)

lemma keeps_modify_subs:
  "(\<And>s. sub_rows (f s) = sub_rows s \<and> campaigns (f s) = campaigns s \<and> subscriptions (core (f s)) = subscriptions (core s)) \<Longrightarrow>
     keeps subs_ok (modify f)"
  by (intro keeps_modify) (simp add: subs_ok_def)

lemma preserves_sub_cancel: "preserves subs_ok (sub_cancel ck i)"
  unfolding sub_cancel_def by (rule preserves_update_sub) simp

lemma set_referral_plan_frame [simp]:
  "subscriptions (set_referral_plan u p c) = subscriptions c" "next_uuid (set_referral_plan u p c) = next_uuid c"
  "map ru_id (referral_uses (set_referral_plan u p c)) = map ru_id (referral_uses c)"
  "map ru_referred_user_id (referral_uses (set_referral_plan u p c)) = map ru_referred_user_id (referral_uses c)"
  by (auto simp: set_referral_plan_def map_update_where split: option.split)

lemma preserves_checkout_completed: "preserves subs_ok (handle_checkout_completed E cs)"
proof -
  have "preserves subs_ok (modify (\<lambda>s. s\<lparr> core := set_referral_plan u p (core s) \<rparr>))" for u p
    by (intro keeps_preserves keeps_modify_subs) simp
  moreover have "preserves subs_ok (update_sub ck i (activated ref a b n))" for ck i ref a b n
    by (rule preserves_update_sub) (simp add: activated_def)
  ultimately show ?thesis
    unfolding handle_checkout_completed_def
    by (auto split: option.split ref_text.split intro!: preserves_intro)
qed

lemma preserves_checkout_expired: "preserves subs_ok (handle_checkout_expired E cs)"
  unfolding handle_checkout_expired_def cancel_by_stripe_session_def void_def
  by (intro preserves_intro preserves_sub_cancel)

lemma keeps_triggers: "keeps subs_ok (maybe_trigger_referral E cs)" "keeps subs_ok (maybe_trigger_annual_gift_card cs)"
  unfolding maybe_trigger_referral_def maybe_trigger_annual_gift_card_def
  by (intro keeps_bnd keeps_reads keeps_case_option keeps_ret keeps_if keeps_seq keeps_modify_subs; simp)+

lemma keeps_webhook: "keeps subs_ok (stripe_webhook E event)"
proof -
  have "keeps subs_ok (claim_stripe_event i ty)" for i ty
    unfolding claim_stripe_event_def by (intro keeps_bnd keeps_reads keeps_if keeps_ret keeps_seq keeps_modify_subs) simp
  then show ?thesis
    unfolding stripe_webhook_def
    by (intro keeps_case_option keeps_throw keeps_bnd keeps_if keeps_ret keeps_seq keeps_triggers
        preserves_transaction [OF preserves_checkout_completed] preserves_transaction [OF preserves_checkout_expired])
qed

lemma keeps_checkout: "keeps subs_ok (create_checkout E u plan code currency)"
proof -
  have "keeps subs_ok (checked_discount E price code)" for price
    unfolding checked_discount_def validate_discount_def
    by (intro keeps_case_option keeps_ret keeps_if keeps_bnd keeps_reads keeps_throw keeps_seq keeps_guard)
  moreover have "keeps subs_ok (db_transaction (sub_create_pending ck i u plan session price discount until))" for ck i session price discount until
    unfolding sub_create_pending_def by (rule preserves_transaction [OF preserves_insert_sub])
  ultimately show ?thesis
    unfolding create_checkout_def Let_def
    by (intro keeps_bnd keeps_reads keeps_seq keeps_guard keeps_fresh_subs) (auto split: option.split intro!: keeps_throw keeps_seq keeps_ret)
qed

lemma keeps_admin_subs:
  "keeps subs_ok (admin_activate_subscription ck ref u d)" "keeps subs_ok (admin_deactivate_subscription ck u effective)"
  "keeps subs_ok (admin_extend_subscription ck u day)"
proof -
  have upd: "preserves subs_ok (update_sub ck i (manual_grant ck ref until))" for i until
    by (rule preserves_update_sub) (simp add: manual_grant_def)
  have activate: "preserves subs_ok (activate_subscription ck ref u x)" for x
    unfolding activate_subscription_def Let_def
    by (intro preserves_bnd preserves_reads preserves_case_option keeps_preserves [OF keeps_fresh_subs] preserves_insert_sub preserves_seq
        preserves_guard upd)
  have deactivate: "preserves subs_ok (deactivate_subscription ck u effective)"
    unfolding deactivate_subscription_def get_subscription_def
    by (intro preserves_bnd preserves_reads preserves_case_option preserves_throw preserves_ret preserves_if preserves_update_sub) simp
  have extend: "preserves subs_ok (extend_subscription ck u x)" for x
    unfolding extend_subscription_def get_subscription_def
    by (intro preserves_bnd preserves_reads preserves_case_option preserves_throw preserves_ret preserves_seq preserves_guard preserves_update_sub) simp
  show "keeps subs_ok (admin_activate_subscription ck ref u d)" "keeps subs_ok (admin_deactivate_subscription ck u effective)"
    "keeps subs_ok (admin_extend_subscription ck u day)"
    unfolding admin_activate_subscription_def admin_deactivate_subscription_def admin_extend_subscription_def
    by (intro keeps_if keeps_throw keeps_catch_throws preserves_transaction activate deactivate extend; auto split: acct_error.split)+
qed

lemma keeps_sub_step: "keeps subs_ok (sub_step c)"
proof (cases c)
  case (Subscribe A E access plan code currency)
  show ?thesis unfolding Subscribe sub_step.simps subscribe_def
    by (intro keeps_seq keeps_bnd keeps_auth keeps_if keeps_throw keeps_ret keeps_catch_throws keeps_checkout) (auto split: acct_error.split)
next
  case (Cancel_Subscription A E access)
  show ?thesis unfolding Cancel_Subscription sub_step.simps cancel_subscription_def cancel_active_def
    by (intro keeps_seq keeps_bnd keeps_auth keeps_reads keeps_case_option keeps_throw keeps_guard keeps_ret keeps_catch_throws
        preserves_transaction [OF preserves_sub_cancel]) (auto split: acct_error.split)
qed (simp_all add: keeps_webhook keeps_seq keeps_admin_subs)

interpretation subs: kept_invariant sub_step subs_ok
  by unfold_locales (rule keeps_snd [OF keeps_sub_step])

text \<open>
  C5 (invariant). Whatever checkouts, payments, expiries, cancellations and decisions of operators arrive, in any order and however
  they end, every subscription row satisfies the constraints of its table, a user has at most one active and one pending row,
  the rewards service reads the same rows, and no discount code is used more often than it may.
\<close>

theorem subscriptions_well_formed:
  assumes "subs_ok s" and "exec_all sub_step cs s = (rs, t)"
  shows "list_all sub_row_ok (sub_rows t)
    \<and> (\<forall>x \<in> set (sub_rows t). \<forall>y \<in> set (sub_rows t). sb_user_id x = sb_user_id y \<longrightarrow> sb_status x = sb_status y
         \<longrightarrow> sb_status x \<in> {''active'', ''pending''} \<longrightarrow> x = y)
    \<and> subscriptions (core t) = map sub_view (sub_rows t)
    \<and> (\<forall>c \<in> set (campaigns t). \<forall>m. dc_max_uses c = Some m \<longrightarrow> dc_uses_count c \<le> m)"
proof -
  have ok: "subs_ok t" by (rule subs.exec_all_keeps [OF assms])
  have "x = y" if "one_per_user st (sub_rows t)" "x \<in> set (sub_rows t)" "y \<in> set (sub_rows t)" "sb_user_id x = sb_user_id y"
    "sb_status x = st" "sb_status y = st" for x y st
    using that unfolding one_per_user_def distinct_map by (auto dest: inj_onD)
  with ok show ?thesis by (auto simp: subs_ok_def list_all_iff campaign_ok_def)
qed

section \<open>Checkout and payment\<close>

definition pending_row :: "int option \<Rightarrow> sub_row" where
  "pending_row discount = \<lparr> sb_id = 4, sb_user_id = 7, sb_status = ''pending'', sb_plan = Some ''monthly'',
     sb_stripe_session_id = Some ''cs'', sb_price = 1199, sb_paid_with = ''stripe'', sb_payment_ref = None,
     sb_discount_campaign_code = map_option (\<lambda>_. ''HALF'') discount, sb_discount_amount = discount, sb_started_at = 0, sb_expires_at = 50,
     sb_cancelled_at = None \<rparr>"

definition pending_demo :: "int option \<Rightarrow> acct_db" where
  "pending_demo discount = with_subs [pending_row discount]
     (two_google\<lparr> campaigns := [\<lparr> dc_code = ''HALF'', dc_type = ''fixed'', dc_value = 700, dc_valid_from = None, dc_valid_until = None,
       dc_max_uses = Some 10, dc_uses_count = 0, dc_is_public = True \<rparr>],
       core := (core two_google)\<lparr> referral_codes := [\<lparr> rc_id = 5, rc_user_id = Some 8, rc_code = ''CODE'', rc_type = ''user'', rc_created_at = 0 \<rparr>],
         referral_uses := [\<lparr> ru_id = 6, ru_referral_id = 5, ru_referred_user_id = Some 7, ru_plan = None, ru_rewarded_at = None,
           ru_created_at = 0 \<rparr>] \<rparr> \<rparr>)"

definition demo_stripe :: stripe_env where
  "demo_stripe = \<lparr> st_clock = demo_clock\<lparr> now := 10 \<rparr>, st_create = (\<lambda>price currency i. Some (''cs'', Some ''https'')), st_cancel = (\<lambda>_. Cancelled),
     st_plus_month = (\<lambda>t. t + 31 * day_us), st_plus_year = (\<lambda>t. t + 365 * day_us), st_price_monthly = 1199, st_price_annual = 11900 \<rparr>"

definition paid_event :: "int \<Rightarrow> stripe_event" where
  "paid_event amount = \<lparr> we_id = ''evt'', we_type = ''checkout.session.completed'',
     we_session = \<lparr> cs_id = ''cs'', cs_subscription_id = Some (UuidText 4), cs_payment_intent = Some ''pi'', cs_amount_total = Some amount \<rparr> \<rparr>"

lemma pending_demo_rows [simp]:
  "sub_rows (pending_demo d) = [pending_row d]" "sub_by_id 4 (pending_demo d) = Some (pending_row d)"
  "latest_sub 7 (pending_demo d) = Some (pending_row d)" "subscriptions (core (pending_demo d)) = [sub_view (pending_row d)]"
  by (simp_all add: pending_demo_def sub_by_id_def latest_sub_def pending_row_def)

lemma pending_demo_ok: "subs_ok (pending_demo None)"
proof -
  have "list_all campaign_ok (campaigns (pending_demo None))" by (simp add: pending_demo_def campaign_ok_def)
  then show ?thesis by (simp add: subs_ok_def one_per_user_def) (simp add: pending_row_def sub_row_ok_def sub_statuses_def)
qed

theorem subscriptions_well_formed_witness:
  "\<exists>t. exec_all sub_step [Admin_Activate demo_clock ''op'' 7 (Some 30000)] (pending_demo None) = ([Inr []], t)
     \<and> list_all sub_row_ok (sub_rows t) \<and> map sb_status (sub_rows t) = [''active'']"
proof -
  have st: "sb_status (pending_row None) = ''pending''" "sb_id (pending_row None) = 4" by (simp_all add: pending_row_def)
  have "now demo_clock < date_to_eod 30000" by (simp add: demo_clock_def date_to_eod_def)
  then have row: "sub_row_ok (manual_grant demo_clock ''op'' (date_to_eod 30000) (pending_row None))"
    by (simp add: pending_row_def manual_grant_def sub_row_ok_def sub_statuses_def)
  have code: "code_of_change (Some ''pending'') (manual_grant demo_clock ''op'' (date_to_eod 30000) (pending_row None)) = None"
    "sb_status (manual_grant demo_clock ''op'' (date_to_eod 30000) (pending_row None)) = ''active''"
    by (simp_all add: code_of_change_def manual_grant_def pending_row_def)
  define t where "t = with_subs (update_where (\<lambda>x. sb_id x = 4) (manual_grant demo_clock ''op'' (date_to_eod 30000)) [pending_row None])
    ((pending_demo None)\<lparr> campaigns := campaigns_after demo_clock None (campaigns (pending_demo None)) \<rparr>)"
  have t: "update_sub demo_clock 4 (manual_grant demo_clock ''op'' (date_to_eod 30000)) (pending_demo None) = (Inr (), t)"
    unfolding update_sub_Inr [OF pending_demo_rows(2)] pending_demo_rows(1) st code t_def
    by (intro conjI refl row) (simp_all add: taken_by_def code st)
  have t2: "map sb_status (sub_rows t) = [''active'']" by (simp add: t_def st code)
  have "activate_subscription demo_clock ''op'' 7 (Some (date_to_eod 30000)) (pending_demo None) = (Inr (), t)"
    by (simp add: activate_subscription_def Let_def st t)
  then have "exec_all sub_step [Admin_Activate demo_clock ''op'' 7 (Some 30000)] (pending_demo None) = ([Inr []], t)"
    by (simp add: admin_activate_subscription_def seq_def bnd_def catch_def db_transaction_def)
  with subscriptions_well_formed [OF pending_demo_ok this] t2 show ?thesis by (intro exI [of _ t]) simp
qed

lemma claim_new: "we_id ev \<notin> fst ` set (stripe_events s) \<Longrightarrow> claim_stripe_event (we_id ev) (we_type ev) s
    = (Inr True, s\<lparr> stripe_events := stripe_events s @ [(we_id ev, we_type ev)] \<rparr>)"
  by (simp add: claim_stripe_event_def)

text \<open>A delivery of an event that was claimed before does nothing.\<close>

lemma redelivery_ignored: "we_id ev \<in> fst ` set (stripe_events s) \<Longrightarrow> stripe_webhook E (Some ev) s = (Inr [], s)"
  by (simp add: stripe_webhook_def claim_stripe_event_def bnd_def)

text \<open>A checkout session that pays a pending row.\<close>

definition pays :: "stripe_event \<Rightarrow> uuid \<Rightarrow> int \<Rightarrow> string \<Rightarrow> bool" where
  "pays ev i amount ref \<longleftrightarrow> we_type ev = ''checkout.session.completed'' \<and> cs_subscription_id (we_session ev) = Some (UuidText i)
     \<and> cs_amount_total (we_session ev) = Some amount \<and> cs_payment_intent (we_session ev) = Some ref"

lemma completed_run:
  assumes "pays ev i amount ref" and "sub_by_id i s = Some r" and "sb_status r = ''pending''"
  shows "handle_checkout_completed E (we_session ev) s =
    seq (update_sub (st_clock E) i (activated (Some ref) (now (st_clock E)) (plan_end E (sb_plan r)) amount))
      (modify (\<lambda>s. s\<lparr> core := set_referral_plan (sb_user_id r) (sb_plan r) (core s) \<rparr>)) s"
  using assms by (simp add: handle_checkout_completed_def pays_def)

lemma webhook_run:
  assumes "pays ev i amount ref" and "we_id ev \<notin> fst ` set (stripe_events s)"
  shows "stripe_webhook E (Some ev) s = seq (db_transaction (handle_checkout_completed E (we_session ev)))
      (bnd (maybe_trigger_referral E (we_session ev)) (\<lambda>xs. bnd (maybe_trigger_annual_gift_card (we_session ev)) (\<lambda>ys. ret (xs @ ys))))
      (s\<lparr> stripe_events := stripe_events s @ [(we_id ev, we_type ev)] \<rparr>)"
proof -
  from assms(1) have ty: "we_type ev = ''checkout.session.completed''" by (simp add: pays_def)
  show ?thesis
    by (simp add: stripe_webhook_def ty bnd_run_Inr [of "claim_stripe_event (we_id ev) ''checkout.session.completed''",
      OF claim_new [OF assms(2), unfolded ty]])
qed

lemma sub_by_id_events [simp]: "sub_by_id i (s\<lparr> stripe_events := x \<rparr>) = sub_by_id i s"
  by (simp add: sub_by_id_def)

text \<open>
  C7 (error). A discount of half the catalogue price or more loses the payment: the amount paid becomes the price of the row
  while its discount stays, the row breaks the constraint that the discount is below the price, and the event that says so is
  already claimed, so that every later delivery is acknowledged and the paid row stays pending.
\<close>

theorem discounted_payment_lost:
  assumes row: "sub_by_id i s = Some r" "sb_status r = ''pending''" "sub_row_ok r"
    and half: "sb_discount_amount r = Some d" "sb_price r \<le> 2 * d"
    and code: "sb_discount_campaign_code r = Some c" "list_ex (\<lambda>x. dc_code x = c \<and> code_usable (st_clock E) x) (campaigns s)"
    and ev: "pays ev i (final_price (sb_price r) (Some (c, d))) ref" "we_id ev \<notin> fst ` set (stripe_events s)"
  shows "\<exists>t. stripe_webhook E (Some ev) s = (Inl (Core (IntegrityError ''discount_not_exceed_price'')), t)
    \<and> sub_by_id i t = Some r \<and> core t = core s
    \<and> (\<forall>later. stripe_webhook later (Some ev) t = (Inr [], t))"
proof -
  let ?s = "s\<lparr> stripe_events := stripe_events s @ [(we_id ev, we_type ev)] \<rparr>"
  let ?f = "activated (Some ref) (now (st_clock E)) (plan_end E (sb_plan r)) (sb_price r - d)"
  have d: "0 < d" "d < sb_price r" "sb_price r < 10 ^ 10" "sb_cancelled_at r = None"
    using row half code by (auto simp: sub_row_ok_def)
  have "fst (update_sub (st_clock E) i ?f ?s) = Inl (Core (IntegrityError ''discount_not_exceed_price''))"
    using row half d code
    by (simp add: update_sub_def increment_discount_uses_def activated_def sub_checks_def sub_statuses_def seq_def bnd_def guard_def check_def
        reads_def modify_def throw_def ret_def)
  then obtain w where fail: "update_sub (st_clock E) i ?f ?s = (Inl (Core (IntegrityError ''discount_not_exceed_price'')), w)"
    by (metis fst_conv surj_pair)
  have amount: "final_price (sb_price r) (Some (c, d)) = sb_price r - d" by (simp add: final_price_def)
  have "handle_checkout_completed E (we_session ev) ?s = (Inl (Core (IntegrityError ''discount_not_exceed_price'')), w)"
    unfolding completed_run [OF ev(1) row(1) [folded sub_by_id_events [of i "stripe_events s @ [(we_id ev, we_type ev)]" s]] row(2)] amount
    by (rule seq_run_Inl [of "update_sub (st_clock E) i ?f", OF fail])
  then have "stripe_webhook E (Some ev) s = (Inl (Core (IntegrityError ''discount_not_exceed_price'')), ?s)"
    unfolding webhook_run [OF ev] by (intro seq_run_Inl) (simp add: db_transaction_def)
  moreover have "stripe_webhook later (Some ev) ?s = (Inr [], ?s)" for later by (rule redelivery_ignored) simp
  ultimately show ?thesis using row(1) by auto
qed

theorem discounted_payment_lost_witness:
  "\<exists>t. stripe_webhook demo_stripe (Some (paid_event 499)) (pending_demo (Some 700))
      = (Inl (Core (IntegrityError ''discount_not_exceed_price'')), t)
    \<and> map sb_status (sub_rows (pending_demo (Some 700))) = [''pending''] \<and> sub_by_id 4 t = Some (pending_row (Some 700))
    \<and> stripe_webhook demo_stripe (Some (paid_event 499)) t = (Inr [], t)"
proof -
  have row: "sb_status (pending_row (Some 700)) = ''pending''" "sub_row_ok (pending_row (Some 700))"
    "sb_discount_amount (pending_row (Some 700)) = Some 700" "sb_price (pending_row (Some 700)) \<le> 2 * 700"
    "sb_discount_campaign_code (pending_row (Some 700)) = Some ''HALF''"
    by (simp_all add: pending_row_def sub_row_ok_def sub_statuses_def)
  have usable: "list_ex (\<lambda>x. dc_code x = ''HALF'' \<and> code_usable (st_clock demo_stripe) x) (campaigns (pending_demo (Some 700)))"
    by (simp add: pending_demo_def code_usable_def)
  have ev: "pays (paid_event 499) 4 (final_price (sb_price (pending_row (Some 700))) (Some (''HALF'', 700))) ''pi''"
    by (simp add: pays_def paid_event_def pending_row_def final_price_def)
  have new: "we_id (paid_event 499) \<notin> fst ` set (stripe_events (pending_demo (Some 700)))"
    by (simp add: pending_demo_def two_google_def empty_acct_def)
  from discounted_payment_lost [OF pending_demo_rows(2) row(1-4) row(5) usable ev new] row(1) show ?thesis by auto
qed

lemma find_unique:
  assumes "x \<in> set xs" and "\<And>y. y \<in> set xs \<Longrightarrow> p y \<Longrightarrow> y = x" and "p x"
  shows "List.find p xs = Some x"
proof (cases "List.find p xs")
  case None
  with assms(1,3) show ?thesis by (simp add: find_None_iff)
next
  case (Some y)
  with find_Some_in [OF Some] assms(2) [of y] show ?thesis by simp
qed




section \<open>The reward of a referral\<close>

text \<open>The unique constraints of \<open>referral_uses\<close>.\<close>

definition links_ok :: "db \<Rightarrow> bool" where
  "links_ok c \<longleftrightarrow> distinct (map ru_id (referral_uses c)) \<and> distinct (filter (\<lambda>x. x \<noteq> None) (map ru_referred_user_id (referral_uses c)))"

definition all_marked :: "uuid \<Rightarrow> db \<Rightarrow> bool" where
  "all_marked u c \<longleftrightarrow> list_all (\<lambda>x. ru_referred_user_id x = Some u \<longrightarrow> ru_rewarded_at x \<noteq> None) (referral_uses c)"

text \<open>A link that is already marked is not rewarded: nothing is written and nobody is paid.\<close>

lemma snd_on_core: "snd (on_core m s) = s\<lparr> core := snd (m (core s)) \<rparr>"
  by (auto simp: on_core_def split: prod.split sum.split)

lemma snd_swallow: "catch m (\<lambda>_. ret ()) s = (Inr (), snd (m s))"
  by (auto simp: catch_def split: prod.split sum.split)

lemma marked_link_unpaid:
  assumes ok: "links_ok c" and marked: "all_marked u c"
  shows "snd (referral_trigger pg ck cfg u plan c) = c"
proof -
  have "snd (db_transaction (handle_subscription_referral pg ck cfg u plan) c) = c"
  proof (cases "get_for_referred_user u c")
    case (Some l)
    from get_for_referred_user_Some [OF Some] obtain x where x: "find_use_of u c = Some x" "rl_referral_use_id l = ru_id x" .
    from find_use_of_Some [OF x(1)] have mem: "x \<in> set (referral_uses c)" "ru_referred_user_id x = Some u" by auto
    have "List.find (\<lambda>r. ru_id r = ru_id x) (referral_uses c) = Some x"
      by (rule find_distinct_key) (use ok mem in \<open>auto simp: links_ok_def\<close>)
    moreover have "ru_rewarded_at x \<noteq> None" using marked mem by (auto simp: all_marked_def list_all_iff)
    ultimately have "mark_rewarded ck (ru_id x) plan c = (Inr False, c)" by (auto simp: mark_rewarded_def)
    then show ?thesis
      by (auto simp: handle_subscription_referral_def Some x(2) db_transaction_def bnd_def split: option.split)
  qed (simp add: handle_subscription_referral_def db_transaction_def split: option.split)
  then show ?thesis by (auto simp: referral_trigger_def snd_void)
qed

lemma run_reward_unpaid:
  assumes "links_ok (core t)" and "all_marked u (core t)"
  shows "run_task reachable T ck (Referral_Reward u plan) t = (Inr (), t)"
  using marked_link_unpaid [OF assms]
  by (simp add: run_task_def trigger_referral_reward_def snd_swallow snd_on_core)

lemma links_plan: "links_ok c \<Longrightarrow> links_ok (set_referral_plan u p c)"
  by (simp add: links_ok_def)

lemma links_frame: "referral_uses d = referral_uses c \<Longrightarrow> links_ok d = links_ok c"
  by (simp add: links_ok_def)

lemma update_sub_uses: "keeps (\<lambda>s. referral_uses (core s) = c) (update_sub ck i f)"
  unfolding update_sub_def increment_discount_uses_def sub_checks_def sub_unique_def set_subs_def
  by (intro keeps_intro keeps_modify) simp_all

lemma completed_links: "keeps (\<lambda>s. links_ok (core s)) (handle_checkout_completed E cs)"
proof -
  have "keeps (\<lambda>s. links_ok (core s)) (update_sub ck i f)" for ck i f
    by (rule keeps_frame [OF update_sub_uses]) (rule links_frame)
  moreover have "keeps (\<lambda>s. links_ok (core s)) (modify (\<lambda>s. s\<lparr> core := set_referral_plan u p (core s) \<rparr>))" for u p
    by (intro keeps_modify) (simp add: links_plan)
  ultimately show ?thesis unfolding handle_checkout_completed_def
    by (auto split: option.split ref_text.split intro!: keeps_if keeps_seq keeps_bnd keeps_reads keeps_ret keeps_throw)
qed

text \<open>The trigger marks the one link of the user.\<close>

lemma trigger_marks:
  assumes links: "links_ok (core s)" and run: "maybe_trigger_referral E cs s = (Inr tasks, t)"
  shows "tasks = [] \<and> t = s \<or> (\<exists>u plan. tasks = [Referral_Reward u plan] \<and> links_ok (core t) \<and> all_marked u (core t)
    \<and> (\<exists>x \<in> set (referral_uses (core t)). ru_referred_user_id x = Some u \<and> ru_rewarded_at x \<noteq> None))"
proof (cases "tasks = []")
  case True
  with run show ?thesis by (auto simp: maybe_trigger_referral_def split: option.splits if_splits)
next
  case False
  with run obtain u plan x where tasks: "tasks = [Referral_Reward u plan]"
    and x: "x \<in> set (referral_uses (core s))" "ru_referred_user_id x = Some u"
    and t: "t = s\<lparr> core := (core s)\<lparr> referral_uses := update_where (\<lambda>y. ru_id y = ru_id x)
        (\<lambda>y. y\<lparr> ru_rewarded_at := Some (now (st_clock E)) \<rparr>) (referral_uses (core s)) \<rparr> \<rparr>"
    by (auto simp: maybe_trigger_referral_def split: option.splits if_splits dest!: find_Some_in)
  have "y = x" if "y \<in> set (referral_uses (core s))" "ru_referred_user_id y = Some u" for y
    using links x that by (auto simp: links_ok_def filter_map comp_def distinct_map inj_on_def)
  then have "all_marked u (core t)" by (auto simp: all_marked_def list_all_iff t set_update_where)
  moreover have "links_ok (core t)" using links by (simp add: links_ok_def t map_update_where)
  moreover have "x\<lparr> ru_rewarded_at := Some (now (st_clock E)) \<rparr> \<in> set (referral_uses (core t))"
    using x(1) by (auto simp: t set_update_where)
  ultimately show ?thesis using tasks x(2) by fastforce
qed

text \<open>
  C2 (error). Whenever a payment makes the webhook start the reward of a referral, the link of the referred user is already
  marked as rewarded when the rewards service is asked, and the request changes nothing: the referrer is never paid, whether
  the service is reachable or not and whatever its settings, although the history shows the link as rewarded.
\<close>

theorem referral_never_paid:
  assumes links: "links_ok (core s)" and run: "stripe_webhook E event s = (Inr tasks, t)" and task: "Referral_Reward u plan \<in> set tasks"
  shows "(\<exists>x \<in> set (referral_uses (core t)). ru_referred_user_id x = Some u \<and> ru_rewarded_at x \<noteq> None)
    \<and> run_task reachable T ck (Referral_Reward u plan) t = (Inr (), t)"
proof -
  from run task obtain ev s1 where ev: "event = Some ev" and claim: "claim_stripe_event (we_id ev) (we_type ev) s = (Inr True, s1)"
    and body: "seq (db_transaction (handle_checkout_completed E (we_session ev))) (bnd (maybe_trigger_referral E (we_session ev)) (\<lambda>xs.
        bnd (maybe_trigger_annual_gift_card (we_session ev)) (\<lambda>ys. ret (xs @ ys)))) s1 = (Inr tasks, t)"
    by (auto simp: stripe_webhook_def bnd_Inr_iff seq_Inr_iff split: option.splits if_splits)
  from claim links have links1: "links_ok (core s1)" by (auto simp: claim_stripe_event_def split: if_splits)
  from body obtain s2 xs ys where done1: "handle_checkout_completed E (we_session ev) s1 = (Inr (), s2)"
    and trig: "maybe_trigger_referral E (we_session ev) s2 = (Inr xs, t)"
    and ys: "maybe_trigger_annual_gift_card (we_session ev) t = (Inr ys, t)" and tasks: "tasks = xs @ ys"
    by (auto simp: seq_Inr_iff bnd_Inr_iff db_transaction_Inr_iff maybe_trigger_annual_gift_card_def)
  from ys have "Referral_Reward u plan \<notin> set ys" by (auto simp: maybe_trigger_annual_gift_card_def split: option.splits if_splits)
  with task tasks have "Referral_Reward u plan \<in> set xs" by simp
  moreover have "links_ok (core s2)" by (rule keepsD [OF completed_links links1 done1])
  ultimately show ?thesis using trigger_marks [OF _ trig] run_reward_unpaid by force
qed

lemma demo_links: "links_ok (core (pending_demo None))"
  by (simp add: links_ok_def pending_demo_def)

text \<open>A referrer waits for the reward of a monthly plan.\<close>

definition demo_task_cfg :: task_cfg where
  "demo_task_cfg = \<lparr> tc_pg = (\<lambda>_ _. Some 0), tc_referral = referral_demo_cfg, tc_annual_brand = None, tc_annual_denomination = 0, tc_issue = (\<lambda>_. ret ()) \<rparr>"

theorem referral_never_paid_witness:
  "\<exists>tasks t. stripe_webhook demo_stripe (Some (paid_event 1199)) (pending_demo None) = (Inr tasks, t)
     \<and> Referral_Reward 7 ''monthly'' \<in> set tasks
     \<and> run_task True demo_task_cfg demo_clock (Referral_Reward 7 ''monthly'') t = (Inr (), t)"
proof -
  let ?ev = "paid_event 1199"
  let ?s = "(pending_demo None)\<lparr> stripe_events := [(''evt'', ''checkout.session.completed'')] \<rparr>"
  let ?f = "activated (Some ''pi'') (now (st_clock demo_stripe)) (plan_end demo_stripe (Some ''monthly'')) 1199"
  let ?t = "(\<lambda>s. s\<lparr> core := set_referral_plan 7 (Some ''monthly'') (core s) \<rparr>) (with_subs [?f (pending_row None)] ?s)"
  have ev: "pays ?ev 4 1199 ''pi''" by (simp add: pays_def paid_event_def)
  have new: "we_id ?ev \<notin> fst ` set (stripe_events (pending_demo None))" and none: "stripe_events (pending_demo None) = []"
    by (simp_all add: pending_demo_def two_google_def empty_acct_def)
  have row: "sb_status (pending_row None) = ''pending''" "sb_plan (pending_row None) = Some ''monthly''" "sb_user_id (pending_row None) = 7"
    "sb_id (pending_row None) = 4"
    by (simp_all add: pending_row_def)
  have free: "sub_rows ?s = [pending_row None]" "sub_by_id 4 ?s = Some (pending_row None)" by simp_all
  have "now (st_clock demo_stripe) < plan_end demo_stripe (Some ''monthly'')" by (simp add: demo_stripe_def plan_end_def)
  then have fok: "sub_row_ok (?f (pending_row None))" by (simp add: pending_row_def activated_def sub_row_ok_def sub_statuses_def)
  have code: "code_of_change (Some ''pending'') (?f (pending_row None)) = None" by (simp add: code_of_change_def activated_def pending_row_def)
  have "update_sub (st_clock demo_stripe) 4 ?f ?s = (Inr (), with_subs [?f (pending_row None)] ?s)"
    unfolding update_sub_Inr [OF free(2)] free(1) row code by (simp add: fok taken_by_def row campaigns_after_def)
  then have "db_transaction (handle_checkout_completed demo_stripe (we_session ?ev)) ?s = (Inr (), ?t)"
    unfolding db_transaction_Inr_iff completed_run [OF ev free(2) row(1)] row
    by (simp add: seq_run_Inr [of "update_sub (st_clock demo_stripe) 4 ?f"])
  moreover have "sub_by_id 4 ?t = Some (?f (pending_row None))" by (simp add: sub_by_id_def activated_def row)
  then have sub: "session_sub (we_session ?ev) ?t = Some (?f (pending_row None))" by (simp add: session_sub_def paid_event_def)
  have links: "referral_uses (core ?t) = [\<lparr> ru_id = 6, ru_referral_id = 5, ru_referred_user_id = Some 7, ru_plan = Some ''monthly'',
      ru_rewarded_at = None, ru_created_at = 0 \<rparr>]"
    by (simp add: set_referral_plan_def pending_demo_def)
  have "\<exists>t. maybe_trigger_referral demo_stripe (we_session ?ev) ?t = (Inr [Referral_Reward 7 ''monthly''], t)"
    unfolding maybe_trigger_referral_def bnd_reads sub using links by (simp add: activated_def row)
  ultimately have "\<exists>tasks t. stripe_webhook demo_stripe (Some ?ev) (pending_demo None) = (Inr tasks, t) \<and> Referral_Reward 7 ''monthly'' \<in> set tasks"
    unfolding webhook_run [OF ev new] none
    by (auto simp: seq_run_Inr bnd_run_Inr maybe_trigger_annual_gift_card_def paid_event_def)
  then show ?thesis using referral_never_paid [OF demo_links] by blast
qed

end
